(* ===== verification/Prelude.thy ===== *)
theory Prelude
  imports Complex_Main "HOL-Library.List_Lexorder" "HOL-Library.Char_ord"
    "HOL-Library.Product_Lexorder"
begin

text \<open>
  Shared vocabulary of the development: instants, tokens, JSON values, and relational tables.

  A PostgreSQL table is the list of its rows. Every axis table of the program is addressed by
  \<^verbatim>\<open>WHERE run_id=$1 AND connector_id=$2 AND <condition>\<close>; the combinators \<open>update_rows\<close>,
  \<open>row_count\<close>, \<open>pick_row\<close>, \<open>select_row\<close> and \<open>rows_at\<close> below are that pattern, with the two key columns
  as parameters. \<open>row_count\<close> is node-postgres' \<^verbatim>\<open>rowCount\<close>: the number of rows a statement
  matched. The lemmas relate the five combinators; a fact about a primary key enters only
  where a count has to be exactly one.
\<close>

named_theorems key_simps \<open>rewriting of look-ups through table updates\<close>
named_theorems store_defs \<open>definitions of the store operations\<close>

subsection \<open>Scalars\<close>

text \<open>Instants are microseconds (the resolution of \<^verbatim>\<open>timestamptz\<close>); a UUID is only compared.\<close>

type_synonym instant = int
type_synonym uuid = nat

text \<open>\<^verbatim>\<open>new Date(value).toISOString()\<close> narrows a microsecond instant to milliseconds.\<close>

definition iso :: "instant \<Rightarrow> instant" where
  "iso t = 1000 * (t div 1000)"

text \<open>A \<^verbatim>\<open>jsonb\<close> value in its normal form (object keys distinct and ordered), so that \<^verbatim>\<open>=\<close> on
  \<^verbatim>\<open>jsonb\<close> is equality.\<close>

datatype json =
    JNull
  | JBool bool
  | JNum rat
  | JStr string
  | JArr "json list"
  | JObj "(string \<times> json) list"

fun json_field :: "json \<Rightarrow> string \<Rightarrow> json option" where
  "json_field (JObj kvs) k = map_of kvs k"
| "json_field _ k = None"

fun json_is_object :: "json \<Rightarrow> bool" where
  "json_is_object (JObj kvs) = True"
| "json_is_object _ = False"

text \<open>The white space \<^verbatim>\<open>trim\<close> strips and \<^verbatim>\<open>\s\<close> matches, among one-byte characters.\<close>

definition js_space :: "char \<Rightarrow> bool" where
  "js_space x \<longleftrightarrow> of_char x \<in> {9::nat, 10, 11, 12, 13, 32, 160}"

definition js_trim :: "string \<Rightarrow> string" where
  "js_trim s = rev (dropWhile js_space (rev (dropWhile js_space s)))"

text \<open>\<^verbatim>\<open>`${n}`\<close> for a non-negative integer.\<close>

fun nat_string :: "nat \<Rightarrow> string" where
  "nat_string n = (if n < 10 then [char_of (48 + n)] else nat_string (n div 10) @ [char_of (48 + n mod 10)])"

declare nat_string.simps [simp del]

text \<open>SQL \<^verbatim>\<open>COALESCE\<close>, JavaScript \<^verbatim>\<open>??\<close>.\<close>

fun coalesce :: "'a option \<Rightarrow> 'a \<Rightarrow> 'a" where
  "coalesce None d = d"
| "coalesce (Some x) d = x"

fun coalesce2 :: "'a option \<Rightarrow> 'a option \<Rightarrow> 'a option" where
  "coalesce2 None d = d"
| "coalesce2 (Some x) d = Some x"

lemma coalesce_split:
  "P (coalesce x d) \<longleftrightarrow> (x = None \<longrightarrow> P d) \<and> (\<forall>y. x = Some y \<longrightarrow> P y)"
  by (cases x) auto

subsection \<open>Tables\<close>

definition at_key :: "('r \<Rightarrow> string) \<Rightarrow> ('r \<Rightarrow> string) \<Rightarrow> string \<Rightarrow> string \<Rightarrow> 'r \<Rightarrow> bool" where
  "at_key run_of conn_of c k r \<longleftrightarrow> run_of r = k \<and> conn_of r = c"

definition rows_at :: "('r \<Rightarrow> string) \<Rightarrow> ('r \<Rightarrow> string) \<Rightarrow> string \<Rightarrow> string \<Rightarrow> 'r list \<Rightarrow> 'r list" where
  "rows_at run_of conn_of c k t = filter (at_key run_of conn_of c k) t"

definition select_row ::
  "('r \<Rightarrow> string) \<Rightarrow> ('r \<Rightarrow> string) \<Rightarrow> string \<Rightarrow> string \<Rightarrow> 'r list \<Rightarrow> 'r option" where
  "select_row run_of conn_of c k t = find (at_key run_of conn_of c k) t"

definition pick_row ::
  "('r \<Rightarrow> string) \<Rightarrow> ('r \<Rightarrow> string) \<Rightarrow> string \<Rightarrow> string \<Rightarrow> ('r \<Rightarrow> bool) \<Rightarrow> 'r list \<Rightarrow> 'r option" where
  "pick_row run_of conn_of c k q t = find (\<lambda>r. at_key run_of conn_of c k r \<and> q r) t"

definition row_count ::
  "('r \<Rightarrow> string) \<Rightarrow> ('r \<Rightarrow> string) \<Rightarrow> string \<Rightarrow> string \<Rightarrow> ('r \<Rightarrow> bool) \<Rightarrow> 'r list \<Rightarrow> nat" where
  "row_count run_of conn_of c k q t = length (filter (\<lambda>r. at_key run_of conn_of c k r \<and> q r) t)"

definition update_rows ::
  "('r \<Rightarrow> string) \<Rightarrow> ('r \<Rightarrow> string) \<Rightarrow> string \<Rightarrow> string \<Rightarrow> ('r \<Rightarrow> bool) \<Rightarrow> ('r \<Rightarrow> 'r) \<Rightarrow> 'r list \<Rightarrow> 'r list" where
  "update_rows run_of conn_of c k q f t =
     map (\<lambda>r. if at_key run_of conn_of c k r \<and> q r then f r else r) t"

text \<open>An assignment that leaves the two key columns alone.\<close>

definition keeps :: "('r \<Rightarrow> string) \<Rightarrow> ('r \<Rightarrow> string) \<Rightarrow> ('r \<Rightarrow> 'r) \<Rightarrow> bool" where
  "keeps run_of conn_of f \<longleftrightarrow> (\<forall>r. run_of (f r) = run_of r \<and> conn_of (f r) = conn_of r)"

declare keeps_def [simp]

lemma find_map_keep:
  assumes "\<And>r. P (g r) = P r"
  shows "find P (map g t) = map_option g (find P t)"
  using assms by (induction t) auto

lemma find_SomeD: "find P xs = Some x \<Longrightarrow> P x \<and> x \<in> set xs"
  by (auto simp: find_Some_iff)

lemma select_row_update:
  assumes "keeps run_of conn_of f"
  shows "select_row run_of conn_of c' k' (update_rows run_of conn_of c k q f t) =
     (if c' = c \<and> k' = k
      then map_option (\<lambda>r. if q r then f r else r) (select_row run_of conn_of c k t)
      else select_row run_of conn_of c' k' t)"
proof -
  let ?g = "\<lambda>r. if at_key run_of conn_of c k r \<and> q r then f r else r"
  have "find (at_key run_of conn_of c' k') (map ?g t) =
      map_option ?g (find (at_key run_of conn_of c' k') t)"
    using assms by (intro find_map_keep) (auto simp: at_key_def keeps_def)
  also have "\<dots> = (if c' = c \<and> k' = k
      then map_option (\<lambda>r. if q r then f r else r) (find (at_key run_of conn_of c k) t)
      else find (at_key run_of conn_of c' k') t)"
  proof (cases "find (at_key run_of conn_of c' k') t")
    case (Some r)
    then have "run_of r = k'" "conn_of r = c'"
      by (auto simp: at_key_def dest: find_SomeD)
    with Some show ?thesis by (auto simp: at_key_def)
  qed auto
  finally show ?thesis by (simp add: select_row_def update_rows_def)
qed

lemma rows_at_update:
  assumes "keeps run_of conn_of f"
  shows "rows_at run_of conn_of c' k' (update_rows run_of conn_of c k q f t) =
     (if c' = c \<and> k' = k
      then map (\<lambda>r. if q r then f r else r) (rows_at run_of conn_of c k t)
      else rows_at run_of conn_of c' k' t)"
  using assms by (induction t) (auto simp: rows_at_def update_rows_def at_key_def keeps_def)

lemma pick_row_pk:
  assumes "distinct (map run_of t)"
  shows "pick_row run_of conn_of c k q t =
     Option.bind (select_row run_of conn_of c k t) (\<lambda>r. if q r then Some r else None)"
  using assms
proof (induction t)
  case Nil
  then show ?case by (simp add: pick_row_def select_row_def)
next
  case (Cons a t)
  have "find (\<lambda>r. at_key run_of conn_of c k r \<and> q r) t = None" if "at_key run_of conn_of c k a"
    using that Cons.prems by (auto simp: find_None_iff at_key_def image_iff)
  with Cons show ?case by (auto simp: pick_row_def select_row_def)
qed

lemma row_count_pk:
  assumes "distinct (map run_of t)"
  shows "row_count run_of conn_of c k q t =
     (case select_row run_of conn_of c k t of None \<Rightarrow> 0 | Some r \<Rightarrow> if q r then 1 else 0)"
  using assms
proof (induction t)
  case Nil
  then show ?case by (simp add: row_count_def select_row_def)
next
  case (Cons a t)
  have "filter (\<lambda>r. at_key run_of conn_of c k r \<and> q r) t = []" if "at_key run_of conn_of c k a"
    using that Cons.prems by (auto simp: filter_empty_conv at_key_def image_iff)
  with Cons show ?case by (auto simp: row_count_def select_row_def)
qed

lemma map_key_update:
  assumes "keeps run_of conn_of f" and "\<And>r. g (f r) = g r"
  shows "map g (update_rows run_of conn_of c k q f t) = map g t"
  using assms by (simp add: update_rows_def)

lemma Ball_update_rows:
  assumes "\<And>r. r \<in> set t \<Longrightarrow> P r"
    and "\<And>r. r \<in> set t \<Longrightarrow> at_key run_of conn_of c k r \<Longrightarrow> q r \<Longrightarrow> P r \<Longrightarrow> P (f r)"
  shows "\<forall>r \<in> set (update_rows run_of conn_of c k q f t). P r"
  using assms by (auto simp: update_rows_def)

lemma select_rowD:
  "select_row run_of conn_of c k t = Some r \<Longrightarrow> r \<in> set t \<and> run_of r = k \<and> conn_of r = c"
  by (auto simp: select_row_def at_key_def dest: find_SomeD)

lemma select_row_None:
  "select_row run_of conn_of c k t = None \<longleftrightarrow> (\<forall>r \<in> set t. \<not> (run_of r = k \<and> conn_of r = c))"
  by (auto simp: select_row_def find_None_iff at_key_def)

lemma select_row_append:
  "select_row run_of conn_of c k (t @ u) =
     (case select_row run_of conn_of c k t of None \<Rightarrow> select_row run_of conn_of c k u | Some r \<Rightarrow> Some r)"
  by (induction t) (auto simp: select_row_def)

lemma select_row_single:
  "select_row run_of conn_of c k [r] = (if run_of r = k \<and> conn_of r = c then Some r else None)"
  by (simp add: select_row_def at_key_def)

lemma update_rows_id:
  assumes "\<And>r. r \<in> set t \<Longrightarrow> at_key run_of conn_of c k r \<Longrightarrow> \<not> q r"
  shows "update_rows run_of conn_of c k q f t = t"
  unfolding update_rows_def using assms by (intro map_idI) auto

lemma row_count_0: "row_count run_of conn_of c k q t = 0 \<Longrightarrow> update_rows run_of conn_of c k q f t = t"
  by (rule update_rows_id) (auto simp: row_count_def filter_empty_conv)

lemma select_row_mem:
  assumes "distinct (map run_of t)" "r \<in> set t"
  shows "select_row run_of conn_of (conn_of r) (run_of r) t = Some r"
proof -
  obtain x where x: "select_row run_of conn_of (conn_of r) (run_of r) t = Some x"
    using assms(2) by (cases "select_row run_of conn_of (conn_of r) (run_of r) t") (auto simp: select_row_None)
  then have "x \<in> set t" "run_of x = run_of r" by (auto dest: select_rowD)
  with assms show ?thesis using x by (metis distinct_map inj_onD)
qed

lemma sort_key_hd_mem: "sort_key f xs = y # ys \<Longrightarrow> y \<in> set xs"
  by (metis list.set_intros(1) set_sort)

lemma bind_guard:
  "Option.bind x (\<lambda>r. if q r then Some r else None) = Some b \<longleftrightarrow> x = Some b \<and> q b"
  by (cases x) auto

end
