(* ===== verification/Catalog.thy ===== *)
theory Catalog
  imports Prelude
begin

text \<open>
  The memory catalog: its tables as records of rows and the operations of \<^verbatim>\<open>services/memory-catalog/src/catalog-store.ts\<close>. An
  extraction or a revision is published in three steps: reserve the intent, confirm that the object is stored, select it when the
  extraction is registered or the revision created. A \<^verbatim>\<open>jsonb\<close> column that holds a request is the request as a record; two
  requests are equal as \<^verbatim>\<open>jsonb\<close> exactly when the records are. A listing orders text by its bytes. \<open>inTransaction\<close>
  commits what its operation returns and drops everything when it throws. Where an operation reads a row before it takes the lock
  that orders the writers, the state it read is an argument of its own.
\<close>

subsection \<open>Rows\<close>

record artifact_reference =
  art_uri :: string
  art_digest :: string
  art_media_type :: string
  art_size_bytes :: nat

datatype actor_kind = UserActor | ServiceActor

record catalog_actor =
  actor_kind :: actor_kind
  actor_id :: string

record extraction_registration =
  reg_extraction_id :: string
  reg_source_workflow :: string
  reg_source_run_id :: string
  reg_source_unit_id :: string
  reg_diagnostic_bundle_digest :: string
  reg_trajectory_reference :: artifact_reference
  reg_observation :: "string option"

record extraction_publication_intent =
  ei_registration :: extraction_registration
  ei_summary :: string

datatype revision_source =
    MaintenanceSource (ms_id: string) (ms_extraction_ids: "string list") (ms_trajectory: artifact_reference)
  | OperatorSource (os_id: string) (os_actor: catalog_actor)

record revision_creation =
  rc_expected_active_revision :: nat
  rc_memory_tree_reference :: artifact_reference
  rc_source :: revision_source

datatype publication_status = IntentReserved | IntentPresent | IntentSelected

datatype source_kind = KindMaintenance | KindOperator

record extraction_publication_row =
  ep_extraction_id :: string
  ep_digest :: string
  ep_intent :: extraction_publication_intent
  ep_status :: publication_status
  ep_created_at :: instant

record revision_publication_row =
  rp_identity :: "source_kind \<times> string \<times> string \<times> string"
  rp_intent :: revision_creation
  rp_status :: publication_status
  rp_created_at :: instant

record extraction_row =
  ex_extraction_id :: string
  ex_source_workflow :: string
  ex_source_run_id :: string
  ex_source_unit_id :: string
  ex_diagnostic_bundle_digest :: string
  ex_trajectory_reference :: artifact_reference
  ex_created_at :: instant

record observation_row =
  ob_extraction_id :: string
  ob_body_markdown :: string
  ob_consumed_revision :: "nat option"
  ob_created_at :: instant

record revision_row =
  rv_revision :: nat
  rv_predecessor_revision :: "nat option"
  rv_memory_tree_reference :: artifact_reference
  rv_source_kind :: source_kind
  rv_maintenance_id :: "string option"
  rv_trajectory_reference :: "artifact_reference option"
  rv_operation_id :: "string option"
  rv_actor :: "catalog_actor option"
  rv_created_at :: instant

record restore_row =
  ro_operation_id :: string
  ro_expected_active_revision :: nat
  ro_restored_revision :: nat
  ro_actor :: catalog_actor
  ro_created_at :: instant

datatype control_state = MaintenanceEnabled | MaintenancePausedState

record maintenance_control =
  mc_state :: control_state
  mc_generation :: nat
  mc_changed_by :: catalog_actor
  mc_changed_at :: instant

record control_operation_row =
  co_operation_id :: string
  co_target_state :: control_state
  co_expected_generation :: nat
  co_actor :: catalog_actor
  co_control :: maintenance_control

text \<open>The two singleton tables are fields; the schema inserts their rows and nothing deletes them.\<close>

record catalog =
  extraction_publications :: "extraction_publication_row list"
  revision_publications :: "revision_publication_row list"
  extractions :: "extraction_row list"
  observations :: "observation_row list"
  tree_revisions :: "revision_row list"
  active_revision :: nat
  restore_operations :: "restore_row list"
  control :: maintenance_control
  control_operations :: "control_operation_row list"

definition initial_catalog :: "instant \<Rightarrow> catalog" where
  "initial_catalog now =
     \<lparr>extraction_publications = [], revision_publications = [], extractions = [], observations = [], tree_revisions = [],
      active_revision = 0, restore_operations = [],
      control = \<lparr>mc_state = MaintenanceEnabled, mc_generation = 0,
        mc_changed_by = \<lparr>actor_kind = ServiceActor, actor_id = ''memory-catalog''\<rparr>, mc_changed_at = now\<rparr>,
      control_operations = []\<rparr>"

datatype catalog_error =
    ExtractionConflictError string
  | MemoryTreeRevisionConflictError string
  | MaintenanceControlConflictError string
  | MaintenancePausedError string
  | DuplicateKey string
  | NoRow

definition inTransaction :: "(catalog \<Rightarrow> catalog_error + 'a \<times> catalog) \<Rightarrow> catalog \<Rightarrow> (catalog_error + 'a) \<times> catalog" where
  "inTransaction operation db = (case operation db of Inl e \<Rightarrow> (Inl e, db) | Inr (a, db') \<Rightarrow> (Inr a, db'))"

subsection \<open>Extractions\<close>

definition at_extraction :: "string \<Rightarrow> string \<Rightarrow> extraction_publication_row \<Rightarrow> bool" where
  "at_extraction eid digest r \<longleftrightarrow> ep_extraction_id r = eid \<and> ep_digest r = digest"

definition reserveExtractionPublication ::
  "instant \<Rightarrow> extraction_publication_intent \<Rightarrow> catalog \<Rightarrow> (catalog_error + extraction_publication_intent \<times> publication_status) \<times> catalog"
where
  "reserveExtractionPublication now intent = inTransaction (\<lambda>db.
     let eid = reg_extraction_id (ei_registration intent);
         digest = art_digest (reg_trajectory_reference (ei_registration intent));
         hit = at_extraction eid digest;
         rows = (if list_ex hit (extraction_publications db) then extraction_publications db
                 else extraction_publications db @
                   [\<lparr>ep_extraction_id = eid, ep_digest = digest, ep_intent = intent, ep_status = IntentReserved, ep_created_at = now\<rparr>])
     in case List.find hit rows of
          None \<Rightarrow> Inl NoRow
        | Some row \<Rightarrow>
            if ep_intent row \<noteq> intent then Inl (ExtractionConflictError ''Extraction publication intent changed.'')
            else Inr ((ep_intent row, ep_status row), db\<lparr>extraction_publications := rows\<rparr>))"

definition confirmed :: "publication_status \<Rightarrow> publication_status" where
  "confirmed st = (if st = IntentSelected then st else IntentPresent)"

definition confirmExtractionPublication ::
  "extraction_publication_intent \<Rightarrow> catalog \<Rightarrow> (catalog_error + extraction_publication_intent \<times> publication_status) \<times> catalog" where
  "confirmExtractionPublication intent db =
     (let hit = (\<lambda>r. at_extraction (reg_extraction_id (ei_registration intent))
                       (art_digest (reg_trajectory_reference (ei_registration intent))) r \<and> ep_intent r = intent)
      in case List.find hit (extraction_publications db) of
           None \<Rightarrow> (Inl (ExtractionConflictError ''Matching extraction publication reservation is required.''), db)
         | Some row \<Rightarrow> (Inr (ep_intent row, confirmed (ep_status row)),
             db\<lparr>extraction_publications :=
                map (\<lambda>r. if hit r then r\<lparr>ep_status := confirmed (ep_status r)\<rparr> else r) (extraction_publications db)\<rparr>))"

definition listExtractionPublications :: "string \<Rightarrow> catalog \<Rightarrow> (extraction_publication_intent \<times> publication_status) list" where
  "listExtractionPublications eid db =
     map (\<lambda>r. (ep_intent r, ep_status r))
       (sort_key (\<lambda>r. (ep_status r \<noteq> IntentSelected, ep_created_at r, ep_digest r))
         (filter (\<lambda>r. ep_extraction_id r = eid) (extraction_publications db)))"

definition same_extraction :: "extraction_registration \<Rightarrow> catalog \<Rightarrow> extraction_row \<Rightarrow> bool" where
  "same_extraction input db x \<longleftrightarrow>
     ex_source_workflow x = reg_source_workflow input \<and> ex_source_run_id x = reg_source_run_id input \<and>
     ex_source_unit_id x = reg_source_unit_id input \<and> ex_diagnostic_bundle_digest x = reg_diagnostic_bundle_digest input \<and>
     ex_trajectory_reference x = reg_trajectory_reference input \<and>
     map_option ob_body_markdown (List.find (\<lambda>o'. ob_extraction_id o' = ex_extraction_id x) (observations db)) = reg_observation input"

definition registered_extraction :: "instant \<Rightarrow> extraction_registration \<Rightarrow> extraction_row" where
  "registered_extraction now input =
     \<lparr>ex_extraction_id = reg_extraction_id input, ex_source_workflow = reg_source_workflow input,
      ex_source_run_id = reg_source_run_id input, ex_source_unit_id = reg_source_unit_id input,
      ex_diagnostic_bundle_digest = reg_diagnostic_bundle_digest input,
      ex_trajectory_reference = reg_trajectory_reference input, ex_created_at = now\<rparr>"

definition registered_observation :: "instant \<Rightarrow> extraction_registration \<Rightarrow> observation_row list" where
  "registered_observation now input =
     (case reg_observation input of
        None \<Rightarrow> []
      | Some body \<Rightarrow> [\<lparr>ob_extraction_id = reg_extraction_id input, ob_body_markdown = body, ob_consumed_revision = None,
          ob_created_at = now\<rparr>])"

definition registerExtraction :: "instant \<Rightarrow> extraction_registration \<Rightarrow> catalog \<Rightarrow> (catalog_error + bool) \<times> catalog" where
  "registerExtraction now input = inTransaction (\<lambda>db.
     let eid = reg_extraction_id input in
     if list_ex (\<lambda>r. ep_extraction_id r = eid \<and> ep_status r = IntentSelected \<and> ei_registration (ep_intent r) \<noteq> input)
          (extraction_publications db)
     then Inl (ExtractionConflictError ''A different extraction publication is already selected.'')
     else case List.find (\<lambda>r. ep_extraction_id r = eid \<and> ei_registration (ep_intent r) = input \<and> ep_status r \<noteq> IntentReserved)
                 (extraction_publications db) of
            None \<Rightarrow> Inl (ExtractionConflictError ''A confirmed extraction publication is required.'')
          | Some row \<Rightarrow>
              let db1 = db\<lparr>extraction_publications :=
                    map (\<lambda>r. if at_extraction eid (ep_digest row) r then r\<lparr>ep_status := IntentSelected\<rparr> else r)
                      (extraction_publications db)\<rparr>
              in case List.find (\<lambda>x. ex_extraction_id x = eid) (extractions db1) of
                   None \<Rightarrow> Inr (True, db1\<lparr>extractions := extractions db1 @ [registered_extraction now input],
                       observations := observations db1 @ registered_observation now input\<rparr>)
                 | Some x \<Rightarrow>
                     if \<not> same_extraction input db1 x
                     then Inl (ExtractionConflictError (''Extraction id already exists with different content: '' @ eid))
                     else Inr (False, db1))"

subsection \<open>Maintenance control\<close>

record control_input =
  ci_operation_id :: string
  ci_expected_generation :: nat
  ci_actor :: catalog_actor

fun control_text :: "control_state \<Rightarrow> string" where
  "control_text MaintenanceEnabled = ''enabled''"
| "control_text MaintenancePausedState = ''paused''"

fun other_state :: "control_state \<Rightarrow> control_state" where
  "other_state MaintenancePausedState = MaintenanceEnabled"
| "other_state MaintenanceEnabled = MaintenancePausedState"

definition project_control :: "maintenance_control \<Rightarrow> maintenance_control" where
  "project_control c = c\<lparr>mc_changed_at := iso (mc_changed_at c)\<rparr>"

text \<open>\<open>seen\<close> is what the look-up of the operation id read, before the row of the control was locked.\<close>

definition changeMaintenanceControl ::
  "instant \<Rightarrow> control_state \<Rightarrow> control_input \<Rightarrow> catalog \<Rightarrow> catalog \<Rightarrow> (catalog_error + bool \<times> maintenance_control) \<times> catalog" where
  "changeMaintenanceControl now target input seen = inTransaction (\<lambda>db.
     case List.find (\<lambda>o'. co_operation_id o' = ci_operation_id input) (control_operations seen) of
       Some o' \<Rightarrow>
         if \<not> (co_target_state o' = target \<and> co_expected_generation o' = ci_expected_generation input \<and> co_actor o' = ci_actor input)
         then Inl (MaintenanceControlConflictError ''Control operation id already exists with different content.'')
         else Inr ((False, project_control (co_control o')), db)
     | None \<Rightarrow>
         if mc_generation (control db) \<noteq> ci_expected_generation input
         then Inl (MaintenanceControlConflictError
                (''Maintenance control generation no longer matches '' @ nat_string (ci_expected_generation input) @ ''.''))
         else if mc_state (control db) \<noteq> other_state target
         then Inl (MaintenanceControlConflictError
                (''Maintenance control cannot transition from '' @ control_text (mc_state (control db)) @ '' to '' @ control_text target @ ''.''))
         else
           (let changed = \<lparr>mc_state = target, mc_generation = Suc (mc_generation (control db)), mc_changed_by = ci_actor input,
                  mc_changed_at = now\<rparr>
            in if list_ex (\<lambda>o'. co_operation_id o' = ci_operation_id input) (control_operations db)
               then Inl (DuplicateKey ''maintenance_control_operations_pkey'')
               else Inr ((True, project_control changed),
                 db\<lparr>control := changed,
                    control_operations := control_operations db @
                      [\<lparr>co_operation_id = ci_operation_id input, co_target_state = target,
                        co_expected_generation = ci_expected_generation input, co_actor = ci_actor input, co_control = changed\<rparr>]\<rparr>)))"
subsection \<open>Revisions\<close>

fun kind_of_source :: "revision_source \<Rightarrow> source_kind" where
  "kind_of_source (MaintenanceSource m ids t) = KindMaintenance"
| "kind_of_source (OperatorSource p a) = KindOperator"

fun source_id :: "revision_source \<Rightarrow> string" where
  "source_id (MaintenanceSource m ids t) = m"
| "source_id (OperatorSource p a) = p"

fun trajectory_digest :: "revision_source \<Rightarrow> string" where
  "trajectory_digest (MaintenanceSource m ids t) = art_digest t"
| "trajectory_digest (OperatorSource p a) = []"

definition revisionPublicationIdentity :: "revision_creation \<Rightarrow> source_kind \<times> string \<times> string \<times> string" where
  "revisionPublicationIdentity input =
     (kind_of_source (rc_source input), source_id (rc_source input), art_digest (rc_memory_tree_reference input),
      trajectory_digest (rc_source input))"

text \<open>The contract's view of an intent has no actor.\<close>

datatype published_source = PublishedMaintenance string "string list" artifact_reference | PublishedOperator string

fun publish_source :: "revision_source \<Rightarrow> published_source" where
  "publish_source (MaintenanceSource m ids t) = PublishedMaintenance m ids t"
| "publish_source (OperatorSource p a) = PublishedOperator p"

type_synonym revision_publication = "publication_status \<times> nat \<times> artifact_reference \<times> published_source"

definition projectRevisionPublication :: "revision_creation \<Rightarrow> publication_status \<Rightarrow> revision_publication" where
  "projectRevisionPublication intent status =
     (status, rc_expected_active_revision intent, rc_memory_tree_reference intent, publish_source (rc_source intent))"

definition reserveRevisionPublication ::
  "instant \<Rightarrow> revision_creation \<Rightarrow> catalog \<Rightarrow> (catalog_error + revision_publication) \<times> catalog" where
  "reserveRevisionPublication now intent = inTransaction (\<lambda>db.
     let identity = revisionPublicationIdentity intent;
         hit = (\<lambda>r. rp_identity r = identity);
         rows = (if list_ex hit (revision_publications db) then revision_publications db
                 else revision_publications db @
                   [\<lparr>rp_identity = identity, rp_intent = intent, rp_status = IntentReserved, rp_created_at = now\<rparr>])
     in case List.find hit rows of
          None \<Rightarrow> Inl NoRow
        | Some row \<Rightarrow>
            if rp_intent row \<noteq> intent then Inl (MemoryTreeRevisionConflictError ''Revision publication intent changed.'')
            else Inr (projectRevisionPublication (rp_intent row) (rp_status row), db\<lparr>revision_publications := rows\<rparr>))"

definition confirmRevisionPublication :: "revision_creation \<Rightarrow> catalog \<Rightarrow> (catalog_error + revision_publication) \<times> catalog" where
  "confirmRevisionPublication intent db =
     (let hit = (\<lambda>r. rp_identity r = revisionPublicationIdentity intent \<and> rp_intent r = intent)
      in case List.find hit (revision_publications db) of
           None \<Rightarrow> (Inl (MemoryTreeRevisionConflictError ''Matching revision publication reservation is required.''), db)
         | Some row \<Rightarrow> (Inr (projectRevisionPublication (rp_intent row) (confirmed (rp_status row))),
             db\<lparr>revision_publications :=
                map (\<lambda>r. if hit r then r\<lparr>rp_status := confirmed (rp_status r)\<rparr> else r) (revision_publications db)\<rparr>))"

definition listRevisionPublications :: "source_kind \<Rightarrow> string \<Rightarrow> catalog \<Rightarrow> revision_publication list" where
  "listRevisionPublications kind ownerId db =
     map (\<lambda>r. projectRevisionPublication (rp_intent r) (rp_status r))
       (sort_key (\<lambda>r. (rp_status r \<noteq> IntentSelected, rp_created_at r, snd (snd (rp_identity r))))
         (filter (\<lambda>r. fst (rp_identity r) = kind \<and> fst (snd (rp_identity r)) = ownerId) (revision_publications db)))"

definition pending :: "catalog \<Rightarrow> observation_row list" where
  "pending db = filter (\<lambda>o'. ob_consumed_revision o' = None) (observations db)"

definition revision_tree :: "catalog \<Rightarrow> nat \<Rightarrow> artifact_reference option" where
  "revision_tree db n = map_option rv_memory_tree_reference (List.find (\<lambda>r. rv_revision r = n) (tree_revisions db))"

definition getMaintenanceInput :: "nat \<Rightarrow> catalog \<Rightarrow> (nat \<times> artifact_reference option \<times> (string \<times> string) list) option" where
  "getMaintenanceInput limit db =
     (let rows = take limit (sort_key (\<lambda>o'. (ob_created_at o', ob_extraction_id o')) (pending db)) in
      if rows = [] then None
      else Some (active_revision db, revision_tree db (active_revision db), map (\<lambda>o'. (ob_extraction_id o', ob_body_markdown o')) rows))"

definition nullif_zero :: "nat \<Rightarrow> nat option" where
  "nullif_zero n = (if n = 0 then None else Some n)"

definition consumed_by :: "catalog \<Rightarrow> nat \<Rightarrow> string list" where
  "consumed_by db n = map ob_extraction_id (filter (\<lambda>o'. ob_consumed_revision o' = Some n) (observations db))"

text \<open>\<open>collated\<close> sorts ids in the collation of the database; the request's ids are sorted by code units.\<close>

fun same_source :: "(string list \<Rightarrow> string list) \<Rightarrow> catalog \<Rightarrow> revision_source \<Rightarrow> revision_row \<Rightarrow> bool" where
  "same_source collated db (MaintenanceSource m ids t) r =
     (rv_trajectory_reference r = Some t \<and> collated (consumed_by db (rv_revision r)) = sort ids)"
| "same_source collated db (OperatorSource p a) r = (rv_actor r = Some a)"

fun made_by :: "revision_source \<Rightarrow> revision_row \<Rightarrow> bool" where
  "made_by (MaintenanceSource m ids t) r = (rv_maintenance_id r = Some m)"
| "made_by (OperatorSource p a) r = (rv_operation_id r = Some p)"

definition identical_revision :: "(string list \<Rightarrow> string list) \<Rightarrow> revision_creation \<Rightarrow> catalog \<Rightarrow> revision_row \<Rightarrow> bool" where
  "identical_revision collated input db r \<longleftrightarrow>
     rv_predecessor_revision r = nullif_zero (rc_expected_active_revision input) \<and>
     rv_memory_tree_reference r = rc_memory_tree_reference input \<and> same_source collated db (rc_source input) r"

fun source_name :: "revision_source \<Rightarrow> string" where
  "source_name (MaintenanceSource m ids t) = ''Maintenance id''"
| "source_name (OperatorSource p a) = ''Operation id''"

definition new_revision :: "instant \<Rightarrow> nat \<Rightarrow> revision_creation \<Rightarrow> revision_row" where
  "new_revision now n input =
     (let row = (\<lambda>m t p a. \<lparr>rv_revision = n, rv_predecessor_revision = nullif_zero (rc_expected_active_revision input),
            rv_memory_tree_reference = rc_memory_tree_reference input, rv_source_kind = kind_of_source (rc_source input),
            rv_maintenance_id = m, rv_trajectory_reference = t, rv_operation_id = p, rv_actor = a, rv_created_at = now\<rparr>)
      in case rc_source input of
           MaintenanceSource m ids t \<Rightarrow> row (Some m) (Some t) None None
         | OperatorSource p a \<Rightarrow> row None None (Some p) (Some a))"

fun claimed_ids :: "revision_source \<Rightarrow> string list" where
  "claimed_ids (MaintenanceSource m ids t) = ids"
| "claimed_ids (OperatorSource p a) = []"

fun max_revision :: "revision_row list \<Rightarrow> nat" where
  "max_revision [] = 0"
| "max_revision (r # rs) = max (rv_revision r) (max_revision rs)"

definition consume :: "nat \<Rightarrow> string list \<Rightarrow> observation_row list \<Rightarrow> observation_row list" where
  "consume n ids =
     map (\<lambda>o'. if ob_extraction_id o' \<in> set ids \<and> ob_consumed_revision o' = None then o'\<lparr>ob_consumed_revision := Some n\<rparr> else o')"

definition append_revision :: "instant \<Rightarrow> revision_creation \<Rightarrow> catalog \<Rightarrow> nat \<times> catalog" where
  "append_revision now input db =
     (let n = Suc (max_revision (tree_revisions db)) in
      (n, db\<lparr>tree_revisions := tree_revisions db @ [new_revision now n input],
             observations := consume n (claimed_ids (rc_source input)) (observations db), active_revision := n\<rparr>))"

definition stale_revision :: "nat \<Rightarrow> catalog_error" where
  "stale_revision n = MemoryTreeRevisionConflictError
     (''Active revision no longer matches expected active revision '' @ nat_string n @ ''.'')"

definition createMemoryTreeRevision ::
  "(string list \<Rightarrow> string list) \<Rightarrow> instant \<Rightarrow> revision_creation \<Rightarrow> catalog \<Rightarrow>
     (catalog_error + bool \<times> nat \<times> source_kind \<times> string) \<times> catalog"
where
  "createMemoryTreeRevision collated now input = inTransaction (\<lambda>db.
     let source = rc_source input; identity = revisionPublicationIdentity input;
         answer = (\<lambda>created n. (created, n, kind_of_source source, source_id source));
         ids = claimed_ids source;
         found = filter (\<lambda>o'. ob_extraction_id o' \<in> set ids) (pending db)
     in if list_ex (\<lambda>r. fst (rp_identity r) = fst identity \<and> fst (snd (rp_identity r)) = fst (snd identity) \<and>
                        rp_status r = IntentSelected \<and> rp_intent r \<noteq> input) (revision_publications db)
        then Inl (MemoryTreeRevisionConflictError ''A different revision publication is already selected.'')
        else if \<not> list_ex (\<lambda>r. rp_identity r = identity \<and> rp_intent r = input \<and> rp_status r \<noteq> IntentReserved) (revision_publications db)
        then Inl (MemoryTreeRevisionConflictError ''A confirmed revision publication is required.'')
        else
         (let db1 = db\<lparr>revision_publications :=
                map (\<lambda>r. if rp_identity r = identity then r\<lparr>rp_status := IntentSelected\<rparr> else r) (revision_publications db)\<rparr>
          in case List.find (made_by source) (tree_revisions db1) of
               Some r \<Rightarrow>
                 if \<not> identical_revision collated input db1 r
                 then Inl (MemoryTreeRevisionConflictError (source_name source @ '' already exists with different content.''))
                 else Inr (answer False (rv_revision r), db1)
             | None \<Rightarrow>
                 if kind_of_source source = KindMaintenance \<and> mc_state (control db1) \<noteq> MaintenanceEnabled
                 then Inl (MaintenancePausedError ''Automatic memory maintenance is paused.'')
                 else if active_revision db1 \<noteq> rc_expected_active_revision input
                 then Inl (stale_revision (rc_expected_active_revision input))
                 else if kind_of_source source = KindMaintenance \<and>
                         (length found \<noteq> length ids \<or> \<not> list_all (\<lambda>i. list_ex (\<lambda>o'. ob_extraction_id o' = i) found) ids)
                 then Inl (MemoryTreeRevisionConflictError ''One or more source observations are no longer pending.'')
                 else (let (n, db2) = append_revision now input db1 in Inr (answer True n, db2))))"

record restore_input =
  ri_operation_id :: string
  ri_expected_active_revision :: nat
  ri_restored_revision :: nat
  ri_actor :: catalog_actor

text \<open>\<open>seen\<close> is what the look-up of the operation id read, before the row of the active revision was locked.\<close>

definition restoreMemoryTree ::
  "instant \<Rightarrow> restore_input \<Rightarrow> catalog \<Rightarrow> catalog \<Rightarrow> (catalog_error + bool \<times> nat \<times> string) \<times> catalog" where
  "restoreMemoryTree now input seen = inTransaction (\<lambda>db.
     case List.find (\<lambda>o'. ro_operation_id o' = ri_operation_id input) (restore_operations seen) of
       Some o' \<Rightarrow>
         if \<not> (ro_expected_active_revision o' = ri_expected_active_revision input \<and>
               ro_restored_revision o' = ri_restored_revision input \<and> ro_actor o' = ri_actor input)
         then Inl (MemoryTreeRevisionConflictError ''Restore operation id already exists with different content.'')
         else Inr ((False, ro_restored_revision o', ri_operation_id input), db)
     | None \<Rightarrow>
         if active_revision db \<noteq> ri_expected_active_revision input then Inl (stale_revision (ri_expected_active_revision input))
         else if \<not> list_ex (\<lambda>r. rv_revision r = ri_restored_revision input) (tree_revisions db)
         then Inl (MemoryTreeRevisionConflictError (''Restored revision does not exist: '' @ nat_string (ri_restored_revision input) @ ''.''))
         else if list_ex (\<lambda>o'. ro_operation_id o' = ri_operation_id input) (restore_operations db)
         then Inl (DuplicateKey ''memory_tree_restore_operations_pkey'')
         else Inr ((True, ri_restored_revision input, ri_operation_id input),
           db\<lparr>restore_operations := restore_operations db @
                [\<lparr>ro_operation_id = ri_operation_id input, ro_expected_active_revision = ri_expected_active_revision input,
                  ro_restored_revision = ri_restored_revision input, ro_actor = ri_actor input, ro_created_at = now\<rparr>],
              active_revision := ri_restored_revision input\<rparr>))"

end
