(* ===== verification/CatalogInvariant.thy ===== *)
theory CatalogInvariant
  imports Catalog
begin

text \<open>
  What the tables of the catalog satisfy (\<open>catalog_ok\<close>), what is never taken back (\<open>history_kept\<close>), and that every operation of
  the catalog keeps both (\<open>keeps_catalog\<close>).
\<close>

subsection \<open>The invariant\<close>

text \<open>Extractions: an extraction id is registered exactly when one of its publications is selected, with that publication's content.\<close>

definition extractions_ok :: "catalog \<Rightarrow> bool" where
  "extractions_ok db \<longleftrightarrow>
     distinct (map (\<lambda>r. (ep_extraction_id r, ep_digest r)) (extraction_publications db)) \<and>
     distinct (map ex_extraction_id (extractions db)) \<and> distinct (map ob_extraction_id (observations db)) \<and>
     (\<forall>r \<in> set (extraction_publications db). ep_extraction_id r = reg_extraction_id (ei_registration (ep_intent r)) \<and>
        ep_digest r = art_digest (reg_trajectory_reference (ei_registration (ep_intent r))) \<and>
        (ep_status r = IntentSelected \<longrightarrow>
           (\<exists>x \<in> set (extractions db). ex_extraction_id x = ep_extraction_id r \<and> same_extraction (ei_registration (ep_intent r)) db x))) \<and>
     (\<forall>x \<in> set (extractions db). \<exists>r \<in> set (extraction_publications db). ep_status r = IntentSelected \<and> ep_extraction_id r = ex_extraction_id x) \<and>
     (\<forall>o' \<in> set (observations db). \<exists>x \<in> set (extractions db). ex_extraction_id x = ob_extraction_id o')"

text \<open>\<open>v\<close> is the revision a creation asked for.\<close>

definition revision_recorded :: "catalog \<Rightarrow> revision_creation \<Rightarrow> revision_row \<Rightarrow> bool" where
  "revision_recorded db input v \<longleftrightarrow>
     v = new_revision (rv_created_at v) (rv_revision v) input \<and> distinct (claimed_ids (rc_source input)) \<and>
     set (consumed_by db (rv_revision v)) = set (claimed_ids (rc_source input))"

text \<open>Revisions: numbered from one without gaps, each made by the one selected publication of its owner, its predecessor an earlier
  revision or none for the first; the active revision exists.\<close>

definition revisions_ok :: "catalog \<Rightarrow> bool" where
  "revisions_ok db \<longleftrightarrow>
     distinct (map rp_identity (revision_publications db)) \<and>
     map rv_revision (tree_revisions db) = [1..<Suc (length (tree_revisions db))] \<and>
     (\<forall>r \<in> set (revision_publications db). rp_identity r = revisionPublicationIdentity (rp_intent r) \<and>
        (rp_status r = IntentSelected \<longrightarrow> (\<exists>v \<in> set (tree_revisions db). revision_recorded db (rp_intent r) v))) \<and>
     (\<forall>v \<in> set (tree_revisions db). (\<exists>r \<in> set (revision_publications db). rp_status r = IntentSelected \<and> revision_recorded db (rp_intent r) v) \<and>
        (case rv_predecessor_revision v of None \<Rightarrow> rv_revision v = 1 | Some p \<Rightarrow> 1 \<le> p \<and> p < rv_revision v)) \<and>
     (\<forall>v \<in> set (tree_revisions db). \<forall>v' \<in> set (tree_revisions db).
        rv_source_kind v = rv_source_kind v' \<and> rv_maintenance_id v = rv_maintenance_id v' \<and> rv_operation_id v = rv_operation_id v' \<longrightarrow> v = v') \<and>
     active_revision db \<le> length (tree_revisions db) \<and> (tree_revisions db \<noteq> [] \<longrightarrow> 1 \<le> active_revision db) \<and>
     (\<forall>o' \<in> set (observations db). \<forall>n. ob_consumed_revision o' = Some n \<longrightarrow> 1 \<le> n \<and> n \<le> length (tree_revisions db))"

text \<open>The operator ledgers: pauses and resumes alternate, one generation each; a restore names revisions that exist.\<close>

definition ledgers_ok :: "catalog \<Rightarrow> bool" where
  "ledgers_ok db \<longleftrightarrow>
     distinct (map co_operation_id (control_operations db)) \<and> distinct (map ro_operation_id (restore_operations db)) \<and>
     mc_generation (control db) = length (control_operations db) \<and>
     mc_state (control db) = (if even (mc_generation (control db)) then MaintenanceEnabled else MaintenancePausedState) \<and>
     map (\<lambda>o'. mc_generation (co_control o')) (control_operations db) = [1..<Suc (length (control_operations db))] \<and>
     (\<forall>o' \<in> set (restore_operations db). ro_expected_active_revision o' \<in> {1..length (tree_revisions db)} \<and>
        ro_restored_revision o' \<in> {1..length (tree_revisions db)})"

definition catalog_ok :: "catalog \<Rightarrow> bool" where
  "catalog_ok db \<longleftrightarrow> extractions_ok db \<and> revisions_ok db \<and> ledgers_ok db"

subsection \<open>What is kept\<close>

definition extends :: "'a list \<Rightarrow> 'a list \<Rightarrow> bool" where
  "extends xs ys \<longleftrightarrow> (\<exists>zs. ys = xs @ zs)"

lemma extends_simps [simp]: "extends xs xs" "extends xs (xs @ zs)"
  by (auto simp: extends_def)

lemma extends_trans: "extends xs ys \<Longrightarrow> extends ys zs \<Longrightarrow> extends xs zs"
  by (auto simp: extends_def)

lemma extendsD: "extends xs ys \<Longrightarrow> set xs \<subseteq> set ys \<and> length xs \<le> length ys"
  by (auto simp: extends_def)

text \<open>The catalog's history is immutable: revisions, extractions and ledgers only grow, a selected publication stays selected, an
  observation keeps its text and the revision that consumed it, and what a revision consumed never changes.\<close>

definition same_observation :: "observation_row \<Rightarrow> observation_row \<Rightarrow> bool" where
  "same_observation o1 o2 \<longleftrightarrow> ob_extraction_id o2 = ob_extraction_id o1 \<and> ob_body_markdown o2 = ob_body_markdown o1 \<and>
     ob_created_at o2 = ob_created_at o1 \<and> (ob_consumed_revision o1 \<noteq> None \<longrightarrow> ob_consumed_revision o2 = ob_consumed_revision o1)"

definition history_kept :: "catalog \<Rightarrow> catalog \<Rightarrow> bool" where
  "history_kept db db' \<longleftrightarrow>
     extends (tree_revisions db) (tree_revisions db') \<and> extends (extractions db) (extractions db') \<and>
     extends (restore_operations db) (restore_operations db') \<and> extends (control_operations db) (control_operations db') \<and>
     (\<forall>r \<in> set (extraction_publications db). ep_status r = IntentSelected \<longrightarrow> r \<in> set (extraction_publications db')) \<and>
     (\<forall>r \<in> set (revision_publications db). rp_status r = IntentSelected \<longrightarrow> r \<in> set (revision_publications db')) \<and>
     (\<forall>o1 \<in> set (observations db). \<exists>o2 \<in> set (observations db'). same_observation o1 o2) \<and>
     (\<forall>n \<le> length (tree_revisions db). 1 \<le> n \<longrightarrow> set (consumed_by db' n) = set (consumed_by db n))"

lemma history_refl: "history_kept db db"
  by (auto simp: history_kept_def same_observation_def)

lemma same_observation_trans: "same_observation o1 o2 \<Longrightarrow> same_observation o2 o3 \<Longrightarrow> same_observation o1 o3"
  by (auto simp: same_observation_def)

lemma history_trans:
  assumes "history_kept db1 db2" "history_kept db2 db3"
  shows "history_kept db1 db3"
proof -
  have "length (tree_revisions db1) \<le> length (tree_revisions db2)" using assms(1) by (auto simp: history_kept_def dest: extendsD)
  then have "set (consumed_by db3 n) = set (consumed_by db1 n)" if "n \<le> length (tree_revisions db1)" "1 \<le> n" for n
    using assms that unfolding history_kept_def by (elim conjE) auto
  moreover have "\<forall>o1 \<in> set (observations db1). \<exists>o3 \<in> set (observations db3). same_observation o1 o3"
    using assms unfolding history_kept_def by (meson same_observation_trans)
  ultimately show ?thesis using assms unfolding history_kept_def by (auto elim: extends_trans)
qed

subsection \<open>Frames\<close>

lemma inTransaction_cases:
  assumes "\<And>a db'. operation db = Inr (a, db') \<Longrightarrow> P db'" "P db"
  shows "P (snd (inTransaction operation db))"
  using assms by (auto simp: inTransaction_def split: sum.split)

lemma extractions_ok_frame:
  assumes "extractions_ok db" "extraction_publications db' = extraction_publications db" "extractions db' = extractions db"
    "observations db' = observations db"
  shows "extractions_ok db'"
proof -
  have same: "same_extraction reg db' x = same_extraction reg db x" for reg x by (simp add: same_extraction_def assms(4))
  show ?thesis using assms(1) unfolding extractions_ok_def same assms(2-4) .
qed

lemma consumed_by_frame: "observations db' = observations db \<Longrightarrow> consumed_by db' = consumed_by db"
  by (simp add: consumed_by_def fun_eq_iff)

lemma recorded_cong:
  assumes "\<And>n. consumed_by db' n = consumed_by db n"
  shows "revision_recorded db' = revision_recorded db"
  by (intro ext) (simp only: revision_recorded_def assms)

lemma recorded_frame: "observations db' = observations db \<Longrightarrow> revision_recorded db' = revision_recorded db"
  using consumed_by_frame by (intro recorded_cong) metis

lemma revisions_ok_frame:
  assumes "revisions_ok db" "revision_publications db' = revision_publications db" "tree_revisions db' = tree_revisions db"
    "observations db' = observations db" "active_revision db' = active_revision db"
  shows "revisions_ok db'"
  using assms(1) unfolding revisions_ok_def recorded_frame [OF assms(4)] assms(2-5) .

lemma ledgers_ok_frame:
  assumes "ledgers_ok db" "control_operations db' = control_operations db" "restore_operations db' = restore_operations db"
    "control db' = control db" "length (tree_revisions db) \<le> length (tree_revisions db')"
  shows "ledgers_ok db'"
  using assms unfolding ledgers_ok_def by fastforce

lemmas catalog_frames = extractions_ok_frame revisions_ok_frame ledgers_ok_frame

lemma catalog_okI: "extractions_ok db \<Longrightarrow> revisions_ok db \<Longrightarrow> ledgers_ok db \<Longrightarrow> catalog_ok db"
  by (simp add: catalog_ok_def)

lemma catalog_okD: "catalog_ok db \<Longrightarrow> extractions_ok db" "catalog_ok db \<Longrightarrow> revisions_ok db" "catalog_ok db \<Longrightarrow> ledgers_ok db"
  by (simp_all add: catalog_ok_def)

lemma initial_ok: "catalog_ok (initial_catalog now)"
  by (simp add: catalog_ok_def extractions_ok_def revisions_ok_def ledgers_ok_def initial_catalog_def)

subsection \<open>Every operation keeps the invariant and the history\<close>

definition keeps_catalog :: "catalog \<Rightarrow> catalog \<Rightarrow> bool" where
  "keeps_catalog db db' \<longleftrightarrow> catalog_ok db' \<and> history_kept db db'"

lemma keeps_same [simp]: "catalog_ok db \<Longrightarrow> keeps_catalog db db"
  by (simp add: keeps_catalog_def history_refl)

lemma extraction_pubD:
  assumes "catalog_ok db"
  shows "distinct (map (\<lambda>r. (ep_extraction_id r, ep_digest r)) (extraction_publications db))"
    "r \<in> set (extraction_publications db) \<Longrightarrow> ep_extraction_id r = reg_extraction_id (ei_registration (ep_intent r)) \<and>
       ep_digest r = art_digest (reg_trajectory_reference (ei_registration (ep_intent r)))"
    "r \<in> set (extraction_publications db) \<Longrightarrow> ep_status r = IntentSelected \<Longrightarrow>
       \<exists>x \<in> set (extractions db). ex_extraction_id x = ep_extraction_id r \<and> same_extraction (ei_registration (ep_intent r)) db x"
    "x \<in> set (extractions db) \<Longrightarrow> \<exists>r \<in> set (extraction_publications db). ep_status r = IntentSelected \<and> ep_extraction_id r = ex_extraction_id x"
    "distinct (map ex_extraction_id (extractions db))" "distinct (map ob_extraction_id (observations db))"
    "o' \<in> set (observations db) \<Longrightarrow> \<exists>x \<in> set (extractions db). ex_extraction_id x = ob_extraction_id o'"
  using assms unfolding catalog_ok_def extractions_ok_def by blast+

lemma revision_pubD:
  assumes "catalog_ok db"
  shows "distinct (map rp_identity (revision_publications db))"
    "r \<in> set (revision_publications db) \<Longrightarrow> rp_identity r = revisionPublicationIdentity (rp_intent r)"
  using assms by (simp_all add: catalog_ok_def revisions_ok_def)

text \<open>Changing the publications of extractions, or of revisions, alone.\<close>

lemma keeps_extraction_publications:
  assumes ok: "catalog_ok db" and db': "db' = db\<lparr>extraction_publications := rows\<rparr>"
    and keys: "distinct (map (\<lambda>r. (ep_extraction_id r, ep_digest r)) rows)"
    and rows: "\<And>r. r \<in> set rows \<Longrightarrow> ep_extraction_id r = reg_extraction_id (ei_registration (ep_intent r)) \<and>
        ep_digest r = art_digest (reg_trajectory_reference (ei_registration (ep_intent r))) \<and>
        (ep_status r = IntentSelected \<longrightarrow> r \<in> set (extraction_publications db))"
    and kept: "\<And>r. r \<in> set (extraction_publications db) \<Longrightarrow> ep_status r = IntentSelected \<Longrightarrow> r \<in> set rows"
  shows "keeps_catalog db db'"
proof -
  have same: "same_extraction reg db' x = same_extraction reg db x" for reg x by (simp add: same_extraction_def db')
  have "extractions_ok db'"
    unfolding extractions_ok_def same
  proof (intro conjI ballI)
    show "\<exists>r \<in> set (extraction_publications db'). ep_status r = IntentSelected \<and> ep_extraction_id r = ex_extraction_id x"
      if "x \<in> set (extractions db')" for x
      using extraction_pubD(4) [OF ok, of x] that kept by (auto simp: db')
    show "ep_status r = IntentSelected \<longrightarrow> (\<exists>x \<in> set (extractions db'). ex_extraction_id x = ep_extraction_id r \<and>
        same_extraction (ei_registration (ep_intent r)) db x)" if "r \<in> set (extraction_publications db')" for r
      using that rows [of r] extraction_pubD(3) [OF ok, of r] by (auto simp: db')
  qed (use extraction_pubD(5-7) [OF ok] keys rows in \<open>simp_all add: db'\<close>)
  moreover have "revisions_ok db'" "ledgers_ok db'"
    using ok by (auto simp: db' intro: revisions_ok_frame ledgers_ok_frame dest: catalog_okD)
  moreover have "history_kept db db'"
    using kept by (auto simp: history_kept_def db' same_observation_def consumed_by_def)
  ultimately show ?thesis by (simp add: keeps_catalog_def catalog_ok_def)
qed

lemma keeps_revision_publications:
  assumes ok: "catalog_ok db" and db': "db' = db\<lparr>revision_publications := rows\<rparr>"
    and keys: "distinct (map rp_identity rows)"
    and rows: "\<And>r. r \<in> set rows \<Longrightarrow> rp_identity r = revisionPublicationIdentity (rp_intent r) \<and>
        (rp_status r = IntentSelected \<longrightarrow> r \<in> set (revision_publications db))"
    and kept: "\<And>r. r \<in> set (revision_publications db) \<Longrightarrow> rp_status r = IntentSelected \<Longrightarrow> r \<in> set rows"
  shows "keeps_catalog db db'"
proof -
  have same: "revision_recorded db' = revision_recorded db" by (rule recorded_frame) (simp add: db')
  note inv = catalog_okD(2) [OF ok, unfolded revisions_ok_def]
  have made: "\<exists>r \<in> set rows. rp_status r = IntentSelected \<and> revision_recorded db (rp_intent r) v" if "v \<in> set (tree_revisions db)" for v
    using inv that kept by meson
  have "revisions_ok db'"
    unfolding revisions_ok_def same using inv keys rows made by (simp add: db')
  moreover have "extractions_ok db'" "ledgers_ok db'"
    using ok by (auto simp: db' intro: extractions_ok_frame ledgers_ok_frame dest: catalog_okD)
  moreover have "history_kept db db'"
    using kept by (auto simp: history_kept_def db' same_observation_def consumed_by_def)
  ultimately show ?thesis by (simp add: keeps_catalog_def catalog_ok_def)
qed

lemma reserve_rows:
  "(if list_ex hit xs then xs else xs @ [x]) = ys \<Longrightarrow> ys = xs \<or> ys = xs @ [x] \<and> \<not> list_ex hit xs"
  by (auto split: if_splits)

lemma reserveExtraction_keeps:
  assumes "catalog_ok db" shows "keeps_catalog db (snd (reserveExtractionPublication now intent db))"
  unfolding reserveExtractionPublication_def
proof (rule inTransaction_cases, unfold Let_def, goal_cases)
  case (1 a db')
  let ?eid = "reg_extraction_id (ei_registration intent)" and ?d = "art_digest (reg_trajectory_reference (ei_registration intent))"
  let ?new = "\<lparr>ep_extraction_id = ?eid, ep_digest = ?d, ep_intent = intent, ep_status = IntentReserved, ep_created_at = now\<rparr>"
  define rows where "rows = (if list_ex (at_extraction ?eid ?d) (extraction_publications db) then extraction_publications db
    else extraction_publications db @ [?new])"
  from 1 have db': "db' = db\<lparr>extraction_publications := rows\<rparr>"
    unfolding rows_def [symmetric] by (auto split: option.splits if_splits)
  from rows_def [symmetric] have "rows = extraction_publications db \<or>
      rows = extraction_publications db @ [?new] \<and> \<not> list_ex (at_extraction ?eid ?d) (extraction_publications db)"
    by (rule reserve_rows)
  then show ?case
    using extraction_pubD [OF assms]
    by (intro keeps_extraction_publications [OF assms db']) (fastforce simp: list_ex_iff at_extraction_def)+
qed (use assms in simp)

lemma reserveRevision_keeps:
  assumes "catalog_ok db" shows "keeps_catalog db (snd (reserveRevisionPublication now intent db))"
  unfolding reserveRevisionPublication_def
proof (rule inTransaction_cases, unfold Let_def, goal_cases)
  case (1 a db')
  let ?id = "revisionPublicationIdentity intent"
  let ?new = "\<lparr>rp_identity = ?id, rp_intent = intent, rp_status = IntentReserved, rp_created_at = now\<rparr>"
  define rows where "rows = (if list_ex (\<lambda>r. rp_identity r = ?id) (revision_publications db) then revision_publications db
    else revision_publications db @ [?new])"
  from 1 have db': "db' = db\<lparr>revision_publications := rows\<rparr>"
    unfolding rows_def [symmetric] by (auto split: option.splits if_splits)
  from rows_def [symmetric] have "rows = revision_publications db \<or>
      rows = revision_publications db @ [?new] \<and> \<not> list_ex (\<lambda>r. rp_identity r = ?id) (revision_publications db)"
    by (rule reserve_rows)
  then show ?case
    using revision_pubD [OF assms]
    by (intro keeps_revision_publications [OF assms db']) (fastforce simp: list_ex_iff)+
qed (use assms in simp)

lemma map_status_keys:
  "map (\<lambda>r. (ep_extraction_id r, ep_digest r)) (map (\<lambda>r. if hit r then r\<lparr>ep_status := f r\<rparr> else r) rows) =
     map (\<lambda>r. (ep_extraction_id r, ep_digest r)) rows"
  "map rp_identity (map (\<lambda>r. if hit' r then r\<lparr>rp_status := f' r\<rparr> else r) rows') = map rp_identity rows'"
  by (simp_all cong: map_cong if_cong add: comp_def if_distrib)

lemma status_same: "ep_status r = s \<Longrightarrow> r\<lparr>ep_status := s\<rparr> = r" "rp_status q = s \<Longrightarrow> q\<lparr>rp_status := s\<rparr> = q"
  by auto

lemma fixed_mem: "x \<in> set xs \<Longrightarrow> f x = x \<Longrightarrow> x \<in> set (map f xs)"
  by (metis image_eqI set_map)

lemma confirmExtraction_keeps:
  assumes "catalog_ok db" shows "keeps_catalog db (snd (confirmExtractionPublication intent db))"
proof -
  let ?hit = "\<lambda>r. at_extraction (reg_extraction_id (ei_registration intent))
    (art_digest (reg_trajectory_reference (ei_registration intent))) r \<and> ep_intent r = intent"
  let ?rows = "map (\<lambda>r. if ?hit r then r\<lparr>ep_status := confirmed (ep_status r)\<rparr> else r) (extraction_publications db)"
  have "keeps_catalog db (db\<lparr>extraction_publications := ?rows\<rparr>)"
  proof (rule keeps_extraction_publications [OF assms refl])
    show "distinct (map (\<lambda>r. (ep_extraction_id r, ep_digest r)) ?rows)"
      unfolding map_status_keys by (rule extraction_pubD [OF assms])
    show "r \<in> set ?rows" if "r \<in> set (extraction_publications db)" "ep_status r = IntentSelected" for r
      using that by (intro fixed_mem) (simp_all add: confirmed_def status_same)
  qed (use extraction_pubD(2) [OF assms] in \<open>auto simp: confirmed_def status_same split: if_splits\<close>)
  with assms show ?thesis by (simp add: confirmExtractionPublication_def Let_def split: option.split)
qed

lemma confirmRevision_keeps:
  assumes "catalog_ok db" shows "keeps_catalog db (snd (confirmRevisionPublication intent db))"
proof -
  let ?hit = "\<lambda>r. rp_identity r = revisionPublicationIdentity intent \<and> rp_intent r = intent"
  let ?rows = "map (\<lambda>r. if ?hit r then r\<lparr>rp_status := confirmed (rp_status r)\<rparr> else r) (revision_publications db)"
  have "keeps_catalog db (db\<lparr>revision_publications := ?rows\<rparr>)"
  proof (rule keeps_revision_publications [OF assms refl])
    show "distinct (map rp_identity ?rows)"
      unfolding map_status_keys by (rule revision_pubD [OF assms])
    show "r \<in> set ?rows" if "r \<in> set (revision_publications db)" "rp_status r = IntentSelected" for r
      using that by (intro fixed_mem) (simp_all add: confirmed_def status_same)
  qed (use revision_pubD(2) [OF assms] in \<open>auto simp: confirmed_def status_same split: if_splits\<close>)
  with assms show ?thesis by (simp add: confirmRevisionPublication_def Let_def split: option.split)
qed

text \<open>Registering an extraction.\<close>

lemma find_Some_key:
  assumes "distinct (map f xs)" "x \<in> set xs"
  shows "List.find (\<lambda>y. f y = f x) xs = Some x"
  using assms by (induction xs) (auto simp: image_iff)

lemma consumed_by_append_pending:
  "observations db' = observations db @ registered_observation now input \<Longrightarrow> consumed_by db' n = consumed_by db n"
  by (auto simp: consumed_by_def registered_observation_def split: option.split)

lemma selected_extraction:
  assumes "catalog_ok db" "r \<in> set (extraction_publications db)" "ep_status r = IntentSelected" "x \<in> set (extractions db)"
    "ex_extraction_id x = ep_extraction_id r"
  shows "same_extraction (ei_registration (ep_intent r)) db x"
proof -
  obtain y where y: "y \<in> set (extractions db)" "ex_extraction_id y = ep_extraction_id r"
    "same_extraction (ei_registration (ep_intent r)) db y"
    using extraction_pubD(3) [OF assms(1-3)] by blast
  then have "y = x" using extraction_pubD(5) [OF assms(1)] assms(4,5) by (auto simp: distinct_map inj_on_def)
  with y show ?thesis by simp
qed

lemma same_extraction_inj:
  assumes "same_extraction reg db x" "same_extraction reg' db x" "reg_extraction_id reg = reg_extraction_id reg'"
  shows "reg = reg'"
  using assms by (simp add: same_extraction_def)

text \<open>At most one publication of an extraction is selected: the partial unique index of the schema.\<close>

lemma one_selected_extraction:
  assumes ok: "catalog_ok db" and r: "r \<in> set (extraction_publications db)" "ep_status r = IntentSelected"
    and s: "s \<in> set (extraction_publications db)" "ep_status s = IntentSelected" and eid: "ep_extraction_id r = ep_extraction_id s"
  shows "r = s"
proof -
  obtain x where x: "x \<in> set (extractions db)" "ex_extraction_id x = ep_extraction_id r"
    using extraction_pubD(3) [OF ok r] by blast
  have "ei_registration (ep_intent r) = ei_registration (ep_intent s)"
    using selected_extraction [OF ok r x] selected_extraction [OF ok s x(1)] x(2) eid extraction_pubD(2) [OF ok r(1)] extraction_pubD(2) [OF ok s(1)]
    by (intro same_extraction_inj) auto
  then have "(ep_extraction_id r, ep_digest r) = (ep_extraction_id s, ep_digest s)"
    using extraction_pubD(2) [OF ok r(1)] extraction_pubD(2) [OF ok s(1)] by simp
  then show ?thesis using extraction_pubD(1) [OF ok] r(1) s(1) by (auto simp: distinct_map inj_on_def)
qed

definition select_extraction :: "extraction_publication_row \<Rightarrow> extraction_publication_row list \<Rightarrow> extraction_publication_row list" where
  "select_extraction row rows = map (\<lambda>r. if r = row then r\<lparr>ep_status := IntentSelected\<rparr> else r) rows"

lemma select_extraction_eq:
  assumes "distinct (map (\<lambda>r. (ep_extraction_id r, ep_digest r)) rows)" "row \<in> set rows" "ep_extraction_id row = eid"
  shows "map (\<lambda>r. if at_extraction eid (ep_digest row) r then r\<lparr>ep_status := IntentSelected\<rparr> else r) rows = select_extraction row rows"
  unfolding select_extraction_def using assms by (intro map_cong) (auto simp: at_extraction_def distinct_map inj_on_def)

lemma same_extraction_old:
  assumes "observations db' = observations db @ registered_observation now input" "ex_extraction_id x \<noteq> reg_extraction_id input"
  shows "same_extraction reg db' x = same_extraction reg db x"
proof -
  have "List.find (\<lambda>o'. ob_extraction_id o' = ex_extraction_id x) (obs @ registered_observation now input) =
      List.find (\<lambda>o'. ob_extraction_id o' = ex_extraction_id x) obs" for obs
    using assms(2) by (induction obs) (auto simp: registered_observation_def split: option.split)
  then show ?thesis by (simp add: same_extraction_def assms(1))
qed

lemma same_extraction_new:
  assumes "observations db' = observations db @ registered_observation now input"
    "\<And>o'. o' \<in> set (observations db) \<Longrightarrow> ob_extraction_id o' \<noteq> reg_extraction_id input"
  shows "same_extraction input db' (registered_extraction now input)"
proof -
  have "List.find (\<lambda>o'. ob_extraction_id o' = reg_extraction_id input) (obs @ registered_observation now input) =
      List.find (\<lambda>o'. ob_extraction_id o' = reg_extraction_id input) (registered_observation now input)"
    if "\<And>o'. o' \<in> set obs \<Longrightarrow> ob_extraction_id o' \<noteq> reg_extraction_id input" for obs
    using that by (induction obs) auto
  from this [OF assms(2)] show ?thesis
    by (auto simp: same_extraction_def registered_extraction_def registered_observation_def assms(1) split: option.split)
qed

lemma registered_ok:
  assumes ok: "catalog_ok db" and row: "row \<in> set (extraction_publications db)" "ei_registration (ep_intent row) = input"
    and fresh: "\<And>x. x \<in> set (extractions db) \<Longrightarrow> ex_extraction_id x \<noteq> reg_extraction_id input"
  shows "keeps_catalog db (db\<lparr>extraction_publications := select_extraction row (extraction_publications db),
     extractions := extractions db @ [registered_extraction now input],
     observations := observations db @ registered_observation now input\<rparr>)" (is "keeps_catalog db ?db")
proof -
  let ?eid = "reg_extraction_id input"
  have new_ob: "ob_extraction_id o' \<noteq> ?eid" if "o' \<in> set (observations db)" for o'
    using extraction_pubD(7) [OF ok that] fresh by metis
  have new_row: "ep_extraction_id r \<noteq> ?eid" if "r \<in> set (extraction_publications db)" "ep_status r = IntentSelected" for r
    using extraction_pubD(3) [OF ok that] fresh by metis
  have keys: "map (\<lambda>r. (ep_extraction_id r, ep_digest r)) (select_extraction row rows) = map (\<lambda>r. (ep_extraction_id r, ep_digest r)) rows" for rows
    unfolding select_extraction_def by (rule map_status_keys)
  have row_id: "ep_extraction_id row = ?eid" using extraction_pubD(2) [OF ok row(1)] row(2) by simp
  have "extractions_ok ?db"
    unfolding extractions_ok_def
  proof (intro conjI ballI impI)
    fix r assume "r \<in> set (extraction_publications ?db)"
    then obtain q where q: "q \<in> set (extraction_publications db)" "r = (if q = row then q\<lparr>ep_status := IntentSelected\<rparr> else q)"
      by (auto simp: select_extraction_def)
    show "ep_extraction_id r = reg_extraction_id (ei_registration (ep_intent r))"
      "ep_digest r = art_digest (reg_trajectory_reference (ei_registration (ep_intent r)))"
      using extraction_pubD(2) [OF ok q(1)] q(2) by (auto split: if_splits)
    assume sel: "ep_status r = IntentSelected"
    show "\<exists>x \<in> set (extractions ?db). ex_extraction_id x = ep_extraction_id r \<and> same_extraction (ei_registration (ep_intent r)) ?db x"
    proof (cases "q = row")
      case True
      then show ?thesis
        using q row row_id same_extraction_new [of ?db db now input] new_ob by (simp add: registered_extraction_def)
    next
      case False
      then obtain x where x: "x \<in> set (extractions db)" "ex_extraction_id x = ep_extraction_id r" "same_extraction (ei_registration (ep_intent r)) db x"
        using q sel extraction_pubD(3) [OF ok, of r] by auto
      with same_extraction_old [of ?db db now input x] fresh [OF x(1)] show ?thesis by auto
    qed
  next
    fix x assume "x \<in> set (extractions ?db)"
    then consider "x \<in> set (extractions db)" | "x = registered_extraction now input" by auto
    then show "\<exists>r \<in> set (extraction_publications ?db). ep_status r = IntentSelected \<and> ep_extraction_id r = ex_extraction_id x"
    proof cases
      case 1
      then obtain r where r: "r \<in> set (extraction_publications db)" "ep_status r = IntentSelected" "ep_extraction_id r = ex_extraction_id x"
        using extraction_pubD(4) [OF ok] by blast
      then have "r \<in> set (select_extraction row (extraction_publications db))"
        unfolding select_extraction_def by (intro fixed_mem) (auto simp: status_same)
      with r show ?thesis by auto
    next
      case 2
      with row row_id show ?thesis by (auto simp: select_extraction_def registered_extraction_def image_iff)
    qed
  next
    have "?eid \<notin> ex_extraction_id ` set (extractions db)" "?eid \<notin> ob_extraction_id ` set (observations db)" using fresh new_ob by fastforce+
    then show "distinct (map ex_extraction_id (extractions ?db))" "distinct (map ob_extraction_id (observations ?db))"
      using extraction_pubD(5,6) [OF ok] by (simp_all add: registered_extraction_def registered_observation_def split: option.split)
    show "distinct (map (\<lambda>r. (ep_extraction_id r, ep_digest r)) (extraction_publications ?db))"
      using extraction_pubD(1) [OF ok] by (simp add: keys del: distinct_map map_map)
    show "\<exists>x \<in> set (extractions ?db). ex_extraction_id x = ob_extraction_id o'" if "o' \<in> set (observations ?db)" for o'
      using that extraction_pubD(7) [OF ok] by (auto simp: registered_extraction_def registered_observation_def split: option.splits)
  qed
  moreover have "revisions_ok ?db"
  proof -
    have same: "revision_recorded ?db = revision_recorded db"
      by (rule recorded_cong, rule consumed_by_append_pending) simp
    show ?thesis
      using catalog_okD(2) [OF ok] unfolding revisions_ok_def same
      by (auto simp: registered_observation_def split: option.splits)
  qed
  moreover have "ledgers_ok ?db" using catalog_okD(3) [OF ok] by (auto intro: ledgers_ok_frame)
  moreover have "history_kept db ?db"
    using new_row row_id consumed_by_append_pending [where db' = ?db and db = db and now = now and input = input]
    by (auto simp: history_kept_def select_extraction_def same_observation_def status_same intro!: fixed_mem)
  ultimately show ?thesis by (simp add: keeps_catalog_def catalog_ok_def)
qed

lemma registerExtraction_keeps:
  assumes ok: "catalog_ok db" shows "keeps_catalog db (snd (registerExtraction now input db))"
  unfolding registerExtraction_def
proof (rule inTransaction_cases, unfold Let_def, goal_cases)
  case (1 a db')
  let ?eid = "reg_extraction_id input" and ?rows = "extraction_publications db"
  have clear: "ei_registration (ep_intent r) = input" if "r \<in> set ?rows" "ep_extraction_id r = ?eid" "ep_status r = IntentSelected" for r
    using 1 that by (auto simp: list_ex_iff split: if_splits)
  obtain row where find: "List.find (\<lambda>r. ep_extraction_id r = ?eid \<and> ei_registration (ep_intent r) = input \<and> ep_status r \<noteq> IntentReserved) ?rows = Some row"
    using 1 by (auto split: if_splits option.splits)
  then have row: "row \<in> set ?rows" "ep_extraction_id row = ?eid" "ei_registration (ep_intent row) = input"
    by (auto dest: find_SomeD)
  note eq = select_extraction_eq [OF extraction_pubD(1) [OF ok] row(1,2)]
  show ?case
  proof (cases "List.find (\<lambda>x. ex_extraction_id x = ?eid) (extractions db)")
    case None
    then have "ex_extraction_id x \<noteq> ?eid" if "x \<in> set (extractions db)" for x using that by (simp add: find_None_iff)
    from registered_ok [OF ok row(1,3) this, of now] show ?thesis
      using 1 find None by (simp add: eq split: if_splits)
  next
    case (Some x)
    then have "x \<in> set (extractions db)" "ex_extraction_id x = ?eid" by (auto dest: find_SomeD)
    then obtain s where s: "s \<in> set ?rows" "ep_status s = IntentSelected" "ep_extraction_id s = ?eid"
      using extraction_pubD(4) [OF ok, of x] by auto
    from clear [OF s(1,3,2)] extraction_pubD(2) [OF ok s(1)] extraction_pubD(2) [OF ok row(1)] row(3)
    have "(ep_extraction_id s, ep_digest s) = (ep_extraction_id row, ep_digest row)" by simp
    then have "s = row" using extraction_pubD(1) [OF ok] s(1) row(1) by (auto simp: distinct_map inj_on_def)
    with s(2) have "select_extraction row ?rows = ?rows" unfolding select_extraction_def by (intro map_idI) (auto simp: status_same)
    then have "db' = db" using 1 find Some by (simp add: eq split: if_splits)
    then show ?thesis using ok by simp
  qed
qed (use ok in simp)

text \<open>The operator ledgers.\<close>

lemma changeControl_keeps:
  assumes ok: "catalog_ok db" shows "keeps_catalog db (snd (changeMaintenanceControl now target input seen db))"
  unfolding changeMaintenanceControl_def
proof (rule inTransaction_cases, goal_cases)
  case (1 a db')
  note inv = catalog_okD(3) [OF ok, unfolded ledgers_ok_def]
  let ?c = "\<lparr>mc_state = target, mc_generation = Suc (mc_generation (control db)), mc_changed_by = ci_actor input, mc_changed_at = now\<rparr>"
  let ?op = "\<lparr>co_operation_id = ci_operation_id input, co_target_state = target,
    co_expected_generation = ci_expected_generation input, co_actor = ci_actor input, co_control = ?c\<rparr>"
  have "db' = db \<or> db' = db\<lparr>control := ?c, control_operations := control_operations db @ [?op]\<rparr> \<and>
      mc_state (control db) = other_state target \<and> \<not> list_ex (\<lambda>o'. co_operation_id o' = ci_operation_id input) (control_operations db)"
    using 1 by (auto simp: Let_def split: option.splits if_splits)
  then show ?case
  proof
    assume new: "db' = db\<lparr>control := ?c, control_operations := control_operations db @ [?op]\<rparr> \<and>
      mc_state (control db) = other_state target \<and> \<not> list_ex (\<lambda>o'. co_operation_id o' = ci_operation_id input) (control_operations db)"
    then have "target = (if even (Suc (mc_generation (control db))) then MaintenanceEnabled else MaintenancePausedState)"
      using inv by (cases target) (auto split: if_splits)
    moreover have "distinct (map co_operation_id (control_operations db @ [?op]))"
      using inv new by (auto simp: list_ex_iff image_iff)
    moreover have "map (\<lambda>o'. mc_generation (co_control o')) (control_operations db @ [?op]) = [1..<Suc (length (control_operations db @ [?op]))]"
      using inv by simp
    ultimately have "ledgers_ok db'"
      unfolding ledgers_ok_def using inv new by simp
    moreover have "extractions_ok db'" "revisions_ok db'"
      using new catalog_okD [OF ok] by (auto intro: extractions_ok_frame revisions_ok_frame)
    moreover have "history_kept db db'"
      using new by (auto simp: history_kept_def same_observation_def consumed_by_def)
    ultimately show ?thesis by (simp add: keeps_catalog_def catalog_ok_def)
  qed (use ok in simp)
qed (use ok in simp)

lemma revision_numbers:
  assumes "catalog_ok db"
  shows "v \<in> set (tree_revisions db) \<Longrightarrow> 1 \<le> rv_revision v \<and> rv_revision v \<le> length (tree_revisions db)"
    "1 \<le> n \<Longrightarrow> n \<le> length (tree_revisions db) \<Longrightarrow> \<exists>v \<in> set (tree_revisions db). rv_revision v = n"
    "max_revision (tree_revisions db) = length (tree_revisions db)"
    "distinct (map rv_revision (tree_revisions db))"
proof -
  have nums: "map rv_revision (tree_revisions db) = [1..<Suc (length (tree_revisions db))]"
    using catalog_okD(2) [OF assms] unfolding revisions_ok_def by blast
  then have set: "rv_revision ` set (tree_revisions db) = {1..length (tree_revisions db)}"
    by (metis atLeastLessThanSuc_atLeastAtMost set_map set_upt)
  show "v \<in> set (tree_revisions db) \<Longrightarrow> 1 \<le> rv_revision v \<and> rv_revision v \<le> length (tree_revisions db)" using set by auto
  show "1 \<le> n \<Longrightarrow> n \<le> length (tree_revisions db) \<Longrightarrow> \<exists>v \<in> set (tree_revisions db). rv_revision v = n"
    using set by (metis atLeastAtMost_iff imageE)
  show "distinct (map rv_revision (tree_revisions db))" using nums by simp
  have "max_revision rs = fold max (map rv_revision rs) 0" for rs
  proof (induction rs rule: rev_induct)
    case (snoc r rs)
    have "max_revision (rs @ [r]) = max (rv_revision r) (max_revision rs)" by (induction rs) auto
    with snoc show ?case by simp
  qed simp
  moreover have "fold max [1..<Suc n] 0 = n" for n by (induction n) auto
  ultimately show "max_revision (tree_revisions db) = length (tree_revisions db)" by (simp only: nums)
qed

lemma restore_keeps:
  assumes ok: "catalog_ok db" shows "keeps_catalog db (snd (restoreMemoryTree now input seen db))"
  unfolding restoreMemoryTree_def
proof (rule inTransaction_cases, goal_cases)
  case (1 a db')
  let ?op = "\<lparr>ro_operation_id = ri_operation_id input, ro_expected_active_revision = ri_expected_active_revision input,
    ro_restored_revision = ri_restored_revision input, ro_actor = ri_actor input, ro_created_at = now\<rparr>"
  have "db' = db \<or> db' = db\<lparr>restore_operations := restore_operations db @ [?op], active_revision := ri_restored_revision input\<rparr> \<and>
      active_revision db = ri_expected_active_revision input \<and> list_ex (\<lambda>r. rv_revision r = ri_restored_revision input) (tree_revisions db) \<and>
      \<not> list_ex (\<lambda>o'. ro_operation_id o' = ri_operation_id input) (restore_operations db)"
    using 1 by (auto split: option.splits if_splits)
  then show ?case
  proof
    assume new: "db' = db\<lparr>restore_operations := restore_operations db @ [?op], active_revision := ri_restored_revision input\<rparr> \<and>
      active_revision db = ri_expected_active_revision input \<and> list_ex (\<lambda>r. rv_revision r = ri_restored_revision input) (tree_revisions db) \<and>
      \<not> list_ex (\<lambda>o'. ro_operation_id o' = ri_operation_id input) (restore_operations db)"
    then obtain v where v: "v \<in> set (tree_revisions db)" "rv_revision v = ri_restored_revision input" by (auto simp: list_ex_iff)
    note range = revision_numbers(1) [OF ok v(1), unfolded v(2)]
    note inv = catalog_okD(2) [OF ok, unfolded revisions_ok_def]
    have active: "1 \<le> active_revision db" "active_revision db \<le> length (tree_revisions db)" using inv v(1) by (auto simp del: upt_Suc)
    have same: "revision_recorded db' = revision_recorded db" by (rule recorded_frame) (simp add: new)
    have "revisions_ok db'" unfolding revisions_ok_def same using inv range by (simp add: new)
    moreover have "ledgers_ok db'"
      using catalog_okD(3) [OF ok] new range active unfolding ledgers_ok_def by (auto simp: list_ex_iff image_iff simp del: upt_Suc)
    moreover have "extractions_ok db'" using new catalog_okD(1) [OF ok] by (auto intro: extractions_ok_frame)
    moreover have "history_kept db db'"
      using new by (auto simp: history_kept_def same_observation_def consumed_by_def)
    ultimately show ?thesis by (simp add: keeps_catalog_def catalog_ok_def)
  qed (use ok in simp)
qed (use ok in simp)

text \<open>Creating a revision.\<close>

lemma new_revision_made [simp]:
  "made_by (rc_source input) (new_revision now n input)" "rv_revision (new_revision now n input) = n"
  "rv_source_kind (new_revision now n input) = kind_of_source (rc_source input)" "rv_created_at (new_revision now n input) = now"
  "rv_predecessor_revision (new_revision now n input) = nullif_zero (rc_expected_active_revision input)"
  "rv_memory_tree_reference (new_revision now n input) = rc_memory_tree_reference input"
  by (simp_all add: new_revision_def Let_def split: revision_source.split)

lemma made_by_same:
  assumes "v = new_revision now n input"
  shows "made_by src v \<longleftrightarrow> kind_of_source src = kind_of_source (rc_source input) \<and> source_id src = source_id (rc_source input)"
  using assms by (cases src; cases "rc_source input") (auto simp: new_revision_def)

lemma made_by_keys:
  assumes "v = new_revision now n input" "v' = new_revision now' n' input'"
  shows "rv_source_kind v = rv_source_kind v' \<and> rv_maintenance_id v = rv_maintenance_id v' \<and> rv_operation_id v = rv_operation_id v' \<longleftrightarrow>
     kind_of_source (rc_source input) = kind_of_source (rc_source input') \<and> source_id (rc_source input) = source_id (rc_source input')"
  using assms by (cases "rc_source input"; cases "rc_source input'") (auto simp: new_revision_def)

lemma revisionD:
  assumes "catalog_ok db"
  shows "r \<in> set (revision_publications db) \<Longrightarrow> rp_status r = IntentSelected \<Longrightarrow> \<exists>v \<in> set (tree_revisions db). revision_recorded db (rp_intent r) v"
    "v \<in> set (tree_revisions db) \<Longrightarrow> \<exists>r \<in> set (revision_publications db). rp_status r = IntentSelected \<and> revision_recorded db (rp_intent r) v"
    "v \<in> set (tree_revisions db) \<Longrightarrow> v' \<in> set (tree_revisions db) \<Longrightarrow> rv_source_kind v = rv_source_kind v' \<Longrightarrow>
       rv_maintenance_id v = rv_maintenance_id v' \<Longrightarrow> rv_operation_id v = rv_operation_id v' \<Longrightarrow> v = v'"
    "active_revision db \<le> length (tree_revisions db)" "tree_revisions db \<noteq> [] \<Longrightarrow> 1 \<le> active_revision db"
    "o' \<in> set (observations db) \<Longrightarrow> ob_consumed_revision o' = Some n \<Longrightarrow> 1 \<le> n \<and> n \<le> length (tree_revisions db)"
    "v \<in> set (tree_revisions db) \<Longrightarrow> case rv_predecessor_revision v of None \<Rightarrow> rv_revision v = 1 | Some p \<Rightarrow> 1 \<le> p \<and> p < rv_revision v"
  using catalog_okD(2) [OF assms] unfolding revisions_ok_def by blast+

text \<open>A revision of an owner exists exactly when a publication of the owner is selected, and then it is that publication's.\<close>

lemma owner_selected:
  assumes "catalog_ok db" "v \<in> set (tree_revisions db)" "made_by src v"
  obtains r where "r \<in> set (revision_publications db)" "rp_status r = IntentSelected" "revision_recorded db (rp_intent r) v"
    "kind_of_source (rc_source (rp_intent r)) = kind_of_source src" "source_id (rc_source (rp_intent r)) = source_id src"
proof -
  obtain r where r: "r \<in> set (revision_publications db)" "rp_status r = IntentSelected" "revision_recorded db (rp_intent r) v"
    using revisionD(2) [OF assms(1,2)] by blast
  then have "v = new_revision (rv_created_at v) (rv_revision v) (rp_intent r)" by (simp add: revision_recorded_def)
  from made_by_same [OF this, of src] assms(3) r show ?thesis using that by metis
qed

lemma selected_owner:
  assumes "catalog_ok db" "r \<in> set (revision_publications db)" "rp_status r = IntentSelected"
    "kind_of_source (rc_source (rp_intent r)) = kind_of_source src" "source_id (rc_source (rp_intent r)) = source_id src"
  obtains v where "v \<in> set (tree_revisions db)" "made_by src v"
proof -
  obtain v where v: "v \<in> set (tree_revisions db)" "revision_recorded db (rp_intent r) v" using revisionD(1) [OF assms(1-3)] by blast
  then have "v = new_revision (rv_created_at v) (rv_revision v) (rp_intent r)" by (simp add: revision_recorded_def)
  from made_by_same [OF this, of src] assms(4,5) v(1) show ?thesis using that by metis
qed

definition select_revision :: "revision_creation \<Rightarrow> revision_publication_row list \<Rightarrow> revision_publication_row list" where
  "select_revision input = map (\<lambda>r. if rp_identity r = revisionPublicationIdentity input then r\<lparr>rp_status := IntentSelected\<rparr> else r)"

lemma consume_keys [simp]:
  "map ob_extraction_id (consume n ids obs) = map ob_extraction_id obs"
  "map_option ob_body_markdown (List.find (\<lambda>o'. ob_extraction_id o' = x) (consume n ids obs)) =
     map_option ob_body_markdown (List.find (\<lambda>o'. ob_extraction_id o' = x) obs)"
  by (induction obs) (auto simp: consume_def)

lemma consumed_by_consume:
  assumes "observations db' = consume n ids (observations db)"
  shows "m \<noteq> n \<Longrightarrow> consumed_by db' m = consumed_by db m"
    "set (consumed_by db' n) = set (consumed_by db n) \<union> (set ids \<inter> ob_extraction_id ` set (pending db))"
proof -
  have "filter (\<lambda>o'. ob_consumed_revision o' = Some m) (consume n ids obs) = filter (\<lambda>o'. ob_consumed_revision o' = Some m) obs"
    if "m \<noteq> n" for obs using that by (induction obs) (auto simp: consume_def)
  then show "m \<noteq> n \<Longrightarrow> consumed_by db' m = consumed_by db m" by (simp add: consumed_by_def assms)
  have "ob_extraction_id ` set (filter (\<lambda>o'. ob_consumed_revision o' = Some n) (consume n ids obs)) =
      ob_extraction_id ` set (filter (\<lambda>o'. ob_consumed_revision o' = Some n) obs) \<union>
      (set ids \<inter> ob_extraction_id ` set (filter (\<lambda>o'. ob_consumed_revision o' = None) obs))" for obs
    by (induction obs) (auto simp: consume_def)
  then show "set (consumed_by db' n) = set (consumed_by db n) \<union> (set ids \<inter> ob_extraction_id ` set (pending db))"
    by (simp add: consumed_by_def pending_def assms)
qed

lemma pending_claimed:
  assumes "catalog_ok db" "length (filter (\<lambda>o'. ob_extraction_id o' \<in> set ids) (pending db)) = length ids"
    "list_all (\<lambda>i. list_ex (\<lambda>o'. ob_extraction_id o' = i) (filter (\<lambda>o'. ob_extraction_id o' \<in> set ids) (pending db))) ids"
  shows "distinct ids" "set ids \<inter> ob_extraction_id ` set (pending db) = set ids"
proof -
  let ?found = "filter (\<lambda>o'. ob_extraction_id o' \<in> set ids) (pending db)"
  have eq: "set (map ob_extraction_id ?found) = set ids"
    using assms(3) by (fastforce simp: list_all_iff list_ex_iff)
  moreover have "distinct (map ob_extraction_id ?found)"
    unfolding pending_def using extraction_pubD(6) [OF assms(1)] by (intro distinct_map_filter)
  ultimately have "card (set ids) = length ids" using assms(2) by (metis distinct_card length_map)
  then show "distinct ids" by (rule card_distinct)
  show "set ids \<inter> ob_extraction_id ` set (pending db) = set ids" using eq by auto
qed

text \<open>The catalog after a revision is appended for the publication \<open>input\<close>.\<close>

definition appended :: "instant \<Rightarrow> revision_creation \<Rightarrow> catalog \<Rightarrow> catalog" where
  "appended now input db =
     db\<lparr>revision_publications := select_revision input (revision_publications db),
        tree_revisions := tree_revisions db @ [new_revision now (Suc (length (tree_revisions db))) input],
        observations := consume (Suc (length (tree_revisions db))) (claimed_ids (rc_source input)) (observations db),
        active_revision := Suc (length (tree_revisions db))\<rparr>"

definition appendable :: "revision_creation \<Rightarrow> catalog \<Rightarrow> bool" where
  "appendable input db \<longleftrightarrow> catalog_ok db \<and> (\<exists>q \<in> set (revision_publications db). rp_intent q = input) \<and>
     (\<forall>v \<in> set (tree_revisions db). \<not> made_by (rc_source input) v) \<and> active_revision db = rc_expected_active_revision input \<and>
     distinct (claimed_ids (rc_source input)) \<and>
     set (claimed_ids (rc_source input)) \<inter> ob_extraction_id ` set (pending db) = set (claimed_ids (rc_source input))"

lemma appended_consumed:
  assumes "appendable input db"
  shows "m \<le> length (tree_revisions db) \<Longrightarrow> consumed_by (appended now input db) m = consumed_by db m"
    "set (consumed_by (appended now input db) (Suc (length (tree_revisions db)))) = set (claimed_ids (rc_source input))"
proof -
  let ?n = "Suc (length (tree_revisions db))"
  have ok: "catalog_ok db" using assms by (simp add: appendable_def)
  have obs: "observations (appended now input db) = consume ?n (claimed_ids (rc_source input)) (observations db)" by (simp add: appended_def)
  show "m \<le> length (tree_revisions db) \<Longrightarrow> consumed_by (appended now input db) m = consumed_by db m"
    by (rule consumed_by_consume(1) [OF obs]) simp
  have "consumed_by db ?n = []" using revisionD(6) [OF ok] by (fastforce simp: consumed_by_def filter_empty_conv)
  then show "set (consumed_by (appended now input db) ?n) = set (claimed_ids (rc_source input))"
    using consumed_by_consume(2) [OF obs] assms by (simp add: appendable_def)
qed

lemma appended_recorded:
  assumes "appendable input db"
  shows "revision_recorded (appended now input db) input (new_revision now (Suc (length (tree_revisions db))) input)"
    "v \<in> set (tree_revisions db) \<Longrightarrow> revision_recorded (appended now input db) i v = revision_recorded db i v"
proof -
  have ok: "catalog_ok db" using assms by (simp add: appendable_def)
  show "revision_recorded (appended now input db) input (new_revision now (Suc (length (tree_revisions db))) input)"
    using appended_consumed(2) [OF assms, of now] assms by (simp add: revision_recorded_def appendable_def)
  show "revision_recorded (appended now input db) i v = revision_recorded db i v" if "v \<in> set (tree_revisions db)"
    using appended_consumed(1) [OF assms, of "rv_revision v" now] revision_numbers(1) [OF ok that] by (simp only: revision_recorded_def)
qed

lemma appended_publications:
  assumes "appendable input db"
  shows "r \<in> set (revision_publications db) \<Longrightarrow> rp_status r = IntentSelected \<Longrightarrow> r \<in> set (revision_publications (appended now input db))"
    "\<exists>r \<in> set (revision_publications (appended now input db)). rp_status r = IntentSelected \<and> rp_intent r = input"
    "r \<in> set (revision_publications (appended now input db)) \<Longrightarrow>
       \<exists>p \<in> set (revision_publications db). rp_identity r = rp_identity p \<and> rp_intent r = rp_intent p \<and>
         (rp_status r = IntentSelected \<longrightarrow> rp_status p = IntentSelected \<or> rp_intent p = input)"
proof -
  let ?rows = "revision_publications db"
  obtain q where q: "catalog_ok db" "q \<in> set ?rows" "rp_intent q = input" "\<And>v. v \<in> set (tree_revisions db) \<Longrightarrow> \<not> made_by (rc_source input) v"
    using assms by (auto simp: appendable_def)
  have rows: "revision_publications (appended now input db) = select_revision input ?rows" by (simp add: appended_def)
  have idle: "rp_identity r \<noteq> revisionPublicationIdentity input" if "r \<in> set ?rows" "rp_status r = IntentSelected" for r
    using selected_owner [OF q(1) that, of "rc_source input"] q(4) revision_pubD(2) [OF q(1) that(1)]
    by (auto simp: revisionPublicationIdentity_def)
  have chosen: "rp_intent p = input" if "p \<in> set ?rows" "rp_identity p = revisionPublicationIdentity input" for p
    using that q(2,3) revision_pubD [OF q(1)] by (metis distinct_map inj_onD)
  show "r \<in> set (revision_publications (appended now input db))" if "r \<in> set ?rows" "rp_status r = IntentSelected"
    unfolding rows select_revision_def using that idle by (intro fixed_mem) auto
  show "\<exists>r \<in> set (revision_publications (appended now input db)). rp_status r = IntentSelected \<and> rp_intent r = input"
    unfolding rows select_revision_def set_map
    by (rule bexI [OF _ image_eqI [OF refl q(2)]]) (simp add: q(3) revision_pubD(2) [OF q(1,2)])
  show "\<exists>p \<in> set ?rows. rp_identity r = rp_identity p \<and> rp_intent r = rp_intent p \<and>
      (rp_status r = IntentSelected \<longrightarrow> rp_status p = IntentSelected \<or> rp_intent p = input)"
    if r: "r \<in> set (revision_publications (appended now input db))"
  proof -
    obtain x where "x \<in> set ?rows" "r = (if rp_identity x = revisionPublicationIdentity input then x\<lparr>rp_status := IntentSelected\<rparr> else x)"
      using r unfolding rows select_revision_def set_map by (elim imageE)
    then show ?thesis using chosen by (intro bexI [of _ x]) auto
  qed
qed

lemma appended_revisions_ok:
  assumes "appendable input db"
  shows "revisions_ok (appended now input db)"
proof -
  let ?n = "Suc (length (tree_revisions db))" and ?db = "appended now input db"
  let ?v = "new_revision now ?n input"
  have ok: "catalog_ok db" and active: "active_revision db = rc_expected_active_revision input" using assms by (simp_all add: appendable_def)
  have trees: "tree_revisions ?db = tree_revisions db @ [?v]" "active_revision ?db = ?n" by (simp_all add: appended_def)
  note made = appended_recorded [OF assms] and pubs = appended_publications [OF assms]
  have fresh: "\<not> (rv_source_kind v = rv_source_kind ?v \<and> rv_maintenance_id v = rv_maintenance_id ?v \<and> rv_operation_id v = rv_operation_id ?v)"
    if v: "v \<in> set (tree_revisions db)" for v
  proof -
    obtain r :: revision_publication_row where "v = new_revision (rv_created_at v) (rv_revision v) (rp_intent r)" using revisionD(2) [OF ok v] unfolding revision_recorded_def by blast
    from made_by_keys [OF this refl, of now ?n input] made_by_same [OF this, of "rc_source input"] assms v show ?thesis
      unfolding appendable_def by auto
  qed
  have first: "rc_expected_active_revision input = 0 \<Longrightarrow> tree_revisions db = []" using active revisionD(5) [OF ok] by fastforce
  show ?thesis
    unfolding revisions_ok_def
  proof (intro conjI ballI)
    show "distinct (map rp_identity (revision_publications ?db))"
      using revision_pubD(1) [OF ok] unfolding appended_def select_revision_def by (simp add: map_status_keys del: map_map distinct_map)
    show "map rv_revision (tree_revisions ?db) = [1..<Suc (length (tree_revisions ?db))]"
      using catalog_okD(2) [OF ok] by (simp add: trees revisions_ok_def)
    show "rp_identity r = revisionPublicationIdentity (rp_intent r)" if "r \<in> set (revision_publications ?db)" for r
      using pubs(3) [OF that] revision_pubD(2) [OF ok] by auto
    show "rp_status r = IntentSelected \<longrightarrow> (\<exists>v \<in> set (tree_revisions ?db). revision_recorded ?db (rp_intent r) v)"
      if r: "r \<in> set (revision_publications ?db)" for r
    proof
      assume sel: "rp_status r = IntentSelected"
      obtain p where p: "p \<in> set (revision_publications db)" "rp_intent r = rp_intent p" "rp_status p = IntentSelected \<or> rp_intent p = input"
        using pubs(3) [OF r] sel by blast
      then show "\<exists>v \<in> set (tree_revisions ?db). revision_recorded ?db (rp_intent r) v"
        using revisionD(1) [OF ok p(1)] made by (auto simp: trees)
    qed
    show "\<exists>r \<in> set (revision_publications ?db). rp_status r = IntentSelected \<and> revision_recorded ?db (rp_intent r) v"
      if "v \<in> set (tree_revisions ?db)" for v
    proof (cases "v = ?v")
      case True
      then show ?thesis using pubs(2) [of now] made(1) [of now] by metis
    next
      case False
      then show ?thesis using that revisionD(2) [OF ok, of v] made(2) [of v now] pubs(1) by (auto simp: trees)
    qed
    show "case rv_predecessor_revision v of None \<Rightarrow> rv_revision v = 1 | Some p \<Rightarrow> 1 \<le> p \<and> p < rv_revision v"
      if "v \<in> set (tree_revisions ?db)" for v
      using that revisionD(7) [OF ok, of v] revisionD(4) [OF ok] active first by (auto simp: trees nullif_zero_def)
    show "rv_source_kind v = rv_source_kind v' \<and> rv_maintenance_id v = rv_maintenance_id v' \<and> rv_operation_id v = rv_operation_id v' \<longrightarrow> v = v'"
      if "v \<in> set (tree_revisions ?db)" "v' \<in> set (tree_revisions ?db)" for v v'
      using that fresh revisionD(3) [OF ok, of v v'] by (auto simp: trees dest: fresh)
    show "\<forall>m. ob_consumed_revision o' = Some m \<longrightarrow> 1 \<le> m \<and> m \<le> length (tree_revisions ?db)" if "o' \<in> set (observations ?db)" for o'
      using that revisionD(6) [OF ok] by (fastforce simp: appended_def consume_def)
  qed (simp_all add: trees)
qed

lemma appended_keeps:
  assumes "appendable input db"
  shows "keeps_catalog db (appended now input db)"
proof -
  let ?db = "appended now input db"
  have ok: "catalog_ok db" using assms by (simp add: appendable_def)
  have same: "same_extraction reg ?db x = same_extraction reg db x" for reg x by (simp add: same_extraction_def appended_def)
  have ids: "map ob_extraction_id (observations ?db) = map ob_extraction_id (observations db)" by (simp add: appended_def)
  then have obs: "\<exists>o1 \<in> set (observations db). ob_extraction_id o1 = ob_extraction_id o2" if "o2 \<in> set (observations ?db)" for o2
    using that by (metis imageE image_eqI set_map)
  have fields: "extraction_publications ?db = extraction_publications db" "extractions ?db = extractions db" by (simp_all add: appended_def)
  have "\<forall>o' \<in> set (observations ?db). \<exists>x \<in> set (extractions db). ex_extraction_id x = ob_extraction_id o'"
    using obs extraction_pubD(7) [OF ok] by metis
  then have "extractions_ok ?db"
    using catalog_okD(1) [OF ok] unfolding extractions_ok_def same ids fields by (elim conjE) (intro conjI; assumption)
  moreover have "ledgers_ok ?db" using catalog_okD(3) [OF ok] by (rule ledgers_ok_frame) (simp_all add: appended_def)
  moreover have "\<exists>o2 \<in> set (consume n js (observations db)). same_observation o1 o2" if "o1 \<in> set (observations db)" for o1 n js
    unfolding consume_def set_map by (rule bexI [OF _ imageI [OF that]]) (simp add: same_observation_def)
  then have "history_kept db ?db"
    using appended_publications(1) [OF assms] appended_consumed(1) [OF assms]
    unfolding history_kept_def by (simp add: fields) (simp add: appended_def)
  ultimately show ?thesis using appended_revisions_ok [OF assms] by (simp add: keeps_catalog_def catalog_ok_def)
qed

definition revision_selectable :: "revision_creation \<Rightarrow> catalog \<Rightarrow> bool" where
  "revision_selectable input db \<longleftrightarrow>
     (\<forall>r \<in> set (revision_publications db). kind_of_source (rc_source (rp_intent r)) = kind_of_source (rc_source input) \<and>
        source_id (rc_source (rp_intent r)) = source_id (rc_source input) \<and> rp_status r = IntentSelected \<longrightarrow> rp_intent r = input) \<and>
     (\<exists>r \<in> set (revision_publications db). rp_intent r = input \<and> rp_status r \<noteq> IntentReserved)"

lemma revision_selectable_eq:
  assumes "catalog_ok db"
  shows "revision_selectable input db \<longleftrightarrow>
     \<not> list_ex (\<lambda>r. fst (rp_identity r) = fst (revisionPublicationIdentity input) \<and>
        fst (snd (rp_identity r)) = fst (snd (revisionPublicationIdentity input)) \<and> rp_status r = IntentSelected \<and> rp_intent r \<noteq> input)
        (revision_publications db) \<and>
     list_ex (\<lambda>r. rp_identity r = revisionPublicationIdentity input \<and> rp_intent r = input \<and> rp_status r \<noteq> IntentReserved) (revision_publications db)"
  unfolding revision_selectable_def list_ex_iff using revision_pubD(2) [OF assms]
  by (auto simp: revisionPublicationIdentity_def)

text \<open>An owner that has a revision has selected its publication already.\<close>

lemma select_again:
  assumes ok: "catalog_ok db" and sel: "revision_selectable input db" and v: "v \<in> set (tree_revisions db)" "made_by (rc_source input) v"
  shows "select_revision input (revision_publications db) = revision_publications db" "revision_recorded db input v"
proof -
  obtain r where r: "r \<in> set (revision_publications db)" "rp_status r = IntentSelected" "revision_recorded db (rp_intent r) v"
    "kind_of_source (rc_source (rp_intent r)) = kind_of_source (rc_source input)" "source_id (rc_source (rp_intent r)) = source_id (rc_source input)"
    by (rule owner_selected [OF ok v])
  then have input: "rp_intent r = input" using sel by (auto simp: revision_selectable_def)
  then show "revision_recorded db input v" using r(3) by simp
  have "s = r" if "s \<in> set (revision_publications db)" "rp_identity s = revisionPublicationIdentity input" for s
    using that r(1) input revision_pubD [OF ok] by (metis distinct_map inj_onD)
  then show "select_revision input (revision_publications db) = revision_publications db"
    unfolding select_revision_def using r(2) by (intro map_idI) (auto simp: status_same)
qed

lemma createRevision_keeps:
  assumes ok: "catalog_ok db" shows "keeps_catalog db (snd (createMemoryTreeRevision collated now input db))"
  unfolding createMemoryTreeRevision_def
proof (rule inTransaction_cases, unfold Let_def, goal_cases)
  case (1 a db')
  let ?ids = "claimed_ids (rc_source input)"
  let ?found = "filter (\<lambda>o'. ob_extraction_id o' \<in> set ?ids) (pending db)"
  let ?db = "db\<lparr>revision_publications := select_revision input (revision_publications db)\<rparr>"
  note op = 1 [folded select_revision_def]
  have sel: "revision_selectable input db" using op unfolding revision_selectable_eq [OF ok] by (auto split: if_splits)
  show ?case
  proof (cases "List.find (made_by (rc_source input)) (tree_revisions db)")
    case (Some v)
    then have "v \<in> set (tree_revisions db)" "made_by (rc_source input) v" by (auto dest: find_SomeD)
    from select_again(1) [OF ok sel this] have "db' = db" using op Some by (auto split: if_splits)
    then show ?thesis using ok by simp
  next
    case None
    have good: "active_revision db = rc_expected_active_revision input" "db' = snd (append_revision now input ?db)"
      "kind_of_source (rc_source input) = KindMaintenance \<Longrightarrow>
         length ?found = length ?ids \<and> list_all (\<lambda>i. list_ex (\<lambda>o'. ob_extraction_id o' = i) ?found) ?ids"
      using op None by (auto split: if_splits prod.splits)
    have "distinct ?ids \<and> set ?ids \<inter> ob_extraction_id ` set (pending db) = set ?ids"
      using pending_claimed [OF ok] good(3) by (cases "rc_source input") auto
    then have "appendable input db"
      using ok sel None good(1) by (auto simp: appendable_def revision_selectable_def find_None_iff)
    moreover have "db' = appended now input db"
      using good(2) revision_numbers(3) [OF ok] by (simp add: append_revision_def appended_def Let_def)
    ultimately show ?thesis using appended_keeps by simp
  qed
qed (use ok in simp)

end
