(* ===== verification/Systems.thy ===== *)
theory Systems
  imports Main
begin

text \<open>
  State machines with an invariant, and with a direction their steps never go against. The store of the review runs and the memory
  catalog are both instances.
\<close>

locale invariant_system =
  fixes init :: 's and step :: "'s \<Rightarrow> 's \<Rightarrow> bool" and inv :: "'s \<Rightarrow> bool"
  assumes inv_init: "inv init" and inv_next: "inv s \<Longrightarrow> step s s' \<Longrightarrow> inv s'"
begin

lemma inv_steps: "step\<^sup>*\<^sup>* s s' \<Longrightarrow> inv s \<Longrightarrow> inv s'"
  by (induction rule: rtranclp_induct) (auto intro: inv_next)

lemma inv_reached: "step\<^sup>*\<^sup>* init s \<Longrightarrow> inv s"
  by (erule inv_steps) (rule inv_init)

end

locale directed_system = invariant_system +
  fixes dir :: "'a \<Rightarrow> 'a \<Rightarrow> bool"
  assumes dir_refl: "dir s s" and dir_trans: "dir s s' \<Longrightarrow> dir s' s'' \<Longrightarrow> dir s s''"
    and dir_next: "inv s \<Longrightarrow> step s s' \<Longrightarrow> dir s s'"
begin

lemma dir_steps: "step\<^sup>*\<^sup>* s s' \<Longrightarrow> inv s \<Longrightarrow> dir s s'"
proof (induction rule: rtranclp_induct)
  case (step y z)
  then show ?case using inv_steps dir_next dir_trans by blast
qed (rule dir_refl)

lemma dir_reached: "step\<^sup>*\<^sup>* init s \<Longrightarrow> step\<^sup>*\<^sup>* s s' \<Longrightarrow> dir s s'"
  using inv_reached dir_steps by blast

end

end
