(* ===== verification/Text.thy ===== *)
theory Text
  imports Prelude
begin

text \<open>
  The parts of the JavaScript runtime that turn text into text for the read model: \<^verbatim>\<open>Buffer\<close>'s \<^verbatim>\<open>base64url\<close> and
  \<^verbatim>\<open>utf8\<close> codecs and \<^verbatim>\<open>String.split\<close>. A string is the list of its UTF-8 bytes. Decoding base64url skips characters outside the
  alphabet and accepts the alphabet of plain base64, as \<^verbatim>\<open>Buffer.from\<close> does; decoding UTF-8 replaces every maximal ill-formed part
  by U+FFFD.
\<close>

subsection \<open>Base64\<close>

fun sextets :: "nat list \<Rightarrow> nat list" where
  "sextets (a # b # c # xs) =
     a div 4 # ((a mod 4) * 16 + b div 16) # ((b mod 16) * 4 + c div 64) # c mod 64 # sextets xs"
| "sextets [a, b] = [a div 4, (a mod 4) * 16 + b div 16, (b mod 16) * 4]"
| "sextets [a] = [a div 4, (a mod 4) * 16]"
| "sextets [] = []"

fun octets :: "nat list \<Rightarrow> nat list" where
  "octets (p # q # r # s # xs) =
     (p * 4 + q div 16) # ((q mod 16) * 16 + r div 4) # ((r mod 4) * 64 + s) # octets xs"
| "octets [p, q, r] = [p * 4 + q div 16, (q mod 16) * 16 + r div 4]"
| "octets [p, q] = [p * 4 + q div 16]"
| "octets _ = []"

definition b64_char :: "nat \<Rightarrow> char" where
  "b64_char n =
     char_of (if n < 26 then 65 + n else if n < 52 then 97 + (n - 26) else if n < 62 then 48 + (n - 52)
              else if n = 62 then 45 else 95)"

definition b64_index :: "char \<Rightarrow> nat option" where
  "b64_index x =
     (let n = of_char x :: nat in
      if 65 \<le> n \<and> n \<le> 90 then Some (n - 65)
      else if 97 \<le> n \<and> n \<le> 122 then Some (n - 97 + 26)
      else if 48 \<le> n \<and> n \<le> 57 then Some (n - 48 + 52)
      else if n = 45 \<or> n = 43 then Some 62
      else if n = 95 \<or> n = 47 then Some 63
      else None)"

definition base64url :: "string \<Rightarrow> string" where
  "base64url s = map b64_char (sextets (map of_char s))"

definition from_base64url :: "string \<Rightarrow> string" where
  "from_base64url s = map char_of (octets (List.map_filter b64_index s))"

subsection \<open>UTF-8\<close>

text \<open>The continuation range a lead byte requires next, and how many more bytes follow that one; \<open>None\<close> for a
  byte that cannot lead.\<close>

definition utf8_lead :: "nat \<Rightarrow> (nat \<times> nat \<times> nat) option" where
  "utf8_lead b =
     (if 194 \<le> b \<and> b \<le> 223 then Some (128, 191, 0)
      else if b = 224 then Some (160, 191, 1)
      else if b = 237 then Some (128, 159, 1)
      else if 225 \<le> b \<and> b \<le> 239 then Some (128, 191, 1)
      else if b = 240 then Some (144, 191, 2)
      else if 241 \<le> b \<and> b \<le> 243 then Some (128, 191, 2)
      else if b = 244 then Some (128, 143, 2)
      else None)"

definition replacement :: "nat list" where
  "replacement = [239, 191, 189]"

text \<open>The bytes of one sequence after its lead: \<open>Inr\<close> the whole sequence and the rest, or \<open>Inl\<close> the rest after the
  maximal part that is well-formed so far.\<close>

fun utf8_tail :: "nat \<Rightarrow> nat \<Rightarrow> nat \<Rightarrow> nat list \<Rightarrow> nat list \<Rightarrow> nat list + (nat list \<times> nat list)" where
  "utf8_tail lo hi more acc [] = Inl []"
| "utf8_tail lo hi more acc (b # bs) =
     (if lo \<le> b \<and> b \<le> hi
      then (case more of 0 \<Rightarrow> Inr (acc @ [b], bs) | Suc m \<Rightarrow> utf8_tail 128 191 m (acc @ [b]) bs)
      else Inl (b # bs))"

lemma utf8_tail_shorter:
  "utf8_tail lo hi more acc bs = Inl rest \<Longrightarrow> length rest \<le> length bs"
  "utf8_tail lo hi more acc bs = Inr (s, rest) \<Longrightarrow> length rest \<le> length bs"
  by (induction lo hi more acc bs rule: utf8_tail.induct) (fastforce split: if_splits nat.splits)+

function utf8_lossy :: "nat list \<Rightarrow> nat list" where
  "utf8_lossy bs =
     (case bs of
        [] \<Rightarrow> []
      | b # rest \<Rightarrow>
          if b < 128 then b # utf8_lossy rest
          else (case utf8_lead b of
                  None \<Rightarrow> replacement @ utf8_lossy rest
                | Some (lo, hi, more) \<Rightarrow>
                    (case utf8_tail lo hi more [b] rest of
                       Inl rest' \<Rightarrow> replacement @ utf8_lossy rest'
                     | Inr (s, rest') \<Rightarrow> s @ utf8_lossy rest')))"
  by pat_completeness auto
termination
  by (relation "measure length")
    (auto simp: less_Suc_eq_le dest: utf8_tail_shorter(1) utf8_tail_shorter(2))

declare utf8_lossy.simps [simp del]

text \<open>\<^verbatim>\<open>buffer.toString('utf8')\<close> on bytes.\<close>

definition utf8_text :: "string \<Rightarrow> string" where
  "utf8_text s = map char_of (utf8_lossy (map of_char s))"

text \<open>\<^verbatim>\<open>s.split(sep)\<close> for a one-character separator.\<close>

fun split_on :: "char \<Rightarrow> string \<Rightarrow> string list" where
  "split_on c [] = [[]]"
| "split_on c (x # xs) =
     (if x = c then [] # split_on c xs
      else (case split_on c xs of [] \<Rightarrow> [[x]] | w # ws \<Rightarrow> (x # w) # ws))"

definition starts_with :: "string \<Rightarrow> string \<Rightarrow> bool" where
  "starts_with p s \<longleftrightarrow> take (length p) s = p"

subsection \<open>Round trips\<close>

lemma octets_sextets: "\<forall>x \<in> set xs. x < 256 \<Longrightarrow> octets (sextets xs) = xs"
proof (induction xs rule: sextets.induct)
  case (1 a b c xs)
  have "((a mod 4) * 16 + b div 16) div 16 = a mod 4" "((a mod 4) * 16 + b div 16) mod 16 = b div 16"
    "((b mod 16) * 4 + c div 64) div 4 = b mod 16" "((b mod 16) * 4 + c div 64) mod 4 = c div 64"
    using 1(2) by auto
  then show ?case using 1 by simp
next
  case (2 a b)
  have "((a mod 4) * 16 + b div 16) div 16 = a mod 4" "((a mod 4) * 16 + b div 16) mod 16 = b div 16"
    using 2 by auto
  then show ?case by simp
qed simp_all

lemma sextets_bound: "\<forall>x \<in> set xs. x < 256 \<Longrightarrow> \<forall>y \<in> set (sextets xs). y < 64"
  by (induction xs rule: sextets.induct) auto

lemma b64_index_char: "n < 64 \<Longrightarrow> b64_index (b64_char n) = Some n"
  by (auto simp: b64_index_def b64_char_def Let_def of_char_of)

lemma map_filter_index: "\<forall>y \<in> set ys. y < 64 \<Longrightarrow> List.map_filter b64_index (map b64_char ys) = ys"
  by (induction ys) (auto simp: List.map_filter_def b64_index_char)

lemma of_char_bound: "\<forall>x \<in> set (map of_char (s :: string)). x < (256::nat)"
  by auto

lemma from_base64url_base64url [simp]: "from_base64url (base64url s) = s"
  using of_char_bound [of s]
  by (simp add: from_base64url_def base64url_def map_filter_index sextets_bound octets_sextets o_def
      del: set_map)

lemma utf8_ascii: "\<forall>b \<in> set bs. b < 128 \<Longrightarrow> utf8_lossy bs = bs"
  by (induction bs) (simp_all add: utf8_lossy.simps)

lemma split_on_none: "c \<notin> set s \<Longrightarrow> split_on c s = [s]"
  by (induction s) auto

lemma split_on_join: "c \<notin> set s \<Longrightarrow> split_on c (s @ c # t) = s # split_on c t"
  by (induction s) auto

lemma split_on_nonempty [simp]: "split_on c s \<noteq> []"
  by (cases s) (auto split: list.split)

subsection \<open>Case\<close>

text \<open>\<^verbatim>\<open>toLowerCase\<close> on ASCII letters.\<close>

definition lower_char :: "char \<Rightarrow> char" where
  "lower_char x = (let n = of_char x :: nat in if 65 \<le> n \<and> n \<le> 90 then char_of (n + 32) else x)"

subsection \<open>Timestamps as text\<close>

text \<open>What a paging query relies on of the timestamp texts: the cast inverts the rendering, \<^verbatim>\<open>Date.parse\<close> accepts it, and
  it is a non-empty ASCII text without the separator.\<close>

definition ascii :: "string \<Rightarrow> bool" where
  "ascii s = list_all (\<lambda>x. (of_char x :: nat) < 128) s"

definition plain_text :: "string \<Rightarrow> bool" where
  "plain_text s \<longleftrightarrow> s \<noteq> [] \<and> CHR ''|'' \<notin> set s \<and> ascii s"

definition timestamp_texts :: "(instant \<Rightarrow> string) \<Rightarrow> (string \<Rightarrow> bool) \<Rightarrow> (string \<Rightarrow> instant option) \<Rightarrow> bool" where
  "timestamp_texts to_cursor date_ok pg_time \<longleftrightarrow>
     (\<forall>t. pg_time (to_cursor t) = Some t \<and> date_ok (to_cursor t) \<and> plain_text (to_cursor t))"

lemma utf8_text_ascii: "ascii s \<Longrightarrow> utf8_text s = s"
  unfolding utf8_text_def by (subst utf8_ascii) (auto simp: ascii_def list_all_iff o_def)

text \<open>Unary timestamp texts, an instance of these laws.\<close>

definition unary_text :: "instant \<Rightarrow> string" where
  "unary_text t = (if t < 0 then ''-'' else ''+'') @ replicate (nat \<bar>t\<bar>) (CHR ''1'')"

definition unary_time :: "string \<Rightarrow> instant option" where
  "unary_time s = (case s of [] \<Rightarrow> None | x # xs \<Rightarrow> Some (if x = CHR ''-'' then - int (length xs) else int (length xs)))"

lemma unary_texts: "timestamp_texts unary_text (\<lambda>s. s \<noteq> []) unary_time"
  by (auto simp: timestamp_texts_def unary_text_def unary_time_def plain_text_def ascii_def list_all_iff)

end
