(* ===== verification/CatalogHistory.thy ===== *)
theory CatalogHistory
  imports CatalogInvariant Systems Text
begin

text \<open>
  The catalog under any sequence of its operations: \<open>catalog_step\<close> has one rule per operation that writes, the interpretation
  \<open>memory\<close> carries the invariant and the kept history over every run, and the properties say what a creation does and what its
  repetition answers.
\<close>

subsection \<open>Every history of the catalog\<close>

inductive catalog_step :: "catalog \<Rightarrow> catalog \<Rightarrow> bool" where
  reserveExtractionPublication: "catalog_step db (snd (reserveExtractionPublication now intent db))"
| confirmExtractionPublication: "catalog_step db (snd (confirmExtractionPublication intent db))"
| registerExtraction: "catalog_step db (snd (registerExtraction now input db))"
| reserveRevisionPublication: "catalog_step db (snd (reserveRevisionPublication now creation db))"
| confirmRevisionPublication: "catalog_step db (snd (confirmRevisionPublication creation db))"
| createMemoryTreeRevision: "catalog_step db (snd (createMemoryTreeRevision collated now creation db))"
| changeMaintenanceControl: "catalog_step db (snd (changeMaintenanceControl now target operation seen db))"
| restoreMemoryTree: "catalog_step db (snd (restoreMemoryTree now restore seen db))"

lemma catalog_step_keeps: "catalog_step db db' \<Longrightarrow> catalog_ok db \<Longrightarrow> keeps_catalog db db'"
  by (induction rule: catalog_step.induct)
    (rule reserveExtraction_keeps confirmExtraction_keeps registerExtraction_keeps reserveRevision_keeps confirmRevision_keeps
      createRevision_keeps changeControl_keeps restore_keeps; assumption)+

interpretation memory: directed_system "initial_catalog now" catalog_step catalog_ok history_kept
proof
  show "catalog_ok (initial_catalog now)" by (rule initial_ok)
  show "history_kept s s" for s by (rule history_refl)
  show "history_kept s s' \<Longrightarrow> history_kept s' s'' \<Longrightarrow> history_kept s s''" for s s' s'' by (rule history_trans)
qed (use catalog_step_keeps in \<open>auto simp: keeps_catalog_def\<close>)

lemma new_revision_trajectory:
  "trajectory_digest (rc_source input) = (case rv_trajectory_reference (new_revision now n input) of None \<Rightarrow> [] | Some t \<Rightarrow> art_digest t)"
  by (cases "rc_source input") (simp_all add: new_revision_def)

lemma one_selected_revision:
  assumes ok: "catalog_ok db" and r: "r \<in> set (revision_publications db)" "rp_status r = IntentSelected"
    and s: "s \<in> set (revision_publications db)" "rp_status s = IntentSelected"
    and owner: "kind_of_source (rc_source (rp_intent r)) = kind_of_source (rc_source (rp_intent s))"
      "source_id (rc_source (rp_intent r)) = source_id (rc_source (rp_intent s))"
  shows "r = s"
proof -
  obtain v w where v: "v \<in> set (tree_revisions db)" "revision_recorded db (rp_intent r) v" and w: "w \<in> set (tree_revisions db)" "revision_recorded db (rp_intent s) w"
    using revisionD(1) [OF ok r] revisionD(1) [OF ok s] by blast
  have rows: "v = new_revision (rv_created_at v) (rv_revision v) (rp_intent r)" "w = new_revision (rv_created_at w) (rv_revision w) (rp_intent s)"
    using v(2) w(2) by (simp_all add: revision_recorded_def)
  from made_by_keys [OF this] owner have "v = w" using revisionD(3) [OF ok v(1) w(1)] by blast
  then have tree: "rc_memory_tree_reference (rp_intent r) = rc_memory_tree_reference (rp_intent s)"
    using rows by (metis new_revision_made(6))
  have "trajectory_digest (rc_source (rp_intent r)) = trajectory_digest (rc_source (rp_intent s))"
    using rows \<open>v = w\<close> by (metis new_revision_trajectory)
  then have "rp_identity r = rp_identity s"
    using tree owner revision_pubD(2) [OF ok r(1)] revision_pubD(2) [OF ok s(1)]
    by (simp add: revisionPublicationIdentity_def)
  then show ?thesis using revision_pubD(1) [OF ok] r(1) s(1) by (auto simp: distinct_map inj_on_def)
qed

subsection \<open>Properties\<close>

text \<open>C30. Every interleaving of the catalog's writers keeps it consistent: extractions, revisions and ledgers satisfy \<open>catalog_ok\<close>
  (revisions numbered without gaps, each from the one confirmed publication of its owner, predecessors earlier, the active revision
  existing, every consumed observation consumed by the revision that names it), and no owner has two selected publications.\<close>

theorem catalog_consistent:
  assumes "catalog_step\<^sup>*\<^sup>* (initial_catalog now) db"
  shows "catalog_ok db \<and>
     (\<forall>r s. r \<in> set (extraction_publications db) \<and> s \<in> set (extraction_publications db) \<and> ep_status r = IntentSelected \<and>
        ep_status s = IntentSelected \<and> ep_extraction_id r = ep_extraction_id s \<longrightarrow> r = s) \<and>
     (\<forall>r s. r \<in> set (revision_publications db) \<and> s \<in> set (revision_publications db) \<and> rp_status r = IntentSelected \<and>
        rp_status s = IntentSelected \<and> fst (rp_identity r) = fst (rp_identity s) \<and> fst (snd (rp_identity r)) = fst (snd (rp_identity s)) \<longrightarrow> r = s)"
proof -
  have ok: "catalog_ok db" by (rule memory.inv_reached [OF assms])
  moreover have "r = s" if "r \<in> set (revision_publications db)" "s \<in> set (revision_publications db)" "rp_status r = IntentSelected"
      "rp_status s = IntentSelected" "fst (rp_identity r) = fst (rp_identity s)" "fst (snd (rp_identity r)) = fst (snd (rp_identity s))" for r s
    using that revision_pubD(2) [OF ok that(1)] revision_pubD(2) [OF ok that(2)]
    by (intro one_selected_revision [OF ok]) (simp_all add: revisionPublicationIdentity_def)
  ultimately show ?thesis using one_selected_extraction by blast
qed

text \<open>C31. The catalog's history is immutable: whatever is called later, revisions, extractions and both operator ledgers only grow, a
  selected publication stays as it is, and an observation keeps its text and, once consumed, the revision that consumed it.\<close>

theorem catalog_history_kept:
  assumes "catalog_step\<^sup>*\<^sup>* (initial_catalog now) db" "catalog_step\<^sup>*\<^sup>* db db'"
  shows "history_kept db db'"
  by (rule memory.dir_steps [OF assms(2) memory.inv_reached [OF assms(1)]])

lemma created_appends:
  assumes ok: "catalog_ok db" and op: "createMemoryTreeRevision collated now input db = (Inr (True, n, k, i), db')"
  shows "appendable input db \<and> db' = appended now input db \<and> n = Suc (length (tree_revisions db)) \<and>
     (kind_of_source (rc_source input) = KindMaintenance \<longrightarrow> mc_state (control db) = MaintenanceEnabled)"
proof -
  let ?ids = "claimed_ids (rc_source input)"
  let ?found = "filter (\<lambda>o'. ob_extraction_id o' \<in> set ?ids) (pending db)"
  note op' = op [unfolded createMemoryTreeRevision_def inTransaction_def Let_def, folded select_revision_def]
  have sel: "revision_selectable input db" using op' unfolding revision_selectable_eq [OF ok] by (auto split: if_splits)
  have none: "List.find (made_by (rc_source input)) (tree_revisions db) = None"
    using op' by (auto split: if_splits option.splits)
  have good: "active_revision db = rc_expected_active_revision input"
      "(n, db') = append_revision now input (db\<lparr>revision_publications := select_revision input (revision_publications db)\<rparr>)"
      "kind_of_source (rc_source input) = KindMaintenance \<Longrightarrow> mc_state (control db) = MaintenanceEnabled \<and>
         length ?found = length ?ids \<and> list_all (\<lambda>i. list_ex (\<lambda>o'. ob_extraction_id o' = i) ?found) ?ids"
    using op' none by (auto split: if_splits prod.splits)
  have "distinct ?ids \<and> set ?ids \<inter> ob_extraction_id ` set (pending db) = set ?ids"
    using pending_claimed [OF ok] good(3) by (cases "rc_source input") auto
  then have "appendable input db" using ok sel none good(1) by (auto simp: appendable_def revision_selectable_def find_None_iff)
  then show ?thesis
    using good revision_numbers(3) [OF ok] by (simp add: append_revision_def appended_def Let_def)
qed

text \<open>C32. A creation that succeeds is a compare-and-swap: the active revision was the one the caller expected, the new one has the next
  number, follows it and becomes active, all earlier revisions stay, and it consumes exactly the observations it names, all of them pending
  before; automatic maintenance only succeeds while it is enabled.\<close>

theorem creation_swaps:
  assumes "catalog_step\<^sup>*\<^sup>* (initial_catalog start) db" "createMemoryTreeRevision collated now input db = (Inr (True, n, k, i), db')"
  shows "active_revision db = rc_expected_active_revision input \<and> active_revision db' = n \<and> n = Suc (length (tree_revisions db)) \<and>
     tree_revisions db' = tree_revisions db @ [new_revision now n input] \<and>
     set (consumed_by db' n) = set (claimed_ids (rc_source input)) \<and>
     set (claimed_ids (rc_source input)) \<subseteq> ob_extraction_id ` set (pending db) \<and>
     set (map ob_extraction_id (pending db')) = set (map ob_extraction_id (pending db)) - set (claimed_ids (rc_source input)) \<and>
     (kind_of_source (rc_source input) = KindMaintenance \<longrightarrow> mc_state (control db) = MaintenanceEnabled)"
proof -
  have ok: "catalog_ok db" by (rule memory.inv_reached [OF assms(1)])
  note app = created_appends [OF ok assms(2)]
  have "set (map ob_extraction_id (filter (\<lambda>o'. ob_consumed_revision o' = None) (consume m ids obs))) =
      set (map ob_extraction_id (filter (\<lambda>o'. ob_consumed_revision o' = None) obs)) - set ids"
    if "distinct (map ob_extraction_id obs)" for m ids obs
    using that by (induction obs) (auto simp: consume_def)
  from this [OF extraction_pubD(6) [OF ok]]
  have "set (map ob_extraction_id (pending db')) = set (map ob_extraction_id (pending db)) - set (claimed_ids (rc_source input))"
    using app by (simp add: pending_def appended_def)
  moreover have "active_revision db = rc_expected_active_revision input" "set (claimed_ids (rc_source input)) \<subseteq> ob_extraction_id ` set (pending db)"
    using app unfolding appendable_def by blast+
  moreover have "set (consumed_by db' n) = set (claimed_ids (rc_source input))" using app appended_consumed(2) [of input db now] by simp
  moreover have "active_revision db' = n" "tree_revisions db' = tree_revisions db @ [new_revision now n input]"
    using app by (simp_all add: appended_def)
  ultimately show ?thesis using app by blast
qed

text \<open>A creation that was answered leaves its revision recorded and its publication selected.\<close>

lemma created_recorded:
  assumes ok: "catalog_ok db" and op: "createMemoryTreeRevision collated now input db = (Inr (b, n, k, i), db')"
  shows "(\<exists>v \<in> set (tree_revisions db'). revision_recorded db' input v \<and> rv_revision v = n) \<and>
     (\<exists>r \<in> set (revision_publications db'). rp_status r = IntentSelected \<and> rp_intent r = input) \<and>
     k = kind_of_source (rc_source input) \<and> i = source_id (rc_source input)"
proof -
  note op' = op [unfolded createMemoryTreeRevision_def inTransaction_def Let_def, folded select_revision_def]
  have key: "k = kind_of_source (rc_source input) \<and> i = source_id (rc_source input)"
    using op' by (auto split: if_splits option.splits prod.splits)
  show ?thesis
  proof (cases b)
    case True
    then have app: "appendable input db" "db' = appended now input db" "n = Suc (length (tree_revisions db))"
      using created_appends [OF ok] op by simp_all
    have "revision_recorded db' input (new_revision now n input)" "new_revision now n input \<in> set (tree_revisions db')"
      using appended_recorded(1) [OF app(1)] app(2,3) by (simp_all add: appended_def)
    moreover have "rv_revision (new_revision now n input) = n" by simp
    ultimately show ?thesis using key appended_publications(2) [OF app(1), of now, folded app(2)] by blast
  next
    case False
    have sel: "revision_selectable input db" using op' unfolding revision_selectable_eq [OF ok] by (auto split: if_splits)
    obtain v where find: "List.find (made_by (rc_source input)) (tree_revisions db) = Some v"
      and db': "db' = db\<lparr>revision_publications := select_revision input (revision_publications db)\<rparr>" "n = rv_revision v"
      using op' False by (auto split: if_splits option.splits prod.splits)
    then have v: "v \<in> set (tree_revisions db)" "made_by (rc_source input) v" by (auto dest: find_SomeD)
    note again = select_again [OF ok sel v]
    obtain r where "r \<in> set (revision_publications db)" "rp_status r = IntentSelected"
      "kind_of_source (rc_source (rp_intent r)) = kind_of_source (rc_source input)" "source_id (rc_source (rp_intent r)) = source_id (rc_source input)"
      by (rule owner_selected [OF ok v])
    moreover from this have "rp_intent r = input" using sel by (auto simp: revision_selectable_def)
    moreover have "db' = db" using db'(1) again(1) by simp
    ultimately show ?thesis using key v(1) again(2) db'(2) by auto
  qed
qed

lemma owner_unique:
  assumes ok: "catalog_ok db" and v: "v \<in> set (tree_revisions db)" "made_by src v" and w: "w \<in> set (tree_revisions db)" "made_by src w"
  shows "v = w"
proof -
  obtain i j where i: "v = new_revision (rv_created_at v) (rv_revision v) i" and j: "w = new_revision (rv_created_at w) (rv_revision w) j"
    using revisionD(2) [OF ok v(1)] revisionD(2) [OF ok w(1)] unfolding revision_recorded_def by blast
  from made_by_keys [OF i j] made_by_same [OF i, of src] made_by_same [OF j, of src] v w show ?thesis
    using revisionD(3) [OF ok v(1) w(1)] by metis
qed

lemma new_revision_source:
  "rc_source input = MaintenanceSource m ids t \<Longrightarrow> rv_trajectory_reference (new_revision now n input) = Some t"
  "rc_source input = OperatorSource p a \<Longrightarrow> rv_actor (new_revision now n input) = Some a"
  by (simp_all add: new_revision_def)

text \<open>What a later request of the same content finds.\<close>

lemma replay_state:
  assumes ok: "catalog_ok db" and op: "createMemoryTreeRevision collated now input db = (Inr (b, n, k, i), db1)"
    and later: "catalog_step\<^sup>*\<^sup>* db1 db2"
  obtains v where "catalog_ok db2" "revision_selectable input db2" "List.find (made_by (rc_source input)) (tree_revisions db2) = Some v"
    "v = new_revision (rv_created_at v) n input" "rv_revision v = n" "select_revision input (revision_publications db2) = revision_publications db2"
    "distinct (claimed_ids (rc_source input))" "distinct (consumed_by db2 n)" "set (consumed_by db2 n) = set (claimed_ids (rc_source input))"
    "k = kind_of_source (rc_source input)" "i = source_id (rc_source input)"
proof -
  have ok1: "catalog_ok db1" using createRevision_keeps [OF ok, of collated now input] op by (simp add: keeps_catalog_def)
  have kept: "history_kept db1 db2" by (rule memory.dir_steps [OF later ok1])
  have ok2: "catalog_ok db2" by (rule memory.inv_steps [OF later ok1])
  obtain v r where v: "v \<in> set (tree_revisions db1)" "revision_recorded db1 input v" "rv_revision v = n"
    and r: "r \<in> set (revision_publications db1)" "rp_status r = IntentSelected" "rp_intent r = input"
    and key: "k = kind_of_source (rc_source input)" "i = source_id (rc_source input)"
    using created_recorded [OF ok op] by blast
  have v2: "v \<in> set (tree_revisions db2)" and r2: "r \<in> set (revision_publications db2)"
    and same: "set (consumed_by db2 n) = set (consumed_by db1 n)"
    using kept v(1) r(1,2) revision_numbers(1) [OF ok1 v(1)] v(3) unfolding history_kept_def by (auto dest: extendsD)
  have row: "v = new_revision (rv_created_at v) n input" and ids: "distinct (claimed_ids (rc_source input))"
    "set (consumed_by db2 n) = set (claimed_ids (rc_source input))"
    using v(2,3) same unfolding revision_recorded_def by auto
  have sel: "revision_selectable input db2"
    unfolding revision_selectable_def using r2 r(2,3) one_selected_revision [OF ok2 r2 r(2)] by (metis publication_status.distinct(3))
  have made: "made_by (rc_source input) v" using row by (metis new_revision_made(1))
  obtain w where find: "List.find (made_by (rc_source input)) (tree_revisions db2) = Some w"
    using v2 made by (cases "List.find (made_by (rc_source input)) (tree_revisions db2)") (auto simp: find_None_iff)
  then have "w = v" using owner_unique [OF ok2 _ _ v2 made] by (auto dest: find_SomeD)
  moreover have "distinct (consumed_by db2 n)"
    unfolding consumed_by_def by (rule distinct_map_filter [OF extraction_pubD(6) [OF ok2]])
  ultimately show ?thesis
    using that ok2 sel find row v(3) select_again(1) [OF ok2 sel v2 made] ids key by blast
qed

text \<open>C33. Creating a revision is idempotent: once a request was answered, the same request is answered with the same revision at any later
  time, whatever happened in between, and writes nothing. The database must order text by code units, as the service sorts the ids.\<close>

theorem revision_replayed:
  assumes "catalog_step\<^sup>*\<^sup>* (initial_catalog start) db" "createMemoryTreeRevision collated now input db = (Inr (b, n, k, i), db1)"
    "catalog_step\<^sup>*\<^sup>* db1 db2" and collation: "\<forall>ids. collated ids = sort ids"
  shows "createMemoryTreeRevision collated later input db2 = (Inr (False, n, k, i), db2)"
proof (rule replay_state [OF memory.inv_reached [OF assms(1)] assms(2,3)])
  fix v
  assume ok: "catalog_ok db2" and found: "revision_selectable input db2" "List.find (made_by (rc_source input)) (tree_revisions db2) = Some v"
    and row: "v = new_revision (rv_created_at v) n input" "rv_revision v = n"
    and same: "select_revision input (revision_publications db2) = revision_publications db2"
    and ids: "distinct (claimed_ids (rc_source input))" "distinct (consumed_by db2 n)" "set (consumed_by db2 n) = set (claimed_ids (rc_source input))"
    and key: "k = kind_of_source (rc_source input)" "i = source_id (rc_source input)"
  have "sort (consumed_by db2 n) = sort (claimed_ids (rc_source input))"
    using ids sorted_list_of_set_sort_remdups [of "consumed_by db2 n"] sorted_list_of_set_sort_remdups [of "claimed_ids (rc_source input)"]
    by (simp add: distinct_remdups_id)
  then have "same_source collated db2 (rc_source input) v"
    using new_revision_source [where input = input and now = "rv_created_at v" and n = n, folded row(1)] row(2) collation
    by (cases "rc_source input") simp_all
  then have "identical_revision collated input db2 v"
    unfolding identical_revision_def using new_revision_made(5,6) [of "rv_created_at v" n input, folded row(1)] by simp
  then show ?thesis
    using found same row(2) key
    unfolding createMemoryTreeRevision_def inTransaction_def Let_def select_revision_def [symmetric] revision_selectable_eq [OF ok] by simp
qed

text \<open>C34. Where the database orders the ids of a maintenance run differently, the same request is refused as a conflict: the service
  compares the ids in the database's order with its own.\<close>

theorem collated_replay_refused:
  assumes "catalog_step\<^sup>*\<^sup>* (initial_catalog start) db" "createMemoryTreeRevision collated now input db = (Inr (b, n, k, i), db1)"
    "catalog_step\<^sup>*\<^sup>* db1 db2" "rc_source input = MaintenanceSource m ids t"
    and collation: "\<forall>xs. distinct xs \<and> set xs = set ids \<longrightarrow> collated xs \<noteq> sort ids"
  shows "createMemoryTreeRevision collated later input db2 =
     (Inl (MemoryTreeRevisionConflictError ''Maintenance id already exists with different content.''), db2)"
proof (rule replay_state [OF memory.inv_reached [OF assms(1)] assms(2,3)])
  fix v
  assume ok: "catalog_ok db2" and found: "revision_selectable input db2" "List.find (made_by (rc_source input)) (tree_revisions db2) = Some v"
    and row: "rv_revision v = n" and same: "select_revision input (revision_publications db2) = revision_publications db2"
    and ids: "distinct (consumed_by db2 n)" "set (consumed_by db2 n) = set (claimed_ids (rc_source input))"
  have "\<not> identical_revision collated input db2 v"
    using ids collation assms(4) row by (simp add: identical_revision_def)
  then show ?thesis
    using found same assms(4)
    unfolding createMemoryTreeRevision_def inTransaction_def Let_def select_revision_def [symmetric] revision_selectable_eq [OF ok] by simp
qed

subsection \<open>A concrete catalog\<close>

definition demo_artifact :: "string \<Rightarrow> artifact_reference" where
  "demo_artifact d = \<lparr>art_uri = ''s3://m/'' @ d, art_digest = d, art_media_type = ''application/zstd'', art_size_bytes = 7\<rparr>"

definition demo_registration :: "string \<Rightarrow> extraction_publication_intent" where
  "demo_registration eid =
     \<lparr>ei_registration = \<lparr>reg_extraction_id = eid, reg_source_workflow = ''issue-review'', reg_source_run_id = ''run-1'', reg_source_unit_id = eid,
        reg_diagnostic_bundle_digest = ''d'', reg_trajectory_reference = demo_artifact eid, reg_observation = Some ''note''\<rparr>,
      ei_summary = ''s''\<rparr>"

definition demo_extracted :: "instant \<Rightarrow> string \<Rightarrow> catalog \<Rightarrow> catalog" where
  "demo_extracted now eid db =
     snd (registerExtraction now (ei_registration (demo_registration eid)) (snd (confirmExtractionPublication (demo_registration eid)
       (snd (reserveExtractionPublication 1 (demo_registration eid) db)))))"

definition demo_creation :: revision_creation where
  "demo_creation = \<lparr>rc_expected_active_revision = 0, rc_memory_tree_reference = demo_artifact ''tree'',
     rc_source = MaintenanceSource ''m-1'' [''a'', ''B''] (demo_artifact ''trace'')\<rparr>"

definition demo_memory :: catalog where
  "demo_memory = snd (confirmRevisionPublication demo_creation (snd (reserveRevisionPublication 4 demo_creation
     (demo_extracted 3 ''B'' (demo_extracted 2 ''a'' (initial_catalog 0))))))"

text \<open>A collation that compares letters before case.\<close>

definition by_letter :: "string list \<Rightarrow> string list" where
  "by_letter = sort_key (\<lambda>s. (map lower_char s, s))"

lemma demo_extracted_reached: "catalog_step\<^sup>*\<^sup>* start db \<Longrightarrow> catalog_step\<^sup>*\<^sup>* start (demo_extracted now eid db)"
  unfolding demo_extracted_def
  by (rule rtranclp.rtrancl_into_rtrancl [rotated], rule catalog_step.registerExtraction,
      rule rtranclp.rtrancl_into_rtrancl [rotated], rule catalog_step.confirmExtractionPublication,
      rule rtranclp.rtrancl_into_rtrancl [rotated], rule catalog_step.reserveExtractionPublication)

lemma demo_memory_reached: "catalog_step\<^sup>*\<^sup>* (initial_catalog 0) demo_memory"
  unfolding demo_memory_def
  by (rule rtranclp.rtrancl_into_rtrancl [rotated], rule catalog_step.confirmRevisionPublication,
      rule rtranclp.rtrancl_into_rtrancl [rotated], rule catalog_step.reserveRevisionPublication,
      intro demo_extracted_reached rtranclp.rtrancl_refl)

lemma demo_created:
  "fst (createMemoryTreeRevision sort 9 demo_creation demo_memory) = Inr (True, 1, KindMaintenance, ''m-1'')"
  "fst (createMemoryTreeRevision by_letter 9 demo_creation demo_memory) = Inr (True, 1, KindMaintenance, ''m-1'')"
  by code_simp+

theorem catalog_consistent_witness: "catalog_ok demo_memory"
  using catalog_consistent [OF demo_memory_reached] by blast

theorem catalog_history_kept_witness: "history_kept demo_memory (snd (createMemoryTreeRevision sort 9 demo_creation demo_memory))"
  by (rule catalog_history_kept [OF demo_memory_reached], rule r_into_rtranclp, rule catalog_step.createMemoryTreeRevision)

lemma demo_creates:
  "createMemoryTreeRevision sort 9 demo_creation demo_memory =
     (Inr (True, 1, KindMaintenance, ''m-1''), snd (createMemoryTreeRevision sort 9 demo_creation demo_memory))"
  "createMemoryTreeRevision by_letter 9 demo_creation demo_memory =
     (Inr (True, 1, KindMaintenance, ''m-1''), snd (createMemoryTreeRevision by_letter 9 demo_creation demo_memory))"
  using demo_created by (metis prod.collapse)+

theorem creation_swaps_witness:
  "set (consumed_by (snd (createMemoryTreeRevision sort 9 demo_creation demo_memory)) 1) = {''a'', ''B''}"
  using creation_swaps [OF demo_memory_reached demo_creates(1)] by (simp add: demo_creation_def)

theorem revision_replayed_witness:
  "fst (createMemoryTreeRevision sort 10 demo_creation (snd (createMemoryTreeRevision sort 9 demo_creation demo_memory))) =
     Inr (False, 1, KindMaintenance, ''m-1'')"
  using revision_replayed [OF demo_memory_reached demo_creates(1) rtranclp.rtrancl_refl, of 10] by simp

theorem collated_replay_refused_witness:
  "fst (createMemoryTreeRevision by_letter 10 demo_creation (snd (createMemoryTreeRevision by_letter 9 demo_creation demo_memory))) =
     Inl (MemoryTreeRevisionConflictError ''Maintenance id already exists with different content.'')"
proof -
  have "by_letter xs \<noteq> sort [''a'', ''B'']" if "distinct xs" "set xs = set [''a'', ''B'']" for xs
  proof -
    have "length xs = 2" using that distinct_card [of xs] by simp
    then obtain x y where xs: "xs = [x, y]" by (auto simp: length_Suc_conv numeral_2_eq_2)
    then have "{x, y} = {''a'', ''B''}" using that(2) by simp
    then have "xs = [''a'', ''B''] \<or> xs = [''B'', ''a'']" unfolding doubleton_eq_iff xs by blast
    moreover have "by_letter [''a'', ''B''] \<noteq> sort [''a'', ''B'']" "by_letter [''B'', ''a''] \<noteq> sort [''a'', ''B'']" by code_simp+
    ultimately show ?thesis by auto
  qed
  then show ?thesis
    using collated_replay_refused [OF demo_memory_reached demo_creates(2) rtranclp.rtrancl_refl, of "''m-1''" "[''a'', ''B'']" "demo_artifact ''trace''" 10]
    by (simp add: demo_creation_def)
qed

end
