(* ===== verification/Paging.thy ===== *)
theory Paging
  imports Prelude
begin

text \<open>
  Keyset pages: rows in descending order of a key, and the rows below the key of a cursor. The listings of the review runs and of the
  memory catalog page this way.
\<close>

definition below_key :: "('a \<Rightarrow> 'k::linorder) \<Rightarrow> 'k option \<Rightarrow> 'a \<Rightarrow> bool" where
  "below_key key cur x = (case cur of None \<Rightarrow> True | Some b \<Rightarrow> key x < b)"

lemma filter_newest_first:
  "filter P (rev (sort_key f (filter Q xs))) = rev (sort_key f (filter (\<lambda>x. Q x \<and> P x) xs))"
  by (simp add: rev_filter [symmetric] filter_sort conj_commute)

lemma newest_first_descending:
  "distinct (map key xs) \<Longrightarrow> sorted_wrt (\<lambda>x y. key y < key x) (rev (sort_key key xs))"
proof -
  assume "distinct (map key xs)"
  then have "distinct (map key (sort_key key xs))" by (simp add: distinct_map)
  then have "sorted_wrt (<) (map key (sort_key key xs))" by (simp add: strict_sorted_iff)
  then show ?thesis by (simp add: sorted_wrt_rev sorted_wrt_map)
qed

text \<open>The rows below the last row of a page are the rows after that page.\<close>

lemma filter_below_last:
  assumes "sorted_wrt (\<lambda>x y. key y < key x) xs" "0 < n" "n < length (filter (below_key key cur) xs)"
  shows "filter (below_key key (Some (key (last (take n (filter (below_key key cur) xs)))))) xs =
     drop n (filter (below_key key cur) xs)"
proof -
  define ys where "ys = filter (below_key key cur) xs"
  define z where "z = last (take n ys)"
  have ys: "sorted_wrt (\<lambda>x y. key y < key x) (take n ys @ drop n ys)"
    using sorted_wrt_filter [OF assms(1)] by (simp add: ys_def)
  have "take n ys \<noteq> []" using assms(2,3) by (auto simp: ys_def)
  then obtain zs where zs: "take n ys = zs @ [z]" unfolding z_def by (metis append_butlast_last_id)
  then have "z \<in> set (take n ys)" by simp
  then have "z \<in> set ys" by (rule in_set_takeD)
  then have "below_key key cur z" by (simp add: ys_def)
  then have "filter (below_key key (Some (key z))) xs = filter (below_key key (Some (key z))) ys"
    unfolding ys_def filter_filter
    by (intro filter_cong) (auto simp: below_key_def split: option.splits)
  also have "\<dots> = filter (below_key key (Some (key z))) (zs @ [z]) @ filter (below_key key (Some (key z))) (drop n ys)"
    by (metis append_take_drop_id filter_append zs)
  also have "filter (below_key key (Some (key z))) (zs @ [z]) = []"
    using ys by (auto simp: zs sorted_wrt_append below_key_def filter_empty_conv)
  also have "filter (below_key key (Some (key z))) (drop n ys) = drop n ys"
    using ys by (auto simp: zs sorted_wrt_append below_key_def intro!: filter_True)
  finally show ?thesis unfolding ys_def z_def append_Nil .
qed

end
