(* ===== verification/CatalogQueries.thy ===== *)
theory CatalogQueries
  imports CatalogHistory Paging
begin

text \<open>
  The read side of the memory catalog, \<^verbatim>\<open>services/memory-catalog/src/catalog-queries.ts\<close>. What PostgreSQL and JavaScript do with
  timestamps as text is a parameter, as in the run lists: \<open>iso_text\<close> renders an instant of whole milliseconds, \<open>pg_time\<close> is the cast to
  \<^verbatim>\<open>timestamptz\<close>, \<open>date_ok\<close> whether \<^verbatim>\<open>Date.parse\<close> accepts a text, \<open>parse_json\<close> the runtime's \<^verbatim>\<open>JSON.parse\<close>. Text is compared by the
  collation of the database: \<open>coll\<close> gives the sort key of a text, and texts with one sort key are compared by their bytes. The
  truncation of an instant to a month is a parameter of the overview.
\<close>

subsection \<open>Cursors\<close>

datatype query_error = InvalidCatalogCursorError string | QueryFailed string | MissingSourceField string

record catalog_cursor =
  cc_created_at :: string
  cc_extraction_id :: string

text \<open>\<^verbatim>\<open>JSON.stringify\<close> of a text.\<close>

definition json_char :: "char \<Rightarrow> string" where
  "json_char x =
     (let n = of_char x :: nat; hex = (\<lambda>d. ''0123456789abcdef'' ! d) in
      if n = 34 \<or> n = 92 then [char_of (92::nat), x]
      else if n = 8 then char_of (92::nat) # ''b''
      else if n = 9 then char_of (92::nat) # ''t''
      else if n = 10 then char_of (92::nat) # ''n''
      else if n = 12 then char_of (92::nat) # ''f''
      else if n = 13 then char_of (92::nat) # ''r''
      else if n < 32 then char_of (92::nat) # ''u00'' @ [hex (n div 16), hex (n mod 16)]
      else [x])"

definition json_quote :: "string \<Rightarrow> string" where
  "json_quote s = CHR 0x22 # concat (map json_char s) @ [CHR 0x22]"

definition cursor_json :: "catalog_cursor \<Rightarrow> string" where
  "cursor_json c = ''{'' @ json_quote ''createdAt'' @ '':'' @ json_quote (cc_created_at c) @ '','' @
     json_quote ''extractionId'' @ '':'' @ json_quote (cc_extraction_id c) @ ''}''"

definition encodeCursor :: "catalog_cursor \<Rightarrow> string" where
  "encodeCursor cursor = base64url (cursor_json cursor)"

definition decodeCursor ::
  "(string \<Rightarrow> bool) \<Rightarrow> (string \<Rightarrow> string + json) \<Rightarrow> string option \<Rightarrow> query_error + catalog_cursor option" where
  "decodeCursor date_ok parse_json value =
     (case value of
        None \<Rightarrow> Inr None
      | Some s \<Rightarrow>
         (let invalid = Inl (InvalidCatalogCursorError ''Invalid catalog pagination cursor.'') in
          case parse_json (utf8_text (from_base64url s)) of
            Inr (JObj kvs) \<Rightarrow>
             (case (map_of kvs ''createdAt'', map_of kvs ''extractionId'') of
                (Some (JStr createdAt), Some (JStr extractionId)) \<Rightarrow>
                  if length kvs \<noteq> 2 \<or> \<not> date_ok createdAt \<or> extractionId = [] then invalid
                  else Inr (Some \<lparr>cc_created_at = createdAt, cc_extraction_id = extractionId\<rparr>)
              | _ \<Rightarrow> invalid)
          | _ \<Rightarrow> invalid))"

subsection \<open>Keyset pages\<close>

definition page_key :: "(string \<Rightarrow> string) \<Rightarrow> instant \<times> string \<Rightarrow> instant \<times> string \<times> string" where
  "page_key coll p = (fst p, coll (snd p), snd p)"

definition cast_catalog_cursor ::
  "(string \<Rightarrow> bool) \<Rightarrow> (string \<Rightarrow> string + json) \<Rightarrow> (string \<Rightarrow> instant option) \<Rightarrow> string option \<Rightarrow> query_error + (instant \<times> string) option" where
  "cast_catalog_cursor date_ok parse_json pg_time value =
     (case decodeCursor date_ok parse_json value of
        Inl e \<Rightarrow> Inl e
      | Inr None \<Rightarrow> Inr None
      | Inr (Some c) \<Rightarrow>
         (case pg_time (cc_created_at c) of
            None \<Rightarrow> Inl (QueryFailed (''invalid input syntax for type timestamp with time zone: '' @ cc_created_at c))
          | Some t \<Rightarrow> Inr (Some (t, cc_extraction_id c))))"

text \<open>The statement of both listings, \<open>key\<close> the pair of columns it is ordered by, and the rows and the position of a page.\<close>

definition page_rows :: "(string \<Rightarrow> string) \<Rightarrow> ('r \<Rightarrow> instant \<times> string) \<Rightarrow> (instant \<times> string) option \<Rightarrow> nat \<Rightarrow> 'r list \<Rightarrow> 'r list" where
  "page_rows coll key cursor limit rows =
     take limit (rev (sort_key (\<lambda>r. page_key coll (key r))
       (filter (\<lambda>r. case cursor of None \<Rightarrow> True | Some b \<Rightarrow> page_key coll (key r) < page_key coll b) rows)))"

definition page_position :: "(instant \<Rightarrow> string) \<Rightarrow> instant \<times> string \<Rightarrow> catalog_cursor" where
  "page_position iso_text p = \<lparr>cc_created_at = iso_text (iso (fst p)), cc_extraction_id = snd p\<rparr>"

definition keyset_page ::
  "(instant \<Rightarrow> string) \<Rightarrow> (string \<Rightarrow> string) \<Rightarrow> ('r \<Rightarrow> instant \<times> string) \<Rightarrow> (instant \<times> string) option \<Rightarrow> nat \<Rightarrow> 'r list \<Rightarrow>
     'r list \<times> string option" where
  "keyset_page iso_text coll key cursor limit selected =
     (let result = page_rows coll key cursor (limit + 1) selected; rows = take limit result in
      (rows, if limit < length result \<and> rows \<noteq> [] then Some (encodeCursor (page_position iso_text (key (last rows)))) else None))"

subsection \<open>Extractions and observations\<close>

record extraction_record =
  er_extraction_id :: string
  er_source_workflow :: string
  er_source_run_id :: string
  er_source_unit_id :: string
  er_diagnostic_bundle_digest :: string
  er_trajectory_reference :: artifact_reference
  er_observation :: "string option"
  er_created_at :: instant

type_synonym joined_row = "extraction_row \<times> observation_row option"

definition observation_of :: "catalog \<Rightarrow> string \<Rightarrow> observation_row option" where
  "observation_of db eid = List.find (\<lambda>o'. ob_extraction_id o' = eid) (observations db)"

definition joined_extractions :: "catalog \<Rightarrow> joined_row list" where
  "joined_extractions db = map (\<lambda>x. (x, observation_of db (ex_extraction_id x))) (extractions db)"

definition projectExtraction :: "joined_row \<Rightarrow> extraction_record" where
  "projectExtraction row =
     (let x = fst row in
      \<lparr>er_extraction_id = ex_extraction_id x, er_source_workflow = ex_source_workflow x, er_source_run_id = ex_source_run_id x,
       er_source_unit_id = ex_source_unit_id x, er_diagnostic_bundle_digest = ex_diagnostic_bundle_digest x,
       er_trajectory_reference = ex_trajectory_reference x, er_observation = map_option ob_body_markdown (snd row),
       er_created_at = iso (ex_created_at x)\<rparr>)"

definition getExtraction :: "string \<Rightarrow> catalog \<Rightarrow> extraction_record option" where
  "getExtraction eid db =
     map_option projectExtraction (List.find (\<lambda>row. ex_extraction_id (fst row) = eid) (joined_extractions db))"

record extraction_filters =
  ef_source_workflow :: "string option"
  ef_source_run_id :: "string option"
  ef_has_observation :: "bool option"

definition extraction_matches :: "extraction_filters \<Rightarrow> joined_row \<Rightarrow> bool" where
  "extraction_matches f row \<longleftrightarrow>
     (case ef_source_workflow f of None \<Rightarrow> True | Some w \<Rightarrow> ex_source_workflow (fst row) = w) \<and>
     (case ef_source_run_id f of None \<Rightarrow> True | Some k \<Rightarrow> ex_source_run_id (fst row) = k) \<and>
     (case ef_has_observation f of None \<Rightarrow> True | Some b \<Rightarrow> (snd row \<noteq> None) = b)"

definition extraction_key :: "joined_row \<Rightarrow> instant \<times> string" where
  "extraction_key row = (ex_created_at (fst row), ex_extraction_id (fst row))"

definition listExtractions ::
  "(instant \<Rightarrow> string) \<Rightarrow> (string \<Rightarrow> bool) \<Rightarrow> (string \<Rightarrow> string + json) \<Rightarrow> (string \<Rightarrow> instant option) \<Rightarrow> (string \<Rightarrow> string) \<Rightarrow>
     string option \<Rightarrow> nat \<Rightarrow> extraction_filters \<Rightarrow> catalog \<Rightarrow> query_error + extraction_record list \<times> string option" where
  "listExtractions iso_text date_ok parse_json pg_time coll cursorValue limit filters db =
     (case cast_catalog_cursor date_ok parse_json pg_time cursorValue of
        Inl e \<Rightarrow> Inl e
      | Inr cursor \<Rightarrow>
         (let (rows, next_cursor) =
            keyset_page iso_text coll extraction_key cursor limit (filter (extraction_matches filters) (joined_extractions db))
          in Inr (map projectExtraction rows, next_cursor)))"

record observation_record =
  or_extraction_id :: string
  or_source_run_id :: string
  or_source_unit_id :: string
  or_body_markdown :: string
  or_consumed_revision :: "nat option"
  or_created_at :: instant

datatype observation_status = ObservationPending | ObservationConsumed

record observation_filters =
  of_status :: "observation_status option"
  of_consumed_revision :: "nat option"

definition joined_observations :: "catalog \<Rightarrow> (observation_row \<times> extraction_row) list" where
  "joined_observations db =
     concat (map (\<lambda>o'. map (Pair o') (filter (\<lambda>x. ex_extraction_id x = ob_extraction_id o') (extractions db))) (observations db))"

definition observation_matches :: "observation_filters \<Rightarrow> observation_row \<times> extraction_row \<Rightarrow> bool" where
  "observation_matches f row \<longleftrightarrow>
     (case of_status f of
        None \<Rightarrow> True
      | Some ObservationPending \<Rightarrow> ob_consumed_revision (fst row) = None
      | Some ObservationConsumed \<Rightarrow> ob_consumed_revision (fst row) \<noteq> None) \<and>
     (case of_consumed_revision f of None \<Rightarrow> True | Some n \<Rightarrow> ob_consumed_revision (fst row) = Some n)"

definition observation_key :: "observation_row \<times> extraction_row \<Rightarrow> instant \<times> string" where
  "observation_key row = (ob_created_at (fst row), ob_extraction_id (fst row))"

definition projectObservation :: "observation_row \<times> extraction_row \<Rightarrow> observation_record" where
  "projectObservation row =
     (case row of (o', x) \<Rightarrow>
      \<lparr>or_extraction_id = ob_extraction_id o', or_source_run_id = ex_source_run_id x, or_source_unit_id = ex_source_unit_id x,
       or_body_markdown = ob_body_markdown o', or_consumed_revision = ob_consumed_revision o', or_created_at = iso (ob_created_at o')\<rparr>)"

definition listObservations ::
  "(instant \<Rightarrow> string) \<Rightarrow> (string \<Rightarrow> bool) \<Rightarrow> (string \<Rightarrow> string + json) \<Rightarrow> (string \<Rightarrow> instant option) \<Rightarrow> (string \<Rightarrow> string) \<Rightarrow>
     string option \<Rightarrow> nat \<Rightarrow> observation_filters \<Rightarrow> catalog \<Rightarrow> query_error + observation_record list \<times> string option" where
  "listObservations iso_text date_ok parse_json pg_time coll cursorValue limit filters db =
     (case cast_catalog_cursor date_ok parse_json pg_time cursorValue of
        Inl e \<Rightarrow> Inl e
      | Inr cursor \<Rightarrow>
         (let (rows, next_cursor) =
            keyset_page iso_text coll observation_key cursor limit (filter (observation_matches filters) (joined_observations db))
          in Inr (map projectObservation rows, next_cursor)))"

definition getObservationBacklog :: "catalog \<Rightarrow> nat \<times> instant option" where
  "getObservationBacklog db =
     (length (pending db),
      if pending db = [] then None else Some (iso (Min (set (map ob_created_at (pending db))))))"

subsection \<open>The overview\<close>

text \<open>A unit of a source is what a run was split into; it has an observation when one of its extractions has. \<open>grp\<close> is the column
  the statement groups by besides the unit.\<close>

definition unit_key :: "extraction_row \<Rightarrow> string \<times> string" where
  "unit_key x = (ex_source_run_id x, ex_source_unit_id x)"

definition unit_outcomes :: "(extraction_row \<Rightarrow> 'g) \<Rightarrow> joined_row list \<Rightarrow> (('g \<times> string \<times> string) \<times> bool) list" where
  "unit_outcomes grp rows =
     map (\<lambda>k. (k, list_ex (\<lambda>row. (grp (fst row), unit_key (fst row)) = k \<and> snd row \<noteq> None) rows))
       (remdups (map (\<lambda>row. (grp (fst row), unit_key (fst row))) rows))"

record overview_totals =
  ot_completed_extraction_count :: nat
  ot_extracted_unit_count :: nat
  ot_units_with_observation_count :: nat
  ot_units_without_observation_count :: nat
  ot_observation_count :: nat
  ot_pending_observation_count :: nat
  ot_consumed_observation_count :: nat

definition overview_totals_of :: "catalog \<Rightarrow> overview_totals" where
  "overview_totals_of db =
     (let units = unit_outcomes (\<lambda>x. ()) (joined_extractions db) in
      \<lparr>ot_completed_extraction_count = length (extractions db), ot_extracted_unit_count = length units,
       ot_units_with_observation_count = length (filter snd units),
       ot_units_without_observation_count = length (filter (\<lambda>u. \<not> snd u) units),
       ot_observation_count = length (observations db), ot_pending_observation_count = length (pending db),
       ot_consumed_observation_count = length (filter (\<lambda>o'. ob_consumed_revision o' \<noteq> None) (observations db))\<rparr>)"

record workflow_units =
  wu_source_workflow :: string
  wu_extracted_unit_count :: nat
  wu_units_with_observation_count :: nat
  wu_units_without_observation_count :: nat

definition overview_workflows :: "(string \<Rightarrow> string) \<Rightarrow> catalog \<Rightarrow> workflow_units list" where
  "overview_workflows coll db =
     (let units = unit_outcomes ex_source_workflow (joined_extractions db);
          row = (\<lambda>w. let us = filter (\<lambda>u. fst (fst u) = w) units in
            \<lparr>wu_source_workflow = w, wu_extracted_unit_count = length us, wu_units_with_observation_count = length (filter snd us),
             wu_units_without_observation_count = length (filter (\<lambda>u. \<not> snd u) us)\<rparr>)
      in sort_key (\<lambda>r. (- int (wu_extracted_unit_count r), coll (wu_source_workflow r), wu_source_workflow r))
           (map row (remdups (map (\<lambda>u. fst (fst u)) units))))"

record trend_point =
  tp_period :: int
  tp_extracted_unit_count :: nat
  tp_units_with_observation_count :: nat

definition trend_points :: "(instant \<Rightarrow> int) \<Rightarrow> int \<Rightarrow> int \<Rightarrow> joined_row list \<Rightarrow> trend_point list" where
  "trend_points period_of first_period last_period rows =
     (let units = unit_outcomes (\<lambda>x. period_of (ex_created_at x)) rows in
      map (\<lambda>p. let us = filter (\<lambda>u. fst (fst u) = p) units in
        \<lparr>tp_period = p, tp_extracted_unit_count = length us, tp_units_with_observation_count = length (filter snd us)\<rparr>)
      [first_period..last_period])"

datatype overview_range = Last30Days | Last90Days | AllTime

datatype granularity = ByMonth | ByDay

definition day_of :: "instant \<Rightarrow> int" where
  "day_of t = t div (24 * 60 * 60 * 1000000)"

definition overview_trend :: "(instant \<Rightarrow> int) \<Rightarrow> instant \<Rightarrow> overview_range \<Rightarrow> catalog \<Rightarrow> trend_point list" where
  "overview_trend month_of now rng db =
     (let rows = joined_extractions db;
          bounded = (\<lambda>days. trend_points day_of (day_of now - days) (day_of now)
            (filter (\<lambda>row. (day_of now - days) * (24 * 60 * 60 * 1000000) \<le> ex_created_at (fst row)) rows))
      in case rng of
           Last30Days \<Rightarrow> bounded 29
         | Last90Days \<Rightarrow> bounded 89
         | AllTime \<Rightarrow> trend_points month_of
             (if extractions db = [] then month_of now else month_of (Min (set (map ex_created_at (extractions db))))) (month_of now) rows)"

definition getCatalogOverview ::
  "(string \<Rightarrow> string) \<Rightarrow> (instant \<Rightarrow> int) \<Rightarrow> instant \<Rightarrow> overview_range \<Rightarrow> catalog \<Rightarrow>
     overview_totals \<times> granularity \<times> trend_point list \<times> workflow_units list" where
  "getCatalogOverview coll month_of now rng db =
     (overview_totals_of db, if rng = AllTime then ByMonth else ByDay, overview_trend month_of now rng db, overview_workflows coll db)"

subsection \<open>Control, tree and revisions\<close>

definition getMaintenanceControl :: "catalog \<Rightarrow> maintenance_control" where
  "getMaintenanceControl db = project_control (control db)"

definition getMemoryTree :: "catalog \<Rightarrow> nat \<times> artifact_reference option" where
  "getMemoryTree db = (active_revision db, revision_tree db (active_revision db))"

record revision_view =
  tv_revision :: nat
  tv_predecessor_revision :: "nat option"
  tv_memory_tree_reference :: artifact_reference
  tv_source :: revision_source
  tv_created_at :: instant

definition requireValue :: "'a option \<Rightarrow> string \<Rightarrow> query_error + 'a" where
  "requireValue value field =
     (case value of None \<Rightarrow> Inl (MissingSourceField (''Memory revision is missing source field: '' @ field @ ''.'')) | Some v \<Rightarrow> Inr v)"

fun and_then :: "'e + 'a \<Rightarrow> ('a \<Rightarrow> 'e + 'b) \<Rightarrow> 'e + 'b" where
  "and_then (Inl e) f = Inl e"
| "and_then (Inr a) f = f a"

definition projectRevision :: "(string list \<Rightarrow> string list) \<Rightarrow> catalog \<Rightarrow> revision_row \<Rightarrow> query_error + revision_view" where
  "projectRevision collated db row =
     and_then
       (case rv_source_kind row of
          KindMaintenance \<Rightarrow>
            and_then (requireValue (rv_maintenance_id row) ''maintenance_id'') (\<lambda>m.
            and_then (requireValue (rv_trajectory_reference row) ''maintenance_trajectory_reference'') (\<lambda>t.
              Inr (MaintenanceSource m (collated (consumed_by db (rv_revision row))) t)))
        | KindOperator \<Rightarrow>
            and_then (requireValue (rv_operation_id row) ''operation_id'') (\<lambda>p.
            and_then (requireValue (rv_actor row) ''actor'') (\<lambda>a. Inr (OperatorSource p a))))
       (\<lambda>source. Inr \<lparr>tv_revision = rv_revision row, tv_predecessor_revision = rv_predecessor_revision row,
          tv_memory_tree_reference = rv_memory_tree_reference row, tv_source = source, tv_created_at = iso (rv_created_at row)\<rparr>)"

fun projectRevisions :: "(string list \<Rightarrow> string list) \<Rightarrow> catalog \<Rightarrow> revision_row list \<Rightarrow> query_error + revision_view list" where
  "projectRevisions collated db [] = Inr []"
| "projectRevisions collated db (r # rs) =
     and_then (projectRevision collated db r) (\<lambda>v. and_then (projectRevisions collated db rs) (\<lambda>vs. Inr (v # vs)))"

definition getMemoryTreeRevision :: "(string list \<Rightarrow> string list) \<Rightarrow> nat \<Rightarrow> catalog \<Rightarrow> query_error + revision_view option" where
  "getMemoryTreeRevision collated n db =
     (case List.find (\<lambda>r. rv_revision r = n) (tree_revisions db) of
        None \<Rightarrow> Inr None
      | Some row \<Rightarrow> and_then (projectRevision collated db row) (\<lambda>v. Inr (Some v)))"

definition listMemoryTreeRevisions ::
  "(string list \<Rightarrow> string list) \<Rightarrow> nat option \<Rightarrow> nat \<Rightarrow> catalog \<Rightarrow> query_error + revision_view list \<times> nat option" where
  "listMemoryTreeRevisions collated beforeRevision limit db =
     (let result = take (limit + 1) (rev (sort_key rv_revision
            (filter (\<lambda>r. case beforeRevision of None \<Rightarrow> True | Some b \<Rightarrow> rv_revision r < b) (tree_revisions db))));
          rows = take limit result
      in and_then (projectRevisions collated db rows) (\<lambda>vs.
           Inr (vs, if limit < length result \<and> rows \<noteq> [] then Some (rv_revision (last rows)) else None)))"

subsection \<open>Reading every page\<close>

text \<open>A reader that follows the cursors, for at most \<open>fuel\<close> pages; \<open>None\<close> when pages are left.\<close>

fun follow_pages :: "('c option \<Rightarrow> 'e + 'v list \<times> 'c option) \<Rightarrow> nat \<Rightarrow> 'c option \<Rightarrow> ('e + 'v list) option" where
  "follow_pages fetch 0 cursor = None"
| "follow_pages fetch (Suc fuel) cursor =
     (case fetch cursor of
        Inl e \<Rightarrow> Some (Inl e)
      | Inr (page, None) \<Rightarrow> Some (Inr page)
      | Inr (page, Some c) \<Rightarrow> map_option (map_sum id (\<lambda>rest. page @ rest)) (follow_pages fetch fuel (Some c)))"

end
