(* ===== verification/CatalogReads.thy ===== *)
theory CatalogReads
  imports CatalogQueries
begin

text \<open>
  What the pages of the memory catalog's listings enumerate. The revisions are enumerated completely. The extractions and the
  observations are ordered by a timestamp of microseconds, while their cursor carries whole milliseconds: the listing is complete
  when no timestamp has a fraction of a millisecond, and otherwise loses rows at the end of a page.
\<close>

subsection \<open>Cursor texts\<close>

text \<open>Texts \<^verbatim>\<open>JSON.stringify\<close> writes as they are.\<close>

definition json_plain :: "string \<Rightarrow> bool" where
  "json_plain s = list_all (\<lambda>x. let n = of_char x :: nat in 32 \<le> n \<and> n < 128 \<and> n \<noteq> 34 \<and> n \<noteq> 92) s"

lemma json_quote_plain: "json_plain s \<Longrightarrow> json_quote s = CHR 0x22 # s @ [CHR 0x22]"
proof -
  assume "json_plain s"
  then have "concat (map json_char s) = s" by (induction s) (auto simp: json_plain_def json_char_def Let_def)
  then show ?thesis by (simp add: json_quote_def)
qed

lemma json_plain_ascii: "json_plain s \<Longrightarrow> ascii s"
  by (auto simp: json_plain_def ascii_def list_all_iff Let_def)

lemma cursor_json_plain:
  assumes "json_plain (cc_created_at c)" "json_plain (cc_extraction_id c)"
  shows "cursor_json c = ''{'' @ [CHR 0x22] @ ''createdAt'' @ [CHR 0x22] @ '':'' @ [CHR 0x22] @ cc_created_at c @ [CHR 0x22] @ '','' @ [CHR 0x22] @
     ''extractionId'' @ [CHR 0x22] @ '':'' @ [CHR 0x22] @ cc_extraction_id c @ [CHR 0x22] @ ''}''" "ascii (cursor_json c)"
proof -
  have "json_plain ''createdAt''" "json_plain ''extractionId''" by code_simp+
  then show eq: "cursor_json c = ''{'' @ [CHR 0x22] @ ''createdAt'' @ [CHR 0x22] @ '':'' @ [CHR 0x22] @ cc_created_at c @ [CHR 0x22] @ '','' @ [CHR 0x22] @
     ''extractionId'' @ [CHR 0x22] @ '':'' @ [CHR 0x22] @ cc_extraction_id c @ [CHR 0x22] @ ''}''"
    by (simp add: cursor_json_def json_quote_plain assms)
  show "ascii (cursor_json c)" using assms [THEN json_plain_ascii] unfolding eq by (simp add: ascii_def)
qed

text \<open>What the cursors rely on of the runtime at the position \<open>p\<close>: the text of the time is accepted and cast back, and \<^verbatim>\<open>JSON.parse\<close>
  inverts \<^verbatim>\<open>JSON.stringify\<close>.\<close>

definition readable_position ::
  "(instant \<Rightarrow> string) \<Rightarrow> (string \<Rightarrow> bool) \<Rightarrow> (string \<Rightarrow> string + json) \<Rightarrow> (string \<Rightarrow> instant option) \<Rightarrow> instant \<times> string \<Rightarrow> bool" where
  "readable_position iso_text date_ok parse_json pg_time p \<longleftrightarrow>
     (let c = page_position iso_text p in
      json_plain (cc_created_at c) \<and> date_ok (cc_created_at c) \<and> pg_time (cc_created_at c) = Some (iso (fst p)) \<and>
      json_plain (snd p) \<and> snd p \<noteq> [] \<and>
      parse_json (cursor_json c) = Inr (JObj [(''createdAt'', JStr (cc_created_at c)), (''extractionId'', JStr (snd p))]))"

lemma cast_position:
  assumes "readable_position iso_text date_ok parse_json pg_time p"
  shows "cast_catalog_cursor date_ok parse_json pg_time (Some (encodeCursor (page_position iso_text p))) = Inr (Some (iso (fst p), snd p))"
proof -
  have "cc_extraction_id (page_position iso_text p) = snd p" by (simp add: page_position_def)
  moreover have "utf8_text (from_base64url (encodeCursor (page_position iso_text p))) = cursor_json (page_position iso_text p)"
    using assms cursor_json_plain(2) [of "page_position iso_text p"] calculation
    by (simp add: encodeCursor_def utf8_text_ascii readable_position_def Let_def)
  ultimately show ?thesis
    using assms by (simp add: cast_catalog_cursor_def decodeCursor_def readable_position_def Let_def)
qed

subsection \<open>Keyset pages\<close>

lemma iso_le: "iso t \<le> t"
  by (simp add: iso_def)

lemma page_key_iso: "page_key coll (iso t, k) \<le> page_key coll (t, k)"
  using iso_le [of t] by (auto simp: page_key_def)

text \<open>The rows of a listing, newest first, and what of them is below a position.\<close>

definition newest_first :: "(string \<Rightarrow> string) \<Rightarrow> ('r \<Rightarrow> instant \<times> string) \<Rightarrow> 'r list \<Rightarrow> 'r list" where
  "newest_first coll key rows = rev (sort_key (\<lambda>r. page_key coll (key r)) rows)"

definition left_rows :: "(string \<Rightarrow> string) \<Rightarrow> ('r \<Rightarrow> instant \<times> string) \<Rightarrow> (instant \<times> string) option \<Rightarrow> 'r list \<Rightarrow> 'r list" where
  "left_rows coll key cursor rows = filter (below_key (\<lambda>r. page_key coll (key r)) (map_option (page_key coll) cursor)) (newest_first coll key rows)"

lemma page_rows_left: "page_rows coll key cursor n rows = take n (left_rows coll key cursor rows)"
proof -
  have "(\<lambda>r. case cursor of None \<Rightarrow> True | Some b \<Rightarrow> page_key coll (key r) < page_key coll b) =
      below_key (\<lambda>r. page_key coll (key r)) (map_option (page_key coll) cursor)"
    by (auto simp: below_key_def fun_eq_iff split: option.split)
  then show ?thesis
    using filter_newest_first [of _ "\<lambda>r. page_key coll (key r)" "\<lambda>_. True" rows]
    by (simp add: page_rows_def left_rows_def newest_first_def)
qed

lemma newest_first_sorted:
  assumes "distinct (map (snd \<circ> key) rows)"
  shows "sorted_wrt (\<lambda>x y. page_key coll (key y) < page_key coll (key x)) (newest_first coll key rows)"
  unfolding newest_first_def
proof (rule newest_first_descending)
  have "inj_on (\<lambda>r. page_key coll (key r)) (set rows)"
    using assms by (auto simp: distinct_map inj_on_def page_key_def)
  then show "distinct (map (\<lambda>r. page_key coll (key r)) rows)" using assms by (simp add: distinct_map)
qed

lemma left_rows_after:
  assumes "distinct (map (snd \<circ> key) rows)" "0 < n" "n < length (left_rows coll key cur rows)"
  shows "left_rows coll key (Some (key (last (take n (left_rows coll key cur rows))))) rows = drop n (left_rows coll key cur rows)"
  using filter_below_last [OF newest_first_sorted [OF assms(1)] assms(2), of coll "map_option (page_key coll) cur"] assms(3)
  by (simp add: left_rows_def)

lemma left_rows_mono:
  assumes "page_key coll b \<le> page_key coll b'"
  shows "left_rows coll key (Some b) rows = filter (below_key (\<lambda>r. page_key coll (key r)) (Some (page_key coll b))) (left_rows coll key (Some b') rows)"
  unfolding left_rows_def filter_filter
  by (rule filter_cong) (use assms in \<open>auto simp: below_key_def\<close>)

text \<open>A listing: \<open>fetch\<close> casts the cursor and answers a page of \<open>selected\<close>.\<close>

definition listing_of ::
  "(string option \<Rightarrow> query_error + (instant \<times> string) option) \<Rightarrow> (instant \<Rightarrow> string) \<Rightarrow> (string \<Rightarrow> string) \<Rightarrow> ('r \<Rightarrow> instant \<times> string) \<Rightarrow>
     nat \<Rightarrow> ('r \<Rightarrow> 'v) \<Rightarrow> 'r list \<Rightarrow> (string option \<Rightarrow> query_error + 'v list \<times> string option) \<Rightarrow> bool" where
  "listing_of cast iso_text coll key limit project selected fetch \<longleftrightarrow>
     cast None = Inr None \<and>
     (\<forall>r \<in> set selected. cast (Some (encodeCursor (page_position iso_text (key r)))) = Inr (Some (iso (fst (key r)), snd (key r)))) \<and>
     (\<forall>c cur. cast c = Inr cur \<longrightarrow>
        fetch c = Inr (map project (fst (keyset_page iso_text coll key cur limit selected)), snd (keyset_page iso_text coll key cur limit selected)))"

lemma left_rows_set: "set (left_rows coll key cur rows) \<subseteq> set rows"
  by (auto simp: left_rows_def newest_first_def)

text \<open>One page: the first rows that are left, and the position after them when there are more.\<close>

lemma listing_page:
  assumes "listing_of cast iso_text coll key limit project selected fetch" "0 < limit" "cast c = Inr cur"
  shows "length (left_rows coll key cur selected) \<le> limit \<Longrightarrow> fetch c = Inr (map project (left_rows coll key cur selected), None)"
    "limit < length (left_rows coll key cur selected) \<Longrightarrow>
       \<exists>d z. fetch c = Inr (map project (take limit (left_rows coll key cur selected)), Some d) \<and>
         z = last (take limit (left_rows coll key cur selected)) \<and> z \<in> set (left_rows coll key cur selected) \<and>
         cast (Some d) = Inr (Some (iso (fst (key z)), snd (key z)))"
proof -
  let ?left = "left_rows coll key cur selected"
  have fetch: "fetch c = Inr (map project (take limit ?left),
      if limit < length ?left \<and> take limit ?left \<noteq> [] then Some (encodeCursor (page_position iso_text (key (last (take limit ?left))))) else None)"
    using assms(1,3) by (simp add: listing_of_def keyset_page_def page_rows_left Let_def min_def)
  then show "length ?left \<le> limit \<Longrightarrow> fetch c = Inr (map project ?left, None)" by simp
  assume more: "limit < length ?left"
  then have "take limit ?left \<noteq> []" using assms(2) by auto
  then have z: "last (take limit ?left) \<in> set ?left" by (meson in_set_takeD last_in_set)
  then have "last (take limit ?left) \<in> set selected" using left_rows_set by fast
  then have "cast (Some (encodeCursor (page_position iso_text (key (last (take limit ?left)))))) =
      Inr (Some (iso (fst (key (last (take limit ?left)))), snd (key (last (take limit ?left)))))"
    using assms(1) by (simp add: listing_of_def)
  then show "\<exists>d z. fetch c = Inr (map project (take limit ?left), Some d) \<and> z = last (take limit ?left) \<and> z \<in> set ?left \<and>
      cast (Some d) = Inr (Some (iso (fst (key z)), snd (key z)))"
    using fetch more \<open>take limit ?left \<noteq> []\<close> z by auto
qed

text \<open>With whole milliseconds the pages are the rows left, in order.\<close>

lemma follow_whole:
  assumes listing: "listing_of cast iso_text coll key limit project selected fetch" and limit: "0 < limit"
    and ids: "distinct (map (snd \<circ> key) selected)" and whole: "\<forall>r \<in> set selected. iso (fst (key r)) = fst (key r)"
    and cursor: "cast c = Inr cur" and fuel: "length (left_rows coll key cur selected) < fuel"
  shows "follow_pages fetch fuel c = Some (Inr (map project (left_rows coll key cur selected)))"
  using cursor fuel
proof (induction fuel arbitrary: c cur)
  case (Suc fuel)
  let ?left = "left_rows coll key cur selected"
  show ?case
  proof (cases "limit < length ?left")
    case False
    then show ?thesis using listing_page(1) [OF listing limit Suc.prems(1)] by simp
  next
    case True
    then obtain d z where page: "fetch c = Inr (map project (take limit ?left), Some d)" and z: "z = last (take limit ?left)" "z \<in> set ?left"
      and cast: "cast (Some d) = Inr (Some (iso (fst (key z)), snd (key z)))"
      using listing_page(2) [OF listing limit Suc.prems(1)] by blast
    have "z \<in> set selected" using z(2) left_rows_set by fast
    then have "cast (Some d) = Inr (Some (key z))" using cast whole by simp
    moreover have rest: "left_rows coll key (Some (key z)) selected = drop limit ?left"
      using left_rows_after [OF ids limit True] z(1) by simp
    ultimately have "follow_pages fetch fuel (Some d) = Some (Inr (map project (drop limit ?left)))"
      using Suc.IH [of "Some d" "Some (key z)"] Suc.prems(2) limit True by simp
    moreover have "map project (take limit ?left) @ map project (drop limit ?left) = map project ?left"
      by (simp flip: map_append)
    ultimately show ?thesis by (simp add: page)
  qed
qed simp

text \<open>In any case the reader ends, and reads nothing at or above the position it started from.\<close>

lemma follow_below:
  assumes listing: "listing_of cast iso_text coll key limit project selected fetch" and limit: "0 < limit"
    and ids: "distinct (map (snd \<circ> key) selected)"
    and cursor: "cast c = Inr cur" and fuel: "length (left_rows coll key cur selected) < fuel"
  shows "\<exists>rs. follow_pages fetch fuel c = Some (Inr (map project rs)) \<and> set rs \<subseteq> set (left_rows coll key cur selected)"
  using cursor fuel
proof (induction fuel arbitrary: c cur)
  case (Suc fuel)
  let ?left = "left_rows coll key cur selected"
  show ?case
  proof (cases "limit < length ?left")
    case False
    then show ?thesis using listing_page(1) [OF listing limit Suc.prems(1)] by auto
  next
    case True
    then obtain d z where page: "fetch c = Inr (map project (take limit ?left), Some d)" and z: "z = last (take limit ?left)" "z \<in> set ?left"
      and cast: "cast (Some d) = Inr (Some (iso (fst (key z)), snd (key z)))"
      using listing_page(2) [OF listing limit Suc.prems(1)] by blast
    let ?b = "(iso (fst (key z)), snd (key z))"
    have below: "left_rows coll key (Some ?b) selected =
        filter (below_key (\<lambda>r. page_key coll (key r)) (Some (page_key coll ?b))) (left_rows coll key (Some (key z)) selected)"
      using left_rows_mono page_key_iso [of coll "fst (key z)" "snd (key z)"] by (metis prod.collapse)
    have rest: "left_rows coll key (Some (key z)) selected = drop limit ?left"
      using left_rows_after [OF ids limit True] z(1) by simp
    have "length (left_rows coll key (Some ?b) selected) \<le> length ?left - limit"
      unfolding below rest using length_filter_le [of _ "drop limit ?left"] by simp
    then have "length (left_rows coll key (Some ?b) selected) < fuel" using Suc.prems(2) limit True by linarith
    then obtain rs where "follow_pages fetch fuel (Some d) = Some (Inr (map project rs))" "set rs \<subseteq> set (left_rows coll key (Some ?b) selected)"
      using Suc.IH [OF cast] by blast
    then show ?thesis
      using page unfolding below rest
      by (intro exI [of _ "take limit ?left @ rs"]) (auto dest: in_set_takeD in_set_dropD)
  qed
qed simp

text \<open>A row after the first page, in the millisecond of its last row, is read by no page.\<close>

lemma follow_skips:
  assumes listing: "listing_of cast iso_text coll key limit project selected fetch" and limit: "0 < limit"
    and ids: "distinct (map (snd \<circ> key) selected)" and more: "limit < length selected" and fuel: "length selected < fuel"
    and z: "z = newest_first coll key selected ! (limit - 1)" and y: "y = newest_first coll key selected ! limit"
    and same: "iso (fst (key z)) < fst (key y)"
  shows "\<exists>rs. follow_pages fetch fuel None = Some (Inr (map project rs)) \<and> set rs \<subseteq> set selected \<and> y \<notin> set rs"
proof -
  let ?all = "newest_first coll key selected"
  have all: "left_rows coll key None selected = ?all" by (simp add: left_rows_def below_key_def)
  have len: "length ?all = length selected" and set: "set ?all = set selected" by (simp_all add: newest_first_def)
  have cast: "cast None = Inr None" using listing by (simp add: listing_of_def)
  obtain n where n: "fuel = Suc n" "length selected \<le> n" using fuel by (cases fuel) auto
  have last: "last (take limit ?all) = z"
    using z more len limit last_conv_nth [of "take limit ?all"] by (cases "take limit ?all = []") auto
  obtain d where page: "fetch None = Inr (map project (take limit ?all), Some d)"
    and next_cursor: "cast (Some d) = Inr (Some (iso (fst (key z)), snd (key z)))"
    using listing_page(2) [OF listing limit cast, unfolded all len, OF more, unfolded last] by blast
  let ?left = "left_rows coll key (Some (iso (fst (key z)), snd (key z))) selected"
  have y_all: "y \<in> set ?all" using y more len by simp
  have above: "\<not> below_key (\<lambda>r. page_key coll (key r)) (Some (page_key coll (iso (fst (key z)), snd (key z)))) y"
    using same by (simp add: below_key_def page_key_def)
  then have left: "y \<notin> set ?left" "length ?left < n"
    using length_filter_less [where P = "below_key (\<lambda>r. page_key coll (key r)) (Some (page_key coll (iso (fst (key z)), snd (key z))))", OF y_all] n(2) len
    by (simp_all add: left_rows_def)
  then obtain rs where rs: "follow_pages fetch n (Some d) = Some (Inr (map project rs))" "set rs \<subseteq> set ?left"
    using follow_below [OF listing limit ids next_cursor left(2)] by blast
  have "distinct ?all" using ids by (simp add: newest_first_def distinct_map)
  then have "y \<notin> set (take limit ?all)"
    using y more len by (auto simp: in_set_conv_nth nth_eq_iff_index_eq)
  moreover have "set ?left \<subseteq> set selected" by (rule left_rows_set)
  ultimately show ?thesis
    using rs left(1) set n(1) page
    by (intro exI [of _ "take limit ?all @ rs"]) (auto dest: in_set_takeD)
qed

subsection \<open>Extractions\<close>

definition matching_extractions :: "extraction_filters \<Rightarrow> catalog \<Rightarrow> joined_row list" where
  "matching_extractions filters db = filter (extraction_matches filters) (joined_extractions db)"

definition readable_extractions ::
  "(instant \<Rightarrow> string) \<Rightarrow> (string \<Rightarrow> bool) \<Rightarrow> (string \<Rightarrow> string + json) \<Rightarrow> (string \<Rightarrow> instant option) \<Rightarrow> catalog \<Rightarrow> bool" where
  "readable_extractions iso_text date_ok parse_json pg_time db =
     list_all (\<lambda>row. readable_position iso_text date_ok parse_json pg_time (extraction_key row)) (joined_extractions db)"

lemma extractions_listing:
  assumes "readable_extractions iso_text date_ok parse_json pg_time db"
  shows "listing_of (cast_catalog_cursor date_ok parse_json pg_time) iso_text coll extraction_key limit projectExtraction (matching_extractions filters db)
     (\<lambda>c. listExtractions iso_text date_ok parse_json pg_time coll c limit filters db)"
  unfolding listing_of_def
proof (intro conjI ballI allI impI)
  show "cast_catalog_cursor date_ok parse_json pg_time None = Inr None" by (simp add: cast_catalog_cursor_def decodeCursor_def)
next
  fix r assume "r \<in> set (matching_extractions filters db)"
  then have "readable_position iso_text date_ok parse_json pg_time (extraction_key r)"
    using assms by (auto simp: matching_extractions_def readable_extractions_def list_all_iff)
  then show "cast_catalog_cursor date_ok parse_json pg_time (Some (encodeCursor (page_position iso_text (extraction_key r)))) =
      Inr (Some (iso (fst (extraction_key r)), snd (extraction_key r)))"
    by (rule cast_position)
qed (simp add: listExtractions_def matching_extractions_def split: prod.split)

lemma extraction_ids: "catalog_ok db \<Longrightarrow> distinct (map (snd \<circ> extraction_key) (matching_extractions filters db))"
  using extraction_pubD(5) [of db]
  by (auto simp: matching_extractions_def joined_extractions_def extraction_key_def distinct_map inj_on_def comp_def)

lemma matching_length: "length (matching_extractions filters db) \<le> length (extractions db)"
  unfolding matching_extractions_def using length_filter_le [of _ "joined_extractions db"] by (simp add: joined_extractions_def)

text \<open>Where every extraction was stored at a whole millisecond, following the cursors of the extraction list reads every matching
  extraction exactly once, newest first, in boundedly many requests.\<close>

theorem extraction_pages:
  assumes "catalog_step\<^sup>*\<^sup>* (initial_catalog start) db" "readable_extractions iso_text date_ok parse_json pg_time db" "0 < limit"
    "\<forall>x \<in> set (extractions db). iso (ex_created_at x) = ex_created_at x" "length (extractions db) < fuel"
  shows "follow_pages (\<lambda>c. listExtractions iso_text date_ok parse_json pg_time coll c limit filters db) fuel None =
     Some (Inr (map projectExtraction (newest_first coll extraction_key (matching_extractions filters db))))"
proof -
  have ok: "catalog_ok db" by (rule memory.inv_reached [OF assms(1)])
  have all: "left_rows coll extraction_key None (matching_extractions filters db) = newest_first coll extraction_key (matching_extractions filters db)"
    by (simp add: left_rows_def below_key_def)
  have whole: "\<forall>r \<in> set (matching_extractions filters db). iso (fst (extraction_key r)) = fst (extraction_key r)"
    using assms(4) by (auto simp: matching_extractions_def joined_extractions_def extraction_key_def)
  have "length (newest_first coll extraction_key (matching_extractions filters db)) < fuel"
    using matching_length [of filters db] assms(5) by (simp add: newest_first_def)
  then show ?thesis
    using follow_whole [OF extractions_listing [OF assms(2)] assms(3) extraction_ids [OF ok] whole, of None None] all
    by (simp add: cast_catalog_cursor_def decodeCursor_def)
qed

text \<open>C40. Where the first extraction after the first page was stored in the same millisecond as the last of the page, and not at the very start
  of it, following the cursors never reads it, although the reader comes to an end.\<close>

theorem same_millisecond_skipped:
  assumes "catalog_step\<^sup>*\<^sup>* (initial_catalog start) db" "readable_extractions iso_text date_ok parse_json pg_time db" "0 < limit"
    "limit < length (matching_extractions filters db)" "length (extractions db) < fuel"
    "(x, a) = newest_first coll extraction_key (matching_extractions filters db) ! (limit - 1)"
    "(y, b) = newest_first coll extraction_key (matching_extractions filters db) ! limit" "iso (ex_created_at x) < ex_created_at y"
  shows "\<exists>pages. follow_pages (\<lambda>c. listExtractions iso_text date_ok parse_json pg_time coll c limit filters db) fuel None = Some (Inr pages) \<and>
     y \<in> set (extractions db) \<and> ex_extraction_id y \<notin> set (map er_extraction_id pages)"
proof -
  have ok: "catalog_ok db" by (rule memory.inv_reached [OF assms(1)])
  have fuel: "length (matching_extractions filters db) < fuel" using matching_length [of filters db] assms(5) by simp
  have less: "iso (fst (extraction_key (x, a))) < fst (extraction_key (y, b))" using assms(8) by (simp add: extraction_key_def)
  obtain rs where rs: "follow_pages (\<lambda>c. listExtractions iso_text date_ok parse_json pg_time coll c limit filters db) fuel None =
        Some (Inr (map projectExtraction rs))" "set rs \<subseteq> set (matching_extractions filters db)" "(y, b) \<notin> set rs"
    using follow_skips [OF extractions_listing [OF assms(2)] assms(3) extraction_ids [OF ok] assms(4) fuel assms(6,7) less] by blast
  have "(y, b) \<in> set (newest_first coll extraction_key (matching_extractions filters db))"
    using assms(4,7) by (metis length_rev length_sort newest_first_def nth_mem)
  then have y: "(y, b) \<in> set (matching_extractions filters db)" by (simp add: newest_first_def)
  have "ex_extraction_id y \<noteq> ex_extraction_id (fst r)" if r: "r \<in> set rs" for r
  proof
    assume "ex_extraction_id y = ex_extraction_id (fst r)"
    then have "(snd \<circ> extraction_key) r = (snd \<circ> extraction_key) (y, b)" by (simp add: extraction_key_def)
    moreover have "inj_on (snd \<circ> extraction_key) (set (matching_extractions filters db))"
      using extraction_ids [OF ok, of filters] unfolding distinct_map by blast
    ultimately have "r = (y, b)" using y rs(2) r by (meson inj_onD subsetD)
    then show False using rs(3) r by simp
  qed
  then have "ex_extraction_id y \<notin> set (map er_extraction_id (map projectExtraction rs))"
    by (auto simp: projectExtraction_def Let_def)
  moreover have "y \<in> set (extractions db)" using y by (auto simp: matching_extractions_def joined_extractions_def)
  ultimately show ?thesis using rs(1) by blast
qed

subsection \<open>Revisions\<close>

lemma projectRevision_total:
  assumes "catalog_ok db" "v \<in> set (tree_revisions db)"
  shows "\<exists>w. projectRevision collated db v = Inr w \<and> tv_revision w = rv_revision v"
proof -
  obtain r :: revision_publication_row where "revision_recorded db (rp_intent r) v" using revisionD(2) [OF assms] by blast
  then obtain now n input where "v = new_revision now n input" unfolding revision_recorded_def by blast
  then show ?thesis
    by (cases "rc_source input") (simp_all add: projectRevision_def new_revision_def requireValue_def)
qed

lemma projectRevisions_append:
  "projectRevisions collated db (xs @ ys) =
     and_then (projectRevisions collated db xs) (\<lambda>vs. and_then (projectRevisions collated db ys) (\<lambda>ws. Inr (vs @ ws)))"
proof (induction xs)
  case Nil
  then show ?case by (cases "projectRevisions collated db ys") simp_all
next
  case (Cons x xs)
  then show ?case
    by (cases "projectRevision collated db x"; cases "projectRevisions collated db xs"; cases "projectRevisions collated db ys") simp_all
qed

lemma projectRevisions_total:
  assumes "catalog_ok db" "set vs \<subseteq> set (tree_revisions db)"
  shows "\<exists>ws. projectRevisions collated db vs = Inr ws \<and> map tv_revision ws = map rv_revision vs"
  using assms(2)
proof (induction vs)
  case (Cons v vs)
  then obtain w ws where "projectRevision collated db v = Inr w" "tv_revision w = rv_revision v"
    "projectRevisions collated db vs = Inr ws" "map tv_revision ws = map rv_revision vs"
    using projectRevision_total [OF assms(1), of v collated] by auto
  then show ?case by simp
qed simp

definition older :: "nat option \<Rightarrow> catalog \<Rightarrow> revision_row list" where
  "older before_revision db = filter (below_key rv_revision before_revision) (rev (tree_revisions db))"

lemma revisions_descending:
  assumes "catalog_ok db" shows "sorted_wrt (\<lambda>x y. rv_revision y < rv_revision x) (rev (tree_revisions db))" "sort_key rv_revision (tree_revisions db) = tree_revisions db"
proof -
  have nums: "map rv_revision (tree_revisions db) = [1..<Suc (length (tree_revisions db))]"
    using catalog_okD(2) [OF assms] unfolding revisions_ok_def by blast
  then have sorted: "sorted_wrt (<) (map rv_revision (tree_revisions db))" by (simp del: upt_Suc)
  then show "sorted_wrt (\<lambda>x y. rv_revision y < rv_revision x) (rev (tree_revisions db))" by (simp add: sorted_wrt_rev sorted_wrt_map)
  show "sort_key rv_revision (tree_revisions db) = tree_revisions db"
    using sorted by (intro sort_key_id_if_sorted) (simp add: strict_sorted_iff)
qed

lemma listRevisions_older:
  assumes "catalog_ok db"
  shows "listMemoryTreeRevisions collated b limit db =
     and_then (projectRevisions collated db (take limit (older b db))) (\<lambda>vs.
       Inr (vs, if limit < length (older b db) \<and> take limit (older b db) \<noteq> [] then Some (rv_revision (last (take limit (older b db)))) else None))"
proof -
  have eq: "(\<lambda>r. case b of None \<Rightarrow> True | Some b \<Rightarrow> rv_revision r < b) = below_key rv_revision b"
    by (auto simp: below_key_def fun_eq_iff)
  have "rev (sort_key rv_revision (filter (\<lambda>r. case b of None \<Rightarrow> True | Some b \<Rightarrow> rv_revision r < b) (tree_revisions db))) = older b db"
    unfolding eq older_def
    using filter_newest_first [of "below_key rv_revision b" rv_revision "\<lambda>_. True" "tree_revisions db"] revisions_descending(2) [OF assms] by simp
  then show ?thesis by (simp add: listMemoryTreeRevisions_def Let_def min_def)
qed

lemma follow_revisions:
  assumes ok: "catalog_ok db" and limit: "0 < limit" and fuel: "length (older b db) < fuel"
  shows "follow_pages (\<lambda>c. listMemoryTreeRevisions collated c limit db) fuel b = Some (projectRevisions collated db (older b db))"
  using fuel
proof (induction fuel arbitrary: b)
  case (Suc fuel)
  let ?old = "older b db"
  have sub: "set ?old \<subseteq> set (tree_revisions db)" by (auto simp: older_def)
  then have "set (take limit ?old) \<subseteq> set (tree_revisions db)" "set (drop limit ?old) \<subseteq> set (tree_revisions db)"
    by (auto dest: in_set_takeD in_set_dropD)
  then obtain ws vs where ws: "projectRevisions collated db (take limit ?old) = Inr ws" and vs: "projectRevisions collated db (drop limit ?old) = Inr vs"
    using projectRevisions_total [OF ok] by blast
  show ?case
  proof (cases "limit < length ?old")
    case False
    then show ?thesis using ws by (simp add: listRevisions_older [OF ok])
  next
    case True
    then have page: "take limit ?old \<noteq> []" using limit by auto
    have "older (Some (rv_revision (last (take limit ?old)))) db = drop limit ?old"
      unfolding older_def using filter_below_last [OF revisions_descending(1) [OF ok] limit] True by (simp add: older_def)
    moreover have "length (drop limit ?old) < fuel" using Suc.prems limit True by simp
    ultimately have "follow_pages (\<lambda>c. listMemoryTreeRevisions collated c limit db) fuel (Some (rv_revision (last (take limit ?old)))) =
        Some (projectRevisions collated db (drop limit ?old))"
      using Suc.IH by metis
    then show ?thesis
      using projectRevisions_append [of collated db "take limit ?old" "drop limit ?old"] ws vs True page
      by (simp add: listRevisions_older [OF ok])
  qed
qed simp

text \<open>Following \<^verbatim>\<open>next_before_revision\<close> reads every revision of the catalog exactly once, newest first, whatever the size of a page, and
  none of them is refused for a missing source.\<close>

theorem revision_pages:
  assumes "catalog_step\<^sup>*\<^sup>* (initial_catalog start) db" "0 < limit" "length (tree_revisions db) < fuel"
  shows "\<exists>pages. follow_pages (\<lambda>c. listMemoryTreeRevisions collated c limit db) fuel None = Some (Inr pages) \<and>
     map tv_revision pages = rev [1..<Suc (length (tree_revisions db))]"
proof -
  have ok: "catalog_ok db" by (rule memory.inv_reached [OF assms(1)])
  have old: "older None db = rev (tree_revisions db)" by (simp add: older_def below_key_def)
  moreover obtain ws where "projectRevisions collated db (older None db) = Inr ws" "map tv_revision ws = map rv_revision (older None db)"
    using projectRevisions_total [OF ok, of "older None db"] unfolding old by auto
  moreover have "map rv_revision (tree_revisions db) = [1..<Suc (length (tree_revisions db))]"
    using catalog_okD(2) [OF ok] unfolding revisions_ok_def by blast
  ultimately show ?thesis
    using follow_revisions [OF ok assms(2), of None fuel collated] assms(3) by (simp add: rev_map [symmetric])
qed

subsection \<open>A concrete listing\<close>

text \<open>A parser of objects of two plain texts, and timestamps as unary milliseconds.\<close>

definition plain_json :: "string \<Rightarrow> string + json" where
  "plain_json text =
     (case split_on (CHR 0x22) text of
        [a, k, b, v, c, k', d, v', e] \<Rightarrow> Inr (JObj [(k, JStr v), (k', JStr v')])
      | _ \<Rightarrow> Inl ''Unexpected token'')"

definition milli_text :: "instant \<Rightarrow> string" where
  "milli_text t = unary_text (t div 1000)"

definition milli_time :: "string \<Rightarrow> instant option" where
  "milli_time s = map_option ((*) 1000) (unary_time s)"

definition no_filter :: extraction_filters where
  "no_filter = \<lparr>ef_source_workflow = None, ef_source_run_id = None, ef_has_observation = None\<rparr>"

definition demo_listed :: "instant \<Rightarrow> instant \<Rightarrow> catalog" where
  "demo_listed t u = demo_extracted u ''B'' (demo_extracted t ''a'' (initial_catalog 0))"

lemma demo_listed_reached: "catalog_step\<^sup>*\<^sup>* (initial_catalog 0) (demo_listed t u)"
  unfolding demo_listed_def by (intro demo_extracted_reached rtranclp.rtrancl_refl)

theorem extraction_pages_witness:
  "follow_pages (\<lambda>c. listExtractions milli_text (\<lambda>s. s \<noteq> []) plain_json milli_time id c 1 no_filter (demo_listed 1000 2000)) 3 None =
     Some (Inr (map projectExtraction (newest_first id extraction_key (matching_extractions no_filter (demo_listed 1000 2000)))))"
proof (rule extraction_pages [OF demo_listed_reached])
  show "readable_extractions milli_text (\<lambda>s. s \<noteq> []) plain_json milli_time (demo_listed 1000 2000)" by code_simp
  show "\<forall>x \<in> set (extractions (demo_listed 1000 2000)). iso (ex_created_at x) = ex_created_at x" by code_simp
  show "length (extractions (demo_listed 1000 2000)) < 3" by code_simp
qed simp

theorem same_millisecond_skipped_witness:
  "\<exists>pages. follow_pages (\<lambda>c. listExtractions milli_text (\<lambda>s. s \<noteq> []) plain_json milli_time id c 1 no_filter (demo_listed 1100 1300)) 3 None =
       Some (Inr pages) \<and> ''a'' \<notin> set (map er_extraction_id pages)"
proof -
  let ?db = "demo_listed 1100 1300"
  let ?all = "newest_first id extraction_key (matching_extractions no_filter ?db)"
  have facts: "readable_extractions milli_text (\<lambda>s. s \<noteq> []) plain_json milli_time ?db" "length (matching_extractions no_filter ?db) = 2"
    "length (extractions ?db) = 2" "iso (ex_created_at (fst (?all ! 0))) < ex_created_at (fst (?all ! 1))" "ex_extraction_id (fst (?all ! 1)) = ''a''"
    by code_simp+
  show ?thesis
    using same_millisecond_skipped [OF demo_listed_reached facts(1), of 1 no_filter 3 "fst (?all ! 0)" "snd (?all ! 0)" id "fst (?all ! 1)" "snd (?all ! 1)"]
      facts(2-5)
    by auto
qed

theorem revision_pages_witness:
  "\<exists>pages. follow_pages (\<lambda>c. listMemoryTreeRevisions sort c 1 (snd (createMemoryTreeRevision sort 9 demo_creation demo_memory))) 2 None =
     Some (Inr pages) \<and> map tv_revision pages = [1]"
proof -
  let ?db = "snd (createMemoryTreeRevision sort 9 demo_creation demo_memory)"
  have "catalog_step\<^sup>*\<^sup>* (initial_catalog 0) ?db"
    by (rule rtranclp.rtrancl_into_rtrancl [OF demo_memory_reached]) (rule catalog_step.createMemoryTreeRevision)
  moreover have "length (tree_revisions ?db) = 1" by code_simp
  ultimately show ?thesis using revision_pages [of 0 ?db 1 2 sort] by simp
qed

end
