(* ===== verification/CatalogServer.thy ===== *)
theory CatalogServer
  imports CatalogReads
begin

text \<open>
  The HTTP surface of the memory catalog, \<^verbatim>\<open>services/memory-catalog/src/server.ts\<close>: bearer tokens, the two roles, the handler of every
  operation of the contract and the error handler. A request has passed the schema of the contract, so a number in a query is one. The roles an
  operation admits are its \<^verbatim>\<open>security\<close> clause in \<^verbatim>\<open>contracts/memory-catalog-api/v1/openapi.yaml\<close>. What a handler needs of its surroundings (the clock,
  the collation, the text functions of the queries, what a look-up outside a lock read) is in \<open>catalog_env\<close>.
\<close>

subsection \<open>Requests and replies\<close>

record revision_request =
  rq_expected_active_revision :: nat
  rq_memory_tree_reference :: artifact_reference
  rq_source :: published_source

datatype catalog_request =
    ReserveExtractionPublication extraction_publication_intent
  | ConfirmExtractionPublication extraction_publication_intent
  | ListExtractionPublications string
  | ReserveRevisionPublication revision_request
  | ConfirmRevisionPublication revision_request
  | ListRevisionPublications source_kind string
  | Health
  | RegisterExtraction extraction_registration
  | GetExtraction string
  | ListExtractions "string option" "nat option" extraction_filters
  | ListObservations "string option" "nat option" observation_filters
  | GetObservationBacklog
  | GetCatalogOverview "overview_range option"
  | GetMaintenanceControl
  | PauseMaintenance string nat
  | ResumeMaintenance string nat
  | GetMaintenanceInput nat
  | CreateMemoryTreeRevision revision_request
  | RestoreMemoryTree string nat nat
  | GetMemoryTree
  | GetMemoryTreeRevision nat
  | ListMemoryTreeRevisions "nat option" "nat option"

datatype reply_body =
    ExtractionPublicationBody "extraction_publication_intent \<times> publication_status"
  | ExtractionPublicationsBody "(extraction_publication_intent \<times> publication_status) list"
  | RevisionPublicationBody revision_publication
  | RevisionPublicationsBody "revision_publication list"
  | HealthBody
  | RegisteredBody bool
  | ExtractionBody extraction_record
  | ExtractionsBody "extraction_record list" "string option"
  | ObservationsBody "observation_record list" "string option"
  | BacklogBody nat "instant option"
  | OverviewBody "overview_totals \<times> granularity \<times> trend_point list \<times> workflow_units list"
  | ControlBody maintenance_control
  | ControlResultBody bool maintenance_control
  | MaintenanceInputBody "(nat \<times> artifact_reference option \<times> (string \<times> string) list) option"
  | RevisionResultBody bool nat source_kind string
  | RestoreResultBody bool nat string
  | MemoryTreeBody nat "artifact_reference option"
  | RevisionBody revision_view
  | RevisionsBody "revision_view list" "nat option"
  | ErrorBody string string

record catalog_reply =
  rep_status :: nat
  rep_location :: "string option"
  rep_body :: reply_body

record catalog_env =
  ce_now :: instant
  ce_collated :: "string list \<Rightarrow> string list"
  ce_coll :: "string \<Rightarrow> string"
  ce_iso_text :: "instant \<Rightarrow> string"
  ce_date_ok :: "string \<Rightarrow> bool"
  ce_parse_json :: "string \<Rightarrow> string + json"
  ce_pg_time :: "string \<Rightarrow> instant option"
  ce_month_of :: "instant \<Rightarrow> int"
  ce_seen :: catalog

subsection \<open>Roles\<close>

definition bearerTokenMatches :: "string option \<Rightarrow> string \<Rightarrow> bool" where
  "bearerTokenMatches header expected =
     (case header of
        None \<Rightarrow> False
      | Some h \<Rightarrow> take 7 h = ''Bearer '' \<and> length (drop 7 h) = length expected \<and> drop 7 h = expected)"

datatype catalog_role = WorkerRole | OperatorRole

definition operatorActor :: catalog_actor where
  "operatorActor = \<lparr>actor_kind = ServiceActor, actor_id = ''memory-catalog-operator''\<rparr>"

datatype server_error = Unauthorized | StoreError catalog_error | QueryError query_error

definition authenticate :: "string \<Rightarrow> string \<Rightarrow> string option \<Rightarrow> catalog_role list \<Rightarrow> server_error + catalog_role" where
  "authenticate workerToken operatorToken header allowedRoles =
     (let role = (if bearerTokenMatches header workerToken then Some WorkerRole
                  else if bearerTokenMatches header operatorToken then Some OperatorRole else None)
      in case role of
           None \<Rightarrow> Inl Unauthorized
         | Some r \<Rightarrow> if r \<in> set allowedRoles then Inr r else Inl Unauthorized)"

text \<open>The roles the security handlers allow: \<^verbatim>\<open>workerToken\<close>, \<^verbatim>\<open>operatorToken\<close> or, for the rest, \<^verbatim>\<open>catalogToken\<close>, as the
  \<^verbatim>\<open>security\<close> clause of each operation in the contract names them. The health route has none and is not a request here.\<close>

fun allowed_roles :: "catalog_request \<Rightarrow> catalog_role list" where
  "allowed_roles (ReserveExtractionPublication _) = [WorkerRole]"
| "allowed_roles (ConfirmExtractionPublication _) = [WorkerRole]"
| "allowed_roles (ListExtractionPublications _) = [WorkerRole]"
| "allowed_roles (RegisterExtraction _) = [WorkerRole]"
| "allowed_roles (GetMaintenanceInput _) = [WorkerRole]"
| "allowed_roles (PauseMaintenance _ _) = [OperatorRole]"
| "allowed_roles (ResumeMaintenance _ _) = [OperatorRole]"
| "allowed_roles (RestoreMemoryTree _ _ _) = [OperatorRole]"
| "allowed_roles _ = [WorkerRole, OperatorRole]"

fun role_of_kind :: "source_kind \<Rightarrow> catalog_role" where
  "role_of_kind KindMaintenance = WorkerRole"
| "role_of_kind KindOperator = OperatorRole"

fun published_kind :: "published_source \<Rightarrow> source_kind" where
  "published_kind (PublishedMaintenance m ids t) = KindMaintenance"
| "published_kind (PublishedOperator p) = KindOperator"

fun authenticated_source :: "published_source \<Rightarrow> revision_source" where
  "authenticated_source (PublishedMaintenance m ids t) = MaintenanceSource m ids t"
| "authenticated_source (PublishedOperator p) = OperatorSource p operatorActor"

definition authenticatedRevisionInput :: "catalog_role \<Rightarrow> revision_request \<Rightarrow> server_error + revision_creation" where
  "authenticatedRevisionInput role input =
     (if role \<noteq> role_of_kind (published_kind (rq_source input)) then Inl Unauthorized
      else Inr \<lparr>rc_expected_active_revision = rq_expected_active_revision input, rc_memory_tree_reference = rq_memory_tree_reference input,
             rc_source = authenticated_source (rq_source input)\<rparr>)"

subsection \<open>Errors\<close>

fun catalog_message :: "catalog_error \<Rightarrow> string" where
  "catalog_message (ExtractionConflictError m) = m"
| "catalog_message (MemoryTreeRevisionConflictError m) = m"
| "catalog_message (MaintenanceControlConflictError m) = m"
| "catalog_message (MaintenancePausedError m) = m"
| "catalog_message (DuplicateKey m) = m"
| "catalog_message NoRow = ''Cannot read properties of undefined''"

fun errorStatusCode :: "server_error \<Rightarrow> nat" where
  "errorStatusCode (StoreError (DuplicateKey m)) = 500"
| "errorStatusCode (StoreError NoRow) = 500"
| "errorStatusCode (StoreError e) = 409"
| "errorStatusCode Unauthorized = 401"
| "errorStatusCode (QueryError (InvalidCatalogCursorError m)) = 400"
| "errorStatusCode (QueryError e) = 500"

fun server_message :: "server_error \<Rightarrow> string" where
  "server_message Unauthorized = ''Unauthorized''"
| "server_message (StoreError e) = catalog_message e"
| "server_message (QueryError (InvalidCatalogCursorError m)) = m"
| "server_message (QueryError (QueryFailed m)) = m"
| "server_message (QueryError (MissingSourceField m)) = m"

fun is_paused_error :: "server_error \<Rightarrow> bool" where
  "is_paused_error (StoreError (MaintenancePausedError m)) = True"
| "is_paused_error _ = False"

definition catalogErrorReply :: "server_error \<Rightarrow> catalog_reply" where
  "catalogErrorReply error =
     (let statusCode = errorStatusCode error;
          code = (if statusCode = 400 then ''INVALID_BODY''
                  else if statusCode = 401 then ''UNAUTHORIZED''
                  else if statusCode = 409 then (if is_paused_error error then ''MAINTENANCE_PAUSED'' else ''CONFLICT'')
                  else ''INTERNAL_ERROR'')
      in \<lparr>rep_status = statusCode, rep_location = None,
          rep_body = ErrorBody (if statusCode = 500 then ''Internal server error'' else server_message error) code\<rparr>)"

subsection \<open>Handlers\<close>

definition ok_reply :: "reply_body \<Rightarrow> catalog_reply" where
  "ok_reply body = \<lparr>rep_status = 200, rep_location = None, rep_body = body\<rparr>"

definition created_reply :: "bool \<Rightarrow> string option \<Rightarrow> reply_body \<Rightarrow> catalog_reply" where
  "created_reply created location body = (if created then \<lparr>rep_status = 201, rep_location = location, rep_body = body\<rparr> else ok_reply body)"

definition not_found :: "string \<Rightarrow> catalog_reply" where
  "not_found message = \<lparr>rep_status = 404, rep_location = None, rep_body = ErrorBody message ''NOT_FOUND''\<rparr>"

text \<open>A handler that calls the store: the reply is built from its result.\<close>

definition store_reply :: "('a \<Rightarrow> catalog_reply) \<Rightarrow> (catalog_error + 'a) \<times> catalog \<Rightarrow> catalog_reply \<times> catalog" where
  "store_reply reply result =
     (case result of (Inl e, db) \<Rightarrow> (catalogErrorReply (StoreError e), db) | (Inr a, db) \<Rightarrow> (reply a, db))"

definition query_reply :: "('a \<Rightarrow> catalog_reply) \<Rightarrow> query_error + 'a \<Rightarrow> catalog_reply" where
  "query_reply reply result = (case result of Inl e \<Rightarrow> catalogErrorReply (QueryError e) | Inr a \<Rightarrow> reply a)"

definition with_revision ::
  "catalog_role \<Rightarrow> revision_request \<Rightarrow> (revision_creation \<Rightarrow> catalog_reply \<times> catalog) \<Rightarrow> catalog \<Rightarrow> catalog_reply \<times> catalog" where
  "with_revision role input handler db =
     (case authenticatedRevisionInput role input of Inl e \<Rightarrow> (catalogErrorReply e, db) | Inr creation \<Rightarrow> handler creation)"

definition control_operation :: "catalog_env \<Rightarrow> control_state \<Rightarrow> string \<Rightarrow> nat \<Rightarrow> catalog \<Rightarrow> catalog_reply \<times> catalog" where
  "control_operation env target op gen db =
     store_reply (\<lambda>(created, c). created_reply created None (ControlResultBody created c))
       (changeMaintenanceControl (ce_now env) target
          \<lparr>ci_operation_id = op, ci_expected_generation = gen, ci_actor = operatorActor\<rparr> (ce_seen env) db)"

definition page_limit :: "nat option \<Rightarrow> nat" where
  "page_limit limit = (case limit of None \<Rightarrow> 50 | Some n \<Rightarrow> n)"

fun handle_request :: "catalog_env \<Rightarrow> catalog_role \<Rightarrow> catalog_request \<Rightarrow> catalog \<Rightarrow> catalog_reply \<times> catalog" where
  "handle_request env role (ReserveExtractionPublication intent) db =
     store_reply (ok_reply \<circ> ExtractionPublicationBody) (reserveExtractionPublication (ce_now env) intent db)"
| "handle_request env role (ConfirmExtractionPublication intent) db =
     store_reply (ok_reply \<circ> ExtractionPublicationBody) (confirmExtractionPublication intent db)"
| "handle_request env role (ListExtractionPublications eid) db =
     (ok_reply (ExtractionPublicationsBody (listExtractionPublications eid db)), db)"
| "handle_request env role (ReserveRevisionPublication input) db =
     with_revision role input (\<lambda>c. store_reply (ok_reply \<circ> RevisionPublicationBody) (reserveRevisionPublication (ce_now env) c db)) db"
| "handle_request env role (ConfirmRevisionPublication input) db =
     with_revision role input (\<lambda>c. store_reply (ok_reply \<circ> RevisionPublicationBody) (confirmRevisionPublication c db)) db"
| "handle_request env role (ListRevisionPublications kind owner) db =
     (if role \<noteq> role_of_kind kind then (catalogErrorReply Unauthorized, db)
      else (ok_reply (RevisionPublicationsBody (listRevisionPublications kind owner db)), db))"
| "handle_request env role Health db = (ok_reply HealthBody, db)"
| "handle_request env role (RegisterExtraction input) db =
     store_reply (ok_reply \<circ> RegisteredBody) (registerExtraction (ce_now env) input db)"
| "handle_request env role (GetExtraction eid) db =
     (case getExtraction eid db of
        Some r \<Rightarrow> (ok_reply (ExtractionBody r), db)
      | None \<Rightarrow> (not_found (''Memory extraction not found: '' @ eid), db))"
| "handle_request env role (ListExtractions cursor limit filters) db =
     (query_reply (\<lambda>(rs, c). ok_reply (ExtractionsBody rs c))
        (listExtractions (ce_iso_text env) (ce_date_ok env) (ce_parse_json env) (ce_pg_time env) (ce_coll env) cursor (page_limit limit) filters db), db)"
| "handle_request env role (ListObservations cursor limit filters) db =
     (query_reply (\<lambda>(rs, c). ok_reply (ObservationsBody rs c))
        (listObservations (ce_iso_text env) (ce_date_ok env) (ce_parse_json env) (ce_pg_time env) (ce_coll env) cursor (page_limit limit) filters db), db)"
| "handle_request env role GetObservationBacklog db = (case getObservationBacklog db of (n, t) \<Rightarrow> (ok_reply (BacklogBody n t), db))"
| "handle_request env role (GetCatalogOverview rng) db =
     (ok_reply (OverviewBody (getCatalogOverview (ce_coll env) (ce_month_of env) (ce_now env) (case rng of None \<Rightarrow> Last30Days | Some r \<Rightarrow> r) db)), db)"
| "handle_request env role GetMaintenanceControl db = (ok_reply (ControlBody (getMaintenanceControl db)), db)"
| "handle_request env role (PauseMaintenance op gen) db = control_operation env MaintenancePausedState op gen db"
| "handle_request env role (ResumeMaintenance op gen) db = control_operation env MaintenanceEnabled op gen db"
| "handle_request env role (GetMaintenanceInput limit) db = (ok_reply (MaintenanceInputBody (getMaintenanceInput limit db)), db)"
| "handle_request env role (CreateMemoryTreeRevision input) db =
     with_revision role input (\<lambda>c. store_reply
       (\<lambda>(created, n, kind, owner). created_reply created (Some (''/v1/memory-tree/revisions/'' @ nat_string n)) (RevisionResultBody created n kind owner))
       (createMemoryTreeRevision (ce_collated env) (ce_now env) c db)) db"
| "handle_request env role (RestoreMemoryTree op expected restored) db =
     store_reply (\<lambda>(created, n, op'). created_reply created None (RestoreResultBody created n op'))
       (restoreMemoryTree (ce_now env)
          \<lparr>ri_operation_id = op, ri_expected_active_revision = expected, ri_restored_revision = restored, ri_actor = operatorActor\<rparr> (ce_seen env) db)"
| "handle_request env role GetMemoryTree db = (case getMemoryTree db of (n, t) \<Rightarrow> (ok_reply (MemoryTreeBody n t), db))"
| "handle_request env role (GetMemoryTreeRevision n) db =
     (query_reply (\<lambda>v. case v of Some r \<Rightarrow> ok_reply (RevisionBody r)
          | None \<Rightarrow> not_found (''Memory tree revision not found: '' @ nat_string n)) (getMemoryTreeRevision (ce_collated env) n db), db)"
| "handle_request env role (ListMemoryTreeRevisions before_revision limit) db =
     (query_reply (\<lambda>(vs, c). ok_reply (RevisionsBody vs c))
        (listMemoryTreeRevisions (ce_collated env) before_revision (page_limit limit) db), db)"

definition serve :: "string \<Rightarrow> string \<Rightarrow> catalog_env \<Rightarrow> string option \<Rightarrow> catalog_request \<Rightarrow> catalog \<Rightarrow> catalog_reply \<times> catalog" where
  "serve workerToken operatorToken env header request db =
     (if request = Health then (ok_reply HealthBody, db)
      else case authenticate workerToken operatorToken header (allowed_roles request) of
             Inl e \<Rightarrow> (catalogErrorReply e, db)
           | Inr role \<Rightarrow> handle_request env role request db)"

subsection \<open>What a request may change\<close>

text \<open>The operator's side of the catalog: the control and the two ledgers; the worker's side: extractions and observations.\<close>

definition same_operator_side :: "catalog \<Rightarrow> catalog \<Rightarrow> bool" where
  "same_operator_side db db' \<longleftrightarrow> control db' = control db \<and> control_operations db' = control_operations db \<and> restore_operations db' = restore_operations db"

definition same_worker_side :: "catalog \<Rightarrow> catalog \<Rightarrow> bool" where
  "same_worker_side db db' \<longleftrightarrow> extraction_publications db' = extraction_publications db \<and> extractions db' = extractions db \<and> observations db' = observations db"

definition revisions_of :: "source_kind \<Rightarrow> catalog \<Rightarrow> revision_row list" where
  "revisions_of kind db = filter (\<lambda>r. rv_source_kind r = kind) (tree_revisions db)"

lemmas side_defs = same_operator_side_def same_worker_side_def

lemma extraction_requests_frame:
  "same_operator_side db (snd (reserveExtractionPublication now intent db)) \<and> tree_revisions (snd (reserveExtractionPublication now intent db)) = tree_revisions db"
  "same_operator_side db (snd (confirmExtractionPublication intent db)) \<and> tree_revisions (snd (confirmExtractionPublication intent db)) = tree_revisions db"
  "same_operator_side db (snd (registerExtraction now input db)) \<and> tree_revisions (snd (registerExtraction now input db)) = tree_revisions db"
  by (simp_all add: reserveExtractionPublication_def confirmExtractionPublication_def registerExtraction_def inTransaction_def Let_def side_defs
      split: option.split sum.split prod.split)

lemma revision_publications_frame:
  "same_operator_side db (snd (reserveRevisionPublication now c db)) \<and> same_worker_side db (snd (reserveRevisionPublication now c db)) \<and>
     tree_revisions (snd (reserveRevisionPublication now c db)) = tree_revisions db"
  "same_operator_side db (snd (confirmRevisionPublication c db)) \<and> same_worker_side db (snd (confirmRevisionPublication c db)) \<and>
     tree_revisions (snd (confirmRevisionPublication c db)) = tree_revisions db"
  by (simp_all add: reserveRevisionPublication_def confirmRevisionPublication_def inTransaction_def Let_def side_defs split: option.split sum.split)

lemma consume_none [simp]: "consume n [] obs = obs"
  by (simp add: consume_def)

lemma creation_frame:
  "same_operator_side db (snd (createMemoryTreeRevision collated now c db))"
  "kind_of_source (rc_source c) = KindOperator \<Longrightarrow> same_worker_side db (snd (createMemoryTreeRevision collated now c db))"
  "tree_revisions (snd (createMemoryTreeRevision collated now c db)) \<in>
     {tree_revisions db, tree_revisions db @ [new_revision now (Suc (max_revision (tree_revisions db))) c]}"
  by (cases "rc_source c",
      simp_all add: createMemoryTreeRevision_def append_revision_def inTransaction_def Let_def side_defs split: option.split sum.split)+

lemma operator_requests_frame:
  "same_worker_side db (snd (changeMaintenanceControl now target ci seen db)) \<and> tree_revisions (snd (changeMaintenanceControl now target ci seen db)) = tree_revisions db"
  "same_worker_side db (snd (restoreMemoryTree now ri seen db)) \<and> tree_revisions (snd (restoreMemoryTree now ri seen db)) = tree_revisions db"
  by (simp_all add: changeMaintenanceControl_def restoreMemoryTree_def inTransaction_def Let_def side_defs split: option.split sum.split)

lemma store_reply_snd [simp]: "snd (store_reply reply result) = snd result"
  by (simp add: store_reply_def split: prod.split sum.split)

lemma with_revision_cases:
  obtains "snd (with_revision role input handler db) = db"
  | c where "authenticatedRevisionInput role input = Inr c" "with_revision role input handler db = handler c"
  by (cases "authenticatedRevisionInput role input") (auto simp: with_revision_def)

lemma authenticated_kind:
  "authenticatedRevisionInput role input = Inr c \<Longrightarrow> role = role_of_kind (kind_of_source (rc_source c))"
  by (cases "rq_source input") (auto simp: authenticatedRevisionInput_def split: if_splits)

lemma authenticated_actor:
  "authenticatedRevisionInput role input = Inr c \<Longrightarrow> rv_actor (new_revision now n c) \<in> {None, Some operatorActor}"
  by (cases "rq_source input") (auto simp: authenticatedRevisionInput_def new_revision_def split: if_splits)

lemma side_refl [simp]: "same_operator_side db db" "same_worker_side db db"
  by (simp_all add: side_defs)

lemma revisions_of_frame:
  "revisions_of kind (snd (reserveExtractionPublication now intent db)) = revisions_of kind db"
  "revisions_of kind (snd (confirmExtractionPublication intent db)) = revisions_of kind db"
  "revisions_of kind (snd (registerExtraction now input db)) = revisions_of kind db"
  "revisions_of kind (snd (reserveRevisionPublication now c db)) = revisions_of kind db"
  "revisions_of kind (snd (confirmRevisionPublication c db)) = revisions_of kind db"
  "revisions_of kind (snd (changeMaintenanceControl now target ci seen db)) = revisions_of kind db"
  "revisions_of kind (snd (restoreMemoryTree now ri seen db)) = revisions_of kind db"
  by (simp_all add: revisions_of_def extraction_requests_frame revision_publications_frame operator_requests_frame)

lemma creation_revisions_of:
  assumes "kind_of_source (rc_source c) \<noteq> kind"
  shows "revisions_of kind (snd (createMemoryTreeRevision collated now c db)) = revisions_of kind db"
  using creation_frame(3) [of collated now c db] assms by (auto simp: revisions_of_def)

text \<open>A handler's call is one step of the catalog, or none.\<close>

lemma handle_step:
  "snd (handle_request env role request db) = db \<or> catalog_step db (snd (handle_request env role request db))"
proof (cases request)
  case (ReserveRevisionPublication x)
  then show ?thesis
    by (cases rule: with_revision_cases [of role x "\<lambda>c. store_reply (ok_reply \<circ> RevisionPublicationBody) (reserveRevisionPublication (ce_now env) c db)" db])
       (simp_all add: catalog_step.reserveRevisionPublication)
next
  case (ConfirmRevisionPublication x)
  then show ?thesis
    by (cases rule: with_revision_cases [of role x "\<lambda>c. store_reply (ok_reply \<circ> RevisionPublicationBody) (confirmRevisionPublication c db)" db])
       (simp_all add: catalog_step.confirmRevisionPublication)
next
  case (CreateMemoryTreeRevision x)
  then show ?thesis
    by (simp add: with_revision_def catalog_step.createMemoryTreeRevision split: sum.split)
qed (simp_all add: control_operation_def catalog_step.reserveExtractionPublication catalog_step.confirmExtractionPublication
    catalog_step.registerExtraction catalog_step.changeMaintenanceControl catalog_step.restoreMemoryTree split: option.split prod.split)

lemma serve_steps: "catalog_step\<^sup>*\<^sup>* db (snd (serve workerToken operatorToken env header request db))"
proof (cases "authenticate workerToken operatorToken header (allowed_roles request)")
  case (Inr role)
  then show ?thesis
    using handle_step [of env role request db] by (cases "request = Health") (auto simp: serve_def)
qed (simp add: serve_def)

lemma role_kinds: "WorkerRole = role_of_kind k \<Longrightarrow> k = KindMaintenance" "OperatorRole = role_of_kind k \<Longrightarrow> k = KindOperator"
  by (cases k; simp)+

lemma worker_frame:
  assumes "WorkerRole \<in> set (allowed_roles request)"
  shows "same_operator_side db (snd (handle_request env WorkerRole request db)) \<and>
     revisions_of KindOperator (snd (handle_request env WorkerRole request db)) = revisions_of KindOperator db"
  using assms
proof (cases request)
  case (CreateMemoryTreeRevision x)
  show ?thesis
  proof (cases "authenticatedRevisionInput WorkerRole x")
    case (Inr c)
    then have "kind_of_source (rc_source c) = KindMaintenance" using authenticated_kind role_kinds(1) by blast
    then show ?thesis using CreateMemoryTreeRevision Inr by (simp add: with_revision_def creation_frame(1) creation_revisions_of)
  qed (simp add: CreateMemoryTreeRevision with_revision_def)
qed (auto simp: extraction_requests_frame revision_publications_frame with_revision_def revisions_of_frame split: option.split prod.split sum.split)

lemma operator_frame:
  assumes "OperatorRole \<in> set (allowed_roles request)"
  shows "same_worker_side db (snd (handle_request env OperatorRole request db)) \<and>
     revisions_of KindMaintenance (snd (handle_request env OperatorRole request db)) = revisions_of KindMaintenance db"
  using assms
proof (cases request)
  case (CreateMemoryTreeRevision x)
  show ?thesis
  proof (cases "authenticatedRevisionInput OperatorRole x")
    case (Inr c)
    then have "kind_of_source (rc_source c) = KindOperator" using authenticated_kind role_kinds(2) by blast
    then show ?thesis using CreateMemoryTreeRevision Inr by (simp add: with_revision_def creation_frame(2) creation_revisions_of)
  qed (simp add: CreateMemoryTreeRevision with_revision_def)
qed (auto simp: operator_requests_frame revision_publications_frame control_operation_def with_revision_def revisions_of_frame
    split: option.split prod.split sum.split)

text \<open>C35. The two tokens of the memory catalog are separated: apart from the health route, a request with neither is refused with 401 and writes nothing; one with the
  worker's token leaves the maintenance control, both operator ledgers and all operator revisions as they are; one without it leaves the
  extractions, the observations and all maintenance revisions as they are.\<close>

theorem roles_separated:
  assumes "request \<noteq> Health" "serve workerToken operatorToken env header request db = (reply, db')"
  shows "(\<not> bearerTokenMatches header workerToken \<and> \<not> bearerTokenMatches header operatorToken \<longrightarrow> rep_status reply = 401 \<and> db' = db) \<and>
     (bearerTokenMatches header workerToken \<longrightarrow> same_operator_side db db' \<and> revisions_of KindOperator db' = revisions_of KindOperator db) \<and>
     (\<not> bearerTokenMatches header workerToken \<longrightarrow> same_worker_side db db' \<and> revisions_of KindMaintenance db' = revisions_of KindMaintenance db)"
proof (cases "authenticate workerToken operatorToken header (allowed_roles request)")
  case (Inl e)
  then have "e = Unauthorized" by (auto simp: authenticate_def Let_def split: if_splits)
  then show ?thesis using assms Inl by (auto simp: serve_def catalogErrorReply_def Let_def)
next
  case (Inr role)
  then have role: "role \<in> set (allowed_roles request)" "role = (if bearerTokenMatches header workerToken then WorkerRole else OperatorRole)"
      "bearerTokenMatches header workerToken \<or> bearerTokenMatches header operatorToken"
    by (auto simp: authenticate_def Let_def split: if_splits)
  have "db' = snd (handle_request env role request db)" using assms Inr by (simp add: serve_def)
  then show ?thesis using role worker_frame [of request db env] operator_frame [of request db env] by auto
qed

subsection \<open>Authenticated actors\<close>

definition catalog_served :: "string \<Rightarrow> string \<Rightarrow> catalog \<Rightarrow> catalog \<Rightarrow> bool" where
  "catalog_served workerToken operatorToken db db' \<longleftrightarrow>
     (\<exists>env header request. db' = snd (serve workerToken operatorToken env header request db))"

definition actors_ok :: "catalog \<Rightarrow> bool" where
  "actors_ok db \<longleftrightarrow>
     (\<forall>v \<in> set (tree_revisions db). rv_actor v \<in> {None, Some operatorActor}) \<and>
     (\<forall>o' \<in> set (restore_operations db). ro_actor o' = operatorActor) \<and>
     (\<forall>o' \<in> set (control_operations db). co_actor o' = operatorActor \<and> mc_changed_by (co_control o') = operatorActor) \<and>
     mc_changed_by (control db) \<in> {operatorActor, \<lparr>actor_kind = ServiceActor, actor_id = ''memory-catalog''\<rparr>}"

lemma actors_ok_same: "same_operator_side db db' \<Longrightarrow> tree_revisions db' = tree_revisions db \<Longrightarrow> actors_ok db \<Longrightarrow> actors_ok db'"
  by (simp add: actors_ok_def same_operator_side_def)

lemma creation_actors:
  assumes "actors_ok db" "authenticatedRevisionInput role input = Inr c"
  shows "actors_ok (snd (createMemoryTreeRevision collated now c db))"
  using creation_frame(1) [of db collated now c] creation_frame(3) [of collated now c db] authenticated_actor [OF assms(2), of now "Suc (max_revision (tree_revisions db))"] assms(1)
  by (auto simp: actors_ok_def same_operator_side_def)

lemma operator_actors:
  assumes "actors_ok db"
  shows "actors_ok (snd (changeMaintenanceControl now target \<lparr>ci_operation_id = op, ci_expected_generation = gen, ci_actor = operatorActor\<rparr> seen db))"
    "actors_ok (snd (restoreMemoryTree now \<lparr>ri_operation_id = op, ri_expected_active_revision = e, ri_restored_revision = r, ri_actor = operatorActor\<rparr> seen db))"
  using assms
  by (auto simp: actors_ok_def changeMaintenanceControl_def restoreMemoryTree_def inTransaction_def Let_def split: option.split)

lemma handle_actors:
  assumes "actors_ok db" shows "actors_ok (snd (handle_request env role request db))"
proof (cases request)
  case (CreateMemoryTreeRevision x)
  then show ?thesis using creation_actors [OF assms] assms by (simp add: with_revision_def split: sum.split)
next
  case (ReserveRevisionPublication x)
  then show ?thesis
    using actors_ok_same [OF _ _ assms] revision_publications_frame(1) [of db] assms by (simp add: with_revision_def split: sum.split)
next
  case (ConfirmRevisionPublication x)
  then show ?thesis
    using actors_ok_same [OF _ _ assms] revision_publications_frame(2) [of db] assms by (simp add: with_revision_def split: sum.split)
qed (use actors_ok_same [OF _ _ assms] extraction_requests_frame [of db] operator_actors [OF assms] assms in
    \<open>simp_all add: control_operation_def split: option.split prod.split\<close>)

interpretation catalog_http: directed_system "initial_catalog now" "catalog_served workerToken operatorToken" "\<lambda>db. catalog_ok db \<and> actors_ok db" history_kept
proof
  show "catalog_ok (initial_catalog now) \<and> actors_ok (initial_catalog now)"
    using initial_ok by (simp add: actors_ok_def initial_catalog_def)
next
  fix db db' assume ok: "catalog_ok db \<and> actors_ok db" and "catalog_served workerToken operatorToken db db'"
  then obtain env header request where db': "db' = snd (serve workerToken operatorToken env header request db)"
    unfolding catalog_served_def by blast
  note steps = serve_steps [of db workerToken operatorToken env header request, folded db']
  show "catalog_ok db' \<and> actors_ok db'"
    using memory.inv_steps [OF steps] handle_actors [of db env _ request] ok db' by (simp add: serve_def split: sum.split)
  show "history_kept db db'" using memory.dir_steps [OF steps] ok by blast
qed (use history_refl history_trans in blast)+

text \<open>C36. Every history of served requests keeps the catalog consistent, and every operator revision, restore, pause and resume in it is
  attributed to the actor the server assigns to the operator's token, whatever the requests say.\<close>

theorem actors_authenticated:
  assumes "(catalog_served workerToken operatorToken)\<^sup>*\<^sup>* (initial_catalog start) db"
  shows "catalog_ok db \<and>
     (\<forall>v. v \<in> set (tree_revisions db) \<and> rv_source_kind v = KindOperator \<longrightarrow> rv_actor v = Some operatorActor) \<and>
     (\<forall>o'. o' \<in> set (restore_operations db) \<longrightarrow> ro_actor o' = operatorActor) \<and>
     (\<forall>o'. o' \<in> set (control_operations db) \<longrightarrow> co_actor o' = operatorActor)"
proof -
  have inv: "catalog_ok db" "actors_ok db" using catalog_http.inv_reached [OF assms] by blast+
  have "rv_actor v = Some operatorActor" if v: "v \<in> set (tree_revisions db)" "rv_source_kind v = KindOperator" for v
  proof -
    obtain r :: revision_publication_row where "revision_recorded db (rp_intent r) v" using revisionD(2) [OF inv(1) v(1)] by blast
    then obtain t n input where row: "v = new_revision t n input" unfolding revision_recorded_def by blast
    then have "rv_actor v \<noteq> None" using v(2) by (cases "rc_source input") (simp_all add: new_revision_def)
    then show ?thesis using inv(2) v(1) by (auto simp: actors_ok_def)
  qed
  with inv show ?thesis by (simp add: actors_ok_def)
qed

subsection \<open>A concrete server\<close>

definition demo_env :: catalog_env where
  "demo_env = \<lparr>ce_now = 5, ce_collated = sort, ce_coll = id, ce_iso_text = milli_text, ce_date_ok = (\<lambda>s. s \<noteq> []), ce_parse_json = plain_json,
     ce_pg_time = milli_time, ce_month_of = (\<lambda>t. 0), ce_seen = initial_catalog 0\<rparr>"

definition demo_paused :: catalog where
  "demo_paused = snd (serve ''w'' ''o'' demo_env (Some ''Bearer o'') (PauseMaintenance ''p-1'' 0) (initial_catalog 0))"

theorem roles_separated_witness:
  "rep_status (fst (serve ''w'' ''o'' demo_env (Some ''Bearer x'') (PauseMaintenance ''p-1'' 0) (initial_catalog 0))) = 401 \<and>
     control (snd (serve ''w'' ''o'' demo_env (Some ''Bearer w'') (ResumeMaintenance ''p-2'' 1) demo_paused)) = control demo_paused"
proof -
  have "\<not> bearerTokenMatches (Some ''Bearer x'') ''w''" "\<not> bearerTokenMatches (Some ''Bearer x'') ''o''" "bearerTokenMatches (Some ''Bearer w'') ''w''"
    by code_simp+
  then show ?thesis
    using roles_separated [of "PauseMaintenance ''p-1'' 0" "''w''" "''o''" demo_env "Some ''Bearer x''" "initial_catalog 0", OF _ prod.collapse [symmetric]]
      roles_separated [of "ResumeMaintenance ''p-2'' 1" "''w''" "''o''" demo_env "Some ''Bearer w''" demo_paused, OF _ prod.collapse [symmetric]]
    by (simp add: same_operator_side_def)
qed

theorem actors_authenticated_witness:
  "catalog_ok demo_paused \<and> map co_actor (control_operations demo_paused) = [operatorActor]"
proof -
  have "(catalog_served ''w'' ''o'')\<^sup>*\<^sup>* (initial_catalog 0) demo_paused"
    unfolding demo_paused_def by (rule r_into_rtranclp) (auto simp: catalog_served_def)
  moreover have "length (control_operations demo_paused) = 1" by code_simp
  ultimately show ?thesis
    using actors_authenticated [of "''w''" "''o''" 0 demo_paused] by (auto simp: length_Suc_conv)
qed

end
