(* ===== verification/RunTables.thy ===== *)
theory RunTables
  imports Prelude
begin

text \<open>
  The durable state of Review Runs: the tables of
  \<^verbatim>\<open>services/review-runs/src/database/schema-versions/001_initial_coordination_schema.sql\<close> as records
  of rows, their CHECK constraints as boolean functions, the error values the stores raise, and
  \<^verbatim>\<open>transaction\<close> (database/transaction.ts). Every store operation has the type
  \<open>db \<Rightarrow> (rr_error + 'a) \<times> db\<close>: the thrown error or the returned value, and the committed state.
\<close>

subsection \<open>Statuses\<close>

datatype workflow_name = IssueReview | PullRequestReview | RepositoryReview

datatype prep_state =
    PrepPending | PrepPreparing | PrepUncertain | PrepDisconnected | PrepSubmitted | PrepFailed

datatype exec_state =
    ExecPending | ExecQueued | ExecRunning | ExecUncertain | ExecDisconnected
  | ExecSucceeded | ExecSkipped | ExecFailed

datatype pub_state =
    PubPending | PubPublishing | PubUncertain | PubDisconnected | PubPublished | PubFailed | PubSkipped

datatype step_state =
    StepPending | StepRunning | StepUncertain | StepDisconnected
  | StepSucceeded | StepFailed | StepTerminalFailed

datatype cand_state = CandReserved | CandPresent | CandSelected | CandAbandoned

datatype notice_state =
    NoticePending | NoticeDelivering | NoticeDelivered | NoticeFailed | NoticeSuperseded

datatype notice_kind = NoticeFailure | NoticeAttention

datatype axis = AxisPreparation | AxisExecution | AxisPublication

text \<open>The \<^verbatim>\<open>from_status\<close> / \<^verbatim>\<open>to_status\<close> columns of the event log hold a status of the event's axis.\<close>

datatype axis_state = PrepS prep_state | ExecS exec_state | PubS pub_state

subsection \<open>Rows\<close>

record review_run_row =
  rr_run_id :: string
  rr_connector_id :: string
  rr_workflow :: workflow_name
  rr_source_platform :: string
  rr_ingress_kind :: "string option"
  rr_ingress_key :: "string option"
  rr_created_at :: instant
  rr_updated_at :: instant

record preparation_row =
  prep_run_id :: string
  prep_connector_id :: string
  prep_input_version :: string
  prep_input :: json
  prep_status :: prep_state
  prep_available_at :: instant
  prep_claim_token :: "uuid option"
  prep_claimed_at :: "instant option"
  prep_attempt_count :: nat
  prep_failure_code :: "string option"
  prep_failure_message :: "string option"
  prep_last_failure_code :: "string option"
  prep_last_failure_message :: "string option"
  prep_started_at :: "instant option"
  prep_finished_at :: "instant option"
  prep_disconnect_reason :: "string option"
  prep_updated_at :: instant

record candidate_row =
  cand_run_id :: string
  cand_connector_id :: string
  cand_digest :: string
  cand_reference :: json
  cand_input :: json
  cand_publish_context :: json
  cand_reserved_by :: uuid
  cand_status :: cand_state
  cand_created_at :: instant
  cand_updated_at :: instant

text \<open>The stored diagnostic reference after \<^verbatim>\<open>normalizeArtifactStorage\<close> (shapes.ts).\<close>

datatype artifact_storage =
    StorageAvailable json
  | StorageOther json "string option" "string option"

record execution_row =
  exec_run_id :: string
  exec_connector_id :: string
  exec_status :: exec_state
  exec_input :: "json option"
  exec_started_at :: "instant option"
  exec_finished_at :: "instant option"
  exec_failure_code :: "string option"
  exec_failure_message :: "string option"
  exec_artifact_storage :: "artifact_storage option"
  exec_workflow_result :: "json option"
  exec_claim_token :: "uuid option"
  exec_claimed_at :: "instant option"
  exec_attempt_count :: nat
  exec_observed_at :: instant
  exec_updated_at :: instant

record publication_row =
  pub_run_id :: string
  pub_connector_id :: string
  pub_input :: json
  pub_status :: pub_state
  pub_claim_token :: "uuid option"
  pub_claimed_at :: "instant option"
  pub_failure_code :: "string option"
  pub_failure_message :: "string option"
  pub_started_at :: "instant option"
  pub_finished_at :: "instant option"
  pub_updated_at :: instant

record step_row =
  step_connector_id :: string
  step_run_id :: string
  step_key :: string
  step_status :: step_state
  step_attempt_count :: nat
  step_recovery_attempt_count :: nat
  step_last_attempt_at :: "instant option"
  step_claimed_by :: "uuid option"
  step_remote_object_id :: "string option"
  step_remote_object_url :: "string option"
  step_failure_code :: "string option"
  step_failure_message :: "string option"
  step_updated_at :: instant

record event_row =
  event_id :: nat
  event_run_id :: string
  event_connector_id :: string
  event_axis :: axis
  event_from_status :: "axis_state option"
  event_to_status :: axis_state
  event_reason_code :: "string option"
  event_occurred_at :: instant

record notice_row =
  notice_id :: nat
  notice_run_id :: string
  notice_connector_id :: string
  notice_kind :: notice_kind
  notice_source_event_id :: nat
  notice_status :: notice_state
  notice_axis :: axis
  notice_reason_code :: "string option"
  notice_comment_url :: "string option"
  notice_claim_token :: "uuid option"
  notice_claimed_at :: "instant option"
  notice_created_at :: instant
  notice_updated_at :: instant

text \<open>The database: the tables, and the identity sequences of the two generated keys.\<close>

record db =
  review_runs :: "review_run_row list"
  preparations :: "preparation_row list"
  input_bundle_candidates :: "candidate_row list"
  executions :: "execution_row list"
  publications :: "publication_row list"
  publication_steps :: "step_row list"
  review_run_events :: "event_row list"
  next_event_id :: nat
  run_notices :: "notice_row list"
  next_notice_id :: nat

definition empty_db :: db where
  "empty_db = \<lparr>review_runs = [], preparations = [], input_bundle_candidates = [], executions = [],
     publications = [], publication_steps = [], review_run_events = [], next_event_id = 1,
     run_notices = [], next_notice_id = 1\<rparr>"

subsection \<open>Errors, configuration, transactions\<close>

text \<open>
  \<^verbatim>\<open>new Error(m)\<close>, an error with a \<^verbatim>\<open>statusCode\<close>, a \<^verbatim>\<open>DeterministicReviewRunError\<close> (errors.ts) with its
  code, PostgreSQL's unique-violation 23505 with its constraint, a CHECK violation, and the internal
  \<^verbatim>\<open>ExpiryUnreconcilableError\<close> of the preparation store.
\<close>

datatype step_error_code = SetDuplicate | SetChanged | RetryExhausted | NotClaimable

datatype rr_error =
    PlainError string
  | StatusError nat string
  | StepError step_error_code
  | UniqueViolation string
  | CheckViolation string
  | ExpiryUnreconcilable string

record store_cfg =
  connectorId :: string
  claimTimeoutMs :: nat

text \<open>\<^verbatim>\<open>claimed_at <= clock_timestamp()-($n*interval '1 millisecond')\<close> and its strict opposite; a NULL
  \<^verbatim>\<open>claimed_at\<close> satisfies neither.\<close>

definition lease_expired :: "store_cfg \<Rightarrow> instant \<Rightarrow> instant option \<Rightarrow> bool" where
  "lease_expired cfg now t =
     (case t of None \<Rightarrow> False | Some x \<Rightarrow> x \<le> now - 1000 * int (claimTimeoutMs cfg))"

definition lease_live :: "store_cfg \<Rightarrow> instant \<Rightarrow> instant option \<Rightarrow> bool" where
  "lease_live cfg now t =
     (case t of None \<Rightarrow> False | Some x \<Rightarrow> now - 1000 * int (claimTimeoutMs cfg) < x)"

lemma lease_live_not_expired: "lease_live cfg now t \<Longrightarrow> \<not> lease_expired cfg now t"
  by (cases t) (auto simp: lease_live_def lease_expired_def)

text \<open>An operation inside a transaction returns its value and the state it has written so far, or
  throws; \<^verbatim>\<open>transaction\<close> commits the former and rolls the latter back.\<close>

type_synonym 'a tx = "db \<Rightarrow> rr_error + ('a \<times> db)"

definition transaction :: "'a tx \<Rightarrow> db \<Rightarrow> (rr_error + 'a) \<times> db" where
  "transaction operation db =
     (case operation db of Inl e \<Rightarrow> (Inl e, db) | Inr (a, db') \<Rightarrow> (Inr a, db'))"

lemma transaction_split:
  "P (transaction m s) \<longleftrightarrow>
     (\<forall>e. m s = Inl e \<longrightarrow> P (Inl e, s)) \<and> (\<forall>a s'. m s = Inr (a, s') \<longrightarrow> P (Inr a, s'))"
  by (auto simp: transaction_def split: sum.splits prod.splits)

lemma transaction_preserves:
  assumes "I s" and "\<And>a s'. m s = Inr (a, s') \<Longrightarrow> I s'"
  shows "I (snd (transaction m s))"
  using assms by (auto simp: transaction_def split: sum.splits prod.splits)

lemma transaction_Inr: "m s = Inr (a, s') \<Longrightarrow> transaction m s = (Inr a, s')"
  by (simp add: transaction_def)

lemma transaction_thrown: "fst (transaction m s) = Inl e \<Longrightarrow> snd (transaction m s) = s"
  by (auto simp: transaction_def split: sum.splits)

lemma transaction_Inl: "m s = Inl e \<Longrightarrow> transaction m s = (Inl e, s)"
  by (simp add: transaction_def)

subsection \<open>Statements on the five run-keyed tables\<close>

definition prep_of :: "db \<Rightarrow> string \<Rightarrow> string \<Rightarrow> preparation_row option" where
  "prep_of db c k = select_row prep_run_id prep_connector_id c k (preparations db)"

definition pick_prep :: "string \<Rightarrow> string \<Rightarrow> (preparation_row \<Rightarrow> bool) \<Rightarrow> db \<Rightarrow> preparation_row option" where
  "pick_prep c k q db = pick_row prep_run_id prep_connector_id c k q (preparations db)"

definition cnt_prep :: "string \<Rightarrow> string \<Rightarrow> (preparation_row \<Rightarrow> bool) \<Rightarrow> db \<Rightarrow> nat" where
  "cnt_prep c k q db = row_count prep_run_id prep_connector_id c k q (preparations db)"

definition upd_prep :: "string \<Rightarrow> string \<Rightarrow> (preparation_row \<Rightarrow> bool) \<Rightarrow> (preparation_row \<Rightarrow> preparation_row) \<Rightarrow> db \<Rightarrow> db" where
  "upd_prep c k q f db = db\<lparr>preparations := update_rows prep_run_id prep_connector_id c k q f (preparations db)\<rparr>"

definition exec_of :: "db \<Rightarrow> string \<Rightarrow> string \<Rightarrow> execution_row option" where
  "exec_of db c k = select_row exec_run_id exec_connector_id c k (executions db)"

definition pick_exec :: "string \<Rightarrow> string \<Rightarrow> (execution_row \<Rightarrow> bool) \<Rightarrow> db \<Rightarrow> execution_row option" where
  "pick_exec c k q db = pick_row exec_run_id exec_connector_id c k q (executions db)"

definition cnt_exec :: "string \<Rightarrow> string \<Rightarrow> (execution_row \<Rightarrow> bool) \<Rightarrow> db \<Rightarrow> nat" where
  "cnt_exec c k q db = row_count exec_run_id exec_connector_id c k q (executions db)"

definition upd_exec :: "string \<Rightarrow> string \<Rightarrow> (execution_row \<Rightarrow> bool) \<Rightarrow> (execution_row \<Rightarrow> execution_row) \<Rightarrow> db \<Rightarrow> db" where
  "upd_exec c k q f db = db\<lparr>executions := update_rows exec_run_id exec_connector_id c k q f (executions db)\<rparr>"

definition pub_of :: "db \<Rightarrow> string \<Rightarrow> string \<Rightarrow> publication_row option" where
  "pub_of db c k = select_row pub_run_id pub_connector_id c k (publications db)"

definition pick_pub :: "string \<Rightarrow> string \<Rightarrow> (publication_row \<Rightarrow> bool) \<Rightarrow> db \<Rightarrow> publication_row option" where
  "pick_pub c k q db = pick_row pub_run_id pub_connector_id c k q (publications db)"

definition cnt_pub :: "string \<Rightarrow> string \<Rightarrow> (publication_row \<Rightarrow> bool) \<Rightarrow> db \<Rightarrow> nat" where
  "cnt_pub c k q db = row_count pub_run_id pub_connector_id c k q (publications db)"

definition upd_pub :: "string \<Rightarrow> string \<Rightarrow> (publication_row \<Rightarrow> bool) \<Rightarrow> (publication_row \<Rightarrow> publication_row) \<Rightarrow> db \<Rightarrow> db" where
  "upd_pub c k q f db = db\<lparr>publications := update_rows pub_run_id pub_connector_id c k q f (publications db)\<rparr>"

definition cands_of :: "db \<Rightarrow> string \<Rightarrow> string \<Rightarrow> candidate_row list" where
  "cands_of db c k = rows_at cand_run_id cand_connector_id c k (input_bundle_candidates db)"

definition pick_cand :: "string \<Rightarrow> string \<Rightarrow> (candidate_row \<Rightarrow> bool) \<Rightarrow> db \<Rightarrow> candidate_row option" where
  "pick_cand c k q db = pick_row cand_run_id cand_connector_id c k q (input_bundle_candidates db)"

definition cnt_cand :: "string \<Rightarrow> string \<Rightarrow> (candidate_row \<Rightarrow> bool) \<Rightarrow> db \<Rightarrow> nat" where
  "cnt_cand c k q db = row_count cand_run_id cand_connector_id c k q (input_bundle_candidates db)"

definition upd_cand :: "string \<Rightarrow> string \<Rightarrow> (candidate_row \<Rightarrow> bool) \<Rightarrow> (candidate_row \<Rightarrow> candidate_row) \<Rightarrow> db \<Rightarrow> db" where
  "upd_cand c k q f db = db\<lparr>input_bundle_candidates := update_rows cand_run_id cand_connector_id c k q f (input_bundle_candidates db)\<rparr>"

definition steps_of :: "db \<Rightarrow> string \<Rightarrow> string \<Rightarrow> step_row list" where
  "steps_of db c k = rows_at step_run_id step_connector_id c k (publication_steps db)"

definition pick_step :: "string \<Rightarrow> string \<Rightarrow> (step_row \<Rightarrow> bool) \<Rightarrow> db \<Rightarrow> step_row option" where
  "pick_step c k q db = pick_row step_run_id step_connector_id c k q (publication_steps db)"

definition cnt_step :: "string \<Rightarrow> string \<Rightarrow> (step_row \<Rightarrow> bool) \<Rightarrow> db \<Rightarrow> nat" where
  "cnt_step c k q db = row_count step_run_id step_connector_id c k q (publication_steps db)"

definition upd_step :: "string \<Rightarrow> string \<Rightarrow> (step_row \<Rightarrow> bool) \<Rightarrow> (step_row \<Rightarrow> step_row) \<Rightarrow> db \<Rightarrow> db" where
  "upd_step c k q f db = db\<lparr>publication_steps := update_rows step_run_id step_connector_id c k q f (publication_steps db)\<rparr>"

subsection \<open>Frame and look-up rules\<close>

text \<open>An UPDATE of one table leaves the others alone, and a look-up in the updated table sees the
  assignment exactly when its key and condition match.\<close>

lemma frame_upd_prep [simp]:
  "review_runs (upd_prep c k q f db) = review_runs db"
  "input_bundle_candidates (upd_prep c k q f db) = input_bundle_candidates db"
  "executions (upd_prep c k q f db) = executions db"
  "publications (upd_prep c k q f db) = publications db"
  "publication_steps (upd_prep c k q f db) = publication_steps db"
  "review_run_events (upd_prep c k q f db) = review_run_events db"
  "next_event_id (upd_prep c k q f db) = next_event_id db"
  "run_notices (upd_prep c k q f db) = run_notices db"
  "next_notice_id (upd_prep c k q f db) = next_notice_id db"
  by (simp_all add: upd_prep_def)

lemma lookup_upd_prep [simp]:
  "exec_of (upd_prep c k q f db) = exec_of db"
  "pub_of (upd_prep c k q f db) = pub_of db"
  "cands_of (upd_prep c k q f db) = cands_of db"
  "steps_of (upd_prep c k q f db) = steps_of db"
  by (simp_all add: fun_eq_iff exec_of_def pub_of_def cands_of_def steps_of_def)

lemma count_upd_prep [simp]:
  "cnt_exec c' k' qexec (upd_prep c k q f db) = cnt_exec c' k' qexec db"
  "pick_exec c' k' qexec (upd_prep c k q f db) = pick_exec c' k' qexec db"
  "cnt_pub c' k' qpub (upd_prep c k q f db) = cnt_pub c' k' qpub db"
  "pick_pub c' k' qpub (upd_prep c k q f db) = pick_pub c' k' qpub db"
  "cnt_cand c' k' qcand (upd_prep c k q f db) = cnt_cand c' k' qcand db"
  "pick_cand c' k' qcand (upd_prep c k q f db) = pick_cand c' k' qcand db"
  "cnt_step c' k' qstep (upd_prep c k q f db) = cnt_step c' k' qstep db"
  "pick_step c' k' qstep (upd_prep c k q f db) = pick_step c' k' qstep db"
  by (simp_all add: cnt_exec_def pick_exec_def cnt_pub_def pick_pub_def cnt_cand_def pick_cand_def cnt_step_def pick_step_def)

lemma prep_of_upd_prep [simp]:
  assumes "keeps prep_run_id prep_connector_id f"
  shows "prep_of (upd_prep c k q f db) c' k' =
     (if c' = c \<and> k' = k then map_option (\<lambda>r. if q r then f r else r) (prep_of db c k) else prep_of db c' k')"
  using assms by (simp add: prep_of_def upd_prep_def select_row_update)

lemma frame_upd_exec [simp]:
  "review_runs (upd_exec c k q f db) = review_runs db"
  "preparations (upd_exec c k q f db) = preparations db"
  "input_bundle_candidates (upd_exec c k q f db) = input_bundle_candidates db"
  "publications (upd_exec c k q f db) = publications db"
  "publication_steps (upd_exec c k q f db) = publication_steps db"
  "review_run_events (upd_exec c k q f db) = review_run_events db"
  "next_event_id (upd_exec c k q f db) = next_event_id db"
  "run_notices (upd_exec c k q f db) = run_notices db"
  "next_notice_id (upd_exec c k q f db) = next_notice_id db"
  by (simp_all add: upd_exec_def)

lemma lookup_upd_exec [simp]:
  "prep_of (upd_exec c k q f db) = prep_of db"
  "pub_of (upd_exec c k q f db) = pub_of db"
  "cands_of (upd_exec c k q f db) = cands_of db"
  "steps_of (upd_exec c k q f db) = steps_of db"
  by (simp_all add: fun_eq_iff prep_of_def pub_of_def cands_of_def steps_of_def)

lemma count_upd_exec [simp]:
  "cnt_prep c' k' qprep (upd_exec c k q f db) = cnt_prep c' k' qprep db"
  "pick_prep c' k' qprep (upd_exec c k q f db) = pick_prep c' k' qprep db"
  "cnt_pub c' k' qpub (upd_exec c k q f db) = cnt_pub c' k' qpub db"
  "pick_pub c' k' qpub (upd_exec c k q f db) = pick_pub c' k' qpub db"
  "cnt_cand c' k' qcand (upd_exec c k q f db) = cnt_cand c' k' qcand db"
  "pick_cand c' k' qcand (upd_exec c k q f db) = pick_cand c' k' qcand db"
  "cnt_step c' k' qstep (upd_exec c k q f db) = cnt_step c' k' qstep db"
  "pick_step c' k' qstep (upd_exec c k q f db) = pick_step c' k' qstep db"
  by (simp_all add: cnt_prep_def pick_prep_def cnt_pub_def pick_pub_def cnt_cand_def pick_cand_def cnt_step_def pick_step_def)

lemma exec_of_upd_exec [simp]:
  assumes "keeps exec_run_id exec_connector_id f"
  shows "exec_of (upd_exec c k q f db) c' k' =
     (if c' = c \<and> k' = k then map_option (\<lambda>r. if q r then f r else r) (exec_of db c k) else exec_of db c' k')"
  using assms by (simp add: exec_of_def upd_exec_def select_row_update)

lemma frame_upd_pub [simp]:
  "review_runs (upd_pub c k q f db) = review_runs db"
  "preparations (upd_pub c k q f db) = preparations db"
  "input_bundle_candidates (upd_pub c k q f db) = input_bundle_candidates db"
  "executions (upd_pub c k q f db) = executions db"
  "publication_steps (upd_pub c k q f db) = publication_steps db"
  "review_run_events (upd_pub c k q f db) = review_run_events db"
  "next_event_id (upd_pub c k q f db) = next_event_id db"
  "run_notices (upd_pub c k q f db) = run_notices db"
  "next_notice_id (upd_pub c k q f db) = next_notice_id db"
  by (simp_all add: upd_pub_def)

lemma lookup_upd_pub [simp]:
  "prep_of (upd_pub c k q f db) = prep_of db"
  "exec_of (upd_pub c k q f db) = exec_of db"
  "cands_of (upd_pub c k q f db) = cands_of db"
  "steps_of (upd_pub c k q f db) = steps_of db"
  by (simp_all add: fun_eq_iff prep_of_def exec_of_def cands_of_def steps_of_def)

lemma count_upd_pub [simp]:
  "cnt_prep c' k' qprep (upd_pub c k q f db) = cnt_prep c' k' qprep db"
  "pick_prep c' k' qprep (upd_pub c k q f db) = pick_prep c' k' qprep db"
  "cnt_exec c' k' qexec (upd_pub c k q f db) = cnt_exec c' k' qexec db"
  "pick_exec c' k' qexec (upd_pub c k q f db) = pick_exec c' k' qexec db"
  "cnt_cand c' k' qcand (upd_pub c k q f db) = cnt_cand c' k' qcand db"
  "pick_cand c' k' qcand (upd_pub c k q f db) = pick_cand c' k' qcand db"
  "cnt_step c' k' qstep (upd_pub c k q f db) = cnt_step c' k' qstep db"
  "pick_step c' k' qstep (upd_pub c k q f db) = pick_step c' k' qstep db"
  by (simp_all add: cnt_prep_def pick_prep_def cnt_exec_def pick_exec_def cnt_cand_def pick_cand_def cnt_step_def pick_step_def)

lemma pub_of_upd_pub [simp]:
  assumes "keeps pub_run_id pub_connector_id f"
  shows "pub_of (upd_pub c k q f db) c' k' =
     (if c' = c \<and> k' = k then map_option (\<lambda>r. if q r then f r else r) (pub_of db c k) else pub_of db c' k')"
  using assms by (simp add: pub_of_def upd_pub_def select_row_update)

lemma frame_upd_cand [simp]:
  "review_runs (upd_cand c k q f db) = review_runs db"
  "preparations (upd_cand c k q f db) = preparations db"
  "executions (upd_cand c k q f db) = executions db"
  "publications (upd_cand c k q f db) = publications db"
  "publication_steps (upd_cand c k q f db) = publication_steps db"
  "review_run_events (upd_cand c k q f db) = review_run_events db"
  "next_event_id (upd_cand c k q f db) = next_event_id db"
  "run_notices (upd_cand c k q f db) = run_notices db"
  "next_notice_id (upd_cand c k q f db) = next_notice_id db"
  by (simp_all add: upd_cand_def)

lemma lookup_upd_cand [simp]:
  "prep_of (upd_cand c k q f db) = prep_of db"
  "exec_of (upd_cand c k q f db) = exec_of db"
  "pub_of (upd_cand c k q f db) = pub_of db"
  "steps_of (upd_cand c k q f db) = steps_of db"
  by (simp_all add: fun_eq_iff prep_of_def exec_of_def pub_of_def steps_of_def)

lemma count_upd_cand [simp]:
  "cnt_prep c' k' qprep (upd_cand c k q f db) = cnt_prep c' k' qprep db"
  "pick_prep c' k' qprep (upd_cand c k q f db) = pick_prep c' k' qprep db"
  "cnt_exec c' k' qexec (upd_cand c k q f db) = cnt_exec c' k' qexec db"
  "pick_exec c' k' qexec (upd_cand c k q f db) = pick_exec c' k' qexec db"
  "cnt_pub c' k' qpub (upd_cand c k q f db) = cnt_pub c' k' qpub db"
  "pick_pub c' k' qpub (upd_cand c k q f db) = pick_pub c' k' qpub db"
  "cnt_step c' k' qstep (upd_cand c k q f db) = cnt_step c' k' qstep db"
  "pick_step c' k' qstep (upd_cand c k q f db) = pick_step c' k' qstep db"
  by (simp_all add: cnt_prep_def pick_prep_def cnt_exec_def pick_exec_def cnt_pub_def pick_pub_def cnt_step_def pick_step_def)

lemma cands_of_upd_cand [simp]:
  assumes "keeps cand_run_id cand_connector_id f"
  shows "cands_of (upd_cand c k q f db) c' k' =
     (if c' = c \<and> k' = k then map (\<lambda>r. if q r then f r else r) (cands_of db c k) else cands_of db c' k')"
  using assms by (simp add: cands_of_def upd_cand_def rows_at_update)

lemma frame_upd_step [simp]:
  "review_runs (upd_step c k q f db) = review_runs db"
  "preparations (upd_step c k q f db) = preparations db"
  "input_bundle_candidates (upd_step c k q f db) = input_bundle_candidates db"
  "executions (upd_step c k q f db) = executions db"
  "publications (upd_step c k q f db) = publications db"
  "review_run_events (upd_step c k q f db) = review_run_events db"
  "next_event_id (upd_step c k q f db) = next_event_id db"
  "run_notices (upd_step c k q f db) = run_notices db"
  "next_notice_id (upd_step c k q f db) = next_notice_id db"
  by (simp_all add: upd_step_def)

lemma lookup_upd_step [simp]:
  "prep_of (upd_step c k q f db) = prep_of db"
  "exec_of (upd_step c k q f db) = exec_of db"
  "pub_of (upd_step c k q f db) = pub_of db"
  "cands_of (upd_step c k q f db) = cands_of db"
  by (simp_all add: fun_eq_iff prep_of_def exec_of_def pub_of_def cands_of_def)

lemma count_upd_step [simp]:
  "cnt_prep c' k' qprep (upd_step c k q f db) = cnt_prep c' k' qprep db"
  "pick_prep c' k' qprep (upd_step c k q f db) = pick_prep c' k' qprep db"
  "cnt_exec c' k' qexec (upd_step c k q f db) = cnt_exec c' k' qexec db"
  "pick_exec c' k' qexec (upd_step c k q f db) = pick_exec c' k' qexec db"
  "cnt_pub c' k' qpub (upd_step c k q f db) = cnt_pub c' k' qpub db"
  "pick_pub c' k' qpub (upd_step c k q f db) = pick_pub c' k' qpub db"
  "cnt_cand c' k' qcand (upd_step c k q f db) = cnt_cand c' k' qcand db"
  "pick_cand c' k' qcand (upd_step c k q f db) = pick_cand c' k' qcand db"
  by (simp_all add: cnt_prep_def pick_prep_def cnt_exec_def pick_exec_def cnt_pub_def pick_pub_def cnt_cand_def pick_cand_def)

lemma steps_of_upd_step [simp]:
  assumes "keeps step_run_id step_connector_id f"
  shows "steps_of (upd_step c k q f db) c' k' =
     (if c' = c \<and> k' = k then map (\<lambda>r. if q r then f r else r) (steps_of db c k) else steps_of db c' k')"
  using assms by (simp add: steps_of_def upd_step_def rows_at_update)

text \<open>A statement that matches no row changes nothing.\<close>

lemma upd_none:
  "cnt_prep c k qprep db = 0 \<Longrightarrow> upd_prep c k qprep fprep db = db"
  "cnt_exec c k qexec db = 0 \<Longrightarrow> upd_exec c k qexec fexec db = db"
  "cnt_pub c k qpub db = 0 \<Longrightarrow> upd_pub c k qpub fpub db = db"
  "cnt_cand c k qcand db = 0 \<Longrightarrow> upd_cand c k qcand fcand db = db"
  "cnt_step c k qstep db = 0 \<Longrightarrow> upd_step c k qstep fstep db = db"
  by (simp_all add: cnt_prep_def upd_prep_def cnt_exec_def upd_exec_def cnt_pub_def upd_pub_def cnt_cand_def upd_cand_def cnt_step_def upd_step_def row_count_0)

end
