(* ===== verification/EventLog.thy ===== *)
theory EventLog
  imports RunTables
begin

text \<open>
  \<^verbatim>\<open>services/review-runs/src/persistence/review-run-events.ts\<close>: the append-only audit log. \<open>appendEvent\<close>
  writes one transition in the caller's transaction and returns the generated id (the ordered read
  \<open>listEvents\<close> is in Queries). \<open>last_state\<close> is the status the log says an axis is in, \<open>chained\<close> that each entry
  of an axis starts where the previous one ended.
\<close>

definition appendEvent ::
  "instant \<Rightarrow> string \<Rightarrow> string \<Rightarrow> axis \<Rightarrow> axis_state option \<Rightarrow> axis_state \<Rightarrow> string option \<Rightarrow> db \<Rightarrow> nat \<times> db"
where
  "appendEvent now c runId ax fromStatus toStatus reasonCode db =
     (next_event_id db,
      db\<lparr>review_run_events := review_run_events db @
           [\<lparr>event_id = next_event_id db, event_run_id = runId, event_connector_id = c,
             event_axis = ax, event_from_status = fromStatus, event_to_status = toStatus,
             event_reason_code = reasonCode, event_occurred_at = now\<rparr>],
         next_event_id := Suc (next_event_id db)\<rparr>)"

text \<open>The same append where the caller ignores the id.\<close>

definition logEvent ::
  "instant \<Rightarrow> string \<Rightarrow> string \<Rightarrow> axis \<Rightarrow> axis_state option \<Rightarrow> axis_state \<Rightarrow> string option \<Rightarrow> db \<Rightarrow> db"
where
  "logEvent now c runId ax fromStatus toStatus reasonCode db =
     snd (appendEvent now c runId ax fromStatus toStatus reasonCode db)"

subsection \<open>Frame rules\<close>

lemma fst_appendEvent [simp]:
  "fst (appendEvent now c runId ax f t rc db) = next_event_id db"
  by (simp add: appendEvent_def)

lemma snd_appendEvent [simp]:
  "snd (appendEvent now c runId ax f t rc db) = logEvent now c runId ax f t rc db"
  by (simp add: logEvent_def)

lemma frame_logEvent [simp]:
  "review_runs (logEvent now c runId ax f t rc db) = review_runs db"
  "preparations (logEvent now c runId ax f t rc db) = preparations db"
  "input_bundle_candidates (logEvent now c runId ax f t rc db) = input_bundle_candidates db"
  "executions (logEvent now c runId ax f t rc db) = executions db"
  "publications (logEvent now c runId ax f t rc db) = publications db"
  "publication_steps (logEvent now c runId ax f t rc db) = publication_steps db"
  "run_notices (logEvent now c runId ax f t rc db) = run_notices db"
  "next_notice_id (logEvent now c runId ax f t rc db) = next_notice_id db"
  "next_event_id (logEvent now c runId ax f t rc db) = Suc (next_event_id db)"
  by (simp_all add: logEvent_def appendEvent_def)

lemma lookup_logEvent [simp]:
  "prep_of (logEvent now c runId ax f t rc db) = prep_of db"
  "exec_of (logEvent now c runId ax f t rc db) = exec_of db"
  "pub_of (logEvent now c runId ax f t rc db) = pub_of db"
  "cands_of (logEvent now c runId ax f t rc db) = cands_of db"
  "steps_of (logEvent now c runId ax f t rc db) = steps_of db"
  by (simp_all add: fun_eq_iff prep_of_def exec_of_def pub_of_def cands_of_def steps_of_def)

lemma count_logEvent [simp]:
  "cnt_prep c' k qp (logEvent now c runId ax f t rc db) = cnt_prep c' k qp db"
  "cnt_exec c' k qe (logEvent now c runId ax f t rc db) = cnt_exec c' k qe db"
  "cnt_pub c' k qb (logEvent now c runId ax f t rc db) = cnt_pub c' k qb db"
  "cnt_cand c' k qc (logEvent now c runId ax f t rc db) = cnt_cand c' k qc db"
  "cnt_step c' k qs (logEvent now c runId ax f t rc db) = cnt_step c' k qs db"
  "pick_prep c' k qp (logEvent now c runId ax f t rc db) = pick_prep c' k qp db"
  "pick_exec c' k qe (logEvent now c runId ax f t rc db) = pick_exec c' k qe db"
  "pick_pub c' k qb (logEvent now c runId ax f t rc db) = pick_pub c' k qb db"
  "pick_step c' k qs (logEvent now c runId ax f t rc db) = pick_step c' k qs db"
  by (simp_all add: cnt_prep_def cnt_exec_def cnt_pub_def cnt_cand_def cnt_step_def
      pick_prep_def pick_exec_def pick_pub_def pick_step_def)

subsection \<open>What the log says\<close>

definition axis_events :: "db \<Rightarrow> string \<Rightarrow> string \<Rightarrow> axis \<Rightarrow> event_row list" where
  "axis_events db c k ax =
     filter (\<lambda>e. event_run_id e = k \<and> event_connector_id e = c \<and> event_axis e = ax) (review_run_events db)"

definition last_state :: "db \<Rightarrow> string \<Rightarrow> string \<Rightarrow> axis \<Rightarrow> axis_state option" where
  "last_state db c k ax =
     (if axis_events db c k ax = [] then None else Some (event_to_status (last (axis_events db c k ax))))"

text \<open>\<open>links s es\<close>: the entries \<open>es\<close> continue from status \<open>s\<close> without a gap.\<close>

fun links :: "axis_state option \<Rightarrow> event_row list \<Rightarrow> bool" where
  "links s [] = True"
| "links s (e # es) = (event_from_status e = s \<and> links (Some (event_to_status e)) es)"

definition chained :: "db \<Rightarrow> string \<Rightarrow> string \<Rightarrow> axis \<Rightarrow> bool" where
  "chained db c k ax = links None (axis_events db c k ax)"

lemma axis_events_logEvent [simp]:
  "axis_events (logEvent now c k ax f t rc db) c' k' ax' =
     axis_events db c' k' ax' @
       (if c' = c \<and> k' = k \<and> ax' = ax
        then [\<lparr>event_id = next_event_id db, event_run_id = k, event_connector_id = c, event_axis = ax,
               event_from_status = f, event_to_status = t, event_reason_code = rc,
               event_occurred_at = now\<rparr>]
        else [])"
  by (simp add: axis_events_def logEvent_def appendEvent_def)

lemma last_state_logEvent [simp]:
  "last_state (logEvent now c k ax f t rc db) c' k' ax' =
     (if c' = c \<and> k' = k \<and> ax' = ax then Some t else last_state db c' k' ax')"
  by (simp add: last_state_def)

lemma links_append:
  "links s (es @ [e]) \<longleftrightarrow>
     links s es \<and> event_from_status e = (if es = [] then s else Some (event_to_status (last es)))"
  by (induction es arbitrary: s) auto

lemma chained_logEvent [simp]:
  "chained (logEvent now c k ax f t rc db) c' k' ax' \<longleftrightarrow>
     chained db c' k' ax' \<and> (c' = c \<and> k' = k \<and> ax' = ax \<longrightarrow> f = last_state db c k ax)"
  by (auto simp: chained_def links_append last_state_def)

lemma log_same_events:
  assumes "review_run_events db' = review_run_events db"
  shows "last_state db' = last_state db" "chained db' = chained db" "axis_events db' = axis_events db"
  using assms by (simp_all add: fun_eq_iff axis_events_def last_state_def chained_def)

lemma log_upd [simp]:
  "last_state (upd_prep c k qp fp db) = last_state db" "chained (upd_prep c k qp fp db) = chained db"
  "last_state (upd_exec c k qe fe db) = last_state db" "chained (upd_exec c k qe fe db) = chained db"
  "last_state (upd_pub c k qb fb db) = last_state db" "chained (upd_pub c k qb fb db) = chained db"
  "last_state (upd_cand c k qc fc db) = last_state db" "chained (upd_cand c k qc fc db) = chained db"
  "last_state (upd_step c k qs fs db) = last_state db" "chained (upd_step c k qs fs db) = chained db"
  "axis_events (upd_prep c k qp fp db) = axis_events db" "axis_events (upd_exec c k qe fe db) = axis_events db"
  "axis_events (upd_pub c k qb fb db) = axis_events db" "axis_events (upd_cand c k qc fc db) = axis_events db"
  "axis_events (upd_step c k qs fs db) = axis_events db"
  by (rule log_same_events; simp)+

end
