(* ===== verification/RunNotices.thy ===== *)
theory RunNotices
  imports EventLog
begin

text \<open>
  \<^verbatim>\<open>services/review-runs/src/persistence/run-notices.ts\<close>: the outbox of user-visible consequences. A
  notice is queued once per source event, superseded when an operator resumes the axis it reports,
  and delivered under a claim token. \<open>locked\<close> is the set of rows other transactions hold
  (\<^verbatim>\<open>FOR UPDATE ... SKIP LOCKED\<close>).
\<close>

definition upd_notice :: "(notice_row \<Rightarrow> bool) \<Rightarrow> (notice_row \<Rightarrow> notice_row) \<Rightarrow> db \<Rightarrow> db" where
  "upd_notice q f db = db\<lparr>run_notices := map (\<lambda>r. if q r then f r else r) (run_notices db)\<rparr>"

definition cnt_notice :: "(notice_row \<Rightarrow> bool) \<Rightarrow> db \<Rightarrow> nat" where
  "cnt_notice q db = length (filter q (run_notices db))"

definition queueRunNotice ::
  "instant \<Rightarrow> string \<Rightarrow> string \<Rightarrow> nat \<Rightarrow> notice_kind \<Rightarrow> axis \<Rightarrow> string option \<Rightarrow> db \<Rightarrow> db" where
  "queueRunNotice now c runId sourceEventId kind ax reasonCode db =
     (if \<exists>n \<in> set (run_notices db). notice_source_event_id n = sourceEventId then db
      else db\<lparr>run_notices := run_notices db @
           [\<lparr>notice_id = next_notice_id db, notice_run_id = runId, notice_connector_id = c,
             notice_kind = kind, notice_source_event_id = sourceEventId,
             notice_status = NoticePending, notice_axis = ax, notice_reason_code = reasonCode,
             notice_comment_url = None, notice_claim_token = None, notice_claimed_at = None,
             notice_created_at = now, notice_updated_at = now\<rparr>],
         next_notice_id := Suc (next_notice_id db)\<rparr>)"

definition supersedeRunAttentionNotices :: "instant \<Rightarrow> string \<Rightarrow> string \<Rightarrow> axis \<Rightarrow> db \<Rightarrow> db" where
  "supersedeRunAttentionNotices now c runId ax db =
     upd_notice
       (\<lambda>n. notice_run_id n = runId \<and> notice_connector_id n = c \<and> notice_axis n = ax \<and>
            notice_kind n = NoticeAttention \<and> notice_status n \<in> {NoticePending, NoticeDelivering})
       (\<lambda>n. n\<lparr>notice_status := NoticeSuperseded, notice_claim_token := None,
              notice_claimed_at := None, notice_updated_at := now\<rparr>) db"

record notice_work =
  nw_notice_id :: nat
  nw_run_id :: string
  nw_input :: json
  nw_kind :: notice_kind
  nw_axis :: axis
  nw_reason_code :: "string option"
  nw_status :: notice_state
  nw_claim_token :: uuid

definition notice_claimable :: "store_cfg \<Rightarrow> instant \<Rightarrow> notice_row \<Rightarrow> bool" where
  "notice_claimable cfg now n \<longleftrightarrow>
     notice_connector_id n = connectorId cfg \<and>
     (notice_status n = NoticePending \<or>
      notice_status n = NoticeDelivering \<and> lease_expired cfg now (notice_claimed_at n))"

definition notice_candidate ::
  "store_cfg \<Rightarrow> instant \<Rightarrow> (nat \<Rightarrow> bool) \<Rightarrow> db \<Rightarrow> notice_row option" where
  "notice_candidate cfg now locked db =
     (case sort_key (\<lambda>n. (notice_updated_at n, notice_run_id n))
             (filter (\<lambda>n. notice_claimable cfg now n \<and> \<not> locked (notice_id n)) (run_notices db)) of
        [] \<Rightarrow> None | n # _ \<Rightarrow> Some n)"

definition claimNextNotice ::
  "store_cfg \<Rightarrow> instant \<Rightarrow> (nat \<Rightarrow> bool) \<Rightarrow> uuid \<Rightarrow> db \<Rightarrow> (rr_error + notice_work option) \<times> db" where
  "claimNextNotice cfg now locked token = transaction (\<lambda>db.
     (case notice_candidate cfg now locked db of
        None \<Rightarrow> Inr (None, db)
      | Some w \<Rightarrow>
          (let hit = (\<lambda>n. notice_id n = notice_id w \<and> notice_connector_id n = connectorId cfg \<and>
                          notice_status n = notice_status w \<and>
                          (notice_status w \<noteq> NoticeDelivering \<or>
                           lease_expired cfg now (notice_claimed_at n)))
           in if cnt_notice hit db \<noteq> 1 then Inl (PlainError (''Run notice '' @ nat_string (notice_id w) @ '' could not be claimed.''))
              else Inr (Some \<lparr>nw_notice_id = notice_id w, nw_run_id = notice_run_id w,
                     nw_input = (case prep_of db (notice_connector_id w) (notice_run_id w) of
                                   None \<Rightarrow> JObj [] | Some p \<Rightarrow> prep_input p),
                     nw_kind = notice_kind w, nw_axis = notice_axis w,
                     nw_reason_code = notice_reason_code w, nw_status = notice_status w,
                     nw_claim_token = token\<rparr>,
                   upd_notice hit
                     (\<lambda>n. n\<lparr>notice_status := NoticeDelivering, notice_claim_token := Some token,
                            notice_claimed_at := Some now, notice_updated_at := now\<rparr>) db))))"

definition owns_notice :: "store_cfg \<Rightarrow> nat \<Rightarrow> uuid \<Rightarrow> notice_row \<Rightarrow> bool" where
  "owns_notice cfg noticeId token n \<longleftrightarrow>
     notice_id n = noticeId \<and> notice_connector_id n = connectorId cfg \<and>
     notice_status n = NoticeDelivering \<and> notice_claim_token n = Some token"

definition completeNotice ::
  "store_cfg \<Rightarrow> instant \<Rightarrow> nat \<Rightarrow> uuid \<Rightarrow> bool \<Rightarrow> string option \<Rightarrow> db \<Rightarrow> (rr_error + bool) \<times> db" where
  "completeNotice cfg now noticeId token delivered commentUrl db =
     (if delivered \<and> commentUrl = None then
        (Inl (PlainError (''Run notice '' @ nat_string noticeId @ '' cannot be delivered without a comment_url.'')), db)
      else if \<not> delivered \<and> commentUrl \<noteq> None then
        (Inl (PlainError (''Run notice '' @ nat_string noticeId @ '' cannot carry a comment_url when delivery failed.'')), db)
      else transaction (\<lambda>db.
        Inr (cnt_notice (owns_notice cfg noticeId token) db = 1,
             upd_notice (owns_notice cfg noticeId token)
               (\<lambda>n. n\<lparr>notice_status := (if delivered then NoticeDelivered else NoticeFailed),
                      notice_claim_token := None, notice_claimed_at := None,
                      notice_comment_url := commentUrl, notice_updated_at := now\<rparr>) db)) db)"

definition renewNoticeClaim ::
  "store_cfg \<Rightarrow> instant \<Rightarrow> nat \<Rightarrow> uuid \<Rightarrow> db \<Rightarrow> (rr_error + bool) \<times> db" where
  "renewNoticeClaim cfg now noticeId token db =
     (Inr (cnt_notice (owns_notice cfg noticeId token) db = 1),
      upd_notice (owns_notice cfg noticeId token)
        (\<lambda>n. n\<lparr>notice_claimed_at := Some now, notice_updated_at := now\<rparr>) db)"

definition noticeHeartbeatIntervalMs :: "store_cfg \<Rightarrow> nat" where
  "noticeHeartbeatIntervalMs cfg = max 1 (min 60000 (claimTimeoutMs cfg div 3))"

subsection \<open>Frame rules\<close>

lemma frame_upd_notice [simp]:
  "review_runs (upd_notice q f db) = review_runs db"
  "preparations (upd_notice q f db) = preparations db"
  "input_bundle_candidates (upd_notice q f db) = input_bundle_candidates db"
  "executions (upd_notice q f db) = executions db"
  "publications (upd_notice q f db) = publications db"
  "publication_steps (upd_notice q f db) = publication_steps db"
  "review_run_events (upd_notice q f db) = review_run_events db"
  "next_event_id (upd_notice q f db) = next_event_id db"
  "next_notice_id (upd_notice q f db) = next_notice_id db"
  by (simp_all add: upd_notice_def)

lemma frame_queueRunNotice [simp]:
  "review_runs (queueRunNotice now c k e kd ax rc db) = review_runs db"
  "preparations (queueRunNotice now c k e kd ax rc db) = preparations db"
  "input_bundle_candidates (queueRunNotice now c k e kd ax rc db) = input_bundle_candidates db"
  "executions (queueRunNotice now c k e kd ax rc db) = executions db"
  "publications (queueRunNotice now c k e kd ax rc db) = publications db"
  "publication_steps (queueRunNotice now c k e kd ax rc db) = publication_steps db"
  "review_run_events (queueRunNotice now c k e kd ax rc db) = review_run_events db"
  "next_event_id (queueRunNotice now c k e kd ax rc db) = next_event_id db"
  by (simp_all add: queueRunNotice_def)

lemma frame_supersede [simp]:
  "review_runs (supersedeRunAttentionNotices now c k ax db) = review_runs db"
  "preparations (supersedeRunAttentionNotices now c k ax db) = preparations db"
  "input_bundle_candidates (supersedeRunAttentionNotices now c k ax db) = input_bundle_candidates db"
  "executions (supersedeRunAttentionNotices now c k ax db) = executions db"
  "publications (supersedeRunAttentionNotices now c k ax db) = publications db"
  "publication_steps (supersedeRunAttentionNotices now c k ax db) = publication_steps db"
  "review_run_events (supersedeRunAttentionNotices now c k ax db) = review_run_events db"
  "next_event_id (supersedeRunAttentionNotices now c k ax db) = next_event_id db"
  by (simp_all add: supersedeRunAttentionNotices_def)

text \<open>Notice writes are invisible to every axis and to the log.\<close>

lemma lookup_same_axes:
  assumes "preparations db' = preparations db" "executions db' = executions db"
    "publications db' = publications db" "input_bundle_candidates db' = input_bundle_candidates db"
    "publication_steps db' = publication_steps db"
  shows "prep_of db' = prep_of db" "exec_of db' = exec_of db" "pub_of db' = pub_of db"
    "cands_of db' = cands_of db" "steps_of db' = steps_of db"
  using assms
  by (simp_all add: fun_eq_iff prep_of_def exec_of_def pub_of_def cands_of_def steps_of_def)

lemma lookup_upd_notice [simp]:
  "prep_of (upd_notice q f db) = prep_of db" "exec_of (upd_notice q f db) = exec_of db"
  "pub_of (upd_notice q f db) = pub_of db" "cands_of (upd_notice q f db) = cands_of db"
  "steps_of (upd_notice q f db) = steps_of db"
  "last_state (upd_notice q f db) = last_state db" "chained (upd_notice q f db) = chained db"
  "axis_events (upd_notice q f db) = axis_events db"
  by (rule lookup_same_axes log_same_events; simp)+

lemma lookup_queueRunNotice [simp]:
  "prep_of (queueRunNotice now c k e kd ax rc db) = prep_of db"
  "exec_of (queueRunNotice now c k e kd ax rc db) = exec_of db"
  "pub_of (queueRunNotice now c k e kd ax rc db) = pub_of db"
  "cands_of (queueRunNotice now c k e kd ax rc db) = cands_of db"
  "steps_of (queueRunNotice now c k e kd ax rc db) = steps_of db"
  "last_state (queueRunNotice now c k e kd ax rc db) = last_state db"
  "chained (queueRunNotice now c k e kd ax rc db) = chained db"
  "axis_events (queueRunNotice now c k e kd ax rc db) = axis_events db"
  by (rule lookup_same_axes log_same_events; simp)+

lemma lookup_supersede [simp]:
  "prep_of (supersedeRunAttentionNotices now c k ax db) = prep_of db"
  "exec_of (supersedeRunAttentionNotices now c k ax db) = exec_of db"
  "pub_of (supersedeRunAttentionNotices now c k ax db) = pub_of db"
  "cands_of (supersedeRunAttentionNotices now c k ax db) = cands_of db"
  "steps_of (supersedeRunAttentionNotices now c k ax db) = steps_of db"
  "last_state (supersedeRunAttentionNotices now c k ax db) = last_state db"
  "chained (supersedeRunAttentionNotices now c k ax db) = chained db"
  "axis_events (supersedeRunAttentionNotices now c k ax db) = axis_events db"
  by (rule lookup_same_axes log_same_events; simp)+

end
