(* ===== verification/RunRecord.thy ===== *)
theory RunRecord
  imports RunNotices
begin

text \<open>
  \<^verbatim>\<open>services/review-runs/src/persistence/run-record-projection.ts\<close> and the artifact narrowing of
  \<^verbatim>\<open>shapes.ts\<close>: the cross-axis read \<open>run_select\<close> (one trunk row joined to its three axis rows, the
  executions and preparations by LEFT JOIN), its projection \<open>rowToRecord\<close>, which throws on a missing
  axis row, and \<open>findRunRecord\<close>.
\<close>

subsection \<open>Artifact storage\<close>

text \<open>The Execution API's loose record: \<^verbatim>\<open>null\<close> and \<^verbatim>\<open>undefined\<close> are both \<open>None\<close>. The status is a JSON value: the type says
  string, the client's check (ExecutionClient) lets a little more through.\<close>

record execution_artifact_storage =
  ast_status :: json
  ast_artifact :: "json option"
  ast_error_code :: "string option"
  ast_message :: "string option"

definition normalizeArtifactStorage ::
  "execution_artifact_storage option \<Rightarrow> string \<Rightarrow> rr_error + artifact_storage option" where
  "normalizeArtifactStorage storage ctx =
     (case storage of
        None \<Rightarrow> Inr None
      | Some s \<Rightarrow>
          if ast_status s = JStr ''available'' then
            (case ast_artifact s of
               None \<Rightarrow> Inl (PlainError (ctx @ '' is an available artifact storage record without its artifact reference; it does not satisfy the contract.''))
             | Some a \<Rightarrow> Inr (Some (StorageAvailable a)))
          else Inr (Some (StorageOther (ast_status s) (ast_error_code s) (ast_message s))))"

text \<open>A stored value as the read path sees it again.\<close>

fun stored_artifact :: "artifact_storage \<Rightarrow> execution_artifact_storage" where
  "stored_artifact (StorageAvailable a) =
     \<lparr>ast_status = JStr ''available'', ast_artifact = Some a, ast_error_code = None, ast_message = None\<rparr>"
| "stored_artifact (StorageOther st ec m) =
     \<lparr>ast_status = st, ast_artifact = None, ast_error_code = ec, ast_message = m\<rparr>"

subsection \<open>The cross-axis read\<close>

record notice_summary =
  ns_notice_id :: nat
  ns_kind :: notice_kind
  ns_axis :: axis
  ns_status :: notice_state
  ns_reason_code :: "string option"
  ns_comment_url :: "string option"

record run_row =
  row_trunk :: review_run_row
  row_publication :: publication_row
  row_execution :: "execution_row option"
  row_preparation :: "preparation_row option"
  row_notices :: "notice_summary list"

definition notice_rows :: "db \<Rightarrow> string \<Rightarrow> string \<Rightarrow> notice_row list" where
  "notice_rows db c k =
     filter (\<lambda>n. notice_run_id n = k \<and> notice_connector_id n = c) (run_notices db)"

definition summarize_notice :: "notice_row \<Rightarrow> notice_summary" where
  "summarize_notice n =
     \<lparr>ns_notice_id = notice_id n, ns_kind = notice_kind n, ns_axis = notice_axis n,
      ns_status = notice_status n, ns_reason_code = notice_reason_code n,
      ns_comment_url = notice_comment_url n\<rparr>"

definition run_select_of :: "db \<Rightarrow> review_run_row \<Rightarrow> run_row list" where
  "run_select_of db r =
     (let c = rr_connector_id r; k = rr_run_id r in
      case pub_of db c k of
        None \<Rightarrow> []
      | Some b \<Rightarrow>
          [\<lparr>row_trunk = r, row_publication = b, row_execution = exec_of db c k,
            row_preparation = prep_of db c k,
            row_notices = map summarize_notice
              (sort_key (\<lambda>n. (notice_created_at n, notice_id n)) (notice_rows db c k))\<rparr>])"

definition run_select :: "db \<Rightarrow> run_row list" where
  "run_select db = concat (map (run_select_of db) (review_runs db))"

subsection \<open>The record\<close>

definition isoOrNull :: "instant option \<Rightarrow> instant option" where
  "isoOrNull t = map_option iso t"

record preparation_summary =
  ps_status :: prep_state
  ps_attempt_count :: nat
  ps_started_at :: "instant option"
  ps_finished_at :: "instant option"
  ps_updated_at :: instant
  ps_failure_code :: "string option"
  ps_disconnect_reason :: "string option"

record 's axis_summary =
  as_status :: 's
  as_started_at :: "instant option"
  as_finished_at :: "instant option"
  as_updated_at :: instant

record review_run_record =
  rec_run_id :: string
  rec_workflow :: workflow_name
  rec_source_platform :: string
  rec_connector_id :: string
  rec_publish_context :: json
  rec_execution_input :: "json option"
  rec_preparation :: preparation_summary
  rec_execution :: "exec_state axis_summary"
  rec_publication :: "pub_state axis_summary"
  rec_created_at :: instant
  rec_failure_code :: "string option"
  rec_failure_message :: "string option"
  rec_artifact_storage :: "artifact_storage option"
  rec_notices :: "notice_summary list"
  rec_ingress_kind :: "string option"
  rec_ingress_key :: "string option"

text \<open>\<^verbatim>\<open>...(x ? { f: x } : {})\<close>: the empty string is falsy.\<close>

definition if_truthy :: "string option \<Rightarrow> string option" where
  "if_truthy x = (if x = Some [] then None else x)"

definition rowToRecord :: "run_row \<Rightarrow> rr_error + review_run_record" where
  "rowToRecord row =
     (let r = row_trunk row; b = row_publication row in
      case row_execution row of
        None \<Rightarrow> Inl (PlainError (''run '' @ rr_run_id r @ '' has no executions row''))
      | Some e \<Rightarrow>
      (case row_preparation row of
        None \<Rightarrow> Inl (PlainError (''run '' @ rr_run_id r @ '' has no preparations row''))
      | Some p \<Rightarrow>
      (case normalizeArtifactStorage (map_option stored_artifact (exec_artifact_storage e))
              (''run '' @ rr_run_id r) of
        Inl err \<Rightarrow> Inl err
      | Inr storage \<Rightarrow>
          Inr \<lparr>rec_run_id = rr_run_id r, rec_workflow = rr_workflow r,
               rec_source_platform = rr_source_platform r, rec_connector_id = rr_connector_id r,
               rec_publish_context = pub_input b, rec_execution_input = exec_input e,
               rec_preparation =
                 \<lparr>ps_status = prep_status p, ps_attempt_count = prep_attempt_count p,
                  ps_started_at = isoOrNull (prep_started_at p),
                  ps_finished_at = isoOrNull (prep_finished_at p),
                  ps_updated_at = iso (prep_updated_at p), ps_failure_code = prep_failure_code p,
                  ps_disconnect_reason = prep_disconnect_reason p\<rparr>,
               rec_execution =
                 \<lparr>as_status = exec_status e, as_started_at = isoOrNull (exec_started_at e),
                  as_finished_at = isoOrNull (exec_finished_at e),
                  as_updated_at = iso (exec_observed_at e)\<rparr>,
               rec_publication =
                 \<lparr>as_status = pub_status b, as_started_at = isoOrNull (pub_started_at b),
                  as_finished_at = isoOrNull (pub_finished_at b),
                  as_updated_at = iso (pub_updated_at b)\<rparr>,
               rec_created_at = iso (rr_created_at r),
               rec_failure_code =
                 (if pub_status b = PubFailed then pub_failure_code b
                  else coalesce2 (exec_failure_code e) (prep_failure_code p)),
               rec_failure_message =
                 (if pub_status b = PubFailed then pub_failure_message b
                  else coalesce2 (exec_failure_message e) (prep_failure_message p)),
               rec_artifact_storage = storage, rec_notices = row_notices row,
               rec_ingress_kind = if_truthy (rr_ingress_kind r),
               rec_ingress_key = if_truthy (rr_ingress_key r)\<rparr>)))"

definition findRunRow :: "db \<Rightarrow> string \<Rightarrow> string \<Rightarrow> run_row option" where
  "findRunRow db c k =
     find (\<lambda>row. rr_run_id (row_trunk row) = k \<and> rr_connector_id (row_trunk row) = c) (run_select db)"

definition findRunRecord :: "db \<Rightarrow> string \<Rightarrow> string \<Rightarrow> rr_error + review_run_record option" where
  "findRunRecord db c k =
     (case findRunRow db c k of
        None \<Rightarrow> Inr None
      | Some row \<Rightarrow> (case rowToRecord row of Inl e \<Rightarrow> Inl e | Inr r \<Rightarrow> Inr (Some r)))"

text \<open>The closing read of the operator decisions: the record, or the error the caller names.\<close>

definition recordOrThrow :: "string \<Rightarrow> db \<Rightarrow> string \<Rightarrow> string \<Rightarrow> rr_error + review_run_record" where
  "recordOrThrow msg db c k =
     (case findRunRecord db c k of
        Inl e \<Rightarrow> Inl e | Inr None \<Rightarrow> Inl (PlainError msg) | Inr (Some r) \<Rightarrow> Inr r)"

subsection \<open>Storage facts\<close>

text \<open>A storage value that went through the write-side narrowing reads back unchanged.\<close>

fun storage_ok :: "artifact_storage \<Rightarrow> bool" where
  "storage_ok (StorageAvailable a) = True"
| "storage_ok (StorageOther st ec m) = (st \<noteq> JStr ''available'')"

lemma normalize_storage_ok:
  "normalizeArtifactStorage s ctx = Inr (Some v) \<Longrightarrow> storage_ok v"
  by (auto simp: normalizeArtifactStorage_def split: option.splits if_splits)

lemma normalize_storage_readable: "normalizeArtifactStorage s ctx = Inr v \<Longrightarrow> pred_option storage_ok v"
  by (cases v) (auto dest: normalize_storage_ok)

lemma normalize_stored:
  "storage_ok v \<Longrightarrow> normalizeArtifactStorage (Some (stored_artifact v)) ctx = Inr (Some v)"
  by (cases v) (auto simp: normalizeArtifactStorage_def)

lemma normalize_some: "normalizeArtifactStorage (Some s) ctx \<noteq> Inr None"
  by (auto simp: normalizeArtifactStorage_def split: option.splits)

lemma find_append_if:
  "find P (xs @ ys) = (case find P xs of None \<Rightarrow> find P ys | Some x \<Rightarrow> Some x)"
  by (induction xs) auto

text \<open>The lookup by primary key sees the trunk row joined with its axes.\<close>

lemma find_run_select_of:
  "find (\<lambda>row. rr_run_id (row_trunk row) = k \<and> rr_connector_id (row_trunk row) = c) (run_select_of db r) =
     (if rr_run_id r = k \<and> rr_connector_id r = c \<and> pub_of db c k \<noteq> None
      then Some (hd (run_select_of db r)) else None)"
  by (auto simp: run_select_of_def Let_def split: option.splits)

lemma findRunRow_select:
  "findRunRow db c k =
     (if pub_of db c k = None then None
      else map_option (\<lambda>r. hd (run_select_of db r)) (select_row rr_run_id rr_connector_id c k (review_runs db)))"
proof -
  have "find (\<lambda>row. rr_run_id (row_trunk row) = k \<and> rr_connector_id (row_trunk row) = c)
      (concat (map (run_select_of db) rs)) =
     (if pub_of db c k = None then None
      else map_option (\<lambda>r. hd (run_select_of db r)) (select_row rr_run_id rr_connector_id c k rs))" for rs
    by (induction rs) (auto simp: find_append_if find_run_select_of select_row_def at_key_def)
  then show ?thesis by (simp add: findRunRow_def run_select_def)
qed

end
