(* ===== verification/RunInvariant.thy ===== *)
theory RunInvariant
  imports RunRecord
begin

text \<open>
  The invariant of the store. \<open>keys_ok\<close> and \<open>ids_ok\<close> are the primary, foreign and unique keys of the
  schema; the \<open>..._check\<close> predicates are its CHECK constraints; \<open>axes_ok\<close> is how the three axes of one
  run may stand to each other, \<open>steps_ok\<close> what the publication steps say about their publication,
  \<open>cands_ok\<close> that one input at most is selected and that it is the execution's input, \<open>audit_ok\<close> that the log ends
  where the snapshot is, and \<open>told_ok\<close> that a run's failure or parking has its notice. Each store
  proves that its operations keep \<open>db_inv\<close>. No state of the program evaluates these predicates; they
  are the contract between the stores.
\<close>

subsection \<open>Budgets\<close>

definition MAX_PREPARATION_ATTEMPTS :: nat where
  [simp]: "MAX_PREPARATION_ATTEMPTS = 8"

definition MAX_PUBLICATION_STEP_ATTEMPTS :: nat where
  [simp]: "MAX_PUBLICATION_STEP_ATTEMPTS = 3"

definition MAX_PUBLICATION_STEP_RECOVERY_ATTEMPTS :: nat where
  [simp]: "MAX_PUBLICATION_STEP_RECOVERY_ATTEMPTS = 3"

subsection \<open>CHECK constraints\<close>

definition prep_check :: "preparation_row \<Rightarrow> bool" where
  "prep_check p \<longleftrightarrow>
     (if prep_status p = PrepPreparing then prep_claim_token p \<noteq> None \<and> prep_claimed_at p \<noteq> None
      else prep_claim_token p = None \<and> prep_claimed_at p = None) \<and>
     ((prep_status p = PrepDisconnected) = (prep_disconnect_reason p \<noteq> None)) \<and>
     (case prep_status p of
        PrepPending \<Rightarrow> prep_finished_at p = None
      | PrepPreparing \<Rightarrow> prep_started_at p \<noteq> None \<and> prep_finished_at p = None
      | PrepUncertain \<Rightarrow> prep_started_at p \<noteq> None \<and> prep_finished_at p = None
      | PrepDisconnected \<Rightarrow> prep_started_at p \<noteq> None \<and> prep_finished_at p = None
      | _ \<Rightarrow> prep_started_at p \<noteq> None \<and> prep_finished_at p \<noteq> None)"

definition exec_check :: "execution_row \<Rightarrow> bool" where
  "exec_check e \<longleftrightarrow>
     (exec_claim_token e = None \<and> exec_claimed_at e = None \<or>
      exec_status e = ExecUncertain \<and> exec_claim_token e \<noteq> None \<and> exec_claimed_at e \<noteq> None) \<and>
     (case exec_status e of
        ExecPending \<Rightarrow> exec_started_at e = None \<and> exec_finished_at e = None
      | ExecUncertain \<Rightarrow> exec_started_at e = None \<and> exec_finished_at e = None
      | ExecDisconnected \<Rightarrow> exec_started_at e = None \<and> exec_finished_at e = None
      | ExecQueued \<Rightarrow> exec_started_at e \<noteq> None \<and> exec_finished_at e = None
      | ExecRunning \<Rightarrow> exec_started_at e \<noteq> None \<and> exec_finished_at e = None
      | _ \<Rightarrow> exec_finished_at e \<noteq> None)"

definition pub_check :: "publication_row \<Rightarrow> bool" where
  "pub_check b \<longleftrightarrow>
     (case pub_status b of
        PubPending \<Rightarrow> pub_finished_at b = None
      | PubPublishing \<Rightarrow> pub_started_at b \<noteq> None \<and> pub_finished_at b = None
      | PubUncertain \<Rightarrow> pub_started_at b \<noteq> None \<and> pub_finished_at b = None
      | PubDisconnected \<Rightarrow> pub_started_at b \<noteq> None \<and> pub_finished_at b = None
      | PubSkipped \<Rightarrow> pub_finished_at b \<noteq> None
      | _ \<Rightarrow> pub_started_at b \<noteq> None \<and> pub_finished_at b \<noteq> None)"

definition hex_digit :: "char \<Rightarrow> bool" where
  "hex_digit x \<longleftrightarrow> x \<in> set ''0123456789abcdef''"

definition digest_format :: "string \<Rightarrow> bool" where
  "digest_format d \<longleftrightarrow> take 7 d = ''sha256:'' \<and> length d = 71 \<and> list_all hex_digit (drop 7 d)"

text \<open>\<^verbatim>\<open>j->>'k' = s\<close> and \<^verbatim>\<open>j->'k' = v\<close>; a missing key is NULL and fails the CHECK's \<^verbatim>\<open>IS NOT NULL\<close>.\<close>

definition cand_check :: "candidate_row \<Rightarrow> bool" where
  "cand_check x \<longleftrightarrow>
     digest_format (cand_digest x) \<and> json_is_object (cand_reference x) \<and>
     json_is_object (cand_input x) \<and> json_is_object (cand_publish_context x) \<and>
     json_field (cand_reference x) ''digest'' = Some (JStr (cand_digest x)) \<and>
     json_field (cand_input x) ''input_bundle'' = Some (cand_reference x)"

definition notice_check :: "notice_row \<Rightarrow> bool" where
  "notice_check n \<longleftrightarrow>
     (if notice_status n = NoticeDelivering then notice_claim_token n \<noteq> None \<and> notice_claimed_at n \<noteq> None
      else notice_claim_token n = None \<and> notice_claimed_at n = None)"

subsection \<open>Keys\<close>

definition keys_ok :: "db \<Rightarrow> bool" where
  "keys_ok db \<longleftrightarrow>
     distinct (map rr_run_id (review_runs db)) \<and>
     map prep_run_id (preparations db) = map rr_run_id (review_runs db) \<and>
     map exec_run_id (executions db) = map rr_run_id (review_runs db) \<and>
     map pub_run_id (publications db) = map rr_run_id (review_runs db) \<and>
     map prep_connector_id (preparations db) = map rr_connector_id (review_runs db) \<and>
     map exec_connector_id (executions db) = map rr_connector_id (review_runs db) \<and>
     map pub_connector_id (publications db) = map rr_connector_id (review_runs db) \<and>
     distinct (map (\<lambda>s. (step_connector_id s, step_run_id s, step_key s)) (publication_steps db)) \<and>
     distinct (map (\<lambda>x. (cand_run_id x, cand_digest x)) (input_bundle_candidates db)) \<and>
     distinct (map (\<lambda>r. (rr_connector_id r, rr_ingress_kind r, rr_ingress_key r))
       (filter (\<lambda>r. rr_ingress_kind r \<noteq> None \<and> rr_ingress_key r \<noteq> None) (review_runs db)))"

definition ids_ok :: "db \<Rightarrow> bool" where
  "ids_ok db \<longleftrightarrow>
     distinct (map event_id (review_run_events db)) \<and>
     (\<forall>e \<in> set (review_run_events db). event_id e < next_event_id db) \<and>
     distinct (map notice_id (run_notices db)) \<and>
     (\<forall>n \<in> set (run_notices db). notice_id n < next_notice_id db) \<and>
     distinct (map notice_source_event_id (run_notices db)) \<and>
     notice_source_event_id ` set (run_notices db) \<subseteq> event_id ` set (review_run_events db) \<and>
     (\<forall>n \<in> set (run_notices db). notice_check n)"

subsection \<open>One run\<close>

definition prep_budget :: "preparation_row \<Rightarrow> bool" where
  "prep_budget p \<longleftrightarrow>
     prep_attempt_count p \<le> MAX_PREPARATION_ATTEMPTS \<and>
     (prep_status p \<in> {PrepPending, PrepUncertain} \<longrightarrow> prep_attempt_count p < MAX_PREPARATION_ATTEMPTS)"

definition pub_active :: "pub_state set" where
  [simp]: "pub_active = {PubPublishing, PubUncertain, PubDisconnected}"

definition pub_owned :: "publication_row \<Rightarrow> bool" where
  "pub_owned b \<longleftrightarrow>
     ((pub_claim_token b \<noteq> None) = (pub_status b \<in> pub_active)) \<and>
     (pub_status b \<in> pub_active \<longrightarrow> pub_claimed_at b \<noteq> None)"

definition axes_ok :: "prep_state \<Rightarrow> exec_state \<Rightarrow> pub_state \<Rightarrow> bool" where
  "axes_ok ps es bs \<longleftrightarrow>
     ps \<noteq> PrepDisconnected \<and>
     (ps \<in> {PrepPending, PrepPreparing, PrepUncertain} \<longleftrightarrow> es = ExecPending) \<and>
     (ps = PrepSubmitted \<longrightarrow> es \<in> {ExecQueued, ExecRunning, ExecSucceeded, ExecFailed}) \<and>
     (es \<in> {ExecPending, ExecQueued, ExecRunning, ExecUncertain, ExecDisconnected} \<longrightarrow> bs = PubPending) \<and>
     (es \<in> {ExecSkipped, ExecFailed} \<longleftrightarrow> bs = PubSkipped)"

definition step_ok :: "step_row \<Rightarrow> bool" where
  "step_ok s \<longleftrightarrow>
     step_attempt_count s \<le> MAX_PUBLICATION_STEP_ATTEMPTS \<and>
     step_recovery_attempt_count s \<le> MAX_PUBLICATION_STEP_RECOVERY_ATTEMPTS \<and>
     ((step_claimed_by s \<noteq> None) = (step_status s = StepRunning)) \<and>
     (step_status s = StepRunning \<longrightarrow> 0 < step_attempt_count s) \<and>
     (step_status s \<in> {StepUncertain, StepDisconnected} \<longrightarrow>
        step_attempt_count s = MAX_PUBLICATION_STEP_ATTEMPTS) \<and>
     (step_status s \<noteq> StepDisconnected \<longrightarrow>
        step_recovery_attempt_count s < MAX_PUBLICATION_STEP_RECOVERY_ATTEMPTS)"

definition steps_ok :: "exec_state \<Rightarrow> pub_state \<Rightarrow> step_row list \<Rightarrow> bool" where
  "steps_ok es bs ss \<longleftrightarrow>
     (\<forall>s \<in> set ss. step_ok s) \<and>
     (es \<noteq> ExecSucceeded \<longrightarrow> ss = []) \<and>
     (bs = PubPublished \<longrightarrow> (\<forall>s \<in> set ss. step_status s = StepSucceeded)) \<and>
     (bs \<in> {PubPublishing, PubUncertain} \<longrightarrow> (\<forall>s \<in> set ss. step_status s \<noteq> StepDisconnected)) \<and>
     (bs = PubUncertain \<longrightarrow> (\<exists>s \<in> set ss. step_status s = StepUncertain)) \<and>
     (bs = PubDisconnected \<longrightarrow> (\<exists>s \<in> set ss. step_status s = StepDisconnected))"

definition cands_ok :: "json option \<Rightarrow> candidate_row list \<Rightarrow> bool" where
  "cands_ok inp xs \<longleftrightarrow>
     (\<forall>x \<in> set xs. cand_check x) \<and>
     length (filter (\<lambda>x. cand_status x = CandSelected) xs) \<le> 1 \<and>
     (\<forall>x \<in> set xs. cand_status x = CandSelected \<longrightarrow> inp = Some (cand_input x))"

definition audit_ok :: "db \<Rightarrow> string \<Rightarrow> string \<Rightarrow> prep_state \<Rightarrow> exec_state \<Rightarrow> pub_state \<Rightarrow> bool" where
  "audit_ok db c k ps es bs \<longleftrightarrow>
     last_state db c k AxisPreparation = Some (PrepS ps) \<and>
     last_state db c k AxisExecution = Some (ExecS es) \<and>
     last_state db c k AxisPublication = Some (PubS bs) \<and>
     chained db c k AxisPreparation \<and> chained db c k AxisExecution"

definition run_failed :: "exec_state \<Rightarrow> pub_state \<Rightarrow> bool" where
  "run_failed es bs \<longleftrightarrow> es \<in> {ExecSkipped, ExecFailed} \<or> bs = PubFailed"

definition is_failure :: "notice_row \<Rightarrow> bool" where
  "is_failure n \<longleftrightarrow> notice_kind n = NoticeFailure"

definition attention :: "axis \<Rightarrow> notice_row \<Rightarrow> bool" where
  "attention ax n \<longleftrightarrow> notice_kind n = NoticeAttention \<and> notice_axis n = ax \<and> notice_status n \<noteq> NoticeSuperseded"

definition told_ok :: "exec_state \<Rightarrow> pub_state \<Rightarrow> notice_row list \<Rightarrow> bool" where
  "told_ok es bs ns \<longleftrightarrow>
     length (filter is_failure ns) = (if run_failed es bs then 1 else 0) \<and>
     (es = ExecDisconnected \<longrightarrow> (\<exists>n \<in> set ns. attention AxisExecution n)) \<and>
     (bs = PubDisconnected \<longrightarrow> (\<exists>n \<in> set ns. attention AxisPublication n))"

text \<open>The three faces of a run: its rows, its history, its notices. A run that does not exist has none.\<close>

definition rows_ok :: "db \<Rightarrow> string \<Rightarrow> string \<Rightarrow> bool" where
  "rows_ok db c k =
     (case (prep_of db c k, exec_of db c k, pub_of db c k) of
        (Some p, Some e, Some b) \<Rightarrow>
          prep_check p \<and> prep_budget p \<and> exec_check e \<and> pub_check b \<and> pub_owned b \<and>
          axes_ok (prep_status p) (exec_status e) (pub_status b) \<and>
          steps_ok (exec_status e) (pub_status b) (steps_of db c k) \<and>
          cands_ok (exec_input e) (cands_of db c k)
      | (None, None, None) \<Rightarrow> steps_of db c k = [] \<and> cands_of db c k = []
      | _ \<Rightarrow> False)"

definition audited :: "db \<Rightarrow> string \<Rightarrow> string \<Rightarrow> bool" where
  "audited db c k =
     (case (prep_of db c k, exec_of db c k, pub_of db c k) of
        (Some p, Some e, Some b) \<Rightarrow> audit_ok db c k (prep_status p) (exec_status e) (pub_status b)
      | _ \<Rightarrow> (\<forall>ax. axis_events db c k ax = []))"

definition told :: "db \<Rightarrow> string \<Rightarrow> string \<Rightarrow> bool" where
  "told db c k =
     (case (exec_of db c k, pub_of db c k) of
        (Some e, Some b) \<Rightarrow> told_ok (exec_status e) (pub_status b) (notice_rows db c k)
      | _ \<Rightarrow> notice_rows db c k = [])"

definition run_ok :: "db \<Rightarrow> string \<Rightarrow> string \<Rightarrow> bool" where
  "run_ok db c k \<longleftrightarrow> rows_ok db c k \<and> audited db c k \<and> told db c k"

lemmas run_defs = rows_ok_def audited_def told_def

definition db_inv :: "db \<Rightarrow> bool" where
  "db_inv db \<longleftrightarrow> keys_ok db \<and> ids_ok db \<and> (\<forall>c k. run_ok db c k)"

lemma invI:
  assumes "keys_ok db" "ids_ok db" "\<And>c k. run_ok db c k"
  shows "db_inv db"
  using assms by (simp add: db_inv_def)

lemma invD: "db_inv db \<Longrightarrow> keys_ok db" "db_inv db \<Longrightarrow> ids_ok db" "db_inv db \<Longrightarrow> run_ok db c k"
  by (simp_all add: db_inv_def)

text \<open>A look-up that finds one axis row of a run finds all three.\<close>

lemma run_okE:
  assumes "run_ok db c k"
  obtains (absent) "prep_of db c k = None" "exec_of db c k = None" "pub_of db c k = None"
      "steps_of db c k = []" "cands_of db c k = []" "notice_rows db c k = []" "\<And>ax. axis_events db c k ax = []"
  | (run) p e b where "prep_of db c k = Some p" "exec_of db c k = Some e" "pub_of db c k = Some b"
      "prep_check p" "prep_budget p" "exec_check e" "pub_check b" "pub_owned b"
      "axes_ok (prep_status p) (exec_status e) (pub_status b)"
      "steps_ok (exec_status e) (pub_status b) (steps_of db c k)"
      "cands_ok (exec_input e) (cands_of db c k)"
      "audit_ok db c k (prep_status p) (exec_status e) (pub_status b)"
      "told_ok (exec_status e) (pub_status b) (notice_rows db c k)"
  using assms by (auto simp: run_ok_def run_defs split: option.splits)

subsection \<open>Statement counts under the primary keys\<close>

lemma cnt_axis:
  assumes "keys_ok db"
  shows "cnt_prep c k qp db = (case prep_of db c k of None \<Rightarrow> 0 | Some r \<Rightarrow> if qp r then 1 else 0)"
    "cnt_exec c k qe db = (case exec_of db c k of None \<Rightarrow> 0 | Some r \<Rightarrow> if qe r then 1 else 0)"
    "cnt_pub c k qb db = (case pub_of db c k of None \<Rightarrow> 0 | Some r \<Rightarrow> if qb r then 1 else 0)"
  using assms
  by (simp_all add: keys_ok_def cnt_prep_def cnt_exec_def cnt_pub_def prep_of_def exec_of_def pub_of_def
      row_count_pk)

lemma pick_axis:
  assumes "keys_ok db"
  shows "pick_prep c k qp db = Option.bind (prep_of db c k) (\<lambda>r. if qp r then Some r else None)"
    "pick_exec c k qe db = Option.bind (exec_of db c k) (\<lambda>r. if qe r then Some r else None)"
    "pick_pub c k qb db = Option.bind (pub_of db c k) (\<lambda>r. if qb r then Some r else None)"
  using assms
  by (simp_all add: keys_ok_def pick_prep_def pick_exec_def pick_pub_def prep_of_def exec_of_def pub_of_def
      pick_row_pk)

lemma pick_axis_Some:
  assumes "keys_ok db"
  shows "pick_prep c k qp db = Some p \<longleftrightarrow> prep_of db c k = Some p \<and> qp p"
    "pick_exec c k qe db = Some e \<longleftrightarrow> exec_of db c k = Some e \<and> qe e"
    "pick_pub c k qb db = Some b \<longleftrightarrow> pub_of db c k = Some b \<and> qb b"
  by (simp_all only: pick_axis [OF assms] bind_guard)

lemma axis_of_mem:
  assumes "keys_ok db"
  shows "p \<in> set (preparations db) \<Longrightarrow> prep_of db (prep_connector_id p) (prep_run_id p) = Some p"
    "e \<in> set (executions db) \<Longrightarrow> exec_of db (exec_connector_id e) (exec_run_id e) = Some e"
    "b \<in> set (publications db) \<Longrightarrow> pub_of db (pub_connector_id b) (pub_run_id b) = Some b"
  using assms unfolding prep_of_def exec_of_def pub_of_def keys_ok_def by (auto intro: select_row_mem)

subsection \<open>The statements keep the keys and the ids\<close>

lemma keys_ok_cong:
  assumes "review_runs db' = review_runs db"
    "map prep_run_id (preparations db') = map prep_run_id (preparations db)"
    "map prep_connector_id (preparations db') = map prep_connector_id (preparations db)"
    "map exec_run_id (executions db') = map exec_run_id (executions db)"
    "map exec_connector_id (executions db') = map exec_connector_id (executions db)"
    "map pub_run_id (publications db') = map pub_run_id (publications db)"
    "map pub_connector_id (publications db') = map pub_connector_id (publications db)"
    "map (\<lambda>s. (step_connector_id s, step_run_id s, step_key s)) (publication_steps db') =
     map (\<lambda>s. (step_connector_id s, step_run_id s, step_key s)) (publication_steps db)"
    "map (\<lambda>x. (cand_run_id x, cand_digest x)) (input_bundle_candidates db') =
     map (\<lambda>x. (cand_run_id x, cand_digest x)) (input_bundle_candidates db)"
  shows "keys_ok db' = keys_ok db"
  unfolding keys_ok_def using assms by (simp only:)

lemma keys_ok_upd [simp]:
  "keeps prep_run_id prep_connector_id fp \<Longrightarrow> keys_ok (upd_prep c k qp fp db) = keys_ok db"
  "keeps exec_run_id exec_connector_id fe \<Longrightarrow> keys_ok (upd_exec c k qe fe db) = keys_ok db"
  "keeps pub_run_id pub_connector_id fb \<Longrightarrow> keys_ok (upd_pub c k qb fb db) = keys_ok db"
  by (rule keys_ok_cong; simp add: upd_prep_def upd_exec_def upd_pub_def update_rows_def)+

lemma keys_ok_upd_step [simp]:
  "keeps step_run_id step_connector_id fs \<Longrightarrow> (\<And>s. step_key (fs s) = step_key s) \<Longrightarrow>
     keys_ok (upd_step c k qs fs db) = keys_ok db"
  by (rule keys_ok_cong; simp add: upd_step_def update_rows_def)

lemma keys_ok_upd_cand [simp]:
  "keeps cand_run_id cand_connector_id fc \<Longrightarrow> (\<And>x. cand_digest (fc x) = cand_digest x) \<Longrightarrow>
     keys_ok (upd_cand c k qc fc db) = keys_ok db"
  by (rule keys_ok_cong; simp add: upd_cand_def update_rows_def)

lemma keys_ok_log [simp]:
  "keys_ok (logEvent now c k ax f t rc db) = keys_ok db"
  "keys_ok (queueRunNotice now c k ev kd ax rc db) = keys_ok db"
  "keys_ok (supersedeRunAttentionNotices now c k ax db) = keys_ok db"
  "keys_ok (upd_notice q g db) = keys_ok db"
  by (rule keys_ok_cong; simp)+

lemma ids_ok_cong:
  assumes "review_run_events db' = review_run_events db" "next_event_id db' = next_event_id db"
    "run_notices db' = run_notices db" "next_notice_id db' = next_notice_id db"
  shows "ids_ok db' = ids_ok db"
  unfolding ids_ok_def using assms by (simp only:)

lemma ids_ok_upd [simp]:
  "ids_ok (upd_prep c k qp fp db) = ids_ok db" "ids_ok (upd_exec c k qe fe db) = ids_ok db"
  "ids_ok (upd_pub c k qb fb db) = ids_ok db" "ids_ok (upd_step c k qs fs db) = ids_ok db"
  "ids_ok (upd_cand c k qc fc db) = ids_ok db"
  by (rule ids_ok_cong; simp)+

lemma ids_ok_log [simp, intro]: "ids_ok db \<Longrightarrow> ids_ok (logEvent now c k ax f t rc db)"
  by (fastforce simp: ids_ok_def logEvent_def appendEvent_def)

lemma ids_ok_upd_notice:
  assumes "ids_ok db"
    and "\<And>n. notice_id (g n) = notice_id n \<and> notice_source_event_id (g n) = notice_source_event_id n"
    and "\<And>n. n \<in> set (run_notices db) \<Longrightarrow> q n \<Longrightarrow> notice_check (g n)"
  shows "ids_ok (upd_notice q g db)"
proof -
  define h where "h n = (if q n then g n else n)" for n
  have same: "notice_id (h n) = notice_id n" "notice_source_event_id (h n) = notice_source_event_id n" for n
    using assms(2) by (simp_all add: h_def)
  then have maps: "map notice_id (map h ns) = map notice_id ns"
    "map notice_source_event_id (map h ns) = map notice_source_event_id ns"
    "notice_source_event_id ` h ` S = notice_source_event_id ` S" for ns S
    by (simp_all add: image_image)
  have "\<forall>n \<in> set (run_notices db). notice_check (h n)"
    using assms(1,3) by (auto simp: h_def ids_ok_def)
  moreover have "run_notices (upd_notice q g db) = map h (run_notices db)"
    by (simp add: upd_notice_def h_def)
  ultimately show ?thesis
    using assms(1) same maps unfolding ids_ok_def by (simp del: map_map)
qed

lemma ids_ok_supersede [simp, intro]:
  "ids_ok db \<Longrightarrow> ids_ok (supersedeRunAttentionNotices now c k ax db)"
  unfolding supersedeRunAttentionNotices_def by (rule ids_ok_upd_notice) (auto simp: notice_check_def)

text \<open>A notice queued for an event that is logged.\<close>

definition logged :: "db \<Rightarrow> nat \<Rightarrow> bool" where
  "logged db ev \<longleftrightarrow> ev \<in> event_id ` set (review_run_events db)"

lemma logged_log [simp]:
  "logged (logEvent now c k ax f t rc db) ev \<longleftrightarrow> ev = next_event_id db \<or> logged db ev"
  by (auto simp: logged_def logEvent_def appendEvent_def)

lemma logged_frame [simp]:
  "logged (upd_prep c k qp fp db) ev = logged db ev" "logged (upd_exec c k qe fe db) ev = logged db ev"
  "logged (upd_pub c k qb fb db) ev = logged db ev" "logged (upd_step c k qs fs db) ev = logged db ev"
  "logged (upd_cand c k qc fc db) ev = logged db ev" "logged (upd_notice q g db) ev = logged db ev"
  "logged (queueRunNotice now c k ev' kd ax rc db) ev = logged db ev"
  "logged (supersedeRunAttentionNotices now c k ax db) ev = logged db ev"
  by (simp_all add: logged_def)

lemma ids_ok_queue [simp, intro]:
  assumes "ids_ok db" and "logged db ev"
  shows "ids_ok (queueRunNotice now c k ev kd ax rc db)"
proof (cases "\<exists>n \<in> set (run_notices db). notice_source_event_id n = ev")
  case True
  with assms show ?thesis by (simp add: queueRunNotice_def)
next
  case False
  then have "ev \<notin> notice_source_event_id ` set (run_notices db)" by auto
  moreover have "next_notice_id db \<notin> notice_id ` set (run_notices db)"
    using assms(1) by (force simp: ids_ok_def)
  ultimately show ?thesis
    using assms False unfolding ids_ok_def logged_def
    by (simp add: queueRunNotice_def notice_check_def) (simp add: less_Suc_eq)
qed

subsection \<open>Notices of one run\<close>

lemma notice_rows_frame [simp]:
  "notice_rows (upd_prep c k qp fp db) = notice_rows db" "notice_rows (upd_exec c k qe fe db) = notice_rows db"
  "notice_rows (upd_pub c k qb fb db) = notice_rows db" "notice_rows (upd_step c k qs fs db) = notice_rows db"
  "notice_rows (upd_cand c k qc fc db) = notice_rows db"
  "notice_rows (logEvent now c k ax f t rc db) = notice_rows db"
  by (simp_all add: fun_eq_iff notice_rows_def)

text \<open>A notice whose source event was logged by the same transaction is always queued.\<close>

definition fresh_event :: "db \<Rightarrow> nat \<Rightarrow> bool" where
  "fresh_event db ev \<longleftrightarrow> (\<forall>n \<in> set (run_notices db). notice_source_event_id n \<noteq> ev)"

lemma fresh_event_frame [simp]:
  "fresh_event (upd_prep c k qp fp db) ev = fresh_event db ev"
  "fresh_event (upd_exec c k qe fe db) ev = fresh_event db ev"
  "fresh_event (upd_pub c k qb fb db) ev = fresh_event db ev"
  "fresh_event (upd_step c k qs fs db) ev = fresh_event db ev"
  "fresh_event (upd_cand c k qc fc db) ev = fresh_event db ev"
  "fresh_event (logEvent now c k ax f t rc db) ev = fresh_event db ev"
  by (simp_all add: fresh_event_def)

lemma fresh_next [simp]: "ids_ok db \<Longrightarrow> fresh_event db (next_event_id db)"
  by (force simp: ids_ok_def fresh_event_def)

lemma notice_rows_queue:
  "notice_rows (queueRunNotice now c k ev kd ax rc db) c' k' =
     notice_rows db c' k' @
       (if fresh_event db ev \<and> c' = c \<and> k' = k
        then [\<lparr>notice_id = next_notice_id db, notice_run_id = k, notice_connector_id = c,
               notice_kind = kd, notice_source_event_id = ev, notice_status = NoticePending,
               notice_axis = ax, notice_reason_code = rc, notice_comment_url = None,
               notice_claim_token = None, notice_claimed_at = None, notice_created_at = now,
               notice_updated_at = now\<rparr>]
        else [])"
  by (auto simp: notice_rows_def queueRunNotice_def fresh_event_def)

definition superseded_row :: "instant \<Rightarrow> notice_row \<Rightarrow> notice_row" where
  "superseded_row now n = n\<lparr>notice_status := NoticeSuperseded, notice_claim_token := None,
     notice_claimed_at := None, notice_updated_at := now\<rparr>"

lemma superseded_row_simps [simp]:
  "notice_run_id (superseded_row now n) = notice_run_id n"
  "notice_connector_id (superseded_row now n) = notice_connector_id n"
  "notice_kind (superseded_row now n) = notice_kind n" "notice_axis (superseded_row now n) = notice_axis n"
  "notice_status (superseded_row now n) = NoticeSuperseded"
  by (simp_all add: superseded_row_def)

lemma notice_rows_supersede:
  "notice_rows (supersedeRunAttentionNotices now c k ax db) c' k' =
     (if c' = c \<and> k' = k
      then map (\<lambda>n. if attention ax n \<and> notice_status n \<in> {NoticePending, NoticeDelivering}
                    then superseded_row now n else n) (notice_rows db c k)
      else notice_rows db c' k')"
proof -
  define h where "h n = (if notice_run_id n = k \<and> notice_connector_id n = c \<and> notice_axis n = ax \<and>
      notice_kind n = NoticeAttention \<and> notice_status n \<in> {NoticePending, NoticeDelivering}
     then superseded_row now n else n)" for n
  have "notice_rows (supersedeRunAttentionNotices now c k ax db) c' k' = map h (notice_rows db c' k')"
  proof -
    have key: "notice_run_id (h n) = notice_run_id n" "notice_connector_id (h n) = notice_connector_id n" for n
      by (simp_all add: h_def)
    have "run_notices (supersedeRunAttentionNotices now c k ax db) = map h (run_notices db)"
      by (auto simp: supersedeRunAttentionNotices_def upd_notice_def superseded_row_def h_def)
    then show ?thesis by (simp add: notice_rows_def filter_map key o_def)
  qed
  also have "\<dots> = (if c' = c \<and> k' = k
      then map (\<lambda>n. if attention ax n \<and> notice_status n \<in> {NoticePending, NoticeDelivering}
                    then superseded_row now n else n) (notice_rows db c k)
      else notice_rows db c' k')"
    by (auto simp: notice_rows_def h_def attention_def intro!: map_cong map_idI)
  finally show ?thesis .
qed

lemma told_append:
  "told_ok es bs (ns @ [n]) \<longleftrightarrow>
     (length (filter is_failure ns) + (if is_failure n then 1 else 0) = (if run_failed es bs then 1 else 0)) \<and>
     (es = ExecDisconnected \<longrightarrow> attention AxisExecution n \<or> (\<exists>n \<in> set ns. attention AxisExecution n)) \<and>
     (bs = PubDisconnected \<longrightarrow> attention AxisPublication n \<or> (\<exists>n \<in> set ns. attention AxisPublication n))"
  by (auto simp: told_ok_def)

lemma is_failure_supersede [simp]: "is_failure (superseded_row now n) = is_failure n"
  by (simp add: is_failure_def)

lemma is_failure_supersede_if [simp]:
  "is_failure \<circ> (\<lambda>n. if Q n then superseded_row now n else n) = is_failure"
  by (auto simp: fun_eq_iff)

lemma audit_ok_frame [simp]:
  "audit_ok (upd_prep c' k' qp fp db) c k ps es bs = audit_ok db c k ps es bs"
  "audit_ok (upd_exec c' k' qe fe db) c k ps es bs = audit_ok db c k ps es bs"
  "audit_ok (upd_pub c' k' qb fb db) c k ps es bs = audit_ok db c k ps es bs"
  "audit_ok (upd_step c' k' qs fs db) c k ps es bs = audit_ok db c k ps es bs"
  "audit_ok (upd_cand c' k' qc fc db) c k ps es bs = audit_ok db c k ps es bs"
  "audit_ok (upd_notice q g db) c k ps es bs = audit_ok db c k ps es bs"
  "audit_ok (queueRunNotice now c' k' ev kd ax rc db) c k ps es bs = audit_ok db c k ps es bs"
  "audit_ok (supersedeRunAttentionNotices now c' k' ax db) c k ps es bs = audit_ok db c k ps es bs"
  by (simp_all add: audit_ok_def)

lemma audit_ok_log [simp]:
  "audit_ok (logEvent now c k AxisPreparation f (PrepS s) rc db) c k ps es bs \<longleftrightarrow>
     s = ps \<and> f = last_state db c k AxisPreparation \<and> chained db c k AxisPreparation \<and>
     last_state db c k AxisExecution = Some (ExecS es) \<and> chained db c k AxisExecution \<and>
     last_state db c k AxisPublication = Some (PubS bs)"
  "audit_ok (logEvent now c k AxisExecution f (ExecS s') rc db) c k ps es bs \<longleftrightarrow>
     s' = es \<and> f = last_state db c k AxisExecution \<and> chained db c k AxisExecution \<and>
     last_state db c k AxisPreparation = Some (PrepS ps) \<and> chained db c k AxisPreparation \<and>
     last_state db c k AxisPublication = Some (PubS bs)"
  "audit_ok (logEvent now c k AxisPublication f (PubS s'') rc db) c k ps es bs \<longleftrightarrow>
     s'' = bs \<and> last_state db c k AxisExecution = Some (ExecS es) \<and> chained db c k AxisExecution \<and>
     last_state db c k AxisPreparation = Some (PrepS ps) \<and> chained db c k AxisPreparation"
  by (auto simp: audit_ok_def)

subsection \<open>Where a run can be\<close>

text \<open>Columns the constraints do not mention.\<close>

lemma exec_check_other [simp]:
  "exec_check (exec_observed_at_update g1 e) = exec_check e"
  "exec_check (exec_updated_at_update g2 e) = exec_check e"
  "exec_check (exec_artifact_storage_update g3 e) = exec_check e"
  "exec_check (exec_attempt_count_update g4 e) = exec_check e"
  "exec_check (exec_input_update g5 e) = exec_check e"
  "exec_check (exec_failure_code_update g6 e) = exec_check e"
  "exec_check (exec_failure_message_update g7 e) = exec_check e"
  "exec_check (exec_workflow_result_update g8 e) = exec_check e"
  by (simp_all add: exec_check_def split: exec_state.split)

lemma prep_check_other [simp]:
  "prep_check (prep_updated_at_update g9 p) = prep_check p"
  "prep_check (prep_input_update g10 p) = prep_check p"
  "prep_check (prep_attempt_count_update g11 p) = prep_check p"
  "prep_check (prep_available_at_update g12 p) = prep_check p"
  "prep_check (prep_failure_code_update g13 p) = prep_check p"
  "prep_check (prep_failure_message_update g14 p) = prep_check p"
  "prep_check (prep_last_failure_code_update g15 p) = prep_check p"
  "prep_check (prep_last_failure_message_update g16 p) = prep_check p"
  by (simp_all add: prep_check_def split: prep_state.split)

lemma pub_check_other [simp]:
  "pub_check (pub_updated_at_update g17 b) = pub_check b"
  "pub_check (pub_input_update g18 b) = pub_check b"
  "pub_check (pub_claim_token_update g19 b) = pub_check b"
  "pub_check (pub_claimed_at_update g20 b) = pub_check b"
  "pub_check (pub_failure_code_update g21 b) = pub_check b"
  "pub_check (pub_failure_message_update g22 b) = pub_check b"
  by (simp_all add: pub_check_def split: pub_state.split)

lemma pub_owned_other [simp]:
  "pub_owned (pub_updated_at_update g23 b) = pub_owned b"
  "pub_owned (pub_input_update g24 b) = pub_owned b"
  "pub_owned (pub_started_at_update g25 b) = pub_owned b"
  "pub_owned (pub_finished_at_update g26 b) = pub_owned b"
  "pub_owned (pub_failure_code_update g27 b) = pub_owned b"
  "pub_owned (pub_failure_message_update g28 b) = pub_owned b"
  by (simp_all add: pub_owned_def split: pub_state.split)

lemma step_ok_other [simp]:
  "step_ok (step_updated_at_update g29 s) = step_ok s"
  "step_ok (step_last_attempt_at_update g30 s) = step_ok s"
  "step_ok (step_remote_object_id_update g31 s) = step_ok s"
  "step_ok (step_remote_object_url_update g32 s) = step_ok s"
  "step_ok (step_failure_code_update g33 s) = step_ok s"
  "step_ok (step_failure_message_update g34 s) = step_ok s"
  by (simp_all add: step_ok_def split: step_state.split)

lemma axes_preparing:
  assumes "axes_ok ps es bs" "ps \<in> {PrepPending, PrepPreparing, PrepUncertain}"
  shows "es = ExecPending" "bs = PubPending"
  using assms by (auto simp: axes_ok_def)

lemma axes_live:
  assumes "axes_ok ps es bs" "es \<in> {ExecQueued, ExecRunning, ExecUncertain, ExecDisconnected}"
  shows "bs = PubPending" "ps = PrepSubmitted \<or> ps = PrepFailed"
  using assms by (cases ps; auto simp: axes_ok_def)+

lemma axes_publishing:
  assumes "axes_ok ps es bs" "bs \<noteq> PubPending" "bs \<noteq> PubSkipped"
  shows "es = ExecSucceeded" "ps = PrepSubmitted \<or> ps = PrepFailed"
  using assms by (cases ps; cases es; auto simp: axes_ok_def)+

lemma steps_none: "steps_ok es bs ss \<Longrightarrow> es \<noteq> ExecSucceeded \<Longrightarrow> ss = []"
  by (simp add: steps_ok_def)

lemma not_told: "told_ok es bs ns \<Longrightarrow> \<not> run_failed es bs \<Longrightarrow> filter is_failure ns = []"
  by (simp add: told_ok_def)

lemma told_cong:
  assumes "told_ok es bs ns" "run_failed es' bs' = run_failed es bs"
    "es' = ExecDisconnected \<Longrightarrow> es = ExecDisconnected" "bs' = PubDisconnected \<Longrightarrow> bs = PubDisconnected"
  shows "told_ok es' bs' ns"
  using assms by (simp add: told_ok_def)

lemma told_failure:
  assumes "told_ok es bs ns" "\<not> run_failed es bs" "run_failed es' bs'"
    "es' \<noteq> ExecDisconnected" "bs' \<noteq> PubDisconnected" "is_failure n"
  shows "told_ok es' bs' (ns @ [n])"
  using assms by (simp add: told_ok_def)

lemma run_okI:
  assumes "prep_of db c k = Some p" "exec_of db c k = Some e" "pub_of db c k = Some b"
    "prep_check p" "prep_budget p" "exec_check e" "pub_check b" "pub_owned b"
    "axes_ok (prep_status p) (exec_status e) (pub_status b)"
    "steps_ok (exec_status e) (pub_status b) (steps_of db c k)"
    "cands_ok (exec_input e) (cands_of db c k)"
    "audit_ok db c k (prep_status p) (exec_status e) (pub_status b)"
    "told_ok (exec_status e) (pub_status b) (notice_rows db c k)"
  shows "run_ok db c k"
  using assms by (simp add: run_ok_def run_defs)

lemma rows_ok_frame [simp]:
  "rows_ok (logEvent now c' k' ax f t rc db) c k = rows_ok db c k"
  "rows_ok (queueRunNotice now c' k' ev kd ax rc db) c k = rows_ok db c k"
  "rows_ok (supersedeRunAttentionNotices now c' k' ax db) c k = rows_ok db c k"
  "rows_ok (upd_notice q g db) c k = rows_ok db c k"
  by (simp_all add: rows_ok_def split: option.split)

lemma audited_frame [simp]:
  "audited (queueRunNotice now c' k' ev kd ax rc db) c k = audited db c k"
  "audited (supersedeRunAttentionNotices now c' k' ax db) c k = audited db c k"
  "audited (upd_notice q g db) c k = audited db c k"
  by (simp_all add: audited_def split: option.split)

lemma told_frame [simp]:
  "told (upd_prep c' k' qp fp db) c k = told db c k"
  "told (upd_cand c' k' qc fc db) c k = told db c k"
  "told (upd_step c' k' qs fs db) c k = told db c k"
  "told (logEvent now c' k' ax f t rc db) c k = told db c k"
  by (simp_all add: told_def split: option.split)

text \<open>Assignments that move no status keep the invariant of the run.\<close>

lemma run_ok_quiet_exec:
  assumes "run_ok db c k"
    and "\<And>e. exec_status (f e) = exec_status e" "\<And>e. exec_input (f e) = exec_input e"
    and "\<And>e. q e \<Longrightarrow> exec_check e \<Longrightarrow> exec_check (f e)"
    and "keeps exec_run_id exec_connector_id f"
  shows "run_ok (upd_exec c k q f db) c k"
  using assms by (auto simp: run_ok_def run_defs split: option.splits)

lemma run_ok_quiet_prep:
  assumes "run_ok db c k"
    and "\<And>p. prep_status (f p) = prep_status p" "\<And>p. prep_attempt_count (f p) = prep_attempt_count p"
    and "\<And>p. q p \<Longrightarrow> prep_check p \<Longrightarrow> prep_check (f p)"
    and "keeps prep_run_id prep_connector_id f"
  shows "run_ok (upd_prep c k q f db) c k"
  using assms by (auto simp: run_ok_def run_defs prep_budget_def split: option.splits)

lemma run_ok_quiet_pub:
  assumes "run_ok db c k"
    and "\<And>b. pub_status (f b) = pub_status b"
    and "\<And>b. q b \<Longrightarrow> pub_check b \<Longrightarrow> pub_check (f b)" "\<And>b. q b \<Longrightarrow> pub_owned b \<Longrightarrow> pub_owned (f b)"
    and "keeps pub_run_id pub_connector_id f"
  shows "run_ok (upd_pub c k q f db) c k"
  using assms by (auto simp: run_ok_def run_defs split: option.splits)

subsection \<open>Operations on one run\<close>

text \<open>\<open>wrote c k db db'\<close>: going from \<open>db\<close> to \<open>db'\<close> keeps the keys and leaves every run other than \<open>k\<close> of
  connector \<open>c\<close> exactly as it was, in all tables and in the log.\<close>

definition same_run :: "string \<Rightarrow> string \<Rightarrow> db \<Rightarrow> db \<Rightarrow> bool" where
  "same_run c k db db' \<longleftrightarrow>
     prep_of db' c k = prep_of db c k \<and> exec_of db' c k = exec_of db c k \<and>
     pub_of db' c k = pub_of db c k \<and> steps_of db' c k = steps_of db c k \<and>
     cands_of db' c k = cands_of db c k \<and> notice_rows db' c k = notice_rows db c k \<and>
     (\<forall>ax. axis_events db' c k ax = axis_events db c k ax)"

definition wrote :: "string \<Rightarrow> string \<Rightarrow> db \<Rightarrow> db \<Rightarrow> bool" where
  "wrote c k db db' \<longleftrightarrow>
     (keys_ok db \<longrightarrow> keys_ok db') \<and> (\<forall>c' k'. (c', k') \<noteq> (c, k) \<longrightarrow> same_run c' k' db db')"

lemma wrote_refl [simp]: "wrote c k db db"
  by (simp add: wrote_def same_run_def)

lemma wrote_trans: "wrote c k db db1 \<Longrightarrow> wrote c k db1 db2 \<Longrightarrow> wrote c k db db2"
  by (auto simp: wrote_def same_run_def)

lemma wrote_upd [simp]:
  "wrote c k db X \<Longrightarrow> keeps prep_run_id prep_connector_id fp \<Longrightarrow> wrote c k db (upd_prep c k qp fp X)"
  "wrote c k db X \<Longrightarrow> keeps exec_run_id exec_connector_id fe \<Longrightarrow> wrote c k db (upd_exec c k qe fe X)"
  "wrote c k db X \<Longrightarrow> keeps pub_run_id pub_connector_id fb \<Longrightarrow> wrote c k db (upd_pub c k qb fb X)"
  "wrote c k db X \<Longrightarrow> keeps step_run_id step_connector_id fs \<Longrightarrow> (\<And>s. step_key (fs s) = step_key s) \<Longrightarrow>
     wrote c k db (upd_step c k qs fs X)"
  "wrote c k db X \<Longrightarrow> keeps cand_run_id cand_connector_id fc \<Longrightarrow> (\<And>x. cand_digest (fc x) = cand_digest x) \<Longrightarrow>
     wrote c k db (upd_cand c k qc fc X)"
  by (auto simp: wrote_def same_run_def)

lemma wrote_log [simp]:
  "wrote c k db X \<Longrightarrow> wrote c k db (logEvent now c k ax f t rc X)"
  "wrote c k db X \<Longrightarrow> wrote c k db (queueRunNotice now c k ev kd ax rc X)"
  "wrote c k db X \<Longrightarrow> wrote c k db (supersedeRunAttentionNotices now c k ax X)"
  by (auto simp: wrote_def same_run_def notice_rows_queue notice_rows_supersede)

lemma run_ok_same: "same_run c k db db' \<Longrightarrow> run_ok db' c k = run_ok db c k"
  by (simp add: same_run_def run_ok_def run_defs audit_ok_def last_state_def chained_def split: option.split)

text \<open>An operation on one run keeps the invariant when it keeps it for that run.\<close>

lemma inv_step:
  assumes "db_inv db" "wrote c k db db'" "ids_ok db'" "run_ok db' c k"
  shows "db_inv db'"
proof (rule invI)
  fix c' k'
  show "run_ok db' c' k'"
    using assms run_ok_same [of c' k' db db'] by (cases "(c', k') = (c, k)") (auto simp: wrote_def db_inv_def)
qed (use assms in \<open>auto simp: wrote_def db_inv_def\<close>)

end
