(* ===== verification/CrossAxis.thy ===== *)
theory CrossAxis
  imports RunInvariant
begin

text \<open>
  The two transitions the stores share: \<^verbatim>\<open>persistence/execution-skip.ts\<close> (conclude an execution that
  never ran) and \<^verbatim>\<open>persistence/publication-abandon.ts\<close> (conclude a publication that can never publish),
  the latter in its single-run and its batch form.
\<close>

definition skipped_execution :: "instant \<Rightarrow> execution_row \<Rightarrow> execution_row" where
  "skipped_execution now e =
     e\<lparr>exec_status := ExecSkipped, exec_failure_code := None, exec_failure_message := None,
       exec_finished_at := Some now, exec_observed_at := now, exec_updated_at := now\<rparr>"

definition skipPendingExecutions :: "instant \<Rightarrow> string \<Rightarrow> string list \<Rightarrow> db \<Rightarrow> string list \<times> db" where
  "skipPendingExecutions now c runIds db =
     (if runIds = [] then ([], db)
      else (let hit = (\<lambda>e. (exec_run_id e \<in> set runIds \<and> exec_connector_id e = c) \<and> exec_status e = ExecPending)
            in (map exec_run_id (filter hit (executions db)),
                db\<lparr>executions := map (\<lambda>e. if hit e then skipped_execution now e else e) (executions db)\<rparr>)))"

definition abandoned_candidate :: "instant \<Rightarrow> candidate_row \<Rightarrow> candidate_row" where
  "abandoned_candidate now x = x\<lparr>cand_status := CandAbandoned, cand_updated_at := now\<rparr>"

definition unfinished :: "candidate_row \<Rightarrow> bool" where
  "unfinished x \<longleftrightarrow> cand_status x \<in> {CandReserved, CandPresent}"

definition skipped_publication :: "instant \<Rightarrow> publication_row \<Rightarrow> publication_row" where
  "skipped_publication now b =
     b\<lparr>pub_status := PubSkipped, pub_claim_token := None, pub_claimed_at := None,
       pub_finished_at := Some now, pub_failure_code := None, pub_failure_message := None,
       pub_updated_at := now\<rparr>"

definition in_flight :: "publication_row \<Rightarrow> bool" where
  "in_flight b \<longleftrightarrow> pub_status b \<in> {PubPending, PubPublishing}"

definition released_step :: "instant \<Rightarrow> step_row \<Rightarrow> step_row" where
  "released_step now s = s\<lparr>step_claimed_by := None, step_updated_at := now\<rparr>"

definition abandonInFlightPublication ::
  "instant \<Rightarrow> string \<Rightarrow> string \<Rightarrow> db \<Rightarrow> pub_state option \<times> db" where
  "abandonInFlightPublication now c runId db =
     (let db1 = upd_cand c runId unfinished (abandoned_candidate now) db;
          fromStatus = map_option pub_status (pick_pub c runId in_flight db1);
          db2 = upd_pub c runId in_flight (skipped_publication now) db1
      in (fromStatus,
          if fromStatus \<noteq> None
          then upd_step c runId (\<lambda>s. step_claimed_by s \<noteq> None) (released_step now) db2
          else db2))"

definition abandonInFlightPublications ::
  "instant \<Rightarrow> string \<Rightarrow> string list \<Rightarrow> db \<Rightarrow> (string \<times> pub_state) list \<times> db" where
  "abandonInFlightPublications now c runIds db =
     (if runIds = [] then ([], db)
      else
       (let candHit = (\<lambda>x. (cand_run_id x \<in> set runIds \<and> cand_connector_id x = c) \<and> unfinished x);
            db1 = db\<lparr>input_bundle_candidates :=
                     map (\<lambda>x. if candHit x then abandoned_candidate now x else x)
                       (input_bundle_candidates db)\<rparr>;
            hit = (\<lambda>b. (pub_run_id b \<in> set runIds \<and> pub_connector_id b = c) \<and> in_flight b);
            moved = map (\<lambda>b. (pub_run_id b, pub_status b)) (filter hit (publications db1));
            db2 = db1\<lparr>publications :=
                     map (\<lambda>b. if hit b then skipped_publication now b else b) (publications db1)\<rparr>;
            stepHit = (\<lambda>s. (step_run_id s \<in> set (map fst moved) \<and> step_connector_id s = c) \<and>
                           step_claimed_by s \<noteq> None)
        in (moved,
            if moved \<noteq> []
            then db2\<lparr>publication_steps :=
                   map (\<lambda>s. if stepHit s then released_step now s else s) (publication_steps db2)\<rparr>
            else db2)))"

subsection \<open>Row facts\<close>

lemma skipped_execution_simps [simp]:
  "exec_run_id (skipped_execution now e) = exec_run_id e"
  "exec_connector_id (skipped_execution now e) = exec_connector_id e"
  "exec_status (skipped_execution now e) = ExecSkipped" "exec_input (skipped_execution now e) = exec_input e"
  "exec_claim_token (skipped_execution now e) = exec_claim_token e"
  "exec_claimed_at (skipped_execution now e) = exec_claimed_at e"
  "exec_finished_at (skipped_execution now e) = Some now"
  by (simp_all add: skipped_execution_def)

lemma skipped_publication_simps [simp]:
  "pub_run_id (skipped_publication now b) = pub_run_id b"
  "pub_connector_id (skipped_publication now b) = pub_connector_id b"
  "pub_status (skipped_publication now b) = PubSkipped" "pub_claim_token (skipped_publication now b) = None"
  "pub_finished_at (skipped_publication now b) = Some now"
  by (simp_all add: skipped_publication_def)

lemma abandoned_candidate_simps [simp]:
  "cand_run_id (abandoned_candidate now x) = cand_run_id x"
  "cand_connector_id (abandoned_candidate now x) = cand_connector_id x"
  "cand_digest (abandoned_candidate now x) = cand_digest x"
  "cand_status (abandoned_candidate now x) = CandAbandoned"
  "cand_input (abandoned_candidate now x) = cand_input x"
  "cand_check (abandoned_candidate now x) = cand_check x"
  by (simp_all add: abandoned_candidate_def cand_check_def)

lemma released_step_simps [simp]:
  "step_run_id (released_step now s) = step_run_id s"
  "step_connector_id (released_step now s) = step_connector_id s"
  "step_key (released_step now s) = step_key s" "step_status (released_step now s) = step_status s"
  by (simp_all add: released_step_def)

subsection \<open>The batch forms at one run\<close>

lemma skipPendingExecutions_one:
  "skipPendingExecutions now c [k] db =
     (map exec_run_id (filter (\<lambda>e. at_key exec_run_id exec_connector_id c k e \<and> exec_status e = ExecPending)
        (executions db)),
      upd_exec c k (\<lambda>e. exec_status e = ExecPending) (skipped_execution now) db)"
  by (simp add: skipPendingExecutions_def upd_exec_def update_rows_def at_key_def Let_def)

lemma length_skipped_one [simp]:
  "length (fst (skipPendingExecutions now c [k] db)) = cnt_exec c k (\<lambda>e. exec_status e = ExecPending) db"
  by (simp add: skipPendingExecutions_one cnt_exec_def row_count_def)

lemma snd_skipped_one [simp]:
  "snd (skipPendingExecutions now c [k] db) =
     upd_exec c k (\<lambda>e. exec_status e = ExecPending) (skipped_execution now) db"
  by (simp add: skipPendingExecutions_one)

lemma map_of_moved:
  "map_of (map (\<lambda>b. (pub_run_id b, pub_status b)) (filter (\<lambda>b. at_key pub_run_id pub_connector_id c k b \<and> q b) t)) k =
     map_option pub_status (pick_row pub_run_id pub_connector_id c k q t)"
  by (induction t) (auto simp: pick_row_def at_key_def)

lemma moved_Nil:
  "filter (\<lambda>b. at_key pub_run_id pub_connector_id c k b \<and> q b) t = [] \<longleftrightarrow>
     pick_row pub_run_id pub_connector_id c k q t = None"
  by (induction t) (auto simp: pick_row_def)

text \<open>For one run the batch form writes what the single form writes and reports the same origin.\<close>

lemma abandonInFlightPublications_one:
  "snd (abandonInFlightPublications now c [k] db) = snd (abandonInFlightPublication now c k db)"
  "map_of (fst (abandonInFlightPublications now c [k] db)) k = fst (abandonInFlightPublication now c k db)"
proof -
  let ?db1 = "upd_cand c k unfinished (abandoned_candidate now) db"
  let ?sel = "filter (\<lambda>b. at_key pub_run_id pub_connector_id c k b \<and> in_flight b) (publications db)"
  have db1: "db\<lparr>input_bundle_candidates := map (\<lambda>x. if (cand_run_id x \<in> set [k] \<and> cand_connector_id x = c) \<and>
      unfinished x then abandoned_candidate now x else x) (input_bundle_candidates db)\<rparr> = ?db1"
    by (simp add: upd_cand_def update_rows_def at_key_def)
  have sel: "filter (\<lambda>b. (pub_run_id b \<in> set [k] \<and> pub_connector_id b = c) \<and> in_flight b) (publications ?db1) = ?sel"
    by (simp add: at_key_def)
  have keys: "set (map pub_run_id ?sel) = (if ?sel = [] then {} else {k})"
    by (auto simp: at_key_def filter_empty_conv)
  show "snd (abandonInFlightPublications now c [k] db) = snd (abandonInFlightPublication now c k db)"
    unfolding abandonInFlightPublications_def abandonInFlightPublication_def Let_def db1 sel
    using keys moved_Nil [of c k in_flight "publications db"]
    by (auto simp: pick_pub_def upd_pub_def upd_step_def update_rows_def at_key_def o_def)
  show "map_of (fst (abandonInFlightPublications now c [k] db)) k = fst (abandonInFlightPublication now c k db)"
    unfolding abandonInFlightPublications_def abandonInFlightPublication_def Let_def db1 sel
    by (simp add: map_of_moved pick_pub_def)
qed

subsection \<open>What abandoning does to the look-ups\<close>

lemma abandon_fst:
  "fst (abandonInFlightPublication now c k db) = map_option pub_status (pick_pub c k in_flight db)"
  by (simp add: abandonInFlightPublication_def Let_def)

lemma abandon_lookup [simp]:
  "prep_of (snd (abandonInFlightPublication now c k db)) = prep_of db"
  "exec_of (snd (abandonInFlightPublication now c k db)) = exec_of db"
  "notice_rows (snd (abandonInFlightPublication now c k db)) = notice_rows db"
  "next_event_id (snd (abandonInFlightPublication now c k db)) = next_event_id db"
  "run_notices (snd (abandonInFlightPublication now c k db)) = run_notices db"
  "next_notice_id (snd (abandonInFlightPublication now c k db)) = next_notice_id db"
  "review_runs (snd (abandonInFlightPublication now c k db)) = review_runs db"
  "preparations (snd (abandonInFlightPublication now c k db)) = preparations db"
  "executions (snd (abandonInFlightPublication now c k db)) = executions db"
  "review_run_events (snd (abandonInFlightPublication now c k db)) = review_run_events db"
  "last_state (snd (abandonInFlightPublication now c k db)) = last_state db"
  "chained (snd (abandonInFlightPublication now c k db)) = chained db"
  "logged (snd (abandonInFlightPublication now c k db)) ev = logged db ev"
  "fresh_event (snd (abandonInFlightPublication now c k db)) ev = fresh_event db ev"
  "ids_ok (snd (abandonInFlightPublication now c k db)) = ids_ok db"
  "keys_ok (snd (abandonInFlightPublication now c k db)) = keys_ok db"
  "axis_events (snd (abandonInFlightPublication now c k db)) = axis_events db"
  by (simp_all add: abandonInFlightPublication_def Let_def)

lemma abandon_pub_of [simp]:
  "pub_of (snd (abandonInFlightPublication now c k db)) c' k' =
     (if c' = c \<and> k' = k
      then map_option (\<lambda>b. if in_flight b then skipped_publication now b else b) (pub_of db c k)
      else pub_of db c' k')"
  by (simp add: abandonInFlightPublication_def Let_def)

lemma abandon_cands_of [simp]:
  "cands_of (snd (abandonInFlightPublication now c k db)) c' k' =
     (if c' = c \<and> k' = k then map (\<lambda>x. if unfinished x then abandoned_candidate now x else x) (cands_of db c k)
      else cands_of db c' k')"
  by (simp add: abandonInFlightPublication_def Let_def)

lemma abandon_steps_of [simp]:
  "steps_of (snd (abandonInFlightPublication now c k db)) c' k' =
     (if c' = c \<and> k' = k \<and> fst (abandonInFlightPublication now c k db) \<noteq> None
      then map (\<lambda>s. if step_claimed_by s \<noteq> None then released_step now s else s) (steps_of db c k)
      else steps_of db c' k')"
  by (auto simp: abandonInFlightPublication_def Let_def)

lemma wrote_abandon [simp]:
  "wrote c k db X \<Longrightarrow> wrote c k db (snd (abandonInFlightPublication now c k X))"
  by (simp add: abandonInFlightPublication_def Let_def)

lemma cands_ok_map:
  assumes "cands_ok inp xs"
    and "\<And>x. cand_check (f x) = cand_check x" "\<And>x. cand_input (f x) = cand_input x"
    and "\<And>x. cand_status (f x) = CandSelected \<Longrightarrow> cand_status x = CandSelected"
  shows "cands_ok inp (map f xs)"
proof -
  have "length (filter (\<lambda>x. cand_status x = CandSelected) (map f xs)) \<le>
      length (filter (\<lambda>x. cand_status x = CandSelected) xs)"
    by (induction xs) (auto dest: assms(4))
  with assms show ?thesis by (auto simp: cands_ok_def)
qed

lemma cands_ok_abandon [simp]:
  "cands_ok inp xs \<Longrightarrow> cands_ok inp (map (\<lambda>x. if unfinished x then abandoned_candidate now x else x) xs)"
  by (erule cands_ok_map) (auto split: if_splits)

end
