(* ===== verification/ExecutionStore.thy ===== *)
theory ExecutionStore
  imports CrossAxis
begin

text \<open>
  \<^verbatim>\<open>services/review-runs/src/persistence/execution-store.ts\<close>: the single-axis execution writes
  (observation, terminal result, submission-recovery claims), and \<^verbatim>\<open>failExecution\<close> of
  \<^verbatim>\<open>review-run-store.ts\<close>, which concludes execution and publication in one transaction. The recovery
  claim is the execution row's token; its lease paces the replays.
\<close>

definition touchObservation :: "store_cfg \<Rightarrow> instant \<Rightarrow> string \<Rightarrow> db \<Rightarrow> (rr_error + unit) \<times> db" where
  "touchObservation cfg now runId db =
     (Inr (),
      upd_exec (connectorId cfg) runId (\<lambda>e. exec_status e \<in> {ExecQueued, ExecRunning})
        (\<lambda>e. e\<lparr>exec_observed_at := now\<rparr>) db)"

definition markRunning :: "store_cfg \<Rightarrow> instant \<Rightarrow> string \<Rightarrow> db \<Rightarrow> (rr_error + bool) \<times> db" where
  "markRunning cfg now runId = transaction (\<lambda>db.
     let c = connectorId cfg;
         q = (\<lambda>e. exec_status e = ExecQueued);
         db1 = upd_exec c runId q
                 (\<lambda>e. e\<lparr>exec_status := ExecRunning, exec_observed_at := now, exec_updated_at := now\<rparr>) db
     in if cnt_exec c runId q db \<noteq> 1 then Inr (False, db1)
        else Inr (True, logEvent now c runId AxisExecution (Some (ExecS ExecQueued)) (ExecS ExecRunning) None db1))"

definition recordArtifactStorage ::
  "store_cfg \<Rightarrow> instant \<Rightarrow> string \<Rightarrow> execution_artifact_storage option \<Rightarrow> db \<Rightarrow> (rr_error + unit) \<times> db" where
  "recordArtifactStorage cfg now runId storage db =
     (case storage of
        None \<Rightarrow> (Inr (), db)
      | Some s \<Rightarrow>
          (case normalizeArtifactStorage (Some s) (''run '' @ runId) of
             Inl err \<Rightarrow> (Inl err, db)
           | Inr v \<Rightarrow>
               (Inr (), upd_exec (connectorId cfg) runId (\<lambda>_. True)
                  (\<lambda>e. e\<lparr>exec_artifact_storage := v, exec_updated_at := now\<rparr>) db)))"

text \<open>\<^verbatim>\<open>storage === undefined ? null : normalizeArtifactStorage(storage)\<close>, evaluated before the statement is
  sent.\<close>

definition storage_arg ::
  "string \<Rightarrow> execution_artifact_storage option \<Rightarrow> rr_error + artifact_storage option" where
  "storage_arg runId storage =
     (case storage of None \<Rightarrow> Inr None | Some s \<Rightarrow> normalizeArtifactStorage (Some s) (''run '' @ runId))"

definition recordExecutionSuccess ::
  "store_cfg \<Rightarrow> instant \<Rightarrow> string \<Rightarrow> json option \<Rightarrow> execution_artifact_storage option \<Rightarrow> db \<Rightarrow> (rr_error + bool) \<times> db"
where
  "recordExecutionSuccess cfg now runId workflowResult storage = transaction (\<lambda>db.
     case storage_arg runId storage of
       Inl err \<Rightarrow> Inl err
     | Inr v \<Rightarrow>
        (let c = connectorId cfg;
             q = (\<lambda>e. exec_status e \<in> {ExecQueued, ExecRunning});
             db1 = upd_exec c runId q
                     (\<lambda>e. e\<lparr>exec_status := ExecSucceeded, exec_workflow_result := workflowResult,
                            exec_artifact_storage := v, exec_failure_code := None,
                            exec_failure_message := None, exec_finished_at := Some now,
                            exec_observed_at := now, exec_updated_at := now\<rparr>) db
         in case pick_exec c runId q db of
              None \<Rightarrow> Inr (False, db1)
            | Some e \<Rightarrow>
                Inr (True, logEvent now c runId AxisExecution (Some (ExecS (exec_status e)))
                             (ExecS ExecSucceeded) None db1)))"

text \<open>The claim condition of a recovery: unclaimed, or the previous claim's lease ran out.\<close>

definition recovery_claimable :: "store_cfg \<Rightarrow> instant \<Rightarrow> execution_row \<Rightarrow> bool" where
  "recovery_claimable cfg now e \<longleftrightarrow>
     exec_status e = ExecUncertain \<and>
     (exec_claim_token e = None \<or> lease_expired cfg now (exec_claimed_at e))"

definition claimSubmissionRecovery ::
  "store_cfg \<Rightarrow> instant \<Rightarrow> uuid \<Rightarrow> string \<Rightarrow> db \<Rightarrow> (rr_error + uuid option) \<times> db" where
  "claimSubmissionRecovery cfg now token runId = transaction (\<lambda>db.
     let c = connectorId cfg;
         db1 = upd_exec c runId (recovery_claimable cfg now)
                 (\<lambda>e. e\<lparr>exec_claim_token := Some token, exec_claimed_at := Some now,
                        exec_updated_at := now\<rparr>) db
     in if cnt_exec c runId (recovery_claimable cfg now) db = 0 then Inr (None, db1)
        else Inr (Some token,
               logEvent now c runId AxisExecution (Some (ExecS ExecUncertain)) (ExecS ExecUncertain)
                 (Some ''SUBMISSION_RECOVERY_CLAIMED'') db1))"

definition submissionRecoveryAttemptCount :: "store_cfg \<Rightarrow> string \<Rightarrow> db \<Rightarrow> nat option" where
  "submissionRecoveryAttemptCount cfg runId db =
     map_option exec_attempt_count (exec_of db (connectorId cfg) runId)"

definition resumeDisconnectedSubmissionRecoveryOn ::
  "store_cfg \<Rightarrow> instant \<Rightarrow> string \<Rightarrow> db \<Rightarrow> bool \<times> db" where
  "resumeDisconnectedSubmissionRecoveryOn cfg now runId db =
     (let c = connectorId cfg;
          q = (\<lambda>e. exec_status e = ExecDisconnected);
          db1 = upd_exec c runId q
                  (\<lambda>e. e\<lparr>exec_status := ExecUncertain, exec_claim_token := None, exec_claimed_at := None,
                         exec_attempt_count := 0, exec_updated_at := now\<rparr>) db
      in if cnt_exec c runId q db = 0 then (False, db1)
         else (True,
           supersedeRunAttentionNotices now c runId AxisExecution
             (logEvent now c runId AxisExecution (Some (ExecS ExecDisconnected)) (ExecS ExecUncertain)
                (Some ''SUBMISSION_RECOVERY_RESUMED_BY_OPERATOR'') db1)))"

definition resumeDisconnectedSubmissionRecovery ::
  "store_cfg \<Rightarrow> instant \<Rightarrow> string \<Rightarrow> db \<Rightarrow> (rr_error + bool) \<times> db" where
  "resumeDisconnectedSubmissionRecovery cfg now runId =
     transaction (\<lambda>db. Inr (resumeDisconnectedSubmissionRecoveryOn cfg now runId db))"

definition disconnectExhaustedSubmissionRecovery ::
  "store_cfg \<Rightarrow> instant \<Rightarrow> string \<Rightarrow> nat \<Rightarrow> db \<Rightarrow> (rr_error + bool) \<times> db" where
  "disconnectExhaustedSubmissionRecovery cfg now runId maxAttempts = transaction (\<lambda>db.
     let c = connectorId cfg;
         q = (\<lambda>e. recovery_claimable cfg now e \<and> maxAttempts \<le> exec_attempt_count e);
         db1 = upd_exec c runId q
                 (\<lambda>e. e\<lparr>exec_status := ExecDisconnected, exec_claim_token := None,
                        exec_claimed_at := None, exec_updated_at := now\<rparr>) db
     in if cnt_exec c runId q db = 0 then Inr (False, db1)
        else
          (let (eventId, db2) = appendEvent now c runId AxisExecution (Some (ExecS ExecUncertain))
                 (ExecS ExecDisconnected) (Some ''SUBMISSION_RECOVERY_EXHAUSTED'') db1
           in Inr (True, queueRunNotice now c runId eventId NoticeAttention AxisExecution
                           (Some ''SUBMISSION_RECOVERY_EXHAUSTED'') db2)))"

definition owns_recovery :: "uuid \<Rightarrow> execution_row \<Rightarrow> bool" where
  "owns_recovery token e \<longleftrightarrow> exec_status e = ExecUncertain \<and> exec_claim_token e = Some token"

definition recordUnknownRecoveryOutcome ::
  "store_cfg \<Rightarrow> instant \<Rightarrow> string \<Rightarrow> uuid \<Rightarrow> db \<Rightarrow> (rr_error + bool) \<times> db" where
  "recordUnknownRecoveryOutcome cfg now runId token = transaction (\<lambda>db.
     let c = connectorId cfg in
     Inr (cnt_exec c runId (owns_recovery token) db = 1,
          upd_exec c runId (owns_recovery token)
            (\<lambda>e. e\<lparr>exec_attempt_count := exec_attempt_count e + 1, exec_updated_at := now\<rparr>) db))"

text \<open>\<^verbatim>\<open>ReviewRunStore.failExecution\<close>. The publication event is written only when the publication moved.\<close>

definition logAbandoned :: "instant \<Rightarrow> string \<Rightarrow> string \<Rightarrow> pub_state option \<Rightarrow> db \<Rightarrow> db" where
  "logAbandoned now c runId fromStatus db =
     (case fromStatus of
        None \<Rightarrow> db
      | Some s \<Rightarrow> logEvent now c runId AxisPublication (Some (PubS s)) (PubS PubSkipped)
                    (Some ''PUBLICATION_ABANDONED'') db)"

definition failExecution ::
  "store_cfg \<Rightarrow> instant \<Rightarrow> string \<Rightarrow> string option \<times> string \<Rightarrow> execution_artifact_storage option \<Rightarrow> db \<Rightarrow> (rr_error + bool) \<times> db"
where
  "failExecution cfg now runId error storage = transaction (\<lambda>db.
     case storage_arg runId storage of
       Inl err \<Rightarrow> Inl err
     | Inr v \<Rightarrow>
        (let c = connectorId cfg;
             q = (\<lambda>e. exec_status e \<in> {ExecQueued, ExecRunning});
             db1 = upd_exec c runId q
                     (\<lambda>e. e\<lparr>exec_status := ExecFailed, exec_claim_token := None, exec_claimed_at := None,
                            exec_failure_code := fst error, exec_failure_message := Some (snd error),
                            exec_artifact_storage := v, exec_finished_at := Some now,
                            exec_observed_at := now, exec_updated_at := now\<rparr>) db
         in case pick_exec c runId q db of
              None \<Rightarrow> Inr (False, db1)
            | Some e \<Rightarrow>
                (let (fromStatus, db2) = abandonInFlightPublication now c runId db1;
                     (eventId, db3) = appendEvent now c runId AxisExecution (Some (ExecS (exec_status e)))
                                        (ExecS ExecFailed) (fst error) db2;
                     db4 = queueRunNotice now c runId eventId NoticeFailure AxisExecution (fst error) db3
                 in Inr (True, logAbandoned now c runId fromStatus db4))))"

subsection \<open>The abandonment event\<close>

lemma logAbandoned_frame [simp]:
  "prep_of (logAbandoned now c k s db) = prep_of db" "exec_of (logAbandoned now c k s db) = exec_of db"
  "pub_of (logAbandoned now c k s db) = pub_of db" "steps_of (logAbandoned now c k s db) = steps_of db"
  "cands_of (logAbandoned now c k s db) = cands_of db" "notice_rows (logAbandoned now c k s db) = notice_rows db"
  "keys_ok (logAbandoned now c k s db) = keys_ok db"
  "ids_ok db \<Longrightarrow> ids_ok (logAbandoned now c k s db)"
  "wrote c k db0 db \<Longrightarrow> wrote c k db0 (logAbandoned now c k s db)"
  by (cases s; simp add: logAbandoned_def)+

lemma audit_ok_abandoned [simp]:
  "audit_ok (logAbandoned now c k s db) c k ps es bs \<longleftrightarrow>
     (if s = None then audit_ok db c k ps es bs
      else bs = PubSkipped \<and> last_state db c k AxisExecution = Some (ExecS es) \<and> chained db c k AxisExecution \<and>
        last_state db c k AxisPreparation = Some (PrepS ps) \<and> chained db c k AxisPreparation)"
  by (cases s) (auto simp: logAbandoned_def)

lemma abandoned_frames [simp]:
  "rows_ok (logAbandoned now c k s db) c' k' = rows_ok db c' k'"
  "told (logAbandoned now c k s db) c' k' = told db c' k'"
  by (simp_all add: run_defs split: option.split)

subsection \<open>The operations keep the invariant\<close>

lemma touchObservation_inv: "db_inv db \<Longrightarrow> db_inv (snd (touchObservation cfg now k db))"
  by (rule inv_step [of db "connectorId cfg" k])
    (auto simp: touchObservation_def db_inv_def intro!: run_ok_quiet_exec)

lemma recordArtifactStorage_inv: "db_inv db \<Longrightarrow> db_inv (snd (recordArtifactStorage cfg now k st db))"
  by (rule inv_step [of db "connectorId cfg" k])
    (auto simp: recordArtifactStorage_def db_inv_def intro!: run_ok_quiet_exec
      split: option.split sum.split)

lemma recordUnknownRecoveryOutcome_inv: "db_inv db \<Longrightarrow> db_inv (snd (recordUnknownRecoveryOutcome cfg now k tok db))"
  by (rule inv_step [of db "connectorId cfg" k])
    (auto simp: recordUnknownRecoveryOutcome_def transaction_def Let_def db_inv_def
      intro!: run_ok_quiet_exec)

lemma markRunning_inv:
  assumes "db_inv db" shows "db_inv (snd (markRunning cfg now k db))"
proof (rule inv_step [OF assms])
  note op = markRunning_def transaction_def Let_def cnt_axis [OF invD(1) [OF assms]] pick_axis [OF invD(1) [OF assms]]
  show "wrote (connectorId cfg) k db (snd (markRunning cfg now k db))"
    by (simp add: op)
  show "ids_ok (snd (markRunning cfg now k db))"
    using invD(2) [OF assms] by (simp add: op)
  show "run_ok (snd (markRunning cfg now k db)) (connectorId cfg) k"
    using invD(3) [OF assms, of "connectorId cfg" k]
  proof (cases rule: run_okE)
    case (run p e b)
    show ?thesis
    proof (cases "exec_status e = ExecQueued")
      case True
      have "rows_ok (snd (markRunning cfg now k db)) (connectorId cfg) k"
        using True run(1-11) by (simp add: op rows_ok_def axes_ok_def exec_check_def steps_ok_def)
      moreover have "audited (snd (markRunning cfg now k db)) (connectorId cfg) k"
        using True run(1-3,12) by (simp add: op audited_def audit_ok_def)
      moreover have "told (snd (markRunning cfg now k db)) (connectorId cfg) k"
        using True run(1-3,9,13) by (simp add: op told_def told_ok_def run_failed_def)
      ultimately show ?thesis by (simp add: run_ok_def)
    qed (use run in \<open>simp add: op run_ok_def run_defs\<close>)
  qed (simp add: op run_ok_def run_defs)
qed

lemma recordExecutionSuccess_inv:
  assumes "db_inv db" shows "db_inv (snd (recordExecutionSuccess cfg now k res st db))"
proof (rule inv_step [OF assms])
  note op = recordExecutionSuccess_def transaction_def Let_def cnt_axis [OF invD(1) [OF assms]] pick_axis [OF invD(1) [OF assms]]
  show "wrote (connectorId cfg) k db (snd (recordExecutionSuccess cfg now k res st db))"
    by (simp add: op split: sum.split option.split)
  show "ids_ok (snd (recordExecutionSuccess cfg now k res st db))"
    using invD(2) [OF assms] by (simp add: op split: sum.split option.split)
  show "run_ok (snd (recordExecutionSuccess cfg now k res st db)) (connectorId cfg) k"
    using invD(3) [OF assms, of "connectorId cfg" k]
  proof (cases rule: run_okE)
    case (run p e b)
    show ?thesis
    proof (cases "exec_status e = ExecQueued \<or> exec_status e = ExecRunning")
      case True
      have "rows_ok (snd (recordExecutionSuccess cfg now k res st db)) (connectorId cfg) k"
        using True run(1-11) by (elim disjE; simp add: op rows_ok_def axes_ok_def exec_check_def steps_ok_def split: sum.split)
      moreover have "audited (snd (recordExecutionSuccess cfg now k res st db)) (connectorId cfg) k"
        using True run(1-3,12) by (elim disjE; simp add: op audited_def audit_ok_def split: sum.split)
      moreover have "told (snd (recordExecutionSuccess cfg now k res st db)) (connectorId cfg) k"
        using True run(1-3,9,13) by (elim disjE; simp add: op told_def told_ok_def run_failed_def axes_ok_def split: sum.split)
      ultimately show ?thesis by (simp add: run_ok_def)
    qed (use run in \<open>simp add: op run_ok_def run_defs split: sum.split option.split\<close>)
  qed (simp add: op run_ok_def run_defs split: sum.split option.split)
qed

lemma claimSubmissionRecovery_inv:
  assumes "db_inv db" shows "db_inv (snd (claimSubmissionRecovery cfg now tok k db))"
proof (rule inv_step [OF assms])
  note op = claimSubmissionRecovery_def transaction_def Let_def cnt_axis [OF invD(1) [OF assms]] pick_axis [OF invD(1) [OF assms]]
  show "wrote (connectorId cfg) k db (snd (claimSubmissionRecovery cfg now tok k db))"
    by (simp add: op)
  show "ids_ok (snd (claimSubmissionRecovery cfg now tok k db))"
    using invD(2) [OF assms] by (simp add: op)
  show "run_ok (snd (claimSubmissionRecovery cfg now tok k db)) (connectorId cfg) k"
    using invD(3) [OF assms, of "connectorId cfg" k]
  proof (cases rule: run_okE)
    case (run p e b)
    show ?thesis
    proof (cases "recovery_claimable cfg now e")
      case True
      have "rows_ok (snd (claimSubmissionRecovery cfg now tok k db)) (connectorId cfg) k"
        using True run(1-11) by (simp add: op rows_ok_def exec_check_def recovery_claimable_def)
      moreover have "audited (snd (claimSubmissionRecovery cfg now tok k db)) (connectorId cfg) k"
        using True run(1-3,12) by (simp add: op audited_def audit_ok_def recovery_claimable_def)
      moreover have "told (snd (claimSubmissionRecovery cfg now tok k db)) (connectorId cfg) k"
        using True run(1-3,9,13) by (simp add: op told_def recovery_claimable_def)
      ultimately show ?thesis by (simp add: run_ok_def)
    qed (use run in \<open>simp add: op run_ok_def run_defs\<close>)
  qed (simp add: op run_ok_def run_defs)
qed

lemma resumeOn_inv:
  assumes "db_inv db" shows "db_inv (snd (resumeDisconnectedSubmissionRecoveryOn cfg now k db))"
proof (rule inv_step [OF assms])
  note op = resumeDisconnectedSubmissionRecoveryOn_def Let_def cnt_axis [OF invD(1) [OF assms]] pick_axis [OF invD(1) [OF assms]]
  show "wrote (connectorId cfg) k db (snd (resumeDisconnectedSubmissionRecoveryOn cfg now k db))"
    by (simp add: op)
  show "ids_ok (snd (resumeDisconnectedSubmissionRecoveryOn cfg now k db))"
    using invD(2) [OF assms] by (simp add: op)
  show "run_ok (snd (resumeDisconnectedSubmissionRecoveryOn cfg now k db)) (connectorId cfg) k"
    using invD(3) [OF assms, of "connectorId cfg" k]
  proof (cases rule: run_okE)
    case (run p e b)
    show ?thesis
    proof (cases "exec_status e = ExecDisconnected")
      case True
      have "rows_ok (snd (resumeDisconnectedSubmissionRecoveryOn cfg now k db)) (connectorId cfg) k"
        using True run(1-11) by (simp add: op rows_ok_def axes_ok_def exec_check_def steps_ok_def)
      moreover have "audited (snd (resumeDisconnectedSubmissionRecoveryOn cfg now k db)) (connectorId cfg) k"
        using True run(1-3,12) by (simp add: op audited_def audit_ok_def)
      moreover have "told (snd (resumeDisconnectedSubmissionRecoveryOn cfg now k db)) (connectorId cfg) k"
        using True run(1-3,9,13) by (simp add: op told_def told_ok_def run_failed_def axes_ok_def notice_rows_supersede)
      ultimately show ?thesis by (simp add: run_ok_def)
    qed (use run in \<open>simp add: op run_ok_def run_defs\<close>)
  qed (simp add: op run_ok_def run_defs)
qed

lemma resumeDisconnectedSubmissionRecovery_inv:
  "db_inv db \<Longrightarrow> db_inv (snd (resumeDisconnectedSubmissionRecovery cfg now k db))"
  using resumeOn_inv [of db cfg now k]
  by (cases "resumeDisconnectedSubmissionRecoveryOn cfg now k db")
    (simp add: resumeDisconnectedSubmissionRecovery_def transaction_def)

lemma disconnectExhausted_inv:
  assumes "db_inv db" shows "db_inv (snd (disconnectExhaustedSubmissionRecovery cfg now k m db))"
proof (rule inv_step [OF assms])
  note op = disconnectExhaustedSubmissionRecovery_def transaction_def Let_def split_beta cnt_axis [OF invD(1) [OF assms]] pick_axis [OF invD(1) [OF assms]]
  show "wrote (connectorId cfg) k db (snd (disconnectExhaustedSubmissionRecovery cfg now k m db))"
    by (simp add: op)
  show "ids_ok (snd (disconnectExhaustedSubmissionRecovery cfg now k m db))"
    using invD(2) [OF assms] by (simp add: op)
  show "run_ok (snd (disconnectExhaustedSubmissionRecovery cfg now k m db)) (connectorId cfg) k"
    using invD(3) [OF assms, of "connectorId cfg" k]
  proof (cases rule: run_okE)
    case (run p e b)
    show ?thesis
    proof (cases "recovery_claimable cfg now e \<and> m \<le> exec_attempt_count e")
      case True
      have "rows_ok (snd (disconnectExhaustedSubmissionRecovery cfg now k m db)) (connectorId cfg) k"
        using True run(1-11) by (simp add: op rows_ok_def axes_ok_def exec_check_def steps_ok_def recovery_claimable_def)
      moreover have "audited (snd (disconnectExhaustedSubmissionRecovery cfg now k m db)) (connectorId cfg) k"
        using True run(1-3,12) by (simp add: op audited_def audit_ok_def recovery_claimable_def)
      moreover have "told (snd (disconnectExhaustedSubmissionRecovery cfg now k m db)) (connectorId cfg) k"
        using True run(1-3,9,13) invD(2) [OF assms]
        by (simp add: op told_def told_ok_def run_failed_def axes_ok_def recovery_claimable_def notice_rows_queue
          is_failure_def attention_def)
      ultimately show ?thesis by (simp add: run_ok_def)
    qed (use run in \<open>auto simp: op run_ok_def run_defs\<close>)
  qed (simp add: op run_ok_def run_defs)
qed

lemma failExecution_inv:
  assumes "db_inv db" shows "db_inv (snd (failExecution cfg now k err st db))"
proof (rule inv_step [OF assms])
  note op = failExecution_def transaction_def Let_def split_beta abandon_fst in_flight_def cnt_axis [OF invD(1) [OF assms]] pick_axis [OF invD(1) [OF assms]]
  show "wrote (connectorId cfg) k db (snd (failExecution cfg now k err st db))"
    by (simp add: op split: sum.split option.split)
  show "ids_ok (snd (failExecution cfg now k err st db))"
    using invD(2) [OF assms] by (simp add: op split: sum.split option.split)
  show "run_ok (snd (failExecution cfg now k err st db)) (connectorId cfg) k"
    using invD(3) [OF assms, of "connectorId cfg" k]
  proof (cases rule: run_okE)
    case (run p e b)
    show ?thesis
    proof (cases "exec_status e = ExecQueued \<or> exec_status e = ExecRunning")
      case True
      then have "exec_status e \<in> {ExecQueued, ExecRunning, ExecUncertain, ExecDisconnected}" by auto
      note ax = axes_live(1) [OF run(9) this]
      have "rows_ok (snd (failExecution cfg now k err st db)) (connectorId cfg) k"
        using True run(1-11) ax steps_none [OF run(10)]
        by (elim disjE; simp add: op rows_ok_def axes_ok_def exec_check_def steps_ok_def pub_check_def pub_owned_def
          split: sum.split)
      moreover have "audited (snd (failExecution cfg now k err st db)) (connectorId cfg) k"
        using True run(1-3,12) ax
        by (elim disjE; simp add: op audited_def audit_ok_def logAbandoned_def split: sum.split)
      moreover have "told (snd (failExecution cfg now k err st db)) (connectorId cfg) k"
        using True run(1-3,9,13) ax invD(2) [OF assms]
        by (elim disjE; simp add: op told_def told_ok_def run_failed_def notice_rows_queue is_failure_def split: sum.split)
      ultimately show ?thesis by (simp add: run_ok_def)
    qed (use run in \<open>simp add: op run_ok_def run_defs split: sum.split option.split\<close>)
  qed (simp add: op run_ok_def run_defs split: sum.split option.split)
qed

end
