(* ===== verification/CandidateStore.thy ===== *)
theory CandidateStore
  imports ExecutionStore
begin

text \<open>
  \<^verbatim>\<open>services/review-runs/src/persistence/input-bundle-candidate-store.ts\<close>: the durable intent that
  precedes an input-bundle upload. Every operation first takes the preparation claim
  (\<open>requirePreparationClaim\<close>: the row is \<^verbatim>\<open>preparing\<close> under the caller's token and its lease is live).
  \<^verbatim>\<open>new URL\<close> is the runtime's URL parser, a parameter of \<open>reserve\<close> that answers \<open>None\<close> where it
  throws.
\<close>

definition live_preparer :: "store_cfg \<Rightarrow> instant \<Rightarrow> uuid \<Rightarrow> preparation_row \<Rightarrow> bool" where
  "live_preparer cfg now token p \<longleftrightarrow>
     prep_status p = PrepPreparing \<and> prep_claim_token p = Some token \<and>
     lease_live cfg now (prep_claimed_at p)"

definition requirePreparationClaim ::
  "store_cfg \<Rightarrow> instant \<Rightarrow> string \<Rightarrow> uuid \<Rightarrow> db \<Rightarrow> rr_error + unit" where
  "requirePreparationClaim cfg now runId token db =
     (if cnt_prep (connectorId cfg) runId (live_preparer cfg now token) db \<noteq> 1
      then Inl (PlainError (''Preparation claim was lost for '' @ runId @ ''.''))
      else Inr ())"

subsection \<open>Reservation\<close>

record bundle_reference =
  ref_uri :: string
  ref_digest :: string
  ref_media_type :: string
  ref_size_bytes :: rat

record publication_intent =
  intent_reference :: bundle_reference
  intent_input :: json
  intent_publish_context :: json

record url_parts =
  url_protocol :: string
  url_hostname :: string
  url_search :: string
  url_hash :: string
  url_username :: string
  url_password :: string
  url_port :: string
  url_pathname :: string

text \<open>The reference as the \<^verbatim>\<open>jsonb\<close> column holds it: shorter keys first.\<close>

definition reference_json :: "bundle_reference \<Rightarrow> json" where
  "reference_json r =
     JObj [(''uri'', JStr (ref_uri r)), (''digest'', JStr (ref_digest r)),
           (''media_type'', JStr (ref_media_type r)), (''size_bytes'', JNum (ref_size_bytes r))]"

definition isSafeInteger :: "rat \<Rightarrow> bool" where
  "isSafeInteger x \<longleftrightarrow> of_int \<lfloor>x\<rfloor> = x \<and> \<bar>x\<bar> \<le> 9007199254740991"

definition validateIntent ::
  "(string \<Rightarrow> url_parts option) \<Rightarrow> string \<Rightarrow> bundle_reference \<Rightarrow> rr_error + unit" where
  "validateIntent parse_url runId ref =
     (if \<not> digest_format (ref_digest ref) \<or> ref_media_type ref \<noteq> ''application/tar+zstd'' \<or>
         \<not> isSafeInteger (ref_size_bytes ref) \<or> ref_size_bytes ref < 0
      then Inl (PlainError ''Invalid input bundle reference.'')
      else if js_trim (ref_uri ref) \<noteq> ref_uri ref \<or> list_ex js_space (ref_uri ref)
      then Inl (PlainError ''Invalid input bundle URI.'')
      else
       (case parse_url (ref_uri ref) of
          None \<Rightarrow> Inl (PlainError ''Invalid URL'')
        | Some uri \<Rightarrow>
            if url_protocol uri \<notin> {''s3:'', ''file:''} \<or> url_search uri \<noteq> [] \<or> url_hash uri \<noteq> [] \<or>
               url_username uri \<noteq> [] \<or> url_password uri \<noteq> [] \<or> url_port uri \<noteq> []
            then Inl (PlainError ''Invalid input bundle URI.'')
            else if url_protocol uri = ''s3:'' \<and>
               url_pathname uri \<noteq> ''/runs/'' @ runId @ ''/input/'' @ drop 7 (ref_digest ref) @
                 ''/input-bundle.v1.tar.zst''
            then Inl (PlainError ''Input bundle URI does not match its run and digest.'')
            else Inr ()))"

text \<open>The stored row an INSERT proposes, and the conflict clause's immutability condition.\<close>

definition proposed_candidate ::
  "store_cfg \<Rightarrow> instant \<Rightarrow> string \<Rightarrow> uuid \<Rightarrow> publication_intent \<Rightarrow> candidate_row" where
  "proposed_candidate cfg now runId token intent =
     \<lparr>cand_run_id = runId, cand_connector_id = connectorId cfg,
      cand_digest = ref_digest (intent_reference intent),
      cand_reference = reference_json (intent_reference intent), cand_input = intent_input intent,
      cand_publish_context = intent_publish_context intent, cand_reserved_by = token,
      cand_status = CandReserved, cand_created_at = now, cand_updated_at = now\<rparr>"

definition same_intent :: "candidate_row \<Rightarrow> candidate_row \<Rightarrow> bool" where
  "same_intent x y \<longleftrightarrow>
     cand_connector_id x = cand_connector_id y \<and> cand_reference x = cand_reference y \<and>
     cand_input x = cand_input y \<and> cand_publish_context x = cand_publish_context y"

definition rereserved :: "instant \<Rightarrow> candidate_row \<Rightarrow> candidate_row" where
  "rereserved now x =
     x\<lparr>cand_status := (if cand_status x = CandAbandoned then CandReserved else cand_status x),
       cand_updated_at := (if cand_status x = CandAbandoned then now else cand_updated_at x)\<rparr>"

text \<open>The body of the reservation transaction: claim, INSERT, conflict arbitration.\<close>

definition reserve_tx ::
  "store_cfg \<Rightarrow> instant \<Rightarrow> string \<Rightarrow> uuid \<Rightarrow> publication_intent \<Rightarrow> candidate_row tx" where
  "reserve_tx cfg now runId token intent db =
     (case requirePreparationClaim cfg now runId token db of
        Inl err \<Rightarrow> Inl err
      | Inr _ \<Rightarrow>
         (let new = proposed_candidate cfg now runId token intent in
          if \<not> cand_check new then Inl (CheckViolation ''input_bundle_candidates'')
          else
           (case find (\<lambda>x. cand_run_id x = runId \<and> cand_digest x = cand_digest new)
                   (input_bundle_candidates db) of
              None \<Rightarrow> Inr (new, db\<lparr>input_bundle_candidates := input_bundle_candidates db @ [new]\<rparr>)
            | Some x \<Rightarrow>
                if same_intent x new
                then Inr (rereserved now x,
                       upd_cand (connectorId cfg) runId (\<lambda>y. cand_digest y = cand_digest new)
                         (rereserved now) db)
                else Inl (PlainError ''Input bundle reservation conflicts with an immutable intent.''))))"

definition reserve ::
  "(string \<Rightarrow> url_parts option) \<Rightarrow> store_cfg \<Rightarrow> instant \<Rightarrow> string \<Rightarrow> uuid \<Rightarrow> publication_intent \<Rightarrow> db \<Rightarrow> (rr_error + candidate_row) \<times> db"
where
  "reserve parse_url cfg now runId token intent db =
     (case validateIntent parse_url runId (intent_reference intent) of
        Inl err \<Rightarrow> (Inl err, db)
      | Inr _ \<Rightarrow> transaction (reserve_tx cfg now runId token intent) db)"

subsection \<open>Listing and settling\<close>

definition listCandidates ::
  "store_cfg \<Rightarrow> instant \<Rightarrow> string \<Rightarrow> uuid \<Rightarrow> db \<Rightarrow> (rr_error + candidate_row list) \<times> db" where
  "listCandidates cfg now runId token = transaction (\<lambda>db.
     case requirePreparationClaim cfg now runId token db of
       Inl err \<Rightarrow> Inl err
     | Inr _ \<Rightarrow>
         Inr (sort_key (\<lambda>x. (cand_status x \<noteq> CandSelected, cand_created_at x, cand_digest x))
                (filter (\<lambda>x. cand_status x \<noteq> CandAbandoned) (cands_of db (connectorId cfg) runId)), db))"

text \<open>\<^verbatim>\<open>status: 'present' | 'abandoned'\<close>.\<close>

datatype settlement = SettlePresent | SettleAbandoned

fun settled_status :: "settlement \<Rightarrow> cand_state" where
  "settled_status SettlePresent = CandPresent"
| "settled_status SettleAbandoned = CandAbandoned"

definition settled :: "instant \<Rightarrow> cand_state \<Rightarrow> candidate_row \<Rightarrow> candidate_row" where
  "settled now st x =
     x\<lparr>cand_status := st, cand_updated_at := (if cand_status x = st then cand_updated_at x else now)\<rparr>"

definition settleCandidate ::
  "store_cfg \<Rightarrow> instant \<Rightarrow> string \<Rightarrow> uuid \<Rightarrow> string \<Rightarrow> settlement \<Rightarrow> db \<Rightarrow> (rr_error + candidate_row) \<times> db" where
  "settleCandidate cfg now runId token digest status = transaction (\<lambda>db.
     case requirePreparationClaim cfg now runId token db of
       Inl err \<Rightarrow> Inl err
     | Inr _ \<Rightarrow>
        (let c = connectorId cfg; st = settled_status status;
             q = (\<lambda>x. cand_digest x = digest \<and> (unfinished x \<or> cand_status x = st))
         in case pick_cand c runId q db of
              None \<Rightarrow> Inl (PlainError ''Input bundle candidate cannot make this transition.'')
            | Some x \<Rightarrow> Inr (settled now st x, upd_cand c runId q (settled now st) db)))"

subsection \<open>The operations keep the invariant\<close>

lemma rereserved_simps [simp]:
  "cand_run_id (rereserved now x) = cand_run_id x" "cand_connector_id (rereserved now x) = cand_connector_id x"
  "cand_digest (rereserved now x) = cand_digest x" "cand_input (rereserved now x) = cand_input x"
  "cand_check (rereserved now x) = cand_check x"
  "cand_status (rereserved now x) = (if cand_status x = CandAbandoned then CandReserved else cand_status x)"
  by (simp_all add: rereserved_def cand_check_def)

lemma settled_simps [simp]:
  "cand_run_id (settled now st x) = cand_run_id x" "cand_connector_id (settled now st x) = cand_connector_id x"
  "cand_digest (settled now st x) = cand_digest x" "cand_input (settled now st x) = cand_input x"
  "cand_check (settled now st x) = cand_check x" "cand_status (settled now st x) = st"
  by (simp_all add: settled_def cand_check_def)

lemma settled_status_not_selected [simp]: "settled_status s \<noteq> CandSelected"
  by (cases s) simp_all

lemma upd_cand_inv:
  assumes "db_inv db" "keeps cand_run_id cand_connector_id f" "\<And>x. cand_digest (f x) = cand_digest x"
    and "\<And>x. cand_check (f x) = cand_check x" "\<And>x. cand_input (f x) = cand_input x"
    and "\<And>x. cand_status (f x) = CandSelected \<Longrightarrow> cand_status x = CandSelected"
  shows "db_inv (upd_cand c k q f db)"
proof (rule inv_step [OF assms(1)])
  have "cands_ok inp (map (\<lambda>x. if q x then f x else x) xs)" if "cands_ok inp xs" for inp xs
    using that by (rule cands_ok_map) (use assms(4-6) in \<open>auto split: if_splits\<close>)
  then show "run_ok (upd_cand c k q f db) c k"
    using invD(3) [OF assms(1), of c k] assms(2) unfolding run_ok_def run_defs
    by (simp split: option.splits)
qed (use assms in \<open>auto simp: db_inv_def\<close>)

lemma settleCandidate_inv: "db_inv db \<Longrightarrow> db_inv (snd (settleCandidate cfg now k tok d st db))"
  unfolding settleCandidate_def
  by (rule transaction_preserves, assumption)
    (auto simp: Let_def intro!: upd_cand_inv split: sum.splits option.splits)

lemma listCandidates_same: "snd (listCandidates cfg now k tok db) = db"
  by (simp add: listCandidates_def transaction_def split: sum.split)

text \<open>A new reservation of an existing run.\<close>

definition insert_cand :: "candidate_row \<Rightarrow> db \<Rightarrow> db" where
  "insert_cand x db = db\<lparr>input_bundle_candidates := input_bundle_candidates db @ [x]\<rparr>"

lemma insert_cand_lookup [simp]:
  "prep_of (insert_cand x db) = prep_of db" "exec_of (insert_cand x db) = exec_of db"
  "pub_of (insert_cand x db) = pub_of db" "steps_of (insert_cand x db) = steps_of db"
  "notice_rows (insert_cand x db) = notice_rows db" "axis_events (insert_cand x db) = axis_events db"
  "ids_ok (insert_cand x db) = ids_ok db"
  by (simp_all add: insert_cand_def fun_eq_iff prep_of_def exec_of_def pub_of_def steps_of_def notice_rows_def
      axis_events_def ids_ok_def)

lemma insert_cand_log [simp]:
  "last_state (insert_cand x db) = last_state db" "chained (insert_cand x db) = chained db"
  "audit_ok (insert_cand x db) c k ps es bs = audit_ok db c k ps es bs"
  by (simp_all add: fun_eq_iff last_state_def chained_def audit_ok_def)

lemma insert_cand_cands [simp]:
  "cands_of (insert_cand x db) c k =
     cands_of db c k @ (if cand_connector_id x = c \<and> cand_run_id x = k then [x] else [])"
  by (simp add: insert_cand_def cands_of_def rows_at_def at_key_def)

lemma insert_cand_inv:
  assumes "db_inv db" "prep_of db c k = Some p0" "cand_check x" "cand_status x = CandReserved"
    and "cand_run_id x = k" "cand_connector_id x = c"
    and "\<forall>y \<in> set (input_bundle_candidates db). \<not> (cand_run_id y = k \<and> cand_digest y = cand_digest x)"
  shows "db_inv (insert_cand x db)"
proof (rule inv_step [OF assms(1)])
  have "keys_ok (insert_cand x db)"
    using invD(1) [OF assms(1)] assms(5,7) by (auto simp: keys_ok_def insert_cand_def)
  then show "wrote c k db (insert_cand x db)"
    using assms(5,6) by (auto simp: wrote_def same_run_def)
  show "ids_ok (insert_cand x db)" using invD(2) [OF assms(1)] by simp
  show "run_ok (insert_cand x db) c k"
    using invD(3) [OF assms(1), of c k] assms(2-6)
    by (auto simp: run_ok_def run_defs cands_ok_def split: option.splits)
qed

lemma claimed_prep:
  "requirePreparationClaim cfg now k tok db = Inr u \<Longrightarrow> keys_ok db \<Longrightarrow>
     \<exists>p. prep_of db (connectorId cfg) k = Some p \<and> live_preparer cfg now tok p"
  by (auto simp: requirePreparationClaim_def cnt_axis split: if_splits option.splits)

lemma reserve_tx_inv:
  assumes "db_inv db" "reserve_tx cfg now k tok intent db = Inr (a, db')"
  shows "db_inv db'"
proof -
  define new where "new = proposed_candidate cfg now k tok intent"
  note tx = assms(2) [unfolded reserve_tx_def, folded new_def]
  let ?old = "find (\<lambda>x. cand_run_id x = k \<and> cand_digest x = cand_digest new) (input_bundle_candidates db)"
  have new: "cand_run_id new = k" "cand_connector_id new = connectorId cfg" "cand_status new = CandReserved"
    by (simp_all add: new_def proposed_candidate_def)
  obtain v where claim: "requirePreparationClaim cfg now k tok db = Inr v"
    using assms(2) by (cases "requirePreparationClaim cfg now k tok db") (auto simp: reserve_tx_def)
  then obtain p0 where p0: "prep_of db (connectorId cfg) k = Some p0"
    using claimed_prep invD(1) [OF assms(1)] by blast
  show ?thesis
  proof (cases ?old)
    case None
    with tx claim have db': "cand_check new" "db' = insert_cand new db"
      by (auto simp: Let_def insert_cand_def split: if_splits)
    have "\<forall>y \<in> set (input_bundle_candidates db). \<not> (cand_run_id y = k \<and> cand_digest y = cand_digest new)"
      using None by (simp add: find_None_iff)
    then show ?thesis
      unfolding db'(2) using insert_cand_inv [OF assms(1) p0 db'(1) new(3) new(1,2)] by simp
  next
    case (Some x)
    with tx claim have db': "db' = upd_cand (connectorId cfg) k (\<lambda>y. cand_digest y = cand_digest new)
        (rereserved now) db"
      by (simp add: Let_def split: if_splits)
    show ?thesis
      unfolding db' using assms(1) by (rule upd_cand_inv) (auto split: if_splits)
  qed
qed

lemma reserve_inv: "db_inv db \<Longrightarrow> db_inv (snd (reserve parse_url cfg now k tok intent db))"
  using transaction_preserves [where I = db_inv, OF _ reserve_tx_inv]
  by (cases "validateIntent parse_url k (intent_reference intent)") (simp_all add: reserve_def)

end
