(* ===== verification/PreparationStore.thy ===== *)
theory PreparationStore
  imports CandidateStore
begin

text \<open>
  \<^verbatim>\<open>services/review-runs/src/persistence/preparation-store.ts\<close>: preparation claims and leases, input
  checkpoints, the expiry pass with its per-row savepoints, and failure with its retry budget.
  \<open>locked\<close> are the rows other transactions hold (\<^verbatim>\<open>FOR UPDATE SKIP LOCKED\<close>).
\<close>

definition SUBMISSION_STATE_UNCERTAIN :: string where
  "SUBMISSION_STATE_UNCERTAIN = ''SUBMISSION_STATE_UNCERTAIN''"

definition preparer :: "uuid \<Rightarrow> preparation_row \<Rightarrow> bool" where
  "preparer token p \<longleftrightarrow> prep_status p = PrepPreparing \<and> prep_claim_token p = Some token"

definition renewPreparationClaim ::
  "store_cfg \<Rightarrow> instant \<Rightarrow> string \<Rightarrow> uuid \<Rightarrow> db \<Rightarrow> (rr_error + bool) \<times> db" where
  "renewPreparationClaim cfg now runId token db =
     (let c = connectorId cfg in
      (Inr (cnt_prep c runId (live_preparer cfg now token) db = 1),
       upd_prep c runId (live_preparer cfg now token)
         (\<lambda>p. p\<lparr>prep_claimed_at := Some now, prep_updated_at := now\<rparr>) db))"

subsection \<open>Claiming\<close>

record preparation_work =
  pw_run_id :: string
  pw_workflow :: workflow_name
  pw_input_version :: string
  pw_input :: json
  pw_claim_token :: uuid
  pw_attempt_count :: nat

definition preparation_claimable :: "store_cfg \<Rightarrow> instant \<Rightarrow> db \<Rightarrow> preparation_row \<Rightarrow> bool" where
  "preparation_claimable cfg now db p \<longleftrightarrow>
     prep_connector_id p = connectorId cfg \<and> prep_status p \<in> {PrepPending, PrepUncertain} \<and>
     prep_available_at p \<le> now \<and>
     (case exec_of db (prep_connector_id p) (prep_run_id p) of
        None \<Rightarrow> False | Some e \<Rightarrow> exec_status e = ExecPending)"

definition preparation_join :: "db \<Rightarrow> (preparation_row \<times> review_run_row) list" where
  "preparation_join db = concat (map (\<lambda>p.
     case select_row rr_run_id rr_connector_id (prep_connector_id p) (prep_run_id p) (review_runs db) of
       None \<Rightarrow> [] | Some r \<Rightarrow> [(p, r)]) (preparations db))"

definition preparation_candidate ::
  "store_cfg \<Rightarrow> instant \<Rightarrow> (string \<Rightarrow> bool) \<Rightarrow> db \<Rightarrow> (preparation_row \<times> review_run_row) option" where
  "preparation_candidate cfg now locked db =
     (case sort_key (\<lambda>(p, r). (prep_updated_at p, prep_run_id p))
             (filter (\<lambda>(p, r). preparation_claimable cfg now db p \<and> \<not> locked (prep_run_id p))
               (preparation_join db)) of
        [] \<Rightarrow> None | w # _ \<Rightarrow> Some w)"

definition claimed_preparation :: "instant \<Rightarrow> uuid \<Rightarrow> preparation_row \<Rightarrow> preparation_row" where
  "claimed_preparation now token p =
     p\<lparr>prep_status := PrepPreparing, prep_claim_token := Some token, prep_claimed_at := Some now,
       prep_attempt_count := prep_attempt_count p + 1, prep_failure_code := None,
       prep_failure_message := None, prep_started_at := Some (coalesce (prep_started_at p) now),
       prep_updated_at := now\<rparr>"

definition claimNext ::
  "store_cfg \<Rightarrow> instant \<Rightarrow> (string \<Rightarrow> bool) \<Rightarrow> uuid \<Rightarrow> db \<Rightarrow> (rr_error + preparation_work option) \<times> db" where
  "claimNext cfg now locked token = transaction (\<lambda>db.
     case preparation_candidate cfg now locked db of
       None \<Rightarrow> Inr (None, db)
     | Some (w, r) \<Rightarrow>
        (let c = connectorId cfg; runId = prep_run_id w;
             q = (\<lambda>p. prep_status p = prep_status w);
             db1 = upd_prep c runId q (claimed_preparation now token) db
         in if cnt_prep c runId q db \<noteq> 1
            then Inl (PlainError (''Preparation '' @ runId @ '' could not be claimed.''))
            else Inr (Some \<lparr>pw_run_id = runId, pw_workflow = rr_workflow r,
                            pw_input_version = prep_input_version w, pw_input = prep_input w,
                            pw_claim_token = token, pw_attempt_count = prep_attempt_count w + 1\<rparr>,
                      logEvent now c runId AxisPreparation (Some (PrepS (prep_status w)))
                        (PrepS PrepPreparing) None db1)))"

definition checkpointInput ::
  "store_cfg \<Rightarrow> instant \<Rightarrow> string \<Rightarrow> uuid \<Rightarrow> json \<Rightarrow> db \<Rightarrow> (rr_error + unit) \<times> db" where
  "checkpointInput cfg now runId token inp db =
     (let c = connectorId cfg in
      (if cnt_prep c runId (preparer token) db \<noteq> 1
       then Inl (PlainError (''Preparation claim was lost before checkpointing input for '' @ runId @ ''.''))
       else Inr (),
       upd_prep c runId (preparer token) (\<lambda>p. p\<lparr>prep_input := inp, prep_updated_at := now\<rparr>) db))"

definition preparationHeartbeatIntervalMs :: "store_cfg \<Rightarrow> nat" where
  "preparationHeartbeatIntervalMs cfg = max 1 (min 60000 (claimTimeoutMs cfg div 3))"

subsection \<open>Expiry\<close>

record expiry_result =
  er_concluded :: nat
  er_blocked :: "(string \<times> string) list"

definition expired_preparation :: "instant \<Rightarrow> bool \<Rightarrow> preparation_row \<Rightarrow> preparation_row" where
  "expired_preparation now exhausted p =
     p\<lparr>prep_status := (if exhausted then PrepFailed else PrepUncertain),
       prep_claim_token := None, prep_claimed_at := None, prep_available_at := now,
       prep_failure_code :=
         (if exhausted then Some (coalesce (prep_last_failure_code p) ''PREPARATION_RETRY_EXHAUSTED'') else None),
       prep_failure_message :=
         (if exhausted then Some (coalesce (prep_last_failure_message p)
            ''Preparation claim lease expired after the retry budget was exhausted.'') else None),
       prep_finished_at := (if exhausted then Some now else None), prep_updated_at := now\<rparr>"

definition concludeExpiry :: "store_cfg \<Rightarrow> instant \<Rightarrow> string \<Rightarrow> nat \<Rightarrow> unit tx" where
  "concludeExpiry cfg now runId attemptCount db =
     (let c = connectorId cfg;
          exhausted = (MAX_PREPARATION_ATTEMPTS \<le> attemptCount);
          q = (\<lambda>p. prep_status p = PrepPreparing);
          db1 = upd_prep c runId q (expired_preparation now exhausted) db
      in case map_option (expired_preparation now exhausted) (pick_prep c runId q db) of
           None \<Rightarrow> Inl (PlainError (''Expired preparation '' @ runId @ '' could not be concluded.''))
         | Some row \<Rightarrow>
            (let (preparationEventId, db2) =
                   appendEvent now c runId AxisPreparation (Some (PrepS PrepPreparing)) (PrepS (prep_status row))
                     (if prep_status row = PrepFailed then prep_failure_code row else None) db1
             in if prep_status row \<noteq> PrepFailed then Inr ((), db2)
                else
                 (let (skippedRuns, db3) = skipPendingExecutions now c [runId] db2
                  in if length skippedRuns \<noteq> 1 then Inl (ExpiryUnreconcilable ''EXECUTION_ALREADY_ADVANCED'')
                     else
                      (let (abandoned, db4) = abandonInFlightPublications now c [runId] db3;
                           db5 = queueRunNotice now c runId preparationEventId NoticeFailure AxisPreparation
                                   (prep_failure_code row) db4;
                           db6 = logEvent now c runId AxisExecution (Some (ExecS ExecPending)) (ExecS ExecSkipped)
                                   None db5
                       in Inr ((), logAbandoned now c runId (map_of abandoned runId) db6)))))"

text \<open>The catch branch: the row's writes are rolled back and the row is parked.\<close>

definition blockExpiry :: "store_cfg \<Rightarrow> instant \<Rightarrow> string \<Rightarrow> string \<Rightarrow> db \<Rightarrow> db" where
  "blockExpiry cfg now runId reason db =
     (let c = connectorId cfg;
          q = (\<lambda>p. prep_status p = PrepPreparing);
          db1 = upd_prep c runId q
                  (\<lambda>p. p\<lparr>prep_status := PrepDisconnected, prep_disconnect_reason := Some reason,
                         prep_claim_token := None, prep_claimed_at := None, prep_updated_at := now\<rparr>) db
      in if cnt_prep c runId q db = 1 then
           (let (eventId, db2) = appendEvent now c runId AxisPreparation (Some (PrepS PrepPreparing))
                  (PrepS PrepDisconnected) (Some reason) db1
            in queueRunNotice now c runId eventId NoticeAttention AxisPreparation (Some reason) db2)
         else db1)"

fun expireRows :: "store_cfg \<Rightarrow> instant \<Rightarrow> preparation_row list \<Rightarrow> expiry_result \<Rightarrow> expiry_result tx" where
  "expireRows cfg now [] acc db = Inr (acc, db)"
| "expireRows cfg now (cand # rest) acc db =
     (case concludeExpiry cfg now (prep_run_id cand) (prep_attempt_count cand) db of
        Inr (_, db') \<Rightarrow> expireRows cfg now rest (acc\<lparr>er_concluded := er_concluded acc + 1\<rparr>) db'
      | Inl (ExpiryUnreconcilable reason) \<Rightarrow>
          expireRows cfg now rest (acc\<lparr>er_blocked := er_blocked acc @ [(prep_run_id cand, reason)]\<rparr>)
            (blockExpiry cfg now (prep_run_id cand) reason db)
      | Inl err \<Rightarrow> Inl err)"

definition expiry_candidates ::
  "store_cfg \<Rightarrow> instant \<Rightarrow> (string \<Rightarrow> bool) \<Rightarrow> db \<Rightarrow> preparation_row list" where
  "expiry_candidates cfg now locked db =
     sort_key (\<lambda>p. (prep_updated_at p, prep_run_id p))
       (filter (\<lambda>p. prep_connector_id p = connectorId cfg \<and> prep_status p = PrepPreparing \<and>
                    lease_expired cfg now (prep_claimed_at p) \<and> \<not> locked (prep_run_id p)) (preparations db))"

definition expireStale ::
  "store_cfg \<Rightarrow> instant \<Rightarrow> (string \<Rightarrow> bool) \<Rightarrow> db \<Rightarrow> (rr_error + expiry_result) \<times> db" where
  "expireStale cfg now locked = transaction (\<lambda>db.
     expireRows cfg now (expiry_candidates cfg now locked db) \<lparr>er_concluded = 0, er_blocked = []\<rparr> db)"

subsection \<open>Failure\<close>

definition failed_preparation :: "instant \<Rightarrow> string option \<times> string \<Rightarrow> preparation_row \<Rightarrow> preparation_row" where
  "failed_preparation now error p =
     p\<lparr>prep_status := PrepFailed, prep_claim_token := None, prep_claimed_at := None,
       prep_failure_code := fst error, prep_failure_message := Some (snd error),
       prep_last_failure_code := fst error, prep_last_failure_message := Some (snd error),
       prep_finished_at := Some now, prep_updated_at := now\<rparr>"

text \<open>The retry branch: back to \<^verbatim>\<open>pending\<close> while the budget lasts.\<close>

definition schedule_retry ::
  "store_cfg \<Rightarrow> instant \<Rightarrow> string \<Rightarrow> uuid \<Rightarrow> string option \<times> string \<Rightarrow> int option \<Rightarrow> db \<Rightarrow> nat \<times> db" where
  "schedule_retry cfg now runId token error retryAfterMs db =
     (let c = connectorId cfg;
          q = (\<lambda>p. preparer token p \<and> prep_attempt_count p < MAX_PREPARATION_ATTEMPTS)
      in (cnt_prep c runId q db,
          upd_prep c runId q
            (\<lambda>p. p\<lparr>prep_status := PrepPending, prep_claim_token := None, prep_claimed_at := None,
                   prep_available_at := now + 1000 * max 0 (coalesce retryAfterMs 0),
                   prep_failure_code := fst error, prep_failure_message := Some (snd error),
                   prep_last_failure_code := fst error, prep_last_failure_message := Some (snd error),
                   prep_updated_at := now\<rparr>) db))"

text \<open>The execution write of a terminal failure: the submission may have been accepted, or nothing ran.
  \<open>False\<close> when the execution was not \<^verbatim>\<open>pending\<close>.\<close>

definition conclude_execution ::
  "store_cfg \<Rightarrow> instant \<Rightarrow> string \<Rightarrow> bool \<Rightarrow> string option \<times> string \<Rightarrow> db \<Rightarrow> bool \<times> db" where
  "conclude_execution cfg now runId submissionUncertain error db =
     (let c = connectorId cfg; q = (\<lambda>e. exec_status e = ExecPending) in
      if submissionUncertain then
        (cnt_exec c runId q db = 1,
         upd_exec c runId q
           (\<lambda>e. e\<lparr>exec_status := ExecUncertain, exec_failure_code := fst error,
                  exec_failure_message := Some (snd error), exec_observed_at := now,
                  exec_updated_at := now\<rparr>) db)
      else
        (let (skipped, db') = skipPendingExecutions now c [runId] db in (length skipped = 1, db')))"

definition terminal_failure ::
  "store_cfg \<Rightarrow> instant \<Rightarrow> string \<Rightarrow> uuid \<Rightarrow> string option \<times> string \<Rightarrow> bool tx" where
  "terminal_failure cfg now runId token error db =
     (let c = connectorId cfg;
          submissionUncertain = (fst error = Some SUBMISSION_STATE_UNCERTAIN);
          db1 = upd_prep c runId (preparer token) (failed_preparation now error) db
      in if cnt_prep c runId (preparer token) db \<noteq> 1 then Inr (False, db1)
         else
          (let (concluded, db2) = conclude_execution cfg now runId submissionUncertain error db1
           in if \<not> concluded then
                Inl (PlainError (if submissionUncertain
                  then ''Preparation claim was lost before failing review run '' @ runId @ ''.''
                  else ''Execution for '' @ runId @ '' was not pending when preparation failed.''))
              else
               (let (skippedPublicationFrom, db3) =
                      (if submissionUncertain then (None, db2) else abandonInFlightPublication now c runId db2);
                    (preparationEventId, db4) =
                      appendEvent now c runId AxisPreparation (Some (PrepS PrepPreparing)) (PrepS PrepFailed)
                        (fst error) db3;
                    db5 = (if submissionUncertain then db4
                           else queueRunNotice now c runId preparationEventId NoticeFailure AxisPreparation
                                  (fst error) db4);
                    db6 = logEvent now c runId AxisExecution (Some (ExecS ExecPending))
                            (ExecS (if submissionUncertain then ExecUncertain else ExecSkipped))
                            (if submissionUncertain then Some SUBMISSION_STATE_UNCERTAIN else None) db5
                in Inr (False, logAbandoned now c runId skippedPublicationFrom db6))))"

text \<open>The value is the \<^verbatim>\<open>retry_scheduled\<close> field of the answer.\<close>

definition failPreparation ::
  "store_cfg \<Rightarrow> instant \<Rightarrow> string \<Rightarrow> uuid \<Rightarrow> string option \<times> string \<Rightarrow> bool \<Rightarrow> int option \<Rightarrow> db \<Rightarrow> (rr_error + bool) \<times> db"
where
  "failPreparation cfg now runId token error retry retryAfterMs = transaction (\<lambda>db.
     let (n, db1) = (if retry then schedule_retry cfg now runId token error retryAfterMs db else (0, db))
     in if retry \<and> n = 1
        then Inr (True, logEvent now (connectorId cfg) runId AxisPreparation (Some (PrepS PrepPreparing))
                          (PrepS PrepPending) (fst error) db1)
        else terminal_failure cfg now runId token error db1)"

subsection \<open>Row facts\<close>

lemma claimed_preparation_simps [simp]:
  "prep_run_id (claimed_preparation now tok p) = prep_run_id p"
  "prep_connector_id (claimed_preparation now tok p) = prep_connector_id p"
  "prep_status (claimed_preparation now tok p) = PrepPreparing"
  "prep_attempt_count (claimed_preparation now tok p) = prep_attempt_count p + 1"
  "prep_claim_token (claimed_preparation now tok p) = Some tok"
  by (simp_all add: claimed_preparation_def)

lemma expired_preparation_simps [simp]:
  "prep_run_id (expired_preparation now x p) = prep_run_id p"
  "prep_connector_id (expired_preparation now x p) = prep_connector_id p"
  "prep_status (expired_preparation now x p) = (if x then PrepFailed else PrepUncertain)"
  "prep_attempt_count (expired_preparation now x p) = prep_attempt_count p"
  by (simp_all add: expired_preparation_def)

lemma failed_preparation_simps [simp]:
  "prep_run_id (failed_preparation now err p) = prep_run_id p"
  "prep_connector_id (failed_preparation now err p) = prep_connector_id p"
  "prep_status (failed_preparation now err p) = PrepFailed"
  "prep_attempt_count (failed_preparation now err p) = prep_attempt_count p"
  by (simp_all add: failed_preparation_def)

lemma prep_checks:
  "prep_check p \<Longrightarrow> prep_status p = PrepPending \<or> prep_status p = PrepUncertain \<Longrightarrow> prep_check (claimed_preparation now tok p)"
  "prep_check p \<Longrightarrow> prep_status p = PrepPreparing \<Longrightarrow> prep_check (expired_preparation now x p)"
  "prep_check p \<Longrightarrow> prep_status p = PrepPreparing \<Longrightarrow> prep_check (failed_preparation now err p)"
  by (auto simp: prep_check_def claimed_preparation_def expired_preparation_def failed_preparation_def)

subsection \<open>The operations keep the invariant\<close>

lemma renewPreparationClaim_inv: "db_inv db \<Longrightarrow> db_inv (snd (renewPreparationClaim cfg now k tok db))"
  by (rule inv_step [of db "connectorId cfg" k])
    (auto simp: renewPreparationClaim_def Let_def db_inv_def live_preparer_def prep_check_def
      intro!: run_ok_quiet_prep)

lemma checkpointInput_inv: "db_inv db \<Longrightarrow> db_inv (snd (checkpointInput cfg now k tok inp db))"
  by (rule inv_step [of db "connectorId cfg" k])
    (auto simp: checkpointInput_def Let_def db_inv_def intro!: run_ok_quiet_prep)

text \<open>The candidate of a claim is a row of the table, joined with its trunk.\<close>

lemma preparation_candidateD:
  assumes "preparation_candidate cfg now locked db = Some (w, r)"
  shows "w \<in> set (preparations db)" "preparation_claimable cfg now db w" "\<not> locked (prep_run_id w)"
    "select_row rr_run_id rr_connector_id (prep_connector_id w) (prep_run_id w) (review_runs db) = Some r"
proof -
  have "(w, r) \<in> set (filter (\<lambda>(p, r). preparation_claimable cfg now db p \<and> \<not> locked (prep_run_id p))
      (preparation_join db))"
    using assms unfolding preparation_candidate_def
    by (auto dest!: sort_key_hd_mem split: list.splits)
  then show "w \<in> set (preparations db)" "preparation_claimable cfg now db w" "\<not> locked (prep_run_id w)"
    "select_row rr_run_id rr_connector_id (prep_connector_id w) (prep_run_id w) (review_runs db) = Some r"
    by (auto simp: preparation_join_def split: option.splits)
qed

text \<open>By the primary key, a row of the table is what the look-up by its key returns.\<close>

lemma claimNext_inv:
  assumes "db_inv db" shows "db_inv (snd (claimNext cfg now locked tok db))"
proof (cases "preparation_candidate cfg now locked db")
  case (Some wr)
  obtain w r where wr: "wr = (w, r)" by (cases wr)
  note cand = preparation_candidateD [OF Some [unfolded wr]]
  let ?c = "connectorId cfg" and ?k = "prep_run_id w"
  have conn: "prep_connector_id w = ?c" and st: "prep_status w = PrepPending \<or> prep_status w = PrepUncertain"
    using cand(2) by (auto simp: preparation_claimable_def)
  have pw: "prep_of db ?c ?k = Some w"
    using axis_of_mem(1) [OF invD(1) [OF assms] cand(1)] conn by simp
  note op = claimNext_def transaction_def Let_def Some wr cnt_axis [OF invD(1) [OF assms]] pw
  show ?thesis
  proof (rule inv_step [OF assms])
    show "wrote ?c ?k db (snd (claimNext cfg now locked tok db))" by (simp add: op)
    show "ids_ok (snd (claimNext cfg now locked tok db))" using invD(2) [OF assms] by (simp add: op)
    show "run_ok (snd (claimNext cfg now locked tok db)) ?c ?k"
      using invD(3) [OF assms, of ?c ?k]
    proof (cases rule: run_okE)
      case (run p e b)
      with pw have "p = w" by simp
      with run st prep_checks(1) [of w] have "rows_ok (snd (claimNext cfg now locked tok db)) ?c ?k"
        by (auto simp: op rows_ok_def prep_budget_def axes_ok_def)
      moreover have "audited (snd (claimNext cfg now locked tok db)) ?c ?k"
        using run(1-3,12) \<open>p = w\<close> by (simp add: op audited_def audit_ok_def)
      moreover have "told (snd (claimNext cfg now locked tok db)) ?c ?k"
        using run(1-3,13) by (simp add: op told_def)
      ultimately show ?thesis by (simp add: run_ok_def)
    qed (simp add: pw)
  qed
qed (use assms in \<open>simp add: claimNext_def transaction_def\<close>)

subsection \<open>Expiry\<close>

text \<open>Concluding an expired row always succeeds: a preparation that holds a claim has its execution
  still pending.\<close>

lemma concludeExpiry_ok:
  assumes inv: "db_inv db" and p: "prep_of db (connectorId cfg) k = Some p" "prep_status p = PrepPreparing"
    and n: "prep_attempt_count p = n"
  shows "\<exists>db'. concludeExpiry cfg now k n db = Inr ((), db') \<and> db_inv db' \<and> wrote (connectorId cfg) k db db' \<and>
     prep_of db' (connectorId cfg) k = Some (expired_preparation now (MAX_PREPARATION_ATTEMPTS \<le> n) p)"
  using invD(3) [OF inv, of "connectorId cfg" k]
proof (cases rule: run_okE)
  case (run p' e b)
  with p have p': "p' = p" by simp
  have ax: "exec_status e = ExecPending" "pub_status b = PubPending"
    using axes_preparing [OF run(9)] p(2) p' by auto
  note op = concludeExpiry_def Let_def split_beta abandonInFlightPublications_one abandon_fst in_flight_def
    cnt_axis [OF invD(1) [OF inv]] pick_axis [OF invD(1) [OF inv]] p ax run(1-3)
  define db' where "db' = snd (projr (concludeExpiry cfg now k n db))"
  have res: "concludeExpiry cfg now k n db = Inr ((), db')"
    by (simp add: db'_def op)
  have db': "db' = snd (projr (concludeExpiry cfg now k n db))" by (simp add: res)
  have "wrote (connectorId cfg) k db db'" unfolding db' by (simp add: op)
  moreover have "ids_ok db'" unfolding db' using invD(2) [OF inv] by (simp add: op)
  moreover have "rows_ok db' (connectorId cfg) k"
    unfolding db' using run(4-11) p' n prep_checks(2) [OF run(4) [unfolded p'] p(2)] steps_none [OF run(10)]
    by (auto simp: op rows_ok_def prep_budget_def axes_ok_def exec_check_def pub_check_def pub_owned_def steps_ok_def)
  moreover have "audited db' (connectorId cfg) k"
    unfolding db' using run(12) p' by (auto simp: op audited_def audit_ok_def logAbandoned_def)
  moreover have "told db' (connectorId cfg) k"
    unfolding db' using run(13) p' invD(2) [OF inv]
    by (auto simp: op told_def told_ok_def run_failed_def notice_rows_queue is_failure_def)
  moreover have "prep_of db' (connectorId cfg) k = Some (expired_preparation now (MAX_PREPARATION_ATTEMPTS \<le> n) p)"
    unfolding db' by (simp add: op)
  ultimately show ?thesis
    using res inv_step [OF inv] by (auto simp: run_ok_def)
qed (use p in simp)

text \<open>The pass: every candidate is concluded, none is parked, and no other run is touched.\<close>

lemma same_run_trans: "same_run c k db db1 \<Longrightarrow> same_run c k db1 db2 \<Longrightarrow> same_run c k db db2"
  by (simp add: same_run_def)

lemma expireRows_ok:
  assumes "db_inv db" "distinct (map prep_run_id rows)"
    and "\<And>p. p \<in> set rows \<Longrightarrow> prep_of db (connectorId cfg) (prep_run_id p) = Some p \<and> prep_status p = PrepPreparing"
  shows "\<exists>db'. expireRows cfg now rows acc db = Inr (acc\<lparr>er_concluded := er_concluded acc + length rows\<rparr>, db') \<and>
     db_inv db' \<and>
     (\<forall>p \<in> set rows. prep_of db' (connectorId cfg) (prep_run_id p) =
        Some (expired_preparation now (MAX_PREPARATION_ATTEMPTS \<le> prep_attempt_count p) p)) \<and>
     (\<forall>c k. \<not> (c = connectorId cfg \<and> k \<in> prep_run_id ` set rows) \<longrightarrow> same_run c k db db')"
  using assms
proof (induction rows arbitrary: acc db)
  case Nil
  then show ?case by (auto simp: same_run_def)
next
  case (Cons q rows)
  let ?c = "connectorId cfg"
  obtain db1 where db1: "concludeExpiry cfg now (prep_run_id q) (prep_attempt_count q) db = Inr ((), db1)"
    "db_inv db1" "wrote ?c (prep_run_id q) db db1"
    "prep_of db1 ?c (prep_run_id q) =
       Some (expired_preparation now (MAX_PREPARATION_ATTEMPTS \<le> prep_attempt_count q) q)"
    using concludeExpiry_ok [OF Cons.prems(1), of cfg "prep_run_id q" q] Cons.prems(3) [of q] by auto
  have same: "same_run c k db db1" if "\<not> (c = ?c \<and> k = prep_run_id q)" for c k
    using db1(3) that by (auto simp: wrote_def)
  have "prep_of db1 ?c (prep_run_id p) = Some p \<and> prep_status p = PrepPreparing" if "p \<in> set rows" for p
  proof -
    have "prep_run_id p \<in> prep_run_id ` set rows" using that by blast
    then have "prep_run_id p \<noteq> prep_run_id q" using Cons.prems(2) by auto
    then show ?thesis using same [of ?c "prep_run_id p"] Cons.prems(3) [of p] that by (simp add: same_run_def)
  qed
  from Cons.IH [OF db1(2) _ this, of "acc\<lparr>er_concluded := er_concluded acc + 1\<rparr>"] Cons.prems(2)
  obtain db' where db': "expireRows cfg now rows (acc\<lparr>er_concluded := er_concluded acc + 1\<rparr>) db1 =
      Inr (acc\<lparr>er_concluded := er_concluded acc + 1 + length rows\<rparr>, db')"
    "db_inv db'" "\<forall>p \<in> set rows. prep_of db' ?c (prep_run_id p) =
        Some (expired_preparation now (MAX_PREPARATION_ATTEMPTS \<le> prep_attempt_count p) p)"
    "\<forall>c k. \<not> (c = ?c \<and> k \<in> prep_run_id ` set rows) \<longrightarrow> same_run c k db1 db'"
    by auto
  have "prep_of db' ?c (prep_run_id q) = prep_of db1 ?c (prep_run_id q)"
    using db'(4) Cons.prems(2) by (auto simp: same_run_def)
  moreover have "same_run c k db db'" if "\<not> (c = ?c \<and> k \<in> prep_run_id ` set (q # rows))" for c k
    using that same [of c k] db'(4) by (auto intro: same_run_trans [of c k db db1 db'])
  ultimately show ?case using db' db1 by simp
qed

lemma expiry_candidates_rows:
  assumes "keys_ok db"
  shows "distinct (map prep_run_id (expiry_candidates cfg now locked db))"
    and "p \<in> set (expiry_candidates cfg now locked db) \<Longrightarrow>
      prep_of db (connectorId cfg) (prep_run_id p) = Some p \<and> prep_status p = PrepPreparing"
proof -
  have "distinct (map prep_run_id (filter Q (preparations db)))" for Q
    using assms by (auto simp: keys_ok_def intro: distinct_map_filter)
  then show "distinct (map prep_run_id (expiry_candidates cfg now locked db))"
    unfolding expiry_candidates_def by (simp add: distinct_map)
  show "p \<in> set (expiry_candidates cfg now locked db) \<Longrightarrow>
      prep_of db (connectorId cfg) (prep_run_id p) = Some p \<and> prep_status p = PrepPreparing"
    using axis_of_mem(1) [OF assms, of p] by (auto simp: expiry_candidates_def)
qed

lemma expireStale_ok:
  assumes "db_inv db"
  shows "\<exists>db'. expireStale cfg now locked db =
       (Inr \<lparr>er_concluded = length (expiry_candidates cfg now locked db), er_blocked = []\<rparr>, db') \<and> db_inv db' \<and>
     (\<forall>p \<in> set (expiry_candidates cfg now locked db). prep_of db' (connectorId cfg) (prep_run_id p) =
        Some (expired_preparation now (MAX_PREPARATION_ATTEMPTS \<le> prep_attempt_count p) p)) \<and>
     (\<forall>c k. \<not> (c = connectorId cfg \<and> k \<in> prep_run_id ` set (expiry_candidates cfg now locked db)) \<longrightarrow>
        same_run c k db db')"
  using expireRows_ok [OF assms, of "expiry_candidates cfg now locked db" cfg now "\<lparr>er_concluded = 0, er_blocked = []\<rparr>"]
    expiry_candidates_rows [OF invD(1) [OF assms]]
  by (auto simp: expireStale_def transaction_def)

lemma expireStale_inv: "db_inv db \<Longrightarrow> db_inv (snd (expireStale cfg now locked db))"
  using expireStale_ok [of db cfg now locked] by auto

subsection \<open>Failure\<close>

lemma preparer_axes:
  assumes "run_ok db c k" "prep_of db c k = Some p" "preparer tok p"
  obtains e b where "exec_of db c k = Some e" "pub_of db c k = Some b" "exec_status e = ExecPending"
    "pub_status b = PubPending" "steps_of db c k = []"
  using assms(1)
proof (cases rule: run_okE)
  case (run p' e b)
  with assms axes_preparing [OF run(9)] steps_none [OF run(10)] that show ?thesis
    by (auto simp: preparer_def)
qed (use assms in simp)

text \<open>A terminal failure under a held claim never throws.\<close>

lemma terminal_failure_ok:
  assumes inv: "db_inv db"
  shows "\<exists>db'. terminal_failure cfg now k tok err db = Inr (False, db') \<and> db_inv db' \<and> wrote (connectorId cfg) k db db'"
proof (cases "\<exists>p. prep_of db (connectorId cfg) k = Some p \<and> preparer tok p")
  case True
  then obtain p where p: "prep_of db (connectorId cfg) k = Some p" "preparer tok p" by blast
  obtain e b where eb: "exec_of db (connectorId cfg) k = Some e" "pub_of db (connectorId cfg) k = Some b"
    "exec_status e = ExecPending" "pub_status b = PubPending" "steps_of db (connectorId cfg) k = []"
    using preparer_axes [OF invD(3) [OF inv] p] by blast
  have st: "prep_status p = PrepPreparing" using p(2) by (simp add: preparer_def)
  note op = terminal_failure_def conclude_execution_def Let_def split_beta abandon_fst in_flight_def
    cnt_axis [OF invD(1) [OF inv]] pick_axis [OF invD(1) [OF inv]] p eb
  define db' where "db' = snd (projr (terminal_failure cfg now k tok err db))"
  have res: "terminal_failure cfg now k tok err db = Inr (False, db')"
    by (simp add: db'_def op)
  have db': "db' = snd (projr (terminal_failure cfg now k tok err db))" by (simp add: res)
  have "wrote (connectorId cfg) k db db'" unfolding db' by (simp add: op)
  moreover have "ids_ok db'" unfolding db' using invD(2) [OF inv] by (simp add: op)
  moreover have "rows_ok db' (connectorId cfg) k \<and> audited db' (connectorId cfg) k \<and> told db' (connectorId cfg) k"
    using invD(3) [OF inv, of "connectorId cfg" k]
  proof (cases rule: run_okE)
    case (run p' e' b')
    with p eb have eq: "p' = p" "e' = e" "b' = b" by simp_all
    note run = run [unfolded eq]
    have "rows_ok db' (connectorId cfg) k"
      unfolding db' using run(4-11) st prep_checks(3) [OF run(4) st]
      by (auto simp: op rows_ok_def prep_budget_def axes_ok_def exec_check_def pub_check_def pub_owned_def steps_ok_def)
    moreover have "audited db' (connectorId cfg) k"
      unfolding db' using run(12) st by (auto simp: op audited_def audit_ok_def logAbandoned_def)
    moreover have "told db' (connectorId cfg) k"
      unfolding db' using run(13) invD(2) [OF inv]
      by (auto simp: op told_def told_ok_def run_failed_def notice_rows_queue is_failure_def)
    ultimately show ?thesis by blast
  qed (use p in simp)
  ultimately show ?thesis
    using res inv_step [OF inv] by (auto simp: run_ok_def)
next
  case False
  then have none: "cnt_prep (connectorId cfg) k (preparer tok) db = 0"
    by (auto simp: cnt_axis [OF invD(1) [OF inv]] split: option.split)
  then have "terminal_failure cfg now k tok err db = Inr (False, db)"
    by (simp add: terminal_failure_def Let_def upd_none)
  with inv show ?thesis by simp
qed

lemma schedule_retry_inv:
  assumes inv: "db_inv db" and one: "fst (schedule_retry cfg now k tok err after db) = 1"
  shows "db_inv (logEvent now (connectorId cfg) k AxisPreparation (Some (PrepS PrepPreparing)) (PrepS PrepPending)
     (fst err) (snd (schedule_retry cfg now k tok err after db)))"
proof (rule inv_step [OF inv])
  note op = schedule_retry_def Let_def
  show "wrote (connectorId cfg) k db (logEvent now (connectorId cfg) k AxisPreparation (Some (PrepS PrepPreparing))
     (PrepS PrepPending) (fst err) (snd (schedule_retry cfg now k tok err after db)))"
    by (simp add: op)
  show "ids_ok (logEvent now (connectorId cfg) k AxisPreparation (Some (PrepS PrepPreparing)) (PrepS PrepPending)
     (fst err) (snd (schedule_retry cfg now k tok err after db)))"
    using invD(2) [OF inv] by (simp add: op)
  show "run_ok (logEvent now (connectorId cfg) k AxisPreparation (Some (PrepS PrepPreparing)) (PrepS PrepPending)
     (fst err) (snd (schedule_retry cfg now k tok err after db))) (connectorId cfg) k"
    using invD(3) [OF inv, of "connectorId cfg" k]
  proof (cases rule: run_okE)
    case (run p e b)
    with one have p: "prep_status p = PrepPreparing" "prep_claim_token p = Some tok" "prep_attempt_count p < 8"
      by (auto simp: op cnt_axis [OF invD(1) [OF inv]] preparer_def split: if_splits)
    with run show ?thesis
      by (simp add: op preparer_def run_ok_def rows_ok_def audited_def audit_ok_def told_def prep_check_def
          prep_budget_def axes_ok_def)
  qed (use one in \<open>simp add: op cnt_axis [OF invD(1) [OF inv]]\<close>)
qed

lemma schedule_retry_none:
  assumes inv: "db_inv db" and none: "fst (schedule_retry cfg now k tok err after db) \<noteq> 1"
  shows "snd (schedule_retry cfg now k tok err after db) = db"
proof -
  have "fst (schedule_retry cfg now k tok err after db) = 0"
    using none by (auto simp: schedule_retry_def Let_def cnt_axis [OF invD(1) [OF inv]] split: option.splits if_splits)
  then show ?thesis
    by (simp add: schedule_retry_def Let_def upd_none)
qed

lemma failPreparation_retries:
  assumes "retry" "fst (schedule_retry cfg now k tok err after db) = 1"
  shows "failPreparation cfg now k tok err retry after db =
     (Inr True, logEvent now (connectorId cfg) k AxisPreparation (Some (PrepS PrepPreparing)) (PrepS PrepPending)
        (fst err) (snd (schedule_retry cfg now k tok err after db)))"
  using assms by (simp add: failPreparation_def transaction_def split_beta Let_def)

lemma failPreparation_terminal:
  assumes "db_inv db" "\<not> (retry \<and> fst (schedule_retry cfg now k tok err after db) = 1)"
  shows "failPreparation cfg now k tok err retry after db = transaction (terminal_failure cfg now k tok err) db"
  using assms schedule_retry_none [OF assms(1), of cfg now k tok err after]
  by (auto simp: failPreparation_def transaction_def split_beta Let_def)

lemma failPreparation_inv:
  assumes "db_inv db" shows "db_inv (snd (failPreparation cfg now k tok err retry after db))"
proof (cases "retry \<and> fst (schedule_retry cfg now k tok err after db) = 1")
  case True
  then show ?thesis using schedule_retry_inv [OF assms, of cfg now k tok err after]
    by (simp add: failPreparation_retries)
next
  case False
  obtain db' where "terminal_failure cfg now k tok err db = Inr (False, db')" "db_inv db'"
    using terminal_failure_ok [OF assms] by blast
  then show ?thesis using failPreparation_terminal [OF assms False] by (simp add: transaction_def)
qed

end
