(* ===== verification/ExecutionClient.thy ===== *)
theory ExecutionClient
  imports PreparationStore Text
begin

text \<open>
  \<^verbatim>\<open>services/review-runs/src/execution-client.ts\<close>, \<^verbatim>\<open>bounded-response.ts\<close> and \<^verbatim>\<open>env.ts\<close>: the client of the Execution
  API. The network is the parameter \<open>fetch\<close>, from a request and the number of the attempt to what the call throws or the response;
  \<open>parse_json\<close> and \<open>parse_url\<close> are the runtime's \<^verbatim>\<open>JSON.parse\<close> and \<^verbatim>\<open>new URL\<close>, \<open>num_text\<close> the text of a number. A request
  body is the JSON value it serializes. The waits between attempts have no effect on the result and are left out.
\<close>

subsection \<open>Thrown values\<close>

datatype js_error =
    SubmissionUncertain string
  | ProtocolError string string
  | ServiceError json json string
  | ResponseTooLarge nat
  | NamedError string "string option" string
  | RemoteError "string option" "nat option" "(string \<times> string) list" "string option" string
  | ClaimLostError string
  | DeterministicPublishError string string

text \<open>\<^verbatim>\<open>error.message\<close>, and \<^verbatim>\<open>error.code\<close> where it is a string. \<open>NamedError\<close> is any other error, by name: a
  \<^verbatim>\<open>TypeError\<close> is one named so. The last three are what the connector throws and sees: an error with an HTTP status, the
  headers and the message of its response; a lost publication claim; a publish result that cannot succeed.\<close>

fun error_message :: "js_error \<Rightarrow> string" where
  "error_message (SubmissionUncertain m) = m"
| "error_message (ProtocolError c m) = m"
| "error_message (ServiceError c r m) = m"
| "error_message (ResponseTooLarge n) = ''Response exceeds the '' @ nat_string n @ ''-byte budget.''"
| "error_message (NamedError name c m) = m"
| "error_message (RemoteError c st hs rm m) = m"
| "error_message (ClaimLostError m) = m"
| "error_message (DeterministicPublishError c m) = m"

fun error_code :: "js_error \<Rightarrow> string option" where
  "error_code (SubmissionUncertain m) = Some SUBMISSION_STATE_UNCERTAIN"
| "error_code (ProtocolError c m) = Some c"
| "error_code (ServiceError c r m) = (case c of JStr s \<Rightarrow> Some s | _ \<Rightarrow> None)"
| "error_code (ResponseTooLarge n) = None"
| "error_code (NamedError name c m) = c"
| "error_code (RemoteError c st hs rm m) = c"
| "error_code (ClaimLostError m) = None"
| "error_code (DeterministicPublishError c m) = Some c"

fun is_uncertain :: "js_error \<Rightarrow> bool" where
  "is_uncertain (SubmissionUncertain m) = True"
| "is_uncertain _ = False"

definition EXECUTION_RUN_NOT_FOUND :: string where
  "EXECUTION_RUN_NOT_FOUND = ''EXECUTION_RUN_NOT_FOUND''"

fun isTerminalExecutionPollingError :: "js_error \<Rightarrow> bool" where
  "isTerminalExecutionPollingError (ProtocolError c m) = True"
| "isTerminalExecutionPollingError (ServiceError c r m) = (r = JBool False \<or> c = JStr EXECUTION_RUN_NOT_FOUND)"
| "isTerminalExecutionPollingError _ = False"

subsection \<open>JSON values in JavaScript\<close>

text \<open>\<^verbatim>\<open>String(value)\<close>; the elements of an array are joined by commas, its nulls empty.\<close>

fun js_string :: "(rat \<Rightarrow> string) \<Rightarrow> json \<Rightarrow> string"
  and js_join :: "(rat \<Rightarrow> string) \<Rightarrow> json list \<Rightarrow> string"
where
  "js_string num_text JNull = ''null''"
| "js_string num_text (JBool b) = (if b then ''true'' else ''false'')"
| "js_string num_text (JNum n) = num_text n"
| "js_string num_text (JStr s) = s"
| "js_string num_text (JArr vs) = js_join num_text vs"
| "js_string num_text (JObj kvs) = ''[object Object]''"
| "js_join num_text [] = []"
| "js_join num_text [v] = (if v = JNull then [] else js_string num_text v)"
| "js_join num_text (v # w # vs) = (if v = JNull then [] else js_string num_text v) @ '','' @ js_join num_text (w # vs)"

text \<open>\<^verbatim>\<open>source.k ?? d\<close> reads a null field as missing.\<close>

definition json_given :: "json \<Rightarrow> string \<Rightarrow> json option" where
  "json_given v k = (if json_field v k = Some JNull then None else json_field v k)"

fun json_keys :: "json \<Rightarrow> string list" where
  "json_keys (JObj kvs) = map fst kvs"
| "json_keys _ = []"

text \<open>\<^verbatim>\<open>encodeURIComponent\<close> over the bytes of the text.\<close>

definition hex_upper :: "nat \<Rightarrow> char" where
  "hex_upper n = (if n < 10 then char_of (48 + n) else char_of (55 + n))"

definition encodeURIComponent :: "string \<Rightarrow> string" where
  "encodeURIComponent s = concat (map (\<lambda>x. let n = of_char x :: nat in
     if 48 \<le> n \<and> n \<le> 57 \<or> 65 \<le> n \<and> n \<le> 90 \<or> 97 \<le> n \<and> n \<le> 122 \<or> n \<in> {33, 39, 40, 41, 42, 45, 46, 95, 126}
     then [x] else [CHR ''%'', hex_upper (n div 16), hex_upper (n mod 16)]) s)"

subsection \<open>Environment\<close>

record exec_env =
  EXECUTION_API_URL :: "string option"
  EXECUTION_API_TOKEN :: "string option"
  EXECUTION_API_REQUEST_RETRIES :: "string option"
  EXECUTION_API_REQUEST_TIMEOUT_MS :: "string option"
  EXECUTION_API_RETRY_BASE_DELAY_MS :: "string option"

definition digit :: "char \<Rightarrow> bool" where
  "digit x \<longleftrightarrow> x \<in> set ''0123456789''"

definition digits_value :: "string \<Rightarrow> int" where
  "digits_value s = foldl (\<lambda>n x. 10 * n + (of_char x - 48)) 0 s"

text \<open>\<^verbatim>\<open>/^[+-]?\d+$/\<close>, and the value \<^verbatim>\<open>Number\<close> gives such a text.\<close>

fun decimal_integer :: "string \<Rightarrow> int option" where
  "decimal_integer [] = None"
| "decimal_integer (x # xs) =
     (if x = CHR ''+'' \<or> x = CHR ''-''
      then (if xs \<noteq> [] \<and> list_all digit xs
            then Some (if x = CHR ''-'' then - digits_value xs else digits_value xs) else None)
      else if list_all digit (x # xs) then Some (digits_value (x # xs)) else None)"

definition plain_error :: "string \<Rightarrow> js_error" where
  "plain_error m = NamedError ''Error'' None m"

definition int_string :: "int \<Rightarrow> string" where
  "int_string n = (if n < 0 then ''-'' else []) @ nat_string (nat \<bar>n\<bar>)"

definition MAX_SAFE_INTEGER :: int where
  "MAX_SAFE_INTEGER = 9007199254740991"

definition integerEnv :: "string \<Rightarrow> string option \<Rightarrow> int \<Rightarrow> int \<Rightarrow> int \<Rightarrow> js_error + int" where
  "integerEnv name raw defaultValue minimum maximum =
     (case raw of
        None \<Rightarrow> Inr defaultValue
      | Some r \<Rightarrow>
         (case decimal_integer (js_trim r) of
            None \<Rightarrow> Inl (plain_error (name @ '' must be a decimal integer.''))
          | Some parsed \<Rightarrow>
              if \<bar>parsed\<bar> > MAX_SAFE_INTEGER then Inl (plain_error (name @ '' must be a safe integer.''))
              else if parsed < minimum then Inl (plain_error (name @ '' must be at least '' @ int_string minimum @ ''.''))
              else if parsed > maximum then Inl (plain_error (name @ '' must be at most '' @ int_string maximum @ ''.''))
              else Inr parsed))"

text \<open>\<^verbatim>\<open>value.replace(/\/+$/, '')\<close>.\<close>

definition strip_slashes :: "string \<Rightarrow> string" where
  "strip_slashes s = rev (dropWhile (\<lambda>x. x = CHR ''/'') (rev s))"

definition serviceUrl :: "exec_env \<Rightarrow> js_error + string" where
  "serviceUrl env =
     (case map_option js_trim (EXECUTION_API_URL env) of
        None \<Rightarrow> Inl (NamedError ''Error'' (Some ''EXECUTION_API_URL_MISSING'') ''EXECUTION_API_URL is required.'')
      | Some value \<Rightarrow>
          if value = [] then Inl (NamedError ''Error'' (Some ''EXECUTION_API_URL_MISSING'') ''EXECUTION_API_URL is required.'')
          else Inr (strip_slashes value))"

text \<open>Node's \<^verbatim>\<open>isIP\<close> answers 4 for four decimal octets without leading zeros; \<^verbatim>\<open>::1\<close> is the one IPv6 text that counts.\<close>

definition octet_text :: "string \<Rightarrow> bool" where
  "octet_text s \<longleftrightarrow> s \<noteq> [] \<and> length s \<le> 3 \<and> list_all digit s \<and> digits_value s \<le> 255 \<and> (hd s = CHR ''0'' \<longrightarrow> length s = 1)"

definition is_ipv4 :: "string \<Rightarrow> bool" where
  "is_ipv4 s \<longleftrightarrow> length (split_on (CHR ''.'') s) = 4 \<and> list_all octet_text (split_on (CHR ''.'') s)"

definition isLoopback :: "string \<Rightarrow> bool" where
  "isLoopback hostname =
     (if hostname = ''localhost'' then True
      else (let value = (if hostname \<noteq> [] \<and> hd hostname = CHR ''['' \<and> last hostname = CHR '']''
                         then butlast (tl hostname) else hostname)
            in (is_ipv4 value \<and> hd (split_on (CHR ''.'') value) = ''127'') \<or> value = ''::1''))"

definition serviceHeaders ::
  "(string \<Rightarrow> url_parts option) \<Rightarrow> exec_env \<Rightarrow> string \<Rightarrow> js_error + (string \<times> string) list" where
  "serviceHeaders parse_url env url =
     (let token = coalesce (map_option js_trim (EXECUTION_API_TOKEN env)) [] in
      case parse_url url of
        None \<Rightarrow> Inl (NamedError ''TypeError'' (Some ''ERR_INVALID_URL'') ''Invalid URL'')
      | Some parsed \<Rightarrow>
          if token = [] \<and> \<not> (url_protocol parsed = ''http:'' \<and> isLoopback (url_hostname parsed))
          then Inl (NamedError ''Error'' (Some ''EXECUTION_API_TOKEN_MISSING'')
            ''EXECUTION_API_TOKEN is required unless the Execution API uses loopback HTTP.'')
          else Inr ((''content-type'', ''application/json'') #
            (if token \<noteq> [] then [(''authorization'', ''Bearer '' @ token)] else [])))"

subsection \<open>Responses\<close>

datatype chunk_read = Chunk string | ReadFailed js_error

record http_response =
  resp_status :: nat
  resp_content_length :: "string option"
  resp_body :: "chunk_read list option"

record http_request =
  req_url :: string
  req_method :: string
  req_headers :: "(string \<times> string) list"
  req_body :: "json option"

fun read_chunks :: "nat \<Rightarrow> string \<Rightarrow> chunk_read list \<Rightarrow> js_error + string" where
  "read_chunks maximumBytes acc [] = Inr acc"
| "read_chunks maximumBytes acc (ReadFailed err # rest) = Inl err"
| "read_chunks maximumBytes acc (Chunk value # rest) =
     (if length acc + length value > maximumBytes then Inl (ResponseTooLarge maximumBytes)
      else read_chunks maximumBytes (acc @ value) rest)"

definition readBoundedResponseBody :: "http_response \<Rightarrow> nat \<Rightarrow> js_error + string" where
  "readBoundedResponseBody response maximumBytes =
     (if (case resp_content_length response of
            None \<Rightarrow> False
          | Some text \<Rightarrow> text \<noteq> [] \<and> list_all digit text \<and> digits_value text > int maximumBytes)
      then Inl (ResponseTooLarge maximumBytes)
      else (case resp_body response of
              None \<Rightarrow> Inr []
            | Some chunks \<Rightarrow> read_chunks maximumBytes [] chunks))"

definition MAX_EXECUTION_RESPONSE_BYTES :: nat where
  "MAX_EXECUTION_RESPONSE_BYTES = 4 * 1024 * 1024"

text \<open>\<^verbatim>\<open>new TextDecoder().decode\<close> drops one leading byte order mark.\<close>

definition decode_text :: "string \<Rightarrow> string" where
  "decode_text s =
     (if map of_char (take 3 s) = [239::nat, 187, 191] then utf8_text (drop 3 s) else utf8_text s)"

definition readBoundedResponseText :: "http_response \<Rightarrow> js_error + string" where
  "readBoundedResponseText response =
     (case readBoundedResponseBody response MAX_EXECUTION_RESPONSE_BYTES of
        Inr body \<Rightarrow> Inr (decode_text body)
      | Inl (ResponseTooLarge n) \<Rightarrow>
          Inl (ProtocolError ''EXECUTION_RESPONSE_TOO_LARGE'' ''Execution returned a response larger than the protocol budget.'')
      | Inl err \<Rightarrow> Inl err)"

definition isRetryableStatus :: "nat \<Rightarrow> bool" where
  "isRetryableStatus status \<longleftrightarrow> status = 429 \<or> status \<ge> 500"

definition response_ok :: "nat \<Rightarrow> bool" where
  "response_ok status \<longleftrightarrow> 200 \<le> status \<and> status \<le> 299"

definition executionError :: "(rat \<Rightarrow> string) \<Rightarrow> json \<Rightarrow> nat \<Rightarrow> js_error" where
  "executionError num_text body status =
     (let source = (case json_field body ''error'' of
                      Some e \<Rightarrow> if json_is_object e then e else JObj [] | None \<Rightarrow> JObj [])
      in ServiceError
           (coalesce (json_given source ''code'') (JStr ''EXECUTION_API_ERROR''))
           (coalesce (json_given source ''retryable'') (JBool (isRetryableStatus status)))
           (coalesce (map_option (js_string num_text) (json_given source ''message''))
              (''Execution returned HTTP '' @ nat_string status @ ''.'')))"

fun isTransientTransportError :: "js_error \<Rightarrow> bool" where
  "isTransientTransportError (NamedError name c m) = (name = ''TypeError'' \<or> name = ''AbortError'')"
| "isTransientTransportError _ = False"

subsection \<open>Requests\<close>

text \<open>A request as its caller gives it: the path below the service URL, the method, its own headers and the body.\<close>

record request_init =
  init_path :: string
  init_method :: string
  init_headers :: "(string \<times> string) list"
  init_body :: "json option"

record reply =
  reply_status :: nat
  reply_body :: json
  reply_parse_error :: "js_error option"

text \<open>The runtime the client runs on.\<close>

record runtime =
  rt_env :: exec_env
  rt_fetch :: "http_request \<Rightarrow> nat \<Rightarrow> js_error + http_response"
  rt_parse_json :: "string \<Rightarrow> string + json"
  rt_parse_url :: "string \<Rightarrow> url_parts option"
  rt_num_text :: "rat \<Rightarrow> string"

definition merge_headers :: "(string \<times> string) list \<Rightarrow> (string \<times> string) list \<Rightarrow> (string \<times> string) list" where
  "merge_headers base own = filter (\<lambda>(k, v). k \<notin> fst ` set own) base @ own"

text \<open>The body of the loop: one \<^verbatim>\<open>fetch\<close> with what it reads, or what it throws.\<close>

definition attempt_once :: "runtime \<Rightarrow> string \<Rightarrow> request_init \<Rightarrow> nat \<Rightarrow> js_error + reply" where
  "attempt_once rt base init attempt =
     (case serviceHeaders (rt_parse_url rt) (rt_env rt) base of
        Inl err \<Rightarrow> Inl err
      | Inr headers \<Rightarrow>
     (case rt_fetch rt \<lparr>req_url = base @ init_path init, req_method = init_method init,
             req_headers = merge_headers headers (init_headers init), req_body = init_body init\<rparr> attempt of
        Inl err \<Rightarrow> Inl err
      | Inr response \<Rightarrow>
     (case readBoundedResponseText response of
        Inl (ProtocolError c m) \<Rightarrow>
          Inr \<lparr>reply_status = resp_status response, reply_body = JNull, reply_parse_error = Some (ProtocolError c m)\<rparr>
      | Inl err \<Rightarrow> Inl err
      | Inr text \<Rightarrow>
          if js_trim text = []
          then Inr \<lparr>reply_status = resp_status response, reply_body = JNull, reply_parse_error = None\<rparr>
          else (case rt_parse_json rt text of
                  Inl m \<Rightarrow> Inr \<lparr>reply_status = resp_status response, reply_body = JNull,
                    reply_parse_error = Some (NamedError ''SyntaxError'' None m)\<rparr>
                | Inr v \<Rightarrow> Inr \<lparr>reply_status = resp_status response, reply_body = v, reply_parse_error = None\<rparr>))))"

text \<open>The retry loop, by the retries left.\<close>

fun request_loop :: "runtime \<Rightarrow> string \<Rightarrow> request_init \<Rightarrow> nat \<Rightarrow> nat \<Rightarrow> js_error + reply" where
  "request_loop rt base init attempt 0 = attempt_once rt base init attempt"
| "request_loop rt base init attempt (Suc left) =
     (case attempt_once rt base init attempt of
        Inr r \<Rightarrow> if \<not> isRetryableStatus (reply_status r) then Inr r else request_loop rt base init (Suc attempt) left
      | Inl err \<Rightarrow> if \<not> isTransientTransportError err then Inl err else request_loop rt base init (Suc attempt) left)"

definition request :: "runtime \<Rightarrow> request_init \<Rightarrow> js_error + reply" where
  "request rt init =
     (let env = rt_env rt in
      case serviceUrl env of
        Inl err \<Rightarrow> Inl err
      | Inr base \<Rightarrow>
     (case integerEnv ''EXECUTION_API_REQUEST_RETRIES'' (EXECUTION_API_REQUEST_RETRIES env) 2 0 MAX_SAFE_INTEGER of
        Inl err \<Rightarrow> Inl err
      | Inr retries \<Rightarrow>
     (case integerEnv ''EXECUTION_API_REQUEST_TIMEOUT_MS'' (EXECUTION_API_REQUEST_TIMEOUT_MS env) 30000 1 MAX_SAFE_INTEGER of
        Inl err \<Rightarrow> Inl err
      | Inr timeout \<Rightarrow>
     (case integerEnv ''EXECUTION_API_RETRY_BASE_DELAY_MS'' (EXECUTION_API_RETRY_BASE_DELAY_MS env) 500 1 MAX_SAFE_INTEGER of
        Inl err \<Rightarrow> Inl err
      | Inr delay \<Rightarrow> request_loop rt base init 0 (nat retries)))))"

subsection \<open>Run responses\<close>

definition EXECUTION_STATUSES :: "string list" where
  "EXECUTION_STATUSES = [''queued'', ''running'', ''succeeded'', ''failed'']"

fun workflow_text :: "workflow_name \<Rightarrow> string" where
  "workflow_text IssueReview = ''issue-review''"
| "workflow_text PullRequestReview = ''pull-request-review''"
| "workflow_text RepositoryReview = ''repository-review''"

definition isWorkflow :: "json option \<Rightarrow> bool" where
  "isWorkflow v \<longleftrightarrow> v \<in> (Some \<circ> JStr \<circ> workflow_text) ` {IssueReview, PullRequestReview, RepositoryReview}"

definition parseResponse :: "json \<Rightarrow> string \<Rightarrow> workflow_name option \<Rightarrow> js_error + (string \<times> json)" where
  "parseResponse body expectedRunId expectedWorkflow =
     (case json_field body ''status'' of
        Some (JStr status) \<Rightarrow>
          if status \<notin> set EXECUTION_STATUSES
          then Inl (ProtocolError ''EXECUTION_INVALID_STATUS'' (''Execution returned an unknown status: '' @ status @ ''.''))
          else if json_field body ''run_id'' \<noteq> Some (JStr expectedRunId)
          then Inl (ProtocolError ''EXECUTION_IDENTITY_MISMATCH''
            (''Execution returned an unexpected run_id for '' @ expectedRunId @ ''.''))
          else if \<not> isWorkflow (json_field body ''workflow'') \<or>
            (case expectedWorkflow of None \<Rightarrow> False | Some w \<Rightarrow> json_field body ''workflow'' \<noteq> Some (JStr (workflow_text w)))
          then Inl (ProtocolError ''EXECUTION_WORKFLOW_MISMATCH''
            (''Execution returned an unexpected workflow for '' @ expectedRunId @ ''.''))
          else Inr (status, body)
      | _ \<Rightarrow> Inl (ProtocolError ''EXECUTION_INVALID_RESPONSE'' ''Execution returned an invalid run response.''))"

definition creation_request :: "workflow_name \<Rightarrow> string \<Rightarrow> json \<Rightarrow> request_init" where
  "creation_request workflow run_id input =
     \<lparr>init_path = ''/v1/workflows/'' @ encodeURIComponent (workflow_text workflow) @ ''/runs'', init_method = ''POST'',
      init_headers = [], init_body = Some (JObj [(''run_id'', JStr run_id), (''input'', input)])\<rparr>"

definition submitExecutionRun :: "runtime \<Rightarrow> workflow_name \<Rightarrow> string \<Rightarrow> json \<Rightarrow> js_error + unit" where
  "submitExecutionRun rt workflow run_id input =
     (case request rt (creation_request workflow run_id input) of
        Inl err \<Rightarrow> Inl (SubmissionUncertain (''Execution submission state is uncertain for run '' @ run_id @ ''.''))
      | Inr r \<Rightarrow>
          if \<not> response_ok (reply_status r)
          then (if isRetryableStatus (reply_status r)
                then Inl (SubmissionUncertain (''Execution submission returned HTTP '' @ nat_string (reply_status r) @
                       '' for run '' @ run_id @ ''.''))
                else Inl (executionError (rt_num_text rt) (reply_body r) (reply_status r)))
          else (case (case reply_parse_error r of
                        Some err \<Rightarrow> Inl err | None \<Rightarrow> parseResponse (reply_body r) run_id (Some workflow)) of
                  Inl err \<Rightarrow> Inl (SubmissionUncertain (''Execution accepted run '' @ run_id @
                       '', but returned an invalid creation response.''))
                | Inr v \<Rightarrow> Inr ()))"

subsection \<open>Artifact storage\<close>

definition parseDiagnosticArtifactUri :: "(string \<Rightarrow> url_parts option) \<Rightarrow> json option \<Rightarrow> string \<Rightarrow> string option" where
  "parseDiagnosticArtifactUri parse_url value runId =
     (case value of
        Some (JStr text) \<Rightarrow>
         (case parse_url text of
            None \<Rightarrow> None
          | Some uri \<Rightarrow>
              if url_protocol uri \<noteq> ''s3:'' \<or> url_hostname uri = [] \<or> url_username uri \<noteq> [] \<or> url_password uri \<noteq> [] \<or>
                 url_port uri \<noteq> [] \<or> url_search uri \<noteq> [] \<or> url_hash uri \<noteq> [] \<or>
                 url_pathname uri \<noteq> ''/runs/'' @ runId @ ''/artifacts/diagnostic-tree.v1.tar.zst''
              then None else Some text)
      | _ \<Rightarrow> None)"

text \<open>\<^verbatim>\<open>value !== undefined && typeof value !== 'string'\<close>, negated.\<close>

fun string_or_missing :: "json option \<Rightarrow> bool" where
  "string_or_missing None = True"
| "string_or_missing (Some (JStr s)) = True"
| "string_or_missing _ = False"

fun string_field :: "json option \<Rightarrow> string option" where
  "string_field (Some (JStr s)) = Some s"
| "string_field _ = None"

definition invalid_artifact_storage :: "string \<Rightarrow> js_error" where
  "invalid_artifact_storage runId = ProtocolError ''EXECUTION_INVALID_ARTIFACT_STORAGE''
     (''Execution returned invalid artifact storage metadata for '' @ runId @ ''.'')"

text \<open>The reference once checked, as \<^verbatim>\<open>jsonb\<close> orders it.\<close>

definition diagnostic_reference :: "string \<Rightarrow> string \<Rightarrow> rat \<Rightarrow> json" where
  "diagnostic_reference uri digest bytes =
     JObj [(''uri'', JStr uri), (''kind'', JStr ''diagnostic_bundle''), (''digest'', JStr digest),
           (''media_type'', JStr ''application/tar+zstd''), (''size_bytes'', JNum bytes)]"

definition parse_available_artifact :: "(string \<Rightarrow> url_parts option) \<Rightarrow> json \<Rightarrow> string \<Rightarrow> json option" where
  "parse_available_artifact parse_url artifact runId =
     (if \<not> json_is_object artifact \<or>
         \<not> set (json_keys artifact) \<subseteq> {''kind'', ''uri'', ''media_type'', ''digest'', ''size_bytes''} \<or>
         json_field artifact ''kind'' \<noteq> Some (JStr ''diagnostic_bundle'') \<or>
         json_field artifact ''media_type'' \<noteq> Some (JStr ''application/tar+zstd'')
      then None
      else (case (parseDiagnosticArtifactUri parse_url (json_field artifact ''uri'') runId,
                  json_field artifact ''digest'', json_field artifact ''size_bytes'') of
              (Some uri, Some (JStr digest), Some (JNum bytes)) \<Rightarrow>
                if digest_format digest \<and> isSafeInteger bytes \<and> bytes \<ge> 0
                then Some (diagnostic_reference uri digest bytes) else None
            | _ \<Rightarrow> None))"

definition parseArtifactStorage ::
  "(rat \<Rightarrow> string) \<Rightarrow> (string \<Rightarrow> url_parts option) \<Rightarrow> json \<Rightarrow> string \<Rightarrow> js_error + execution_artifact_storage" where
  "parseArtifactStorage num_text parse_url value runId =
     (case json_field value ''status'' of
        None \<Rightarrow> Inl (invalid_artifact_storage runId)
      | Some status \<Rightarrow>
          if js_string num_text status \<notin> {''available'', ''unavailable'', ''failed''}
          then Inl (invalid_artifact_storage runId)
          else if status \<noteq> JStr ''available'' then
            (if json_field value ''artifact'' \<noteq> None \<or> \<not> set (json_keys value) \<subseteq> {''status'', ''error_code'', ''message''} \<or>
                \<not> string_or_missing (json_field value ''error_code'') \<or> \<not> string_or_missing (json_field value ''message'')
             then Inl (invalid_artifact_storage runId)
             else Inr \<lparr>ast_status = status, ast_artifact = None, ast_error_code = string_field (json_field value ''error_code''),
                       ast_message = string_field (json_field value ''message'')\<rparr>)
          else if \<not> set (json_keys value) \<subseteq> {''status'', ''artifact''} then Inl (invalid_artifact_storage runId)
          else (case Option.bind (json_field value ''artifact'') (\<lambda>a. parse_available_artifact parse_url a runId) of
                  None \<Rightarrow> Inl (invalid_artifact_storage runId)
                | Some a \<Rightarrow> Inr \<lparr>ast_status = status, ast_artifact = Some a, ast_error_code = None, ast_message = None\<rparr>))"

subsection \<open>Status reads\<close>

record execution_run_status =
  ers_run_id :: string
  ers_workflow :: json
  ers_status :: string
  ers_result :: "json option"
  ers_memory_processing :: "json option"
  ers_error :: "json option"
  ers_artifact_storage :: "execution_artifact_storage option"

definition if_record :: "json option \<Rightarrow> json option" where
  "if_record v = (case v of Some x \<Rightarrow> if json_is_object x then Some x else None | None \<Rightarrow> None)"

text \<open>The check both status reads share before they look at the body.\<close>

definition checked_body :: "runtime \<Rightarrow> string \<Rightarrow> reply \<Rightarrow> js_error + json" where
  "checked_body rt what r =
     (if \<not> response_ok (reply_status r) then Inl (executionError (rt_num_text rt) (reply_body r) (reply_status r))
      else (case reply_parse_error r of
              None \<Rightarrow> Inr (reply_body r)
            | Some (ProtocolError c m) \<Rightarrow> Inl (ProtocolError c m)
            | Some err \<Rightarrow> Inl (ProtocolError ''EXECUTION_INVALID_JSON'' (''Execution returned invalid JSON for '' @ what @ ''.''))))"

definition getExecutionRunStatus :: "runtime \<Rightarrow> string \<Rightarrow> workflow_name option \<Rightarrow> js_error + execution_run_status" where
  "getExecutionRunStatus rt runId workflow =
     (case request rt \<lparr>init_path = ''/v1/runs/'' @ encodeURIComponent runId, init_method = ''GET'', init_headers = [],
             init_body = None\<rparr> of
        Inl err \<Rightarrow> Inl err
      | Inr r \<Rightarrow>
     (case checked_body rt runId r of
        Inl err \<Rightarrow> Inl err
      | Inr body \<Rightarrow>
     (case parseResponse body runId workflow of
        Inl err \<Rightarrow> Inl err
      | Inr (status, parsed) \<Rightarrow>
     (case (case json_field parsed ''artifact_storage'' of
              None \<Rightarrow> Inr None
            | Some v \<Rightarrow> (case parseArtifactStorage (rt_num_text rt) (rt_parse_url rt) v runId of
                           Inl err \<Rightarrow> Inl err | Inr st \<Rightarrow> Inr (Some st))) of
        Inl err \<Rightarrow> Inl err
      | Inr storage \<Rightarrow>
          Inr \<lparr>ers_run_id = runId, ers_workflow = coalesce (json_field parsed ''workflow'') JNull, ers_status = status,
               ers_result = json_field parsed ''result'', ers_memory_processing = if_record (json_field parsed ''memory_processing''),
               ers_error = if_record (json_field parsed ''error''), ers_artifact_storage = storage\<rparr>))))"

record run_status_batch =
  rsb_runs :: "(string \<times> string) list"
  rsb_missing :: "string list"
  rsb_byRunId :: "string \<rightharpoonup> string"

fun read_status_entries :: "json list \<Rightarrow> js_error + (string \<times> string) list" where
  "read_status_entries [] = Inr []"
| "read_status_entries (entry # rest) =
     (case (json_field entry ''run_id'', json_field entry ''status'') of
        (Some (JStr k), Some (JStr status)) \<Rightarrow>
          if status \<notin> set EXECUTION_STATUSES
          then Inl (ProtocolError ''EXECUTION_INVALID_STATUS'' (''Execution returned an unknown status: '' @ status @ ''.''))
          else (case read_status_entries rest of Inl err \<Rightarrow> Inl err | Inr es \<Rightarrow> Inr ((k, status) # es))
      | _ \<Rightarrow> Inl (ProtocolError ''EXECUTION_INVALID_RESPONSE'' ''Execution returned an invalid status entry.''))"

text \<open>\<^verbatim>\<open>Map.set\<close> in order: a later entry wins.\<close>

definition by_run_id :: "(string \<times> string) list \<Rightarrow> string \<rightharpoonup> string" where
  "by_run_id es = map_of (rev es)"

definition readExecutionRunStatuses :: "runtime \<Rightarrow> string list \<Rightarrow> js_error + run_status_batch" where
  "readExecutionRunStatuses rt runIds =
     (case request rt \<lparr>init_path = ''/v1/runs/status'', init_method = ''POST'',
             init_headers = [(''content-type'', ''application/json'')],
             init_body = Some (JObj [(''run_ids'', JArr (map JStr runIds))])\<rparr> of
        Inl err \<Rightarrow> Inl err
      | Inr r \<Rightarrow>
     (case checked_body rt ''a status query'' r of
        Inl err \<Rightarrow> Inl err
      | Inr body \<Rightarrow>
     (case (json_field body ''runs'', json_field body ''missing'') of
        (Some (JArr runs), Some (JArr missing)) \<Rightarrow>
         (case read_status_entries runs of
            Inl err \<Rightarrow> Inl err
          | Inr es \<Rightarrow> Inr \<lparr>rsb_runs = es, rsb_missing = List.map_filter (\<lambda>v. string_field (Some v)) missing,
                           rsb_byRunId = by_run_id es\<rparr>)
      | _ \<Rightarrow> Inl (ProtocolError ''EXECUTION_INVALID_RESPONSE'' ''Execution returned an invalid status query response.''))))"

definition EXECUTION_STATUS_QUERY_LIMIT :: nat where
  "EXECUTION_STATUS_QUERY_LIMIT = 200"

text \<open>The accumulating loop over slices.\<close>

function read_status_slices :: "runtime \<Rightarrow> run_status_batch \<Rightarrow> string list \<Rightarrow> js_error + run_status_batch" where
  "read_status_slices rt acc runIds =
     (if runIds = [] then Inr acc
      else (case readExecutionRunStatuses rt (take EXECUTION_STATUS_QUERY_LIMIT runIds) of
              Inl err \<Rightarrow> Inl err
            | Inr batch \<Rightarrow>
                read_status_slices rt \<lparr>rsb_runs = rsb_runs acc @ rsb_runs batch, rsb_missing = rsb_missing acc @ rsb_missing batch,
                  rsb_byRunId = rsb_byRunId acc ++ rsb_byRunId batch\<rparr> (drop EXECUTION_STATUS_QUERY_LIMIT runIds)))"
  by pat_completeness auto
termination
  by (relation "measure (length \<circ> snd \<circ> snd)") (auto simp: EXECUTION_STATUS_QUERY_LIMIT_def)

declare read_status_slices.simps [simp del]

definition getExecutionRunStatuses :: "runtime \<Rightarrow> string list \<Rightarrow> js_error + run_status_batch" where
  "getExecutionRunStatuses rt runIds =
     read_status_slices rt \<lparr>rsb_runs = [], rsb_missing = [], rsb_byRunId = (\<lambda>_. None)\<rparr> runIds"

subsection \<open>What the client concludes\<close>

text \<open>An attempt after which the loop goes on, if it may.\<close>

definition retryable :: "js_error + reply \<Rightarrow> bool" where
  "retryable out = (case out of Inl err \<Rightarrow> isTransientTransportError err | Inr r \<Rightarrow> isRetryableStatus (reply_status r))"

lemma request_loop_attempt:
  "\<exists>i \<le> left. request_loop rt base init attempt left = attempt_once rt base init (attempt + i) \<and>
     (\<forall>j < i. retryable (attempt_once rt base init (attempt + j))) \<and>
     (i < left \<longrightarrow> \<not> retryable (attempt_once rt base init (attempt + i)))"
proof (induction left arbitrary: attempt)
  case (Suc left)
  show ?case
  proof (cases "retryable (attempt_once rt base init attempt)")
    case True
    then have "request_loop rt base init attempt (Suc left) = request_loop rt base init (Suc attempt) left"
      by (auto simp: retryable_def split: sum.splits)
    moreover obtain i where i: "i \<le> left"
      "request_loop rt base init (Suc attempt) left = attempt_once rt base init (Suc attempt + i)"
      "\<forall>j < i. retryable (attempt_once rt base init (Suc attempt + j))"
      "i < left \<longrightarrow> \<not> retryable (attempt_once rt base init (Suc attempt + i))"
      using Suc.IH [of "Suc attempt"] by auto
    moreover have "retryable (attempt_once rt base init (attempt + j))" if "j < Suc i" for j
      using that True i(3) by (cases j) auto
    ultimately show ?thesis by (intro exI [of _ "Suc i"]) auto
  next
    case False
    then show ?thesis by (intro exI [of _ 0]) (auto simp: retryable_def split: sum.splits)
  qed
qed simp

lemma request_Inr:
  assumes "request rt init = Inr r"
  obtains base attempt where "attempt_once rt base init attempt = Inr r"
proof -
  obtain base left where "request_loop rt base init 0 left = Inr r"
    using assms by (auto simp: request_def Let_def split: sum.splits)
  then show thesis using request_loop_attempt [of left rt base init 0] that by auto
qed

lemma executionError_certain [simp]: "\<not> is_uncertain (executionError num_text body status)"
  by (simp add: executionError_def Let_def)

lemma parseResponse_names:
  assumes "parseResponse body k (Some w) = Inr v"
  shows "json_field body ''run_id'' = Some (JStr k)" "json_field body ''workflow'' = Some (JStr (workflow_text w))"
  using assms by (auto simp: parseResponse_def split: option.splits json.splits if_splits)

lemma read_chunks_bound: "read_chunks n acc chunks = Inr body \<Longrightarrow> length acc \<le> n \<Longrightarrow> length body \<le> n"
  by (induction n acc chunks rule: read_chunks.induct) (auto split: if_splits)

definition chunk_bytes :: "chunk_read \<Rightarrow> string" where
  "chunk_bytes x = (case x of Chunk s \<Rightarrow> s | ReadFailed err \<Rightarrow> [])"

lemma read_chunks_exact:
  "read_chunks n acc chunks = Inr body \<longleftrightarrow>
     (\<forall>x \<in> set chunks. \<exists>s. x = Chunk s) \<and> body = acc @ concat (map chunk_bytes chunks) \<and>
     (chunks \<noteq> [] \<longrightarrow> length body \<le> n)"
proof (induction n acc chunks rule: read_chunks.induct)
  case (3 n acc v rest)
  then show ?case by (cases rest) (auto simp: chunk_bytes_def)
qed (auto simp: chunk_bytes_def)

lemma parseArtifactStorage_narrows:
  "parseArtifactStorage num_text parse_url v k = Inr st \<Longrightarrow> \<exists>a. normalizeArtifactStorage (Some st) ctx = Inr (Some a)"
  by (auto simp: parseArtifactStorage_def normalizeArtifactStorage_def split: option.splits if_splits)

text \<open>The slices of a batch, as a list.\<close>

function slices :: "nat \<Rightarrow> 'a list \<Rightarrow> 'a list list" where
  "slices n xs = (if xs = [] \<or> n = 0 then [] else take n xs # slices n (drop n xs))"
  by pat_completeness auto
termination
  by (relation "measure (length \<circ> snd)") auto

declare slices.simps [simp del]

lemma slices_props:
  "0 < n \<Longrightarrow> concat (slices n xs) = xs" "\<forall>s \<in> set (slices n xs). 0 < length s \<and> length s \<le> n"
proof (induction n xs rule: slices.induct)
  case (1 n xs)
  {
    case 1
    with "1.IH"(1) show ?case by (subst slices.simps) simp
  next
    case 2
    with "1.IH"(2) show ?case by (subst slices.simps) simp
  }
qed

fun merge_batches :: "run_status_batch \<Rightarrow> (js_error + run_status_batch) list \<Rightarrow> js_error + run_status_batch" where
  "merge_batches acc [] = Inr acc"
| "merge_batches acc (Inl err # rest) = Inl err"
| "merge_batches acc (Inr b # rest) =
     merge_batches \<lparr>rsb_runs = rsb_runs acc @ rsb_runs b, rsb_missing = rsb_missing acc @ rsb_missing b,
       rsb_byRunId = rsb_byRunId acc ++ rsb_byRunId b\<rparr> rest"

lemma read_status_slices_merge:
  "read_status_slices rt acc ids = merge_batches acc (map (readExecutionRunStatuses rt) (slices EXECUTION_STATUS_QUERY_LIMIT ids))"
proof (induction rt acc ids rule: read_status_slices.induct)
  case (1 rt acc ids)
  have "0 < EXECUTION_STATUS_QUERY_LIMIT" by (simp add: EXECUTION_STATUS_QUERY_LIMIT_def)
  then show ?case
    using 1 by (cases "readExecutionRunStatuses rt (take EXECUTION_STATUS_QUERY_LIMIT ids)")
      (simp_all add: read_status_slices.simps [of rt acc ids] slices.simps [of _ ids])
qed

lemma read_status_entries_statuses:
  "read_status_entries es = Inr out \<Longrightarrow> \<forall>(k, s) \<in> set out. s \<in> set EXECUTION_STATUSES"
  by (induction es arbitrary: out rule: read_status_entries.induct)
    (simp, fastforce split: option.splits json.splits if_splits sum.splits)

subsection \<open>Properties\<close>

text \<open>A runtime whose first attempt fails in transport and whose second is answered by \<open>response\<close>.\<close>

definition demo_runtime :: "http_response \<Rightarrow> runtime" where
  "demo_runtime response =
     \<lparr>rt_env = \<lparr>EXECUTION_API_URL = Some ''http://localhost/ '', EXECUTION_API_TOKEN = None,
        EXECUTION_API_REQUEST_RETRIES = Some ''+1'', EXECUTION_API_REQUEST_TIMEOUT_MS = None,
        EXECUTION_API_RETRY_BASE_DELAY_MS = None\<rparr>,
      rt_fetch = (\<lambda>req attempt. if attempt = 0 then Inl (NamedError ''TypeError'' None ''fetch failed'') else Inr response),
      rt_parse_json = (\<lambda>text. if text = ''ok'' then Inr (JObj [(''run_id'', JStr ''run-1''), (''status'', JStr ''queued''),
         (''workflow'', JStr ''issue-review'')]) else Inl ''Unexpected token''),
      rt_parse_url = (\<lambda>url. Some \<lparr>url_protocol = ''http:'', url_hostname = ''localhost'', url_search = [], url_hash = [],
         url_username = [], url_password = [], url_port = [], url_pathname = ''/''\<rparr>),
      rt_num_text = (\<lambda>n. ''0'')\<rparr>"

definition demo_response :: "nat \<Rightarrow> string \<Rightarrow> http_response" where
  "demo_response status text = \<lparr>resp_status = status, resp_content_length = None, resp_body = Some [Chunk text]\<rparr>"

text \<open>C12. A submission is reported as rejected only when an attempt was answered with an HTTP status that is neither a success nor
  retryable, and as accepted only when the Execution answered with a success whose body names this run and this workflow; every other
  outcome (no answer, 429, 5xx, an unreadable or foreign success body) is reported as uncertain.\<close>

theorem submission_outcome_evidence:
  "(\<forall>err. submitExecutionRun rt w k input = Inl err \<and> \<not> is_uncertain err \<longrightarrow>
      (\<exists>base attempt r. attempt_once rt base (creation_request w k input) attempt = Inr r \<and> \<not> response_ok (reply_status r) \<and>
         \<not> isRetryableStatus (reply_status r) \<and> err = executionError (rt_num_text rt) (reply_body r) (reply_status r))) \<and>
   (submitExecutionRun rt w k input = Inr () \<longrightarrow>
      (\<exists>base attempt r. attempt_once rt base (creation_request w k input) attempt = Inr r \<and> response_ok (reply_status r) \<and>
         json_field (reply_body r) ''run_id'' = Some (JStr k) \<and>
         json_field (reply_body r) ''workflow'' = Some (JStr (workflow_text w))))"
proof -
  let ?init = "creation_request w k input"
  show ?thesis
  proof (cases "request rt ?init")
    case (Inl err)
    then show ?thesis by (simp add: submitExecutionRun_def)
  next
    case (Inr r)
    obtain base attempt where att: "attempt_once rt base ?init attempt = Inr r" by (rule request_Inr [OF Inr])
    show ?thesis
    proof (cases "response_ok (reply_status r)")
      case False
      then show ?thesis using Inr att by (auto simp: submitExecutionRun_def)
    next
      case True
      have "submitExecutionRun rt w k input = Inr () \<Longrightarrow> \<exists>v. parseResponse (reply_body r) k (Some w) = Inr v"
        using True Inr by (auto simp: submitExecutionRun_def split: option.splits sum.splits)
      moreover have "is_uncertain err" if "submitExecutionRun rt w k input = Inl err" for err
        using that True Inr by (auto simp: submitExecutionRun_def split: option.splits sum.splits)
      ultimately show ?thesis using att True parseResponse_names [of "reply_body r" k w] by blast
    qed
  qed
qed

theorem submission_outcome_evidence_witness:
  "\<exists>base attempt r. attempt_once (demo_runtime (demo_response 409 [])) base (creation_request IssueReview ''run-1'' JNull) attempt =
       Inr r \<and>
     \<not> response_ok (reply_status r) \<and> \<not> isRetryableStatus (reply_status r)"
proof -
  have "\<exists>err. submitExecutionRun (demo_runtime (demo_response 409 [])) IssueReview ''run-1'' JNull = Inl err \<and> \<not> is_uncertain err"
    by (rule exI [of _ "executionError (\<lambda>n. ''0'') JNull 409"])
      (simp add: submitExecutionRun_def request_def attempt_once_def demo_runtime_def demo_response_def serviceUrl_def
        serviceHeaders_def integerEnv_def js_trim_def js_space_def digit_def digits_value_def MAX_SAFE_INTEGER_def
        isLoopback_def readBoundedResponseText_def readBoundedResponseBody_def MAX_EXECUTION_RESPONSE_BYTES_def
        decode_text_def utf8_text_def utf8_lossy.simps [of "[]"] response_ok_def isRetryableStatus_def)
  then show ?thesis
    using submission_outcome_evidence [of "demo_runtime (demo_response 409 [])" IssueReview "''run-1''" JNull] by blast
qed

text \<open>C15. The retry loop ends after at most one attempt more than its retries, with the outcome of the first attempt that is
  not retryable or of the last.\<close>

theorem retry_loop_decides:
  "\<exists>i \<le> left. request_loop rt base init attempt left = attempt_once rt base init (attempt + i) \<and>
     (\<forall>j < i. retryable (attempt_once rt base init (attempt + j))) \<and>
     (i < left \<longrightarrow> \<not> retryable (attempt_once rt base init (attempt + i)))"
  by (rule request_loop_attempt)

theorem retry_loop_decides_witness:
  "\<exists>i. i \<le> 3 \<and> request_loop (demo_runtime (demo_response 200 ''ok'')) ''http://localhost''
       \<lparr>init_path = ''/'', init_method = ''GET'', init_headers = [], init_body = None\<rparr> 0 3 =
     attempt_once (demo_runtime (demo_response 200 ''ok'')) ''http://localhost''
       \<lparr>init_path = ''/'', init_method = ''GET'', init_headers = [], init_body = None\<rparr> i"
  using retry_loop_decides [of 3 "demo_runtime (demo_response 200 ''ok'')" "''http://localhost''"
      "\<lparr>init_path = ''/'', init_method = ''GET'', init_headers = [], init_body = None\<rparr>" 0] by auto

text \<open>A response body that is read at all is the concatenation of the chunks that arrived and is within the budget.\<close>

theorem response_budget:
  assumes "readBoundedResponseBody response n = Inr body"
  shows "length body \<le> n \<and>
     body = concat (map chunk_bytes (case resp_body response of None \<Rightarrow> [] | Some chunks \<Rightarrow> chunks))"
  using assms read_chunks_bound [of n "[]"]
  by (auto simp: readBoundedResponseBody_def read_chunks_exact split: if_splits option.splits)

theorem response_budget_witness:
  "readBoundedResponseBody (demo_response 200 ''ok'') 2 = Inr ''ok'' \<and> length ''ok'' \<le> 2"
proof -
  have "readBoundedResponseBody (demo_response 200 ''ok'') 2 = Inr ''ok''" by code_simp
  with response_budget [OF this] show ?thesis by simp
qed

text \<open>Every artifact storage record the client accepts is one the store's narrowing accepts, so recording an observed
  outcome never fails on it.\<close>

theorem accepted_storage_narrows:
  assumes "parseArtifactStorage num_text parse_url v k = Inr st"
  shows "\<exists>a. normalizeArtifactStorage (Some st) ctx = Inr (Some a)"
  using assms by (rule parseArtifactStorage_narrows)

theorem accepted_storage_narrows_witness:
  "\<exists>a. normalizeArtifactStorage (Some \<lparr>ast_status = JStr ''failed'', ast_artifact = None, ast_error_code = Some ''E'',
     ast_message = None\<rparr>) ''run'' = Inr (Some a)"
proof -
  have "parseArtifactStorage (\<lambda>n. ''0'') (\<lambda>u. None) (JObj [(''status'', JStr ''failed''), (''error_code'', JStr ''E'')]) ''run-1'' =
      Inr \<lparr>ast_status = JStr ''failed'', ast_artifact = None, ast_error_code = Some ''E'', ast_message = None\<rparr>"
    by code_simp
  then show ?thesis by (rule accepted_storage_narrows)
qed

text \<open>The status check goes through \<^verbatim>\<open>String(value.status)\<close>, so a one-element array passes for the status it holds and is
  returned as an array, which the contract does not allow.\<close>

theorem array_status_accepted:
  "parseArtifactStorage num_text parse_url (JObj [(''status'', JArr [JStr ''available''])]) k =
     Inr \<lparr>ast_status = JArr [JStr ''available''], ast_artifact = None, ast_error_code = None, ast_message = None\<rparr>"
  by (simp add: parseArtifactStorage_def)

text \<open>A status read of any number of runs is the merge of reads of slices that cover the ids in order, none empty and
  none over the Execution API's limit of 200.\<close>

theorem status_reads_sliced:
  "getExecutionRunStatuses rt ids =
     merge_batches \<lparr>rsb_runs = [], rsb_missing = [], rsb_byRunId = (\<lambda>_. None)\<rparr>
       (map (readExecutionRunStatuses rt) (slices 200 ids)) \<and>
   concat (slices 200 ids) = ids \<and> list_all (\<lambda>s. 0 < length s \<and> length s \<le> 200) (slices 200 ids)"
  using slices_props [of 200 ids]
  by (simp add: getExecutionRunStatuses_def read_status_slices_merge EXECUTION_STATUS_QUERY_LIMIT_def list_all_iff)

end
