(* ===== verification/Statistics.thy ===== *)
theory Statistics
  imports ExecutionClient "HOL-Library.Multiset"
begin

text \<open>
  The statistics of a concluded execution: \<^verbatim>\<open>statistics/langfuse-observations-client.ts\<close> reads the model calls of a run from Langfuse, and
  \<^verbatim>\<open>statistics/execution-statistics.ts\<close> aggregates them into totals and groups. A number of tokens is a natural number; sums are taken exactly, as
  JavaScript does below \<^verbatim>\<open>2^53\<close>. Parameters: the answers of Langfuse, \<open>parse_json\<close> (\<^verbatim>\<open>JSON.parse\<close>), \<open>date_ms\<close> (\<^verbatim>\<open>Date.parse\<close>), \<open>locale_key\<close> (the sort key
  \<^verbatim>\<open>localeCompare\<close> compares texts by) and \<open>hash\<close> (SHA-256 of the JSON text of a fingerprint).
\<close>

subsection \<open>Observations\<close>

definition REVIEW_AGENT_NAMES :: "string list" where
  "REVIEW_AGENT_NAMES =
     [''repository-discovery'', ''repository-triager'', ''issue-analyzer'', ''pull-request-analyzer'', ''repository-analyzer'', ''issue-mitigator'',
      ''issue-mitigator-self-check'', ''pull-request-mitigator'', ''repository-mitigator'', ''issue-verifier'', ''pull-request-verifier'',
      ''repository-verifier'', ''issue-single-agent'', ''repository-cvss-v4-scorer'', ''repository-delivery-planner'', ''patch-synthesizer'']"

datatype token_field = InputTokens | OutputTokens | TotalTokens | CacheReadInputTokens | CacheCreationInputTokens | ReasoningTokens

definition TOKEN_FIELDS :: "token_field list" where
  "TOKEN_FIELDS = [InputTokens, OutputTokens, TotalTokens, CacheReadInputTokens, CacheCreationInputTokens, ReasoningTokens]"

type_synonym token_usage = "token_field \<Rightarrow> nat option"

record langfuse_observation =
  lo_id :: string
  lo_trace_id :: string
  lo_metadata :: "(string \<times> json) list"
  lo_model :: "string option"
  lo_usage_details :: "(string \<times> json) list option"

record statistics_read =
  sr_roots :: "langfuse_observation list"
  sr_generations :: "langfuse_observation list"
  sr_excluded_non_review_root_count :: nat

subsection \<open>Tokens\<close>

fun stringValue :: "json option \<Rightarrow> string option" where
  "stringValue (Some (JStr s)) = (if js_trim s \<noteq> [] then Some s else None)"
| "stringValue _ = None"

fun nonNegativeInteger :: "json option \<Rightarrow> nat option" where
  "nonNegativeInteger (Some (JStr s)) =
     (if s = [] \<or> \<not> list_all digit s then None
      else if digits_value s \<le> MAX_SAFE_INTEGER then Some (nat (digits_value s)) else None)"
| "nonNegativeInteger _ = None"

fun tokenValue :: "json option \<Rightarrow> nat option" where
  "tokenValue (Some (JNum q)) =
     (if q = of_int (floor q) \<and> 0 \<le> q \<and> floor q \<le> MAX_SAFE_INTEGER then Some (nat (floor q)) else None)"
| "tokenValue _ = None"

text \<open>The usage of a call, and whether the total of the source differs from the derived one.\<close>

definition tokenUsage :: "langfuse_observation \<Rightarrow> (token_usage \<times> bool) option" where
  "tokenUsage observation =
     (case lo_usage_details observation of
        None \<Rightarrow> None
      | Some details \<Rightarrow>
         (let value = (\<lambda>name. tokenValue (map_of details name));
              ordinaryInput = value ''input''; ordinaryOutput = value ''output''; total = value ''total'';
              cacheRead = value ''cache_read_input_tokens''; cacheCreation = value ''cache_creation_input_tokens''; reasoning = value ''reasoning''
          in if ordinaryInput = None \<and> ordinaryOutput = None \<and> total = None \<and> cacheRead = None \<and> cacheCreation = None \<and> reasoning = None then None
             else
              (let inputTokens = map_option (\<lambda>n. n + coalesce cacheRead 0 + coalesce cacheCreation 0) ordinaryInput;
                   outputTokens = map_option (\<lambda>n. n + coalesce reasoning 0) ordinaryOutput;
                   derivedTotal = Option.bind inputTokens (\<lambda>i. map_option (\<lambda>out. i + out) outputTokens)
               in Some
                 (\<lambda>field. case field of
                    InputTokens \<Rightarrow> inputTokens | OutputTokens \<Rightarrow> outputTokens | TotalTokens \<Rightarrow> derivedTotal | CacheReadInputTokens \<Rightarrow> cacheRead
                  | CacheCreationInputTokens \<Rightarrow> cacheCreation | ReasoningTokens \<Rightarrow> reasoning,
                  total \<noteq> None \<and> derivedTotal \<noteq> None \<and> total \<noteq> derivedTotal))))"

definition completeTotals :: "(token_field \<Rightarrow> nat) \<Rightarrow> (token_field \<Rightarrow> nat) \<Rightarrow> nat \<Rightarrow> token_usage" where
  "completeTotals tsums reported callCount field =
     (if 0 < callCount \<and> reported field = callCount then Some (tsums field) else None)"

subsection \<open>Aggregation\<close>

record group_key =
  gk_agent_name :: string
  gk_case_id :: "string option"
  gk_delivery_id :: "string option"
  gk_pass_kind :: "string option"
  gk_pass_index :: "nat option"
  gk_batch_index :: "nat option"
  gk_chunk_id :: "string option"
  gk_provider :: string
  gk_model :: "string option"

record group_accumulator =
  ga_key :: group_key
  ga_model_call_count :: nat
  ga_usage_reported_call_count :: nat
  ga_sums :: "token_field \<Rightarrow> nat"
  ga_reported :: "token_field \<Rightarrow> nat"

record statistics_group =
  sg_key :: group_key
  sg_model_call_count :: nat
  sg_usage_reported_call_count :: nat
  sg_token_usage :: token_usage

datatype usage_coverage = CompleteForObservedCalls | PartialUsage | UsageUnavailable

record statistics_snapshot =
  ss_observation_set_hash :: string
  ss_root_trace_count :: nat
  ss_excluded_non_review_root_count :: nat
  ss_observed_call_count :: nat
  ss_usage_reported_call_count :: nat
  ss_usage_coverage :: usage_coverage
  ss_token_usage :: token_usage
  ss_groups :: "statistics_group list"

record fingerprint =
  fp_root_ids :: "string list"
  fp_generation_ids :: "string list"
  fp_totals :: token_usage
  fp_groups :: "statistics_group list"

definition call_key :: "langfuse_observation \<Rightarrow> group_key" where
  "call_key call =
     (let field = (\<lambda>name. map_of (lo_metadata call) name) in
      \<lparr>gk_agent_name = coalesce (stringValue (field ''sec_review_agent'')) ''unknown'', gk_case_id = stringValue (field ''sec_review_case_id''),
       gk_delivery_id = stringValue (field ''sec_review_delivery_id''), gk_pass_kind = stringValue (field ''sec_review_pass_kind''),
       gk_pass_index = nonNegativeInteger (field ''sec_review_pass_index''), gk_batch_index = nonNegativeInteger (field ''sec_review_batch_index''),
       gk_chunk_id = stringValue (field ''sec_review_chunk_id''), gk_provider = coalesce (stringValue (field ''ls_provider'')) ''unknown'',
       gk_model = (case stringValue (map_option JStr (lo_model call)) of Some m \<Rightarrow> Some m | None \<Rightarrow> stringValue (field ''ls_model_name''))\<rparr>)"

definition empty_group :: "group_key \<Rightarrow> group_accumulator" where
  "empty_group key = \<lparr>ga_key = key, ga_model_call_count = 0, ga_usage_reported_call_count = 0, ga_sums = (\<lambda>_. 0), ga_reported = (\<lambda>_. 0)\<rparr>"

definition add_sums :: "token_usage \<Rightarrow> (token_field \<Rightarrow> nat) \<Rightarrow> token_field \<Rightarrow> nat" where
  "add_sums usage tsums field = (case usage field of None \<Rightarrow> tsums field | Some n \<Rightarrow> tsums field + n)"

definition add_reported :: "token_usage \<Rightarrow> (token_field \<Rightarrow> nat) \<Rightarrow> token_field \<Rightarrow> nat" where
  "add_reported usage reported field = (case usage field of None \<Rightarrow> reported field | Some n \<Rightarrow> reported field + 1)"

definition count_call :: "langfuse_observation \<Rightarrow> group_accumulator \<Rightarrow> group_accumulator" where
  "count_call call g =
     (let g1 = g\<lparr>ga_model_call_count := ga_model_call_count g + 1\<rparr> in
      case tokenUsage call of
        None \<Rightarrow> g1
      | Some (usage, _) \<Rightarrow> g1\<lparr>ga_usage_reported_call_count := ga_usage_reported_call_count g + 1,
          ga_sums := add_sums usage (ga_sums g), ga_reported := add_reported usage (ga_reported g)\<rparr>)"

text \<open>The map of groups, in the order its keys were set.\<close>

fun update_group :: "group_key \<Rightarrow> (group_accumulator \<Rightarrow> group_accumulator) \<Rightarrow> group_accumulator list \<Rightarrow> group_accumulator list" where
  "update_group key f [] = [f (empty_group key)]"
| "update_group key f (g # gs) = (if ga_key g = key then f g # gs else g # update_group key f gs)"

record aggregation =
  ag_sums :: "token_field \<Rightarrow> nat"
  ag_reported :: "token_field \<Rightarrow> nat"
  ag_usage_reported_call_count :: nat
  ag_source_total_mismatch_count :: nat
  ag_groups :: "group_accumulator list"

definition empty_aggregation :: aggregation where
  "empty_aggregation = \<lparr>ag_sums = (\<lambda>_. 0), ag_reported = (\<lambda>_. 0), ag_usage_reported_call_count = 0, ag_source_total_mismatch_count = 0, ag_groups = []\<rparr>"

definition add_call :: "aggregation \<Rightarrow> langfuse_observation \<Rightarrow> aggregation" where
  "add_call a call =
     (let a1 = a\<lparr>ag_groups := update_group (call_key call) (count_call call) (ag_groups a)\<rparr> in
      case tokenUsage call of
        None \<Rightarrow> a1
      | Some (usage, mismatch) \<Rightarrow> a1\<lparr>ag_usage_reported_call_count := ag_usage_reported_call_count a + 1,
          ag_source_total_mismatch_count := ag_source_total_mismatch_count a + (if mismatch then 1 else 0),
          ag_sums := add_sums usage (ag_sums a), ag_reported := add_reported usage (ag_reported a)\<rparr>)"

definition index_text :: "nat option \<Rightarrow> string" where
  "index_text n = (case n of None \<Rightarrow> ''-1'' | Some k \<Rightarrow> nat_string k)"

fun join_nul :: "string list \<Rightarrow> string" where
  "join_nul [] = []"
| "join_nul [s] = s"
| "join_nul (s # rest) = s @ CHR 0x00 # join_nul rest"

definition group_text :: "group_key \<Rightarrow> string" where
  "group_text k = join_nul [coalesce (gk_case_id k) [], coalesce (gk_delivery_id k) [], index_text (gk_pass_index k), index_text (gk_batch_index k),
     coalesce (gk_chunk_id k) [], gk_agent_name k, gk_provider k, coalesce (gk_model k) []]"

definition finish_group :: "group_accumulator \<Rightarrow> statistics_group" where
  "finish_group g = \<lparr>sg_key = ga_key g, sg_model_call_count = ga_model_call_count g, sg_usage_reported_call_count = ga_usage_reported_call_count g,
     sg_token_usage = completeTotals (ga_sums g) (ga_reported g) (ga_model_call_count g)\<rparr>"

definition sorted_groups :: "(string \<Rightarrow> string) \<Rightarrow> group_accumulator list \<Rightarrow> statistics_group list" where
  "sorted_groups locale_key gs = map finish_group (sort_key (\<lambda>g. locale_key (group_text (ga_key g))) gs)"

definition snapshot_fingerprint :: "(string \<Rightarrow> string) \<Rightarrow> statistics_read \<Rightarrow> fingerprint" where
  "snapshot_fingerprint locale_key read =
     (let a = foldl add_call empty_aggregation (sr_generations read) in
      \<lparr>fp_root_ids = sort (map lo_id (sr_roots read)), fp_generation_ids = sort (map lo_id (sr_generations read)),
       fp_totals = completeTotals (ag_sums a) (ag_reported a) (length (sr_generations read)),
       fp_groups = sorted_groups locale_key (ag_groups a)\<rparr>)"

definition aggregateExecutionStatistics :: "(string \<Rightarrow> string) \<Rightarrow> (fingerprint \<Rightarrow> string) \<Rightarrow> statistics_read \<Rightarrow> statistics_snapshot" where
  "aggregateExecutionStatistics locale_key hash read =
     (let a = foldl add_call empty_aggregation (sr_generations read);
          observedCallCount = length (sr_generations read)
      in \<lparr>ss_observation_set_hash = hash (snapshot_fingerprint locale_key read),
          ss_root_trace_count = length (sr_roots read), ss_excluded_non_review_root_count = sr_excluded_non_review_root_count read,
          ss_observed_call_count = observedCallCount, ss_usage_reported_call_count = ag_usage_reported_call_count a,
          ss_usage_coverage = (if ag_usage_reported_call_count a = observedCallCount then CompleteForObservedCalls else PartialUsage),
          ss_token_usage = completeTotals (ag_sums a) (ag_reported a) observedCallCount, ss_groups = sorted_groups locale_key (ag_groups a)\<rparr>)"

subsection \<open>Reading from Langfuse\<close>

datatype langfuse_error = LangfuseRateLimitError "int option" | LangfuseFailure string

record langfuse_response = http_response +
  lr_retry_after :: "string option"

definition MAX_LANGFUSE_PAGE_BYTES :: nat where
  "MAX_LANGFUSE_PAGE_BYTES = 16 * 1024 * 1024"

definition readBoundedPageJson :: "(string \<Rightarrow> string + json) \<Rightarrow> langfuse_response \<Rightarrow> langfuse_error + json" where
  "readBoundedPageJson parse_json response =
     (if resp_body response = None then Inl (LangfuseFailure ''Langfuse observations response has no body.'')
      else case readBoundedResponseBody (http_response.truncate response) MAX_LANGFUSE_PAGE_BYTES of
             Inl (ResponseTooLarge n) \<Rightarrow> Inl (LangfuseFailure ''Langfuse response is larger than the page budget.'')
           | Inl err \<Rightarrow> Inl (LangfuseFailure (error_message err))
           | Inr body \<Rightarrow>
               (case parse_json (decode_text body) of Inl message \<Rightarrow> Inl (LangfuseFailure message) | Inr v \<Rightarrow> Inr v))"

definition retryAfterHeaderMs :: "(string \<Rightarrow> int option) \<Rightarrow> int \<Rightarrow> langfuse_response \<Rightarrow> int option" where
  "retryAfterHeaderMs date_ms now response =
     (case map_option js_trim (lr_retry_after response) of
        None \<Rightarrow> None
      | Some value \<Rightarrow>
          if value = [] then None
          else if list_all digit value then Some (digits_value value * 1000)
          else map_option (\<lambda>instant. max 0 (instant - now)) (date_ms value))"

fun objectValue :: "json option \<Rightarrow> (string \<times> json) list option" where
  "objectValue (Some (JObj kvs)) = Some kvs"
| "objectValue _ = None"

fun is_text :: "json option \<Rightarrow> bool" where
  "is_text (Some (JStr s)) = True"
| "is_text _ = False"

definition parseObservation :: "json \<Rightarrow> nat \<Rightarrow> langfuse_error + langfuse_observation" where
  "parseObservation value index =
     (let at_index = ''Langfuse observation data['' @ nat_string index @ '']'' in
      case objectValue (Some value) of
        None \<Rightarrow> Inl (LangfuseFailure (at_index @ '' is not an object.''))
      | Some item \<Rightarrow>
         (case map_of item ''id'' of
            Some (JStr oid) \<Rightarrow>
              if oid = [] then Inl (LangfuseFailure (at_index @ '' has no id.''))
              else
               (let named = ''Langfuse observation '' @ oid; absent = (\<lambda>v. v = None \<or> v = Some JNull) in
                case map_of item ''traceId'' of
                  Some (JStr traceId) \<Rightarrow>
                    if traceId = [] then Inl (LangfuseFailure (named @ '' has no traceId.''))
                    else if \<not> absent (map_of item ''metadata'') \<and> objectValue (map_of item ''metadata'') = None
                    then Inl (LangfuseFailure (named @ '' has invalid metadata.''))
                    else if \<not> absent (map_of item ''model'') \<and> \<not> is_text (map_of item ''model'')
                    then Inl (LangfuseFailure (named @ '' has invalid model.''))
                    else if \<not> absent (map_of item ''usageDetails'') \<and> objectValue (map_of item ''usageDetails'') = None
                    then Inl (LangfuseFailure (named @ '' has invalid usageDetails.''))
                    else Inr \<lparr>lo_id = oid, lo_trace_id = traceId, lo_metadata = coalesce (objectValue (map_of item ''metadata'')) [],
                        lo_model = (case map_of item ''model'' of Some (JStr m) \<Rightarrow> Some m | _ \<Rightarrow> None),
                        lo_usage_details = objectValue (map_of item ''usageDetails'')\<rparr>
                | _ \<Rightarrow> Inl (LangfuseFailure (named @ '' has no traceId.'')))
          | _ \<Rightarrow> Inl (LangfuseFailure (at_index @ '' has no id.''))))"

text \<open>\<^verbatim>\<open>Map.set\<close> by the id of the observation.\<close>

fun set_observation :: "langfuse_observation \<Rightarrow> langfuse_observation list \<Rightarrow> langfuse_observation list" where
  "set_observation x [] = [x]"
| "set_observation x (y # ys) = (if lo_id y = lo_id x then x # ys else y # set_observation x ys)"

fun set_page :: "nat \<Rightarrow> json list \<Rightarrow> langfuse_observation list \<Rightarrow> langfuse_error + langfuse_observation list" where
  "set_page index [] obs = Inr obs"
| "set_page index (v # vs) obs =
     (case parseObservation v index of Inl e \<Rightarrow> Inl e | Inr x \<Rightarrow> set_page (Suc index) vs (set_observation x obs))"

text \<open>The environment of the client: \<open>lf_fetch\<close> answers a request with the parameters and the cursor; the clock is read once.\<close>

record langfuse_client =
  lf_fetch :: "(string \<times> string) list \<Rightarrow> string option \<Rightarrow> string + langfuse_response"
  lf_parse_json :: "string \<Rightarrow> string + json"
  lf_date_ms :: "string \<Rightarrow> int option"
  lf_now_ms :: int

definition read_page ::
  "langfuse_client \<Rightarrow> (string \<times> string) list \<Rightarrow> string option \<Rightarrow> langfuse_observation list \<Rightarrow>
     langfuse_error + langfuse_observation list \<times> string option" where
  "read_page lf parameters cursor obs =
     (case lf_fetch lf (parameters @ [(''limit'', ''1000'')]) cursor of
        Inl message \<Rightarrow> Inl (LangfuseFailure message)
      | Inr response \<Rightarrow>
          if resp_status response = 429 then Inl (LangfuseRateLimitError (retryAfterHeaderMs (lf_date_ms lf) (lf_now_ms lf) response))
          else if \<not> response_ok (resp_status response)
          then Inl (LangfuseFailure (''Langfuse observations request failed with HTTP '' @ nat_string (resp_status response) @ ''.''))
          else case readBoundedPageJson (lf_parse_json lf) response of
                 Inl e \<Rightarrow> Inl e
               | Inr body \<Rightarrow>
                  (case (Option.bind (objectValue (Some body)) (\<lambda>b. map_of b ''data''),
                         objectValue (Option.bind (objectValue (Some body)) (\<lambda>b. map_of b ''meta''))) of
                     (Some (JArr data), Some meta) \<Rightarrow>
                       (case set_page 0 data obs of
                          Inl e \<Rightarrow> Inl e
                        | Inr obs' \<Rightarrow>
                           (case map_of meta ''cursor'' of
                              None \<Rightarrow> Inr (obs', None)
                            | Some JNull \<Rightarrow> Inr (obs', None)
                            | Some (JStr c) \<Rightarrow> Inr (obs', if c = [] then None else Some c)
                            | _ \<Rightarrow> Inl (LangfuseFailure ''Langfuse observations response has an invalid cursor.'')))
                   | _ \<Rightarrow> Inl (LangfuseFailure ''Langfuse observations response has an invalid shape.'')))"

text \<open>The loop ends when Langfuse stops giving cursors; \<open>None\<close> when it has not after \<open>fuel\<close> pages.\<close>

fun readPages ::
  "langfuse_client \<Rightarrow> (string \<times> string) list \<Rightarrow> nat \<Rightarrow> string option \<Rightarrow> langfuse_observation list \<Rightarrow>
     (langfuse_error + langfuse_observation list) option" where
  "readPages lf parameters 0 cursor obs = None"
| "readPages lf parameters (Suc fuel) cursor obs =
     (case read_page lf parameters cursor obs of
        Inl e \<Rightarrow> Some (Inl e)
      | Inr (obs', None) \<Rightarrow> Some (Inr obs')
      | Inr (obs', Some c) \<Rightarrow> readPages lf parameters fuel (Some c) obs')"

definition review_agent :: "json option \<Rightarrow> bool" where
  "review_agent v = (case v of Some (JStr s) \<Rightarrow> s \<in> set REVIEW_AGENT_NAMES | _ \<Rightarrow> False)"

fun set_field :: "string \<Rightarrow> json \<Rightarrow> (string \<times> json) list \<Rightarrow> (string \<times> json) list" where
  "set_field k v [] = [(k, v)]"
| "set_field k v ((k', v') # kvs) = (if k' = k then (k, v) # kvs else (k', v') # set_field k v kvs)"

definition call_agent :: "langfuse_observation list \<Rightarrow> langfuse_observation \<Rightarrow> json option" where
  "call_agent roots call =
     (case map_of (lo_metadata call) ''sec_review_agent'' of
        None \<Rightarrow> Option.bind (map_of (rev (map (\<lambda>r. (lo_trace_id r, map_of (lo_metadata r) ''sec_review_agent'')) roots)) (lo_trace_id call)) id
      | Some JNull \<Rightarrow> Option.bind (map_of (rev (map (\<lambda>r. (lo_trace_id r, map_of (lo_metadata r) ''sec_review_agent'')) roots)) (lo_trace_id call)) id
      | v \<Rightarrow> v)"

definition review_name :: "langfuse_observation list \<Rightarrow> langfuse_observation \<Rightarrow> string option" where
  "review_name roots call =
     (case call_agent roots call of
        Some (JStr agentName) \<Rightarrow> if agentName \<in> set REVIEW_AGENT_NAMES then Some agentName else None
      | _ \<Rightarrow> None)"

fun select_generations ::
  "langfuse_observation list \<Rightarrow> langfuse_observation list \<Rightarrow> langfuse_observation list \<Rightarrow> langfuse_error + langfuse_observation list" where
  "select_generations roots [] generations = Inr generations"
| "select_generations roots (call # calls) generations =
     (case review_name roots call of
        None \<Rightarrow> select_generations roots calls generations
      | Some agentName \<Rightarrow>
         (let call' = call\<lparr>lo_metadata := set_field ''sec_review_agent'' (JStr agentName) (lo_metadata call)\<rparr> in
          if map_of (lo_metadata call') ''scope.name'' \<noteq> Some (JStr ''langfuse-sdk'')
          then Inl (LangfuseFailure (''Review generation '' @ lo_id call @ '' has unexpected instrumentation scope.''))
          else select_generations roots calls (set_observation call' generations)))"

definition root_parameters :: "string \<Rightarrow> string \<Rightarrow> string \<Rightarrow> (string \<times> string) list" where
  "root_parameters runId fromStartTime toStartTime =
     [(''fields'', ''basic,metadata''), (''sessionId'', runId), (''isRootObservation'', ''true''),
      (''fromStartTime'', fromStartTime), (''toStartTime'', toStartTime)]"

definition call_parameters :: "string \<Rightarrow> string \<Rightarrow> string \<Rightarrow> (string \<times> string) list" where
  "call_parameters runId fromStartTime toStartTime =
     [(''fields'', ''basic,time,metadata,model,usage''), (''sessionId'', runId), (''type'', ''GENERATION''),
      (''fromStartTime'', fromStartTime), (''toStartTime'', toStartTime)]"

definition readRun ::
  "langfuse_client \<Rightarrow> nat \<Rightarrow> string \<Rightarrow> string \<Rightarrow> string \<Rightarrow> (langfuse_error + statistics_read) option" where
  "readRun lf fuel runId fromStartTime toStartTime =
     (case readPages lf (root_parameters runId fromStartTime toStartTime) fuel None [] of
        None \<Rightarrow> None
      | Some (Inl e) \<Rightarrow> Some (Inl e)
      | Some (Inr candidateRoots) \<Rightarrow>
         (let roots = filter (\<lambda>r. review_agent (map_of (lo_metadata r) ''sec_review_agent'')) candidateRoots in
          case readPages lf (call_parameters runId fromStartTime toStartTime) fuel None [] of
            None \<Rightarrow> None
          | Some (Inl e) \<Rightarrow> Some (Inl e)
          | Some (Inr calls) \<Rightarrow>
             (case select_generations roots calls [] of
                Inl e \<Rightarrow> Some (Inl e)
              | Inr generations \<Rightarrow> Some (Inr \<lparr>sr_roots = roots, sr_generations = generations,
                    sr_excluded_non_review_root_count = length candidateRoots - length roots\<rparr>))))"

text \<open>The fuel bounds the reads that are looked at, not what they answer: a read that ends is the same with more of it.\<close>

lemma readPages_more: "readPages lf parameters n cursor obs = Some r \<Longrightarrow> n \<le> m \<Longrightarrow> readPages lf parameters m cursor obs = Some r"
proof (induction n arbitrary: cursor obs m)
  case (Suc n)
  then obtain m' where "m = Suc m'" "n \<le> m'" by (cases m) auto
  with Suc show ?case by (auto split: sum.splits prod.splits option.splits)
qed simp

lemma readRun_more:
  assumes "readRun lf n runId since until = Some read" "n \<le> m"
  shows "readRun lf m runId since until = Some read"
  using assms readPages_more [OF _ assms(2)]
  by (auto simp: readRun_def Let_def split: option.splits sum.splits)

end
