(* ===== verification/Aggregation.thy ===== *)
theory Aggregation
  imports Statistics
begin

text \<open>
  What the aggregation of a run's model calls computes: groups and totals against a direct count, what of the order of a read matters, and which calls a
  read lets in.
\<close>

subsection \<open>The groups of a list of calls\<close>

text \<open>The reference: what a list of calls reports, counted directly.\<close>

definition reported_tokens :: "langfuse_observation \<Rightarrow> token_field \<Rightarrow> nat option" where
  "reported_tokens call field = Option.bind (tokenUsage call) (\<lambda>u. fst u field)"

definition group_of_calls :: "group_key \<Rightarrow> langfuse_observation list \<Rightarrow> group_accumulator" where
  "group_of_calls key calls =
     \<lparr>ga_key = key, ga_model_call_count = length calls, ga_usage_reported_call_count = length (filter (\<lambda>c. tokenUsage c \<noteq> None) calls),
      ga_sums = (\<lambda>f. \<Sum>c\<leftarrow>calls. coalesce (reported_tokens c f) 0),
      ga_reported = (\<lambda>f. length (filter (\<lambda>c. reported_tokens c f \<noteq> None) calls))\<rparr>"

definition calls_of :: "group_key \<Rightarrow> langfuse_observation list \<Rightarrow> langfuse_observation list" where
  "calls_of key = filter (\<lambda>c. call_key c = key)"

fun keys_in_order :: "langfuse_observation list \<Rightarrow> group_key list \<Rightarrow> group_key list" where
  "keys_in_order [] ks = ks"
| "keys_in_order (c # cs) ks = keys_in_order cs (if call_key c \<in> set ks then ks else ks @ [call_key c])"

lemma keys_in_order_set: "set (keys_in_order cs ks) = set ks \<union> call_key ` set cs"
  by (induction cs ks rule: keys_in_order.induct) auto

lemma keys_in_order_distinct: "distinct ks \<Longrightarrow> distinct (keys_in_order cs ks)"
  by (induction cs ks rule: keys_in_order.induct) auto

lemma keys_in_order_snoc:
  "keys_in_order (cs @ [c]) ks =
     (if call_key c \<in> set (keys_in_order cs ks) then keys_in_order cs ks else keys_in_order cs ks @ [call_key c])"
  by (induction cs ks rule: keys_in_order.induct) auto

lemma count_call_group: "count_call c (group_of_calls k cs) = group_of_calls k (cs @ [c])"
  by (auto simp: count_call_def group_of_calls_def reported_tokens_def add_sums_def add_reported_def Let_def fun_eq_iff split: option.split)

lemma empty_group_of: "empty_group k = group_of_calls k []"
  by (simp add: empty_group_def group_of_calls_def)

lemma group_of_calls_key [simp]: "ga_key (group_of_calls k cs) = k"
  by (simp add: group_of_calls_def)

lemma update_group_map:
  assumes "distinct ks" "\<And>k. ga_key (g k) = k"
  shows "update_group key f (map g ks) = map (\<lambda>k. if k = key then f (g k) else g k) ks @ (if key \<in> set ks then [] else [f (empty_group key)])"
  using assms(1) by (induction ks) (auto simp: assms(2) intro!: map_cong)

lemma groups_of_calls:
  "ag_groups (foldl add_call empty_aggregation cs) = map (\<lambda>k. group_of_calls k (calls_of k cs)) (keys_in_order cs [])"
proof (induction cs rule: rev_induct)
  case Nil
  then show ?case by (simp add: empty_aggregation_def)
next
  case (snoc c cs)
  let ?ks = "keys_in_order cs []"
  have groups: "ag_groups (add_call a c) = update_group (call_key c) (count_call c) (ag_groups a)" for a
    by (simp add: add_call_def Let_def split: option.split prod.split)
  have none: "calls_of k cs = []" if "k \<notin> set ?ks" for k
    using that by (auto simp: keys_in_order_set calls_of_def filter_empty_conv)
  have "update_group (call_key c) (count_call c) (map (\<lambda>k. group_of_calls k (calls_of k cs)) ?ks) =
      map (\<lambda>k. group_of_calls k (calls_of k (cs @ [c]))) ?ks @ (if call_key c \<in> set ?ks then [] else [group_of_calls (call_key c) [c]])"
    by (subst update_group_map) (auto simp: keys_in_order_distinct count_call_group empty_group_of calls_of_def)
  then show ?case
    using none [of "call_key c"] by (auto simp: snoc.IH groups keys_in_order_snoc) (simp add: calls_of_def)
qed

lemma totals_of_calls:
  "ag_sums (foldl add_call empty_aggregation cs) = ga_sums (group_of_calls k cs) \<and>
   ag_reported (foldl add_call empty_aggregation cs) = ga_reported (group_of_calls k cs) \<and>
   ag_usage_reported_call_count (foldl add_call empty_aggregation cs) = ga_usage_reported_call_count (group_of_calls k cs)"
  by (induction cs rule: rev_induct)
     (auto simp: empty_aggregation_def add_call_def group_of_calls_def reported_tokens_def add_sums_def add_reported_def Let_def fun_eq_iff
       split: option.split)

text \<open>Summing by group is summing over the calls.\<close>

lemma sum_by_group:
  fixes w :: "langfuse_observation \<Rightarrow> nat"
  assumes "distinct ks" "call_key ` set cs \<subseteq> set ks"
  shows "(\<Sum>k\<leftarrow>ks. \<Sum>c\<leftarrow>calls_of k cs. w c) = (\<Sum>c\<leftarrow>cs. w c)"
  using assms(2)
proof (induction cs)
  case Nil
  then show ?case by (simp add: calls_of_def)
next
  case (Cons c cs)
  have "(\<Sum>k\<leftarrow>ks. \<Sum>x\<leftarrow>calls_of k (c # cs). w x) = (\<Sum>k\<leftarrow>ks. (if call_key c = k then w c else 0) + (\<Sum>x\<leftarrow>calls_of k cs. w x))"
    by (intro arg_cong [where f = sum_list] map_cong refl) (simp add: calls_of_def)
  also have "\<dots> = (\<Sum>k\<leftarrow>ks. if call_key c = k then w c else 0) + (\<Sum>k\<leftarrow>ks. \<Sum>x\<leftarrow>calls_of k cs. w x)"
    by (rule sum_list_addf)
  also have "(\<Sum>k\<leftarrow>ks. if call_key c = k then w c else 0) = w c"
    using assms(1) Cons.prems by (simp add: sum_list_distinct_conv_sum_set)
  finally show ?case using Cons by simp
qed

subsection \<open>Totals and groups agree\<close>

lemma insort_key_map: "insort_key f (g x) (map g xs) = map g (insort_key (\<lambda>x. f (g x)) x xs)"
  by (induction xs) auto

lemma sort_key_map: "sort_key f (map g xs) = map g (sort_key (\<lambda>x. f (g x)) xs)"
  by (induction xs) (simp_all add: insort_key_map)

lemma snapshot_groups:
  "ss_groups (aggregateExecutionStatistics locale_key hash read) =
     map (\<lambda>k. finish_group (group_of_calls k (calls_of k (sr_generations read))))
       (sort_key (\<lambda>k. locale_key (group_text k)) (keys_in_order (sr_generations read) []))"
  by (simp add: aggregateExecutionStatistics_def sorted_groups_def Let_def groups_of_calls sort_key_map)

lemma sum_sort_key: "(\<Sum>x\<leftarrow>sort_key f xs. w x) = (\<Sum>x\<leftarrow>xs. (w x :: nat))"
  by (metis mset_map mset_sort sum_mset_sum_list)

lemma sum_groups:
  "(\<Sum>k\<leftarrow>sort_key f (keys_in_order cs []). \<Sum>c\<leftarrow>calls_of k cs. v c) = (\<Sum>c\<leftarrow>cs. (v c :: nat))"
  unfolding sum_sort_key by (rule sum_by_group) (simp_all add: keys_in_order_distinct keys_in_order_set)

lemma length_as_sum: "length (filter P cs) = (\<Sum>c\<leftarrow>cs. if P c then 1 else 0)"
  by (induction cs) auto

lemma length_filter_all: "length (filter P xs) = length xs \<longleftrightarrow> (\<forall>x \<in> set xs. P x)"
proof (induction xs)
  case (Cons x xs)
  moreover have "length (filter P xs) \<noteq> Suc (length xs)" using length_filter_le [of P xs] by linarith
  ultimately show ?case by auto
qed simp

lemma complete_iff:
  "completeTotals (ga_sums (group_of_calls k cs)) (ga_reported (group_of_calls k cs)) (length cs) f \<noteq> None \<longleftrightarrow>
     cs \<noteq> [] \<and> (\<forall>c \<in> set cs. reported_tokens c f \<noteq> None)"
  using length_filter_all [of "\<lambda>c. reported_tokens c f \<noteq> None" cs] by (simp add: completeTotals_def group_of_calls_def)

lemma complete_sum:
  "completeTotals (ga_sums (group_of_calls k cs)) (ga_reported (group_of_calls k cs)) (length cs) f = Some n \<Longrightarrow>
     n = (\<Sum>c\<leftarrow>cs. coalesce (reported_tokens c f) 0)"
  by (auto simp: completeTotals_def group_of_calls_def split: if_splits)

lemma snapshot_totals:
  "ss_token_usage (aggregateExecutionStatistics locale_key hash read) =
     completeTotals (ga_sums (group_of_calls k (sr_generations read))) (ga_reported (group_of_calls k (sr_generations read))) (length (sr_generations read))"
  using totals_of_calls [of "sr_generations read" k] by (simp add: aggregateExecutionStatistics_def Let_def)

lemma group_complete:
  "sg_token_usage (finish_group (group_of_calls k cs)) =
     completeTotals (ga_sums (group_of_calls k cs)) (ga_reported (group_of_calls k cs)) (length cs)"
  by (simp add: finish_group_def) (simp add: group_of_calls_def)

lemma snapshot_agrees:
  assumes s_def: "s = aggregateExecutionStatistics locale_key hash read"
  shows "distinct (map sg_key (ss_groups s)) \<and>
     (\<forall>g. g \<in> set (ss_groups s) \<longrightarrow> g = finish_group (group_of_calls (sg_key g) (calls_of (sg_key g) (sr_generations read)))) \<and>
     (\<Sum>g\<leftarrow>ss_groups s. sg_model_call_count g) = ss_observed_call_count s \<and>
     (\<Sum>g\<leftarrow>ss_groups s. sg_usage_reported_call_count g) = ss_usage_reported_call_count s \<and>
     (\<forall>f. (ss_token_usage s f = None) = (ss_groups s = [] \<or> (\<exists>g \<in> set (ss_groups s). sg_token_usage g f = None))) \<and>
     (\<forall>f n. ss_token_usage s f = Some n \<longrightarrow> n = (\<Sum>g\<leftarrow>ss_groups s. the (sg_token_usage g f)))"
proof -
  let ?cs = "sr_generations read"
  let ?ks = "sort_key (\<lambda>k. locale_key (group_text k)) (keys_in_order ?cs [])"
  let ?g = "\<lambda>k. finish_group (group_of_calls k (calls_of k ?cs))"
  have groups: "ss_groups s = map ?g ?ks" unfolding s_def by (rule snapshot_groups)
  have key: "sg_key (?g k) = k" "sg_model_call_count (?g k) = length (calls_of k ?cs)"
      "sg_usage_reported_call_count (?g k) = length (filter (\<lambda>c. tokenUsage c \<noteq> None) (calls_of k ?cs))" for k
    by (simp_all add: finish_group_def) (simp_all add: group_of_calls_def)
  have keys: "distinct ?ks" "set ?ks = call_key ` set ?cs" by (simp_all add: keys_in_order_distinct keys_in_order_set)
  have nonempty: "?ks = [] \<longleftrightarrow> ?cs = []" using keys(2) by (metis image_is_empty set_empty)
  have member: "calls_of k ?cs \<noteq> [] \<longleftrightarrow> k \<in> set ?ks" for k
    unfolding keys(2) by (auto simp: calls_of_def filter_empty_conv)
  have count: "(\<Sum>k\<leftarrow>?ks. length (filter P (calls_of k ?cs))) = length (filter P ?cs)" for P
    unfolding length_as_sum by (rule sum_groups)
  have none: "(ss_token_usage s f = None) = (ss_groups s = [] \<or> (\<exists>g \<in> set (ss_groups s). sg_token_usage g f = None))" for f
  proof -
    have "ss_token_usage s f \<noteq> None \<longleftrightarrow> ?cs \<noteq> [] \<and> (\<forall>c \<in> set ?cs. reported_tokens c f \<noteq> None)"
      unfolding s_def snapshot_totals [where k = undefined] by (rule complete_iff)
    also have "\<dots> \<longleftrightarrow> ?ks \<noteq> [] \<and> (\<forall>k \<in> set ?ks. \<forall>c \<in> set (calls_of k ?cs). reported_tokens c f \<noteq> None)"
      using keys(2) nonempty by (auto simp: calls_of_def)
    also have "\<dots> \<longleftrightarrow> ?ks \<noteq> [] \<and> (\<forall>k \<in> set ?ks. sg_token_usage (?g k) f \<noteq> None)"
      using member unfolding group_complete complete_iff by blast
    finally show ?thesis unfolding groups by auto
  qed
  have total: "n = (\<Sum>g\<leftarrow>ss_groups s. the (sg_token_usage g f))" if n: "ss_token_usage s f = Some n" for f n
  proof -
    have "the (sg_token_usage (?g k) f) = (\<Sum>c\<leftarrow>calls_of k ?cs. coalesce (reported_tokens c f) 0)" if k: "k \<in> set ?ks" for k
    proof -
      obtain m where "sg_token_usage (?g k) f = Some m" using none [of f] n k unfolding groups by fastforce
      then show ?thesis using complete_sum unfolding group_complete by fastforce
    qed
    then have "(\<Sum>k\<leftarrow>?ks. the (sg_token_usage (?g k) f)) = (\<Sum>k\<leftarrow>?ks. \<Sum>c\<leftarrow>calls_of k ?cs. coalesce (reported_tokens c f) 0)"
      by (intro arg_cong [where f = sum_list] map_cong) simp_all
    also have "\<dots> = (\<Sum>c\<leftarrow>?cs. coalesce (reported_tokens c f) 0)" by (rule sum_groups)
    also have "\<dots> = n"
      using complete_sum [OF n [unfolded s_def snapshot_totals [where k = undefined]]] by simp
    finally show ?thesis unfolding groups by (simp add: comp_def)
  qed
  have "ss_observed_call_count s = length ?cs" "ss_usage_reported_call_count s = length (filter (\<lambda>c. tokenUsage c \<noteq> None) ?cs)"
    using totals_of_calls [of ?cs undefined] by (simp_all add: s_def aggregateExecutionStatistics_def Let_def group_of_calls_def)
  then show ?thesis
    using none total count [of "\<lambda>_. True"] count [of "\<lambda>c. tokenUsage c \<noteq> None"] keys(1)
    by (auto simp: groups key comp_def)
qed

text \<open>C37. The groups of a snapshot partition its calls and its totals: the keys are distinct, each group counts exactly the calls of its
  key, the counts add up to the counts of the run, a total is reported exactly when there are calls and every group reports it, and then it is the sum
  over the groups.\<close>

theorem totals_match_groups:
  assumes s_def: "s = aggregateExecutionStatistics locale_key hash read"
  shows "distinct (map sg_key (ss_groups s)) \<and>
     (\<forall>g. g \<in> set (ss_groups s) \<longrightarrow> g = finish_group (group_of_calls (sg_key g) (calls_of (sg_key g) (sr_generations read)))) \<and>
     (\<Sum>g\<leftarrow>ss_groups s. sg_model_call_count g) = ss_observed_call_count s \<and>
     (\<Sum>g\<leftarrow>ss_groups s. sg_usage_reported_call_count g) = ss_usage_reported_call_count s \<and>
     (\<forall>f. (ss_token_usage s f = None) = (ss_groups s = [] \<or> (\<exists>g \<in> set (ss_groups s). sg_token_usage g f = None))) \<and>
     (\<forall>f n. ss_token_usage s f = Some n \<longrightarrow> n = (\<Sum>g\<leftarrow>ss_groups s. the (sg_token_usage g f)))"
  by (rule snapshot_agrees [OF s_def])

subsection \<open>The order of a read\<close>

lemma group_of_calls_perm:
  assumes "mset cs = mset cs'" shows "group_of_calls k cs = group_of_calls k cs'"
proof -
  have sums: "(\<Sum>c\<leftarrow>cs. w c) = (\<Sum>c\<leftarrow>cs'. (w c :: nat))" for w
    by (metis assms mset_map sum_mset_sum_list)
  have "length (filter P cs) = length (filter P cs')" for P using sums [of "\<lambda>c. if P c then 1 else 0"] by (simp add: length_as_sum)
  then show ?thesis using sums mset_eq_length [OF assms] by (simp add: group_of_calls_def)
qed

lemma calls_of_perm: "mset cs = mset cs' \<Longrightarrow> mset (calls_of k cs) = mset (calls_of k cs')"
  by (simp add: calls_of_def)

text \<open>Two reads of the same observations give the same snapshot, whatever order Langfuse returns them in, where the texts the groups are
  sorted by tell their keys apart.\<close>

theorem read_order_irrelevant:
  assumes "mset (sr_generations read) = mset (sr_generations read')" "mset (sr_roots read) = mset (sr_roots read')"
    "sr_excluded_non_review_root_count read = sr_excluded_non_review_root_count read'"
    and sorted_apart: "inj_on (\<lambda>k. locale_key (group_text k)) (call_key ` set (sr_generations read))"
  shows "aggregateExecutionStatistics locale_key hash read = aggregateExecutionStatistics locale_key hash read'"
proof -
  let ?cs = "sr_generations read" and ?cs' = "sr_generations read'"
  have groups: "ss_groups (aggregateExecutionStatistics locale_key hash read) = ss_groups (aggregateExecutionStatistics locale_key hash read')"
  proof -
    have "mset (keys_in_order ?cs []) = mset (keys_in_order ?cs' [])"
      using mset_eq_setD [OF assms(1)] by (simp add: set_eq_iff_mset_eq_distinct [symmetric] keys_in_order_distinct keys_in_order_set)
    moreover have "inj_on (\<lambda>k. locale_key (group_text k)) (set (keys_in_order ?cs []))" using sorted_apart by (simp add: keys_in_order_set)
    ultimately have "sort_key (\<lambda>k. locale_key (group_text k)) (keys_in_order ?cs []) = sort_key (\<lambda>k. locale_key (group_text k)) (keys_in_order ?cs' [])"
      by (intro sort_key_inj_key_eq) (simp_all only: mset_sort sorted_sort_key)
    then show ?thesis
      unfolding snapshot_groups using group_of_calls_perm [OF calls_of_perm [OF assms(1)]] by simp
  qed
  have ids: "sort (map lo_id xs) = sort (map lo_id ys)" if "mset xs = mset ys" for xs ys :: "langfuse_observation list"
    using that by (intro properties_for_sort) (simp_all only: mset_sort mset_map sorted_sort)
  have same: "foldl add_call empty_aggregation ?cs = a \<Longrightarrow> foldl add_call empty_aggregation ?cs' = a' \<Longrightarrow>
      ag_sums a = ag_sums a' \<and> ag_reported a = ag_reported a' \<and> ag_usage_reported_call_count a = ag_usage_reported_call_count a'" for a a'
    using totals_of_calls [of ?cs undefined] totals_of_calls [of ?cs' undefined] group_of_calls_perm [OF assms(1)] by metis
  show ?thesis
    using groups ids [OF assms(1)] ids [OF assms(2)] same [OF refl refl] mset_eq_length [OF assms(1)] mset_eq_length [OF assms(2)] assms(3)
    by (simp add: aggregateExecutionStatistics_def snapshot_fingerprint_def Let_def)
qed

text \<open>The text the groups are sorted by leaves out the kind of a pass: two calls that differ in it only, read in the two orders, give two
  different fingerprints, so, unless they collide, the snapshot hashes differ and the second read does not confirm the first.\<close>

theorem read_order_unsettles:
  assumes "group_text (call_key x) = group_text (call_key y)" "call_key x \<noteq> call_key y"
    "sr_generations read = [x, y]" "sr_generations read' = [y, x]"
  shows "snapshot_fingerprint locale_key read \<noteq> snapshot_fingerprint locale_key read' \<and>
     (inj_on hash {snapshot_fingerprint locale_key read, snapshot_fingerprint locale_key read'} \<longrightarrow>
      ss_observation_set_hash (aggregateExecutionStatistics locale_key hash read) \<noteq>
      ss_observation_set_hash (aggregateExecutionStatistics locale_key hash read'))"
proof -
  have "map sg_key (fp_groups (snapshot_fingerprint locale_key r)) = [call_key a, call_key b]"
    if "sr_generations r = [a, b]" "{a, b} = {x, y}" for r :: statistics_read and a b
  proof -
    have "call_key a \<noteq> call_key b" "call_key b \<noteq> call_key a" "group_text (call_key a) = group_text (call_key b)"
      using that(2) assms(1,2) by (auto simp: doubleton_eq_iff)
    then show ?thesis
      using that(1) snapshot_groups [of locale_key undefined r]
      by (simp add: aggregateExecutionStatistics_def snapshot_fingerprint_def Let_def finish_group_def comp_def)
  qed
  from this [OF assms(3) refl] this [OF assms(4) insert_commute]
  have "snapshot_fingerprint locale_key read \<noteq> snapshot_fingerprint locale_key read'" using assms(2) by auto
  then show ?thesis by (auto simp: aggregateExecutionStatistics_def Let_def inj_on_def)
qed

subsection \<open>What is read\<close>

definition review_call :: "langfuse_observation \<Rightarrow> bool" where
  "review_call c \<longleftrightarrow> review_agent (map_of (lo_metadata c) ''sec_review_agent'') \<and> map_of (lo_metadata c) ''scope.name'' = Some (JStr ''langfuse-sdk'')"

lemma set_observation_set: "set (set_observation x ys) \<subseteq> insert x (set ys)"
  by (induction x ys rule: set_observation.induct) auto

lemma set_observation_ids: "lo_id ` set (set_observation x ys) = insert (lo_id x) (lo_id ` set ys)"
  by (induction x ys rule: set_observation.induct) auto

lemma set_observation_distinct: "distinct (map lo_id ys) \<Longrightarrow> distinct (map lo_id (set_observation x ys))"
  by (induction x ys rule: set_observation.induct) (auto simp: set_observation_ids)

lemma map_of_set_field: "map_of (set_field k v kvs) k' = (if k' = k then Some v else map_of kvs k')"
  by (induction k v kvs rule: set_field.induct) auto

lemma select_generations_review:
  assumes "select_generations roots calls acc = Inr generations" "distinct (map lo_id acc)" "list_all review_call acc"
  shows "distinct (map lo_id generations) \<and> list_all review_call generations"
  using assms
proof (induction roots calls acc rule: select_generations.induct)
  case (2 roots call calls acc)
  show ?case
  proof (cases "review_name roots call")
    case None
    then show ?thesis using 2 by simp
  next
    case (Some s)
    let ?call = "call\<lparr>lo_metadata := set_field ''sec_review_agent'' (JStr s) (lo_metadata call)\<rparr>"
    have scope: "map_of (lo_metadata ?call) ''scope.name'' = Some (JStr ''langfuse-sdk'')"
      and rest: "select_generations roots calls (set_observation ?call acc) = Inr generations"
      using "2.prems"(1) Some by (simp_all add: Let_def split: if_splits)
    have "s \<in> set REVIEW_AGENT_NAMES" using Some by (auto simp: review_name_def split: option.splits json.splits if_splits)
    then have "review_call ?call" using scope by (simp add: review_call_def review_agent_def map_of_set_field)
    then have "list_all review_call (set_observation ?call acc)"
      using set_observation_set [of ?call acc] "2.prems"(3) by (auto simp: list_all_iff)
    then show ?thesis
      using "2.IH"(2) [OF Some refl] scope rest set_observation_distinct [OF "2.prems"(2)] by simp
  qed
qed simp

lemma readRun_result:
  assumes "readRun lf fuel k t u = Some (Inr read)"
  obtains candidates calls where "sr_roots read = filter (\<lambda>r. review_agent (map_of (lo_metadata r) ''sec_review_agent'')) candidates"
    "select_generations (sr_roots read) calls [] = Inr (sr_generations read)"
proof -
  obtain r1 where r1: "readPages lf (root_parameters k t u) fuel None [] = Some r1"
    using assms by (cases "readPages lf (root_parameters k t u) fuel None []") (simp_all add: readRun_def)
  obtain c1 where c1: "r1 = Inr c1" using assms r1 by (cases r1) (simp_all add: readRun_def)
  obtain r2 where r2: "readPages lf (call_parameters k t u) fuel None [] = Some r2"
    using assms r1 c1 by (cases "readPages lf (call_parameters k t u) fuel None []") (simp_all add: readRun_def Let_def)
  obtain c2 where c2: "r2 = Inr c2" using assms r1 c1 r2 by (cases r2) (simp_all add: readRun_def Let_def)
  let ?roots = "filter (\<lambda>r. review_agent (map_of (lo_metadata r) ''sec_review_agent'')) c1"
  obtain gens where gens: "select_generations ?roots c2 [] = Inr gens"
    using assms r1 c1 r2 c2 by (cases "select_generations ?roots c2 []") (simp_all add: readRun_def Let_def)
  have "sr_roots read = ?roots" "sr_generations read = gens"
    using assms r1 c1 r2 c2 gens by (auto simp: readRun_def Let_def)
  then show ?thesis using that gens by simp
qed

lemma review_agent_key:
  assumes "review_agent (map_of (lo_metadata c) ''sec_review_agent'')" shows "gk_agent_name (call_key c) \<in> set REVIEW_AGENT_NAMES"
proof -
  have "list_all (\<lambda>s. js_trim s \<noteq> []) REVIEW_AGENT_NAMES" by code_simp
  then show ?thesis using assms by (auto simp: review_agent_def call_key_def Let_def list_all_iff split: option.splits json.splits)
qed

text \<open>A run that was read has only review roots and only calls of review agents recorded by the Langfuse SDK, each once, so no
  group of its statistics is attributed to an unknown agent.\<close>

theorem only_review_calls:
  assumes "readRun lf fuel runId since until = Some (Inr read)"
  shows "distinct (map lo_id (sr_generations read)) \<and> list_all review_call (sr_generations read) \<and>
     list_all (\<lambda>r. review_agent (map_of (lo_metadata r) ''sec_review_agent'')) (sr_roots read) \<and>
     list_all (\<lambda>g. gk_agent_name (sg_key g) \<in> set REVIEW_AGENT_NAMES) (ss_groups (aggregateExecutionStatistics locale_key hash read))"
proof -
  obtain roots calls where read: "select_generations roots calls [] = Inr (sr_generations read)"
    "list_all (\<lambda>r. review_agent (map_of (lo_metadata r) ''sec_review_agent'')) (sr_roots read)"
    by (rule readRun_result [OF assms]) (simp add: list_all_iff)
  have calls: "distinct (map lo_id (sr_generations read)) \<and> list_all review_call (sr_generations read)"
    by (rule select_generations_review [OF read(1)]) simp_all
  then have "gk_agent_name (call_key c) \<in> set REVIEW_AGENT_NAMES" if "c \<in> set (sr_generations read)" for c
    using that review_agent_key by (auto simp: list_all_iff review_call_def)
  then have "list_all (\<lambda>g. gk_agent_name (sg_key g) \<in> set REVIEW_AGENT_NAMES) (ss_groups (aggregateExecutionStatistics locale_key hash read))"
    by (auto simp: snapshot_groups list_all_iff keys_in_order_set finish_group_def)
  with calls read(2) show ?thesis by blast
qed

end
