(* ===== verification/StatisticsStore.thy ===== *)
theory StatisticsStore
  imports Aggregation RunTables
begin

text \<open>
  \<^verbatim>\<open>statistics/execution-statistics-store.ts\<close> and \<^verbatim>\<open>statistics/execution-statistics-coordinator.ts\<close>: the queue of concluded executions whose statistics are
  reconciled with Langfuse, the claim on one of them, and the three ways a reconciliation ends. The tables \<^verbatim>\<open>execution_statistics\<close> and
  \<^verbatim>\<open>execution_statistics_groups\<close> are a state of their own; executions and runs are only read. An insert that violates a CHECK or the range of an
  \<^verbatim>\<open>integer\<close> column fails the statement and with it the transaction.
\<close>

subsection \<open>Rows\<close>

datatype stat_status = StatPending | StatReconciling | StatSettled | StatUnavailable

datatype ingestion_status = IngestionSettled | PartialWindow | NoObservations | IngestionUnavailable

record statistics_row =
  st_run_id :: string
  st_status :: stat_status
  st_ingestion_status :: "ingestion_status option"
  st_usage_coverage :: "usage_coverage option"
  st_observation_set_hash :: "string option"
  st_root_trace_count :: nat
  st_excluded_non_review_root_count :: nat
  st_observed_call_count :: nat
  st_usage_reported_call_count :: nat
  st_token_usage :: token_usage
  st_failure_count :: nat
  st_next_attempt_at :: instant
  st_reconciliation_deadline_at :: "instant option"
  st_claim_token :: "uuid option"
  st_claimed_at :: "instant option"
  st_failure_code :: "string option"
  st_settled_at :: "instant option"
  st_updated_at :: instant

record statistics_db =
  statistics_rows :: "statistics_row list"
  statistics_groups :: "(string \<times> statistics_group) list"

record statistics_cfg =
  sc_connector_id :: string
  sc_claim_timeout_ms :: nat
  sc_initial_delay_ms :: nat
  sc_settlement_window_ms :: nat

record statistics_work =
  sw_run_id :: string
  sw_claim_token :: uuid
  sw_execution_started_at :: instant
  sw_execution_finished_at :: instant

datatype statistics_error = ClaimLost string | WorkChanged string | CheckViolation

definition millis :: "nat \<Rightarrow> instant" where
  "millis n = 1000 * int n"

subsection \<open>Claims\<close>

definition admitted_statistics :: "statistics_cfg \<Rightarrow> instant \<Rightarrow> string \<Rightarrow> instant \<Rightarrow> statistics_row" where
  "admitted_statistics cfg now runId finished =
     \<lparr>st_run_id = runId, st_status = StatPending, st_ingestion_status = None, st_usage_coverage = None, st_observation_set_hash = None,
      st_root_trace_count = 0, st_excluded_non_review_root_count = 0, st_observed_call_count = 0, st_usage_reported_call_count = 0,
      st_token_usage = (\<lambda>_. None), st_failure_count = 0, st_next_attempt_at = finished + millis (sc_initial_delay_ms cfg),
      st_reconciliation_deadline_at = None, st_claim_token = None, st_claimed_at = None, st_failure_code = None, st_settled_at = None, st_updated_at = now\<rparr>"

definition concluded_executions :: "statistics_cfg \<Rightarrow> db \<Rightarrow> (string \<times> instant) list" where
  "concluded_executions cfg db =
     concat (map (\<lambda>e. case (exec_started_at e, exec_finished_at e) of
        (Some s, Some f) \<Rightarrow>
          if exec_status e \<in> {ExecSucceeded, ExecFailed} \<and> exec_connector_id e = sc_connector_id cfg \<and>
             list_ex (\<lambda>r. rr_run_id r = exec_run_id e \<and> rr_connector_id r = exec_connector_id e) (review_runs db)
          then [(exec_run_id e, f)] else []
      | _ \<Rightarrow> []) (executions db))"

fun admit_all :: "statistics_cfg \<Rightarrow> instant \<Rightarrow> (string \<times> instant) list \<Rightarrow> statistics_row list \<Rightarrow> statistics_row list" where
  "admit_all cfg now [] rows = rows"
| "admit_all cfg now ((k, f) # es) rows =
     admit_all cfg now es (if list_ex (\<lambda>r. st_run_id r = k) rows then rows else rows @ [admitted_statistics cfg now k f])"

definition statistics_claimable :: "statistics_cfg \<Rightarrow> instant \<Rightarrow> (string \<Rightarrow> bool) \<Rightarrow> db \<Rightarrow> statistics_row \<Rightarrow> bool" where
  "statistics_claimable cfg now locked db s \<longleftrightarrow>
     list_ex (\<lambda>r. rr_run_id r = st_run_id s \<and> rr_connector_id r = sc_connector_id cfg) (review_runs db) \<and> st_next_attempt_at s \<le> now \<and>
     (st_status s = StatPending \<or>
      st_status s = StatReconciling \<and> (case st_claimed_at s of None \<Rightarrow> False | Some t \<Rightarrow> t \<le> now - millis (sc_claim_timeout_ms cfg))) \<and>
     \<not> locked (st_run_id s)"

definition claimed_statistics :: "statistics_cfg \<Rightarrow> instant \<Rightarrow> uuid \<Rightarrow> statistics_row \<Rightarrow> statistics_row" where
  "claimed_statistics cfg now token s =
     s\<lparr>st_status := StatReconciling, st_claim_token := Some token, st_claimed_at := Some now,
       st_reconciliation_deadline_at := Some (coalesce (st_reconciliation_deadline_at s) (now + millis (sc_settlement_window_ms cfg))),
       st_updated_at := now\<rparr>"

definition update_statistics :: "(statistics_row \<Rightarrow> bool) \<Rightarrow> (statistics_row \<Rightarrow> statistics_row) \<Rightarrow> statistics_row list \<Rightarrow> statistics_row list" where
  "update_statistics P f = map (\<lambda>s. if P s then f s else s)"

definition claimNextStatistics ::
  "statistics_cfg \<Rightarrow> instant \<Rightarrow> (string \<Rightarrow> bool) \<Rightarrow> uuid \<Rightarrow> db \<Rightarrow> statistics_db \<Rightarrow> (statistics_error + statistics_work option) \<times> statistics_db" where
  "claimNextStatistics cfg now locked token db sdb =
     (let rows = admit_all cfg now (concluded_executions cfg db) (statistics_rows sdb) in
      case sort_key (\<lambda>s. (st_next_attempt_at s, st_run_id s)) (filter (statistics_claimable cfg now locked db) rows) of
        [] \<Rightarrow> (Inr None, sdb\<lparr>statistics_rows := rows\<rparr>)
      | s # _ \<Rightarrow>
         (case List.find (\<lambda>e. exec_run_id e = st_run_id s) (executions db) of
            None \<Rightarrow> (Inl (WorkChanged (''Execution statistics work changed while claiming '' @ st_run_id s @ ''.'')), sdb)
          | Some e \<Rightarrow>
              (Inr (Some \<lparr>sw_run_id = st_run_id s, sw_claim_token = token,
                  sw_execution_started_at = iso (coalesce (exec_started_at e) 0), sw_execution_finished_at = iso (coalesce (exec_finished_at e) 0)\<rparr>),
               sdb\<lparr>statistics_rows := update_statistics (\<lambda>r. st_run_id r = st_run_id s) (claimed_statistics cfg now token) rows\<rparr>)))"

subsection \<open>Results\<close>

definition statistics_owner :: "statistics_work \<Rightarrow> statistics_row \<Rightarrow> bool" where
  "statistics_owner work s \<longleftrightarrow> st_run_id s = sw_run_id work \<and> st_status s = StatReconciling \<and> st_claim_token s = Some (sw_claim_token work)"

definition statistics_claim_lost :: "statistics_work \<Rightarrow> statistics_error" where
  "statistics_claim_lost work = ClaimLost (''Execution statistics claim was lost for '' @ sw_run_id work @ ''.'')"

datatype snapshot_result = ResultPending | ResultSettled | ResultPartialWindow | ResultNoObservations

fun ingestion_of :: "snapshot_result \<Rightarrow> ingestion_status option" where
  "ingestion_of ResultPending = None"
| "ingestion_of ResultSettled = Some IngestionSettled"
| "ingestion_of ResultPartialWindow = Some PartialWindow"
| "ingestion_of ResultNoObservations = Some NoObservations"

definition deadline_reached :: "instant \<Rightarrow> statistics_row \<Rightarrow> bool" where
  "deadline_reached now s = (case st_reconciliation_deadline_at s of None \<Rightarrow> False | Some t \<Rightarrow> t \<le> now)"

definition snapshot_outcome :: "instant \<Rightarrow> statistics_snapshot \<Rightarrow> statistics_row \<Rightarrow> snapshot_result" where
  "snapshot_outcome now snapshot s =
     (let hasReviewRoots = 0 < ss_root_trace_count snapshot;
          stable = hasReviewRoots \<and> st_observation_set_hash s = Some (ss_observation_set_hash snapshot)
      in if stable then ResultSettled
         else if deadline_reached now s then (if hasReviewRoots then ResultPartialWindow else ResultNoObservations)
         else ResultPending)"

definition recorded_statistics :: "instant \<Rightarrow> statistics_snapshot \<Rightarrow> nat \<Rightarrow> snapshot_result \<Rightarrow> statistics_row \<Rightarrow> statistics_row" where
  "recorded_statistics now snapshot delay result s =
     (let terminal = (result \<noteq> ResultPending) in
      s\<lparr>st_status := (if terminal then StatSettled else StatPending), st_ingestion_status := ingestion_of result,
        st_usage_coverage := (if result = ResultNoObservations then None else Some (ss_usage_coverage snapshot)),
        st_observation_set_hash := Some (ss_observation_set_hash snapshot), st_root_trace_count := ss_root_trace_count snapshot,
        st_excluded_non_review_root_count := ss_excluded_non_review_root_count snapshot,
        st_observed_call_count := ss_observed_call_count snapshot, st_usage_reported_call_count := ss_usage_reported_call_count snapshot,
        st_token_usage := ss_token_usage snapshot,
        st_next_attempt_at := (if terminal then st_next_attempt_at s else now + millis delay), st_failure_count := 0,
        st_claim_token := None, st_claimed_at := None, st_failure_code := None,
        st_settled_at := (if terminal then Some now else None), st_updated_at := now\<rparr>)"

definition fits_integer :: "nat option \<Rightarrow> bool" where
  "fits_integer n = (case n of None \<Rightarrow> True | Some k \<Rightarrow> int k < 2147483648)"

definition group_storable :: "statistics_group \<Rightarrow> bool" where
  "group_storable g \<longleftrightarrow> fits_integer (gk_pass_index (sg_key g)) \<and> fits_integer (gk_batch_index (sg_key g)) \<and>
     gk_batch_index (sg_key g) \<noteq> Some 0 \<and> 0 < sg_model_call_count g \<and> fits_integer (Some (sg_model_call_count g)) \<and>
     sg_usage_reported_call_count g \<le> sg_model_call_count g"

definition recordSnapshot ::
  "instant \<Rightarrow> statistics_work \<Rightarrow> statistics_snapshot \<Rightarrow> nat \<Rightarrow> statistics_db \<Rightarrow> (statistics_error + snapshot_result) \<times> statistics_db" where
  "recordSnapshot now work snapshot delay sdb =
     (case List.find (statistics_owner work) (statistics_rows sdb) of
        None \<Rightarrow> (Inl (statistics_claim_lost work), sdb)
      | Some row \<Rightarrow>
         (let result = snapshot_outcome now snapshot row in
          if \<not> list_all group_storable (ss_groups snapshot) then (Inl CheckViolation, sdb)
          else (Inr result,
            sdb\<lparr>statistics_rows := update_statistics (statistics_owner work) (recorded_statistics now snapshot delay result) (statistics_rows sdb),
                statistics_groups := filter (\<lambda>g. fst g \<noteq> sw_run_id work) (statistics_groups sdb) @ map (Pair (sw_run_id work)) (ss_groups snapshot)\<rparr>)))"

datatype read_result = ReadPending | ReadUnavailable

definition failed_statistics :: "instant \<Rightarrow> nat \<Rightarrow> nat \<Rightarrow> statistics_row \<Rightarrow> statistics_row" where
  "failed_statistics now maxFailures retryDelayMs s =
     (let spent = (maxFailures \<le> st_failure_count s + 1) in
      s\<lparr>st_failure_count := st_failure_count s + 1, st_status := (if spent then StatUnavailable else StatPending),
        st_ingestion_status := (if spent then Some IngestionUnavailable else None),
        st_usage_coverage := (if spent then Some UsageUnavailable else st_usage_coverage s),
        st_failure_code := (if spent then Some ''LANGFUSE_UNAVAILABLE'' else None), st_next_attempt_at := now + millis retryDelayMs,
        st_claim_token := None, st_claimed_at := None, st_settled_at := (if spent then Some now else None), st_updated_at := now\<rparr>)"

definition read_result_of :: "statistics_row \<Rightarrow> read_result" where
  "read_result_of s = (if st_status s = StatUnavailable then ReadUnavailable else ReadPending)"

definition release_statistics ::
  "(statistics_row \<Rightarrow> statistics_row) \<Rightarrow> statistics_work \<Rightarrow> statistics_db \<Rightarrow> (statistics_error + read_result) \<times> statistics_db" where
  "release_statistics f work sdb =
     (case List.find (statistics_owner work) (statistics_rows sdb) of
        None \<Rightarrow> (Inl (statistics_claim_lost work), sdb)
      | Some row \<Rightarrow> (Inr (read_result_of (f row)), sdb\<lparr>statistics_rows := update_statistics (statistics_owner work) f (statistics_rows sdb)\<rparr>))"

definition recordFailure :: "instant \<Rightarrow> statistics_work \<Rightarrow> nat \<Rightarrow> nat \<Rightarrow> statistics_db \<Rightarrow> (statistics_error + read_result) \<times> statistics_db" where
  "recordFailure now work maxFailures retryDelayMs = release_statistics (failed_statistics now maxFailures retryDelayMs) work"

text \<open>A comparison with a NULL deadline is not true, and \<^verbatim>\<open>LEAST\<close> ignores NULL.\<close>

definition limited_statistics :: "instant \<Rightarrow> int \<Rightarrow> statistics_row \<Rightarrow> statistics_row" where
  "limited_statistics now retryDelayMs s =
     (let retry_at = now + 1000 * retryDelayMs;
          exhausted = (case st_reconciliation_deadline_at s of None \<Rightarrow> False | Some t \<Rightarrow> t \<le> retry_at)
      in s\<lparr>st_status := (if exhausted then StatUnavailable else StatPending),
           st_ingestion_status := (if exhausted then Some IngestionUnavailable else None),
           st_usage_coverage := (if exhausted then Some UsageUnavailable else st_usage_coverage s),
           st_failure_code := (if exhausted then Some ''LANGFUSE_RATE_LIMITED'' else None),
           st_next_attempt_at := (case st_reconciliation_deadline_at s of None \<Rightarrow> retry_at | Some t \<Rightarrow> min retry_at t),
           st_claim_token := None, st_claimed_at := None, st_settled_at := (if exhausted then Some now else None), st_updated_at := now\<rparr>)"

definition recordRateLimit :: "instant \<Rightarrow> statistics_work \<Rightarrow> int \<Rightarrow> statistics_db \<Rightarrow> (statistics_error + read_result) \<times> statistics_db" where
  "recordRateLimit now work retryDelayMs = release_statistics (limited_statistics now retryDelayMs) work"

subsection \<open>A pass\<close>

text \<open>The options of the coordinator, and what it meets at each item of a pass: the clock, the token, the locked rows, the executions, the
  Langfuse client with enough pages, and what other replicas write between the claim and the result. The callbacks that log a result are left out.\<close>

record reconcile_options =
  ro_confirmation_delay_ms :: nat
  ro_max_failures :: nat
  ro_retry_delay_ms :: nat
  ro_locale_key :: "string \<Rightarrow> string"
  ro_hash :: "fingerprint \<Rightarrow> string"
  ro_iso_text :: "instant \<Rightarrow> string"

record pass_turn =
  pt_now :: instant
  pt_recorded_at :: instant
  pt_token :: uuid
  pt_locked :: "string \<Rightarrow> bool"
  pt_db :: db
  pt_langfuse :: langfuse_client
  pt_pages :: nat
  pt_others :: "statistics_db \<Rightarrow> statistics_db"

definition OBSERVATION_TIME_MARGIN :: instant where
  "OBSERVATION_TIME_MARGIN = 5 * 60 * 1000 * 1000"

definition reconcileClaimedWork :: "reconcile_options \<Rightarrow> pass_turn \<Rightarrow> statistics_work \<Rightarrow> statistics_db \<Rightarrow> ((statistics_error + unit) \<times> statistics_db) option" where
  "reconcileClaimedWork opts turn work sdb =
     map_option (\<lambda>read.
       case read of
         Inr r \<Rightarrow>
           (case recordSnapshot (pt_recorded_at turn) work (aggregateExecutionStatistics (ro_locale_key opts) (ro_hash opts) r)
                   (ro_confirmation_delay_ms opts) sdb of
              (result, sdb') \<Rightarrow> (map_sum id (\<lambda>_. ()) result, sdb'))
       | Inl (LangfuseRateLimitError after) \<Rightarrow>
           (case recordRateLimit (pt_recorded_at turn) work (coalesce after (int (ro_retry_delay_ms opts))) sdb of
              (result, sdb') \<Rightarrow> (map_sum id (\<lambda>_. ()) result, sdb'))
       | Inl (LangfuseFailure message) \<Rightarrow>
           (case recordFailure (pt_recorded_at turn) work (ro_max_failures opts) (ro_retry_delay_ms opts) sdb of
              (result, sdb') \<Rightarrow> (map_sum id (\<lambda>_. ()) result, sdb')))
     (readRun (pt_langfuse turn) (pt_pages turn) (sw_run_id work)
        (ro_iso_text opts (sw_execution_started_at work - OBSERVATION_TIME_MARGIN))
        (ro_iso_text opts (sw_execution_finished_at work + OBSERVATION_TIME_MARGIN)))"

text \<open>\<open>items\<close> counts down from \<^verbatim>\<open>maxItems\<close>; \<open>None\<close> when a read does not end.\<close>

fun reconcileExecutionStatisticsPass ::
  "statistics_cfg \<Rightarrow> reconcile_options \<Rightarrow> (nat \<Rightarrow> pass_turn) \<Rightarrow> nat \<Rightarrow> nat \<Rightarrow> statistics_db \<Rightarrow> ((statistics_error + nat) \<times> statistics_db) option" where
  "reconcileExecutionStatisticsPass cfg opts turns processed 0 sdb = Some (Inr processed, sdb)"
| "reconcileExecutionStatisticsPass cfg opts turns processed (Suc items) sdb =
     (let turn = turns processed in
      case claimNextStatistics cfg (pt_now turn) (pt_locked turn) (pt_token turn) (pt_db turn) sdb of
        (Inl e, sdb') \<Rightarrow> Some (Inl e, sdb')
      | (Inr None, sdb') \<Rightarrow> Some (Inr processed, sdb')
      | (Inr (Some work), sdb') \<Rightarrow>
         (case reconcileClaimedWork opts turn work (pt_others turn sdb') of
            None \<Rightarrow> None
          | Some (Inl e, sdb'') \<Rightarrow> Some (Inl e, sdb'')
          | Some (Inr u, sdb'') \<Rightarrow> reconcileExecutionStatisticsPass cfg opts turns (Suc processed) items sdb''))"

end
