(* ===== verification/PublicationStore.thy ===== *)
theory PublicationStore
  imports ExecutionStore
begin

text \<open>
  \<^verbatim>\<open>services/review-runs/src/persistence/publication-store.ts\<close>: lease renewal, completion, failure and the
  per-step progress of a publication. A publication token fences every write; a step interacts with
  the remote system, and \<open>derivePublicationStatus\<close> makes the axis report the strongest uncertainty among its
  steps. \<open>requirePublicationStepClaim\<close> commits its second transaction and then throws.
\<close>

subsection \<open>Deriving the axis from its steps\<close>

definition derived_status :: "step_row list \<Rightarrow> pub_state \<Rightarrow> pub_state" where
  "derived_status ss st =
     (if \<exists>s \<in> set ss. step_status s = StepDisconnected then PubDisconnected
      else if \<exists>s \<in> set ss. step_status s = StepUncertain then PubUncertain
      else if st \<in> {PubUncertain, PubDisconnected} then PubPublishing
      else st)"

definition derivePublicationStatus :: "instant \<Rightarrow> string \<Rightarrow> string \<Rightarrow> db \<Rightarrow> db" where
  "derivePublicationStatus now c runId db =
     (let q = (\<lambda>b. pub_status b \<in> pub_active) in
      case pick_pub c runId q db of
        None \<Rightarrow> db
      | Some b \<Rightarrow>
         (let to = derived_status (steps_of db c runId) (pub_status b) in
          if pub_status b = to then db
          else
           (let db1 = upd_pub c runId q (\<lambda>b. b\<lparr>pub_status := to, pub_updated_at := now\<rparr>) db;
                (eventId, db2) = appendEvent now c runId AxisPublication (Some (PubS (pub_status b))) (PubS to)
                                   None db1
            in if to = PubDisconnected
               then queueRunNotice now c runId eventId NoticeAttention AxisPublication
                      (Some ''PUBLICATION_RECOVERY_EXHAUSTED'') db2
               else db2)))"

subsection \<open>The publication row\<close>

definition publicationHeartbeatIntervalMs :: "store_cfg \<Rightarrow> nat" where
  "publicationHeartbeatIntervalMs cfg = max 100 (min 30000 (claimTimeoutMs cfg div 3))"

definition publisher :: "uuid \<Rightarrow> publication_row \<Rightarrow> bool" where
  "publisher token b \<longleftrightarrow> pub_status b \<in> pub_active \<and> pub_claim_token b = Some token"

definition renewPublicationClaim ::
  "store_cfg \<Rightarrow> instant \<Rightarrow> string \<Rightarrow> uuid \<Rightarrow> db \<Rightarrow> (rr_error + bool) \<times> db" where
  "renewPublicationClaim cfg now runId token db =
     (let c = connectorId cfg in
      (Inr (cnt_pub c runId (publisher token) db = 1),
       upd_pub c runId (publisher token) (\<lambda>b. b\<lparr>pub_claimed_at := Some now, pub_updated_at := now\<rparr>) db))"

definition reopened_step :: "instant \<Rightarrow> step_row \<Rightarrow> step_row" where
  "reopened_step now s =
     s\<lparr>step_status := StepPending, step_claimed_by := None, step_attempt_count := 0,
       step_recovery_attempt_count := 0, step_updated_at := now\<rparr>"

definition resumeDisconnectedPublicationOn :: "store_cfg \<Rightarrow> instant \<Rightarrow> string \<Rightarrow> db \<Rightarrow> bool \<times> db" where
  "resumeDisconnectedPublicationOn cfg now runId db =
     (let c = connectorId cfg;
          q = (\<lambda>b. pub_status b = PubDisconnected);
          db1 = upd_pub c runId q
                  (\<lambda>b. b\<lparr>pub_status := PubPending, pub_claim_token := None, pub_claimed_at := None,
                         pub_updated_at := now\<rparr>) db
      in case pick_pub c runId q db of
           None \<Rightarrow> (False, db1)
         | Some b \<Rightarrow>
            (let db2 = upd_step c runId (\<lambda>s. step_status s = StepDisconnected) (reopened_step now) db1;
                 db3 = logEvent now c runId AxisPublication (Some (PubS (pub_status b))) (PubS PubPending)
                         (Some ''PUBLICATION_RESUMED_BY_OPERATOR'') db2
             in (True, supersedeRunAttentionNotices now c runId AxisPublication db3)))"

definition completePublication ::
  "store_cfg \<Rightarrow> instant \<Rightarrow> string \<Rightarrow> uuid \<Rightarrow> db \<Rightarrow> (rr_error + bool) \<times> db" where
  "completePublication cfg now runId token = transaction (\<lambda>db.
     let c = connectorId cfg;
         done = (\<forall>s \<in> set (steps_of db c runId). step_status s = StepSucceeded);
         q = (\<lambda>b. publisher token b \<and> done);
         db1 = upd_pub c runId q
                 (\<lambda>b. b\<lparr>pub_status := PubPublished, pub_claim_token := None, pub_finished_at := Some now,
                        pub_failure_code := None, pub_failure_message := None, pub_updated_at := now\<rparr>) db
     in if cnt_pub c runId q db \<noteq> 1 then Inr (False, db1)
        else Inr (True, logEvent now c runId AxisPublication (Some (PubS PubPublishing)) (PubS PubPublished) None db1))"

definition failPublication ::
  "store_cfg \<Rightarrow> instant \<Rightarrow> string \<Rightarrow> uuid \<Rightarrow> string option \<times> string \<Rightarrow> bool \<Rightarrow> db \<Rightarrow> (rr_error + bool) \<times> db" where
  "failPublication cfg now runId token error retry = transaction (\<lambda>db.
     let c = connectorId cfg;
         toStatus = (if retry then PubPending else PubFailed);
         db1 = upd_pub c runId (publisher token)
                 (\<lambda>b. b\<lparr>pub_status := toStatus, pub_claim_token := None, pub_failure_code := fst error,
                        pub_failure_message := Some (snd error),
                        pub_finished_at := (if toStatus = PubFailed then Some now else None),
                        pub_updated_at := now\<rparr>) db
     in if cnt_pub c runId (publisher token) db \<noteq> 1 then Inr (False, db1)
        else
         (let (eventId, db2) = appendEvent now c runId AxisPublication (Some (PubS PubPublishing)) (PubS toStatus)
                                 (fst error) db1
          in Inr (True,
               if toStatus = PubFailed
               then queueRunNotice now c runId eventId NoticeFailure AxisPublication (fst error) db2
               else db2)))"

subsection \<open>The step set\<close>

definition new_step :: "store_cfg \<Rightarrow> instant \<Rightarrow> string \<Rightarrow> string \<Rightarrow> step_row" where
  "new_step cfg now runId stepKey =
     \<lparr>step_connector_id = connectorId cfg, step_run_id = runId, step_key = stepKey,
      step_status = StepPending, step_attempt_count = 0, step_recovery_attempt_count = 0,
      step_last_attempt_at = None, step_claimed_by = None, step_remote_object_id = None,
      step_remote_object_url = None, step_failure_code = None, step_failure_message = None,
      step_updated_at = now\<rparr>"

definition initializePublicationSteps ::
  "store_cfg \<Rightarrow> instant \<Rightarrow> string \<Rightarrow> uuid \<Rightarrow> string list \<Rightarrow> db \<Rightarrow> (rr_error + unit) \<times> db" where
  "initializePublicationSteps cfg now runId token stepKeys db =
     (let uniqueKeys = sort (remdups stepKeys) in
      if length uniqueKeys \<noteq> length stepKeys then (Inl (StepError SetDuplicate), db)
      else
       transaction (\<lambda>db.
         let c = connectorId cfg in
         if cnt_pub c runId (publisher token) db \<noteq> 1
         then Inl (PlainError (''Publication claim was lost before steps were initialized: '' @ runId))
         else
          (let existing = sort_key step_key (steps_of db c runId) in
           if existing = []
           then Inr ((), db\<lparr>publication_steps := publication_steps db @ map (new_step cfg now runId) uniqueKeys\<rparr>)
           else if sort (map step_key existing) \<noteq> uniqueKeys then Inl (StepError SetChanged)
           else Inr ((), db))) db)"

record publication_step_record =
  psr_step_key :: string
  psr_status :: step_state
  psr_attempt_count :: nat
  psr_last_attempt_at :: "instant option"
  psr_remote_object_id :: "string option"
  psr_remote_object_url :: "string option"
  psr_failure_code :: "string option"
  psr_failure_message :: "string option"

definition step_record :: "step_row \<Rightarrow> publication_step_record" where
  "step_record s =
     \<lparr>psr_step_key = step_key s, psr_status = step_status s, psr_attempt_count = step_attempt_count s,
      psr_last_attempt_at = isoOrNull (step_last_attempt_at s),
      psr_remote_object_id = step_remote_object_id s, psr_remote_object_url = step_remote_object_url s,
      psr_failure_code = step_failure_code s, psr_failure_message = step_failure_message s\<rparr>"

definition listPublicationSteps :: "store_cfg \<Rightarrow> string \<Rightarrow> db \<Rightarrow> publication_step_record list" where
  "listPublicationSteps cfg runId db =
     map step_record (sort_key step_key (steps_of db (connectorId cfg) runId))"

subsection \<open>Step claims\<close>

definition isStepExhausted :: "publication_step_record \<Rightarrow> bool" where
  "isStepExhausted s \<longleftrightarrow> MAX_PUBLICATION_STEP_ATTEMPTS \<le> psr_attempt_count s"

definition lockPublicationOwnership :: "store_cfg \<Rightarrow> string \<Rightarrow> uuid \<Rightarrow> db \<Rightarrow> bool" where
  "lockPublicationOwnership cfg runId token db =
     (cnt_pub (connectorId cfg) runId (publisher token) db = 1)"

definition step_claimable :: "uuid \<Rightarrow> string \<Rightarrow> step_row \<Rightarrow> bool" where
  "step_claimable token stepKey s \<longleftrightarrow>
     step_key s = stepKey \<and> step_attempt_count s + 1 \<le> MAX_PUBLICATION_STEP_ATTEMPTS \<and>
     (step_status s = StepPending \<or>
      step_status s = StepRunning \<and> step_claimed_by s \<noteq> Some token \<or>
      step_status s = StepFailed)"

definition claimed_step :: "instant \<Rightarrow> uuid \<Rightarrow> step_row \<Rightarrow> step_row" where
  "claimed_step now token s =
     s\<lparr>step_status := StepRunning, step_claimed_by := Some token,
       step_attempt_count := step_attempt_count s + 1, step_last_attempt_at := Some now,
       step_updated_at := now\<rparr>"

definition claimPublicationStep ::
  "store_cfg \<Rightarrow> instant \<Rightarrow> string \<Rightarrow> uuid \<Rightarrow> string \<Rightarrow> db \<Rightarrow> (rr_error + bool) \<times> db" where
  "claimPublicationStep cfg now runId token stepKey = transaction (\<lambda>db.
     if \<not> lockPublicationOwnership cfg runId token db then Inr (False, db)
     else
      (let c = connectorId cfg in
       Inr (cnt_step c runId (step_claimable token stepKey) db = 1,
            upd_step c runId (step_claimable token stepKey) (claimed_step now token) db)))"

definition uncertain_step :: "instant \<Rightarrow> step_row \<Rightarrow> step_row" where
  "uncertain_step now s = s\<lparr>step_status := StepUncertain, step_claimed_by := None, step_updated_at := now\<rparr>"

definition needs_reconciliation :: "store_cfg \<Rightarrow> string \<Rightarrow> uuid \<Rightarrow> string \<Rightarrow> db \<Rightarrow> bool" where
  "needs_reconciliation cfg runId token stepKey db =
     (lockPublicationOwnership cfg runId token db \<and>
      (case find (\<lambda>s. psr_step_key s = stepKey) (listPublicationSteps cfg runId db) of
         None \<Rightarrow> False
       | Some cur \<Rightarrow> isStepExhausted cur \<and> psr_status cur \<in> {StepFailed, StepRunning, StepUncertain}))"

definition exhaustion_tx :: "store_cfg \<Rightarrow> instant \<Rightarrow> string \<Rightarrow> uuid \<Rightarrow> string \<Rightarrow> bool tx" where
  "exhaustion_tx cfg now runId token stepKey db =
     (let c = connectorId cfg;
          needs = needs_reconciliation cfg runId token stepKey db;
          db1 = (if needs
                 then upd_step c runId
                        (\<lambda>s. step_key s = stepKey \<and> step_status s \<in> {StepFailed, StepRunning} \<and>
                             MAX_PUBLICATION_STEP_ATTEMPTS \<le> step_attempt_count s) (uncertain_step now) db
                 else db)
      in Inr (needs, derivePublicationStatus now c runId db1))"

definition requirePublicationStepClaim ::
  "store_cfg \<Rightarrow> instant \<Rightarrow> string \<Rightarrow> uuid \<Rightarrow> string \<Rightarrow> db \<Rightarrow> (rr_error + unit) \<times> db" where
  "requirePublicationStepClaim cfg now runId token stepKey db =
     (case claimPublicationStep cfg now runId token stepKey db of
        (Inl err, db1) \<Rightarrow> (Inl err, db1)
      | (Inr claimed, db1) \<Rightarrow>
          if claimed then (Inr (), db1)
          else
           (case transaction (exhaustion_tx cfg now runId token stepKey) db1 of
              (Inl err, db2) \<Rightarrow> (Inl err, db2)
            | (Inr exhausted, db2) \<Rightarrow>
                (Inl (StepError (if exhausted then RetryExhausted else NotClaimable)), db2)))"

subsection \<open>Step outcomes\<close>

text \<open>\<^verbatim>\<open>{ found: true; remote } | { found: false }\<close>.\<close>

datatype settle_outcome = Found "string option" "string option" | Absent

definition succeeded_step :: "instant \<Rightarrow> string option \<Rightarrow> string option \<Rightarrow> step_row \<Rightarrow> step_row" where
  "succeeded_step now rid url s =
     s\<lparr>step_status := StepSucceeded, step_claimed_by := None, step_remote_object_id := rid,
       step_remote_object_url := url, step_failure_code := None, step_failure_message := None,
       step_updated_at := now\<rparr>"

definition terminal_step :: "instant \<Rightarrow> step_row \<Rightarrow> step_row" where
  "terminal_step now s = s\<lparr>step_status := StepTerminalFailed, step_claimed_by := None, step_updated_at := now\<rparr>"

definition settleExhaustedPublicationStep ::
  "store_cfg \<Rightarrow> instant \<Rightarrow> string \<Rightarrow> uuid \<Rightarrow> string \<Rightarrow> settle_outcome \<Rightarrow> db \<Rightarrow> (rr_error + bool) \<times> db" where
  "settleExhaustedPublicationStep cfg now runId token stepKey outcome = transaction (\<lambda>db.
     if \<not> lockPublicationOwnership cfg runId token db then Inr (False, db)
     else
      (let c = connectorId cfg;
           q = (\<lambda>s. step_key s = stepKey \<and> step_status s = StepUncertain \<and>
                    MAX_PUBLICATION_STEP_ATTEMPTS \<le> step_attempt_count s);
           db1 = upd_step c runId q
                   (case outcome of Found rid url \<Rightarrow> succeeded_step now rid url | Absent \<Rightarrow> terminal_step now) db
       in if cnt_step c runId q db \<noteq> 1 then Inr (False, db1)
          else Inr (True, derivePublicationStatus now c runId db1)))"

definition completePublicationStep ::
  "store_cfg \<Rightarrow> instant \<Rightarrow> string \<Rightarrow> uuid \<Rightarrow> string \<Rightarrow> string option \<Rightarrow> string option \<Rightarrow> db \<Rightarrow> (rr_error + bool) \<times> db"
where
  "completePublicationStep cfg now runId token stepKey rid url = transaction (\<lambda>db.
     if \<not> lockPublicationOwnership cfg runId token db then Inr (False, db)
     else
      (let c = connectorId cfg; q = (\<lambda>s. step_key s = stepKey \<and> step_status s = StepRunning) in
       Inr (cnt_step c runId q db = 1, upd_step c runId q (succeeded_step now rid url) db)))"

text \<open>\<open>retry\<close> is \<^verbatim>\<open>options.retry\<close>: \<^verbatim>\<open>true\<close>, \<^verbatim>\<open>false\<close> or absent.\<close>

definition failed_step :: "instant \<Rightarrow> string option \<times> string \<Rightarrow> bool option \<Rightarrow> step_row \<Rightarrow> step_row" where
  "failed_step now error retry s =
     (let reconciling = (step_status s = StepUncertain \<and> retry = Some True) in
      s\<lparr>step_status :=
          (if reconciling \<and> MAX_PUBLICATION_STEP_RECOVERY_ATTEMPTS \<le> step_recovery_attempt_count s + 1
           then StepDisconnected
           else if reconciling then StepUncertain
           else if retry = Some False then StepTerminalFailed else StepFailed),
        step_claimed_by := None,
        step_recovery_attempt_count :=
          (if reconciling then step_recovery_attempt_count s + 1 else step_recovery_attempt_count s),
        step_failure_code := fst error, step_failure_message := Some (snd error), step_updated_at := now\<rparr>)"

definition failed_publication :: "instant \<Rightarrow> string option \<times> string \<Rightarrow> publication_row \<Rightarrow> publication_row" where
  "failed_publication now error b =
     b\<lparr>pub_status := PubFailed, pub_claim_token := None, pub_claimed_at := None,
       pub_failure_code := fst error, pub_failure_message := Some (snd error),
       pub_finished_at := Some now, pub_updated_at := now\<rparr>"

definition failPublicationStep ::
  "store_cfg \<Rightarrow> instant \<Rightarrow> string \<Rightarrow> uuid \<Rightarrow> string \<Rightarrow> string option \<times> string \<Rightarrow> bool option \<Rightarrow> db \<Rightarrow> (rr_error + bool) \<times> db"
where
  "failPublicationStep cfg now runId token stepKey error retry = transaction (\<lambda>db.
     if \<not> lockPublicationOwnership cfg runId token db then Inr (False, db)
     else
      (let c = connectorId cfg;
           q = (\<lambda>s. step_key s = stepKey \<and> step_status s \<in> {StepRunning, StepUncertain});
           db1 = upd_step c runId q (failed_step now error retry) db
       in if cnt_step c runId q db \<noteq> 1 then Inr (False, db1)
          else
           (let db2 = derivePublicationStatus now c runId db1 in
            if retry \<noteq> Some False then Inr (True, db2)
            else
             (case pick_pub c runId (publisher token) db2 of
                None \<Rightarrow> Inl (PlainError (''Publication '' @ runId @ '' changed while its terminal step failed.''))
              | Some b \<Rightarrow>
                 (let db3 = upd_pub c runId (publisher token) (failed_publication now error) db2;
                      (eventId, db4) = appendEvent now c runId AxisPublication (Some (PubS (pub_status b)))
                                         (PubS PubFailed) (fst error) db3
                  in Inr (True, queueRunNotice now c runId eventId NoticeFailure AxisPublication (fst error) db4))))))"

subsection \<open>Row facts\<close>

lemma step_row_simps [simp]:
  "step_run_id (claimed_step now tok s) = step_run_id s" "step_connector_id (claimed_step now tok s) = step_connector_id s"
  "step_key (claimed_step now tok s) = step_key s" "step_status (claimed_step now tok s) = StepRunning"
  "step_run_id (uncertain_step now s) = step_run_id s" "step_connector_id (uncertain_step now s) = step_connector_id s"
  "step_key (uncertain_step now s) = step_key s" "step_status (uncertain_step now s) = StepUncertain"
  "step_run_id (succeeded_step now i u s) = step_run_id s"
  "step_connector_id (succeeded_step now i u s) = step_connector_id s"
  "step_key (succeeded_step now i u s) = step_key s" "step_status (succeeded_step now i u s) = StepSucceeded"
  "step_run_id (terminal_step now s) = step_run_id s" "step_connector_id (terminal_step now s) = step_connector_id s"
  "step_key (terminal_step now s) = step_key s" "step_status (terminal_step now s) = StepTerminalFailed"
  "step_run_id (reopened_step now s) = step_run_id s" "step_connector_id (reopened_step now s) = step_connector_id s"
  "step_key (reopened_step now s) = step_key s" "step_status (reopened_step now s) = StepPending"
  "step_run_id (failed_step now err r s) = step_run_id s"
  "step_connector_id (failed_step now err r s) = step_connector_id s" "step_key (failed_step now err r s) = step_key s"
  by (simp_all add: claimed_step_def uncertain_step_def succeeded_step_def terminal_step_def reopened_step_def
      failed_step_def Let_def)

lemma settled_row_simps [simp]:
  "step_run_id ((case out of Found i u \<Rightarrow> succeeded_step now i u | Absent \<Rightarrow> terminal_step now) s) = step_run_id s"
  "step_connector_id ((case out of Found i u \<Rightarrow> succeeded_step now i u | Absent \<Rightarrow> terminal_step now) s) =
     step_connector_id s"
  "step_key ((case out of Found i u \<Rightarrow> succeeded_step now i u | Absent \<Rightarrow> terminal_step now) s) = step_key s"
  by (cases out; simp)+

lemma step_ok_rows:
  "step_ok s \<Longrightarrow> step_claimable tok key s \<Longrightarrow> step_ok (claimed_step now tok s)"
  "step_ok s \<Longrightarrow> step_status s = StepFailed \<or> step_status s = StepRunning \<Longrightarrow>
     MAX_PUBLICATION_STEP_ATTEMPTS \<le> step_attempt_count s \<Longrightarrow> step_ok (uncertain_step now s)"
  "step_ok s \<Longrightarrow> step_status s = StepRunning \<or> step_status s = StepUncertain \<Longrightarrow> step_ok (succeeded_step now i u s)"
  "step_ok s \<Longrightarrow> step_status s = StepUncertain \<Longrightarrow> step_ok (terminal_step now s)"
  "step_ok (reopened_step now s)" "step_ok (new_step cfg now k key)"
  "step_ok s \<Longrightarrow> step_status s = StepRunning \<or> step_status s = StepUncertain \<Longrightarrow> step_ok (failed_step now err r s)"
  by (auto simp: step_ok_def step_claimable_def claimed_step_def uncertain_step_def succeeded_step_def
      terminal_step_def reopened_step_def new_step_def failed_step_def Let_def)

lemma failed_publication_simps [simp]:
  "pub_run_id (failed_publication now err b) = pub_run_id b"
  "pub_connector_id (failed_publication now err b) = pub_connector_id b"
  "pub_status (failed_publication now err b) = PubFailed" "pub_claim_token (failed_publication now err b) = None"
  by (simp_all add: failed_publication_def)

lemma publisher_active: "publisher tok b \<Longrightarrow> pub_status b \<in> pub_active"
  by (simp add: publisher_def)

lemma steps_of_mem: "s \<in> set (steps_of db c k) \<longleftrightarrow>
     s \<in> set (publication_steps db) \<and> step_run_id s = k \<and> step_connector_id s = c"
  by (auto simp: steps_of_def rows_at_def at_key_def)

text \<open>Step writes that neither enter nor leave an uncertain state keep what the axis reports.\<close>

lemma steps_ok_map:
  assumes "steps_ok es bs ss" "bs \<noteq> PubPublished"
    and "\<And>s. s \<in> set ss \<Longrightarrow> q s \<Longrightarrow> step_ok s \<Longrightarrow> step_ok (f s)"
    and "\<And>s. q s \<Longrightarrow> step_status s \<notin> {StepUncertain, StepDisconnected} \<and>
           step_status (f s) \<notin> {StepUncertain, StepDisconnected}"
  shows "steps_ok es bs (map (\<lambda>s. if q s then f s else s) ss)"
  using assms unfolding steps_ok_def by (auto split: if_splits)

subsection \<open>Deriving keeps the invariant\<close>

lemma derive_lookup [simp]:
  "prep_of (derivePublicationStatus now c k db) = prep_of db"
  "exec_of (derivePublicationStatus now c k db) = exec_of db"
  "steps_of (derivePublicationStatus now c k db) = steps_of db"
  "cands_of (derivePublicationStatus now c k db) = cands_of db"
  by (simp_all add: derivePublicationStatus_def Let_def split_beta split: option.split)

lemma derive_wrote [simp]: "wrote c k db X \<Longrightarrow> wrote c k db (derivePublicationStatus now c k X)"
  by (simp add: derivePublicationStatus_def Let_def split_beta split: option.split)

lemma derive_ids [simp]: "ids_ok X \<Longrightarrow> ids_ok (derivePublicationStatus now c k X)"
  by (simp add: derivePublicationStatus_def Let_def split_beta split: option.split)

lemma derive_keys [simp]: "keys_ok (derivePublicationStatus now c k X) = keys_ok X"
  by (simp add: derivePublicationStatus_def Let_def split_beta split: option.split)

definition derived_row :: "instant \<Rightarrow> step_row list \<Rightarrow> publication_row \<Rightarrow> publication_row" where
  "derived_row now ss b =
     (if pub_status b \<notin> pub_active \<or> derived_status ss (pub_status b) = pub_status b then b
      else b\<lparr>pub_status := derived_status ss (pub_status b), pub_updated_at := now\<rparr>)"

lemma derive_pub_of:
  assumes "keys_ok db"
  shows "pub_of (derivePublicationStatus now c k db) c k =
     map_option (derived_row now (steps_of db c k)) (pub_of db c k)"
  by (cases "pub_of db c k")
    (auto simp: derivePublicationStatus_def Let_def split_beta pick_axis [OF assms] derived_row_def)

lemma derived_status_active: "st \<in> pub_active \<Longrightarrow> derived_status ss st \<in> pub_active"
  by (auto simp: derived_status_def)

lemma derived_row_simps [simp]:
  "pub_claim_token (derived_row now ss b) = pub_claim_token b"
  "pub_status b \<in> pub_active \<Longrightarrow> pub_status (derived_row now ss b) = derived_status ss (pub_status b)"
  "pub_check b \<Longrightarrow> pub_check (derived_row now ss b)" "pub_owned b \<Longrightarrow> pub_owned (derived_row now ss b)"
  using derived_status_active [of "pub_status b" ss]
  by (auto simp: derived_row_def pub_check_def pub_owned_def)

lemma derived_steps_ok:
  assumes "\<forall>s \<in> set ss. step_ok s" "bs \<in> pub_active"
  shows "steps_ok ExecSucceeded (derived_status ss bs) ss"
  using assms by (auto simp: steps_ok_def derived_status_def)

text \<open>A run whose steps were just written: everything holds except that the axis may not report them yet.\<close>

definition run_mid :: "db \<Rightarrow> string \<Rightarrow> string \<Rightarrow> bool" where
  "run_mid db c k \<longleftrightarrow>
     (\<exists>p e b. prep_of db c k = Some p \<and> exec_of db c k = Some e \<and> pub_of db c k = Some b \<and>
        prep_check p \<and> prep_budget p \<and> exec_check e \<and> pub_check b \<and> pub_owned b \<and>
        axes_ok (prep_status p) (exec_status e) (pub_status b) \<and> pub_status b \<in> pub_active \<and>
        (\<forall>s \<in> set (steps_of db c k). step_ok s) \<and> cands_ok (exec_input e) (cands_of db c k) \<and>
        audit_ok db c k (prep_status p) (exec_status e) (pub_status b) \<and>
        told_ok (exec_status e) (pub_status b) (notice_rows db c k))"

lemma derive_run_ok:
  assumes "keys_ok db" "ids_ok db" "run_mid db c k"
  shows "run_ok (derivePublicationStatus now c k db) c k"
proof -
  from assms(3) obtain p e b where run: "prep_of db c k = Some p" "exec_of db c k = Some e" "pub_of db c k = Some b"
    "prep_check p" "prep_budget p" "exec_check e" "pub_check b" "pub_owned b"
    "axes_ok (prep_status p) (exec_status e) (pub_status b)" "pub_status b \<in> pub_active"
    "\<forall>s \<in> set (steps_of db c k). step_ok s" "cands_ok (exec_input e) (cands_of db c k)"
    "audit_ok db c k (prep_status p) (exec_status e) (pub_status b)"
    "told_ok (exec_status e) (pub_status b) (notice_rows db c k)"
    unfolding run_mid_def by blast
  let ?to = "derived_status (steps_of db c k) (pub_status b)"
  let ?db' = "derivePublicationStatus now c k db"
  have act: "?to \<in> pub_active" using run(10) by (rule derived_status_active)
  have es: "exec_status e = ExecSucceeded" using axes_publishing(1) [OF run(9)] run(10) by auto
  have pub: "pub_of ?db' c k = Some (derived_row now (steps_of db c k) b)"
    using derive_pub_of [OF assms(1)] run(3) by simp
  have "rows_ok ?db' c k"
    using run es act derived_steps_ok [OF run(11,10)]
    by (auto simp: rows_ok_def pub axes_ok_def)
  moreover have "audited ?db' c k"
    using run(1-3,10,13)
    by (auto simp: audited_def pub derivePublicationStatus_def Let_def split_beta pick_axis [OF assms(1)] audit_ok_def)
  moreover have "told ?db' c k"
    using run(2,3,10,14) es assms(2) act [unfolded pub_active_def]
    by (auto simp: told_def pub derivePublicationStatus_def Let_def split_beta pick_axis [OF assms(1)]
        told_ok_def run_failed_def notice_rows_queue is_failure_def attention_def)
  ultimately show ?thesis by (simp add: run_ok_def)
qed

lemma run_mid_steps:
  assumes inv: "db_inv db" and b: "pub_of db c k = Some b" "pub_status b \<in> pub_active"
    and f: "keeps step_run_id step_connector_id f" "\<And>s. q s \<Longrightarrow> step_ok s \<Longrightarrow> step_ok (f s)"
  shows "run_mid (upd_step c k q f db) c k"
  using invD(3) [OF inv, of c k]
proof (cases rule: run_okE)
  case (run p e b')
  with b have "b' = b" by simp
  with run b f show ?thesis
    unfolding run_mid_def by (intro exI [of _ p] exI [of _ e] exI [of _ b]) (auto simp: steps_ok_def)
qed (use b in simp)

lemma upd_step_derive_inv:
  assumes inv: "db_inv db" and b: "pub_of db c k = Some b" "pub_status b \<in> pub_active"
    and f: "keeps step_run_id step_connector_id f" "\<And>s. step_key (f s) = step_key s"
      "\<And>s. q s \<Longrightarrow> step_ok s \<Longrightarrow> step_ok (f s)"
  shows "db_inv (derivePublicationStatus now c k (upd_step c k q f db))"
proof (rule inv_step [OF inv, of c k])
  show "wrote c k db (derivePublicationStatus now c k (upd_step c k q f db))" using f(1,2) by simp
  show "ids_ok (derivePublicationStatus now c k (upd_step c k q f db))" using invD(2) [OF inv] by simp
  show "run_ok (derivePublicationStatus now c k (upd_step c k q f db)) c k"
    using run_mid_steps [OF inv b f(1,3)] invD(1,2) [OF inv] f(1,2) by (intro derive_run_ok) auto
qed

lemma derive_inv:
  assumes inv: "db_inv db" shows "db_inv (derivePublicationStatus now c k db)"
proof (cases "pub_of db c k")
  case None
  then show ?thesis using inv by (simp add: derivePublicationStatus_def Let_def pick_axis [OF invD(1) [OF inv]])
next
  case (Some b)
  show ?thesis
  proof (cases "pub_status b \<in> pub_active")
    case True
    have "run_ok (derivePublicationStatus now c k db) c k"
      using run_mid_steps [OF inv Some True, of "\<lambda>s. s" "\<lambda>s. False"] invD(1,2) [OF inv]
      by (intro derive_run_ok) (auto simp: upd_step_def update_rows_def)
    then show ?thesis using inv by (intro inv_step [OF inv, of c k]) (auto simp: db_inv_def)
  next
    case False
    then show ?thesis using inv Some
      by (simp add: derivePublicationStatus_def Let_def pick_axis [OF invD(1) [OF inv]])
  qed
qed

subsection \<open>The publication row's operations keep the invariant\<close>

lemma renewPublicationClaim_inv: "db_inv db \<Longrightarrow> db_inv (snd (renewPublicationClaim cfg now k tok db))"
  by (rule inv_step [of db "connectorId cfg" k])
    (auto simp: renewPublicationClaim_def Let_def db_inv_def pub_owned_def intro!: run_ok_quiet_pub)

lemma resumeDisconnectedPublicationOn_inv:
  assumes "db_inv db" shows "db_inv (snd (resumeDisconnectedPublicationOn cfg now k db))"
proof (rule inv_step [OF assms])
  note op = resumeDisconnectedPublicationOn_def Let_def split_beta cnt_axis [OF invD(1) [OF assms]] pick_axis [OF invD(1) [OF assms]]
  show "wrote (connectorId cfg) k db (snd (resumeDisconnectedPublicationOn cfg now k db))"
    by (simp add: op split: option.split)
  show "ids_ok (snd (resumeDisconnectedPublicationOn cfg now k db))"
    using invD(2) [OF assms] by (simp add: op split: option.split)
  show "run_ok (snd (resumeDisconnectedPublicationOn cfg now k db)) (connectorId cfg) k"
    using invD(3) [OF assms, of "connectorId cfg" k]
  proof (cases rule: run_okE)
    case (run p e b)
    show ?thesis
    proof (cases "pub_status b = PubDisconnected")
      case True
      have "rows_ok (snd (resumeDisconnectedPublicationOn cfg now k db)) (connectorId cfg) k"
        using True run(1-11) axes_publishing [OF run(9)]
        by (auto simp: op rows_ok_def axes_ok_def pub_check_def pub_owned_def steps_ok_def step_ok_rows)
      moreover have "audited (snd (resumeDisconnectedPublicationOn cfg now k db)) (connectorId cfg) k"
        using True run(1-3,12) by (simp add: op audited_def audit_ok_def)
      moreover have "told (snd (resumeDisconnectedPublicationOn cfg now k db)) (connectorId cfg) k"
        using True run(1-3,9,13) by (simp add: op told_def told_ok_def run_failed_def notice_rows_supersede axes_ok_def)
      ultimately show ?thesis by (simp add: run_ok_def)
    qed (use run in \<open>simp add: op run_ok_def run_defs split: option.split\<close>)
  qed (simp add: op run_ok_def run_defs split: option.split)
qed

lemma completePublication_inv:
  assumes "db_inv db" shows "db_inv (snd (completePublication cfg now k tok db))"
proof (rule inv_step [OF assms])
  note op = completePublication_def transaction_def Let_def cnt_axis [OF invD(1) [OF assms]] pick_axis [OF invD(1) [OF assms]]
  show "wrote (connectorId cfg) k db (snd (completePublication cfg now k tok db))"
    by (simp add: op)
  show "ids_ok (snd (completePublication cfg now k tok db))"
    using invD(2) [OF assms] by (simp add: op)
  show "run_ok (snd (completePublication cfg now k tok db)) (connectorId cfg) k"
    using invD(3) [OF assms, of "connectorId cfg" k]
  proof (cases rule: run_okE)
    case (run p e b)
    show ?thesis
    proof (cases "publisher tok b \<and> (\<forall>s \<in> set (steps_of db (connectorId cfg) k). step_status s = StepSucceeded)")
      case True
      then have st: "pub_status b = PubPublishing"
        using run(10) by (auto simp: publisher_def steps_ok_def)
      then have ax: "exec_status e = ExecSucceeded" using axes_publishing(1) [OF run(9)] by simp
      have "rows_ok (snd (completePublication cfg now k tok db)) (connectorId cfg) k"
        using True run(1-11) st ax
        by (simp add: op rows_ok_def axes_ok_def pub_check_def pub_owned_def steps_ok_def)
      moreover have "audited (snd (completePublication cfg now k tok db)) (connectorId cfg) k"
        using True run(1-3,12) by (simp add: op audited_def audit_ok_def)
      moreover have "told (snd (completePublication cfg now k tok db)) (connectorId cfg) k"
        using True run(1-3,9,13) st ax
        by (simp add: op told_def told_ok_def run_failed_def)
      ultimately show ?thesis by (simp add: run_ok_def)
    qed (use run in \<open>auto simp: op run_ok_def run_defs\<close>)
  qed (simp add: op run_ok_def run_defs)
qed

lemma failPublication_inv:
  assumes "db_inv db" shows "db_inv (snd (failPublication cfg now k tok err retry db))"
proof (rule inv_step [OF assms])
  note op = failPublication_def transaction_def Let_def split_beta cnt_axis [OF invD(1) [OF assms]] pick_axis [OF invD(1) [OF assms]]
  show "wrote (connectorId cfg) k db (snd (failPublication cfg now k tok err retry db))"
    by (simp add: op)
  show "ids_ok (snd (failPublication cfg now k tok err retry db))"
    using invD(2) [OF assms] by (simp add: op)
  show "run_ok (snd (failPublication cfg now k tok err retry db)) (connectorId cfg) k"
    using invD(3) [OF assms, of "connectorId cfg" k]
  proof (cases rule: run_okE)
    case (run p e b)
    show ?thesis
    proof (cases "publisher tok b")
      case True
      then have "pub_status b \<noteq> PubPending" "pub_status b \<noteq> PubSkipped" by (auto simp: publisher_def)
      note ax = axes_publishing [OF run(9) this]
      have "rows_ok (snd (failPublication cfg now k tok err retry db)) (connectorId cfg) k"
        using True run(1-11) ax
        by (auto simp: op rows_ok_def axes_ok_def pub_check_def pub_owned_def steps_ok_def publisher_def)
      moreover have "audited (snd (failPublication cfg now k tok err retry db)) (connectorId cfg) k"
        using True run(1-3,12) by (simp add: op audited_def audit_ok_def)
      moreover have "told (snd (failPublication cfg now k tok err retry db)) (connectorId cfg) k"
        using True run(1-3,9,13) ax(1) invD(2) [OF assms]
        by (auto simp: op told_def told_ok_def run_failed_def publisher_def notice_rows_queue is_failure_def)
      ultimately show ?thesis by (simp add: run_ok_def)
    qed (use run in \<open>simp add: op run_ok_def run_defs\<close>)
  qed (simp add: op run_ok_def run_defs)
qed

subsection \<open>The step operations keep the invariant\<close>

lemma owned_pub:
  assumes "keys_ok db" "lockPublicationOwnership cfg k tok db"
  obtains b where "pub_of db (connectorId cfg) k = Some b" "publisher tok b" "pub_status b \<in> pub_active"
    "pub_status b \<noteq> PubPublished"
  using assms that
  by (auto simp: lockPublicationOwnership_def cnt_axis publisher_def split: option.splits if_splits)

lemma filter_key_le1:
  "distinct (map g xs) \<Longrightarrow> (\<And>x. x \<in> set xs \<Longrightarrow> P x \<Longrightarrow> g x = y) \<Longrightarrow> length (filter P xs) \<le> 1"
proof (induction xs)
  case (Cons a xs)
  then have "filter P xs = []" if "P a" using that by (force simp: filter_empty_conv image_iff)
  with Cons show ?case by simp
qed simp

text \<open>A step statement names its key, so the primary key bounds its row count.\<close>

lemma cnt_step_le1:
  assumes "keys_ok db" "\<And>s. q s \<Longrightarrow> step_key s = key"
  shows "cnt_step c k q db \<le> 1"
  unfolding cnt_step_def row_count_def
  using assms by (intro filter_key_le1 [where g = "\<lambda>s. (step_connector_id s, step_run_id s, step_key s)" and y = "(c, k, key)"])
    (auto simp: keys_ok_def at_key_def)

lemma upd_step_inv:
  assumes inv: "db_inv db" and b: "pub_of db c k = Some b" "pub_status b \<noteq> PubPublished"
    and f: "keeps step_run_id step_connector_id f" "\<And>s. step_key (f s) = step_key s"
      "\<And>s. q s \<Longrightarrow> step_ok s \<Longrightarrow> step_ok (f s)"
      "\<And>s. q s \<Longrightarrow> step_status s \<notin> {StepUncertain, StepDisconnected} \<and>
         step_status (f s) \<notin> {StepUncertain, StepDisconnected}"
  shows "db_inv (upd_step c k q f db)"
proof (rule inv_step [OF inv, of c k])
  show "run_ok (upd_step c k q f db) c k"
    using invD(3) [OF inv, of c k]
  proof (cases rule: run_okE)
    case (run p e b')
    with b have "b' = b" by simp
    with run b f steps_ok_map [of "exec_status e" "pub_status b" "steps_of db c k" q f] show ?thesis
      by (simp add: run_ok_def run_defs)
  qed (use b in simp)
qed (use f(1,2) inv in \<open>auto simp: db_inv_def\<close>)

lemma claimPublicationStep_inv:
  assumes inv: "db_inv db" shows "db_inv (snd (claimPublicationStep cfg now k tok key db))"
proof (cases "lockPublicationOwnership cfg k tok db")
  case True
  then obtain b where b: "pub_of db (connectorId cfg) k = Some b" "pub_status b \<noteq> PubPublished"
    using owned_pub [OF invD(1) [OF inv]] by blast
  have "db_inv (upd_step (connectorId cfg) k (step_claimable tok key) (claimed_step now tok) db)"
    by (rule upd_step_inv [OF inv b]) (auto simp: step_ok_rows step_claimable_def)
  with True show ?thesis by (simp add: claimPublicationStep_def transaction_def Let_def)
qed (use inv in \<open>simp add: claimPublicationStep_def transaction_def\<close>)

lemma completePublicationStep_inv:
  assumes inv: "db_inv db" shows "db_inv (snd (completePublicationStep cfg now k tok key rid url db))"
proof (cases "lockPublicationOwnership cfg k tok db")
  case True
  then obtain b where b: "pub_of db (connectorId cfg) k = Some b" "pub_status b \<noteq> PubPublished"
    using owned_pub [OF invD(1) [OF inv]] by blast
  have "db_inv (upd_step (connectorId cfg) k (\<lambda>s. step_key s = key \<and> step_status s = StepRunning)
      (succeeded_step now rid url) db)"
    by (rule upd_step_inv [OF inv b]) (auto simp: step_ok_rows)
  with True show ?thesis by (simp add: completePublicationStep_def transaction_def Let_def)
qed (use inv in \<open>simp add: completePublicationStep_def transaction_def\<close>)

lemma exhaustion_tx_inv:
  assumes inv: "db_inv db" and tx: "exhaustion_tx cfg now k tok key db = Inr (n, db')"
  shows "db_inv db'"
proof (cases "needs_reconciliation cfg k tok key db")
  case True
  then have "lockPublicationOwnership cfg k tok db" by (simp add: needs_reconciliation_def)
  then obtain b where b: "pub_of db (connectorId cfg) k = Some b" "pub_status b \<in> pub_active"
    using owned_pub [OF invD(1) [OF inv]] by blast
  have "db_inv (derivePublicationStatus now (connectorId cfg) k (upd_step (connectorId cfg) k
      (\<lambda>s. step_key s = key \<and> step_status s \<in> {StepFailed, StepRunning} \<and>
         MAX_PUBLICATION_STEP_ATTEMPTS \<le> step_attempt_count s) (uncertain_step now) db))"
    by (rule upd_step_derive_inv [OF inv b]) (auto simp: step_ok_rows)
  with True tx show ?thesis by (simp add: exhaustion_tx_def Let_def)
qed (use tx derive_inv [OF inv, of now "connectorId cfg" k] in \<open>simp add: exhaustion_tx_def Let_def\<close>)

lemma requirePublicationStepClaim_inv:
  assumes inv: "db_inv db" shows "db_inv (snd (requirePublicationStepClaim cfg now k tok key db))"
proof -
  obtain r1 db1 where 1: "claimPublicationStep cfg now k tok key db = (r1, db1)" by fastforce
  obtain r2 db2 where 2: "transaction (exhaustion_tx cfg now k tok key) db1 = (r2, db2)" by fastforce
  have inv1: "db_inv db1" using claimPublicationStep_inv [OF inv, of cfg now k tok key] by (simp add: 1)
  have "db_inv (snd (transaction (exhaustion_tx cfg now k tok key) db1))"
    using inv1 by (rule transaction_preserves [where I = db_inv]) (rule exhaustion_tx_inv [OF inv1])
  then have "db_inv db2" by (simp add: 2)
  with inv1 show ?thesis
    by (cases r1; cases r2) (simp_all add: requirePublicationStepClaim_def 1 2)
qed

lemma settleExhaustedPublicationStep_inv:
  assumes inv: "db_inv db" shows "db_inv (snd (settleExhaustedPublicationStep cfg now k tok key out db))"
proof (cases "lockPublicationOwnership cfg k tok db")
  case True
  let ?q = "\<lambda>s. step_key s = key \<and> step_status s = StepUncertain \<and> MAX_PUBLICATION_STEP_ATTEMPTS \<le> step_attempt_count s"
  let ?f = "case out of Found rid url \<Rightarrow> succeeded_step now rid url | Absent \<Rightarrow> terminal_step now"
  obtain b where b: "pub_of db (connectorId cfg) k = Some b" "pub_status b \<in> pub_active"
    using owned_pub [OF invD(1) [OF inv] True] by blast
  have "db_inv (derivePublicationStatus now (connectorId cfg) k (upd_step (connectorId cfg) k ?q ?f db))"
    by (rule upd_step_derive_inv [OF inv b]) (auto simp: step_ok_rows split: settle_outcome.split)
  moreover have "db_inv (upd_step (connectorId cfg) k ?q ?f db)" if "cnt_step (connectorId cfg) k ?q db \<noteq> 1"
  proof -
    have "cnt_step (connectorId cfg) k ?q db \<le> 1" using invD(1) [OF inv] by (rule cnt_step_le1) simp
    with that have "cnt_step (connectorId cfg) k ?q db = 0" by simp
    then show ?thesis using inv by (simp add: upd_none)
  qed
  ultimately show ?thesis using True
    by (simp add: settleExhaustedPublicationStep_def transaction_def Let_def)
qed (use inv in \<open>simp add: settleExhaustedPublicationStep_def transaction_def\<close>)

lemma derived_publisher:
  assumes "keys_ok db" "pub_of db c k = Some b" "publisher tok b"
  shows "\<exists>b'. pub_of (derivePublicationStatus now c k db) c k = Some b' \<and> publisher tok b' \<and>
     pub_status b' = derived_status (steps_of db c k) (pub_status b)"
  using assms derived_status_active [of "pub_status b" "steps_of db c k"]
  by (auto simp: derive_pub_of publisher_def)

text \<open>Ending the publication of a run whose axis already reports its steps.\<close>

lemma fail_owned_inv:
  assumes inv: "db_inv db" and b: "pub_of db c k = Some b" "publisher tok b"
  shows "db_inv (queueRunNotice now c k (next_event_id db) NoticeFailure AxisPublication rc
     (logEvent now c k AxisPublication (Some (PubS (pub_status b))) (PubS PubFailed) rc
       (upd_pub c k (publisher tok) (failed_publication now err) db)))" (is "db_inv ?db'")
proof (rule inv_step [OF inv, of c k])
  show "wrote c k db ?db'" by simp
  show "ids_ok ?db'" using invD(2) [OF inv] by simp
  show "run_ok ?db' c k"
    using invD(3) [OF inv, of c k]
  proof (cases rule: run_okE)
    case (run p e b')
    with b have eq: "b' = b" by simp
    have st: "pub_status b \<noteq> PubPending" "pub_status b \<noteq> PubSkipped" "pub_status b \<in> pub_active"
      using b(2) by (auto simp: publisher_def)
    note ax = axes_publishing [OF run(9) [unfolded eq] st(1,2)]
    have "rows_ok ?db' c k"
      using run(1-11) eq b st(3) ax
      by (auto simp: rows_ok_def axes_ok_def pub_check_def pub_owned_def steps_ok_def failed_publication_def)
    moreover have "audited ?db' c k" using run(1-3,12) eq b by (simp add: audited_def audit_ok_def)
    moreover have "told ?db' c k"
      using run(1-3,13) eq b st ax(1) invD(2) [OF inv]
      by (auto simp: told_def told_ok_def run_failed_def notice_rows_queue is_failure_def)
    ultimately show ?thesis by (simp add: run_ok_def)
  qed (use b in simp)
qed

lemma failPublicationStep_inv:
  assumes inv: "db_inv db" shows "db_inv (snd (failPublicationStep cfg now k tok key err retry db))"
proof (cases "lockPublicationOwnership cfg k tok db")
  case True
  let ?c = "connectorId cfg"
  let ?q = "\<lambda>s. step_key s = key \<and> step_status s \<in> {StepRunning, StepUncertain}"
  define db1 where "db1 = upd_step ?c k ?q (failed_step now err retry) db"
  define db2 where "db2 = derivePublicationStatus now ?c k db1"
  obtain b where b: "pub_of db ?c k = Some b" "publisher tok b" "pub_status b \<in> pub_active"
    using owned_pub [OF invD(1) [OF inv] True] by blast
  have inv2: "db_inv db2"
    unfolding db2_def db1_def by (rule upd_step_derive_inv [OF inv b(1,3)]) (auto simp: step_ok_rows)
  have "keys_ok db1" using invD(1) [OF inv] by (simp add: db1_def)
  then obtain b' where b': "pub_of db2 ?c k = Some b'" "publisher tok b'"
    using derived_publisher [of db1 ?c k b tok now] b by (auto simp: db2_def db1_def)
  have inv1: "db_inv db1" if "cnt_step ?c k ?q db \<noteq> 1"
  proof -
    have "cnt_step ?c k ?q db \<le> 1" using invD(1) [OF inv] by (rule cnt_step_le1) simp
    with that have "cnt_step ?c k ?q db = 0" by simp
    then show ?thesis using inv by (simp add: db1_def upd_none)
  qed
  have pick: "pick_pub ?c k (publisher tok) db2 = Some b'"
    using b' by (simp add: pick_axis [OF invD(1) [OF inv2]])
  let ?db4 = "logEvent now ?c k AxisPublication (Some (PubS (pub_status b'))) (PubS PubFailed) (fst err)
    (upd_pub ?c k (publisher tok) (failed_publication now err) db2)"
  have "failPublicationStep cfg now k tok key err retry db =
     (if cnt_step ?c k ?q db \<noteq> 1 then (Inr False, db1)
      else if retry \<noteq> Some False then (Inr True, db2)
      else (Inr True, queueRunNotice now ?c k (next_event_id db2) NoticeFailure AxisPublication (fst err) ?db4))"
    using True pick
    by (cases "retry = Some False")
      (simp_all add: failPublicationStep_def transaction_def Let_def split_beta db2_def db1_def)
  with inv1 inv2 fail_owned_inv [OF inv2 b', of now "fst err" err] show ?thesis by simp
qed (use inv in \<open>simp add: failPublicationStep_def transaction_def\<close>)

subsection \<open>The step set\<close>

definition insert_steps :: "step_row list \<Rightarrow> db \<Rightarrow> db" where
  "insert_steps ss db = db\<lparr>publication_steps := publication_steps db @ ss\<rparr>"

lemma insert_steps_lookup [simp]:
  "prep_of (insert_steps ss db) = prep_of db" "exec_of (insert_steps ss db) = exec_of db"
  "pub_of (insert_steps ss db) = pub_of db" "cands_of (insert_steps ss db) = cands_of db"
  "notice_rows (insert_steps ss db) = notice_rows db" "axis_events (insert_steps ss db) = axis_events db"
  "ids_ok (insert_steps ss db) = ids_ok db"
  by (simp_all add: insert_steps_def fun_eq_iff prep_of_def exec_of_def pub_of_def cands_of_def notice_rows_def
      axis_events_def ids_ok_def)

lemma insert_steps_log [simp]:
  "last_state (insert_steps ss db) = last_state db" "chained (insert_steps ss db) = chained db"
  "audit_ok (insert_steps ss db) c k ps es bs = audit_ok db c k ps es bs"
  by (simp_all add: fun_eq_iff last_state_def chained_def audit_ok_def)

lemma insert_steps_steps [simp]:
  "steps_of (insert_steps ss db) c k =
     steps_of db c k @ filter (\<lambda>s. step_run_id s = k \<and> step_connector_id s = c) ss"
  by (simp add: insert_steps_def steps_of_def rows_at_def at_key_def [abs_def])

lemma new_step_simps [simp]:
  "step_run_id (new_step cfg now k key) = k" "step_connector_id (new_step cfg now k key) = connectorId cfg"
  "step_key (new_step cfg now k key) = key" "step_status (new_step cfg now k key) = StepPending"
  by (simp_all add: new_step_def)

lemma insert_steps_inv:
  assumes inv: "db_inv db" and b: "pub_of db (connectorId cfg) k = Some b" "pub_status b \<in> pub_active"
    and none: "steps_of db (connectorId cfg) k = []" and keys: "distinct keys"
  shows "db_inv (insert_steps (map (new_step cfg now k) keys) db)" (is "db_inv ?db'")
proof (rule inv_step [OF inv, of "connectorId cfg" k])
  have "s \<notin> set (publication_steps db)" if "step_run_id s = k" "step_connector_id s = connectorId cfg" for s
    using none that steps_of_mem [of s db "connectorId cfg" k] by auto
  then have "keys_ok db \<Longrightarrow> keys_ok ?db'"
    using keys by (auto simp: keys_ok_def insert_steps_def distinct_map o_def inj_on_def)
  then show "wrote (connectorId cfg) k db ?db'" by (auto simp: wrote_def same_run_def)
  show "ids_ok ?db'" using invD(2) [OF inv] by simp
  show "run_ok ?db' (connectorId cfg) k"
    using invD(3) [OF inv, of "connectorId cfg" k]
  proof (cases rule: run_okE)
    case (run p e b')
    with b none axes_publishing(1) [OF run(9)] show ?thesis
      by (auto simp: run_ok_def run_defs steps_ok_def step_ok_rows)
  qed (use b in simp)
qed

lemma initializePublicationSteps_inv:
  assumes inv: "db_inv db" shows "db_inv (snd (initializePublicationSteps cfg now k tok keys db))"
proof (cases "length (sort (remdups keys)) \<noteq> length keys \<or> \<not> lockPublicationOwnership cfg k tok db")
  case False
  then obtain b where b: "pub_of db (connectorId cfg) k = Some b" "pub_status b \<in> pub_active"
    using owned_pub [OF invD(1) [OF inv]] by blast
  have "db_inv (insert_steps (map (new_step cfg now k) (sort (remdups keys))) db)"
    if "steps_of db (connectorId cfg) k = []"
    by (rule insert_steps_inv [OF inv b that]) simp
  moreover have "sort_key step_key ss = [] \<longleftrightarrow> ss = []" for ss
    by (metis length_0_conv length_sort)
  ultimately show ?thesis
    using inv False
    by (auto simp: initializePublicationSteps_def transaction_def Let_def insert_steps_def
        lockPublicationOwnership_def)
qed (use inv in \<open>auto simp: initializePublicationSteps_def transaction_def Let_def lockPublicationOwnership_def\<close>)

end
