(* ===== verification/PublicationClaimStore.thy ===== *)
theory PublicationClaimStore
  imports PublicationStore
begin

text \<open>
  \<^verbatim>\<open>services/review-runs/src/persistence/publication-claim-store.ts\<close>: claiming publication ownership. A run is
  claimable when its execution succeeded with a non-null result, no step is parked, and it is pending
  or its previous owner's lease ran out. \<open>claimNextPublication\<close> polls every 250 ms until its bounded wait elapses;
  the states it reads are a stream, one per poll, because other processes write in between.
\<close>

definition CLAIM_WAIT_INTERVAL_MS :: nat where
  [simp]: "CLAIM_WAIT_INTERVAL_MS = 250"

text \<open>\<^verbatim>\<open>jsonb_typeof(e.workflow_result) <> 'null'\<close>: NULL for a NULL column.\<close>

definition publishable :: "db \<Rightarrow> string \<Rightarrow> string \<Rightarrow> bool" where
  "publishable db c runId =
     ((case exec_of db c runId of
         None \<Rightarrow> False
       | Some e \<Rightarrow> exec_status e = ExecSucceeded \<and> (case exec_workflow_result e of None \<Rightarrow> False | Some j \<Rightarrow> j \<noteq> JNull)) \<and>
      \<not> (\<exists>s \<in> set (steps_of db c runId). step_status s = StepDisconnected))"

definition publication_open :: "store_cfg \<Rightarrow> instant \<Rightarrow> publication_row \<Rightarrow> bool" where
  "publication_open cfg now b \<longleftrightarrow>
     pub_status b = PubPending \<or>
     pub_status b \<in> {PubPublishing, PubUncertain} \<and> lease_expired cfg now (pub_claimed_at b)"

definition claimed_publication :: "instant \<Rightarrow> uuid \<Rightarrow> publication_row \<Rightarrow> publication_row" where
  "claimed_publication now token b =
     b\<lparr>pub_status := PubPublishing, pub_claim_token := Some token, pub_claimed_at := Some now,
       pub_started_at := Some (coalesce (pub_started_at b) now), pub_failure_code := None,
       pub_failure_message := None, pub_updated_at := now\<rparr>"

definition appendClaimEvent :: "store_cfg \<Rightarrow> instant \<Rightarrow> string \<Rightarrow> pub_state \<Rightarrow> db \<Rightarrow> db" where
  "appendClaimEvent cfg now runId fromStatus db =
     logEvent now (connectorId cfg) runId AxisPublication (Some (PubS fromStatus)) (PubS PubPublishing)
       (if fromStatus = PubPublishing \<or> fromStatus = PubUncertain then Some ''PUBLICATION_LEASE_EXPIRED'' else None) db"

definition claimPublication ::
  "store_cfg \<Rightarrow> instant \<Rightarrow> uuid \<Rightarrow> string \<Rightarrow> db \<Rightarrow> (rr_error + uuid option) \<times> db" where
  "claimPublication cfg now token runId = transaction (\<lambda>db.
     let c = connectorId cfg;
         q = (\<lambda>b. publishable db c runId \<and> publication_open cfg now b);
         db1 = upd_pub c runId q (claimed_publication now token) db
     in case pick_pub c runId q db of
          None \<Rightarrow> Inr (None, db1)
        | Some b \<Rightarrow> Inr (Some token, appendClaimEvent cfg now runId (pub_status b) db1))"

record publication_work =
  pbw_record :: review_run_record
  pbw_workflow_result :: json
  pbw_claim_token :: uuid

definition publication_candidate ::
  "store_cfg \<Rightarrow> instant \<Rightarrow> (string \<Rightarrow> bool) \<Rightarrow> db \<Rightarrow> publication_row option" where
  "publication_candidate cfg now locked db =
     (case sort_key pub_updated_at
             (filter (\<lambda>b. pub_connector_id b = connectorId cfg \<and> publishable db (pub_connector_id b) (pub_run_id b) \<and>
                          publication_open cfg now b \<and> \<not> locked (pub_run_id b)) (publications db)) of
        [] \<Rightarrow> None | b # _ \<Rightarrow> Some b)"

text \<open>The closing read of a claim: the record with its result, or the incomplete-work error.\<close>

definition claimed_work :: "store_cfg \<Rightarrow> uuid \<Rightarrow> string \<Rightarrow> db \<Rightarrow> rr_error + publication_work" where
  "claimed_work cfg token runId db =
     (case findRunRow db (connectorId cfg) runId of
        None \<Rightarrow> Inl (PlainError (''Claimed publication work is incomplete: '' @ runId))
      | Some row \<Rightarrow>
         (case Option.bind (row_execution row) exec_workflow_result of
            None \<Rightarrow> Inl (PlainError (''Claimed publication work is incomplete: '' @ runId))
          | Some result \<Rightarrow>
              if result = JNull then Inl (PlainError (''Claimed publication work is incomplete: '' @ runId))
              else
               (case rowToRecord row of
                  Inl err \<Rightarrow> Inl err
                | Inr rcd \<Rightarrow> Inr \<lparr>pbw_record = rcd, pbw_workflow_result = result, pbw_claim_token = token\<rparr>)))"

definition claimNextOnce ::
  "store_cfg \<Rightarrow> instant \<Rightarrow> (string \<Rightarrow> bool) \<Rightarrow> uuid \<Rightarrow> db \<Rightarrow> (rr_error + publication_work option) \<times> db" where
  "claimNextOnce cfg now locked token = transaction (\<lambda>db.
     case publication_candidate cfg now locked db of
       None \<Rightarrow> Inr (None, db)
     | Some w \<Rightarrow>
        (let c = connectorId cfg; runId = pub_run_id w;
             q = (\<lambda>b. pub_status b = pub_status w \<and> publishable db c runId \<and>
                      (pub_status w = PubPending \<or>
                       pub_status w \<in> {PubPublishing, PubUncertain} \<and> lease_expired cfg now (pub_claimed_at b)));
             db1 = upd_pub c runId q (claimed_publication now token) db
         in if cnt_pub c runId q db \<noteq> 1
            then Inl (PlainError (''Publication work changed while being claimed: '' @ runId))
            else
             (let db2 = appendClaimEvent cfg now runId (pub_status w) db1 in
              case claimed_work cfg token runId db2 of
                Inl err \<Rightarrow> Inl err
              | Inr work \<Rightarrow> Inr (Some work, db2))))"

text \<open>\<^verbatim>\<open>Number.isFinite(waitMs) && waitMs > 0 ? Math.min(waitMs, 30_000) : 0\<close>; \<open>None\<close> is a non-finite number.\<close>

definition boundedWaitMs :: "int option \<Rightarrow> int" where
  "boundedWaitMs waitMs = (case waitMs of None \<Rightarrow> 0 | Some w \<Rightarrow> if 0 < w then min w 30000 else 0)"

text \<open>The polling loop from the \<open>n\<close>-th poll on. \<open>clock n\<close> is \<^verbatim>\<open>Date.now()\<close> at poll \<open>n\<close>, in milliseconds;
  \<open>poll n\<close> is one claim attempt. The fuel bounds the number of polls.\<close>

fun poll_publication ::
  "nat \<Rightarrow> (nat \<Rightarrow> int) \<Rightarrow> (nat \<Rightarrow> rr_error + 'w option) \<Rightarrow> int \<Rightarrow> nat \<Rightarrow> (rr_error + 'w option) option" where
  "poll_publication 0 clock poll deadline n = None"
| "poll_publication (Suc fuel) clock poll deadline n =
     (case poll n of
        Inl err \<Rightarrow> Some (Inl err)
      | Inr (Some work) \<Rightarrow> Some (Inr (Some work))
      | Inr None \<Rightarrow>
          if deadline \<le> clock n then Some (Inr None)
          else poll_publication fuel clock poll deadline (Suc n))"

definition claimNextPublication ::
  "nat \<Rightarrow> (nat \<Rightarrow> int) \<Rightarrow> (nat \<Rightarrow> rr_error + 'w option) \<Rightarrow> int \<Rightarrow> int option \<Rightarrow> (rr_error + 'w option) option" where
  "claimNextPublication fuel clock poll start waitMs =
     poll_publication fuel clock poll (start + boundedWaitMs waitMs) 0"

subsection \<open>The claims keep the invariant\<close>

lemma claimed_publication_simps [simp]:
  "pub_run_id (claimed_publication now tok b) = pub_run_id b"
  "pub_connector_id (claimed_publication now tok b) = pub_connector_id b"
  "pub_status (claimed_publication now tok b) = PubPublishing"
  "pub_claim_token (claimed_publication now tok b) = Some tok"
  by (simp_all add: claimed_publication_def)

lemma claim_row_inv:
  assumes inv: "db_inv db" and b: "pub_of db (connectorId cfg) k = Some b" "q b"
    and ok: "publishable db (connectorId cfg) k" "publication_open cfg now b"
  shows "db_inv (appendClaimEvent cfg now k (pub_status b)
     (upd_pub (connectorId cfg) k q (claimed_publication now tok) db))" (is "db_inv ?db'")
proof (rule inv_step [OF inv, of "connectorId cfg" k])
  show "wrote (connectorId cfg) k db ?db'" by (simp add: appendClaimEvent_def)
  show "ids_ok ?db'" using invD(2) [OF inv] by (simp add: appendClaimEvent_def)
  show "run_ok ?db' (connectorId cfg) k"
    using invD(3) [OF inv, of "connectorId cfg" k]
  proof (cases rule: run_okE)
    case (run p e b')
    with b have eq: "b' = b" by simp
    have es: "exec_status e = ExecSucceeded" using ok(1) run(2) by (simp add: publishable_def)
    have steps: "\<forall>s \<in> set (steps_of db (connectorId cfg) k). step_status s \<noteq> StepDisconnected"
      using ok(1) by (auto simp: publishable_def)
    have st: "pub_status b = PubPending \<or> pub_status b = PubPublishing \<or> pub_status b = PubUncertain"
      using ok(2) by (auto simp: publication_open_def)
    have "rows_ok ?db' (connectorId cfg) k"
      using run(1-11) eq b es steps st
      by (auto simp: appendClaimEvent_def rows_ok_def axes_ok_def pub_check_def pub_owned_def steps_ok_def
          claimed_publication_def)
    moreover have "audited ?db' (connectorId cfg) k"
      using run(1-3,12) eq b by (simp add: appendClaimEvent_def audited_def audit_ok_def)
    moreover have "told ?db' (connectorId cfg) k"
      using run(1-3,13) eq b es st by (auto simp: appendClaimEvent_def told_def told_ok_def run_failed_def)
    ultimately show ?thesis by (simp add: run_ok_def)
  qed (use b in simp)
qed

lemma claimPublication_inv:
  assumes inv: "db_inv db" shows "db_inv (snd (claimPublication cfg now tok k db))"
proof -
  let ?c = "connectorId cfg"
  let ?q = "\<lambda>b. publishable db ?c k \<and> publication_open cfg now b"
  note pick = pick_axis_Some(3) [OF invD(1) [OF inv]] and none = pick_axis(3) [OF invD(1) [OF inv]]
  show ?thesis
  proof (cases "pick_pub ?c k ?q db")
    case None
    then have "cnt_pub ?c k ?q db = 0"
      by (auto simp: none cnt_axis [OF invD(1) [OF inv]] split: option.splits if_splits)
    with None inv show ?thesis by (simp add: claimPublication_def transaction_def Let_def upd_none)
  next
    case (Some b)
    then have "pub_of db ?c k = Some b \<and> ?q b"
      unfolding pick .
    then have "db_inv (appendClaimEvent cfg now k (pub_status b) (upd_pub ?c k ?q (claimed_publication now tok) db))"
      by (intro claim_row_inv [where q = ?q] inv) simp_all
    with Some show ?thesis
      by (simp add: claimPublication_def transaction_def Let_def)
  qed
qed

lemma publication_candidateD:
  assumes "publication_candidate cfg now locked db = Some w"
  shows "w \<in> set (publications db)" "pub_connector_id w = connectorId cfg"
    "publishable db (connectorId cfg) (pub_run_id w)" "publication_open cfg now w" "\<not> locked (pub_run_id w)"
proof -
  obtain ws where "sort_key pub_updated_at
      (filter (\<lambda>b. pub_connector_id b = connectorId cfg \<and> publishable db (pub_connector_id b) (pub_run_id b) \<and>
         publication_open cfg now b \<and> \<not> locked (pub_run_id b)) (publications db)) = w # ws"
    using assms by (auto simp: publication_candidate_def split: list.splits)
  then have "w \<in> set (filter (\<lambda>b. pub_connector_id b = connectorId cfg \<and>
      publishable db (pub_connector_id b) (pub_run_id b) \<and> publication_open cfg now b \<and> \<not> locked (pub_run_id b))
      (publications db))"
    by (rule sort_key_hd_mem)
  then show "w \<in> set (publications db)" "pub_connector_id w = connectorId cfg"
    "publishable db (connectorId cfg) (pub_run_id w)" "publication_open cfg now w" "\<not> locked (pub_run_id w)"
    by auto
qed

lemma claimNextOnce_inv:
  assumes inv: "db_inv db" shows "db_inv (snd (claimNextOnce cfg now locked tok db))"
proof (cases "publication_candidate cfg now locked db")
  case (Some w)
  let ?c = "connectorId cfg" and ?k = "pub_run_id w"
  let ?q = "\<lambda>b. pub_status b = pub_status w \<and> publishable db ?c ?k \<and> (pub_status w = PubPending \<or>
      pub_status w \<in> {PubPublishing, PubUncertain} \<and> lease_expired cfg now (pub_claimed_at b))"
  note cand = publication_candidateD [OF Some]
  have w: "pub_of db ?c ?k = Some w" using axis_of_mem(3) [OF invD(1) [OF inv] cand(1)] cand(2) by simp
  have q: "?q w" using cand(3,4) by (auto simp: publication_open_def)
  note claim_row_inv [where q = ?q and tok = tok, OF inv w q cand(3,4)]
  then show ?thesis
    using inv Some by (simp add: claimNextOnce_def transaction_def Let_def split: sum.split)
qed (use inv in \<open>simp add: claimNextOnce_def transaction_def\<close>)

subsection \<open>The poll ends\<close>

lemma poll_returns:
  assumes "deadline \<le> clock (n + m)"
  shows "\<exists>r. poll_publication (Suc m) clock poll deadline n = Some r"
  using assms
proof (induction m arbitrary: n)
  case 0
  then show ?case by (auto split: sum.split option.split)
next
  case (Suc m)
  then have "\<exists>r. poll_publication (Suc m) clock poll deadline (Suc n) = Some r" by simp
  then show ?case by (auto split: sum.split option.split simp del: poll_publication.simps(2)
      simp: poll_publication.simps(2) [of "Suc m"])
qed

end
