(* ===== verification/SubmissionStore.thy ===== *)
theory SubmissionStore
  imports CandidateStore
begin

text \<open>
  \<^verbatim>\<open>services/review-runs/src/persistence/submission-transition-store.ts\<close>: the cross-axis transitions around
  Execution submission: saving the prepared request under its selected candidate, recording the
  acceptance, and concluding the recovery of an uncertain submission.
\<close>

definition findWorkflow :: "store_cfg \<Rightarrow> string \<Rightarrow> db \<Rightarrow> workflow_name option" where
  "findWorkflow cfg runId db =
     map_option rr_workflow (select_row rr_run_id rr_connector_id (connectorId cfg) runId (review_runs db))"

subsection \<open>Saving a prepared submission\<close>

definition selectable :: "db \<Rightarrow> json \<Rightarrow> json \<Rightarrow> candidate_row \<Rightarrow> bool" where
  "selectable db context inp x \<longleftrightarrow>
     cand_reference x = coalesce (json_field inp ''input_bundle'') JNull \<and> cand_input x = inp \<and>
     cand_publish_context x = context \<and> cand_status x \<in> {CandPresent, CandSelected} \<and>
     \<not> (\<exists>y \<in> set (input_bundle_candidates db).
          cand_run_id y = cand_run_id x \<and> cand_status y = CandSelected \<and> cand_digest y \<noteq> cand_digest x)"

definition selected_candidate :: "instant \<Rightarrow> candidate_row \<Rightarrow> candidate_row" where
  "selected_candidate now x =
     x\<lparr>cand_status := CandSelected,
       cand_updated_at := (if cand_status x = CandSelected then cand_updated_at x else now)\<rparr>"

definition savePrepared_tx ::
  "store_cfg \<Rightarrow> instant \<Rightarrow> string \<Rightarrow> uuid \<Rightarrow> json \<Rightarrow> json \<Rightarrow> unit tx" where
  "savePrepared_tx cfg now runId token context inp db =
     (case requirePreparationClaim cfg now runId token db of
       Inl err \<Rightarrow> Inl err
     | Inr _ \<Rightarrow>
        (let c = connectorId cfg;
             db1 = upd_cand c runId (selectable db context inp) (selected_candidate now) db
         in if cnt_cand c runId (selectable db context inp) db \<noteq> 1
            then Inl (PlainError ''Prepared input has no matching published candidate.'')
            else
             (let qe = (\<lambda>e. exec_status e = ExecPending \<and> (exec_input e = None \<or> exec_input e = Some inp));
                  db2 = upd_exec c runId qe (\<lambda>e. e\<lparr>exec_input := Some inp, exec_updated_at := now\<rparr>) db1;
                  qb = (\<lambda>b. pub_status b = PubPending);
                  db3 = upd_pub c runId qb (\<lambda>b. b\<lparr>pub_input := context, pub_updated_at := now\<rparr>) db2
              in if cnt_exec c runId qe db1 \<noteq> 1 \<or> cnt_pub c runId qb db2 \<noteq> 1
                 then Inl (PlainError ''Run cannot save prepared submission outside pending.'')
                 else Inr ((), upd_cand c runId unfinished (abandoned_candidate now) db3))))"

definition savePreparedSubmission ::
  "store_cfg \<Rightarrow> instant \<Rightarrow> string \<Rightarrow> uuid \<Rightarrow> json \<Rightarrow> json \<Rightarrow> db \<Rightarrow> (rr_error + unit) \<times> db" where
  "savePreparedSubmission cfg now runId token context inp =
     transaction (savePrepared_tx cfg now runId token context inp)"

subsection \<open>Acceptance\<close>

definition queued_execution :: "instant \<Rightarrow> execution_row \<Rightarrow> execution_row" where
  "queued_execution now e =
     e\<lparr>exec_status := ExecQueued, exec_started_at := Some (coalesce (exec_started_at e) now),
       exec_failure_code := None, exec_failure_message := None, exec_observed_at := now,
       exec_updated_at := now\<rparr>"

definition holds_preparation :: "uuid \<Rightarrow> preparation_row \<Rightarrow> bool" where
  "holds_preparation token p \<longleftrightarrow> prep_status p = PrepPreparing \<and> prep_claim_token p = Some token"

definition markQueued ::
  "store_cfg \<Rightarrow> instant \<Rightarrow> string \<Rightarrow> uuid \<Rightarrow> json \<Rightarrow> db \<Rightarrow> (rr_error + unit) \<times> db" where
  "markQueued cfg now runId token context = transaction (\<lambda>db.
     case findWorkflow cfg runId db of
       None \<Rightarrow> Inl (StatusError 404 (''Review run does not exist: '' @ runId))
     | Some workflow \<Rightarrow>
        (let c = connectorId cfg;
             owned = (case select_row rr_run_id rr_connector_id c runId (review_runs db) of
                        None \<Rightarrow> False | Some r \<Rightarrow> rr_workflow r = workflow);
             qb = (\<lambda>b. pub_status b = PubPending \<and> owned);
             db1 = upd_pub c runId qb (\<lambda>b. b\<lparr>pub_input := context, pub_updated_at := now\<rparr>) db;
             held = (case prep_of db1 c runId of None \<Rightarrow> False | Some p \<Rightarrow> holds_preparation token p);
             qe = (\<lambda>e. exec_status e = ExecPending \<and> held);
             db2 = upd_exec c runId qe (queued_execution now) db1
         in if cnt_pub c runId qb db \<noteq> 1 \<or> cnt_exec c runId qe db1 \<noteq> 1
            then Inl (PlainError (''Review run '' @ runId @ '' cannot transition from pending to queued.''))
            else
             (let db3 = upd_prep c runId (holds_preparation token)
                          (\<lambda>p. p\<lparr>prep_status := PrepSubmitted, prep_claim_token := None,
                                 prep_claimed_at := None, prep_finished_at := Some now,
                                 prep_updated_at := now\<rparr>) db2
              in if cnt_prep c runId (holds_preparation token) db2 \<noteq> 1
                 then Inl (PlainError (''Preparation '' @ runId @
                        '' lost its claim before the queued transition completed.''))
                 else Inr ((),
                   logEvent now c runId AxisPreparation (Some (PrepS PrepPreparing)) (PrepS PrepSubmitted) None
                     (logEvent now c runId AxisExecution (Some (ExecS ExecPending)) (ExecS ExecQueued) None db3)))))"

subsection \<open>Recovery of an uncertain submission\<close>

definition completeSubmissionRecovery ::
  "store_cfg \<Rightarrow> instant \<Rightarrow> string \<Rightarrow> uuid \<Rightarrow> db \<Rightarrow> (rr_error + bool) \<times> db" where
  "completeSubmissionRecovery cfg now runId token = transaction (\<lambda>db.
     let c = connectorId cfg;
         waiting = (case pub_of db c runId of None \<Rightarrow> False | Some b \<Rightarrow> pub_status b = PubPending);
         q = (\<lambda>e. owns_recovery token e \<and> waiting);
         db1 = upd_exec c runId q
                 (\<lambda>e. (queued_execution now e)\<lparr>exec_claim_token := None, exec_claimed_at := None\<rparr>) db
     in if cnt_exec c runId q db \<noteq> 1 then Inr (False, db1)
        else Inr (True, logEvent now c runId AxisExecution (Some (ExecS ExecUncertain)) (ExecS ExecQueued) None db1))"

definition failSubmissionRecovery ::
  "store_cfg \<Rightarrow> instant \<Rightarrow> string \<Rightarrow> uuid \<Rightarrow> string option \<times> string \<Rightarrow> db \<Rightarrow> (rr_error + bool) \<times> db" where
  "failSubmissionRecovery cfg now runId token error = transaction (\<lambda>db.
     let c = connectorId cfg;
         db1 = upd_exec c runId (owns_recovery token)
                 (\<lambda>e. e\<lparr>exec_status := ExecFailed, exec_claim_token := None, exec_claimed_at := None,
                        exec_failure_code := fst error, exec_failure_message := Some (snd error),
                        exec_finished_at := Some now, exec_observed_at := now, exec_updated_at := now\<rparr>) db
     in if cnt_exec c runId (owns_recovery token) db \<noteq> 1 then Inr (False, db1)
        else
         (let (publicationFrom, db2) = abandonInFlightPublication now c runId db1;
              (executionEventId, db3) = appendEvent now c runId AxisExecution (Some (ExecS ExecUncertain))
                                          (ExecS ExecFailed) (fst error) db2;
              db4 = queueRunNotice now c runId executionEventId NoticeFailure AxisExecution (fst error) db3
          in Inr (True, logAbandoned now c runId publicationFrom db4)))"

subsection \<open>Row facts\<close>

lemma queued_execution_simps [simp]:
  "exec_run_id (queued_execution now e) = exec_run_id e"
  "exec_connector_id (queued_execution now e) = exec_connector_id e"
  "exec_status (queued_execution now e) = ExecQueued" "exec_input (queued_execution now e) = exec_input e"
  "exec_claim_token (queued_execution now e) = exec_claim_token e"
  "exec_claimed_at (queued_execution now e) = exec_claimed_at e"
  "exec_finished_at (queued_execution now e) = exec_finished_at e"
  "exec_started_at (queued_execution now e) = Some (coalesce (exec_started_at e) now)"
  by (simp_all add: queued_execution_def)

lemma selected_candidate_simps [simp]:
  "cand_run_id (selected_candidate now x) = cand_run_id x"
  "cand_connector_id (selected_candidate now x) = cand_connector_id x"
  "cand_digest (selected_candidate now x) = cand_digest x" "cand_input (selected_candidate now x) = cand_input x"
  "cand_status (selected_candidate now x) = CandSelected"
  "cand_check (selected_candidate now x) = cand_check x"
  by (simp_all add: selected_candidate_def cand_check_def)

lemma cands_of_mem: "x \<in> set (cands_of db c k) \<longleftrightarrow>
     x \<in> set (input_bundle_candidates db) \<and> cand_run_id x = k \<and> cand_connector_id x = c"
  by (auto simp: cands_of_def rows_at_def at_key_def)

lemma cands_distinct:
  assumes "keys_ok db" shows "distinct (map cand_digest (cands_of db c k))"
proof -
  let ?xs = "filter (at_key cand_run_id cand_connector_id c k) (input_bundle_candidates db)"
  have "distinct (map (\<lambda>x. (cand_run_id x, cand_digest x)) ?xs)"
    using assms by (auto simp: keys_ok_def intro: distinct_map_filter)
  moreover have "map (\<lambda>x. (cand_run_id x, cand_digest x)) ?xs = map (Pair k \<circ> cand_digest) ?xs"
    by (auto simp: at_key_def)
  ultimately have "distinct (map (Pair k) (map cand_digest ?xs))" by simp
  then have "distinct (map cand_digest ?xs)" unfolding distinct_map [of "Pair k"] by blast
  then show ?thesis unfolding cands_of_def rows_at_def .
qed

lemma cnt_cand_cands: "cnt_cand c k q db = length (filter q (cands_of db c k))"
  by (simp add: cnt_cand_def row_count_def cands_of_def rows_at_def conj_commute)

text \<open>Selecting the one matching candidate and abandoning the unfinished rest.\<close>

lemma cands_select:
  assumes ok: "cands_ok inp0 xs" and dist: "distinct (map cand_digest xs)"
    and one: "length (filter P xs) = 1"
    and P: "\<And>x. x \<in> set xs \<Longrightarrow> P x \<Longrightarrow> cand_input x = inp \<and>
       (\<forall>y \<in> set xs. cand_status y = CandSelected \<longrightarrow> cand_digest y = cand_digest x)"
  shows "cands_ok (Some inp)
     (map (\<lambda>x. if unfinished x then abandoned_candidate now x else x)
       (map (\<lambda>x. if P x then selected_candidate now x else x) xs))"
proof (rule cands_ok_abandon)
  let ?f = "\<lambda>x. if P x then selected_candidate now x else x"
  obtain z where z: "filter P xs = [z]" using one by (auto simp: length_Suc_conv)
  then have "set (filter P xs) = {z}" by simp
  then have zm: "z \<in> set xs" "P z" by auto
  have only: "y = z" if "y \<in> set xs" "cand_status (?f y) = CandSelected" for y
  proof (cases "P y")
    case True
    with that(1) have "y \<in> set (filter P xs)" by simp
    then show ?thesis by (simp add: z)
  next
    case False
    with that P [OF zm] have "cand_digest y = cand_digest z" by auto
    with that(1) zm(1) dist show ?thesis by (metis distinct_map inj_onD)
  qed
  have "distinct (map cand_digest (map ?f xs))"
  proof -
    have "map cand_digest (map ?f xs) = map cand_digest xs" by simp
    then show ?thesis using dist by (simp only:)
  qed
  define L where "L = filter (\<lambda>x. cand_status x = CandSelected) (map ?f xs)"
  from \<open>distinct (map cand_digest (map ?f xs))\<close> have "distinct L"
    unfolding distinct_map [of cand_digest] L_def by (intro distinct_filter) blast
  then have "length L = card (set L)" by (simp add: distinct_card)
  also have "set L \<subseteq> {?f z}" using only unfolding L_def by auto
  then have "card (set L) \<le> card {?f z}" by (rule card_mono [OF finite.insertI [OF finite.emptyI]])
  finally have "length (filter (\<lambda>x. cand_status x = CandSelected) (map ?f xs)) \<le> 1" by (simp add: L_def)
  moreover have "Some inp = Some (cand_input (?f y))" if "y \<in> set xs" "cand_status (?f y) = CandSelected" for y
    using only [OF that] P [OF zm] zm(2) by auto
  moreover have "cand_check (?f y)" if "y \<in> set xs" for y
    using ok that by (simp add: cands_ok_def)
  ultimately show "cands_ok (Some inp) (map ?f xs)"
    unfolding cands_ok_def set_map ball_simps by blast
qed

subsection \<open>The operations keep the invariant\<close>

lemma savePrepared_tx_inv:
  assumes inv: "db_inv db" and tx: "savePrepared_tx cfg now k tok context inp db = Inr (a, db')"
  shows "db_inv db'"
proof -
  let ?c = "connectorId cfg"
  let ?qe = "\<lambda>e. exec_status e = ExecPending \<and> (exec_input e = None \<or> exec_input e = Some inp)"
  define db1 where "db1 = upd_cand ?c k (selectable db context inp) (selected_candidate now) db"
  define db4 where "db4 = upd_cand ?c k unfinished (abandoned_candidate now)
    (upd_pub ?c k (\<lambda>b. pub_status b = PubPending) (\<lambda>b. b\<lparr>pub_input := context, pub_updated_at := now\<rparr>)
      (upd_exec ?c k ?qe (\<lambda>e. e\<lparr>exec_input := Some inp, exec_updated_at := now\<rparr>) db1))"
  have facts: "db' = db4 \<and> cnt_cand ?c k (selectable db context inp) db = 1 \<and> cnt_exec ?c k ?qe db1 = 1"
    using tx unfolding savePrepared_tx_def Let_def db4_def db1_def
    by (simp split: sum.splits if_splits)
  have ex: "cnt_exec ?c k ?qe db = 1" using facts by (simp add: db1_def)
  note dbs = db4_def db1_def
  have "db_inv db4"
  proof (rule inv_step [OF inv, of ?c k])
    show "wrote ?c k db db4" by (simp add: dbs)
    show "ids_ok db4" using invD(2) [OF inv] by (simp add: dbs)
    show "run_ok db4 ?c k"
      using invD(3) [OF inv, of ?c k]
    proof (cases rule: run_okE)
      case (run p e b)
      have e: "?qe e"
        using ex run(2) by (simp add: cnt_axis [OF invD(1) [OF inv]] split: if_splits)
      have "cands_ok (Some inp) (map (\<lambda>x. if unfinished x then abandoned_candidate now x else x)
          (map (\<lambda>x. if selectable db context inp x then selected_candidate now x else x) (cands_of db ?c k)))"
        using run(11) cands_distinct [OF invD(1) [OF inv]]
        by (rule cands_select)
          (use facts in \<open>simp add: cnt_cand_cands\<close>, auto simp: selectable_def cands_of_mem)
      moreover have "pub_status b = PubPending" using run(9) e by (simp add: axes_ok_def)
      ultimately show ?thesis
        using run e by (simp add: dbs run_ok_def run_defs del: map_map)
    qed (use ex in \<open>simp add: cnt_axis [OF invD(1) [OF inv]]\<close>)
  qed
  with facts show ?thesis by simp
qed

lemma savePreparedSubmission_inv:
  "db_inv db \<Longrightarrow> db_inv (snd (savePreparedSubmission cfg now k tok context inp db))"
  unfolding savePreparedSubmission_def
  by (rule transaction_preserves [where I = db_inv]) (auto intro: savePrepared_tx_inv)

lemma markQueued_inv:
  assumes "db_inv db" shows "db_inv (snd (markQueued cfg now k tok context db))"
proof (rule inv_step [OF assms])
  note op = markQueued_def transaction_def Let_def cnt_axis [OF invD(1) [OF assms]]
  show "wrote (connectorId cfg) k db (snd (markQueued cfg now k tok context db))"
    by (simp add: op split: option.split)
  show "ids_ok (snd (markQueued cfg now k tok context db))"
    using invD(2) [OF assms] by (simp add: op split: option.split)
  show "run_ok (snd (markQueued cfg now k tok context db)) (connectorId cfg) k"
    using invD(3) [OF assms, of "connectorId cfg" k]
  proof (cases rule: run_okE)
    case (run p e b)
    show ?thesis
    proof (cases "findWorkflow cfg k db \<noteq> None \<and> pub_status b = PubPending \<and> exec_status e = ExecPending \<and>
        holds_preparation tok p")
      case True
      then have f: "findWorkflow cfg k db \<noteq> None" "pub_status b = PubPending" "exec_status e = ExecPending"
        "holds_preparation tok p" by simp_all
      then obtain r where r: "select_row rr_run_id rr_connector_id (connectorId cfg) k (review_runs db) = Some r"
        by (auto simp: findWorkflow_def)
      have st: "prep_status p = PrepPreparing" using f(4) by (simp add: holds_preparation_def)
      have "rows_ok (snd (markQueued cfg now k tok context db)) (connectorId cfg) k"
        using f st r run(1-11)
        by (simp add: op findWorkflow_def rows_ok_def prep_check_def prep_budget_def exec_check_def axes_ok_def steps_ok_def)
      moreover have "audited (snd (markQueued cfg now k tok context db)) (connectorId cfg) k"
        using f st r run(1-3,12) by (simp add: op findWorkflow_def audited_def audit_ok_def)
      moreover have "told (snd (markQueued cfg now k tok context db)) (connectorId cfg) k"
        using f st r run(1-3,13) by (simp add: op findWorkflow_def told_def told_ok_def run_failed_def)
      ultimately show ?thesis by (simp add: run_ok_def)
    next
      case False
      with run(1-3) have "\<exists>err. fst (markQueued cfg now k tok context db) = Inl err"
        by (auto simp: op split: option.split)
      then obtain err where "fst (markQueued cfg now k tok context db) = Inl err" ..
      then have "snd (markQueued cfg now k tok context db) = db"
        unfolding markQueued_def by (rule transaction_thrown)
      then show ?thesis using invD(3) [OF assms] by simp
    qed
  next
    case absent
    then have "snd (markQueued cfg now k tok context db) = db"
      by (simp add: op split: option.split)
    then show ?thesis using invD(3) [OF assms] by simp
  qed
qed

lemma completeSubmissionRecovery_inv:
  assumes "db_inv db" shows "db_inv (snd (completeSubmissionRecovery cfg now k tok db))"
proof (rule inv_step [OF assms])
  note op = completeSubmissionRecovery_def transaction_def Let_def cnt_axis [OF invD(1) [OF assms]] pick_axis [OF invD(1) [OF assms]]
  show "wrote (connectorId cfg) k db (snd (completeSubmissionRecovery cfg now k tok db))"
    by (simp add: op)
  show "ids_ok (snd (completeSubmissionRecovery cfg now k tok db))"
    using invD(2) [OF assms] by (simp add: op)
  show "run_ok (snd (completeSubmissionRecovery cfg now k tok db)) (connectorId cfg) k"
    using invD(3) [OF assms, of "connectorId cfg" k]
  proof (cases rule: run_okE)
    case (run p e b)
    show ?thesis
    proof (cases "owns_recovery tok e \<and> pub_status b = PubPending")
      case True
      have "rows_ok (snd (completeSubmissionRecovery cfg now k tok db)) (connectorId cfg) k"
        using True run(1-11) by (simp add: op rows_ok_def axes_ok_def exec_check_def steps_ok_def owns_recovery_def)
      moreover have "audited (snd (completeSubmissionRecovery cfg now k tok db)) (connectorId cfg) k"
        using True run(1-3,12) by (simp add: op audited_def audit_ok_def owns_recovery_def)
      moreover have "told (snd (completeSubmissionRecovery cfg now k tok db)) (connectorId cfg) k"
        using True run(1-3,9,13) by (simp add: op told_def told_ok_def run_failed_def owns_recovery_def)
      ultimately show ?thesis by (simp add: run_ok_def)
    qed (use run in \<open>auto simp: op run_ok_def run_defs\<close>)
  qed (simp add: op run_ok_def run_defs)
qed

lemma failSubmissionRecovery_inv:
  assumes "db_inv db" shows "db_inv (snd (failSubmissionRecovery cfg now k tok err db))"
proof (rule inv_step [OF assms])
  note op = failSubmissionRecovery_def transaction_def Let_def split_beta abandon_fst in_flight_def cnt_axis [OF invD(1) [OF assms]] pick_axis [OF invD(1) [OF assms]]
  show "wrote (connectorId cfg) k db (snd (failSubmissionRecovery cfg now k tok err db))"
    by (simp add: op)
  show "ids_ok (snd (failSubmissionRecovery cfg now k tok err db))"
    using invD(2) [OF assms] by (simp add: op)
  show "run_ok (snd (failSubmissionRecovery cfg now k tok err db)) (connectorId cfg) k"
    using invD(3) [OF assms, of "connectorId cfg" k]
  proof (cases rule: run_okE)
    case (run p e b)
    show ?thesis
    proof (cases "owns_recovery tok e")
      case True
      then have "exec_status e \<in> {ExecQueued, ExecRunning, ExecUncertain, ExecDisconnected}"
        by (simp add: owns_recovery_def)
      note ax = axes_live(1) [OF run(9) this]
      have "rows_ok (snd (failSubmissionRecovery cfg now k tok err db)) (connectorId cfg) k"
        using True run(1-11) ax steps_none [OF run(10)]
        by (simp add: op rows_ok_def axes_ok_def exec_check_def steps_ok_def pub_check_def pub_owned_def owns_recovery_def)
      moreover have "audited (snd (failSubmissionRecovery cfg now k tok err db)) (connectorId cfg) k"
        using True run(1-3,12) ax
        by (simp add: op audited_def audit_ok_def logAbandoned_def owns_recovery_def)
      moreover have "told (snd (failSubmissionRecovery cfg now k tok err db)) (connectorId cfg) k"
        using True run(1-3,9,13) ax invD(2) [OF assms]
        by (simp add: op told_def told_ok_def run_failed_def notice_rows_queue is_failure_def owns_recovery_def)
      ultimately show ?thesis by (simp add: run_ok_def)
    qed (use run in \<open>simp add: op run_ok_def run_defs\<close>)
  qed (simp add: op run_ok_def run_defs)
qed

end
