(* ===== verification/AdmissionStore.thy ===== *)
theory AdmissionStore
  imports RunInvariant
begin

text \<open>
  \<^verbatim>\<open>services/review-runs/src/persistence/review-run-admission-store.ts\<close>: admission of a run aggregate and
  ingress-key idempotency. Under READ COMMITTED the first SELECT of \<open>admit\<close> may read a snapshot
  \<open>seen\<close> that a concurrent admission has overtaken by the time the INSERT acts on \<open>db\<close>; the unique
  index then rejects the INSERT and the winner is read back. The keys of the axis rows reference the
  trunk, so only the trunk's INSERT can violate a key.
\<close>

record create_args =
  ca_run_id :: string
  ca_workflow :: workflow_name
  ca_publish_context :: json
  ca_execution_input :: "json option"
  ca_ingress_kind :: "string option"
  ca_ingress_key :: "string option"
  ca_preparation_input :: "json option"
  ca_preparation_input_version :: "string option"

record admission_result =
  adm_record :: review_run_record
  adm_created :: bool
  adm_preparation_token :: "uuid option"

definition INGRESS_IDENTITY_CONSTRAINT :: string where
  "INGRESS_IDENTITY_CONSTRAINT = ''review_runs_connector_id_ingress_kind_ingress_key_key''"

definition isIngressIdentityConflict :: "rr_error \<Rightarrow> bool" where
  "isIngressIdentityConflict err \<longleftrightarrow> err = UniqueViolation INGRESS_IDENTITY_CONSTRAINT"

text \<open>A NULL ingress column makes a row distinct from every other in the unique index.\<close>

definition ingress_clash :: "review_run_row \<Rightarrow> review_run_row \<Rightarrow> bool" where
  "ingress_clash r new \<longleftrightarrow>
     rr_connector_id r = rr_connector_id new \<and> rr_ingress_kind r \<noteq> None \<and> rr_ingress_key r \<noteq> None \<and>
     rr_ingress_kind r = rr_ingress_kind new \<and> rr_ingress_key r = rr_ingress_key new"

definition trunk_row :: "store_cfg \<Rightarrow> string \<Rightarrow> instant \<Rightarrow> create_args \<Rightarrow> review_run_row" where
  "trunk_row cfg platform now run =
     \<lparr>rr_run_id = ca_run_id run, rr_connector_id = connectorId cfg, rr_workflow = ca_workflow run,
      rr_source_platform = platform, rr_ingress_kind = ca_ingress_kind run,
      rr_ingress_key = ca_ingress_key run, rr_created_at = now, rr_updated_at = now\<rparr>"

definition admitted_execution :: "store_cfg \<Rightarrow> instant \<Rightarrow> create_args \<Rightarrow> execution_row" where
  "admitted_execution cfg now run =
     \<lparr>exec_run_id = ca_run_id run, exec_connector_id = connectorId cfg, exec_status = ExecPending,
      exec_input = ca_execution_input run, exec_started_at = None, exec_finished_at = None,
      exec_failure_code = None, exec_failure_message = None, exec_artifact_storage = None,
      exec_workflow_result = None, exec_claim_token = None, exec_claimed_at = None,
      exec_attempt_count = 0, exec_observed_at = now, exec_updated_at = now\<rparr>"

definition admitted_preparation :: "store_cfg \<Rightarrow> instant \<Rightarrow> uuid \<Rightarrow> create_args \<Rightarrow> preparation_row" where
  "admitted_preparation cfg now token run =
     \<lparr>prep_run_id = ca_run_id run, prep_connector_id = connectorId cfg,
      prep_input_version = coalesce (ca_preparation_input_version run) ''direct-v1'',
      prep_input = coalesce (ca_preparation_input run) (JObj []), prep_status = PrepPreparing,
      prep_available_at = now, prep_claim_token = Some token, prep_claimed_at = Some now,
      prep_attempt_count = 1, prep_failure_code = None, prep_failure_message = None,
      prep_last_failure_code = None, prep_last_failure_message = None, prep_started_at = Some now,
      prep_finished_at = None, prep_disconnect_reason = None, prep_updated_at = now\<rparr>"

definition admitted_publication :: "store_cfg \<Rightarrow> instant \<Rightarrow> create_args \<Rightarrow> publication_row" where
  "admitted_publication cfg now run =
     \<lparr>pub_run_id = ca_run_id run, pub_connector_id = connectorId cfg, pub_input = ca_publish_context run,
      pub_status = PubPending, pub_claim_token = None, pub_claimed_at = None, pub_failure_code = None,
      pub_failure_message = None, pub_started_at = None, pub_finished_at = None, pub_updated_at = now\<rparr>"

definition insert_axes :: "review_run_row \<Rightarrow> preparation_row \<Rightarrow> execution_row \<Rightarrow> publication_row \<Rightarrow> db \<Rightarrow> db" where
  "insert_axes r p e b db =
     db\<lparr>review_runs := review_runs db @ [r], executions := executions db @ [e],
        preparations := preparations db @ [p], publications := publications db @ [b]\<rparr>"

definition insertWith ::
  "store_cfg \<Rightarrow> string \<Rightarrow> instant \<Rightarrow> uuid \<Rightarrow> create_args \<Rightarrow> admission_result tx" where
  "insertWith cfg platform now token run db =
     (let c = connectorId cfg; runId = ca_run_id run; new = trunk_row cfg platform now run in
      if platform \<noteq> ''github'' then Inl (CheckViolation ''review_runs_source_platform_check'')
      else if \<exists>r \<in> set (review_runs db). rr_run_id r = runId then Inl (UniqueViolation ''review_runs_pkey'')
      else if \<exists>r \<in> set (review_runs db). ingress_clash r new
           then Inl (UniqueViolation INGRESS_IDENTITY_CONSTRAINT)
      else
       (let db1 = insert_axes new (admitted_preparation cfg now token run) (admitted_execution cfg now run)
                    (admitted_publication cfg now run) db;
            db2 = logEvent now c runId AxisExecution None (ExecS ExecPending) None db1;
            db3 = logEvent now c runId AxisPreparation None (PrepS PrepPreparing) None db2;
            db4 = logEvent now c runId AxisPublication None (PubS PubPending) None db3
        in case findRunRecord db4 c runId of
             Inl err \<Rightarrow> Inl err
           | Inr None \<Rightarrow> Inl (PlainError (''Execution run was not persisted: '' @ runId))
           | Inr (Some record) \<Rightarrow>
               Inr (\<lparr>adm_record = record, adm_created = True, adm_preparation_token = Some token\<rparr>, db4)))"

definition create ::
  "store_cfg \<Rightarrow> string \<Rightarrow> instant \<Rightarrow> uuid \<Rightarrow> create_args \<Rightarrow> db \<Rightarrow> (rr_error + admission_result) \<times> db" where
  "create cfg platform now token run = transaction (insertWith cfg platform now token run)"

text \<open>The SELECT by ingress identity, and the result for a run that is already there.\<close>

definition findByIngress :: "store_cfg \<Rightarrow> string \<Rightarrow> string \<Rightarrow> db \<Rightarrow> run_row option" where
  "findByIngress cfg kind key db =
     find (\<lambda>row. rr_connector_id (row_trunk row) = connectorId cfg \<and>
             rr_ingress_kind (row_trunk row) = Some kind \<and> rr_ingress_key (row_trunk row) = Some key)
       (run_select db)"

definition replayed :: "run_row \<Rightarrow> rr_error + admission_result" where
  "replayed row =
     (case rowToRecord row of
        Inl err \<Rightarrow> Inl err
      | Inr record \<Rightarrow> Inr \<lparr>adm_record = record, adm_created = False, adm_preparation_token = None\<rparr>)"

text \<open>\<^verbatim>\<open>ingress_kind\<close> and \<^verbatim>\<open>ingress_key\<close> are required of an idempotent admission.\<close>

definition admit ::
  "store_cfg \<Rightarrow> string \<Rightarrow> instant \<Rightarrow> uuid \<Rightarrow> create_args \<Rightarrow> string \<Rightarrow> string \<Rightarrow> db \<Rightarrow> db \<Rightarrow> (rr_error + admission_result) \<times> db"
where
  "admit cfg platform now token run0 kind key seen db =
     (let run = run0\<lparr>ca_ingress_kind := Some kind, ca_ingress_key := Some key\<rparr>;
          (result, db') = transaction (\<lambda>db.
            case findByIngress cfg kind key seen of
              None \<Rightarrow> insertWith cfg platform now token run db
            | Some row \<Rightarrow> (case replayed row of Inl err \<Rightarrow> Inl err | Inr a \<Rightarrow> Inr (a, db))) db
      in case result of
           Inr a \<Rightarrow> (Inr a, db')
         | Inl err \<Rightarrow>
             if \<not> isIngressIdentityConflict err then (Inl err, db')
             else
              (case findByIngress cfg kind key db' of
                 None \<Rightarrow> (Inl (PlainError (''ingress replay for '' @ kind @ '':'' @ key @
                           '' lost a concurrent admission that rolled back; the request can be retried'')), db')
               | Some row \<Rightarrow> (replayed row, db')))"

subsection \<open>Look-ups after an insertion\<close>

lemma insert_axes_lookup [simp]:
  "prep_of (insert_axes r p e b db) c k =
     (case prep_of db c k of None \<Rightarrow> if prep_run_id p = k \<and> prep_connector_id p = c then Some p else None | Some x \<Rightarrow> Some x)"
  "exec_of (insert_axes r p e b db) c k =
     (case exec_of db c k of None \<Rightarrow> if exec_run_id e = k \<and> exec_connector_id e = c then Some e else None | Some x \<Rightarrow> Some x)"
  "pub_of (insert_axes r p e b db) c k =
     (case pub_of db c k of None \<Rightarrow> if pub_run_id b = k \<and> pub_connector_id b = c then Some b else None | Some x \<Rightarrow> Some x)"
  "steps_of (insert_axes r p e b db) = steps_of db" "cands_of (insert_axes r p e b db) = cands_of db"
  "notice_rows (insert_axes r p e b db) = notice_rows db" "axis_events (insert_axes r p e b db) = axis_events db"
  "ids_ok (insert_axes r p e b db) = ids_ok db" "review_runs (insert_axes r p e b db) = review_runs db @ [r]"
  by (simp_all add: insert_axes_def fun_eq_iff prep_of_def exec_of_def pub_of_def steps_of_def cands_of_def
      notice_rows_def axis_events_def ids_ok_def select_row_append select_row_single split: option.split)

lemma insert_axes_log [simp]:
  "last_state (insert_axes r p e b db) = last_state db" "chained (insert_axes r p e b db) = chained db"
  by (simp_all add: fun_eq_iff last_state_def chained_def)

lemma trunk_lookup:
  assumes "keys_ok db" "\<forall>r \<in> set (review_runs db). rr_run_id r \<noteq> k"
  shows "prep_of db c k = None" "exec_of db c k = None" "pub_of db c k = None"
proof -
  have "k \<notin> set (map rr_run_id (review_runs db))" using assms(2) by auto
  with assms(1) have "k \<notin> prep_run_id ` set (preparations db)" "k \<notin> exec_run_id ` set (executions db)"
    "k \<notin> pub_run_id ` set (publications db)"
    unfolding keys_ok_def by (metis list.set_map)+
  then show "prep_of db c k = None" "exec_of db c k = None" "pub_of db c k = None"
    by (auto simp: prep_of_def exec_of_def pub_of_def select_row_None)
qed

subsection \<open>The run that admission creates\<close>

definition admitted_db :: "store_cfg \<Rightarrow> string \<Rightarrow> instant \<Rightarrow> uuid \<Rightarrow> create_args \<Rightarrow> db \<Rightarrow> db" where
  "admitted_db cfg platform now token run db =
     logEvent now (connectorId cfg) (ca_run_id run) AxisPublication None (PubS PubPending) None
      (logEvent now (connectorId cfg) (ca_run_id run) AxisPreparation None (PrepS PrepPreparing) None
        (logEvent now (connectorId cfg) (ca_run_id run) AxisExecution None (ExecS ExecPending) None
          (insert_axes (trunk_row cfg platform now run) (admitted_preparation cfg now token run)
            (admitted_execution cfg now run) (admitted_publication cfg now run) db)))"

definition fresh_run :: "store_cfg \<Rightarrow> string \<Rightarrow> instant \<Rightarrow> create_args \<Rightarrow> db \<Rightarrow> bool" where
  "fresh_run cfg platform now run db \<longleftrightarrow>
     platform = ''github'' \<and> (\<forall>r \<in> set (review_runs db). rr_run_id r \<noteq> ca_run_id run) \<and>
     (\<forall>r \<in> set (review_runs db). \<not> ingress_clash r (trunk_row cfg platform now run))"

lemma admitted_keys:
  assumes "keys_ok db" "fresh_run cfg platform now run db"
  shows "keys_ok (admitted_db cfg platform now token run db)"
proof -
  let ?new = "trunk_row cfg platform now run"
  let ?id = "\<lambda>r. (rr_connector_id r, rr_ingress_kind r, rr_ingress_key r)"
  let ?named = "\<lambda>r. rr_ingress_kind r \<noteq> None \<and> rr_ingress_key r \<noteq> None"
  have "?id ?new \<notin> ?id ` set (filter ?named (review_runs db))" if "?named ?new"
    using assms(2) that by (fastforce simp: fresh_run_def ingress_clash_def)
  with assms show ?thesis
    by (auto simp: keys_ok_def admitted_db_def insert_axes_def fresh_run_def trunk_row_def admitted_preparation_def
        admitted_execution_def admitted_publication_def)
qed

lemma admitted_inv:
  assumes "db_inv db" "fresh_run cfg platform now run db"
  shows "db_inv (admitted_db cfg platform now token run db)"
proof (rule inv_step [OF assms(1)])
  let ?db' = "admitted_db cfg platform now token run db"
  let ?c = "connectorId cfg" and ?k = "ca_run_id run"
  note none = trunk_lookup [OF invD(1) [OF assms(1)], of ?k]
  have fresh: "\<forall>r \<in> set (review_runs db). rr_run_id r \<noteq> ?k"
    using assms(2) by (simp add: fresh_run_def)
  show "wrote ?c ?k db ?db'"
    using admitted_keys [OF _ assms(2)]
    by (auto simp: wrote_def same_run_def admitted_db_def admitted_preparation_def admitted_execution_def
        admitted_publication_def split: option.split)
  show "ids_ok ?db'" using invD(2) [OF assms(1)] by (simp add: admitted_db_def)
  show "run_ok ?db' ?c ?k"
    using invD(3) [OF assms(1), of ?c ?k]
  proof (cases rule: run_okE)
    case absent
    then show ?thesis
      by (simp add: run_ok_def run_defs admitted_db_def admitted_preparation_def admitted_execution_def
          admitted_publication_def prep_check_def prep_budget_def exec_check_def pub_check_def pub_owned_def
          axes_ok_def steps_ok_def cands_ok_def audit_ok_def told_ok_def run_failed_def last_state_def chained_def)
  next
    case (run p e b)
    with none [OF fresh] show ?thesis by simp
  qed
qed

lemma findRunRecord_admitted:
  assumes "keys_ok db" "fresh_run cfg platform now run db"
  shows "\<exists>r. findRunRecord (admitted_db cfg platform now token run db) (connectorId cfg) (ca_run_id run) = Inr (Some r)
     \<and> rec_run_id r = ca_run_id run"
proof -
  have fresh: "\<forall>r \<in> set (review_runs db). rr_run_id r \<noteq> ca_run_id run"
    using assms(2) by (simp add: fresh_run_def)
  note none = trunk_lookup [OF assms(1) fresh]
  have "select_row rr_run_id rr_connector_id (connectorId cfg) (ca_run_id run) (review_runs db) = None"
    using fresh by (simp add: select_row_None)
  then show ?thesis
    by (simp add: findRunRecord_def findRunRow_select admitted_db_def none select_row_append select_row_single
        trunk_row_def admitted_publication_def admitted_execution_def admitted_preparation_def
        run_select_of_def rowToRecord_def normalizeArtifactStorage_def Let_def)
qed

lemma insertWith_fresh:
  assumes "keys_ok db" "fresh_run cfg platform now run db"
  shows "\<exists>r. rec_run_id r = ca_run_id run \<and> insertWith cfg platform now token run db =
     Inr (\<lparr>adm_record = r, adm_created = True, adm_preparation_token = Some token\<rparr>,
          admitted_db cfg platform now token run db)"
proof -
  obtain r where r: "rec_run_id r = ca_run_id run"
    "findRunRecord (admitted_db cfg platform now token run db) (connectorId cfg) (ca_run_id run) = Inr (Some r)"
    using findRunRecord_admitted [OF assms] by blast
  show ?thesis
    using assms(2) r
    by (intro exI [of _ r]) (auto simp: insertWith_def fresh_run_def Let_def simp flip: admitted_db_def)
qed

lemma insertWith_not_fresh:
  "\<not> fresh_run cfg platform now run db \<Longrightarrow> \<exists>err. insertWith cfg platform now token run db = Inl err"
  by (auto simp: insertWith_def fresh_run_def Let_def)

lemma insertWith_result:
  "insertWith cfg platform now token run db = Inr (a, db') \<Longrightarrow> keys_ok db \<Longrightarrow>
     fresh_run cfg platform now run db \<and> db' = admitted_db cfg platform now token run db"
  using insertWith_not_fresh [of cfg platform now run db token] insertWith_fresh [of db cfg platform now run token]
  by (cases "fresh_run cfg platform now run db") auto

lemma create_inv: "db_inv db \<Longrightarrow> db_inv (snd (create cfg platform now token run db))"
  unfolding create_def
  by (rule transaction_preserves) (auto dest!: insertWith_result [OF _ invD(1)] intro: admitted_inv)

lemma admit_inv: "db_inv db \<Longrightarrow> db_inv (snd (admit cfg platform now token run kind key seen db))"
proof -
  assume inv: "db_inv db"
  let ?run = "run\<lparr>ca_ingress_kind := Some kind, ca_ingress_key := Some key\<rparr>"
  let ?m = "\<lambda>db. case findByIngress cfg kind key seen of
      None \<Rightarrow> insertWith cfg platform now token ?run db
    | Some row \<Rightarrow> (case replayed row of Inl err \<Rightarrow> Inl err | Inr a \<Rightarrow> Inr (a, db))"
  have "db_inv (snd (transaction ?m db))"
    using inv by (rule transaction_preserves)
      (auto dest!: insertWith_result [OF _ invD(1) [OF inv]] intro: admitted_inv inv split: option.splits sum.splits)
  then show ?thesis
    by (simp add: admit_def Let_def split_beta split: sum.split option.split)
qed

end
