(* ===== verification/OperatorDecisions.thy ===== *)
theory OperatorDecisions
  imports PublicationStore
begin

text \<open>
  \<^verbatim>\<open>services/review-runs/src/persistence/operator-decision-store.ts\<close>: the operator's decisions about a
  parked run. Each per-axis decision is one transaction that closes with the record read;
  \<open>resumeDisconnectedRun\<close> and \<open>giveUpDisconnectedRun\<close> first read the record outside any transaction (the
  state \<open>seen\<close>, which other writers may have left by the time the decision commits) and dispatch on it.
\<close>

definition blank :: "string \<Rightarrow> bool" where
  "blank reason \<longleftrightarrow> js_trim reason = []"

text \<open>The closing read of every decision.\<close>

definition decided :: "store_cfg \<Rightarrow> string \<Rightarrow> string \<Rightarrow> db \<Rightarrow> rr_error + (review_run_record \<times> db)" where
  "decided cfg runId during db =
     (case recordOrThrow (''Review run '' @ runId @ '' disappeared during '' @ during) db (connectorId cfg) runId of
        Inl err \<Rightarrow> Inl err | Inr rcd \<Rightarrow> Inr (rcd, db))"

definition not_disconnected :: "string \<Rightarrow> string \<Rightarrow> rr_error" where
  "not_disconnected runId what = StatusError 409 (''Review run '' @ runId @ '' is not a disconnected '' @ what)"

definition given_up_preparation :: "instant \<Rightarrow> string \<Rightarrow> string \<Rightarrow> preparation_row \<Rightarrow> preparation_row" where
  "given_up_preparation now code reason p =
     p\<lparr>prep_status := PrepFailed, prep_claim_token := None, prep_claimed_at := None,
       prep_failure_code := Some code, prep_failure_message := Some reason,
       prep_last_failure_code := Some code, prep_last_failure_message := Some reason,
       prep_finished_at := Some now, prep_disconnect_reason := None, prep_updated_at := now\<rparr>"

definition given_up_execution :: "instant \<Rightarrow> string \<Rightarrow> string \<Rightarrow> execution_row \<Rightarrow> execution_row" where
  "given_up_execution now code reason e =
     e\<lparr>exec_status := ExecFailed, exec_claim_token := None, exec_claimed_at := None,
       exec_failure_code := Some code, exec_failure_message := Some reason,
       exec_finished_at := Some (coalesce (exec_finished_at e) now),
       exec_observed_at := now, exec_updated_at := now\<rparr>"

definition given_up_publication :: "instant \<Rightarrow> string \<Rightarrow> string \<Rightarrow> publication_row \<Rightarrow> publication_row" where
  "given_up_publication now code reason b =
     b\<lparr>pub_status := PubFailed, pub_claim_token := None, pub_claimed_at := None,
       pub_failure_code := Some code, pub_failure_message := Some reason,
       pub_finished_at := Some (coalesce (pub_finished_at b) now), pub_updated_at := now\<rparr>"

text \<open>The part two decisions share: event, failure notice.\<close>

definition logFailure ::
  "instant \<Rightarrow> string \<Rightarrow> string \<Rightarrow> axis \<Rightarrow> axis_state \<Rightarrow> axis_state \<Rightarrow> string \<Rightarrow> db \<Rightarrow> db" where
  "logFailure now c runId ax fromStatus toStatus code db =
     (let (eventId, db1) = appendEvent now c runId ax (Some fromStatus) toStatus (Some code) db
      in queueRunNotice now c runId eventId NoticeFailure ax (Some code) db1)"

text \<open>Conclude the publication that can no longer deliver, and log where it came from.\<close>

definition concludePublication :: "instant \<Rightarrow> string \<Rightarrow> string \<Rightarrow> db \<Rightarrow> db" where
  "concludePublication now c runId db =
     (let (fromStatus, db1) = abandonInFlightPublication now c runId db
      in logAbandoned now c runId fromStatus db1)"

definition stoppable :: "execution_row \<Rightarrow> bool" where
  "stoppable e \<longleftrightarrow> exec_status e \<in> {ExecQueued, ExecRunning, ExecUncertain}"

definition abandonBlockedPreparation_tx ::
  "store_cfg \<Rightarrow> instant \<Rightarrow> string \<Rightarrow> string \<Rightarrow> review_run_record tx" where
  "abandonBlockedPreparation_tx cfg now runId reason db =
     (let c = connectorId cfg; q = (\<lambda>p. prep_status p = PrepDisconnected) in
      case pick_prep c runId q db of
        None \<Rightarrow> Inl (not_disconnected runId ''preparation.'')
      | Some p \<Rightarrow>
         (let code = coalesce (prep_disconnect_reason p) ''EXECUTION_ALREADY_ADVANCED'';
              db1 = upd_prep c runId q (given_up_preparation now code reason) db
          in if cnt_prep c runId q db \<noteq> 1
             then Inl (StatusError 409 (''Preparation '' @ runId @ '' is disconnected but its state changed; nothing was written.''))
             else
              (let db2 = logFailure now c runId AxisPreparation (PrepS PrepDisconnected) (PrepS PrepFailed) code db1;
                   db3 = upd_exec c runId stoppable (given_up_execution now code reason) db2;
                   db4 = (case pick_exec c runId stoppable db2 of
                            None \<Rightarrow> db3
                          | Some e \<Rightarrow> logEvent now c runId AxisExecution (Some (ExecS (exec_status e)))
                                        (ExecS ExecFailed) (Some code) db3)
               in decided cfg runId ''abandonment.'' (concludePublication now c runId db4))))"

definition abandonBlockedPreparation ::
  "store_cfg \<Rightarrow> instant \<Rightarrow> string \<Rightarrow> string \<Rightarrow> db \<Rightarrow> (rr_error + review_run_record) \<times> db" where
  "abandonBlockedPreparation cfg now runId reason db =
     (if blank reason then (Inl (StatusError 400 ''An abandonment reason is required.''), db)
      else transaction (abandonBlockedPreparation_tx cfg now runId reason) db)"

definition resumeDisconnectedPublication ::
  "store_cfg \<Rightarrow> instant \<Rightarrow> string \<Rightarrow> db \<Rightarrow> (rr_error + review_run_record) \<times> db" where
  "resumeDisconnectedPublication cfg now runId = transaction (\<lambda>db.
     let (resumed, db1) = resumeDisconnectedPublicationOn cfg now runId db in
     if \<not> resumed then Inl (not_disconnected runId ''publication.'')
     else decided cfg runId ''resumption.'' db1)"

definition resumeDisconnectedExecution ::
  "store_cfg \<Rightarrow> instant \<Rightarrow> string \<Rightarrow> db \<Rightarrow> (rr_error + review_run_record) \<times> db" where
  "resumeDisconnectedExecution cfg now runId = transaction (\<lambda>db.
     let (resumed, db1) = resumeDisconnectedSubmissionRecoveryOn cfg now runId db in
     if \<not> resumed then Inl (not_disconnected runId ''execution.'')
     else decided cfg runId ''resumption.'' db1)"

definition resumeDisconnectedPreparation ::
  "store_cfg \<Rightarrow> instant \<Rightarrow> string \<Rightarrow> db \<Rightarrow> (rr_error + review_run_record) \<times> db" where
  "resumeDisconnectedPreparation cfg now runId = transaction (\<lambda>db.
     let c = connectorId cfg; q = (\<lambda>p. prep_status p = PrepDisconnected);
         db1 = upd_prep c runId q
                 (\<lambda>p. p\<lparr>prep_status := PrepUncertain, prep_disconnect_reason := None, prep_attempt_count := 0,
                        prep_available_at := now, prep_updated_at := now\<rparr>) db
     in if cnt_prep c runId q db \<noteq> 1 then Inl (not_disconnected runId ''preparation.'')
        else decided cfg runId ''resumption.''
               (supersedeRunAttentionNotices now c runId AxisPreparation
                 (logEvent now c runId AxisPreparation (Some (PrepS PrepDisconnected)) (PrepS PrepUncertain)
                    (Some ''PREPARATION_RESUMED_BY_OPERATOR'') db1)))"

definition resumeDisconnectedRun ::
  "store_cfg \<Rightarrow> instant \<Rightarrow> string \<Rightarrow> db \<Rightarrow> db \<Rightarrow> (rr_error + review_run_record) \<times> db" where
  "resumeDisconnectedRun cfg now runId seen db =
     (case findRunRecord seen (connectorId cfg) runId of
        Inl err \<Rightarrow> (Inl err, db)
      | Inr None \<Rightarrow> (Inl (StatusError 404 (''Review run does not exist: '' @ runId)), db)
      | Inr (Some run) \<Rightarrow>
          if ps_status (rec_preparation run) = PrepDisconnected
          then (if as_status (rec_execution run) = ExecPending then resumeDisconnectedPreparation cfg now runId db
                else (Inl (StatusError 409 (''Review run '' @ runId @ '' cannot be resumed: its preparation is disconnected and execution already moved past pending.'')), db))
          else if as_status (rec_execution run) = ExecDisconnected then resumeDisconnectedExecution cfg now runId db
          else if as_status (rec_publication run) = PubDisconnected then resumeDisconnectedPublication cfg now runId db
          else (Inl (StatusError 409 (''Review run '' @ runId @ '' has no resumable disconnected axis.'')), db))"

definition giveUpDisconnectedPreparation ::
  "store_cfg \<Rightarrow> instant \<Rightarrow> string \<Rightarrow> string \<Rightarrow> db \<Rightarrow> (rr_error + review_run_record) \<times> db" where
  "giveUpDisconnectedPreparation cfg now runId reason = transaction (\<lambda>db.
     let c = connectorId cfg; q = (\<lambda>p. prep_status p = PrepDisconnected);
         db1 = upd_prep c runId q (given_up_preparation now ''PREPARATION_GIVEN_UP_BY_OPERATOR'' reason) db
     in if cnt_prep c runId q db \<noteq> 1 then Inl (not_disconnected runId ''preparation.'')
        else decided cfg runId ''the decision.''
               (concludePublication now c runId
                 (logFailure now c runId AxisPreparation (PrepS PrepDisconnected) (PrepS PrepFailed)
                    ''PREPARATION_GIVEN_UP_BY_OPERATOR'' db1)))"

definition giveUpDisconnectedExecution ::
  "store_cfg \<Rightarrow> instant \<Rightarrow> string \<Rightarrow> string \<Rightarrow> db \<Rightarrow> (rr_error + review_run_record) \<times> db" where
  "giveUpDisconnectedExecution cfg now runId reason = transaction (\<lambda>db.
     let c = connectorId cfg; q = (\<lambda>e. exec_status e = ExecDisconnected);
         db1 = upd_exec c runId q (given_up_execution now ''SUBMISSION_RECOVERY_ABANDONED_BY_OPERATOR'' reason) db
     in if cnt_exec c runId q db \<noteq> 1 then Inl (not_disconnected runId ''execution.'')
        else decided cfg runId ''the decision.''
               (concludePublication now c runId
                 (logFailure now c runId AxisExecution (ExecS ExecDisconnected) (ExecS ExecFailed)
                    ''SUBMISSION_RECOVERY_ABANDONED_BY_OPERATOR'' db1)))"

definition giveUpDisconnectedPublication ::
  "store_cfg \<Rightarrow> instant \<Rightarrow> string \<Rightarrow> string \<Rightarrow> db \<Rightarrow> (rr_error + review_run_record) \<times> db" where
  "giveUpDisconnectedPublication cfg now runId reason = transaction (\<lambda>db.
     let c = connectorId cfg; q = (\<lambda>b. pub_status b = PubDisconnected);
         db1 = upd_pub c runId q (given_up_publication now ''PUBLICATION_ABANDONED_BY_OPERATOR'' reason) db
     in if cnt_pub c runId q db \<noteq> 1 then Inl (not_disconnected runId ''publication.'')
        else decided cfg runId ''the decision.''
               (logFailure now c runId AxisPublication (PubS PubDisconnected) (PubS PubFailed)
                  ''PUBLICATION_ABANDONED_BY_OPERATOR'' db1))"

definition giveUpDisconnectedRun ::
  "store_cfg \<Rightarrow> instant \<Rightarrow> string \<Rightarrow> string \<Rightarrow> db \<Rightarrow> db \<Rightarrow> (rr_error + review_run_record) \<times> db" where
  "giveUpDisconnectedRun cfg now runId reason seen db =
     (if blank reason then (Inl (StatusError 400 ''A reason is required.''), db)
      else
       (case findRunRecord seen (connectorId cfg) runId of
          Inl err \<Rightarrow> (Inl err, db)
        | Inr None \<Rightarrow> (Inl (StatusError 404 (''Review run does not exist: '' @ runId)), db)
        | Inr (Some run) \<Rightarrow>
            if ps_status (rec_preparation run) = PrepDisconnected then giveUpDisconnectedPreparation cfg now runId reason db
            else if as_status (rec_execution run) = ExecDisconnected then giveUpDisconnectedExecution cfg now runId reason db
            else if as_status (rec_publication run) = PubDisconnected then giveUpDisconnectedPublication cfg now runId reason db
            else (Inl (StatusError 409 (''Review run '' @ runId @ '' has no disconnected axis to give up.'')), db)))"

subsection \<open>The decisions keep the invariant\<close>

lemma pick_queueRunNotice [simp]:
  "pick_exec c' k' qe (queueRunNotice now c k ev kd ax rc db) = pick_exec c' k' qe db"
  "pick_pub c' k' qb (queueRunNotice now c k ev kd ax rc db) = pick_pub c' k' qb db"
  by (simp_all add: pick_exec_def pick_pub_def)

lemma decided_db: "decided cfg k during db = Inr (rcd, db') \<Longrightarrow> db' = db"
  by (simp add: decided_def split: sum.splits)

lemma given_up_simps [simp]:
  "exec_run_id (given_up_execution now code r e) = exec_run_id e"
  "exec_connector_id (given_up_execution now code r e) = exec_connector_id e"
  "exec_status (given_up_execution now code r e) = ExecFailed"
  "exec_input (given_up_execution now code r e) = exec_input e"
  "pub_run_id (given_up_publication now code r b) = pub_run_id b"
  "pub_connector_id (given_up_publication now code r b) = pub_connector_id b"
  "pub_status (given_up_publication now code r b) = PubFailed"
  by (simp_all add: given_up_execution_def given_up_publication_def)

lemma given_up_checks [simp]:
  "exec_check (given_up_execution now code r e)"
  "pub_check b \<Longrightarrow> pub_status b = PubDisconnected \<Longrightarrow> pub_check (given_up_publication now code r b)"
  "pub_owned (given_up_publication now code r b)"
  by (simp_all add: given_up_execution_def given_up_publication_def exec_check_def pub_check_def pub_owned_def)

text \<open>No run of a consistent store has a disconnected preparation, so the three preparation decisions answer 409.\<close>

lemma no_disconnected_preparation:
  assumes "db_inv db"
  shows "cnt_prep c k (\<lambda>p. prep_status p = PrepDisconnected) db = 0"
    "pick_prep c k (\<lambda>p. prep_status p = PrepDisconnected) db = None"
proof -
  have "prep_status p \<noteq> PrepDisconnected" if "prep_of db c k = Some p" for p
    using invD(3) [OF assms, of c k] that by (auto elim!: run_okE simp: axes_ok_def)
  then show "cnt_prep c k (\<lambda>p. prep_status p = PrepDisconnected) db = 0"
    "pick_prep c k (\<lambda>p. prep_status p = PrepDisconnected) db = None"
    by (cases "prep_of db c k"; simp add: cnt_axis [OF invD(1) [OF assms]] pick_axis [OF invD(1) [OF assms]])+
qed

lemma preparation_decisions_409:
  assumes "db_inv db"
  shows "resumeDisconnectedPreparation cfg now k db = (Inl (not_disconnected k ''preparation.''), db)"
    "giveUpDisconnectedPreparation cfg now k reason db = (Inl (not_disconnected k ''preparation.''), db)"
    "\<not> blank reason \<Longrightarrow> abandonBlockedPreparation cfg now k reason db = (Inl (not_disconnected k ''preparation.''), db)"
  using no_disconnected_preparation [OF assms, of "connectorId cfg" k]
  by (simp_all add: resumeDisconnectedPreparation_def giveUpDisconnectedPreparation_def abandonBlockedPreparation_def
      abandonBlockedPreparation_tx_def transaction_def)

lemma abandonBlockedPreparation_inv: "db_inv db \<Longrightarrow> db_inv (snd (abandonBlockedPreparation cfg now k reason db))"
  using preparation_decisions_409(3) by (cases "blank reason") (simp_all add: abandonBlockedPreparation_def)

lemma resumeDisconnectedPublication_inv:
  "db_inv db \<Longrightarrow> db_inv (snd (resumeDisconnectedPublication cfg now k db))"
  unfolding resumeDisconnectedPublication_def
  by (rule transaction_preserves [where I = db_inv], assumption)
    (auto simp: split_beta dest!: decided_db split: if_splits intro: resumeDisconnectedPublicationOn_inv)

lemma resumeDisconnectedExecution_inv:
  "db_inv db \<Longrightarrow> db_inv (snd (resumeDisconnectedExecution cfg now k db))"
  unfolding resumeDisconnectedExecution_def
  by (rule transaction_preserves [where I = db_inv], assumption)
    (auto simp: split_beta dest!: decided_db split: if_splits intro: resumeOn_inv)

lemma resumeDisconnectedRun_inv:
  "db_inv db \<Longrightarrow> db_inv (snd (resumeDisconnectedRun cfg now k seen db))"
  by (simp add: resumeDisconnectedRun_def preparation_decisions_409 resumeDisconnectedPublication_inv
      resumeDisconnectedExecution_inv split: sum.split option.split)

lemma giveUpDisconnectedExecution_inv:
  assumes "db_inv db" shows "db_inv (snd (giveUpDisconnectedExecution cfg now k reason db))"
proof -
  let ?c = "connectorId cfg" and ?q = "\<lambda>e. exec_status e = ExecDisconnected"
    and ?code = "''SUBMISSION_RECOVERY_ABANDONED_BY_OPERATOR''"
  let ?db' = "concludePublication now ?c k (logFailure now ?c k AxisExecution (ExecS ExecDisconnected) (ExecS ExecFailed)
      ?code (upd_exec ?c k ?q (given_up_execution now ?code reason) db))"
  note op = concludePublication_def logFailure_def Let_def split_beta abandon_fst in_flight_def
    cnt_axis [OF invD(1) [OF assms]] pick_axis [OF invD(1) [OF assms]]
  have "db_inv ?db'" if "cnt_exec ?c k ?q db = 1"
  proof (rule inv_step [OF assms])
    show "wrote ?c k db ?db'" by (simp add: op)
    show "ids_ok ?db'" using invD(2) [OF assms] by (simp add: op)
    show "run_ok ?db' ?c k"
      using invD(3) [OF assms, of ?c k]
    proof (cases rule: run_okE)
      case (run p e b)
      with that have st: "exec_status e = ExecDisconnected" by (simp add: op split: if_splits)
      then have "exec_status e \<in> {ExecQueued, ExecRunning, ExecUncertain, ExecDisconnected}" by auto
      note ax = axes_live(1) [OF run(9) this]
      have "rows_ok ?db' ?c k"
        using st run(1-11) ax steps_none [OF run(10)]
        by (simp add: op rows_ok_def axes_ok_def steps_ok_def pub_check_def pub_owned_def)
      moreover have "audited ?db' ?c k"
        using st run(1-3,12) ax by (simp add: op audited_def audit_ok_def logAbandoned_def)
      moreover have "told ?db' ?c k"
        using st run(1-3,9,13) ax invD(2) [OF assms]
        by (simp add: op told_def told_ok_def run_failed_def notice_rows_queue is_failure_def)
      ultimately show ?thesis by (simp add: run_ok_def)
    qed (use that in \<open>simp add: op\<close>)
  qed
  with assms show ?thesis
    unfolding giveUpDisconnectedExecution_def
    by (intro transaction_preserves [where I = db_inv]) (auto simp: Let_def dest!: decided_db split: if_splits)
qed

lemma giveUpDisconnectedPublication_inv:
  assumes "db_inv db" shows "db_inv (snd (giveUpDisconnectedPublication cfg now k reason db))"
proof -
  let ?c = "connectorId cfg" and ?q = "\<lambda>b. pub_status b = PubDisconnected"
    and ?code = "''PUBLICATION_ABANDONED_BY_OPERATOR''"
  let ?db' = "logFailure now ?c k AxisPublication (PubS PubDisconnected) (PubS PubFailed)
      ?code (upd_pub ?c k ?q (given_up_publication now ?code reason) db)"
  note op = logFailure_def Let_def split_beta
    cnt_axis [OF invD(1) [OF assms]] pick_axis [OF invD(1) [OF assms]]
  have "db_inv ?db'" if "cnt_pub ?c k ?q db = 1"
  proof (rule inv_step [OF assms])
    show "wrote ?c k db ?db'" by (simp add: op)
    show "ids_ok ?db'" using invD(2) [OF assms] by (simp add: op)
    show "run_ok ?db' ?c k"
      using invD(3) [OF assms, of ?c k]
    proof (cases rule: run_okE)
      case (run p e b)
      with that have st: "pub_status b = PubDisconnected" by (simp add: op split: if_splits)
      then have es: "exec_status e = ExecSucceeded" using axes_publishing [OF run(9)] by simp
      have "rows_ok ?db' ?c k"
        using st es run(1-11) by (simp add: op rows_ok_def axes_ok_def steps_ok_def)
      moreover have "audited ?db' ?c k"
        using st run(1-3,12) by (simp add: op audited_def audit_ok_def)
      moreover have "told ?db' ?c k"
        using st es run(1-3,9,13) invD(2) [OF assms]
        by (simp add: op told_def told_ok_def run_failed_def notice_rows_queue is_failure_def)
      ultimately show ?thesis by (simp add: run_ok_def)
    qed (use that in \<open>simp add: op\<close>)
  qed
  with assms show ?thesis
    unfolding giveUpDisconnectedPublication_def
    by (intro transaction_preserves [where I = db_inv]) (auto simp: Let_def dest!: decided_db split: if_splits)
qed

lemma giveUpDisconnectedRun_inv:
  "db_inv db \<Longrightarrow> db_inv (snd (giveUpDisconnectedRun cfg now k reason seen db))"
  by (simp add: giveUpDisconnectedRun_def preparation_decisions_409 giveUpDisconnectedPublication_inv
      giveUpDisconnectedExecution_inv split: sum.split option.split)

end
