(* ===== verification/NoticeDelivery.thy ===== *)
theory NoticeDelivery
  imports RunInvariant
begin

text \<open>
  The delivery side of the notice outbox (\<open>claimNextNotice\<close>, \<open>completeNotice\<close>, \<open>renewNoticeClaim\<close> of
  \<^verbatim>\<open>run-notices.ts\<close>, modelled in RunNotices): the operations keep the invariant, a claim
  always finds the row it selected, and a notice is completed once per claim.
\<close>

lemma upd_notice_inv:
  assumes inv: "db_inv db"
    and key: "\<And>n. notice_id (g n) = notice_id n \<and> notice_source_event_id (g n) = notice_source_event_id n \<and>
      notice_run_id (g n) = notice_run_id n \<and> notice_connector_id (g n) = notice_connector_id n \<and>
      notice_kind (g n) = notice_kind n \<and> notice_axis (g n) = notice_axis n"
    and live: "\<And>n. n \<in> set (run_notices db) \<Longrightarrow> q n \<Longrightarrow> notice_check (g n) \<and> notice_status (g n) \<noteq> NoticeSuperseded"
  shows "db_inv (upd_notice q g db)"
proof (rule invI)
  define h where "h n = (if q n then g n else n)" for n
  have rows: "notice_rows (upd_notice q g db) c k = map h (notice_rows db c k)" for c k
  proof -
    have "filter (\<lambda>n. notice_run_id n = k \<and> notice_connector_id n = c) (map h ns) =
        map h (filter (\<lambda>n. notice_run_id n = k \<and> notice_connector_id n = c) ns)" for ns
      using key by (induction ns) (auto simp: h_def)
    moreover have "run_notices (upd_notice q g db) = map h (run_notices db)"
      by (simp add: upd_notice_def h_def)
    ultimately show ?thesis by (simp only: notice_rows_def)
  qed
  have mem: "n \<in> set (run_notices db)" if "n \<in> set (notice_rows db c k)" for n c k
    using that by (simp add: notice_rows_def)
  show "keys_ok (upd_notice q g db)" using invD(1) [OF inv] by simp
  show "ids_ok (upd_notice q g db)" using key live by (intro ids_ok_upd_notice invD(2) [OF inv]) auto
  fix c k
  have fails: "length (filter is_failure (map h ns)) = length (filter is_failure ns)" for ns
    using key by (induction ns) (auto simp: h_def is_failure_def)
  have "attention ax (h n)" if "attention ax n" "n \<in> set (run_notices db)" for ax n
    using that live [of n] key [of n] by (simp add: h_def attention_def)
  then have parked: "(\<exists>n \<in> set (notice_rows db c k). attention ax n) \<Longrightarrow>
      (\<exists>n \<in> set (map h (notice_rows db c k)). attention ax n)" for ax
    using mem [of _ c k] by auto
  show "run_ok (upd_notice q g db) c k"
    using invD(3) [OF inv, of c k] parked fails
    by (auto simp: run_ok_def run_defs rows audit_ok_def told_ok_def simp del: set_map split: option.splits)
qed

lemma claimNextNotice_inv:
  assumes "db_inv db" shows "db_inv (snd (claimNextNotice cfg now locked tok db))"
  unfolding claimNextNotice_def using assms
  by (rule transaction_preserves [where I = db_inv])
    (auto simp: Let_def notice_check_def assms split: option.splits if_splits intro!: upd_notice_inv)

lemma completeNotice_inv:
  assumes "db_inv db" shows "db_inv (snd (completeNotice cfg now nid tok d url db))"
proof -
  have "db_inv (upd_notice (owns_notice cfg nid tok)
      (\<lambda>n. n\<lparr>notice_status := (if d then NoticeDelivered else NoticeFailed), notice_claim_token := None,
             notice_claimed_at := None, notice_comment_url := url, notice_updated_at := now\<rparr>) db)"
    by (rule upd_notice_inv [OF assms]) (auto simp: notice_check_def)
  with assms show ?thesis by (simp add: completeNotice_def transaction_def)
qed

lemma renewNoticeClaim_inv:
  assumes "db_inv db" shows "db_inv (snd (renewNoticeClaim cfg now nid tok db))"
  using invD(2) [OF assms]
  by (auto simp: renewNoticeClaim_def owns_notice_def notice_check_def ids_ok_def intro!: upd_notice_inv [OF assms])

subsection \<open>Claiming and completing\<close>

lemma notice_candidateD:
  assumes "notice_candidate cfg now locked db = Some w"
  shows "w \<in> set (run_notices db)" "notice_claimable cfg now w"
  using assms by (auto simp: notice_candidate_def dest!: sort_key_hd_mem split: list.splits)

lemma filter_id_le1:
  "distinct (map f xs) \<Longrightarrow> x \<in> set xs \<Longrightarrow> P x \<Longrightarrow> filter (\<lambda>y. f y = f x \<and> P y) xs = [x]"
proof (induction xs)
  case (Cons a xs)
  show ?case
  proof (cases "a = x")
    case True
    with Cons.prems(1) have "filter (\<lambda>y. f y = f x \<and> P y) xs = []" by (auto simp: filter_empty_conv image_iff)
    with True Cons.prems(3) show ?thesis by simp
  next
    case False
    with Cons.prems have "f a \<noteq> f x" by auto
    with Cons False show ?thesis by simp
  qed
qed simp

lemma claimNextNotice_total:
  assumes "ids_ok db"
  shows "\<exists>r. fst (claimNextNotice cfg now locked tok db) = Inr r"
proof (cases "notice_candidate cfg now locked db")
  case (Some w)
  note cand = notice_candidateD [OF Some]
  have "cnt_notice (\<lambda>n. notice_id n = notice_id w \<and> notice_connector_id n = connectorId cfg \<and>
      notice_status n = notice_status w \<and>
      (notice_status w \<noteq> NoticeDelivering \<or> lease_expired cfg now (notice_claimed_at n))) db = 1"
    unfolding cnt_notice_def
    using filter_id_le1 [of notice_id "run_notices db" w] assms cand
    by (subst filter_id_le1 [of notice_id _ w]) (auto simp: ids_ok_def notice_claimable_def)
  with Some show ?thesis by (simp add: claimNextNotice_def transaction_def Let_def)
qed (simp add: claimNextNotice_def transaction_def)

text \<open>A completed claim cannot be completed or renewed again, whatever the second caller reports.\<close>

lemma owns_after_complete:
  assumes "fst (completeNotice cfg now nid tok d url db) = Inr r"
  shows "cnt_notice (owns_notice cfg nid tok) (snd (completeNotice cfg now nid tok d url db)) = 0"
proof -
  let ?g = "\<lambda>n. n\<lparr>notice_status := (if d then NoticeDelivered else NoticeFailed), notice_claim_token := None,
      notice_claimed_at := None, notice_comment_url := url, notice_updated_at := now\<rparr>"
  have "filter (owns_notice cfg nid tok) (map (\<lambda>r. if owns_notice cfg nid tok r then ?g r else r) ns) = []" for ns
    by (induction ns) (simp_all add: owns_notice_def)
  then have "cnt_notice (owns_notice cfg nid tok) (upd_notice (owns_notice cfg nid tok) ?g db) = 0"
    by (simp add: cnt_notice_def upd_notice_def)
  with assms show ?thesis by (simp add: completeNotice_def transaction_def split: if_splits) auto
qed

end
