(* ===== verification/StateMachines.thy ===== *)
theory StateMachines
  imports RunTables
begin

text \<open>
  \<^verbatim>\<open>services/review-runs/src/state-machines.generated.ts\<close>: the three state machines the contract
  declares, as data (the labels and descriptions are presentation and left out), and what it means for an event
  to be declared. The contract is compared with the events the stores write by its edges, \<open>from\<close> and \<open>to\<close>.
\<close>

record state_transition =
  tr_from :: string
  tr_to :: string
  tr_reason :: "string option"

record state_machine =
  sm_axis :: axis
  sm_order :: nat
  sm_initial :: string
  sm_terminal :: "string list"
  sm_states :: "string list"
  sm_transitions :: "state_transition list"

definition edge :: "string \<Rightarrow> string \<Rightarrow> state_transition" where
  "edge f t = \<lparr>tr_from = f, tr_to = t, tr_reason = None\<rparr>"

definition edge_because :: "string \<Rightarrow> string \<Rightarrow> string \<Rightarrow> state_transition" where
  "edge_because f t r = \<lparr>tr_from = f, tr_to = t, tr_reason = Some r\<rparr>"

definition preparation_machine :: state_machine where
  "preparation_machine =
     \<lparr>sm_axis = AxisPreparation, sm_order = 1, sm_initial = ''pending'', sm_terminal = [''submitted'', ''failed''],
      sm_states = [''pending'', ''preparing'', ''uncertain'', ''disconnected'', ''submitted'', ''failed''],
      sm_transitions =
       [edge ''pending'' ''preparing'', edge ''preparing'' ''submitted'', edge ''preparing'' ''pending'',
        edge ''preparing'' ''uncertain'', edge ''uncertain'' ''preparing'',
        edge_because ''preparing'' ''disconnected'' ''EXECUTION_ALREADY_ADVANCED'',
        edge_because ''disconnected'' ''uncertain'' ''PREPARATION_RESUMED_BY_OPERATOR'',
        edge_because ''disconnected'' ''failed'' ''PREPARATION_GIVEN_UP_BY_OPERATOR'',
        edge_because ''disconnected'' ''failed'' ''EXECUTION_ALREADY_ADVANCED'',
        edge_because ''disconnected'' ''failed'' ''PREPARATION_ABANDONED'',
        edge ''preparing'' ''failed'']\<rparr>"

definition execution_machine :: state_machine where
  "execution_machine =
     \<lparr>sm_axis = AxisExecution, sm_order = 2, sm_initial = ''pending'',
      sm_terminal = [''succeeded'', ''skipped'', ''failed''],
      sm_states = [''pending'', ''queued'', ''running'', ''succeeded'', ''skipped'', ''uncertain'', ''disconnected'', ''failed''],
      sm_transitions =
       [edge ''pending'' ''queued'', edge ''pending'' ''skipped'',
        edge_because ''pending'' ''uncertain'' ''SUBMISSION_STATE_UNCERTAIN'',
        edge_because ''uncertain'' ''uncertain'' ''SUBMISSION_RECOVERY_CLAIMED'',
        edge ''uncertain'' ''queued'', edge ''uncertain'' ''failed'',
        edge_because ''uncertain'' ''disconnected'' ''SUBMISSION_RECOVERY_EXHAUSTED'',
        edge_because ''disconnected'' ''uncertain'' ''SUBMISSION_RECOVERY_RESUMED_BY_OPERATOR'',
        edge_because ''disconnected'' ''failed'' ''SUBMISSION_RECOVERY_ABANDONED_BY_OPERATOR'',
        edge ''queued'' ''running'', edge ''queued'' ''succeeded'', edge ''running'' ''succeeded'',
        edge ''queued'' ''failed'', edge ''running'' ''failed'']\<rparr>"

definition publication_machine :: state_machine where
  "publication_machine =
     \<lparr>sm_axis = AxisPublication, sm_order = 3, sm_initial = ''pending'',
      sm_terminal = [''published'', ''failed'', ''skipped''],
      sm_states = [''pending'', ''publishing'', ''uncertain'', ''disconnected'', ''published'', ''failed'', ''skipped''],
      sm_transitions =
       [edge ''pending'' ''publishing'', edge ''publishing'' ''uncertain'', edge ''uncertain'' ''publishing'',
        edge ''uncertain'' ''disconnected'',
        edge_because ''disconnected'' ''pending'' ''PUBLICATION_RESUMED_BY_OPERATOR'',
        edge_because ''disconnected'' ''failed'' ''PUBLICATION_ABANDONED_BY_OPERATOR'',
        edge ''publishing'' ''published'',
        edge_because ''publishing'' ''publishing'' ''PUBLICATION_LEASE_EXPIRED'',
        edge ''publishing'' ''pending'', edge ''publishing'' ''failed'', edge ''pending'' ''skipped'',
        edge_because ''publishing'' ''skipped'' ''PUBLICATION_ABANDONED'']\<rparr>"

definition STATE_MACHINES :: "state_machine list" where
  "STATE_MACHINES = [preparation_machine, execution_machine, publication_machine]"

text \<open>The names the columns store.\<close>

fun prep_name :: "prep_state \<Rightarrow> string" where
  "prep_name PrepPending = ''pending''" | "prep_name PrepPreparing = ''preparing''"
| "prep_name PrepUncertain = ''uncertain''" | "prep_name PrepDisconnected = ''disconnected''"
| "prep_name PrepSubmitted = ''submitted''" | "prep_name PrepFailed = ''failed''"

fun exec_name :: "exec_state \<Rightarrow> string" where
  "exec_name ExecPending = ''pending''" | "exec_name ExecQueued = ''queued''"
| "exec_name ExecRunning = ''running''" | "exec_name ExecUncertain = ''uncertain''"
| "exec_name ExecDisconnected = ''disconnected''" | "exec_name ExecSucceeded = ''succeeded''"
| "exec_name ExecSkipped = ''skipped''" | "exec_name ExecFailed = ''failed''"

fun pub_name :: "pub_state \<Rightarrow> string" where
  "pub_name PubPending = ''pending''" | "pub_name PubPublishing = ''publishing''"
| "pub_name PubUncertain = ''uncertain''" | "pub_name PubDisconnected = ''disconnected''"
| "pub_name PubPublished = ''published''" | "pub_name PubFailed = ''failed''"
| "pub_name PubSkipped = ''skipped''"

fun state_name :: "axis_state \<Rightarrow> string" where
  "state_name (PrepS s) = prep_name s" | "state_name (ExecS s) = exec_name s" | "state_name (PubS s) = pub_name s"

text \<open>An edge of one axis' machine.\<close>

definition machine_edge :: "state_machine \<Rightarrow> string \<Rightarrow> string \<Rightarrow> bool" where
  "machine_edge m f t = list_ex (\<lambda>tr. tr_from tr = f \<and> tr_to tr = t) (sm_transitions m)"

definition declared :: "axis \<Rightarrow> axis_state \<Rightarrow> axis_state \<Rightarrow> bool" where
  "declared ax f t = list_ex (\<lambda>m. sm_axis m = ax \<and> machine_edge m (state_name f) (state_name t)) STATE_MACHINES"

fun of_axis :: "axis \<Rightarrow> axis_state \<Rightarrow> bool" where
  "of_axis AxisPreparation (PrepS _) = True" | "of_axis AxisExecution (ExecS _) = True"
| "of_axis AxisPublication (PubS _) = True" | "of_axis _ _ = False"

text \<open>The two edges the stores write and the contract does not declare.\<close>

definition undeclared :: "axis_state \<Rightarrow> axis_state \<Rightarrow> bool" where
  "undeclared f t \<longleftrightarrow>
     (f, t) \<in> {(PubS PubPublishing, PubS PubDisconnected), (PubS PubUncertain, PubS PubFailed)}"

lemma declared_axis:
  "declared AxisPreparation f t = machine_edge preparation_machine (state_name f) (state_name t)"
  "declared AxisExecution f t = machine_edge execution_machine (state_name f) (state_name t)"
  "declared AxisPublication f t = machine_edge publication_machine (state_name f) (state_name t)"
  by (simp_all add: declared_def STATE_MACHINES_def preparation_machine_def execution_machine_def publication_machine_def)

lemma declared_preparation:
  "declared AxisPreparation (PrepS f) (PrepS t) \<longleftrightarrow>
     (f, t) \<in> {(PrepPending, PrepPreparing), (PrepPreparing, PrepSubmitted), (PrepPreparing, PrepPending),
       (PrepPreparing, PrepUncertain), (PrepUncertain, PrepPreparing), (PrepPreparing, PrepDisconnected),
       (PrepDisconnected, PrepUncertain), (PrepDisconnected, PrepFailed), (PrepPreparing, PrepFailed)}"
  unfolding declared_axis
  by (cases f; cases t) (simp_all add: machine_edge_def preparation_machine_def edge_def edge_because_def)

lemma declared_execution:
  "declared AxisExecution (ExecS f) (ExecS t) \<longleftrightarrow>
     (f, t) \<in> {(ExecPending, ExecQueued), (ExecPending, ExecSkipped), (ExecPending, ExecUncertain),
       (ExecUncertain, ExecUncertain), (ExecUncertain, ExecQueued), (ExecUncertain, ExecFailed),
       (ExecUncertain, ExecDisconnected), (ExecDisconnected, ExecUncertain), (ExecDisconnected, ExecFailed),
       (ExecQueued, ExecRunning), (ExecQueued, ExecSucceeded), (ExecRunning, ExecSucceeded),
       (ExecQueued, ExecFailed), (ExecRunning, ExecFailed)}"
  unfolding declared_axis
  by (cases f; cases t) (simp_all add: machine_edge_def execution_machine_def edge_def edge_because_def)

lemma declared_publication:
  "declared AxisPublication (PubS f) (PubS t) \<longleftrightarrow>
     (f, t) \<in> {(PubPending, PubPublishing), (PubPublishing, PubUncertain), (PubUncertain, PubPublishing),
       (PubUncertain, PubDisconnected), (PubDisconnected, PubPending), (PubDisconnected, PubFailed),
       (PubPublishing, PubPublished), (PubPublishing, PubPublishing), (PubPublishing, PubPending),
       (PubPublishing, PubFailed), (PubPending, PubSkipped), (PubPublishing, PubSkipped)}"
  unfolding declared_axis
  by (cases f; cases t) (simp_all add: machine_edge_def publication_machine_def edge_def edge_because_def)

lemmas declared_edges = declared_preparation declared_execution declared_publication

end
