(* ===== verification/Progress.thy ===== *)
theory Progress
  imports PublicationClaimStore PreparationStore SubmissionStore AdmissionStore OperatorDecisions NoticeDelivery
    StateMachines
begin

text \<open>
  What every operation of the store does to the past: \<open>advances db db'\<close> says that \<open>db'\<close> only adds to the
  audit log, that every event added is an edge the contract declares or one of the two it omits, and that what was
  concluded in \<open>db\<close> is still there in \<open>db'\<close>: terminal axis rows, and the remote object of every
  succeeded publication step. The relation composes, so each operation is read off its statements by the rules collected in
  \<open>adv\<close>.
\<close>

subsection \<open>The relation\<close>

definition prep_final :: "prep_state \<Rightarrow> bool" where
  "prep_final st \<longleftrightarrow> st = PrepSubmitted \<or> st = PrepFailed"

definition exec_final :: "exec_state \<Rightarrow> bool" where
  "exec_final st \<longleftrightarrow> st = ExecSucceeded \<or> st = ExecSkipped \<or> st = ExecFailed"

definition pub_final :: "pub_state \<Rightarrow> bool" where
  "pub_final st \<longleftrightarrow> st = PubPublished \<or> st = PubFailed \<or> st = PubSkipped"

lemmas final_defs = prep_final_def exec_final_def pub_final_def

text \<open>The part of a concluded execution that never changes again; its artifact storage may still be recorded.\<close>

definition same_conclusion :: "execution_row \<Rightarrow> execution_row \<Rightarrow> bool" where
  "same_conclusion e e' \<longleftrightarrow>
     exec_status e' = exec_status e \<and> exec_workflow_result e' = exec_workflow_result e \<and>
     exec_input e' = exec_input e \<and> exec_failure_code e' = exec_failure_code e \<and>
     exec_failure_message e' = exec_failure_message e \<and> exec_finished_at e' = exec_finished_at e"

definition same_delivery :: "step_row \<Rightarrow> step_row \<Rightarrow> bool" where
  "same_delivery s s' \<longleftrightarrow>
     step_key s' = step_key s \<and> step_status s' = step_status s \<and>
     step_remote_object_id s' = step_remote_object_id s \<and> step_remote_object_url s' = step_remote_object_url s"

fun legal :: "axis \<Rightarrow> axis_state option \<Rightarrow> axis_state \<Rightarrow> bool" where
  "legal ax None t = (t \<in> {PrepS PrepPreparing, ExecS ExecPending, PubS PubPending} \<and> of_axis ax t)"
| "legal ax (Some f) t = (of_axis ax f \<and> of_axis ax t \<and> (declared ax f t \<or> undeclared f t))"

definition legal_event :: "event_row \<Rightarrow> bool" where
  "legal_event ev = legal (event_axis ev) (event_from_status ev) (event_to_status ev)"

definition log_extends :: "db \<Rightarrow> db \<Rightarrow> bool" where
  "log_extends db db' \<longleftrightarrow> (\<exists>es. review_run_events db' = review_run_events db @ es \<and> list_all legal_event es)"

definition runs_extend :: "db \<Rightarrow> db \<Rightarrow> bool" where
  "runs_extend db db' \<longleftrightarrow> (\<exists>rs. review_runs db' = review_runs db @ rs)"

definition conclusions_kept :: "db \<Rightarrow> db \<Rightarrow> bool" where
  "conclusions_kept db db' \<longleftrightarrow>
     (\<forall>c k p. prep_of db c k = Some p \<and> prep_final (prep_status p) \<longrightarrow> prep_of db' c k = Some p) \<and>
     (\<forall>c k e. exec_of db c k = Some e \<and> exec_final (exec_status e) \<longrightarrow>
        (\<exists>e'. exec_of db' c k = Some e' \<and> same_conclusion e e')) \<and>
     (\<forall>c k b. pub_of db c k = Some b \<and> pub_final (pub_status b) \<longrightarrow> pub_of db' c k = Some b)"

definition deliveries_kept :: "db \<Rightarrow> db \<Rightarrow> bool" where
  "deliveries_kept db db' \<longleftrightarrow>
     (\<forall>c k s. s \<in> set (steps_of db c k) \<and> step_status s = StepSucceeded \<longrightarrow>
        (\<exists>s' \<in> set (steps_of db' c k). same_delivery s s'))"

text \<open>A stored diagnostic reference the projection can read back.\<close>

abbreviation storage_readable :: "execution_row \<Rightarrow> bool" where
  "storage_readable e \<equiv> pred_option storage_ok (exec_artifact_storage e)"

definition storages_ok :: "db \<Rightarrow> bool" where
  "storages_ok db \<longleftrightarrow> (\<forall>c k e. exec_of db c k = Some e \<longrightarrow> storage_readable e)"

definition storages_kept :: "db \<Rightarrow> db \<Rightarrow> bool" where
  "storages_kept db db' \<longleftrightarrow> (storages_ok db \<longrightarrow> storages_ok db')"

definition advances :: "db \<Rightarrow> db \<Rightarrow> bool" where
  "advances db db' \<longleftrightarrow>
     log_extends db db' \<and> runs_extend db db' \<and> conclusions_kept db db' \<and> deliveries_kept db db' \<and> storages_kept db db'"

lemmas advances_defs = advances_def log_extends_def runs_extend_def conclusions_kept_def deliveries_kept_def
  storages_kept_def storages_ok_def

lemma same_refl [simp]: "same_conclusion e e" "same_delivery s s"
  by (simp_all add: same_conclusion_def same_delivery_def)

lemma same_trans:
  "same_conclusion e e1 \<Longrightarrow> same_conclusion e1 e2 \<Longrightarrow> same_conclusion e e2"
  "same_delivery s s1 \<Longrightarrow> same_delivery s1 s2 \<Longrightarrow> same_delivery s s2"
  by (simp_all add: same_conclusion_def same_delivery_def)

lemma keptI:
  assumes "\<And>c k p. prep_of db c k = Some p \<Longrightarrow> prep_final (prep_status p) \<Longrightarrow> prep_of db' c k = Some p"
    and "\<And>c k e. exec_of db c k = Some e \<Longrightarrow> exec_final (exec_status e) \<Longrightarrow>
      \<exists>e'. exec_of db' c k = Some e' \<and> same_conclusion e e'"
    and "\<And>c k b. pub_of db c k = Some b \<Longrightarrow> pub_final (pub_status b) \<Longrightarrow> pub_of db' c k = Some b"
  shows "conclusions_kept db db'"
  using assms by (simp add: conclusions_kept_def)

lemma keptD:
  assumes "conclusions_kept db db'"
  shows "prep_of db c k = Some p \<Longrightarrow> prep_final (prep_status p) \<Longrightarrow> prep_of db' c k = Some p"
    and "exec_of db c k = Some e \<Longrightarrow> exec_final (exec_status e) \<Longrightarrow>
      \<exists>e'. exec_of db' c k = Some e' \<and> same_conclusion e e'"
    and "pub_of db c k = Some b \<Longrightarrow> pub_final (pub_status b) \<Longrightarrow> pub_of db' c k = Some b"
  using assms by (simp_all add: conclusions_kept_def)

lemma kept_refl: "conclusions_kept db db" "deliveries_kept db db"
  by (rule keptI; blast intro: same_refl) (use same_refl in \<open>unfold deliveries_kept_def, blast\<close>)

lemma kept_trans:
  assumes "conclusions_kept db db1" "conclusions_kept db1 db2"
  shows "conclusions_kept db db2"
proof (rule keptI)
  fix c k e
  assume e: "exec_of db c k = Some e" "exec_final (exec_status e)"
  then obtain e1 where e1: "exec_of db1 c k = Some e1" "same_conclusion e e1" using keptD(2) [OF assms(1)] by blast
  then have "exec_final (exec_status e1)" using e(2) by (simp add: same_conclusion_def)
  then obtain e2 where "exec_of db2 c k = Some e2" "same_conclusion e1 e2"
    using keptD(2) [OF assms(2) e1(1)] by blast
  then show "\<exists>e'. exec_of db2 c k = Some e' \<and> same_conclusion e e'" using same_trans(1) [OF e1(2)] by blast
qed (simp_all add: keptD [OF assms(1)] keptD [OF assms(2)])

lemma deliveredD:
  "deliveries_kept db db' \<Longrightarrow> s \<in> set (steps_of db c k) \<Longrightarrow> step_status s = StepSucceeded \<Longrightarrow>
     \<exists>s' \<in> set (steps_of db' c k). same_delivery s s'"
  by (simp add: deliveries_kept_def)

lemma delivered_trans:
  assumes "deliveries_kept db db1" "deliveries_kept db1 db2"
  shows "deliveries_kept db db2"
  unfolding deliveries_kept_def
proof (intro allI impI, elim conjE)
  fix c k s
  assume s: "s \<in> set (steps_of db c k)" "step_status s = StepSucceeded"
  then obtain s1 where s1: "s1 \<in> set (steps_of db1 c k)" "same_delivery s s1"
    using deliveredD [OF assms(1)] by blast
  then have "step_status s1 = StepSucceeded" using s(2) by (simp add: same_delivery_def)
  with s1(1) obtain s2 where "s2 \<in> set (steps_of db2 c k)" "same_delivery s1 s2"
    using deliveredD [OF assms(2)] by blast
  then show "\<exists>s' \<in> set (steps_of db2 c k). same_delivery s s'" using same_trans(2) [OF s1(2)] by blast
qed

lemma log_extends_refl: "log_extends db db"
  by (simp add: log_extends_def)

lemma log_extends_trans: "log_extends db db1 \<Longrightarrow> log_extends db1 db2 \<Longrightarrow> log_extends db db2"
  unfolding log_extends_def by (elim exE conjE) simp

lemma runs_extend_trans: "runs_extend db db1 \<Longrightarrow> runs_extend db1 db2 \<Longrightarrow> runs_extend db db2"
  unfolding runs_extend_def by (elim exE) simp

lemma advances_refl [simp, intro]: "advances db db"
  by (simp add: advances_def kept_refl log_extends_refl runs_extend_def storages_kept_def)

lemma advances_trans: "advances db db1 \<Longrightarrow> advances db1 db2 \<Longrightarrow> advances db db2"
  using log_extends_trans [of db db1 db2] runs_extend_trans [of db db1 db2] kept_trans [of db db1 db2]
    delivered_trans [of db db1 db2]
  by (simp add: advances_def storages_kept_def)

subsection \<open>Statements\<close>

named_theorems adv

text \<open>A statement that leaves the log, the trunk, the axis look-ups and the steps alone.\<close>

lemma advances_same:
  assumes "advances db X" "review_run_events Y = review_run_events X" "review_runs Y = review_runs X"
    "prep_of Y = prep_of X" "exec_of Y = exec_of X" "pub_of Y = pub_of X" "steps_of Y = steps_of X"
  shows "advances db Y"
  using assms(1) unfolding advances_defs assms(2-7) .

lemma adv_quiet [adv]:
  assumes "advances db X"
  shows "advances db (queueRunNotice now c k ev kd ax rc X)"
    "advances db (supersedeRunAttentionNotices now c k ax X)"
    "advances db (upd_notice qn g X)" "advances db (upd_cand c k qc fc X)"
    "advances db (X\<lparr>input_bundle_candidates := cs\<rparr>)"
  by (rule advances_same [OF assms]; simp add: fun_eq_iff prep_of_def exec_of_def pub_of_def steps_of_def)+

lemma adv_step:
  assumes "advances db X" "log_extends X Y" "runs_extend X Y" "conclusions_kept X Y" "deliveries_kept X Y"
    "storages_kept X Y"
  shows "advances db Y"
  using assms by (intro advances_trans [OF assms(1)]) (simp add: advances_def)

lemma adv_log [adv]:
  assumes "advances db X" "legal ax f t"
  shows "advances db (logEvent now c k ax f t rc X)"
proof (rule adv_step [OF assms(1)])
  show "log_extends X (logEvent now c k ax f t rc X)"
    using assms(2) by (simp add: log_extends_def logEvent_def appendEvent_def legal_event_def)
qed (use kept_refl [of X] in \<open>simp_all add: runs_extend_def conclusions_kept_def deliveries_kept_def
    storages_kept_def storages_ok_def\<close>)

lemma adv_upd_prep [adv]:
  assumes "advances db X" "keeps prep_run_id prep_connector_id f" "\<And>p. q p \<Longrightarrow> \<not> prep_final (prep_status p)"
  shows "advances db (upd_prep c k q f X)"
proof (rule adv_step [OF assms(1)])
  show "conclusions_kept X (upd_prep c k q f X)"
    by (rule keptI) (use assms(2,3) in \<open>auto intro: same_refl\<close>)
qed (use kept_refl [of X] in \<open>simp_all add: log_extends_def runs_extend_def deliveries_kept_def
    storages_kept_def storages_ok_def\<close>)

lemma adv_upd_exec [adv]:
  assumes "advances db X" "keeps exec_run_id exec_connector_id f"
    "\<And>e. q e \<Longrightarrow> exec_final (exec_status e) \<Longrightarrow> same_conclusion e (f e)"
    "\<And>e. q e \<Longrightarrow> storage_readable e \<Longrightarrow> storage_readable (f e)"
  shows "advances db (upd_exec c k q f X)"
proof (rule adv_step [OF assms(1)])
  show "storages_kept X (upd_exec c k q f X)"
    using assms(2,4) by (auto simp: storages_kept_def storages_ok_def)
  show "conclusions_kept X (upd_exec c k q f X)"
  proof (rule keptI)
    fix c' k' e
    assume e: "exec_of X c' k' = Some e" "exec_final (exec_status e)"
    then have "exec_of (upd_exec c k q f X) c' k' = Some (if c' = c \<and> k' = k \<and> q e then f e else e)"
      using assms(2) by auto
    then show "\<exists>e'. exec_of (upd_exec c k q f X) c' k' = Some e' \<and> same_conclusion e e'"
      using assms(3) [OF _ e(2)] by auto
  qed simp_all
qed (use kept_refl [of X] in \<open>simp_all add: log_extends_def runs_extend_def deliveries_kept_def
    storages_kept_def storages_ok_def\<close>)

lemma adv_upd_pub [adv]:
  assumes "advances db X" "keeps pub_run_id pub_connector_id f" "\<And>b. q b \<Longrightarrow> \<not> pub_final (pub_status b)"
  shows "advances db (upd_pub c k q f X)"
proof (rule adv_step [OF assms(1)])
  show "conclusions_kept X (upd_pub c k q f X)"
    by (rule keptI) (use assms(2,3) in \<open>auto intro: same_refl\<close>)
qed (use kept_refl [of X] in \<open>simp_all add: log_extends_def runs_extend_def deliveries_kept_def
    storages_kept_def storages_ok_def\<close>)

lemma adv_upd_step [adv]:
  assumes "advances db X" "keeps step_run_id step_connector_id f"
    "\<And>s. q s \<Longrightarrow> step_status s = StepSucceeded \<Longrightarrow> same_delivery s (f s)"
  shows "advances db (upd_step c k q f X)"
proof (rule adv_step [OF assms(1)])
  show "deliveries_kept X (upd_step c k q f X)"
    unfolding deliveries_kept_def
  proof (intro allI impI, elim conjE)
    fix c' k' s
    assume s: "s \<in> set (steps_of X c' k')" "step_status s = StepSucceeded"
    show "\<exists>s' \<in> set (steps_of (upd_step c k q f X) c' k'). same_delivery s s'"
    proof (cases "c' = c \<and> k' = k")
      case True
      then have "(if q s then f s else s) \<in> set (steps_of (upd_step c k q f X) c' k')"
        using s(1) assms(2) by auto
      then show ?thesis using assms(3) [OF _ s(2)] by (intro bexI) auto
    next
      case False
      then have "s \<in> set (steps_of (upd_step c k q f X) c' k')" using s(1) assms(2) by auto
      then show ?thesis by (intro bexI) auto
    qed
  qed
qed (use kept_refl [of X] in \<open>simp_all add: log_extends_def runs_extend_def conclusions_kept_def
    storages_kept_def storages_ok_def\<close>)

lemma adv_insert_steps [adv]:
  assumes "advances db X" shows "advances db (insert_steps ss X)"
proof (rule adv_step [OF assms])
  show "deliveries_kept X (insert_steps ss X)"
    unfolding deliveries_kept_def by (auto intro!: bexI same_refl)
qed (use kept_refl [of X] in \<open>simp_all add: log_extends_def runs_extend_def conclusions_kept_def insert_steps_def [abs_def]
      storages_kept_def storages_ok_def prep_of_def exec_of_def pub_of_def\<close>)

lemma adv_admitted [adv]:
  assumes "advances db X" "storage_readable e" shows "advances db (insert_axes r p e b X)"
proof (rule adv_step [OF assms(1)])
  show "storages_kept X (insert_axes r p e b X)"
    using assms(2) by (auto simp: storages_kept_def storages_ok_def split: option.splits)
  show "conclusions_kept X (insert_axes r p e b X)" by (rule keptI) auto
  show "deliveries_kept X (insert_axes r p e b X)" using kept_refl(2) [of X] by (simp add: deliveries_kept_def)
  show "log_extends X (insert_axes r p e b X)" by (simp add: log_extends_def insert_axes_def)
qed (simp add: runs_extend_def)

subsection \<open>Compound statements\<close>

lemma adv_tx:
  "(\<And>a s'. m db = Inr (a, s') \<Longrightarrow> advances db s') \<Longrightarrow> advances db (snd (transaction m db))"
  by (rule transaction_preserves [where I = "advances db"]) simp_all

lemma pick_D:
  "pick_prep c k qp db = Some p \<Longrightarrow> qp p" "pick_exec c k qe db = Some e \<Longrightarrow> qe e" "pick_pub c k qb db = Some b \<Longrightarrow> qb b"
  by (auto simp: pick_prep_def pick_exec_def pick_pub_def pick_row_def dest: find_SomeD)

lemma adv_if [adv]: "(P \<Longrightarrow> advances db X) \<Longrightarrow> (\<not> P \<Longrightarrow> advances db Y) \<Longrightarrow> advances db (if P then X else Y)"
  by simp

lemma adv_abandon [adv]:
  "advances db X \<Longrightarrow> advances db (snd (abandonInFlightPublication now c k X))"
  unfolding abandonInFlightPublication_def Let_def snd_conv
  by (intro adv) (auto simp: in_flight_def final_defs skipped_publication_def released_step_def same_delivery_def)

lemma abandon_origin:
  "fst (abandonInFlightPublication now c k X) = Some st \<Longrightarrow> st = PubPending \<or> st = PubPublishing"
  by (auto simp: abandon_fst in_flight_def dest!: pick_D)

lemma adv_logAbandoned [adv]:
  assumes "advances db X" "\<And>s. st = Some s \<Longrightarrow> s = PubPending \<or> s = PubPublishing"
  shows "advances db (logAbandoned now c k st X)"
  using assms by (cases st) (auto simp: logAbandoned_def declared_edges intro!: adv)

lemma adv_concludePublication [adv]:
  "advances db X \<Longrightarrow> advances db (concludePublication now c k X)"
  unfolding concludePublication_def Let_def split_beta by (intro adv abandon_origin)

lemma adv_logFailure [adv]:
  "advances db X \<Longrightarrow> legal ax (Some f) t \<Longrightarrow> advances db (logFailure now c k ax f t code X)"
  unfolding logFailure_def Let_def split_beta snd_appendEvent by (intro adv)

lemma same_storage [simp]:
  "exec_artifact_storage (skipped_execution now e) = exec_artifact_storage e"
  "exec_artifact_storage (queued_execution now e) = exec_artifact_storage e"
  "exec_artifact_storage (given_up_execution now code r e) = exec_artifact_storage e"
  by (simp_all add: skipped_execution_def queued_execution_def given_up_execution_def)

lemma adv_skip [adv]:
  "advances db X \<Longrightarrow> advances db (snd (skipPendingExecutions now c [k] X))"
  unfolding snd_skipped_one by (intro adv) (simp_all add: final_defs)

lemmas adv_simps = Let_def split_beta declared_edges undeclared_def final_defs in_flight_def

subsection \<open>Executions\<close>

lemma adv_touchObservation: "advances db (snd (touchObservation cfg now k db))"
  unfolding touchObservation_def snd_conv by (intro adv advances_refl) (auto simp: final_defs)

lemma adv_markRunning: "advances db (snd (markRunning cfg now k db))"
  unfolding markRunning_def
  by (rule adv_tx) (auto simp: adv_simps split: if_splits intro!: adv)

lemma storage_arg_readable: "storage_arg k st = Inr v \<Longrightarrow> pred_option storage_ok v"
  by (auto simp: storage_arg_def split: option.splits dest: normalize_storage_readable)

lemma adv_recordArtifactStorage: "advances db (snd (recordArtifactStorage cfg now k st db))"
  by (auto simp: recordArtifactStorage_def same_conclusion_def split: option.split sum.split intro!: adv
      dest: normalize_storage_readable)

lemma adv_recordExecutionSuccess: "advances db (snd (recordExecutionSuccess cfg now k res st db))"
  unfolding recordExecutionSuccess_def
  by (rule adv_tx) (auto simp: adv_simps split: sum.splits option.splits dest!: pick_D intro!: adv
      dest: storage_arg_readable)

lemma adv_claimSubmissionRecovery: "advances db (snd (claimSubmissionRecovery cfg now tok k db))"
  unfolding claimSubmissionRecovery_def
  by (rule adv_tx) (auto simp: adv_simps recovery_claimable_def split: if_splits intro!: adv)

lemma adv_resumeSubmissionRecoveryOn: "advances db (snd (resumeDisconnectedSubmissionRecoveryOn cfg now k db))"
  unfolding resumeDisconnectedSubmissionRecoveryOn_def
  by (auto simp: adv_simps intro!: adv)

lemma adv_disconnectExhausted: "advances db (snd (disconnectExhaustedSubmissionRecovery cfg now k m db))"
  unfolding disconnectExhaustedSubmissionRecovery_def
  by (rule adv_tx) (auto simp: adv_simps recovery_claimable_def split: if_splits intro!: adv)

lemma adv_recordUnknownRecoveryOutcome: "advances db (snd (recordUnknownRecoveryOutcome cfg now k tok db))"
  unfolding recordUnknownRecoveryOutcome_def
  by (rule adv_tx) (auto simp: adv_simps owns_recovery_def intro!: adv)

lemma adv_failExecution: "advances db (snd (failExecution cfg now k err st db))"
  unfolding failExecution_def
  by (rule adv_tx)
    (auto simp: adv_simps split: sum.splits option.splits dest!: pick_D intro!: adv
      dest: abandon_origin storage_arg_readable)

subsection \<open>Admission, candidates, notices\<close>

lemma adv_create: "keys_ok db \<Longrightarrow> advances db (snd (create cfg platform now tok run db))"
  unfolding create_def
  by (rule adv_tx) (auto simp: admitted_db_def admitted_execution_def dest!: insertWith_result intro!: adv)

lemma adv_admit:
  assumes "keys_ok db" shows "advances db (snd (admit cfg platform now tok run kind key seen db))"
proof -
  let ?m = "\<lambda>db. case findByIngress cfg kind key seen of
      None \<Rightarrow> insertWith cfg platform now tok (run\<lparr>ca_ingress_kind := Some kind, ca_ingress_key := Some key\<rparr>) db
    | Some row \<Rightarrow> (case replayed row of Inl err \<Rightarrow> Inl err | Inr a \<Rightarrow> Inr (a, db))"
  have "advances db (snd (transaction ?m db))"
    by (rule adv_tx)
      (use assms in \<open>auto simp: admitted_db_def admitted_execution_def dest!: insertWith_result
        split: option.splits sum.splits intro!: adv\<close>)
  then show ?thesis by (auto simp: admit_def Let_def split_beta split: sum.split option.split)
qed

lemma adv_reserve: "advances db (snd (reserve parse_url cfg now k tok intent db))"
proof -
  have "advances db (snd (transaction (reserve_tx cfg now k tok intent) db))"
    by (rule adv_tx) (auto simp: reserve_tx_def Let_def split: sum.splits option.splits if_splits intro!: adv)
  then show ?thesis by (simp add: reserve_def split: sum.split)
qed

lemma adv_settleCandidate: "advances db (snd (settleCandidate cfg now k tok d st db))"
  unfolding settleCandidate_def
  by (rule adv_tx) (auto simp: Let_def split: sum.splits option.splits intro!: adv)

lemma adv_claimNextNotice: "advances db (snd (claimNextNotice cfg now locked tok db))"
  unfolding claimNextNotice_def
  by (rule adv_tx) (auto simp: Let_def split: option.splits if_splits intro!: adv)

lemma adv_completeNotice: "advances db (snd (completeNotice cfg now nid tok d url db))"
  by (auto simp: completeNotice_def transaction_def intro!: adv)

lemma adv_renewNoticeClaim: "advances db (snd (renewNoticeClaim cfg now nid tok db))"
  by (auto simp: renewNoticeClaim_def intro!: adv)

subsection \<open>Preparations and submissions\<close>

lemma adv_renewPreparationClaim: "advances db (snd (renewPreparationClaim cfg now k tok db))"
  by (auto simp: renewPreparationClaim_def live_preparer_def adv_simps intro!: adv)

lemma adv_checkpointInput: "advances db (snd (checkpointInput cfg now k tok inp db))"
  by (auto simp: checkpointInput_def preparer_def adv_simps intro!: adv)

lemma adv_claimNext: "advances db (snd (claimNext cfg now locked tok db))"
  unfolding claimNext_def
  by (rule adv_tx)
    (auto simp: adv_simps preparation_claimable_def dest!: preparation_candidateD(2) split: option.splits if_splits
      intro!: adv)

lemma adv_concludeExpiry:
  assumes "concludeExpiry cfg now k n db0 = Inr (u, db')" "advances db db0"
  shows "advances db db'"
  using assms
  by (auto simp: concludeExpiry_def adv_simps abandonInFlightPublications_one split: option.splits if_splits
      intro!: adv dest: abandon_origin)

lemma adv_blockExpiry: "advances db X \<Longrightarrow> advances db (blockExpiry cfg now k reason X)"
  by (auto simp: blockExpiry_def adv_simps intro!: adv)

lemma adv_expireRows:
  "expireRows cfg now ps acc db0 = Inr (r, db') \<Longrightarrow> advances db db0 \<Longrightarrow> advances db db'"
proof (induction cfg now ps acc db0 rule: expireRows.induct)
  case (2 cfg now cand rest acc db0)
  then show ?case
    by (auto split: sum.splits prod.splits rr_error.splits dest: adv_concludeExpiry adv_blockExpiry)
qed simp

lemma adv_expireStale: "advances db (snd (expireStale cfg now locked db))"
  unfolding expireStale_def by (rule adv_tx) (auto dest: adv_expireRows)

lemma adv_schedule_retry [adv]: "advances db X \<Longrightarrow> advances db (snd (schedule_retry cfg now k tok err after X))"
  by (auto simp: schedule_retry_def preparer_def adv_simps intro!: adv)

lemma adv_conclude_execution [adv]:
  "advances db X \<Longrightarrow> advances db (snd (conclude_execution cfg now k u err X))"
  by (auto simp: conclude_execution_def adv_simps intro!: adv)

lemma adv_terminal_failure:
  assumes "terminal_failure cfg now k tok err db0 = Inr (a, db')" "advances db db0"
  shows "advances db db'"
  using assms
  by (auto simp: terminal_failure_def adv_simps preparer_def split: if_splits intro!: adv dest: abandon_origin)

lemma adv_failPreparation: "advances db (snd (failPreparation cfg now k tok err retry after db))"
  unfolding failPreparation_def
  by (rule adv_tx)
    (auto simp: adv_simps split: if_splits intro!: adv dest!: adv_terminal_failure [where db = db])

lemma adv_savePreparedSubmission: "advances db (snd (savePreparedSubmission cfg now k tok context inp db))"
  unfolding savePreparedSubmission_def
  by (rule adv_tx)
    (auto simp: savePrepared_tx_def adv_simps split: sum.splits if_splits intro!: adv)

lemma adv_markQueued: "advances db (snd (markQueued cfg now k tok context db))"
  unfolding markQueued_def
  by (rule adv_tx)
    (auto simp: adv_simps holds_preparation_def split: option.splits if_splits intro!: adv)

lemma adv_completeSubmissionRecovery: "advances db (snd (completeSubmissionRecovery cfg now k tok db))"
  unfolding completeSubmissionRecovery_def
  by (rule adv_tx) (auto simp: adv_simps owns_recovery_def split: if_splits intro!: adv)

lemma adv_failSubmissionRecovery: "advances db (snd (failSubmissionRecovery cfg now k tok err db))"
  unfolding failSubmissionRecovery_def
  by (rule adv_tx)
    (auto simp: adv_simps owns_recovery_def split: if_splits intro!: adv dest: abandon_origin)

subsection \<open>Publications\<close>

text \<open>A parked publication has a parked step, so deriving never leaves \<^verbatim>\<open>disconnected\<close>.\<close>

definition parked :: "db \<Rightarrow> string \<Rightarrow> string \<Rightarrow> bool" where
  "parked db c k \<longleftrightarrow>
     (\<forall>b. pick_pub c k (\<lambda>b. pub_status b \<in> pub_active) db = Some b \<longrightarrow> pub_status b = PubDisconnected \<longrightarrow>
        (\<exists>s \<in> set (steps_of db c k). step_status s = StepDisconnected))"

lemma parked_inv:
  assumes "db_inv db" shows "parked db c k"
  unfolding parked_def
proof (intro allI impI)
  fix b
  assume b: "pick_pub c k (\<lambda>b. pub_status b \<in> pub_active) db = Some b" "pub_status b = PubDisconnected"
  then have "pub_of db c k = Some b" by (simp add: pick_axis_Some [OF invD(1) [OF assms]])
  with b(2) show "\<exists>s \<in> set (steps_of db c k). step_status s = StepDisconnected"
    using invD(3) [OF assms, of c k] by (auto elim!: run_okE simp: steps_ok_def)
qed

lemma parked_upd_step:
  assumes "parked db c k" "keeps step_run_id step_connector_id f" "\<And>s. q s \<Longrightarrow> step_status s \<noteq> StepDisconnected"
  shows "parked (upd_step c k q f db) c k"
proof -
  have "pick_pub c k (\<lambda>b. pub_status b \<in> pub_active) (upd_step c k q f db) = pick_pub c k (\<lambda>b. pub_status b \<in> pub_active) db"
    by (simp add: pick_pub_def upd_step_def)
  moreover have "(\<exists>s \<in> set (steps_of db c k). step_status s = StepDisconnected) \<Longrightarrow>
      (\<exists>s \<in> set (steps_of (upd_step c k q f db) c k). step_status s = StepDisconnected)"
    using assms(2,3) by fastforce
  ultimately show ?thesis using assms(1) by (simp add: parked_def)
qed

lemma derived_edge:
  assumes "st \<in> pub_active" "derived_status ss st \<noteq> st"
    "st = PubDisconnected \<Longrightarrow> \<exists>s \<in> set ss. step_status s = StepDisconnected"
  shows "legal AxisPublication (Some (PubS st)) (PubS (derived_status ss st))"
  using assms by (auto simp: derived_status_def declared_edges undeclared_def split: if_splits)

lemma adv_derive:
  assumes "advances db X" "parked X c k"
  shows "advances db (derivePublicationStatus now c k X)"
proof (cases "pick_pub c k (\<lambda>b. pub_status b \<in> pub_active) X")
  case None
  with assms(1) show ?thesis by (simp add: derivePublicationStatus_def)
next
  case (Some b)
  let ?to = "derived_status (steps_of X c k) (pub_status b)"
  have "legal AxisPublication (Some (PubS (pub_status b))) (PubS ?to)" if "pub_status b \<noteq> ?to"
    using derived_edge [of "pub_status b" "steps_of X c k"] that pick_D(3) [OF Some] assms(2) Some
    by (auto simp: parked_def)
  with assms(1) Some show ?thesis
    by (auto simp: derivePublicationStatus_def Let_def split_beta final_defs simp del: legal.simps intro!: adv)
qed

lemma adv_renewPublicationClaim: "advances db (snd (renewPublicationClaim cfg now k tok db))"
  by (auto simp: renewPublicationClaim_def publisher_def adv_simps intro!: adv)

lemma adv_resumePublicationOn: "advances db (snd (resumeDisconnectedPublicationOn cfg now k db))"
  unfolding resumeDisconnectedPublicationOn_def
  by (auto simp: adv_simps reopened_step_def split: option.split dest!: pick_D intro!: adv)

lemma adv_completePublication: "advances db (snd (completePublication cfg now k tok db))"
  unfolding completePublication_def
  by (rule adv_tx) (auto simp: adv_simps publisher_def split: if_splits intro!: adv)

lemma adv_failPublication: "advances db (snd (failPublication cfg now k tok err retry db))"
  unfolding failPublication_def
  by (rule adv_tx) (auto simp: adv_simps publisher_def split: if_splits intro!: adv)

lemma adv_initializePublicationSteps: "advances db (snd (initializePublicationSteps cfg now k tok keys db))"
proof -
  have "advances db (X\<lparr>publication_steps := publication_steps X @ ss\<rparr>)" if "advances db X" for X ss
    using adv_insert_steps [OF that] by (simp add: insert_steps_def)
  then show ?thesis
    by (auto simp: initializePublicationSteps_def Let_def transaction_def)
qed

lemma adv_claimPublicationStep: "advances db (snd (claimPublicationStep cfg now k tok key db))"
  unfolding claimPublicationStep_def
  by (rule adv_tx) (auto simp: adv_simps step_claimable_def split: if_splits intro!: adv)

lemma adv_exhaustion_tx:
  assumes "exhaustion_tx cfg now k tok key db0 = Inr (n, db')" "advances db db0" "parked db0 (connectorId cfg) k"
  shows "advances db db'"
proof -
  have "db' = derivePublicationStatus now (connectorId cfg) k
      (if n then upd_step (connectorId cfg) k (\<lambda>s. step_key s = key \<and> step_status s \<in> {StepFailed, StepRunning} \<and>
          MAX_PUBLICATION_STEP_ATTEMPTS \<le> step_attempt_count s) (uncertain_step now) db0 else db0)"
    using assms(1) by (auto simp: exhaustion_tx_def Let_def)
  then show ?thesis using assms(2,3) by (auto intro!: adv_derive adv parked_upd_step)
qed

lemma adv_requirePublicationStepClaim:
  assumes "db_inv db" shows "advances db (snd (requirePublicationStepClaim cfg now k tok key db))"
proof -
  let ?db1 = "snd (claimPublicationStep cfg now k tok key db)"
  have "advances db (snd (transaction (exhaustion_tx cfg now k tok key) ?db1))"
  proof (rule transaction_preserves [where I = "advances db"])
    show "advances db ?db1" by (rule adv_claimPublicationStep)
    show "advances db s'" if "exhaustion_tx cfg now k tok key ?db1 = Inr (a, s')" for a s'
      using that by (rule adv_exhaustion_tx)
        (rule adv_claimPublicationStep, rule parked_inv, rule claimPublicationStep_inv, rule assms)
  qed
  then show ?thesis
    using adv_claimPublicationStep [of db cfg now k tok key]
    by (auto simp: requirePublicationStepClaim_def split: prod.splits sum.splits)
qed

lemma adv_settleExhausted:
  assumes "db_inv db" shows "advances db (snd (settleExhaustedPublicationStep cfg now k tok key out db))"
  unfolding settleExhaustedPublicationStep_def
  by (rule adv_tx)
    (auto simp: Let_def split: if_splits settle_outcome.splits
      intro!: adv_derive adv parked_upd_step parked_inv [OF assms])

lemma adv_completePublicationStep: "advances db (snd (completePublicationStep cfg now k tok key rid url db))"
  unfolding completePublicationStep_def
  by (rule adv_tx) (auto simp: adv_simps split: if_splits intro!: adv)

lemma adv_failPublicationStep:
  assumes "db_inv db" shows "advances db (snd (failPublicationStep cfg now k tok key err retry db))"
  unfolding failPublicationStep_def
  by (rule adv_tx)
    (auto simp: adv_simps publisher_def split: if_splits option.splits dest!: pick_D
      intro!: adv_derive adv parked_upd_step parked_inv [OF assms])

lemma claim_edge:
  "publication_open cfg now b \<Longrightarrow> legal AxisPublication (Some (PubS (pub_status b))) (PubS PubPublishing)"
  by (auto simp: publication_open_def declared_edges)

lemma adv_claimPublication: "advances db (snd (claimPublication cfg now tok k db))"
  unfolding claimPublication_def
  by (rule adv_tx)
    (auto simp: Let_def appendClaimEvent_def publication_open_def final_defs declared_edges split: option.splits
      dest!: pick_D intro!: adv)

lemma adv_claimNextOnce: "advances db (snd (claimNextOnce cfg now locked tok db))"
  unfolding claimNextOnce_def
  by (rule adv_tx)
    (auto simp: Let_def appendClaimEvent_def publication_open_def final_defs declared_edges
      split: option.splits sum.splits if_splits dest!: publication_candidateD(4) intro!: adv)

subsection \<open>Operator decisions\<close>

lemma adv_resumePublication: "advances db (snd (resumeDisconnectedPublication cfg now k db))"
  unfolding resumeDisconnectedPublication_def
  by (rule adv_tx) (auto simp: split_beta dest!: decided_db split: if_splits intro: adv_resumePublicationOn)

lemma adv_resumeExecution: "advances db (snd (resumeDisconnectedExecution cfg now k db))"
  unfolding resumeDisconnectedExecution_def
  by (rule adv_tx) (auto simp: split_beta dest!: decided_db split: if_splits intro: adv_resumeSubmissionRecoveryOn)

lemma adv_resumePreparation: "advances db (snd (resumeDisconnectedPreparation cfg now k db))"
  unfolding resumeDisconnectedPreparation_def
  by (rule adv_tx) (auto simp: adv_simps dest!: decided_db split: if_splits intro!: adv)

lemma adv_resumeDisconnectedRun: "advances db (snd (resumeDisconnectedRun cfg now k seen db))"
  by (simp add: resumeDisconnectedRun_def adv_resumePublication adv_resumeExecution adv_resumePreparation
      split: sum.split option.split)

lemma adv_giveUpPreparation: "advances db (snd (giveUpDisconnectedPreparation cfg now k reason db))"
  unfolding giveUpDisconnectedPreparation_def
  by (rule adv_tx)
    (auto simp: adv_simps given_up_preparation_def dest!: decided_db split: if_splits intro!: adv)

lemma adv_giveUpExecution: "advances db (snd (giveUpDisconnectedExecution cfg now k reason db))"
  unfolding giveUpDisconnectedExecution_def
  by (rule adv_tx) (auto simp: adv_simps dest!: decided_db split: if_splits intro!: adv)

lemma adv_giveUpPublication: "advances db (snd (giveUpDisconnectedPublication cfg now k reason db))"
  unfolding giveUpDisconnectedPublication_def
  by (rule adv_tx) (auto simp: adv_simps dest!: decided_db split: if_splits intro!: adv)

lemma adv_giveUpDisconnectedRun: "advances db (snd (giveUpDisconnectedRun cfg now k reason seen db))"
  by (simp add: giveUpDisconnectedRun_def adv_giveUpPublication adv_giveUpExecution adv_giveUpPreparation
      split: sum.split option.split)

lemma adv_abandonBlockedPreparation:
  "db_inv db \<Longrightarrow> advances db (snd (abandonBlockedPreparation cfg now k reason db))"
  using preparation_decisions_409(3) [of db reason cfg now k]
  by (cases "blank reason") (simp_all add: abandonBlockedPreparation_def)

end
