(* ===== verification/Lifecycle.thy ===== *)
theory Lifecycle
  imports Progress Systems
begin

text \<open>
  The life of the store: \<open>store_step\<close> has one rule per state-changing operation of the persistence layer, called
  by any process with any arguments (any connector, any clock reading, any token), each operation atomic except
  \<open>requirePublicationStepClaim\<close>, whose two transactions are also steps of their own because another writer may
  come between them. \<open>reachable\<close> are the states these calls lead to from the empty schema. Everything below holds for
  every interleaving of the calls.
\<close>

inductive store_step :: "db \<Rightarrow> db \<Rightarrow> bool" where
  create: "store_step db (snd (create cfg platform now tok run db))"
| admit: "store_step db (snd (admit cfg platform now tok run kind key seen db))"
| reserve: "store_step db (snd (reserve parse_url cfg now k tok intent db))"
| settleCandidate: "store_step db (snd (settleCandidate cfg now k tok d settlement db))"
| claimNext: "store_step db (snd (claimNext cfg now locked tok db))"
| renewPreparationClaim: "store_step db (snd (renewPreparationClaim cfg now k tok db))"
| checkpointInput: "store_step db (snd (checkpointInput cfg now k tok inp db))"
| expireStale: "store_step db (snd (expireStale cfg now locked db))"
| failPreparation: "store_step db (snd (failPreparation cfg now k tok err retry after db))"
| savePreparedSubmission: "store_step db (snd (savePreparedSubmission cfg now k tok context inp db))"
| markQueued: "store_step db (snd (markQueued cfg now k tok context db))"
| completeSubmissionRecovery: "store_step db (snd (completeSubmissionRecovery cfg now k tok db))"
| failSubmissionRecovery: "store_step db (snd (failSubmissionRecovery cfg now k tok err db))"
| touchObservation: "store_step db (snd (touchObservation cfg now k db))"
| markRunning: "store_step db (snd (markRunning cfg now k db))"
| recordArtifactStorage: "store_step db (snd (recordArtifactStorage cfg now k storage db))"
| recordExecutionSuccess: "store_step db (snd (recordExecutionSuccess cfg now k result storage db))"
| failExecution: "store_step db (snd (failExecution cfg now k err storage db))"
| claimSubmissionRecovery: "store_step db (snd (claimSubmissionRecovery cfg now tok k db))"
| recordUnknownRecoveryOutcome: "store_step db (snd (recordUnknownRecoveryOutcome cfg now k tok db))"
| disconnectExhausted: "store_step db (snd (disconnectExhaustedSubmissionRecovery cfg now k n db))"
| claimPublication: "store_step db (snd (claimPublication cfg now tok k db))"
| claimNextOnce: "store_step db (snd (claimNextOnce cfg now locked tok db))"
| renewPublicationClaim: "store_step db (snd (renewPublicationClaim cfg now k tok db))"
| completePublication: "store_step db (snd (completePublication cfg now k tok db))"
| failPublication: "store_step db (snd (failPublication cfg now k tok err retry db))"
| initializePublicationSteps: "store_step db (snd (initializePublicationSteps cfg now k tok keys db))"
| claimPublicationStep: "store_step db (snd (claimPublicationStep cfg now k tok key db))"
| exhaustion: "store_step db (snd (transaction (exhaustion_tx cfg now k tok key) db))"
| requirePublicationStepClaim: "store_step db (snd (requirePublicationStepClaim cfg now k tok key db))"
| settleExhaustedPublicationStep: "store_step db (snd (settleExhaustedPublicationStep cfg now k tok key outcome db))"
| completePublicationStep: "store_step db (snd (completePublicationStep cfg now k tok key rid url db))"
| failPublicationStep: "store_step db (snd (failPublicationStep cfg now k tok key err retryOpt db))"
| abandonBlockedPreparation: "store_step db (snd (abandonBlockedPreparation cfg now k reason db))"
| resumeDisconnectedRun: "store_step db (snd (resumeDisconnectedRun cfg now k seen db))"
| giveUpDisconnectedRun: "store_step db (snd (giveUpDisconnectedRun cfg now k reason seen db))"
| claimNextNotice: "store_step db (snd (claimNextNotice cfg now noticeLocked tok db))"
| completeNotice: "store_step db (snd (completeNotice cfg now nid tok delivered commentUrl db))"
| renewNoticeClaim: "store_step db (snd (renewNoticeClaim cfg now nid tok db))"

definition reachable :: "db \<Rightarrow> bool" where
  "reachable db \<longleftrightarrow> store_step\<^sup>*\<^sup>* empty_db db"

subsection \<open>The store keeps its invariant\<close>

lemma empty_db_inv: "db_inv empty_db"
  by (auto simp: empty_db_def db_inv_def keys_ok_def ids_ok_def run_ok_def run_defs prep_of_def exec_of_def pub_of_def
      steps_of_def cands_of_def rows_at_def select_row_def axis_events_def notice_rows_def)

lemma store_step_inv: "store_step db db' \<Longrightarrow> db_inv db \<Longrightarrow> db_inv db'"
proof (induction rule: store_step.induct)
  case (exhaustion db cfg now k tok key)
  then show ?case by (rule transaction_preserves [where I = db_inv]) (rule exhaustion_tx_inv [OF exhaustion])
qed (simp_all add: create_inv admit_inv reserve_inv settleCandidate_inv claimNext_inv renewPreparationClaim_inv
    checkpointInput_inv expireStale_inv failPreparation_inv savePreparedSubmission_inv markQueued_inv
    completeSubmissionRecovery_inv failSubmissionRecovery_inv touchObservation_inv markRunning_inv
    recordArtifactStorage_inv recordExecutionSuccess_inv failExecution_inv claimSubmissionRecovery_inv
    recordUnknownRecoveryOutcome_inv disconnectExhausted_inv claimPublication_inv claimNextOnce_inv
    renewPublicationClaim_inv completePublication_inv failPublication_inv initializePublicationSteps_inv
    claimPublicationStep_inv requirePublicationStepClaim_inv settleExhaustedPublicationStep_inv
    completePublicationStep_inv failPublicationStep_inv abandonBlockedPreparation_inv resumeDisconnectedRun_inv
    giveUpDisconnectedRun_inv claimNextNotice_inv completeNotice_inv renewNoticeClaim_inv)

lemma store_step_advances: "store_step db db' \<Longrightarrow> db_inv db \<Longrightarrow> advances db db'"
proof (induction rule: store_step.induct)
  case (exhaustion db cfg now k tok key)
  then show ?case
    by (intro adv_tx) (erule adv_exhaustion_tx [OF _ advances_refl parked_inv], assumption)
qed (simp_all add: adv_create adv_admit invD(1) adv_reserve adv_settleCandidate adv_claimNext
    adv_renewPreparationClaim adv_checkpointInput adv_expireStale adv_failPreparation
    adv_savePreparedSubmission adv_markQueued adv_completeSubmissionRecovery adv_failSubmissionRecovery
    adv_touchObservation adv_markRunning adv_recordArtifactStorage adv_recordExecutionSuccess adv_failExecution
    adv_claimSubmissionRecovery adv_recordUnknownRecoveryOutcome adv_disconnectExhausted adv_claimPublication
    adv_claimNextOnce adv_renewPublicationClaim adv_completePublication adv_failPublication
    adv_initializePublicationSteps adv_claimPublicationStep adv_requirePublicationStepClaim adv_settleExhausted
    adv_completePublicationStep adv_failPublicationStep adv_abandonBlockedPreparation adv_resumeDisconnectedRun
    adv_giveUpDisconnectedRun adv_claimNextNotice adv_completeNotice adv_renewNoticeClaim)

interpretation store: directed_system empty_db store_step db_inv advances
  by unfold_locales
    (auto intro: empty_db_inv store_step_inv advances_trans store_step_advances)

lemma reachable_invD: "reachable db \<Longrightarrow> db_inv db"
  unfolding reachable_def by (rule store.inv_reached)

lemma reachable_empty [simp]: "reachable empty_db"
  by (simp add: reachable_def)

lemma reachable_step: "reachable db \<Longrightarrow> store_step db db' \<Longrightarrow> reachable db'"
  unfolding reachable_def by (rule rtranclp.rtrancl_into_rtrancl)

lemma reachable_log: "reachable db \<Longrightarrow> list_all legal_event (review_run_events db)"
  using store.dir_steps [OF _ empty_db_inv, of db]
  by (auto simp: reachable_def advances_def log_extends_def empty_db_def)

text \<open>One run of a reachable state, with everything the invariant says of it.\<close>

lemma reachable_run:
  assumes "reachable db" "pub_of db c k = Some b"
  obtains p e where "prep_of db c k = Some p" "exec_of db c k = Some e"
    "prep_check p" "prep_budget p" "exec_check e" "pub_check b" "pub_owned b"
    "axes_ok (prep_status p) (exec_status e) (pub_status b)"
    "steps_ok (exec_status e) (pub_status b) (steps_of db c k)"
    "cands_ok (exec_input e) (cands_of db c k)"
    "audit_ok db c k (prep_status p) (exec_status e) (pub_status b)"
    "told_ok (exec_status e) (pub_status b) (notice_rows db c k)"
  using invD(3) [OF reachable_invD [OF assms(1)], of c k] assms(2) by (auto elim!: run_okE)

end
