(* ===== verification/Scenario.thy ===== *)
theory Scenario
  imports Lifecycle
begin

text \<open>
  Concrete histories of the store, from the empty schema: \<open>demo_published\<close> is a run that goes from admission to a
  published result, \<open>demo_parked\<close> one whose publication step is replayed until its budgets are spent and the
  publication parks, \<open>demo_lost\<close> one whose submission stays unconfirmed, \<open>demo_failed\<close> one whose execution
  fails. They are the inputs at which the theorems are instantiated.
\<close>

definition demo_cfg :: store_cfg where
  "demo_cfg = \<lparr>connectorId = ''github:1'', claimTimeoutMs = 1\<rparr>"

lemma demo_connector: "connectorId demo_cfg = ''github:1''"
  by (simp add: demo_cfg_def)

definition demo_input :: json where
  "demo_input = JObj [(''issue'', JStr ''42'')]"

definition demo_run :: create_args where
  "demo_run =
     \<lparr>ca_run_id = ''run-1'', ca_workflow = IssueReview, ca_publish_context = JObj [],
      ca_execution_input = Some demo_input, ca_ingress_kind = Some ''webhook'', ca_ingress_key = Some ''d-1'',
      ca_preparation_input = None, ca_preparation_input_version = None\<rparr>"

definition demo_admitted :: db where
  "demo_admitted = snd (create demo_cfg ''github'' 0 1 demo_run empty_db)"

definition demo_queued :: db where
  "demo_queued = snd (markQueued demo_cfg 1 ''run-1'' 1 (JObj []) demo_admitted)"

definition demo_succeeded :: db where
  "demo_succeeded = snd (recordExecutionSuccess demo_cfg 2 ''run-1'' (Some (JBool True)) None demo_queued)"

definition demo_failed :: db where
  "demo_failed = snd (failExecution demo_cfg 2 ''run-1'' (Some ''EXECUTION_FAILED'', ''boom'') None demo_queued)"

definition demo_claimed :: db where
  "demo_claimed = snd (claimPublication demo_cfg 3 2 ''run-1'' demo_succeeded)"

definition demo_planned :: db where
  "demo_planned = snd (initializePublicationSteps demo_cfg 4 ''run-1'' 2 [''comment''] demo_claimed)"

definition demo_stepping :: db where
  "demo_stepping = snd (claimPublicationStep demo_cfg 5 ''run-1'' 2 ''comment'' demo_planned)"

definition demo_delivered :: db where
  "demo_delivered =
     snd (completePublicationStep demo_cfg 6 ''run-1'' 2 ''comment'' (Some ''99'') None demo_stepping)"

definition demo_published :: db where
  "demo_published = snd (completePublication demo_cfg 7 ''run-1'' 2 demo_delivered)"

text \<open>Three attempts that fail retryably, the exhaustion check, and three failed reconciliations.\<close>

definition demo_retry :: "db \<Rightarrow> db" where
  "demo_retry db =
     snd (failPublicationStep demo_cfg 6 ''run-1'' 2 ''comment'' (Some ''E'', ''timeout'') (Some True)
       (snd (claimPublicationStep demo_cfg 5 ''run-1'' 2 ''comment'' db)))"

definition demo_exhausted :: db where
  "demo_exhausted = demo_retry (demo_retry (demo_retry demo_planned))"

definition demo_uncertain :: db where
  "demo_uncertain = snd (requirePublicationStepClaim demo_cfg 7 ''run-1'' 2 ''comment'' demo_exhausted)"

definition demo_reconcile :: "db \<Rightarrow> db" where
  "demo_reconcile db =
     snd (failPublicationStep demo_cfg 8 ''run-1'' 2 ''comment'' (Some ''E'', ''timeout'') (Some True) db)"

definition demo_parked :: db where
  "demo_parked = demo_reconcile (demo_reconcile (demo_reconcile demo_uncertain))"

text \<open>A submission whose acceptance is unknown, and its replay under a recovery claim.\<close>

definition demo_lost :: db where
  "demo_lost =
     snd (failPreparation demo_cfg 1 ''run-1'' 1 (Some SUBMISSION_STATE_UNCERTAIN, ''no answer'') False None
       demo_admitted)"

definition demo_replaying :: db where
  "demo_replaying = snd (claimSubmissionRecovery demo_cfg 2 3 ''run-1'' demo_lost)"

subsection \<open>They are histories\<close>

lemma demo_reachable [simp]:
  "reachable demo_admitted" "reachable demo_queued" "reachable demo_succeeded" "reachable demo_failed"
  "reachable demo_claimed" "reachable demo_planned" "reachable demo_stepping" "reachable demo_delivered"
  "reachable demo_published"
  unfolding demo_published_def demo_delivered_def demo_stepping_def demo_planned_def demo_claimed_def
    demo_failed_def demo_succeeded_def demo_queued_def demo_admitted_def
  by (intro reachable_step [OF _ store_step.completePublication] reachable_step [OF _ store_step.completePublicationStep]
      reachable_step [OF _ store_step.claimPublicationStep] reachable_step [OF _ store_step.initializePublicationSteps]
      reachable_step [OF _ store_step.claimPublication] reachable_step [OF _ store_step.failExecution]
      reachable_step [OF _ store_step.recordExecutionSuccess] reachable_step [OF _ store_step.markQueued]
      reachable_step [OF _ store_step.create] reachable_empty)+

lemma reachable_retry: "reachable db \<Longrightarrow> reachable (demo_retry db)"
  unfolding demo_retry_def
  by (intro reachable_step [OF _ store_step.failPublicationStep] reachable_step [OF _ store_step.claimPublicationStep])

lemma reachable_reconcile: "reachable db \<Longrightarrow> reachable (demo_reconcile db)"
  unfolding demo_reconcile_def by (intro reachable_step [OF _ store_step.failPublicationStep])

lemma demo_parked_reachable [simp]: "reachable demo_exhausted" "reachable demo_uncertain" "reachable demo_parked"
  unfolding demo_parked_def demo_uncertain_def demo_exhausted_def
  by (intro reachable_reconcile reachable_step [OF _ store_step.requirePublicationStepClaim] reachable_retry
      demo_reachable)+

lemma demo_lost_reachable [simp]: "reachable demo_lost" "reachable demo_replaying"
  unfolding demo_replaying_def demo_lost_def
  by (intro reachable_step [OF _ store_step.claimSubmissionRecovery] reachable_step [OF _ store_step.failPreparation]
      demo_reachable)+

lemma demo_steps:
  "store_step\<^sup>*\<^sup>* demo_delivered demo_published" "store_step\<^sup>*\<^sup>* demo_queued demo_succeeded"
  "store_step\<^sup>*\<^sup>* demo_succeeded demo_claimed"
  unfolding demo_published_def demo_succeeded_def demo_claimed_def
  by (rule r_into_rtranclp store_step.completePublication store_step.recordExecutionSuccess
      store_step.claimPublication)+

text \<open>Where the histories end.\<close>

lemma demo_states:
  "map_option pub_status (pub_of demo_published ''github:1'' ''run-1'') = Some PubPublished"
  "map_option pub_status (pub_of demo_uncertain ''github:1'' ''run-1'') = Some PubUncertain"
  "map_option pub_status (pub_of demo_parked ''github:1'' ''run-1'') = Some PubDisconnected"
  "map_option exec_status (exec_of demo_lost ''github:1'' ''run-1'') = Some ExecUncertain"
  "map_option exec_claim_token (exec_of demo_replaying ''github:1'' ''run-1'') = Some (Some 3)"
  by code_simp+

subsection \<open>A prepared upload\<close>

text \<open>A run whose connector has uploaded its input bundle: admitted without an input, the bundle reserved and settled as
  present.\<close>

definition demo_reference :: bundle_reference where
  "demo_reference = \<lparr>ref_uri = ''file:///b'', ref_digest = ''sha256:'' @ replicate 64 (CHR ''a''),
     ref_media_type = ''application/tar+zstd'', ref_size_bytes = 3\<rparr>"

definition demo_bundle_input :: json where
  "demo_bundle_input = JObj [(''input_bundle'', reference_json demo_reference)]"

definition demo_url :: "string \<Rightarrow> url_parts option" where
  "demo_url u = Some \<lparr>url_protocol = ''file:'', url_hostname = [], url_search = [], url_hash = [], url_username = [],
     url_password = [], url_port = [], url_pathname = ''/b''\<rparr>"

definition demo_fresh :: db where
  "demo_fresh = snd (create demo_cfg ''github'' 0 1 (demo_run\<lparr>ca_execution_input := None\<rparr>) empty_db)"

definition demo_reserved :: db where
  "demo_reserved = snd (reserve demo_url demo_cfg 1 ''run-1'' 1
     \<lparr>intent_reference = demo_reference, intent_input = demo_bundle_input, intent_publish_context = JObj []\<rparr> demo_fresh)"

definition demo_present :: db where
  "demo_present = snd (settleCandidate demo_cfg 2 ''run-1'' 1 (ref_digest demo_reference) SettlePresent demo_reserved)"

definition demo_saved :: db where
  "demo_saved = snd (savePreparedSubmission demo_cfg 11 ''run-1'' 1 (JObj []) demo_bundle_input demo_present)"

lemma demo_upload_reachable [simp]: "reachable demo_present" "reachable demo_saved"
  unfolding demo_saved_def demo_present_def demo_reserved_def demo_fresh_def
  by (intro reachable_step [OF _ store_step.savePreparedSubmission] reachable_step [OF _ store_step.settleCandidate]
      reachable_step [OF _ store_step.reserve] reachable_step [OF _ store_step.create] reachable_empty)+

lemma demo_upload: "fst (savePreparedSubmission demo_cfg 11 ''run-1'' 1 (JObj []) demo_bundle_input demo_present) = Inr ()"
  by code_simp

end
