(* ===== verification/StatisticsHistory.thy ===== *)
theory StatisticsHistory
  imports StatisticsStore Systems Scenario
begin

text \<open>
  The statistics under any number of replicas: \<open>statistics_step\<close> has one rule per operation of the store, the interpretation \<open>statistics\<close> carries the
  constraints, the agreement of rows and groups, and the permanence of conclusions over every run, and a pass of the coordinator is such a run. Then when a
  result concludes a run, who may write it, and which snapshot never can be written.
\<close>

subsection \<open>The invariant\<close>

definition concluded :: "statistics_row \<Rightarrow> bool" where
  "concluded s \<longleftrightarrow> st_status s = StatSettled \<or> st_status s = StatUnavailable"

text \<open>The CHECK constraints of \<^verbatim>\<open>execution_statistics\<close>.\<close>

definition statistics_check :: "statistics_row \<Rightarrow> bool" where
  "statistics_check s \<longleftrightarrow>
     (if st_status s = StatReconciling then st_claim_token s \<noteq> None \<and> st_claimed_at s \<noteq> None
      else st_claim_token s = None \<and> st_claimed_at s = None) \<and>
     (st_status s = StatPending \<or> st_reconciliation_deadline_at s \<noteq> None) \<and>
     concluded s = (st_ingestion_status s \<noteq> None) \<and> concluded s = (st_settled_at s \<noteq> None) \<and>
     (st_status s = StatUnavailable) = (st_failure_code s \<noteq> None)"

definition groups_of_run :: "statistics_db \<Rightarrow> string \<Rightarrow> statistics_group list" where
  "groups_of_run sdb k = map snd (filter (\<lambda>g. fst g = k) (statistics_groups sdb))"

text \<open>The groups stored for a run add up to the counts in its row.\<close>

definition counts_agree :: "statistics_group list \<Rightarrow> statistics_row \<Rightarrow> bool" where
  "counts_agree gs s \<longleftrightarrow> distinct (map sg_key gs) \<and> (\<Sum>g\<leftarrow>gs. sg_model_call_count g) = st_observed_call_count s \<and>
     (\<Sum>g\<leftarrow>gs. sg_usage_reported_call_count g) = st_usage_reported_call_count s \<and>
     (\<forall>f n. st_token_usage s f = Some n \<longrightarrow> n = (\<Sum>g\<leftarrow>gs. the (sg_token_usage g f)))"

definition statistics_ok :: "statistics_db \<Rightarrow> bool" where
  "statistics_ok sdb \<longleftrightarrow>
     distinct (map st_run_id (statistics_rows sdb)) \<and>
     (\<forall>s \<in> set (statistics_rows sdb). statistics_check s \<and> counts_agree (groups_of_run sdb (st_run_id s)) s) \<and>
     fst ` set (statistics_groups sdb) \<subseteq> st_run_id ` set (statistics_rows sdb)"

text \<open>A concluded row and its groups stay as they are, rows are never removed, and a settlement window is never moved.\<close>

definition statistics_kept :: "statistics_db \<Rightarrow> statistics_db \<Rightarrow> bool" where
  "statistics_kept sdb sdb' \<longleftrightarrow>
     (\<forall>s \<in> set (statistics_rows sdb). \<exists>s' \<in> set (statistics_rows sdb'). st_run_id s' = st_run_id s \<and>
        (st_reconciliation_deadline_at s \<noteq> None \<longrightarrow> st_reconciliation_deadline_at s' = st_reconciliation_deadline_at s) \<and>
        (concluded s \<longrightarrow> s' = s \<and> groups_of_run sdb' (st_run_id s) = groups_of_run sdb (st_run_id s)))"

lemma statistics_okD:
  assumes "statistics_ok sdb"
  shows "distinct (map st_run_id (statistics_rows sdb))"
    "s \<in> set (statistics_rows sdb) \<Longrightarrow> statistics_check s" "s \<in> set (statistics_rows sdb) \<Longrightarrow> counts_agree (groups_of_run sdb (st_run_id s)) s"
    "fst ` set (statistics_groups sdb) \<subseteq> st_run_id ` set (statistics_rows sdb)"
  using assms by (simp_all add: statistics_ok_def)

text \<open>What an update of one row needs: it is not concluded, and the new row has the same key, satisfies the constraints and keeps the window.\<close>

definition good_update :: "statistics_row \<Rightarrow> statistics_row \<Rightarrow> bool" where
  "good_update s s' \<longleftrightarrow> \<not> concluded s \<and> st_run_id s' = st_run_id s \<and> statistics_check s' \<and>
     (st_reconciliation_deadline_at s \<noteq> None \<longrightarrow> st_reconciliation_deadline_at s' = st_reconciliation_deadline_at s)"

lemma update_rows_ids:
  assumes "\<forall>s \<in> set rows. P s \<longrightarrow> good_update s (f s)"
  shows "map st_run_id (update_statistics P f rows) = map st_run_id rows"
  using assms by (auto simp: update_statistics_def good_update_def)

lemma update_kept:
  assumes ok: "statistics_ok sdb" and good: "\<forall>s \<in> set (statistics_rows sdb). P s \<longrightarrow> good_update s (f s)"
    and groups: "\<And>s. s \<in> set (statistics_rows sdb) \<Longrightarrow> \<not> P s \<Longrightarrow> groups_of_run sdb' (st_run_id s) = groups_of_run sdb (st_run_id s)"
    and rows: "statistics_rows sdb' = update_statistics P f (statistics_rows sdb)"
    and agree: "\<And>s. s \<in> set (statistics_rows sdb) \<Longrightarrow> P s \<Longrightarrow> counts_agree (groups_of_run sdb' (st_run_id s)) (f s)"
    and keys: "fst ` set (statistics_groups sdb') \<subseteq> st_run_id ` set (statistics_rows sdb)"
  shows "statistics_ok sdb' \<and> statistics_kept sdb sdb'"
proof
  have ids: "map st_run_id (statistics_rows sdb') = map st_run_id (statistics_rows sdb)" unfolding rows by (rule update_rows_ids [OF good])
  then have idset: "st_run_id ` set (statistics_rows sdb') = st_run_id ` set (statistics_rows sdb)" by (metis set_map)
  have row: "\<exists>s \<in> set (statistics_rows sdb). s' = (if P s then f s else s)" if "s' \<in> set (statistics_rows sdb')" for s'
    using that unfolding rows update_statistics_def by auto
  have "statistics_check s' \<and> counts_agree (groups_of_run sdb' (st_run_id s')) s'" if s': "s' \<in> set (statistics_rows sdb')" for s'
  proof -
    obtain s where s: "s \<in> set (statistics_rows sdb)" "s' = (if P s then f s else s)" using row [OF s'] by blast
    show ?thesis
    proof (cases "P s")
      case True
      then have "good_update s (f s)" using good s(1) by blast
      then show ?thesis using s True agree [OF s(1)] by (simp add: good_update_def)
    next
      case False
      then show ?thesis using s statistics_okD(2,3) [OF ok s(1)] groups [OF s(1)] by simp
    qed
  qed
  then show "statistics_ok sdb'" using statistics_okD(1) [OF ok] ids keys idset unfolding statistics_ok_def by simp
  show "statistics_kept sdb sdb'"
    unfolding statistics_kept_def
  proof
    fix s assume s: "s \<in> set (statistics_rows sdb)"
    let ?s' = "if P s then f s else s"
    have "?s' \<in> set (statistics_rows sdb')" unfolding rows update_statistics_def using s by auto
    moreover have "st_run_id ?s' = st_run_id s \<and> (st_reconciliation_deadline_at s \<noteq> None \<longrightarrow> st_reconciliation_deadline_at ?s' = st_reconciliation_deadline_at s) \<and>
        (concluded s \<longrightarrow> ?s' = s \<and> groups_of_run sdb' (st_run_id s) = groups_of_run sdb (st_run_id s))"
      using good s groups [OF s] by (auto simp: good_update_def)
    ultimately show "\<exists>s' \<in> set (statistics_rows sdb'). st_run_id s' = st_run_id s \<and>
        (st_reconciliation_deadline_at s \<noteq> None \<longrightarrow> st_reconciliation_deadline_at s' = st_reconciliation_deadline_at s) \<and>
        (concluded s \<longrightarrow> s' = s \<and> groups_of_run sdb' (st_run_id s) = groups_of_run sdb (st_run_id s))" by blast
  qed
qed

subsection \<open>Every operation\<close>

lemma admit_all_spec:
  "\<exists>news. admit_all cfg now es rows = rows @ news \<and> (\<forall>r \<in> set news. \<exists>k f. r = admitted_statistics cfg now k f) \<and>
     (distinct (map st_run_id rows) \<longrightarrow> distinct (map st_run_id (rows @ news)))"
proof (induction cfg now es rows rule: admit_all.induct)
  case (2 cfg now k f es rows)
  show ?case
  proof (cases "list_ex (\<lambda>r. st_run_id r = k) rows")
    case True
    then show ?thesis using 2 by simp
  next
    case False
    then obtain news where news: "admit_all cfg now es (rows @ [admitted_statistics cfg now k f]) = (rows @ [admitted_statistics cfg now k f]) @ news"
      "\<forall>r \<in> set news. \<exists>k f. r = admitted_statistics cfg now k f"
      "distinct (map st_run_id (rows @ [admitted_statistics cfg now k f])) \<longrightarrow> distinct (map st_run_id ((rows @ [admitted_statistics cfg now k f]) @ news))"
      using 2 by auto
    moreover have "distinct (map st_run_id rows) \<longrightarrow> distinct (map st_run_id (rows @ [admitted_statistics cfg now k f]))"
      using False by (auto simp: admitted_statistics_def list_ex_iff)
    ultimately show ?thesis
      using False by (intro exI [of _ "admitted_statistics cfg now k f # news"]) auto
  qed
qed simp

lemma admitted_check: "statistics_check (admitted_statistics cfg now k f) \<and> counts_agree [] (admitted_statistics cfg now k f)"
  by (simp add: admitted_statistics_def statistics_check_def concluded_def counts_agree_def)

lemma admission_keeps:
  assumes ok: "statistics_ok sdb"
  shows "statistics_ok (sdb\<lparr>statistics_rows := admit_all cfg now es (statistics_rows sdb)\<rparr>) \<and>
     statistics_kept sdb (sdb\<lparr>statistics_rows := admit_all cfg now es (statistics_rows sdb)\<rparr>)"
proof -
  obtain news where news: "admit_all cfg now es (statistics_rows sdb) = statistics_rows sdb @ news"
    "\<forall>r \<in> set news. \<exists>k f. r = admitted_statistics cfg now k f" "distinct (map st_run_id (statistics_rows sdb @ news))"
    using admit_all_spec statistics_okD(1) [OF ok] by metis
  let ?sdb' = "sdb\<lparr>statistics_rows := statistics_rows sdb @ news\<rparr>"
  have same: "groups_of_run ?sdb' = groups_of_run sdb" by (simp add: groups_of_run_def fun_eq_iff)
  have "statistics_check r \<and> counts_agree (groups_of_run ?sdb' (st_run_id r)) r" if r: "r \<in> set news" for r
  proof -
    have "st_run_id r \<notin> st_run_id ` set (statistics_rows sdb)" using news(3) r by auto
    then have "groups_of_run sdb (st_run_id r) = []"
      using statistics_okD(4) [OF ok] by (auto simp: groups_of_run_def filter_empty_conv)
    then show ?thesis using news(2) r admitted_check same by auto
  qed
  then have "statistics_ok ?sdb'"
    using news(3) statistics_okD(2-4) [OF ok] same by (auto simp: statistics_ok_def)
  moreover have "statistics_kept sdb ?sdb'" using same by (auto simp: statistics_kept_def)
  ultimately show ?thesis using news(1) by simp
qed

lemma statistics_kept_refl [simp]: "statistics_kept sdb sdb"
  by (auto simp: statistics_kept_def)

lemma statistics_kept_trans: "statistics_kept a b \<Longrightarrow> statistics_kept b c \<Longrightarrow> statistics_kept a c"
  unfolding statistics_kept_def by (metis (no_types, opaque_lifting))

lemma claimed_good:
  assumes "statistics_check s" "\<not> concluded s"
  shows "good_update s (claimed_statistics cfg now token s)" "counts_agree gs (claimed_statistics cfg now token s) = counts_agree gs s"
  using assms
  by (auto simp: good_update_def claimed_statistics_def statistics_check_def concluded_def counts_agree_def split: if_splits)

lemma same_id_same_row:
  assumes "statistics_ok sdb" "s \<in> set (statistics_rows sdb)" "r \<in> set (statistics_rows sdb)" "st_run_id r = st_run_id s"
  shows "r = s"
  using statistics_okD(1) [OF assms(1)] assms(2-4) by (auto simp: distinct_map dest: inj_onD)

lemma claim_keeps:
  assumes ok: "statistics_ok sdb"
  shows "statistics_ok (snd (claimNextStatistics cfg now locked token db sdb)) \<and> statistics_kept sdb (snd (claimNextStatistics cfg now locked token db sdb))"
proof -
  let ?rows = "admit_all cfg now (concluded_executions cfg db) (statistics_rows sdb)"
  let ?sdb = "sdb\<lparr>statistics_rows := ?rows\<rparr>"
  have mid: "statistics_ok ?sdb" "statistics_kept sdb ?sdb" using admission_keeps [OF ok] by blast+
  show ?thesis
  proof (cases "sort_key (\<lambda>s. (st_next_attempt_at s, st_run_id s)) (filter (statistics_claimable cfg now locked db) ?rows)")
    case Nil
    then show ?thesis using mid by (simp add: claimNextStatistics_def Let_def)
  next
    case (Cons s rest)
    then have "s \<in> set (sort_key (\<lambda>s. (st_next_attempt_at s, st_run_id s)) (filter (statistics_claimable cfg now locked db) ?rows))" by simp
    then have s: "s \<in> set ?rows" "\<not> concluded s" by (auto simp: statistics_claimable_def concluded_def)
    show ?thesis
    proof (cases "List.find (\<lambda>e. exec_run_id e = st_run_id s) (executions db)")
      case None
      then show ?thesis using Cons ok by (simp add: claimNextStatistics_def Let_def)
    next
      case (Some e)
      let ?sdb' = "sdb\<lparr>statistics_rows := update_statistics (\<lambda>r. st_run_id r = st_run_id s) (claimed_statistics cfg now token) ?rows\<rparr>"
      have only: "r = s" if "r \<in> set (statistics_rows ?sdb)" "st_run_id r = st_run_id s" for r
        using same_id_same_row [OF mid(1) _ that(1)] s(1) that(2) by simp
      have check: "statistics_check s" "counts_agree (groups_of_run sdb (st_run_id s)) s"
        using statistics_okD(2,3) [OF mid(1)] s(1) by (simp_all add: groups_of_run_def)
      have "statistics_ok ?sdb' \<and> statistics_kept ?sdb ?sdb'"
      proof (rule update_kept [OF mid(1)])
        show "\<forall>r \<in> set (statistics_rows ?sdb). st_run_id r = st_run_id s \<longrightarrow> good_update r (claimed_statistics cfg now token r)"
          using only claimed_good(1) [OF check(1) s(2)] by blast
        show "fst ` set (statistics_groups ?sdb') \<subseteq> st_run_id ` set (statistics_rows ?sdb)" using statistics_okD(4) [OF mid(1)] by simp
        fix r assume "r \<in> set (statistics_rows ?sdb)" "st_run_id r = st_run_id s"
        then have "r = s" by (rule only)
        then show "counts_agree (groups_of_run ?sdb' (st_run_id r)) (claimed_statistics cfg now token r)"
          using check(2) claimed_good(2) [OF check(1) s(2)] by (simp add: groups_of_run_def)
      qed (simp_all add: groups_of_run_def)
      then show ?thesis
        using Cons Some statistics_kept_trans [OF mid(2)] by (simp add: claimNextStatistics_def Let_def)
    qed
  qed
qed

lemma released_good:
  assumes "statistics_check s" "statistics_owner work s"
  shows "good_update s (failed_statistics now m d s)" "counts_agree gs (failed_statistics now m d s) = counts_agree gs s"
    "good_update s (limited_statistics now d' s)" "counts_agree gs (limited_statistics now d' s) = counts_agree gs s"
    "good_update s (recorded_statistics now snapshot d result s)"
  using assms
  by (cases result; auto simp: good_update_def failed_statistics_def limited_statistics_def recorded_statistics_def statistics_check_def concluded_def
      counts_agree_def statistics_owner_def Let_def split: option.splits)+

lemma release_keeps:
  assumes ok: "statistics_ok sdb"
    and good: "\<And>s gs. statistics_check s \<Longrightarrow> statistics_owner work s \<Longrightarrow> good_update s (f s) \<and> counts_agree gs (f s) = counts_agree gs s"
  shows "statistics_ok (snd (release_statistics f work sdb)) \<and> statistics_kept sdb (snd (release_statistics f work sdb))"
proof (cases "List.find (statistics_owner work) (statistics_rows sdb)")
  case None
  then show ?thesis using ok by (simp add: release_statistics_def)
next
  case (Some row)
  let ?sdb' = "sdb\<lparr>statistics_rows := update_statistics (statistics_owner work) f (statistics_rows sdb)\<rparr>"
  have "statistics_ok ?sdb' \<and> statistics_kept sdb ?sdb'"
    by (rule update_kept [OF ok, where P = "statistics_owner work" and f = f])
       (use good statistics_okD(2-4) [OF ok] in \<open>simp_all add: groups_of_run_def\<close>)
  then show ?thesis using Some by (simp add: release_statistics_def)
qed

lemma snapshot_keeps:
  assumes ok: "statistics_ok sdb" and agg: "snapshot = aggregateExecutionStatistics locale_key hash read"
  shows "statistics_ok (snd (recordSnapshot now work snapshot delay sdb)) \<and> statistics_kept sdb (snd (recordSnapshot now work snapshot delay sdb))"
proof (cases "List.find (statistics_owner work) (statistics_rows sdb)")
  case None
  then show ?thesis using ok by (simp add: recordSnapshot_def)
next
  case (Some row)
  then have row: "row \<in> set (statistics_rows sdb)" "statistics_owner work row" by (auto dest: find_SomeD)
  then have own: "sw_run_id work \<in> st_run_id ` set (statistics_rows sdb)" unfolding statistics_owner_def by (metis imageI)
  define result where "result = snapshot_outcome now snapshot row"
  let ?sdb' = "sdb\<lparr>statistics_rows := update_statistics (statistics_owner work) (recorded_statistics now snapshot delay result) (statistics_rows sdb),
      statistics_groups := filter (\<lambda>g. fst g \<noteq> sw_run_id work) (statistics_groups sdb) @ map (Pair (sw_run_id work)) (ss_groups snapshot)\<rparr>"
  have groups: "groups_of_run ?sdb' k = (if k = sw_run_id work then ss_groups snapshot else groups_of_run sdb k)" for k
    by (auto simp: groups_of_run_def filter_map comp_def intro!: arg_cong [where f = "map snd"] filter_cong)
  have totals: "distinct (map sg_key (ss_groups snapshot))" "(\<Sum>g\<leftarrow>ss_groups snapshot. sg_model_call_count g) = ss_observed_call_count snapshot"
      "(\<Sum>g\<leftarrow>ss_groups snapshot. sg_usage_reported_call_count g) = ss_usage_reported_call_count snapshot"
      "\<forall>f n. ss_token_usage snapshot f = Some n \<longrightarrow> n = (\<Sum>g\<leftarrow>ss_groups snapshot. the (sg_token_usage g f))"
    using snapshot_agrees [OF agg] by blast+
  have "statistics_ok ?sdb' \<and> statistics_kept sdb ?sdb'"
  proof (rule update_kept [OF ok, where P = "statistics_owner work" and f = "recorded_statistics now snapshot delay result"])
    show "\<forall>s \<in> set (statistics_rows sdb). statistics_owner work s \<longrightarrow> good_update s (recorded_statistics now snapshot delay result s)"
      using released_good(5) statistics_okD(2) [OF ok] by blast
    show "fst ` set (statistics_groups ?sdb') \<subseteq> st_run_id ` set (statistics_rows sdb)"
      using statistics_okD(4) [OF ok] own by auto
  next
    fix s assume s: "s \<in> set (statistics_rows sdb)" "\<not> statistics_owner work s"
    then have "st_run_id s \<noteq> sw_run_id work"
      using same_id_same_row [OF ok row(1) s(1)] row(2) by (auto simp: statistics_owner_def)
    then show "groups_of_run ?sdb' (st_run_id s) = groups_of_run sdb (st_run_id s)" by (simp add: groups)
  next
    fix s assume "statistics_owner work s"
    then show "counts_agree (groups_of_run ?sdb' (st_run_id s)) (recorded_statistics now snapshot delay result s)"
      using totals by (simp add: groups statistics_owner_def counts_agree_def recorded_statistics_def Let_def)
  qed simp
  then show ?thesis using Some ok by (simp add: recordSnapshot_def Let_def result_def)
qed

subsection \<open>Every history\<close>

inductive statistics_step :: "statistics_db \<Rightarrow> statistics_db \<Rightarrow> bool" where
  claim: "statistics_step sdb (snd (claimNextStatistics cfg now locked token db sdb))"
| snapshot: "statistics_step sdb (snd (recordSnapshot now work (aggregateExecutionStatistics locale_key hash read) delay sdb))"
| failure: "statistics_step sdb (snd (recordFailure now work maxFailures retryDelayMs sdb))"
| rateLimit: "statistics_step sdb (snd (recordRateLimit now work retryAfterMs sdb))"

definition no_statistics :: statistics_db where
  "no_statistics = \<lparr>statistics_rows = [], statistics_groups = []\<rparr>"

lemma statistics_step_keeps: "statistics_step sdb sdb' \<Longrightarrow> statistics_ok sdb \<Longrightarrow> statistics_ok sdb' \<and> statistics_kept sdb sdb'"
  by (induction rule: statistics_step.induct)
     (simp_all add: claim_keeps snapshot_keeps recordFailure_def recordRateLimit_def release_keeps released_good)

interpretation statistics: directed_system no_statistics statistics_step statistics_ok statistics_kept
proof
  show "statistics_ok no_statistics" by (simp add: statistics_ok_def no_statistics_def)
qed (use statistics_step_keeps statistics_kept_refl statistics_kept_trans in blast)+

text \<open>C38. Every history of claims and results keeps the statistics consistent: the keys and the CHECK constraints of their table hold, and the
  groups stored for a run have distinct keys and add up to its counts and reported totals.\<close>

theorem statistics_consistent:
  assumes "statistics_step\<^sup>*\<^sup>* no_statistics sdb"
  shows "distinct (map st_run_id (statistics_rows sdb)) \<and>
     (\<forall>s. s \<in> set (statistics_rows sdb) \<longrightarrow> statistics_check s \<and> counts_agree (groups_of_run sdb (st_run_id s)) s)"
  using statistics_okD(1-3) [OF statistics.inv_reached [OF assms]] by blast

lemma reconcile_steps:
  assumes "reconcileClaimedWork opts turn work sdb = Some (r, sdb')"
  shows "statistics_step sdb sdb'"
proof -
  obtain read where read: "readRun (pt_langfuse turn) (pt_pages turn) (sw_run_id work)
        (ro_iso_text opts (sw_execution_started_at work - OBSERVATION_TIME_MARGIN))
        (ro_iso_text opts (sw_execution_finished_at work + OBSERVATION_TIME_MARGIN)) = Some read"
    using assms by (auto simp: reconcileClaimedWork_def)
  show ?thesis
  proof (cases read)
    case (Inr x)
    then have "sdb' = snd (recordSnapshot (pt_recorded_at turn) work (aggregateExecutionStatistics (ro_locale_key opts) (ro_hash opts) x)
        (ro_confirmation_delay_ms opts) sdb)"
      using assms read by (simp add: reconcileClaimedWork_def split: prod.splits)
    then show ?thesis by (simp add: statistics_step.snapshot)
  next
    case (Inl e)
    show ?thesis
    proof (cases e)
      case (LangfuseRateLimitError after)
      then have "sdb' = snd (recordRateLimit (pt_recorded_at turn) work (coalesce after (int (ro_retry_delay_ms opts))) sdb)"
        using assms read Inl by (simp add: reconcileClaimedWork_def split: prod.splits)
      then show ?thesis by (simp add: statistics_step.rateLimit)
    next
      case (LangfuseFailure m)
      then have "sdb' = snd (recordFailure (pt_recorded_at turn) work (ro_max_failures opts) (ro_retry_delay_ms opts) sdb)"
        using assms read Inl by (simp add: reconcileClaimedWork_def split: prod.splits)
      then show ?thesis by (simp add: statistics_step.failure)
    qed
  qed
qed

lemma pass_steps:
  assumes "reconcileExecutionStatisticsPass cfg opts turns processed items sdb = Some (r, sdb')"
    and others: "\<And>i x. statistics_step\<^sup>*\<^sup>* x (pt_others (turns i) x)"
  shows "statistics_step\<^sup>*\<^sup>* sdb sdb'"
  using assms(1)
proof (induction items arbitrary: processed sdb)
  case (Suc items)
  let ?turn = "turns processed"
  obtain c sdb1 where claim: "claimNextStatistics cfg (pt_now ?turn) (pt_locked ?turn) (pt_token ?turn) (pt_db ?turn) sdb = (c, sdb1)" by fastforce
  have first: "statistics_step sdb sdb1"
    using statistics_step.claim [of sdb cfg "pt_now ?turn" "pt_locked ?turn" "pt_token ?turn" "pt_db ?turn"] by (simp add: claim)
  show ?case
  proof (cases "\<exists>work. c = Inr (Some work)")
    case False
    then have "sdb' = sdb1" using Suc.prems claim by (cases c) (auto simp: Let_def split: option.splits)
    then show ?thesis using first by blast
  next
    case True
    then obtain work where work: "c = Inr (Some work)" by blast
    obtain d sdb2 where rec: "reconcileClaimedWork opts ?turn work (pt_others ?turn sdb1) = Some (d, sdb2)"
      using Suc.prems claim work by (auto simp: Let_def split: option.splits)
    have "statistics_step\<^sup>*\<^sup>* sdb sdb2"
      using first others [of sdb1 processed] reconcile_steps [OF rec] by (meson converse_rtranclp_into_rtranclp rtranclp.rtrancl_into_rtrancl)
    moreover have "statistics_step\<^sup>*\<^sup>* sdb2 sdb'"
      using Suc.prems claim work rec Suc.IH [of "Suc processed" sdb2] by (cases d) (auto simp: Let_def)
    ultimately show ?thesis by (rule rtranclp_trans)
  qed
qed auto

subsection \<open>Conclusions\<close>

lemma owner_found:
  assumes ok: "statistics_ok sdb" and row: "row \<in> set (statistics_rows sdb)" "statistics_owner work row"
  shows "List.find (statistics_owner work) (statistics_rows sdb) = Some row"
proof -
  obtain r where r: "List.find (statistics_owner work) (statistics_rows sdb) = Some r"
    using row by (cases "List.find (statistics_owner work) (statistics_rows sdb)") (auto simp: find_None_iff)
  then have "r \<in> set (statistics_rows sdb)" "statistics_owner work r" by (auto dest: find_SomeD)
  then have "r = row" using same_id_same_row [OF ok row(1)] row(2) by (simp add: statistics_owner_def)
  then show ?thesis using r by simp
qed

text \<open>The claimant of a run that records a snapshot with review roots whose hash is the stored one, or any snapshot after the
  settlement window, concludes the run: the row is settled, says which of the two it was, and the stored groups are the snapshot's.\<close>

theorem snapshot_concludes:
  assumes "statistics_step\<^sup>*\<^sup>* no_statistics sdb" "row \<in> set (statistics_rows sdb)" "statistics_owner work row" "list_all group_storable (ss_groups snapshot)"
    "0 < ss_root_trace_count snapshot \<and> st_observation_set_hash row = Some (ss_observation_set_hash snapshot) \<or> deadline_reached now row"
  shows "\<exists>result sdb' row'. recordSnapshot now work snapshot delay sdb = (Inr result, sdb') \<and> row' \<in> set (statistics_rows sdb') \<and>
     st_run_id row' = sw_run_id work \<and> st_status row' = StatSettled \<and> st_ingestion_status row' = ingestion_of result \<and>
     st_claim_token row' = None \<and> st_settled_at row' = Some now \<and> groups_of_run sdb' (sw_run_id work) = ss_groups snapshot \<and>
     (result = ResultSettled) = (0 < ss_root_trace_count snapshot \<and> st_observation_set_hash row = Some (ss_observation_set_hash snapshot)) \<and>
     (result = ResultNoObservations) = (ss_root_trace_count snapshot = 0)"
proof -
  have ok: "statistics_ok sdb" by (rule statistics.inv_reached [OF assms(1)])
  define result where "result = snapshot_outcome now snapshot row"
  define sdb' where "sdb' = snd (recordSnapshot now work snapshot delay sdb)"
  define row' where "row' = recorded_statistics now snapshot delay result row"
  have outcome: "result \<noteq> ResultPending"
      "(result = ResultSettled) = (0 < ss_root_trace_count snapshot \<and> st_observation_set_hash row = Some (ss_observation_set_hash snapshot))"
      "(result = ResultNoObservations) = (ss_root_trace_count snapshot = 0)"
    using assms(5) by (auto simp: result_def snapshot_outcome_def Let_def)
  have rec: "recordSnapshot now work snapshot delay sdb = (Inr result, sdb')"
      "statistics_rows sdb' = update_statistics (statistics_owner work) (recorded_statistics now snapshot delay result) (statistics_rows sdb)"
      "statistics_groups sdb' = filter (\<lambda>g. fst g \<noteq> sw_run_id work) (statistics_groups sdb) @ map (Pair (sw_run_id work)) (ss_groups snapshot)"
    using owner_found [OF ok assms(2,3)] assms(4) by (simp_all add: sdb'_def recordSnapshot_def Let_def result_def)
  have "row' \<in> set (statistics_rows sdb')"
    unfolding rec(2) update_statistics_def row'_def using assms(2,3) by (auto intro!: image_eqI [of _ _ row])
  moreover have "st_run_id row' = sw_run_id work" "st_status row' = StatSettled" "st_ingestion_status row' = ingestion_of result"
      "st_claim_token row' = None" "st_settled_at row' = Some now"
    using assms(3) outcome(1) by (simp_all add: row'_def recorded_statistics_def statistics_owner_def)
  moreover have "groups_of_run sdb' (sw_run_id work) = ss_groups snapshot"
    by (simp add: groups_of_run_def rec(3) filter_map comp_def)
  ultimately show ?thesis
    using rec(1) outcome(2,3) by (intro exI [of _ result] exI [of _ sdb'] exI [of _ row'] conjI)
qed

text \<open>C39. What the claimant of a run makes of a read of Langfuse that ends, and whose groups the tables can hold. A snapshot clears the failure
  count, replaces the groups of the run, and settles it exactly when it confirms the stored hash or the settlement window is over. A rate
  limit is not counted as a failure, and gives the run up only when the window is over at the next attempt. Any other failure is
  counted, and gives the run up exactly when the count reaches the limit. In every case the claim is released and the groups change with a
  snapshot only.\<close>

theorem reconciliation_recorded:
  assumes "statistics_step\<^sup>*\<^sup>* no_statistics sdb" "row \<in> set (statistics_rows sdb)" "statistics_owner work row"
    "readRun (pt_langfuse turn) (pt_pages turn) (sw_run_id work) (ro_iso_text opts (sw_execution_started_at work - OBSERVATION_TIME_MARGIN))
       (ro_iso_text opts (sw_execution_finished_at work + OBSERVATION_TIME_MARGIN)) = Some read"
    "\<And>r. read = Inr r \<Longrightarrow> list_all group_storable (ss_groups (aggregateExecutionStatistics (ro_locale_key opts) (ro_hash opts) r))"
  shows "\<exists>sdb' row'. reconcileClaimedWork opts turn work sdb = Some (Inr (), sdb') \<and> row' \<in> set (statistics_rows sdb') \<and>
     st_run_id row' = sw_run_id work \<and> st_claim_token row' = None \<and>
     (case read of
        Inr r \<Rightarrow>
          let snapshot = aggregateExecutionStatistics (ro_locale_key opts) (ro_hash opts) r;
              confirmed = (0 < ss_root_trace_count snapshot \<and> st_observation_set_hash row = Some (ss_observation_set_hash snapshot))
          in st_failure_count row' = 0 \<and> groups_of_run sdb' (sw_run_id work) = ss_groups snapshot \<and>
             st_status row' = (if confirmed \<or> deadline_reached (pt_recorded_at turn) row then StatSettled else StatPending)
      | Inl (LangfuseRateLimitError after) \<Rightarrow>
          st_failure_count row' = st_failure_count row \<and> statistics_groups sdb' = statistics_groups sdb \<and>
          st_status row' =
            (if deadline_reached (pt_recorded_at turn + 1000 * coalesce after (int (ro_retry_delay_ms opts))) row then StatUnavailable
             else StatPending)
      | Inl (LangfuseFailure message) \<Rightarrow>
          st_failure_count row' = Suc (st_failure_count row) \<and> statistics_groups sdb' = statistics_groups sdb \<and>
          st_status row' = (if ro_max_failures opts \<le> Suc (st_failure_count row) then StatUnavailable else StatPending))"
proof -
  note found = owner_found [OF statistics.inv_reached [OF assms(1)] assms(2,3)]
  have kept: "f row \<in> set (update_statistics (statistics_owner work) f (statistics_rows sdb))" for f
    unfolding update_statistics_def using assms(2,3) by (auto intro!: image_eqI [of _ _ row])
  have run: "st_run_id row = sw_run_id work" using assms(3) by (simp add: statistics_owner_def)
  note rec = reconcileClaimedWork_def assms(4) Let_def
  show ?thesis
  proof (cases read)
    case (Inr r)
    let ?snapshot = "aggregateExecutionStatistics (ro_locale_key opts) (ro_hash opts) r" and ?now = "pt_recorded_at turn"
    let ?f = "recorded_statistics ?now ?snapshot (ro_confirmation_delay_ms opts) (snapshot_outcome ?now ?snapshot row)"
    let ?sdb' = "snd (recordSnapshot ?now work ?snapshot (ro_confirmation_delay_ms opts) sdb)"
    have "reconcileClaimedWork opts turn work sdb = Some (Inr (), ?sdb')" "?f row \<in> set (statistics_rows ?sdb')"
      "groups_of_run ?sdb' (sw_run_id work) = ss_groups ?snapshot"
      using found Inr assms(5) [OF Inr] kept [of ?f]
      by (simp_all add: rec recordSnapshot_def groups_of_run_def filter_map comp_def)
    then show ?thesis
      unfolding Inr using run
      by (intro exI [of _ ?sdb'] exI [of _ "?f row"]) (auto simp: Let_def recorded_statistics_def snapshot_outcome_def)
  next
    case (Inl e)
    then show ?thesis
    proof (cases e)
      case (LangfuseRateLimitError after)
      let ?f = "limited_statistics (pt_recorded_at turn) (coalesce after (int (ro_retry_delay_ms opts)))"
      have "reconcileClaimedWork opts turn work sdb =
          Some (Inr (), sdb\<lparr>statistics_rows := update_statistics (statistics_owner work) ?f (statistics_rows sdb)\<rparr>)"
        using found Inl LangfuseRateLimitError by (simp add: rec recordRateLimit_def release_statistics_def)
      then show ?thesis
        unfolding Inl LangfuseRateLimitError using run kept [of ?f]
        by (intro exI [of _ "sdb\<lparr>statistics_rows := update_statistics (statistics_owner work) ?f (statistics_rows sdb)\<rparr>"] exI [of _ "?f row"])
          (simp add: limited_statistics_def deadline_reached_def Let_def split: option.split)
    next
      case (LangfuseFailure message)
      let ?f = "failed_statistics (pt_recorded_at turn) (ro_max_failures opts) (ro_retry_delay_ms opts)"
      have "reconcileClaimedWork opts turn work sdb =
          Some (Inr (), sdb\<lparr>statistics_rows := update_statistics (statistics_owner work) ?f (statistics_rows sdb)\<rparr>)"
        using found Inl LangfuseFailure by (simp add: rec recordFailure_def release_statistics_def)
      then show ?thesis
        unfolding Inl LangfuseFailure using run kept [of ?f]
        by (intro exI [of _ "sdb\<lparr>statistics_rows := update_statistics (statistics_owner work) ?f (statistics_rows sdb)\<rparr>"] exI [of _ "?f row"])
          (simp add: failed_statistics_def Let_def)
    qed
  qed
qed

text \<open>Once another claim took a run over, the results of the claimant before it are refused and write nothing.\<close>

theorem stale_statistics_fenced:
  assumes "statistics_step\<^sup>*\<^sup>* no_statistics sdb" "claimNextStatistics cfg now locked token db sdb = (Inr (Some taken), sdb')"
    "sw_run_id work = sw_run_id taken" "sw_claim_token work \<noteq> token"
  shows "recordSnapshot t work snapshot delay sdb' = (Inl (statistics_claim_lost work), sdb') \<and>
     recordFailure t work maxFailures retryDelayMs sdb' = (Inl (statistics_claim_lost work), sdb') \<and>
     recordRateLimit t work retryAfterMs sdb' = (Inl (statistics_claim_lost work), sdb')"
proof -
  let ?rows = "admit_all cfg now (concluded_executions cfg db) (statistics_rows sdb)"
  have rows: "statistics_rows sdb' = update_statistics (\<lambda>r. st_run_id r = sw_run_id taken) (claimed_statistics cfg now token) ?rows"
    using assms(2) by (auto simp: claimNextStatistics_def Let_def split: list.splits option.splits)
  have "\<not> statistics_owner work r" if r: "r \<in> set (statistics_rows sdb')" for r
  proof (cases "st_run_id r = sw_run_id taken")
    case True
    then obtain q where "r = claimed_statistics cfg now token q"
      using r unfolding rows update_statistics_def by (auto split: if_splits)
    then show ?thesis using assms(4) by (simp add: statistics_owner_def claimed_statistics_def)
  qed (simp add: statistics_owner_def assms(3))
  then have "List.find (statistics_owner work) (statistics_rows sdb') = None" by (auto simp: find_None_iff)
  then show ?thesis by (simp add: recordSnapshot_def recordFailure_def recordRateLimit_def release_statistics_def)
qed

text \<open>A call whose batch index is zero is aggregated, but its group violates the constraint of the groups table: the snapshot is
  refused at any time, also after the settlement window, and the row stays claimed.\<close>

theorem zero_batch_unrecorded:
  assumes "statistics_step\<^sup>*\<^sup>* no_statistics sdb" "row \<in> set (statistics_rows sdb)" "statistics_owner work row"
    "call \<in> set (sr_generations read)" "gk_batch_index (call_key call) = Some 0"
  shows "recordSnapshot now work (aggregateExecutionStatistics locale_key hash read) delay sdb = (Inl CheckViolation, sdb)"
proof -
  have ok: "statistics_ok sdb" by (rule statistics.inv_reached [OF assms(1)])
  have "call_key call \<in> set (sort_key (\<lambda>k. locale_key (group_text k)) (keys_in_order (sr_generations read) []))"
    using assms(4) by (simp add: keys_in_order_set)
  then have "\<not> list_all group_storable (ss_groups (aggregateExecutionStatistics locale_key hash read))"
    using assms(5) by (force simp: snapshot_groups list_all_iff group_storable_def finish_group_def)
  then show ?thesis using owner_found [OF ok assms(2,3)] by (simp add: recordSnapshot_def Let_def)
qed

subsection \<open>A concrete reconciliation\<close>

definition demo_call :: "string \<Rightarrow> string \<Rightarrow> langfuse_observation" where
  "demo_call oid batch = \<lparr>lo_id = oid, lo_trace_id = ''t'',
     lo_metadata = [(''sec_review_agent'', JStr ''issue-analyzer''), (''sec_review_batch_index'', JStr batch), (''scope.name'', JStr ''langfuse-sdk'')],
     lo_model = Some ''m'', lo_usage_details = Some [(''input'', JNum 3), (''output'', JNum 4)]\<rparr>"

definition demo_run_read :: "string \<Rightarrow> statistics_read" where
  "demo_run_read batch = \<lparr>sr_roots = [demo_call ''r'' ''1''], sr_generations = [demo_call ''a'' ''1'', demo_call ''b'' batch], sr_excluded_non_review_root_count = 0\<rparr>"

definition demo_snapshot :: "string \<Rightarrow> statistics_snapshot" where
  "demo_snapshot batch = aggregateExecutionStatistics id (\<lambda>p. ''h'') (demo_run_read batch)"

theorem totals_match_groups_witness:
  "(\<Sum>g\<leftarrow>ss_groups (demo_snapshot ''2''). sg_model_call_count g) = ss_observed_call_count (demo_snapshot ''2'') \<and> ss_token_usage (demo_snapshot ''2'') TotalTokens = Some 14"
proof -
  have "ss_token_usage (demo_snapshot ''2'') TotalTokens = Some 14" by code_simp
  then show ?thesis using totals_match_groups [OF demo_snapshot_def [of "''2''"]] by blast
qed

definition demo_statistics_cfg :: statistics_cfg where
  "demo_statistics_cfg = \<lparr>sc_connector_id = ''github:1'', sc_claim_timeout_ms = 1, sc_initial_delay_ms = 1, sc_settlement_window_ms = 60\<rparr>"

definition demo_statistics_work :: "uuid \<Rightarrow> statistics_work" where
  "demo_statistics_work token = \<lparr>sw_run_id = ''run-1'', sw_claim_token = token, sw_execution_started_at = 0, sw_execution_finished_at = 0\<rparr>"

definition demo_claim :: "instant \<Rightarrow> uuid \<Rightarrow> statistics_db \<Rightarrow> statistics_db" where
  "demo_claim now token sdb = snd (claimNextStatistics demo_statistics_cfg now (\<lambda>k. False) token demo_succeeded sdb)"

definition demo_confirming :: statistics_db where
  "demo_confirming = demo_claim 20000 6 (snd (recordSnapshot 10000 (demo_statistics_work 5) (demo_snapshot ''2'') 1 (demo_claim 9000 5 no_statistics)))"

lemma demo_steps_reached:
  "statistics_step\<^sup>*\<^sup>* no_statistics sdb \<Longrightarrow> statistics_step\<^sup>*\<^sup>* no_statistics (demo_claim now token sdb)"
  "statistics_step\<^sup>*\<^sup>* no_statistics sdb \<Longrightarrow> statistics_step\<^sup>*\<^sup>* no_statistics (snd (recordSnapshot now work (demo_snapshot batch) delay sdb))"
  unfolding demo_claim_def demo_snapshot_def
  by (erule rtranclp.rtrancl_into_rtrancl, rule statistics_step.claim) (erule rtranclp.rtrancl_into_rtrancl, rule statistics_step.snapshot)

lemma demo_confirming_reached: "statistics_step\<^sup>*\<^sup>* no_statistics demo_confirming"
  unfolding demo_confirming_def by (intro demo_steps_reached rtranclp.rtrancl_refl)

lemma demo_owner:
  obtains row where "row \<in> set (statistics_rows demo_confirming)" "statistics_owner (demo_statistics_work 6) row" "st_observation_set_hash row = Some ''h''"
proof -
  have "list_ex (\<lambda>s. statistics_owner (demo_statistics_work 6) s \<and> st_observation_set_hash s = Some ''h'') (statistics_rows demo_confirming)" by code_simp
  then show ?thesis using that by (auto simp: list_ex_iff)
qed

theorem statistics_consistent_witness: "distinct (map st_run_id (statistics_rows demo_confirming))"
  using statistics_consistent [OF demo_confirming_reached] by blast

theorem snapshot_concludes_witness:
  "\<exists>sdb' row'. snd (recordSnapshot 21000 (demo_statistics_work 6) (demo_snapshot ''2'') 1 demo_confirming) = sdb' \<and> row' \<in> set (statistics_rows sdb') \<and>
     st_status row' = StatSettled \<and> st_ingestion_status row' = Some IngestionSettled"
proof (rule demo_owner)
  fix row assume row: "row \<in> set (statistics_rows demo_confirming)" "statistics_owner (demo_statistics_work 6) row" "st_observation_set_hash row = Some ''h''"
  have facts: "list_all group_storable (ss_groups (demo_snapshot ''2''))" "ss_root_trace_count (demo_snapshot ''2'') = 1"
    "ss_observation_set_hash (demo_snapshot ''2'') = ''h''" by code_simp+
  then show ?thesis
    using snapshot_concludes [OF demo_confirming_reached row(1,2) facts(1), of 21000 1] row(3) by auto
qed

theorem stale_statistics_fenced_witness:
  "fst (recordFailure 30000 (demo_statistics_work 6) 3 1 (demo_claim 25000 7 demo_confirming)) = Inl (statistics_claim_lost (demo_statistics_work 6))"
proof -
  have "map_sum id (map_option sw_run_id) (fst (claimNextStatistics demo_statistics_cfg 25000 (\<lambda>k. False) 7 demo_succeeded demo_confirming)) = Inr (Some ''run-1'')"
    by code_simp
  then obtain taken where taken: "fst (claimNextStatistics demo_statistics_cfg 25000 (\<lambda>k. False) 7 demo_succeeded demo_confirming) = Inr (Some taken)"
    "sw_run_id taken = ''run-1''"
    by (cases "fst (claimNextStatistics demo_statistics_cfg 25000 (\<lambda>k. False) 7 demo_succeeded demo_confirming)") auto
  then have "claimNextStatistics demo_statistics_cfg 25000 (\<lambda>k. False) 7 demo_succeeded demo_confirming = (Inr (Some taken), demo_claim 25000 7 demo_confirming)"
    by (simp add: demo_claim_def prod_eq_iff)
  then show ?thesis
    using stale_statistics_fenced [OF demo_confirming_reached, of demo_statistics_cfg 25000 "\<lambda>k. False" 7 demo_succeeded taken _ "demo_statistics_work 6"] taken(2)
    by (simp add: demo_statistics_work_def)
qed

theorem zero_batch_unrecorded_witness:
  "recordSnapshot 99000 (demo_statistics_work 6) (demo_snapshot ''0'') 1 demo_confirming = (Inl CheckViolation, demo_confirming)"
proof (rule demo_owner)
  fix row assume row: "row \<in> set (statistics_rows demo_confirming)" "statistics_owner (demo_statistics_work 6) row"
  have "demo_call ''b'' ''0'' \<in> set (sr_generations (demo_run_read ''0''))" by (simp add: demo_run_read_def)
  moreover have "gk_batch_index (call_key (demo_call ''b'' ''0'')) = Some 0" by code_simp
  ultimately show ?thesis unfolding demo_snapshot_def by (rule zero_batch_unrecorded [OF demo_confirming_reached row])
qed

definition demo_langfuse :: langfuse_client where
  "demo_langfuse = \<lparr>lf_fetch = (\<lambda>parameters cursor. Inl ''down''), lf_parse_json = (\<lambda>text. Inl ''Unexpected token''), lf_date_ms = (\<lambda>s. None), lf_now_ms = 0\<rparr>"

definition demo_turn :: pass_turn where
  "demo_turn = \<lparr>pt_now = 20000, pt_recorded_at = 21000, pt_token = 6, pt_locked = (\<lambda>k. False), pt_db = demo_succeeded, pt_langfuse = demo_langfuse,
     pt_pages = 1, pt_others = (\<lambda>sdb. sdb)\<rparr>"

definition demo_options :: reconcile_options where
  "demo_options = \<lparr>ro_confirmation_delay_ms = 1, ro_max_failures = 1, ro_retry_delay_ms = 1, ro_locale_key = id, ro_hash = (\<lambda>p. ''h''), ro_iso_text = (\<lambda>t. ''t'')\<rparr>"

theorem reconciliation_recorded_witness:
  "\<exists>sdb' row'. reconcileClaimedWork demo_options demo_turn (demo_statistics_work 6) demo_confirming = Some (Inr (), sdb') \<and>
     row' \<in> set (statistics_rows sdb') \<and> st_status row' = StatUnavailable \<and> st_failure_count row' = 1"
proof (rule demo_owner)
  fix row assume row: "row \<in> set (statistics_rows demo_confirming)" "statistics_owner (demo_statistics_work 6) row"
  have "list_all (\<lambda>s. st_failure_count s = 0) (statistics_rows demo_confirming)" by code_simp
  then have count: "st_failure_count row = 0" using row(1) by (simp add: list_all_iff)
  have "\<exists>m. readRun (pt_langfuse demo_turn) (pt_pages demo_turn) (sw_run_id (demo_statistics_work 6))
      (ro_iso_text demo_options (sw_execution_started_at (demo_statistics_work 6) - OBSERVATION_TIME_MARGIN))
      (ro_iso_text demo_options (sw_execution_finished_at (demo_statistics_work 6) + OBSERVATION_TIME_MARGIN)) = Some (Inl (LangfuseFailure m))"
    by (simp add: readRun_def read_page_def demo_turn_def demo_langfuse_def)
  then show ?thesis
  proof (elim exE)
    fix m
    assume read: "readRun (pt_langfuse demo_turn) (pt_pages demo_turn) (sw_run_id (demo_statistics_work 6))
      (ro_iso_text demo_options (sw_execution_started_at (demo_statistics_work 6) - OBSERVATION_TIME_MARGIN))
      (ro_iso_text demo_options (sw_execution_finished_at (demo_statistics_work 6) + OBSERVATION_TIME_MARGIN)) = Some (Inl (LangfuseFailure m))"
    show ?thesis
      using reconciliation_recorded [OF demo_confirming_reached row read] count by (auto simp: demo_options_def)
  qed
qed

theorem read_order_irrelevant_witness:
  "aggregateExecutionStatistics id (\<lambda>p. concat (map (gk_agent_name \<circ> sg_key) (fp_groups p))) \<lparr>sr_roots = [], sr_generations = [demo_call ''a'' ''1'', demo_call ''b'' ''2''], sr_excluded_non_review_root_count = 0\<rparr> =
   aggregateExecutionStatistics id (\<lambda>p. concat (map (gk_agent_name \<circ> sg_key) (fp_groups p))) \<lparr>sr_roots = [], sr_generations = [demo_call ''b'' ''2'', demo_call ''a'' ''1''], sr_excluded_non_review_root_count = 0\<rparr>"
proof (rule read_order_irrelevant)
  have "group_text (call_key (demo_call ''a'' ''1'')) \<noteq> group_text (call_key (demo_call ''b'' ''2''))" by code_simp
  then show "inj_on (\<lambda>k. id (group_text k)) (call_key ` set (sr_generations \<lparr>sr_roots = [],
      sr_generations = [demo_call ''a'' ''1'', demo_call ''b'' ''2''], sr_excluded_non_review_root_count = 0\<rparr>))"
    by (auto simp: inj_on_def)
qed (simp_all add: add_mset_commute)

text \<open>A client whose every page holds one observation.\<close>

definition demo_page_client :: langfuse_client where
  "demo_page_client = \<lparr>lf_fetch = (\<lambda>parameters cursor. Inr \<lparr>resp_status = 200, resp_content_length = None, resp_body = Some [], lr_retry_after = None\<rparr>),
     lf_parse_json = (\<lambda>text. Inr (JObj [(''data'', JArr [JObj [(''id'', JStr ''a''), (''traceId'', JStr ''t''),
       (''metadata'', JObj [(''sec_review_agent'', JStr ''issue-analyzer''), (''scope.name'', JStr ''langfuse-sdk'')])]]), (''meta'', JObj [])])),
     lf_date_ms = (\<lambda>s. None), lf_now_ms = 0\<rparr>"

lemma demo_page:
  "read_page demo_page_client parameters cursor [] =
     Inr ([\<lparr>lo_id = ''a'', lo_trace_id = ''t'', lo_metadata = [(''sec_review_agent'', JStr ''issue-analyzer''), (''scope.name'', JStr ''langfuse-sdk'')],
       lo_model = None, lo_usage_details = None\<rparr>], None)"
  by (simp add: read_page_def demo_page_client_def response_ok_def readBoundedPageJson_def readBoundedResponseBody_def http_response.defs
      parseObservation_def Let_def)

theorem only_review_calls_witness:
  "\<exists>read. readRun demo_page_client 1 ''run-1'' ''s'' ''u'' = Some (Inr read) \<and> map lo_id (sr_generations read) = [''a''] \<and> list_all review_call (sr_generations read)"
proof -
  have "\<exists>read. readRun demo_page_client 1 ''run-1'' ''s'' ''u'' = Some (Inr read) \<and> map lo_id (sr_generations read) = [''a'']"
    by (simp add: readRun_def demo_page review_agent_def review_name_def call_agent_def REVIEW_AGENT_NAMES_def Let_def)
  then show ?thesis
  proof (elim exE conjE)
    fix read
    assume read: "readRun demo_page_client 1 ''run-1'' ''s'' ''u'' = Some (Inr read)" "map lo_id (sr_generations read) = [''a'']"
    have "list_all review_call (sr_generations read)" using only_review_calls [OF read(1), of id "\<lambda>p. ''h''"] by (elim conjE)
    with read show ?thesis by (intro exI [of _ read] conjI)
  qed
qed

end
