(* ===== verification/Queries.thy ===== *)
theory Queries
  imports RunInvariant Text Paging
begin

text \<open>
  \<^verbatim>\<open>services/review-runs/src/persistence/review-run-queries.ts\<close> and the read side of \<^verbatim>\<open>review-run-events.ts\<close>: the read
  model. What PostgreSQL does with timestamps as text is a parameter: \<open>to_cursor\<close> is the \<^verbatim>\<open>to_char\<close> of \<^verbatim>\<open>RUN_SELECT\<close>, \<open>pg_time\<close>
  the cast of a text parameter to \<^verbatim>\<open>timestamptz\<close>; \<open>date_ok\<close> is whether \<^verbatim>\<open>Date.parse\<close> accepts a text. The execution statistics
  query is not modelled.
\<close>

subsection \<open>Events\<close>

record review_run_event =
  rre_event_id :: nat
  rre_axis :: axis
  rre_from_status :: "axis_state option"
  rre_to_status :: axis_state
  rre_reason_code :: "string option"
  rre_occurred_at :: instant

definition listEvents :: "string \<Rightarrow> string \<Rightarrow> db \<Rightarrow> review_run_event list" where
  "listEvents runId c db =
     map (\<lambda>e. \<lparr>rre_event_id = event_id e, rre_axis = event_axis e, rre_from_status = event_from_status e,
               rre_to_status = event_to_status e, rre_reason_code = event_reason_code e,
               rre_occurred_at = iso (event_occurred_at e)\<rparr>)
       (sort_key (\<lambda>e. (event_occurred_at e, event_id e))
         (filter (\<lambda>e. event_run_id e = runId \<and> event_connector_id e = c) (review_run_events db)))"

subsection \<open>Cursors\<close>

record run_list_cursor =
  created_at_cursor :: string
  cursor_run_id :: string

definition encodeRunListCursor :: "run_list_cursor \<Rightarrow> string" where
  "encodeRunListCursor cursor = base64url (created_at_cursor cursor @ ''|'' @ cursor_run_id cursor)"

definition decodeRunListCursor :: "(string \<Rightarrow> bool) \<Rightarrow> string \<Rightarrow> run_list_cursor option" where
  "decodeRunListCursor date_ok cursor =
     (case split_on (CHR ''|'') (utf8_text (from_base64url cursor)) of
        [createdAt, runId] \<Rightarrow>
          if createdAt = [] \<or> runId = [] then None
          else if \<not> date_ok createdAt then None
          else Some \<lparr>created_at_cursor = createdAt, cursor_run_id = runId\<rparr>
      | _ \<Rightarrow> None)"

subsection \<open>Projection\<close>

record dropped_row =
  dropped_run_id :: string
  dropped_error :: rr_error

record rows_projection =
  proj_runs :: "review_run_record list"
  proj_dropped :: "dropped_row list"

fun projectRunRows :: "run_row list \<Rightarrow> rows_projection" where
  "projectRunRows [] = \<lparr>proj_runs = [], proj_dropped = []\<rparr>"
| "projectRunRows (row # rows) =
     (let rest = projectRunRows rows in
      case rowToRecord row of
        Inr r \<Rightarrow> rest\<lparr>proj_runs := r # proj_runs rest\<rparr>
      | Inl err \<Rightarrow> rest\<lparr>proj_dropped :=
          \<lparr>dropped_run_id = rr_run_id (row_trunk row), dropped_error = err\<rparr> # proj_dropped rest\<rparr>)"

definition runExists :: "store_cfg \<Rightarrow> string \<Rightarrow> db \<Rightarrow> bool" where
  "runExists cfg runId db =
     (length (filter (\<lambda>r. rr_run_id r = runId \<and> rr_connector_id r = connectorId cfg) (review_runs db)) = 1)"

text \<open>A corrupt row is reported to \<^verbatim>\<open>onDroppedRunRow\<close> and read as absent; the pair is the answer and the report.\<close>

definition getRun :: "store_cfg \<Rightarrow> string \<Rightarrow> db \<Rightarrow> review_run_record option \<times> dropped_row list" where
  "getRun cfg runId db =
     (case findRunRow db (connectorId cfg) runId of
        None \<Rightarrow> (None, [])
      | Some row \<Rightarrow>
          (case rowToRecord row of
             Inr r \<Rightarrow> (Some r, [])
           | Inl err \<Rightarrow> (None, [\<lparr>dropped_run_id = rr_run_id (row_trunk row), dropped_error = err\<rparr>])))"

subsection \<open>Listing\<close>

record list_options =
  lo_limit :: "nat option"
  lo_cursor :: "string option"
  lo_execution_status :: "exec_state option"
  lo_publication_status :: "pub_state option"
  lo_preparation_status :: "prep_state option"
  lo_source_platform :: "string option"
  lo_workflow :: "workflow_name option"
  lo_from :: "string option"
  lo_to :: "string option"

definition row_key :: "run_row \<Rightarrow> instant \<times> string" where
  "row_key row = (rr_created_at (row_trunk row), rr_run_id (row_trunk row))"

fun wanted :: "'a option \<Rightarrow> 'a \<Rightarrow> bool" where
  "wanted None x = True"
| "wanted (Some y) x = (x = y)"

text \<open>The clauses other than the time bounds and the cursor. A missing LEFT JOINed axis passes its status filter.\<close>

definition row_matches :: "store_cfg \<Rightarrow> list_options \<Rightarrow> run_row \<Rightarrow> bool" where
  "row_matches cfg opts row \<longleftrightarrow>
     rr_connector_id (row_trunk row) = connectorId cfg \<and>
     wanted (lo_workflow opts) (rr_workflow (row_trunk row)) \<and>
     wanted (lo_source_platform opts) (rr_source_platform (row_trunk row)) \<and>
     (case row_execution row of None \<Rightarrow> True | Some e \<Rightarrow> wanted (lo_execution_status opts) (exec_status e)) \<and>
     wanted (lo_publication_status opts) (pub_status (row_publication row)) \<and>
     (case row_preparation row of None \<Rightarrow> True | Some p \<Rightarrow> wanted (lo_preparation_status opts) (prep_status p))"

text \<open>A text parameter compared with a \<^verbatim>\<open>timestamptz\<close> column is cast; an uncastable one fails the statement.\<close>

definition cast_time :: "(string \<Rightarrow> instant option) \<Rightarrow> string option \<Rightarrow> rr_error + instant option" where
  "cast_time pg_time text =
     (case text of
        None \<Rightarrow> Inr None
      | Some s \<Rightarrow>
          (case pg_time s of
             None \<Rightarrow> Inl (PlainError (''invalid input syntax for type timestamp with time zone: '' @ s))
           | Some t \<Rightarrow> Inr (Some t)))"

definition cast_cursor ::
  "(string \<Rightarrow> bool) \<Rightarrow> (string \<Rightarrow> instant option) \<Rightarrow> string option \<Rightarrow> rr_error + (instant \<times> string) option" where
  "cast_cursor date_ok pg_time text =
     (case text of
        None \<Rightarrow> Inr None
      | Some s \<Rightarrow>
          (case decodeRunListCursor date_ok s of
             None \<Rightarrow> Inl (PlainError ''Invalid run list cursor.'')
           | Some cur \<Rightarrow>
               (case cast_time pg_time (Some (created_at_cursor cur)) of
                  Inl err \<Rightarrow> Inl err
                | Inr t \<Rightarrow> Inr (map_option (\<lambda>t. (t, cursor_run_id cur)) t))))"

definition listRunRows ::
  "(string \<Rightarrow> bool) \<Rightarrow> (string \<Rightarrow> instant option) \<Rightarrow> store_cfg \<Rightarrow> list_options \<Rightarrow> nat \<Rightarrow> db \<Rightarrow> rr_error + run_row list" where
  "listRunRows date_ok pg_time cfg opts limit db =
     (case cast_cursor date_ok pg_time (lo_cursor opts) of
        Inl err \<Rightarrow> Inl err
      | Inr cur \<Rightarrow>
     (case cast_time pg_time (lo_from opts) of
        Inl err \<Rightarrow> Inl err
      | Inr since \<Rightarrow>
     (case cast_time pg_time (lo_to opts) of
        Inl err \<Rightarrow> Inl err
      | Inr until \<Rightarrow>
          Inr (take limit (rev (sort_key row_key
            (filter (\<lambda>row. row_matches cfg opts row \<and>
                (case since of None \<Rightarrow> True | Some t \<Rightarrow> t \<le> rr_created_at (row_trunk row)) \<and>
                (case until of None \<Rightarrow> True | Some t \<Rightarrow> rr_created_at (row_trunk row) < t) \<and>
                (case cur of None \<Rightarrow> True | Some b \<Rightarrow> row_key row < b))
              (run_select db))))))))"

record runs_page =
  page_runs :: "review_run_record list"
  page_next_cursor :: "string option"
  page_dropped :: "dropped_row list"

definition listRunsPage ::
  "(instant \<Rightarrow> string) \<Rightarrow> (string \<Rightarrow> bool) \<Rightarrow> (string \<Rightarrow> instant option) \<Rightarrow> store_cfg \<Rightarrow> list_options \<Rightarrow> db \<Rightarrow> rr_error + runs_page"
where
  "listRunsPage to_cursor date_ok pg_time cfg opts db =
     (let limit = coalesce (lo_limit opts) 50 in
      case listRunRows date_ok pg_time cfg opts (limit + 1) db of
        Inl err \<Rightarrow> Inl err
      | Inr rows \<Rightarrow>
         (let hasMore = (limit < length rows);
              page = take limit rows;
              next_cursor =
                (if hasMore \<and> page \<noteq> []
                 then Some (encodeRunListCursor
                        \<lparr>created_at_cursor = to_cursor (rr_created_at (row_trunk (last page))),
                         cursor_run_id = rr_run_id (row_trunk (last page))\<rparr>)
                 else None);
              proj = projectRunRows page
          in Inr \<lparr>page_runs = proj_runs proj, page_next_cursor = next_cursor, page_dropped = proj_dropped proj\<rparr>))"

subsection \<open>Queues\<close>

record parked_run =
  parked_run_id :: string
  parked_axis :: axis
  parked_reason :: "string option"
  parked_at :: instant

text \<open>The newest event into \<^verbatim>\<open>disconnected\<close>, or the row's own time.\<close>

definition parked_since :: "db \<Rightarrow> string \<Rightarrow> string \<Rightarrow> axis \<Rightarrow> axis_state \<Rightarrow> instant \<Rightarrow> instant" where
  "parked_since db c k ax st updated =
     (case rev (sort_key event_occurred_at (filter (\<lambda>e. event_run_id e = k \<and> event_connector_id e = c \<and>
              event_axis e = ax \<and> event_to_status e = st) (review_run_events db))) of
        [] \<Rightarrow> updated | e # _ \<Rightarrow> event_occurred_at e)"

definition listParkedRuns :: "store_cfg \<Rightarrow> db \<Rightarrow> parked_run list" where
  "listParkedRuns cfg db =
     (let c = connectorId cfg in
      sort_key (\<lambda>r. (parked_at r, parked_run_id r))
       (map (\<lambda>p. \<lparr>parked_run_id = prep_run_id p, parked_axis = AxisPreparation,
                  parked_reason = prep_disconnect_reason p,
                  parked_at = parked_since db c (prep_run_id p) AxisPreparation (PrepS PrepDisconnected) (prep_updated_at p)\<rparr>)
          (filter (\<lambda>p. prep_connector_id p = c \<and> prep_status p = PrepDisconnected) (preparations db)) @
        map (\<lambda>e. \<lparr>parked_run_id = exec_run_id e, parked_axis = AxisExecution,
                  parked_reason = Some ''SUBMISSION_RECOVERY_EXHAUSTED'',
                  parked_at = parked_since db c (exec_run_id e) AxisExecution (ExecS ExecDisconnected) (exec_updated_at e)\<rparr>)
          (filter (\<lambda>e. exec_connector_id e = c \<and> exec_status e = ExecDisconnected) (executions db)) @
        map (\<lambda>b. \<lparr>parked_run_id = pub_run_id b, parked_axis = AxisPublication,
                  parked_reason = Some ''PUBLICATION_RECONCILIATION_EXHAUSTED'',
                  parked_at = parked_since db c (pub_run_id b) AxisPublication (PubS PubDisconnected) (pub_updated_at b)\<rparr>)
          (filter (\<lambda>b. pub_connector_id b = c \<and> pub_status b = PubDisconnected) (publications db))))"

definition exec_updated :: "run_row \<Rightarrow> instant" where
  "exec_updated row = (case row_execution row of None \<Rightarrow> 0 | Some e \<Rightarrow> exec_updated_at e)"

definition listSubmissionRecoveries :: "store_cfg \<Rightarrow> instant \<Rightarrow> db \<Rightarrow> rows_projection" where
  "listSubmissionRecoveries cfg now db =
     projectRunRows (sort_key exec_updated (filter (\<lambda>row.
       rr_connector_id (row_trunk row) = connectorId cfg \<and>
       (case row_execution row of
          None \<Rightarrow> False
        | Some e \<Rightarrow> exec_status e = ExecUncertain \<and>
            (exec_claim_token e = None \<or> lease_expired cfg now (exec_claimed_at e)))) (run_select db)))"

definition listActiveRuns :: "store_cfg \<Rightarrow> db \<Rightarrow> rows_projection" where
  "listActiveRuns cfg db =
     projectRunRows (sort_key exec_updated (filter (\<lambda>row.
       rr_connector_id (row_trunk row) = connectorId cfg \<and>
       (case row_execution row of None \<Rightarrow> False | Some e \<Rightarrow> exec_status e \<in> {ExecQueued, ExecRunning})) (run_select db)))"

subsection \<open>Cursor texts\<close>

lemma decode_encode:
  assumes "plain_text (created_at_cursor cur)" "plain_text (cursor_run_id cur)" "date_ok (created_at_cursor cur)"
  shows "decodeRunListCursor date_ok (encodeRunListCursor cur) = Some cur"
proof -
  have "ascii (created_at_cursor cur @ ''|'' @ cursor_run_id cur)"
    using assms(1,2) by (simp add: plain_text_def ascii_def)
  then have "split_on (CHR ''|'') (utf8_text (from_base64url (encodeRunListCursor cur))) =
      [created_at_cursor cur, cursor_run_id cur]"
    using assms(1,2) by (simp add: encodeRunListCursor_def utf8_text_ascii split_on_join split_on_none plain_text_def)
  with assms show ?thesis by (simp add: decodeRunListCursor_def plain_text_def)
qed

subsection \<open>Pages\<close>

definition matching_rows ::
  "store_cfg \<Rightarrow> list_options \<Rightarrow> instant option \<Rightarrow> instant option \<Rightarrow> db \<Rightarrow> run_row list" where
  "matching_rows cfg opts since until db =
     rev (sort_key row_key (filter (\<lambda>row. row_matches cfg opts row \<and>
       (case since of None \<Rightarrow> True | Some t \<Rightarrow> t \<le> rr_created_at (row_trunk row)) \<and>
       (case until of None \<Rightarrow> True | Some t \<Rightarrow> rr_created_at (row_trunk row) < t)) (run_select db)))"

lemma listRunRows_matching:
  assumes "cast_cursor date_ok pg_time (lo_cursor opts) = Inr cur" "cast_time pg_time (lo_from opts) = Inr since"
    "cast_time pg_time (lo_to opts) = Inr until"
  shows "listRunRows date_ok pg_time cfg opts n db =
     Inr (take n (filter (below_key row_key cur) (matching_rows cfg opts since until db)))"
  using assms by (simp add: listRunRows_def matching_rows_def filter_newest_first below_key_def conj_assoc)

text \<open>The keys of the rows a store with keys selects are distinct, so the newest-first list is strictly descending.\<close>

lemma run_select_ids: "keys_ok db \<Longrightarrow> distinct (map (\<lambda>row. rr_run_id (row_trunk row)) (run_select db))"
proof -
  assume "keys_ok db"
  then have "distinct (map rr_run_id (review_runs db))" by (simp add: keys_ok_def)
  moreover have "set (map (\<lambda>row. rr_run_id (row_trunk row)) (concat (map (run_select_of db) rs))) \<subseteq> rr_run_id ` set rs" for rs
    by (induction rs) (auto simp: run_select_of_def Let_def split: option.splits)
  ultimately have "distinct (map (\<lambda>row. rr_run_id (row_trunk row)) (concat (map (run_select_of db) rs)))"
    if "distinct (map rr_run_id rs)" for rs
    using that by (induction rs) (fastforce simp: run_select_of_def Let_def split: option.splits)+
  with \<open>distinct (map rr_run_id (review_runs db))\<close> show ?thesis by (simp add: run_select_def)
qed

lemma distinct_row_keys: "keys_ok db \<Longrightarrow> distinct (map row_key (run_select db))"
  using run_select_ids [of db] unfolding distinct_map row_key_def
  by (auto simp: inj_on_def)

lemma matching_descending:
  assumes "keys_ok db"
  shows "sorted_wrt (\<lambda>x y. row_key y < row_key x) (matching_rows cfg opts since until db)"
  unfolding matching_rows_def
  by (rule newest_first_descending) (use distinct_row_keys [OF assms] in \<open>simp add: distinct_map inj_on_def\<close>)

lemma projectRunRows_append:
  "projectRunRows (xs @ ys) =
     \<lparr>proj_runs = proj_runs (projectRunRows xs) @ proj_runs (projectRunRows ys),
      proj_dropped = proj_dropped (projectRunRows xs) @ proj_dropped (projectRunRows ys)\<rparr>"
  by (induction xs) (auto simp: Let_def split: sum.splits)

text \<open>A reader that asks for page after page, following \<^verbatim>\<open>next_cursor\<close>.\<close>

fun read_pages ::
  "(instant \<Rightarrow> string) \<Rightarrow> (string \<Rightarrow> bool) \<Rightarrow> (string \<Rightarrow> instant option) \<Rightarrow> store_cfg \<Rightarrow> list_options \<Rightarrow> db \<Rightarrow> nat \<Rightarrow>
    rr_error + rows_projection"
where
  "read_pages to_cursor date_ok pg_time cfg opts db 0 = Inl (PlainError ''Unread pages.'')"
| "read_pages to_cursor date_ok pg_time cfg opts db (Suc n) =
     (case listRunsPage to_cursor date_ok pg_time cfg opts db of
        Inl err \<Rightarrow> Inl err
      | Inr page \<Rightarrow>
         (case page_next_cursor page of
            None \<Rightarrow> Inr \<lparr>proj_runs = page_runs page, proj_dropped = page_dropped page\<rparr>
          | Some cursor \<Rightarrow>
             (case read_pages to_cursor date_ok pg_time cfg (opts\<lparr>lo_cursor := Some cursor\<rparr>) db n of
                Inl err \<Rightarrow> Inl err
              | Inr rest \<Rightarrow> Inr \<lparr>proj_runs = page_runs page @ proj_runs rest,
                                proj_dropped = page_dropped page @ proj_dropped rest\<rparr>)))"

definition plain_run_ids :: "db \<Rightarrow> bool" where
  "plain_run_ids db = list_all (\<lambda>r. plain_text (rr_run_id r)) (review_runs db)"

lemma run_select_plain: "plain_run_ids db \<Longrightarrow> row \<in> set (run_select db) \<Longrightarrow> plain_text (rr_run_id (row_trunk row))"
  by (auto simp: plain_run_ids_def list_all_iff run_select_def run_select_of_def Let_def split: option.splits)

lemma matching_rows_mem: "row \<in> set (matching_rows cfg opts since until db) \<Longrightarrow> row \<in> set (run_select db)"
  by (simp add: matching_rows_def)

lemma matching_rows_cursor: "matching_rows cfg (opts\<lparr>lo_cursor := x\<rparr>) since until db = matching_rows cfg opts since until db"
  by (simp add: matching_rows_def row_matches_def cong: option.case_cong)

lemma cast_next_cursor:
  assumes "timestamp_texts to_cursor date_ok pg_time" "plain_text k"
  shows "cast_cursor date_ok pg_time (Some (encodeRunListCursor \<lparr>created_at_cursor = to_cursor t, cursor_run_id = k\<rparr>)) =
     Inr (Some (t, k))"
  using assms by (simp add: cast_cursor_def timestamp_texts_def decode_encode cast_time_def)

lemma read_pages_from:
  assumes texts: "timestamp_texts to_cursor date_ok pg_time" and store: "keys_ok db" "plain_run_ids db"
    and limit: "0 < coalesce (lo_limit opts) 50"
    and bounds: "cast_time pg_time (lo_from opts) = Inr since" "cast_time pg_time (lo_to opts) = Inr until"
    and cur: "cast_cursor date_ok pg_time (lo_cursor opts) = Inr cur"
    and fuel: "length (filter (below_key row_key cur) (matching_rows cfg opts since until db)) < n"
  shows "read_pages to_cursor date_ok pg_time cfg opts db n =
     Inr (projectRunRows (filter (below_key row_key cur) (matching_rows cfg opts since until db)))"
  using limit bounds cur fuel
proof (induction n arbitrary: opts cur)
  case 0
  then show ?case by simp
next
  case (Suc n)
  let ?l = "coalesce (lo_limit opts) 50"
  let ?rows = "matching_rows cfg opts since until db"
  let ?ys = "filter (below_key row_key cur) ?rows"
  note rows = listRunRows_matching [OF Suc.prems(4,2,3)]
  show ?case
  proof (cases "?l < length ?ys")
    case False
    then show ?thesis by (simp add: listRunsPage_def Let_def rows)
  next
    case True
    let ?z = "last (take ?l ?ys)"
    let ?cursor = "encodeRunListCursor \<lparr>created_at_cursor = to_cursor (rr_created_at (row_trunk ?z)),
        cursor_run_id = rr_run_id (row_trunk ?z)\<rparr>"
    have page: "listRunsPage to_cursor date_ok pg_time cfg opts db =
        Inr \<lparr>page_runs = proj_runs (projectRunRows (take ?l ?ys)), page_next_cursor = Some ?cursor,
             page_dropped = proj_dropped (projectRunRows (take ?l ?ys))\<rparr>"
      using True Suc.prems(1) by (auto simp: listRunsPage_def Let_def rows min_def)
    have "take ?l ?ys \<noteq> []" using True Suc.prems(1) by auto
    then have "?z \<in> set ?ys" by (meson in_set_takeD last_in_set)
    then have "plain_text (rr_run_id (row_trunk ?z))"
      using run_select_plain [OF store(2)] matching_rows_mem by fastforce
    then have cast: "cast_cursor date_ok pg_time (Some ?cursor) = Inr (Some (row_key ?z))"
      by (simp add: cast_next_cursor [OF texts] row_key_def)
    have rest: "filter (below_key row_key (Some (row_key ?z))) ?rows = drop ?l ?ys"
      by (rule filter_below_last [OF matching_descending [OF store(1)] Suc.prems(1) True])
    have "read_pages to_cursor date_ok pg_time cfg (opts\<lparr>lo_cursor := Some ?cursor\<rparr>) db n =
        Inr (projectRunRows (drop ?l ?ys))"
      using Suc.IH [of "opts\<lparr>lo_cursor := Some ?cursor\<rparr>" "Some (row_key ?z)"] Suc.prems cast rest True
      by (simp add: matching_rows_cursor)
    then show ?thesis
      using projectRunRows_append [of "take ?l ?ys" "drop ?l ?ys"] by (simp add: page)
  qed
qed

end
