(* ===== verification/Runtime.thy ===== *)
theory Runtime
  imports Queries Lifecycle ExecutionClient
begin

text \<open>
  \<^verbatim>\<open>services/review-runs/src/runtime\<close>: the coordination that runs on the store and the Execution client. A runtime action is
  a function of the world: the database and the schedule of the calls still to come. Each store call is one turn of the schedule, which
  says what the other processes did to the database before it, what the clock and the token generator answer, and whether the
  connection is lost, before the statement or after its commit; a lost call throws. What a thrown store error looks like to the handlers
  is \<open>store_error\<close>. \<open>w_lost\<close> is the flag of a publisher's heartbeat (Connector); nothing here touches it.
\<close>

subsection \<open>Actions\<close>

datatype fault = Clean | LostBefore js_error | LostAfter js_error

record turn =
  turn_others :: "db \<Rightarrow> db"
  turn_now :: instant
  turn_token :: uuid
  turn_fault :: fault

record world =
  w_db :: db
  w_turns :: "nat \<Rightarrow> turn"
  w_calls :: nat
  w_lost :: bool

type_synonym 'a act = "world \<Rightarrow> (js_error + 'a) \<times> world"

fun step_code_text :: "step_error_code \<Rightarrow> string" where
  "step_code_text SetDuplicate = ''PUBLICATION_STEP_SET_DUPLICATE''"
| "step_code_text SetChanged = ''PUBLICATION_STEP_SET_CHANGED''"
| "step_code_text RetryExhausted = ''PUBLICATION_STEP_RETRY_EXHAUSTED''"
| "step_code_text NotClaimable = ''PUBLICATION_STEP_NOT_CLAIMABLE''"

fun store_error :: "rr_error \<Rightarrow> js_error" where
  "store_error (PlainError m) = NamedError ''Error'' None m"
| "store_error (StatusError n m) = NamedError ''Error'' None m"
| "store_error (StepError c) = NamedError ''DeterministicReviewRunError'' (Some (step_code_text c)) []"
| "store_error (UniqueViolation c) = NamedError ''error'' (Some ''23505'') c"
| "store_error (CheckViolation c) = NamedError ''error'' (Some ''23514'') c"
| "store_error (ExpiryUnreconcilable m) = NamedError ''ExpiryUnreconcilableError'' None m"

definition call_with :: "(rr_error \<Rightarrow> js_error) \<Rightarrow> (instant \<Rightarrow> uuid \<Rightarrow> db \<Rightarrow> (rr_error + 'a) \<times> db) \<Rightarrow> 'a act" where
  "call_with thrown op w =
     (let t = w_turns w (w_calls w);
          db = turn_others t (w_db w);
          (out, db') = op (turn_now t) (turn_token t) db
      in case turn_fault t of
           LostBefore err \<Rightarrow> (Inl err, w\<lparr>w_db := db, w_calls := Suc (w_calls w)\<rparr>)
         | LostAfter err \<Rightarrow> (Inl err, w\<lparr>w_db := db', w_calls := Suc (w_calls w)\<rparr>)
         | Clean \<Rightarrow> ((case out of Inl err \<Rightarrow> Inl (thrown err) | Inr a \<Rightarrow> Inr a),
                     w\<lparr>w_db := db', w_calls := Suc (w_calls w)\<rparr>))"

abbreviation call :: "(instant \<Rightarrow> uuid \<Rightarrow> db \<Rightarrow> (rr_error + 'a) \<times> db) \<Rightarrow> 'a act" where
  "call \<equiv> call_with store_error"

definition ret :: "'a \<Rightarrow> 'a act" where
  "ret a w = (Inr a, w)"

definition throw :: "js_error \<Rightarrow> 'a act" where
  "throw err w = (Inl err, w)"

definition await :: "js_error + 'a \<Rightarrow> 'a act" where
  "await out w = (out, w)"

definition andThen :: "'a act \<Rightarrow> ('a \<Rightarrow> 'b act) \<Rightarrow> 'b act" where
  "andThen m f w = (case m w of (Inl err, w') \<Rightarrow> (Inl err, w') | (Inr a, w') \<Rightarrow> f a w')"

definition catch :: "'a act \<Rightarrow> (js_error \<Rightarrow> 'a act) \<Rightarrow> 'a act" where
  "catch m h w = (case m w of (Inl err, w') \<Rightarrow> h err w' | (Inr a, w') \<Rightarrow> (Inr a, w'))"

primrec for_each :: "('a \<Rightarrow> unit act) \<Rightarrow> 'a list \<Rightarrow> unit act" where
  "for_each f [] = ret ()"
| "for_each f (x # xs) = andThen (f x) (\<lambda>_. for_each f xs)"

text \<open>A query is a call that leaves the database as it found it.\<close>

definition ask :: "(instant \<Rightarrow> db \<Rightarrow> 'a) \<Rightarrow> 'a act" where
  "ask q = call (\<lambda>now tok db. (Inr (q now db), db))"

subsection \<open>Submission recovery\<close>

datatype recovery_result =
    ClaimUnavailable
  | InputMissing
  | Recovered
  | ClaimLost
  | Deferred js_error
  | RecoveryDisconnected
  | RecoveryFailed js_error

definition MAX_SUBMISSION_RECOVERY_ATTEMPTS :: nat where
  "MAX_SUBMISSION_RECOVERY_ATTEMPTS = 8"

record classified_error =
  ce_uncertain :: bool
  ce_code :: "string option"
  ce_message :: string

text \<open>\<^verbatim>\<open>submit\<close> is what the Execution client answers to this replay.\<close>

definition recoverReviewRunSubmission ::
  "store_cfg \<Rightarrow> review_run_record \<Rightarrow> (workflow_name \<Rightarrow> string \<Rightarrow> json \<Rightarrow> js_error + unit) \<Rightarrow>
    (js_error \<Rightarrow> classified_error) \<Rightarrow> recovery_result act"
where
  "recoverReviewRunSubmission cfg run submit classifyError =
     andThen (call (\<lambda>now tok. claimSubmissionRecovery cfg now tok (rec_run_id run))) (\<lambda>claim.
     case claim of
       None \<Rightarrow> ret ClaimUnavailable
     | Some claimToken \<Rightarrow>
        (case rec_execution_input run of
           None \<Rightarrow>
             andThen (call (\<lambda>now tok. failSubmissionRecovery cfg now (rec_run_id run) claimToken
               (Some ''SUBMISSION_RECOVERY_INPUT_MISSING'',
                ''The persisted Execution input is missing; this submission cannot be recovered.''))) (\<lambda>_. ret InputMissing)
         | Some input \<Rightarrow>
             catch
               (andThen (await (submit (rec_workflow run) (rec_run_id run) input)) (\<lambda>_.
                andThen (call (\<lambda>now tok. completeSubmissionRecovery cfg now (rec_run_id run) claimToken)) (\<lambda>done.
                ret (if done then Recovered else ClaimLost))))
               (\<lambda>err.
                 let classified = classifyError err in
                 if ce_uncertain classified
                 then andThen (call (\<lambda>now tok. recordUnknownRecoveryOutcome cfg now (rec_run_id run) claimToken))
                        (\<lambda>_. ret (Deferred err))
                 else andThen (call (\<lambda>now tok. failSubmissionRecovery cfg now (rec_run_id run) claimToken
                        (ce_code classified, ce_message classified))) (\<lambda>_. ret (RecoveryFailed err)))))"

definition concludeExhaustedSubmissionRecovery :: "store_cfg \<Rightarrow> review_run_record \<Rightarrow> recovery_result option act" where
  "concludeExhaustedSubmissionRecovery cfg run =
     andThen (ask (\<lambda>now. submissionRecoveryAttemptCount cfg (rec_run_id run))) (\<lambda>attempts.
     case attempts of
       None \<Rightarrow> ret None
     | Some n \<Rightarrow>
         if n < MAX_SUBMISSION_RECOVERY_ATTEMPTS then ret None
         else andThen (call (\<lambda>now tok. disconnectExhaustedSubmissionRecovery cfg now (rec_run_id run)
                MAX_SUBMISSION_RECOVERY_ATTEMPTS))
              (\<lambda>disconnected. ret (if disconnected then Some RecoveryDisconnected else None)))"

text \<open>The handler of \<^verbatim>\<open>server-runtime.ts\<close> with its error classification; its log lines are left out.\<close>

definition classifySubmissionError :: "js_error \<Rightarrow> classified_error" where
  "classifySubmissionError err =
     \<lparr>ce_uncertain = is_uncertain err,
      ce_code = Some (if is_uncertain err then SUBMISSION_STATE_UNCERTAIN else coalesce (error_code err) ''REVIEW_START_FAILED''),
      ce_message = error_message err\<rparr>"

definition recoverSubmission :: "store_cfg \<Rightarrow> runtime \<Rightarrow> review_run_record \<Rightarrow> unit act" where
  "recoverSubmission cfg rt run =
     andThen (concludeExhaustedSubmissionRecovery cfg run) (\<lambda>exhausted.
     if exhausted \<noteq> None then ret ()
     else andThen (recoverReviewRunSubmission cfg run (submitExecutionRun rt) classifySubmissionError) (\<lambda>_. ret ()))"

subsection \<open>Prepared submission\<close>

definition submission_failure :: "bool \<Rightarrow> js_error \<Rightarrow> string option \<times> string" where
  "submission_failure executionAccepted err =
     (Some (if executionAccepted \<or> is_uncertain err then SUBMISSION_STATE_UNCERTAIN
            else coalesce (error_code err) ''REVIEW_START_FAILED''),
      error_message err)"

text \<open>The catch block: the cleanup's own failure is swallowed and the original error is thrown again.\<close>

definition abandonSubmission :: "store_cfg \<Rightarrow> string \<Rightarrow> uuid \<Rightarrow> bool \<Rightarrow> bool \<Rightarrow> js_error \<Rightarrow> 'a act" where
  "abandonSubmission cfg runId token executionAccepted submissionStarted err =
     andThen
       (catch (andThen (call (\<lambda>now tok. failPreparation cfg now runId token (submission_failure executionAccepted err)
                 (\<not> submissionStarted) None)) (\<lambda>_. ret ()))
          (\<lambda>_. ret ()))
       (\<lambda>_. throw err)"

text \<open>The value is the workflow of the answer \<^verbatim>\<open>{run_id, workflow, status: 'queued'}\<close>.\<close>

definition submitPreparedRun ::
  "store_cfg \<Rightarrow> string \<Rightarrow> uuid \<Rightarrow> json \<Rightarrow> json \<Rightarrow> (workflow_name \<Rightarrow> string \<Rightarrow> json \<Rightarrow> js_error + unit) \<Rightarrow> workflow_name act"
where
  "submitPreparedRun cfg runId preparationToken publishContext input submit =
     andThen (ask (\<lambda>now db. fst (getRun cfg runId db))) (\<lambda>found.
     case found of
       None \<Rightarrow> throw (NamedError ''Error'' (Some ''REVIEW_RUN_NOT_FOUND'') (''Review run does not exist: '' @ runId))
     | Some run \<Rightarrow>
         andThen
           (catch (call (\<lambda>now tok. savePreparedSubmission cfg now runId preparationToken publishContext input))
              (abandonSubmission cfg runId preparationToken False False)) (\<lambda>_.
         andThen
           (catch (await (submit (rec_workflow run) runId input))
              (abandonSubmission cfg runId preparationToken False True)) (\<lambda>_.
         andThen
           (catch (call (\<lambda>now tok. markQueued cfg now runId preparationToken publishContext))
              (abandonSubmission cfg runId preparationToken True True)) (\<lambda>_.
         ret (rec_workflow run)))))"

subsection \<open>Observation\<close>

datatype observation_result = Active | ObservedSucceeded | ObservedFailed | PollRetry

datatype observation_kind = PollRetryEvent | StateChangedEvent | TerminalRecordedEvent

record observation_event =
  oe_kind :: observation_kind
  oe_run_id :: string
  oe_workflow :: workflow_name
  oe_from :: exec_state
  oe_to :: observation_result
  oe_error_code :: "string option"

definition errorInfo :: "js_error \<Rightarrow> string option \<times> string" where
  "errorInfo err = (Some (coalesce (error_code err) ''EXECUTION_FAILED''), error_message err)"

definition observation :: "review_run_record \<Rightarrow> observation_kind \<Rightarrow> observation_result \<Rightarrow> string option \<Rightarrow> observation_event" where
  "observation run kind to code =
     \<lparr>oe_kind = kind, oe_run_id = rec_run_id run, oe_workflow = rec_workflow run,
      oe_from = as_status (rec_execution run), oe_to = to, oe_error_code = code\<rparr>"

text \<open>The error of a failed run as it is stored: the client does not check the types of its fields, so what the database driver makes
  of one is the parameter \<open>pg_text\<close>.\<close>

definition reported_error :: "(json \<Rightarrow> string) \<Rightarrow> string \<Rightarrow> json option \<Rightarrow> string option \<times> string" where
  "reported_error pg_text runId err =
     (case err of
        None \<Rightarrow> (Some ''EXECUTION_FAILED'', ''Execution run failed without an error: '' @ runId)
      | Some e \<Rightarrow> (Some (coalesce (map_option pg_text (json_given e ''code'')) ''EXECUTION_FAILED''),
                   coalesce (map_option pg_text (json_given e ''message'')) ''Execution failed.''))"

text \<open>The value is the answer and the events passed to \<^verbatim>\<open>onEvent\<close>.\<close>

definition observeExecutionRun ::
  "(json \<Rightarrow> string) \<Rightarrow> store_cfg \<Rightarrow> review_run_record \<Rightarrow> (string \<Rightarrow> workflow_name \<Rightarrow> js_error + execution_run_status) \<Rightarrow>
    (js_error \<Rightarrow> bool) \<Rightarrow> (observation_result \<times> observation_event list) act"
where
  "observeExecutionRun pg_text cfg run getStatus isTerminalPollingError =
     (let k = rec_run_id run in
      case getStatus k (rec_workflow run) of
        Inl err \<Rightarrow>
          if \<not> isTerminalPollingError err then ret (PollRetry, [observation run PollRetryEvent PollRetry None])
          else andThen (call (\<lambda>now tok. failExecution cfg now k (errorInfo err) None)) (\<lambda>_.
               ret (ObservedFailed, [observation run TerminalRecordedEvent ObservedFailed (fst (errorInfo err))]))
      | Inr status \<Rightarrow>
          if ers_status status = ''running'' then
            andThen (call (\<lambda>now tok. markRunning cfg now k)) (\<lambda>marked.
            if \<not> marked then andThen (call (\<lambda>now tok. touchObservation cfg now k)) (\<lambda>_. ret (Active, []))
            else ret (Active, [observation run StateChangedEvent Active None]))
          else if ers_status status \<noteq> ''succeeded'' \<and> ers_status status \<noteq> ''failed'' then
            andThen (call (\<lambda>now tok. touchObservation cfg now k)) (\<lambda>_. ret (Active, []))
          else if ers_status status = ''failed'' then
            andThen (call (\<lambda>now tok. failExecution cfg now k (reported_error pg_text k (ers_error status))
              (ers_artifact_storage status))) (\<lambda>recorded.
            if \<not> recorded then ret (ObservedFailed, [])
            else ret (ObservedFailed, [observation run TerminalRecordedEvent ObservedFailed
              (fst (reported_error pg_text k (ers_error status)))]))
          else if ers_result status = None then
            andThen (call (\<lambda>now tok. failExecution cfg now k
              (Some ''EXECUTION_RESULT_MISSING'', ''Execution succeeded without a workflow result.'') None)) (\<lambda>_.
            ret (ObservedFailed, [observation run TerminalRecordedEvent ObservedFailed (Some ''EXECUTION_RESULT_MISSING'')]))
          else
            andThen (call (\<lambda>now tok. recordExecutionSuccess cfg now k (ers_result status) (ers_artifact_storage status)))
              (\<lambda>recorded.
            if \<not> recorded then ret (ObservedSucceeded, [])
            else ret (ObservedSucceeded, [observation run TerminalRecordedEvent ObservedSucceeded None])))"

text \<open>A run whose batch entry is not final needs no read of its own.\<close>

definition executionStatusFromBatch ::
  "runtime \<Rightarrow> run_status_batch \<Rightarrow> string \<Rightarrow> workflow_name \<Rightarrow> js_error + execution_run_status" where
  "executionStatusFromBatch rt batch runId workflow =
     (case rsb_byRunId batch runId of
        Some status \<Rightarrow>
          if status \<notin> {''succeeded'', ''failed''}
          then Inr \<lparr>ers_run_id = runId, ers_workflow = JStr (workflow_text workflow), ers_status = status, ers_result = None,
                    ers_memory_processing = None, ers_error = None, ers_artifact_storage = None\<rparr>
          else getExecutionRunStatus rt runId (Some workflow)
      | None \<Rightarrow> getExecutionRunStatus rt runId (Some workflow))"

subsection \<open>One coordination pass\<close>

text \<open>\<open>rt n\<close> is the runtime as the \<open>n\<close>th request of the pass finds it: the network answers differently each time. \<open>locked\<close>
  are the preparations other transactions hold. The reports of dropped rows and blocked expiries are log lines.\<close>

primrec recover_all :: "store_cfg \<Rightarrow> (nat \<Rightarrow> runtime) \<Rightarrow> nat \<Rightarrow> review_run_record list \<Rightarrow> unit act" where
  "recover_all cfg rt n [] = ret ()"
| "recover_all cfg rt n (run # runs) = andThen (recoverSubmission cfg (rt n) run) (\<lambda>_. recover_all cfg rt (Suc n) runs)"

primrec observe_all ::
  "(json \<Rightarrow> string) \<Rightarrow> store_cfg \<Rightarrow> (nat \<Rightarrow> runtime) \<Rightarrow> run_status_batch \<Rightarrow> nat \<Rightarrow> review_run_record list \<Rightarrow> observation_event list act"
where
  "observe_all pg_text cfg rt statuses n [] = ret []"
| "observe_all pg_text cfg rt statuses n (run # runs) =
     andThen (observeExecutionRun pg_text cfg run (executionStatusFromBatch (rt n) statuses) isTerminalExecutionPollingError)
       (\<lambda>(result, events). andThen (observe_all pg_text cfg rt statuses (Suc n) runs) (\<lambda>rest. ret (events @ rest)))"

definition coordinateReviewRunsOnce ::
  "(json \<Rightarrow> string) \<Rightarrow> store_cfg \<Rightarrow> (nat \<Rightarrow> runtime) \<Rightarrow> (string \<Rightarrow> bool) \<Rightarrow> observation_event list act" where
  "coordinateReviewRunsOnce pg_text cfg rt locked =
     andThen (call (\<lambda>now tok. expireStale cfg now locked)) (\<lambda>expiry.
     andThen (ask (\<lambda>now. listSubmissionRecoveries cfg now)) (\<lambda>recoveries.
     andThen (recover_all cfg rt 0 (proj_runs recoveries)) (\<lambda>_.
     andThen (ask (\<lambda>now. listActiveRuns cfg)) (\<lambda>active.
     if proj_runs active = [] then ret []
     else
       (let n = length (proj_runs recoveries) in
        andThen (await (getExecutionRunStatuses (rt n) (map rec_run_id (proj_runs active)))) (\<lambda>statuses.
        observe_all pg_text cfg rt statuses (Suc n) (proj_runs active)))))))"

subsection \<open>The loop\<close>

text \<open>\<^verbatim>\<open>startReviewRunCoordinatorLoop\<close>: the timer and the immediate fire \<^verbatim>\<open>tick\<close>, a pass runs until it settles, and
  \<^verbatim>\<open>stop\<close> resolves once no pass is active. \<open>passes\<close> are the passes started so far, by whether they have settled.\<close>

record coordinator_loop =
  loop_stopped :: bool
  loop_active :: "nat option"
  loop_passes :: "bool list"
  loop_stop_resolved :: bool

definition loop_init :: coordinator_loop where
  "loop_init = \<lparr>loop_stopped = False, loop_active = None, loop_passes = [], loop_stop_resolved = False\<rparr>"

definition tick :: "coordinator_loop \<Rightarrow> coordinator_loop" where
  "tick l =
     (if loop_stopped l \<or> loop_active l \<noteq> None then l
      else l\<lparr>loop_active := Some (length (loop_passes l)), loop_passes := loop_passes l @ [False]\<rparr>)"

inductive loop_step :: "coordinator_loop \<Rightarrow> coordinator_loop \<Rightarrow> bool" where
  fires: "loop_step l (tick l)"
| settles: "i < length (loop_passes l) \<Longrightarrow> \<not> loop_passes l ! i \<Longrightarrow>
    loop_step l (l\<lparr>loop_passes := (loop_passes l)[i := True], loop_active := None\<rparr>)"
| stop: "loop_step l (l\<lparr>loop_stopped := True\<rparr>)"
| stopped: "loop_stopped l \<Longrightarrow> loop_active l = None \<Longrightarrow> loop_step l (l\<lparr>loop_stop_resolved := True\<rparr>)"

end
