(* ===== verification/ReadModel.thy ===== *)
theory ReadModel
  imports Queries Scenario
begin

text \<open>
  What the read model promises of a reachable store: every run can be read, the queues of the coordinator hold
  exactly the runs that need it, and a reader that follows the cursors sees every matching run once, newest first.
\<close>

subsection \<open>Rows of the join\<close>

lemma join_row:
  assumes "row \<in> set (run_select db)"
  shows "row_execution row = exec_of db (rr_connector_id (row_trunk row)) (rr_run_id (row_trunk row))"
    "row_preparation row = prep_of db (rr_connector_id (row_trunk row)) (rr_run_id (row_trunk row))"
    "Some (row_publication row) = pub_of db (rr_connector_id (row_trunk row)) (rr_run_id (row_trunk row))"
    "row_trunk row \<in> set (review_runs db)"
  using assms by (auto simp: run_select_def run_select_of_def Let_def split: option.splits)

lemma map_pair_zip: "map (\<lambda>x. (f x, g x)) xs = zip (map f xs) (map g xs)"
  by (induction xs) auto

lemma exec_keys:
  assumes "keys_ok db"
  shows "(\<lambda>e. (exec_run_id e, exec_connector_id e)) ` set (executions db) =
     (\<lambda>r. (rr_run_id r, rr_connector_id r)) ` set (review_runs db)"
proof -
  have "map (\<lambda>e. (exec_run_id e, exec_connector_id e)) (executions db) =
      map (\<lambda>r. (rr_run_id r, rr_connector_id r)) (review_runs db)"
    using assms by (simp add: keys_ok_def map_pair_zip)
  from arg_cong [OF this, of set] show ?thesis by simp
qed

text \<open>Every execution row is joined to its trunk and its publication.\<close>

lemma join_complete:
  assumes "db_inv db" "exec_of db c k = Some e"
  obtains row where "row \<in> set (run_select db)" "rr_run_id (row_trunk row) = k" "rr_connector_id (row_trunk row) = c"
proof -
  have "e \<in> set (executions db)" "exec_run_id e = k" "exec_connector_id e = c"
    using assms(2) by (auto simp: exec_of_def select_row_def at_key_def dest: find_SomeD)
  then have "(k, c) \<in> (\<lambda>e. (exec_run_id e, exec_connector_id e)) ` set (executions db)" by auto
  then obtain r where r: "r \<in> set (review_runs db)" "rr_run_id r = k" "rr_connector_id r = c"
    unfolding exec_keys [OF invD(1) [OF assms(1)]] by auto
  obtain b where "pub_of db c k = Some b"
    using invD(3) [OF assms(1), of c k] assms(2) by (auto elim: run_okE)
  with r have "hd (run_select_of db r) \<in> set (run_select db)" "row_trunk (hd (run_select_of db r)) = r"
    by (force simp: run_select_def run_select_of_def Let_def)+
  with r that show thesis by metis
qed

lemma run_select_length: "length (run_select db) \<le> length (review_runs db)"
proof -
  have "length (concat (map (run_select_of db) rs)) \<le> length rs" for rs
    by (induction rs) (auto simp: run_select_of_def Let_def split: option.splits)
  then show ?thesis by (simp add: run_select_def)
qed

subsection \<open>Every row can be read\<close>

lemma reachable_storages: "reachable db \<Longrightarrow> storages_ok db"
  using store.dir_steps [OF _ empty_db_inv, of db]
  by (auto simp: reachable_def advances_def storages_kept_def storages_ok_def empty_db_def exec_of_def select_row_def)

lemma normalize_readable: "pred_option storage_ok s \<Longrightarrow> normalizeArtifactStorage (map_option stored_artifact s) ctx = Inr s"
  by (cases s) (simp_all add: normalize_stored, simp add: normalizeArtifactStorage_def)

lemma join_row_read:
  assumes "reachable db" "row \<in> set (run_select db)"
  shows "\<exists>r. rowToRecord row = Inr r"
proof -
  let ?c = "rr_connector_id (row_trunk row)" and ?k = "rr_run_id (row_trunk row)"
  obtain p e where "prep_of db ?c ?k = Some p" "exec_of db ?c ?k = Some e"
    using reachable_run [OF assms(1) join_row(3) [OF assms(2), symmetric]] by blast
  moreover have "pred_option storage_ok (exec_artifact_storage e)"
    using reachable_storages [OF assms(1)] calculation(2) by (simp add: storages_ok_def)
  ultimately show ?thesis
    using join_row(1,2) [OF assms(2)] by (simp add: rowToRecord_def Let_def normalize_readable)
qed

lemma record_columns:
  assumes "rowToRecord row = Inr r"
  shows "rec_run_id r = rr_run_id (row_trunk row)" "rec_created_at r = iso (rr_created_at (row_trunk row))"
  using assms by (auto simp: rowToRecord_def Let_def split: option.splits sum.splits)

lemma projection_total:
  assumes "\<And>row. row \<in> set rows \<Longrightarrow> \<exists>r. rowToRecord row = Inr r"
  shows "proj_dropped (projectRunRows rows) = []"
    "map rec_run_id (proj_runs (projectRunRows rows)) = map (\<lambda>row. rr_run_id (row_trunk row)) rows"
    "map rec_created_at (proj_runs (projectRunRows rows)) = map (\<lambda>row. iso (rr_created_at (row_trunk row))) rows"
  using assms by (induction rows) (fastforce simp: Let_def record_columns split: sum.splits)+

text \<open>The coordinator's queues select on the execution axis.\<close>

definition queue_of :: "(execution_row \<Rightarrow> bool) \<Rightarrow> store_cfg \<Rightarrow> db \<Rightarrow> rows_projection" where
  "queue_of Q cfg db =
     projectRunRows (sort_key exec_updated (filter (\<lambda>row. rr_connector_id (row_trunk row) = connectorId cfg \<and>
       (case row_execution row of None \<Rightarrow> False | Some e \<Rightarrow> Q e)) (run_select db)))"

lemma queue_exact:
  assumes "reachable db"
  shows "proj_dropped (queue_of Q cfg db) = []" "distinct (map rec_run_id (proj_runs (queue_of Q cfg db)))"
    "set (map rec_run_id (proj_runs (queue_of Q cfg db))) = {k. \<exists>e. exec_of db (connectorId cfg) k = Some e \<and> Q e}"
proof -
  let ?S = "filter (\<lambda>row. rr_connector_id (row_trunk row) = connectorId cfg \<and>
       (case row_execution row of None \<Rightarrow> False | Some e \<Rightarrow> Q e)) (run_select db)"
  have read: "proj_dropped (queue_of Q cfg db) = []"
    "map rec_run_id (proj_runs (queue_of Q cfg db)) = map (\<lambda>row. rr_run_id (row_trunk row)) (sort_key exec_updated ?S)"
    unfolding queue_of_def by (rule projection_total; use join_row_read [OF assms] in auto)+
  show "proj_dropped (queue_of Q cfg db) = []" by (rule read(1))
  show "distinct (map rec_run_id (proj_runs (queue_of Q cfg db)))"
    unfolding read(2) using run_select_ids [OF invD(1) [OF reachable_invD [OF assms]]]
    by (simp add: distinct_map inj_on_def)
  have "set (map rec_run_id (proj_runs (queue_of Q cfg db))) = (\<lambda>row. rr_run_id (row_trunk row)) ` set ?S"
    unfolding read(2) by simp
  also have "\<dots> = {k. \<exists>e. exec_of db (connectorId cfg) k = Some e \<and> Q e}"
  proof (intro equalityI subsetI)
    fix k assume "k \<in> (\<lambda>row. rr_run_id (row_trunk row)) ` set ?S"
    then show "k \<in> {k. \<exists>e. exec_of db (connectorId cfg) k = Some e \<and> Q e}"
      by (auto simp: join_row(1) split: option.splits)
  next
    fix k assume "k \<in> {k. \<exists>e. exec_of db (connectorId cfg) k = Some e \<and> Q e}"
    then obtain e where e: "exec_of db (connectorId cfg) k = Some e" "Q e" by auto
    obtain row where "row \<in> set (run_select db)" "rr_run_id (row_trunk row) = k"
      "rr_connector_id (row_trunk row) = connectorId cfg"
      by (rule join_complete [OF reachable_invD [OF assms] e(1)])
    with e show "k \<in> (\<lambda>row. rr_run_id (row_trunk row)) ` set ?S"
      by (auto simp: join_row(1) intro!: image_eqI [of _ _ row])
  qed
  finally show "set (map rec_run_id (proj_runs (queue_of Q cfg db))) =
      {k. \<exists>e. exec_of db (connectorId cfg) k = Some e \<and> Q e}" .
qed

lemma listActiveRuns_queue: "listActiveRuns cfg db = queue_of (\<lambda>e. exec_status e \<in> {ExecQueued, ExecRunning}) cfg db"
  unfolding listActiveRuns_def queue_of_def ..

lemma listSubmissionRecoveries_queue:
  "listSubmissionRecoveries cfg now db = queue_of (\<lambda>e. exec_status e = ExecUncertain \<and>
     (exec_claim_token e = None \<or> lease_expired cfg now (exec_claimed_at e))) cfg db"
  unfolding listSubmissionRecoveries_def queue_of_def ..

subsection \<open>Properties\<close>

lemma readable_record:
  assumes "reachable db" "exec_of db c k = Some e"
  obtains row r p b where "findRunRow db c k = Some row" "rowToRecord row = Inr r" "rec_run_id r = k" "rec_connector_id r = c"
    "prep_of db c k = Some p" "pub_of db c k = Some b" "ps_status (rec_preparation r) = prep_status p"
    "as_status (rec_execution r) = exec_status e" "as_status (rec_publication r) = pub_status b"
    "rec_artifact_storage r = exec_artifact_storage e"
proof -
  obtain row0 where "row0 \<in> set (run_select db)" "rr_run_id (row_trunk row0) = k" "rr_connector_id (row_trunk row0) = c"
    by (rule join_complete [OF reachable_invD [OF assms(1)] assms(2)])
  then obtain row where found: "findRunRow db c k = Some row"
    by (cases "findRunRow db c k") (auto simp: findRunRow_def find_None_iff)
  then have row: "row \<in> set (run_select db)" "rr_run_id (row_trunk row) = k" "rr_connector_id (row_trunk row) = c"
    by (auto simp: findRunRow_def dest: find_SomeD)
  obtain p where p: "prep_of db c k = Some p"
    using reachable_run [OF assms(1)] join_row(3) [OF row(1)] row(2,3) by metis
  have "pred_option storage_ok (exec_artifact_storage e)"
    using reachable_storages [OF assms(1)] assms(2) by (simp add: storages_ok_def)
  then show thesis
    using found join_row(1,2) [OF row(1)] join_row(3) [OF row(1), symmetric] row(2,3) p assms(2)
    by (auto simp: rowToRecord_def Let_def normalize_readable intro!: that)
qed

text \<open>C14. Every run of a reachable store can be read: \<open>getRun\<close> reports nothing dropped and returns a record whose three
  statuses are those of the stored axes.\<close>

theorem every_run_readable:
  assumes "reachable db" "exec_of db (connectorId cfg) k = Some e"
  shows "\<exists>r p b. getRun cfg k db = (Some r, []) \<and> rec_run_id r = k \<and> rec_connector_id r = connectorId cfg \<and>
     prep_of db (connectorId cfg) k = Some p \<and> pub_of db (connectorId cfg) k = Some b \<and>
     ps_status (rec_preparation r) = prep_status p \<and> as_status (rec_execution r) = exec_status e \<and>
     as_status (rec_publication r) = pub_status b \<and> rec_artifact_storage r = exec_artifact_storage e"
  by (rule readable_record [OF assms]) (simp add: getRun_def)

theorem every_run_readable_witness:
  "\<exists>r. getRun demo_cfg ''run-1'' demo_parked = (Some r, []) \<and> as_status (rec_publication r) = PubDisconnected"
proof -
  have "exec_of demo_parked ''github:1'' ''run-1'' \<noteq> None" by code_simp
  then obtain e where "exec_of demo_parked (connectorId demo_cfg) ''run-1'' = Some e" by (auto simp: demo_cfg_def)
  from every_run_readable [OF demo_parked_reachable(3) this] show ?thesis
    using demo_states(3) by (auto simp: demo_cfg_def)
qed

text \<open>The queues the coordinator works from are exact: each active run, and each uncertain run whose recovery claim is free
  or expired, is listed exactly once, no other run is, and no row is dropped.\<close>

theorem coordinator_queues_exact:
  assumes "reachable db"
  shows "proj_dropped (listActiveRuns cfg db) = [] \<and> proj_dropped (listSubmissionRecoveries cfg now db) = [] \<and>
     distinct (map rec_run_id (proj_runs (listActiveRuns cfg db))) \<and>
     distinct (map rec_run_id (proj_runs (listSubmissionRecoveries cfg now db))) \<and>
     set (map rec_run_id (proj_runs (listActiveRuns cfg db))) =
       {k. \<exists>e. exec_of db (connectorId cfg) k = Some e \<and> exec_status e \<in> {ExecQueued, ExecRunning}} \<and>
     set (map rec_run_id (proj_runs (listSubmissionRecoveries cfg now db))) =
       {k. \<exists>e. exec_of db (connectorId cfg) k = Some e \<and> exec_status e = ExecUncertain \<and>
          (exec_claim_token e = None \<or> lease_expired cfg now (exec_claimed_at e))}"
  unfolding listActiveRuns_queue listSubmissionRecoveries_queue using queue_exact [OF assms] by simp

theorem coordinator_queues_exact_witness:
  "''run-1'' \<in> set (map rec_run_id (proj_runs (listSubmissionRecoveries demo_cfg 2 demo_lost)))"
proof -
  have "map_option (\<lambda>e. (exec_status e, exec_claim_token e)) (exec_of demo_lost ''github:1'' ''run-1'') =
      Some (ExecUncertain, None)" by code_simp
  then have "\<exists>e. exec_of demo_lost (connectorId demo_cfg) ''run-1'' = Some e \<and> exec_status e = ExecUncertain \<and>
      exec_claim_token e = None" by (auto simp: demo_cfg_def)
  then show ?thesis using coordinator_queues_exact [OF demo_lost_reachable(1), of demo_cfg 2] by blast
qed

text \<open>The operator's list of parked runs names exactly the disconnected executions and publications of the
  connector.\<close>

theorem parked_list_exact:
  assumes "reachable db"
  shows "(\<lambda>r. (parked_run_id r, parked_axis r)) ` set (listParkedRuns cfg db) =
     {(k, AxisPreparation) | k. \<exists>p. prep_of db (connectorId cfg) k = Some p \<and> prep_status p = PrepDisconnected} \<union>
     {(k, AxisExecution) | k. \<exists>e. exec_of db (connectorId cfg) k = Some e \<and> exec_status e = ExecDisconnected} \<union>
     {(k, AxisPublication) | k. \<exists>b. pub_of db (connectorId cfg) k = Some b \<and> pub_status b = PubDisconnected}"
proof -
  note mem = axis_of_mem [OF invD(1) [OF reachable_invD [OF assms]]]
  have keys: "prep_of db c k = Some p \<longleftrightarrow> p \<in> set (preparations db) \<and> prep_run_id p = k \<and> prep_connector_id p = c"
    "exec_of db c k = Some e \<longleftrightarrow> e \<in> set (executions db) \<and> exec_run_id e = k \<and> exec_connector_id e = c"
    "pub_of db c k = Some b \<longleftrightarrow> b \<in> set (publications db) \<and> pub_run_id b = k \<and> pub_connector_id b = c" for c k p e b
    using mem by (auto simp: prep_of_def exec_of_def pub_of_def select_row_def at_key_def dest: find_SomeD)
  show ?thesis
    unfolding listParkedRuns_def Let_def keys set_sort set_append set_map image_Un image_image Un_assoc
    by (intro arg_cong2 [where f = "(\<union>)"]) auto
qed

theorem parked_list_exact_witness:
  "\<exists>r. r \<in> set (listParkedRuns demo_cfg demo_parked) \<and> parked_run_id r = ''run-1'' \<and> parked_axis r = AxisPublication"
proof -
  have "(''run-1'', AxisPublication) \<in> {(k, AxisPublication) | k. \<exists>b. pub_of demo_parked (connectorId demo_cfg) k = Some b \<and>
      pub_status b = PubDisconnected}"
    using demo_states(3) by (auto simp: demo_cfg_def)
  then have "(''run-1'', AxisPublication) \<in> (\<lambda>r. (parked_run_id r, parked_axis r)) ` set (listParkedRuns demo_cfg demo_parked)"
    unfolding parked_list_exact [OF demo_parked_reachable(3)] by blast
  then show ?thesis by auto
qed

text \<open>A page cursor decodes to the position it was made from.\<close>

theorem cursor_round_trip:
  assumes "plain_text (created_at_cursor cur)" "plain_text (cursor_run_id cur)" "date_ok (created_at_cursor cur)"
  shows "decodeRunListCursor date_ok (encodeRunListCursor cur) = Some cur"
  using assms by (rule decode_encode)

theorem cursor_round_trip_witness:
  "decodeRunListCursor (\<lambda>s. s \<noteq> [])
     (encodeRunListCursor \<lparr>created_at_cursor = ''2026-01-02T03:04:05.123456Z'', cursor_run_id = ''run-1''\<rparr>) =
   Some \<lparr>created_at_cursor = ''2026-01-02T03:04:05.123456Z'', cursor_run_id = ''run-1''\<rparr>"
  by (rule cursor_round_trip) code_simp+

text \<open>C13. A reader that follows \<^verbatim>\<open>next_cursor\<close> from the first page, with any positive page size, filters and time bounds, gets
  every run that matches exactly once, newest first, none dropped, after at most one request more than there are runs.\<close>

theorem pages_enumerate:
  assumes "reachable db" "timestamp_texts to_cursor date_ok pg_time" "plain_run_ids db"
    "0 < coalesce (lo_limit opts) 50" "lo_cursor opts = None"
    "cast_time pg_time (lo_from opts) = Inr since" "cast_time pg_time (lo_to opts) = Inr until" "length (review_runs db) < n"
  shows "\<exists>pages. read_pages to_cursor date_ok pg_time cfg opts db n = Inr pages \<and> proj_dropped pages = [] \<and>
     distinct (map rec_run_id (proj_runs pages)) \<and>
     set (map rec_run_id (proj_runs pages)) =
       {rr_run_id (row_trunk row) | row. row \<in> set (run_select db) \<and> row_matches cfg opts row \<and>
          pred_option (\<lambda>t. t \<le> rr_created_at (row_trunk row)) since \<and>
          pred_option (\<lambda>t. rr_created_at (row_trunk row) < t) until} \<and>
     sorted (rev (map rec_created_at (proj_runs pages)))"
proof -
  let ?rows = "matching_rows cfg opts since until db"
  have inv: "keys_ok db" by (rule invD(1) [OF reachable_invD [OF assms(1)]])
  have "length ?rows \<le> length (run_select db)" by (simp add: matching_rows_def)
  also have "\<dots> \<le> length (review_runs db)" by (rule run_select_length)
  finally have "length (filter (below_key row_key None) ?rows) < n" using assms(8) by (simp add: below_key_def)
  then have "read_pages to_cursor date_ok pg_time cfg opts db n = Inr (projectRunRows ?rows)"
    using read_pages_from [OF assms(2) inv assms(3,4), of since until None cfg n] assms(5-7)
    by (simp add: cast_cursor_def below_key_def)
  moreover have read: "\<exists>r. rowToRecord row = Inr r" if "row \<in> set ?rows" for row
    by (rule join_row_read [OF assms(1) matching_rows_mem [OF that]])
  moreover have "distinct (map (\<lambda>row. rr_run_id (row_trunk row)) ?rows)"
    using run_select_ids [OF inv] by (simp add: matching_rows_def distinct_map inj_on_def)
  moreover have "set (map (\<lambda>row. rr_run_id (row_trunk row)) ?rows) =
      {rr_run_id (row_trunk row) | row. row \<in> set (run_select db) \<and> row_matches cfg opts row \<and>
          pred_option (\<lambda>t. t \<le> rr_created_at (row_trunk row)) since \<and>
          pred_option (\<lambda>t. rr_created_at (row_trunk row) < t) until}"
    by (cases since; cases until) (auto simp: matching_rows_def)
  moreover have "sorted (rev (map (\<lambda>row. iso (rr_created_at (row_trunk row))) ?rows))"
    using matching_descending [OF inv, of cfg opts since until]
    by (auto simp: sorted_wrt_rev sorted_wrt_map row_key_def less_prod_def' iso_def intro!: zdiv_mono1
        elim!: sorted_wrt_mono_rel [rotated])
  ultimately show ?thesis by (simp add: projection_total del: set_map)
qed

definition demo_two :: db where
  "demo_two = snd (create demo_cfg ''github'' 5 7 (demo_run\<lparr>ca_run_id := ''run-2'', ca_ingress_key := Some ''d-2''\<rparr>) demo_parked)"

lemma demo_two_reachable: "reachable demo_two"
  unfolding demo_two_def by (intro reachable_step [OF _ store_step.create] demo_parked_reachable)

definition demo_list :: list_options where
  "demo_list = \<lparr>lo_limit = Some 1, lo_cursor = None, lo_execution_status = None, lo_publication_status = None,
     lo_preparation_status = None, lo_source_platform = Some ''github'', lo_workflow = None, lo_from = None, lo_to = Some ''+111111''\<rparr>"

theorem pages_enumerate_witness:
  "\<exists>pages. read_pages unary_text (\<lambda>s. s \<noteq> []) unary_time demo_cfg demo_list demo_two 3 = Inr pages \<and>
     distinct (map rec_run_id (proj_runs pages)) \<and> proj_dropped pages = []"
proof -
  have "plain_run_ids demo_two" "length (review_runs demo_two) < 3" "0 < coalesce (lo_limit demo_list) 50"
    "lo_cursor demo_list = None" "cast_time unary_time (lo_from demo_list) = Inr None"
    "cast_time unary_time (lo_to demo_list) = Inr (Some 6)"
    by code_simp+
  then show ?thesis
    using pages_enumerate [OF demo_two_reachable unary_texts, of demo_list None "Some 6" 3 demo_cfg] by blast
qed

end
