(* ===== verification/Coordination.thy ===== *)
theory Coordination
  imports Runtime ReadModel
begin

text \<open>
  What the coordination runtime is made of and what an observation records. Every action only performs store operations, so whatever the
  other processes do between its calls and wherever a connection is lost, it leads from reachable states to reachable states
  (\<open>stays\<close>, composed by the rules of the collection \<open>acts\<close>). An observed outcome is recorded as the status it stands for, and
  the loop runs one pass at a time. Submissions and their replays are in Recovery.
\<close>

subsection \<open>Actions are made of store operations\<close>

definition fair :: "world \<Rightarrow> bool" where
  "fair w \<longleftrightarrow> (\<forall>i db. store_step\<^sup>*\<^sup>* db (turn_others (w_turns w i) db))"

definition stays :: "'a act \<Rightarrow> bool" where
  "stays m \<longleftrightarrow> (\<forall>w. fair w \<longrightarrow> store_step\<^sup>*\<^sup>* (w_db w) (w_db (snd (m w))) \<and> w_turns (snd (m w)) = w_turns w)"

named_theorems acts

lemma staysD:
  assumes "stays m" "fair w"
  shows "store_step\<^sup>*\<^sup>* (w_db w) (w_db (snd (m w)))" "w_turns (snd (m w)) = w_turns w" "fair (snd (m w))"
  using assms by (simp_all add: stays_def fair_def)

lemma stays_call:
  assumes "\<And>now tok db. store_step\<^sup>*\<^sup>* db (snd (op now tok db))"
  shows "stays (call_with thrown op)"
  unfolding stays_def
proof (intro allI impI)
  fix w
  assume "fair w"
  let ?t = "w_turns w (w_calls w)"
  let ?db = "turn_others ?t (w_db w)"
  have "store_step\<^sup>*\<^sup>* (w_db w) ?db" using \<open>fair w\<close> by (simp add: fair_def)
  moreover have "store_step\<^sup>*\<^sup>* ?db (snd (op (turn_now ?t) (turn_token ?t) ?db))" by (rule assms)
  ultimately show "store_step\<^sup>*\<^sup>* (w_db w) (w_db (snd (call_with thrown op w))) \<and> w_turns (snd (call_with thrown op w)) = w_turns w"
    by (auto simp: call_with_def Let_def split_beta split: fault.split)
qed

lemma stays_store [acts]: "(\<And>now tok db. store_step db (snd (op now tok db))) \<Longrightarrow> stays (call_with thrown op)"
  by (rule stays_call) blast

lemma stays_ask [acts]: "stays (ask q)"
  unfolding ask_def by (rule stays_call) simp

lemma stays_pure [acts]: "stays (ret a)" "stays (throw err)" "stays (await out)"
  by (simp_all add: stays_def ret_def throw_def await_def)

lemma stays_andThen [acts]:
  assumes "stays m" "\<And>a. stays (f a)"
  shows "stays (andThen m f)"
  unfolding stays_def
proof (intro allI impI)
  fix w assume "fair w"
  note m = staysD [OF assms(1) this]
  show "store_step\<^sup>*\<^sup>* (w_db w) (w_db (snd (andThen m f w))) \<and> w_turns (snd (andThen m f w)) = w_turns w"
  proof (cases "fst (m w)")
    case (Inr a)
    then show ?thesis
      using m staysD [OF assms(2) m(3), of a] by (simp add: andThen_def split_beta)
  qed (use m in \<open>simp add: andThen_def split_beta\<close>)
qed

lemma stays_catch [acts]:
  assumes "stays m" "\<And>err. stays (h err)"
  shows "stays (catch m h)"
  unfolding stays_def
proof (intro allI impI)
  fix w assume "fair w"
  note m = staysD [OF assms(1) this]
  show "store_step\<^sup>*\<^sup>* (w_db w) (w_db (snd (catch m h w))) \<and> w_turns (snd (catch m h w)) = w_turns w"
  proof (cases "fst (m w)")
    case (Inl err)
    then show ?thesis
      using m staysD [OF assms(2) m(3), of err] by (simp add: catch_def split_beta)
  qed (use m in \<open>simp add: catch_def split_beta\<close>)
qed

lemma stays_if [acts]: "(b \<Longrightarrow> stays m) \<Longrightarrow> (\<not> b \<Longrightarrow> stays n) \<Longrightarrow> stays (if b then m else n)"
  by simp

lemma stays_option [acts]: "stays n \<Longrightarrow> (\<And>a. stays (f a)) \<Longrightarrow> stays (case x of None \<Rightarrow> n | Some a \<Rightarrow> f a)"
  by (cases x) simp_all

lemma stays_sum [acts]: "(\<And>err. stays (h err)) \<Longrightarrow> (\<And>a. stays (g a)) \<Longrightarrow> stays (case y of Inl err \<Rightarrow> h err | Inr a \<Rightarrow> g a)"
  by (cases y) simp_all

lemma stays_pair [acts]: "(\<And>a b. stays (f a b)) \<Longrightarrow> stays (case z of (a, b) \<Rightarrow> f a b)"
  by (cases z) simp

text \<open>The calls the runtime makes.\<close>

lemmas store_calls = store_step.claimSubmissionRecovery store_step.failSubmissionRecovery
  store_step.completeSubmissionRecovery store_step.recordUnknownRecoveryOutcome store_step.disconnectExhausted
  store_step.failPreparation store_step.savePreparedSubmission store_step.markQueued store_step.failExecution
  store_step.markRunning store_step.touchObservation store_step.recordExecutionSuccess store_step.expireStale

lemma stays_recoverReviewRunSubmission [acts]: "stays (recoverReviewRunSubmission cfg run submit classify)"
  unfolding recoverReviewRunSubmission_def Let_def by (intro acts store_calls)

lemma stays_concludeExhausted [acts]: "stays (concludeExhaustedSubmissionRecovery cfg run)"
  unfolding concludeExhaustedSubmissionRecovery_def by (intro acts store_calls)

lemma stays_recoverSubmission [acts]: "stays (recoverSubmission cfg rt run)"
  unfolding recoverSubmission_def by (intro acts store_calls)

lemma stays_submitPreparedRun: "stays (submitPreparedRun cfg k tok context inp submit)"
  unfolding submitPreparedRun_def abandonSubmission_def by (intro acts store_calls)

lemma stays_observeExecutionRun [acts]: "stays (observeExecutionRun pg_text cfg run getStatus terminal)"
  unfolding observeExecutionRun_def Let_def by (intro acts store_calls)

lemma stays_recover_all [acts]: "stays (recover_all cfg rt n runs)"
  by (induction runs arbitrary: n) (simp_all add: acts)

lemma stays_observe_all [acts]: "stays (observe_all pg_text cfg rt statuses n runs)"
  by (induction runs arbitrary: n) (simp_all add: acts)

lemma stays_coordinate: "stays (coordinateReviewRunsOnce pg_text cfg rt locked)"
  unfolding coordinateReviewRunsOnce_def Let_def by (intro acts store_calls)

subsection \<open>Quiet schedules\<close>

text \<open>Nobody else writes and no connection is lost.\<close>

definition quiet :: "world \<Rightarrow> bool" where
  "quiet w \<longleftrightarrow> (\<forall>i. turn_others (w_turns w i) = id \<and> turn_fault (w_turns w i) = Clean)"

definition clock :: "world \<Rightarrow> nat \<Rightarrow> instant" where
  "clock w i = turn_now (w_turns w (w_calls w + i))"

lemma call_quiet:
  "quiet w \<Longrightarrow> call_with thrown op w =
     ((case fst (op (clock w 0) (turn_token (w_turns w (w_calls w))) (w_db w)) of
         Inl err \<Rightarrow> Inl (thrown err) | Inr a \<Rightarrow> Inr a),
      w\<lparr>w_db := snd (op (clock w 0) (turn_token (w_turns w (w_calls w))) (w_db w)), w_calls := Suc (w_calls w)\<rparr>)"
  by (simp add: call_with_def quiet_def clock_def Let_def split_beta)

lemma quiet_world [simp]:
  "quiet (w_db_update f w) = quiet w" "quiet (w_calls_update g w) = quiet w"
  "clock (w_db_update f w) i = clock w i" "clock (w\<lparr>w_calls := w_calls w + n\<rparr>) i = clock w (n + i)"
  by (simp_all add: quiet_def clock_def add.assoc)

lemma quiet_fair: "quiet w \<Longrightarrow> fair w"
  by (simp add: quiet_def fair_def)

lemmas act_defs = andThen_def catch_def ret_def await_def ask_def call_quiet

lemma andThen_Inr: "m w = (Inr a, w') \<Longrightarrow> andThen m f w = f a w'"
  by (simp add: andThen_def)

lemma catch_Inr: "m w = (Inr a, w') \<Longrightarrow> catch m h w = (Inr a, w')"
  by (simp add: catch_def)

subsection \<open>Observed outcomes\<close>

text \<open>What an answer of the Execution means for an active run.\<close>

definition observed_status :: "js_error + execution_run_status \<Rightarrow> exec_state \<Rightarrow> exec_state" where
  "observed_status out st =
     (case out of
        Inl err \<Rightarrow> if isTerminalExecutionPollingError err then ExecFailed else st
      | Inr s \<Rightarrow>
          if ers_status s = ''running'' then ExecRunning
          else if ers_status s = ''failed'' then ExecFailed
          else if ers_status s = ''succeeded'' then (if ers_result s = None then ExecFailed else ExecSucceeded)
          else st)"

lemma client_storage:
  assumes "executionStatusFromBatch rt b k w = Inr s"
  shows "\<exists>a. storage_arg k (ers_artifact_storage s) = Inr a"
proof (cases "ers_artifact_storage s")
  case (Some st)
  then have "getExecutionRunStatus rt k (Some w) = Inr s"
    using assms by (auto simp: executionStatusFromBatch_def split: option.splits if_splits)
  then obtain v where "parseArtifactStorage (rt_num_text rt) (rt_parse_url rt) v k = Inr st"
    using Some by (auto simp: getExecutionRunStatus_def split: sum.splits option.splits prod.splits)
  then show ?thesis using parseArtifactStorage_narrows Some by (fastforce simp: storage_arg_def)
qed (simp add: storage_arg_def)

lemma active_ops:
  assumes "db_inv db" "exec_of db (connectorId cfg) k = Some e" "exec_status e \<in> {ExecQueued, ExecRunning}" "storage_arg k st = Inr a"
  shows "fst (failExecution cfg now k err st db) = Inr True"
    "map_option exec_status (exec_of (snd (failExecution cfg now k err st db)) (connectorId cfg) k) = Some ExecFailed"
    "fst (recordExecutionSuccess cfg now k res st db) = Inr True"
    "map_option exec_status (exec_of (snd (recordExecutionSuccess cfg now k res st db)) (connectorId cfg) k) = Some ExecSucceeded"
    "fst (markRunning cfg now k db) = Inr (exec_status e = ExecQueued)"
    "map_option exec_status (exec_of (snd (markRunning cfg now k db)) (connectorId cfg) k) = Some ExecRunning"
  using assms cnt_axis [OF invD(1) [OF assms(1)]] pick_axis [OF invD(1) [OF assms(1)]]
  by (auto simp: failExecution_def recordExecutionSuccess_def markRunning_def transaction_def Let_def split_beta)

lemma touched: "fst (touchObservation cfg now k db) = Inr ()"
  by (simp add: touchObservation_def)

lemma touched_status:
  assumes "map_option exec_status (exec_of db c k') = Some st"
  shows "map_option exec_status (exec_of (snd (touchObservation cfg now k db)) c k') = Some st"
proof -
  obtain e where "exec_of db c k' = Some e" "exec_status e = st" using assms by auto
  then show ?thesis
    by (cases "c = connectorId cfg \<and> k' = k") (auto simp: touchObservation_def simp del: map_option_eq_Some)
qed

lemma no_storage [simp]: "storage_arg k None = Inr None"
  by (simp add: storage_arg_def)

lemma observation_status:
  assumes "quiet w" "db_inv (w_db w)" "exec_of (w_db w) (connectorId cfg) (rec_run_id run) = Some e"
    "exec_status e \<in> {ExecQueued, ExecRunning}"
  shows "map_option exec_status (exec_of (w_db (snd (observeExecutionRun pg_text cfg run (executionStatusFromBatch rt b)
       isTerminalExecutionPollingError w))) (connectorId cfg) (rec_run_id run)) =
     Some (observed_status (executionStatusFromBatch rt b (rec_run_id run) (rec_workflow run)) (exec_status e))"
proof -
  note ops = active_ops [OF assms(2-4)]
  note defs = observeExecutionRun_def observed_status_def act_defs Let_def
  show ?thesis
  proof (cases "executionStatusFromBatch rt b (rec_run_id run) (rec_workflow run)")
    case (Inl err)
    then show ?thesis using assms(1,3) ops(1,2) [OF no_storage] by (simp add: defs del: map_option_eq_Some)
  next
    case (Inr s)
    obtain a where a: "storage_arg (rec_run_id run) (ers_artifact_storage s) = Inr a" using client_storage [OF Inr] by blast
    show ?thesis
      using Inr assms(1,3) touched_status [of "w_db w" "connectorId cfg" "rec_run_id run" "exec_status e"]
        touched_status [OF ops(6) [OF a]] ops [OF a] ops(1,2) [OF no_storage]
      by (auto simp: defs touched simp del: map_option_eq_Some)
  qed
qed

subsection \<open>The loop\<close>

definition loop_ok :: "coordinator_loop \<Rightarrow> bool" where
  "loop_ok l \<longleftrightarrow>
     (case loop_active l of
        None \<Rightarrow> (\<forall>i < length (loop_passes l). loop_passes l ! i)
      | Some j \<Rightarrow> j < length (loop_passes l) \<and> (\<forall>i < length (loop_passes l). loop_passes l ! i = (i \<noteq> j))) \<and>
     (loop_stop_resolved l \<longrightarrow> loop_stopped l \<and> loop_active l = None)"

lemma loop_step_ok: "loop_step l l' \<Longrightarrow> loop_ok l \<Longrightarrow> loop_ok l'"
proof (induction rule: loop_step.induct)
  case (fires l)
  then show ?case by (auto simp: loop_ok_def tick_def nth_append split: option.splits)
next
  case (settles i l)
  then show ?case by (cases "loop_active l") (auto simp: loop_ok_def nth_list_update)
next
  case (stop l)
  then show ?case by (auto simp: loop_ok_def split: option.splits)
next
  case (stopped l)
  then show ?case by (auto simp: loop_ok_def split: option.splits)
qed

lemma loop_init_ok: "loop_ok loop_init"
  by (simp add: loop_ok_def loop_init_def)

interpretation coordinator: invariant_system loop_init loop_step loop_ok
  by unfold_locales (rule loop_init_ok, rule loop_step_ok)

lemma stopped_loop: "loop_step\<^sup>*\<^sup>* l l' \<Longrightarrow> loop_stopped l \<Longrightarrow> loop_stopped l' \<and> length (loop_passes l') = length (loop_passes l)"
proof (induction rule: rtranclp_induct)
  case (step l1 l2)
  from step(2,3,4) show ?case by (cases rule: loop_step.cases) (auto simp: tick_def)
qed simp

subsection \<open>Properties\<close>

definition demo_world :: "int \<Rightarrow> (nat \<Rightarrow> fault) \<Rightarrow> db \<Rightarrow> world" where
  "demo_world pace faults db =
     \<lparr>w_db = db, w_turns = (\<lambda>i. \<lparr>turn_others = id, turn_now = 10 + pace * int i, turn_token = 100 + i, turn_fault = faults i\<rparr>),
      w_calls = 0, w_lost = False\<rparr>"

lemma demo_world [simp]:
  "w_db (demo_world pace faults db) = db" "fair (demo_world pace faults db)" "quiet (demo_world pace (\<lambda>_. Clean) db)"
  "clock (demo_world pace faults db) i = 10 + pace * int i"
  by (simp_all add: demo_world_def fair_def quiet_def clock_def)

definition demo_record :: review_run_record where
  "demo_record = the (fst (getRun demo_cfg ''run-1'' demo_lost))"

lemma demo_record [simp]:
  "rec_run_id demo_record = ''run-1''" "rec_workflow demo_record = IssueReview" "rec_execution_input demo_record = Some demo_input"
  by code_simp+

definition demo_loss :: js_error where
  "demo_loss = NamedError ''error'' (Some ''57P01'') ''terminating connection''"

text \<open>C9. A run's status follows what the Execution reports: of a queued or running run, one observation with no interference and no lost
  connection stores exactly the status the answer stands for, and an answer that settles nothing leaves the status alone.\<close>

theorem observation_recorded:
  assumes "quiet w" "reachable (w_db w)" "exec_of (w_db w) (connectorId cfg) (rec_run_id run) = Some e"
    "exec_status e \<in> {ExecQueued, ExecRunning}"
  shows "map_option exec_status (exec_of (w_db (snd (observeExecutionRun pg_text cfg run (executionStatusFromBatch rt b)
       isTerminalExecutionPollingError w))) (connectorId cfg) (rec_run_id run)) =
     Some (observed_status (executionStatusFromBatch rt b (rec_run_id run) (rec_workflow run)) (exec_status e))"
  by (rule observation_status [OF assms(1) reachable_invD [OF assms(2)] assms(3,4)])

theorem observation_recorded_witness:
  "map_option exec_status (exec_of (w_db (snd (observeExecutionRun (\<lambda>v. []) demo_cfg demo_record
     (executionStatusFromBatch (demo_runtime (demo_response 503 []))
        \<lparr>rsb_runs = [], rsb_missing = [], rsb_byRunId = (\<lambda>k. Some ''running'')\<rparr>)
     isTerminalExecutionPollingError (demo_world 1 (\<lambda>_. Clean) demo_queued)))) ''github:1'' ''run-1'') = Some ExecRunning"
proof -
  have "map_option exec_status (exec_of demo_queued ''github:1'' ''run-1'') = Some ExecQueued" by code_simp
  then obtain e where "exec_of demo_queued ''github:1'' ''run-1'' = Some e" "exec_status e = ExecQueued" by auto
  then show ?thesis
    using observation_recorded [of "demo_world 1 (\<lambda>_. Clean) demo_queued" demo_cfg demo_record e "\<lambda>v. []"
        "demo_runtime (demo_response 503 [])" "\<lparr>rsb_runs = [], rsb_missing = [], rsb_byRunId = (\<lambda>k. Some ''running'')\<rparr>"]
    by (simp add: demo_connector executionStatusFromBatch_def observed_status_def)
qed

text \<open>The coordinator loop runs at most one pass at a time, starts none after \<^verbatim>\<open>stop\<close>, and \<^verbatim>\<open>stop\<close> resolves only when every pass
  that was started has settled.\<close>

theorem one_pass_at_a_time:
  assumes "loop_step\<^sup>*\<^sup>* loop_init l"
  shows "length (filter Not (loop_passes l)) \<le> 1 \<and> (loop_stop_resolved l \<longrightarrow> filter Not (loop_passes l) = []) \<and>
     (\<forall>l'. loop_stopped l \<and> loop_step\<^sup>*\<^sup>* l l' \<longrightarrow> length (loop_passes l') = length (loop_passes l))"
proof -
  have ok: "loop_ok l" by (rule coordinator.inv_reached [OF assms])
  have "{i. i < length (loop_passes l) \<and> \<not> loop_passes l ! i} \<subseteq> (case loop_active l of None \<Rightarrow> {} | Some j \<Rightarrow> {j})"
    using ok by (auto simp: loop_ok_def split: option.splits)
  then have "length (filter Not (loop_passes l)) \<le> card (case loop_active l of None \<Rightarrow> {} | Some j \<Rightarrow> {j})"
    unfolding length_filter_conv_card by (rule card_mono [rotated]) (simp split: option.split)
  moreover have "loop_active l = None" if "loop_stop_resolved l" using ok that by (simp add: loop_ok_def)
  ultimately have "length (filter Not (loop_passes l)) \<le> 1 \<and> (loop_stop_resolved l \<longrightarrow> filter Not (loop_passes l) = [])"
    by (cases "loop_active l") auto
  moreover have "\<forall>l'. loop_stopped l \<and> loop_step\<^sup>*\<^sup>* l l' \<longrightarrow> length (loop_passes l') = length (loop_passes l)"
    using stopped_loop by blast
  ultimately show ?thesis by blast
qed

theorem one_pass_at_a_time_witness: "length (filter Not (loop_passes (tick (tick loop_init)))) \<le> 1"
proof -
  have "loop_step\<^sup>*\<^sup>* loop_init (tick (tick loop_init))"
    by (meson fires rtranclp.rtrancl_into_rtrancl rtranclp.rtrancl_refl)
  from one_pass_at_a_time [OF this] show ?thesis by simp
qed

end
