(* ===== verification/Recovery.thy ===== *)
theory Recovery
  imports Coordination
begin

text \<open>
  Submissions and their replays, beside other processes. \<open>undisturbed c k\<close> is a schedule in which the other processes may do
  anything the store allows to other runs and leave run \<open>k\<close> alone; \<open>spares c k\<close> is an action that does the same, and \<open>answers\<close>
  one that does not throw on live connections (collections \<open>sparing\<close>, \<open>answering\<close>). An accepted submission is never taken for one that
  was not made, except where the connection is lost in a replay, and a submission that stays unknown is parked by the passes of
  the coordinator once its budget is spent.
\<close>

subsection \<open>Other processes and other runs\<close>

text \<open>Other processes write to other runs only; connections are not lost.\<close>

definition undisturbed :: "string \<Rightarrow> string \<Rightarrow> (nat \<Rightarrow> turn) \<Rightarrow> bool" where
  "undisturbed c k turns \<longleftrightarrow>
     (\<forall>i db. store_step\<^sup>*\<^sup>* db (turn_others (turns i) db) \<and> same_run c k db (turn_others (turns i) db))"

lemma undisturbedD:
  assumes "undisturbed c k turns"
  shows "store_step\<^sup>*\<^sup>* db (turn_others (turns i) db)" "same_run c k db (turn_others (turns i) db)"
    "exec_of (turn_others (turns i) db) c k = exec_of db c k" "prep_of (turn_others (turns i) db) c k = prep_of db c k"
  using assms by (auto simp: undisturbed_def same_run_def)

lemma undisturbed_fair: "undisturbed c k (w_turns w) \<Longrightarrow> fair w"
  by (simp add: undisturbed_def fair_def)

lemma reachable_steps: "reachable db \<Longrightarrow> store_step\<^sup>*\<^sup>* db db' \<Longrightarrow> reachable db'"
  by (auto simp: reachable_def elim: rtranclp_trans)

lemma undisturbed_reachable: "undisturbed c k turns \<Longrightarrow> reachable db \<Longrightarrow> reachable (turn_others (turns i) db)"
  by (rule reachable_steps [OF _ undisturbedD(1)])

definition connected :: "(nat \<Rightarrow> turn) \<Rightarrow> bool" where
  "connected turns \<longleftrightarrow> (\<forall>i. turn_fault (turns i) = Clean)"

text \<open>A run the coordinator has nothing to observe of, and an action that leaves such a run as it is.\<close>

definition at_rest :: "string \<Rightarrow> string \<Rightarrow> db \<Rightarrow> bool" where
  "at_rest c k db \<longleftrightarrow>
     reachable db \<and> (\<exists>e. exec_of db c k = Some e \<and> exec_status e \<in> {ExecUncertain, ExecDisconnected})"

definition spares :: "string \<Rightarrow> string \<Rightarrow> 'a act \<Rightarrow> bool" where
  "spares c k m \<longleftrightarrow>
     (\<forall>w. undisturbed c k (w_turns w) \<and> at_rest c k (w_db w) \<longrightarrow>
        same_run c k (w_db w) (w_db (snd (m w))) \<and> reachable (w_db (snd (m w))) \<and>
        w_turns (snd (m w)) = w_turns w \<and> w_calls w \<le> w_calls (snd (m w)))"

named_theorems sparing

lemma at_rest_same: "same_run c k db db' \<Longrightarrow> reachable db' \<Longrightarrow> at_rest c k db \<Longrightarrow> at_rest c k db'"
  by (simp add: at_rest_def same_run_def)

lemma sparesD:
  assumes "spares c k m" "undisturbed c k (w_turns w)" "at_rest c k (w_db w)"
  shows "same_run c k (w_db w) (w_db (snd (m w)))" "reachable (w_db (snd (m w)))" "w_turns (snd (m w)) = w_turns w"
    "w_calls w \<le> w_calls (snd (m w))" "undisturbed c k (w_turns (snd (m w)))" "at_rest c k (w_db (snd (m w)))"
  using assms at_rest_same [of c k "w_db w"] by (auto simp: spares_def)

lemma spares_call:
  assumes "\<And>now tok db. store_step\<^sup>*\<^sup>* db (snd (op now tok db))"
    "\<And>now tok db. at_rest c k db \<Longrightarrow> same_run c k db (snd (op now tok db))"
  shows "spares c k (call_with thrown op)"
  unfolding spares_def
proof (intro allI impI, elim conjE)
  fix w :: world
  assume w: "undisturbed c k (w_turns w)" "at_rest c k (w_db w)"
  let ?t = "w_turns w (w_calls w)"
  let ?db = "turn_others ?t (w_db w)"
  have same: "same_run c k (w_db w) ?db" by (rule undisturbedD(2) [OF w(1)])
  have reach: "reachable ?db"
    using w(2) reachable_steps [OF _ undisturbedD(1) [OF w(1)]] by (simp add: at_rest_def)
  have "same_run c k ?db (snd (op (turn_now ?t) (turn_token ?t) ?db))"
    by (rule assms(2) [OF at_rest_same [OF same reach w(2)]])
  from same_run_trans [OF same this] same reach reachable_steps [OF reach assms(1)]
  show "same_run c k (w_db w) (w_db (snd (call_with thrown op w))) \<and> reachable (w_db (snd (call_with thrown op w))) \<and>
      w_turns (snd (call_with thrown op w)) = w_turns w \<and> w_calls w \<le> w_calls (snd (call_with thrown op w))"
    by (simp add: call_with_def Let_def split_beta split: fault.split)
qed

lemma spares_step:
  assumes "\<And>now tok db. store_step db (snd (op now tok db))" "\<And>now tok db. wrote c j db (snd (op now tok db))" "j \<noteq> k"
  shows "spares c k (call_with thrown op)"
  by (rule spares_call) (use assms in \<open>auto simp: wrote_def at_rest_def\<close>)

lemma spares_ask [sparing]: "spares c k (ask q)"
  unfolding ask_def by (rule spares_call) (simp_all add: same_run_def)

lemma spares_pure [sparing]: "spares c k (ret a)" "spares c k (throw err)" "spares c k (await out)"
  by (simp_all add: spares_def ret_def throw_def await_def same_run_def at_rest_def)

lemma spares_after:
  assumes "spares c k m" "\<And>w a. undisturbed c k (w_turns w) \<Longrightarrow> at_rest c k (w_db w) \<Longrightarrow> fst (m w) = Inr a \<Longrightarrow> spares c k (f a)"
  shows "spares c k (andThen m f)"
  unfolding spares_def
proof (intro allI impI, elim conjE)
  fix w :: world
  assume w: "undisturbed c k (w_turns w)" "at_rest c k (w_db w)"
  note m = sparesD [OF assms(1) w]
  show "same_run c k (w_db w) (w_db (snd (andThen m f w))) \<and> reachable (w_db (snd (andThen m f w))) \<and>
      w_turns (snd (andThen m f w)) = w_turns w \<and> w_calls w \<le> w_calls (snd (andThen m f w))"
  proof (cases "fst (m w)")
    case (Inr a)
    note f = sparesD [OF assms(2) [OF w Inr] m(5,6)]
    show ?thesis
      using Inr same_run_trans [OF m(1) f(1)] f m(3,4) by (simp add: andThen_def split_beta)
  qed (use m in \<open>simp add: andThen_def split_beta\<close>)
qed

lemma spares_andThen [sparing]: "spares c k m \<Longrightarrow> (\<And>a. spares c k (f a)) \<Longrightarrow> spares c k (andThen m f)"
  by (rule spares_after)

lemma spares_catch [sparing]:
  assumes "spares c k m" "\<And>err. spares c k (h err)"
  shows "spares c k (catch m h)"
  unfolding spares_def
proof (intro allI impI, elim conjE)
  fix w :: world
  assume w: "undisturbed c k (w_turns w)" "at_rest c k (w_db w)"
  note m = sparesD [OF assms(1) w]
  show "same_run c k (w_db w) (w_db (snd (catch m h w))) \<and> reachable (w_db (snd (catch m h w))) \<and>
      w_turns (snd (catch m h w)) = w_turns w \<and> w_calls w \<le> w_calls (snd (catch m h w))"
  proof (cases "fst (m w)")
    case (Inl err)
    note h = sparesD [OF assms(2) m(5,6), of err]
    show ?thesis
      using Inl same_run_trans [OF m(1) h(1)] h m(3,4) by (simp add: catch_def split_beta)
  qed (use m in \<open>simp add: catch_def split_beta\<close>)
qed

lemma spares_cases [sparing]:
  "(b \<Longrightarrow> spares c k m) \<Longrightarrow> (\<not> b \<Longrightarrow> spares c k n) \<Longrightarrow> spares c k (if b then m else n)"
  "spares c k n \<Longrightarrow> (\<And>a. spares c k (g a)) \<Longrightarrow> spares c k (case x of None \<Rightarrow> n | Some a \<Rightarrow> g a)"
  "(\<And>err. spares c k (h err)) \<Longrightarrow> (\<And>s. spares c k (g' s)) \<Longrightarrow> spares c k (case y of Inl err \<Rightarrow> h err | Inr s \<Rightarrow> g' s)"
  "(\<And>a b. spares c k (f a b)) \<Longrightarrow> spares c k (case z of (a, b) \<Rightarrow> f a b)"
  by (simp_all split: option.split sum.split prod.split)

text \<open>The writes of the coordinator on one run.\<close>

lemma coordinator_wrote:
  "wrote (connectorId cfg) j db (snd (claimSubmissionRecovery cfg now tok j db))"
    "wrote (connectorId cfg) j db (snd (failSubmissionRecovery cfg now j tok err db))"
    "wrote (connectorId cfg) j db (snd (completeSubmissionRecovery cfg now j tok db))"
    "wrote (connectorId cfg) j db (snd (recordUnknownRecoveryOutcome cfg now j tok db))"
    "wrote (connectorId cfg) j db (snd (disconnectExhaustedSubmissionRecovery cfg now j n db))"
    "wrote (connectorId cfg) j db (snd (failExecution cfg now j err st db))"
    "wrote (connectorId cfg) j db (snd (markRunning cfg now j db))"
    "wrote (connectorId cfg) j db (snd (touchObservation cfg now j db))"
    "wrote (connectorId cfg) j db (snd (recordExecutionSuccess cfg now j res st db))"
  by (simp_all add: claimSubmissionRecovery_def failSubmissionRecovery_def completeSubmissionRecovery_def recordUnknownRecoveryOutcome_def disconnectExhaustedSubmissionRecovery_def failExecution_def markRunning_def touchObservation_def recordExecutionSuccess_def transaction_def Let_def split_beta logAbandoned_def split: option.split sum.split)


lemma expiry_spares:
  assumes "at_rest (connectorId cfg) k db"
  shows "same_run (connectorId cfg) k db (snd (expireStale cfg now locked db))"
proof -
  have inv: "db_inv db" using assms by (simp add: at_rest_def reachable_invD)
  obtain e where e: "exec_of db (connectorId cfg) k = Some e" "exec_status e \<in> {ExecUncertain, ExecDisconnected}"
    using assms by (auto simp: at_rest_def)
  have "k \<notin> prep_run_id ` set (expiry_candidates cfg now locked db)"
  proof
    assume "k \<in> prep_run_id ` set (expiry_candidates cfg now locked db)"
    then obtain p where "prep_of db (connectorId cfg) k = Some p" "prep_status p = PrepPreparing"
      using expiry_candidates_rows(2) [OF invD(1) [OF inv]] by blast
    then show False using invD(3) [OF inv, of "connectorId cfg" k] e by (auto elim!: run_okE simp: axes_ok_def)
  qed
  then show ?thesis using expireStale_ok [OF inv, of cfg now locked] by auto
qed

lemma spares_recovery [sparing]:
  "k \<noteq> rec_run_id run \<Longrightarrow> spares (connectorId cfg) k (recoverSubmission cfg rt run)"
  unfolding recoverSubmission_def concludeExhaustedSubmissionRecovery_def recoverReviewRunSubmission_def Let_def
  by (intro sparing spares_step store_calls) (rule coordinator_wrote | erule not_sym)+

lemma spares_observation [sparing]:
  "k \<noteq> rec_run_id run \<Longrightarrow> spares (connectorId cfg) k (observeExecutionRun pg_text cfg run getStatus terminal)"
  unfolding observeExecutionRun_def Let_def
  by (intro sparing spares_step store_calls) (rule coordinator_wrote | erule not_sym)+

lemma spares_recover_all: "k \<notin> rec_run_id ` set runs \<Longrightarrow> spares (connectorId cfg) k (recover_all cfg rt n runs)"
  by (induction runs arbitrary: n) (simp_all add: sparing)

lemma spares_observe_all:
  "k \<notin> rec_run_id ` set runs \<Longrightarrow> spares (connectorId cfg) k (observe_all pg_text cfg rt statuses n runs)"
  by (induction runs arbitrary: n) (simp_all add: sparing)

text \<open>Observation looks at active runs only, so a run at rest is left alone by the second half of a pass.\<close>

lemma spares_observations:
  "spares (connectorId cfg) k
     (andThen (ask (\<lambda>now. listActiveRuns cfg)) (\<lambda>active.
      if proj_runs active = [] then ret []
      else andThen (await (getExecutionRunStatuses rt' (map rec_run_id (proj_runs active)))) (\<lambda>statuses.
        observe_all pg_text cfg rt statuses n (proj_runs active))))"
proof (rule spares_after)
  fix w active
  assume w: "undisturbed (connectorId cfg) k (w_turns w)" "at_rest (connectorId cfg) k (w_db w)"
    and read: "fst (ask (\<lambda>now. listActiveRuns cfg) w) = Inr active"
  define db where "db = turn_others (w_turns w (w_calls w)) (w_db w)"
  have "active = listActiveRuns cfg db"
    using read by (auto simp: ask_def call_with_def Let_def db_def split: fault.splits)
  moreover have "at_rest (connectorId cfg) k db"
    using w reachable_steps [OF _ undisturbedD(1) [OF w(1)]] undisturbedD(3) [OF w(1)] by (simp add: at_rest_def db_def)
  then have "k \<notin> set (map rec_run_id (proj_runs (listActiveRuns cfg db)))"
    unfolding listActiveRuns_queue by (subst queue_exact(3)) (auto simp: at_rest_def)
  ultimately show "spares (connectorId cfg) k (if proj_runs active = [] then ret []
      else andThen (await (getExecutionRunStatuses rt' (map rec_run_id (proj_runs active)))) (\<lambda>statuses.
        observe_all pg_text cfg rt statuses n (proj_runs active)))"
    by (intro sparing spares_observe_all) simp
qed (rule sparing)

subsection \<open>The recovery operations on one row\<close>

lemma claim_recovery:
  assumes "keys_ok db" "exec_of db (connectorId cfg) k = Some e" "recovery_claimable cfg now e"
  shows "fst (claimSubmissionRecovery cfg now tok k db) = Inr (Some tok)"
    "exec_of (snd (claimSubmissionRecovery cfg now tok k db)) (connectorId cfg) k =
       Some (e\<lparr>exec_claim_token := Some tok, exec_claimed_at := Some now, exec_updated_at := now\<rparr>)"
  using assms by (simp_all add: claimSubmissionRecovery_def transaction_def Let_def cnt_axis)

lemma record_unknown:
  assumes "keys_ok db" "exec_of db (connectorId cfg) k = Some e" "owns_recovery tok e"
  shows "fst (recordUnknownRecoveryOutcome cfg now k tok db) = Inr True"
    "exec_of (snd (recordUnknownRecoveryOutcome cfg now k tok db)) (connectorId cfg) k =
       Some (e\<lparr>exec_attempt_count := exec_attempt_count e + 1, exec_updated_at := now\<rparr>)"
  using assms by (simp_all add: recordUnknownRecoveryOutcome_def transaction_def Let_def cnt_axis)

lemma disconnect_exhausted:
  assumes "keys_ok db" "exec_of db (connectorId cfg) k = Some e" "recovery_claimable cfg now e" "m \<le> exec_attempt_count e"
  shows "fst (disconnectExhaustedSubmissionRecovery cfg now k m db) = Inr True"
    "exec_of (snd (disconnectExhaustedSubmissionRecovery cfg now k m db)) (connectorId cfg) k =
       Some (e\<lparr>exec_status := ExecDisconnected, exec_claim_token := None, exec_claimed_at := None, exec_updated_at := now\<rparr>)"
  using assms by (simp_all add: disconnectExhaustedSubmissionRecovery_def transaction_def Let_def split_beta cnt_axis)

subsection \<open>An accepted submission\<close>

lemma save_held:
  assumes "keys_ok db" "savePreparedSubmission cfg now k tok context inp db = (Inr (), db')"
  shows "\<exists>p. prep_of db' (connectorId cfg) k = Some p \<and> holds_preparation tok p"
proof -
  have "prep_of db' = prep_of db" "requirePreparationClaim cfg now k tok db = Inr ()"
    using assms(2)
    by (simp_all add: savePreparedSubmission_def transaction_def savePrepared_tx_def Let_def
        split: sum.splits if_splits prod.splits) auto
  then show ?thesis
    using assms(1)
    by (simp add: requirePreparationClaim_def live_preparer_def holds_preparation_def cnt_axis
        split: if_splits option.splits)
qed

lemma held_pending:
  assumes "db_inv db" "prep_of db c k = Some p" "holds_preparation tok p"
  obtains e b where "exec_of db c k = Some e" "exec_status e = ExecPending" "pub_of db c k = Some b"
  using invD(3) [OF assms(1), of c k] assms(2,3)
  by (auto elim!: run_okE simp: axes_ok_def holds_preparation_def)

lemma markQueued_queues:
  assumes "db_inv db" "prep_of db (connectorId cfg) k = Some p" "fst (markQueued cfg now k tok context db) = Inr ()"
  shows "map_option exec_status (exec_of (snd (markQueued cfg now k tok context db)) (connectorId cfg) k) = Some ExecQueued"
    "map_option prep_status (prep_of (snd (markQueued cfg now k tok context db)) (connectorId cfg) k) = Some PrepSubmitted"
proof -
  note op = markQueued_def transaction_def Let_def cnt_axis [OF invD(1) [OF assms(1)]]
  obtain e b where run: "exec_of db (connectorId cfg) k = Some e" "pub_of db (connectorId cfg) k = Some b"
    using invD(3) [OF assms(1), of "connectorId cfg" k] assms(2) by (auto elim: run_okE)
  have ok: "findWorkflow cfg k db \<noteq> None \<and> pub_status b = PubPending \<and> exec_status e = ExecPending \<and> holds_preparation tok p"
  proof (rule ccontr)
    assume "\<not> ?thesis"
    with run assms(2) have "\<exists>err. fst (markQueued cfg now k tok context db) = Inl err"
      by (auto simp: op split: option.split)
    with assms(3) show False by simp
  qed
  then obtain r where "select_row rr_run_id rr_connector_id (connectorId cfg) k (review_runs db) = Some r"
    by (auto simp: findWorkflow_def)
  then show "map_option exec_status (exec_of (snd (markQueued cfg now k tok context db)) (connectorId cfg) k) = Some ExecQueued"
    "map_option prep_status (prep_of (snd (markQueued cfg now k tok context db)) (connectorId cfg) k) = Some PrepSubmitted"
    using ok run assms(2) by (simp_all add: op findWorkflow_def)
qed

lemma markQueued_error: "fst (markQueued cfg now k tok context db) = Inl err \<Longrightarrow> snd (markQueued cfg now k tok context db) = db"
  unfolding markQueued_def by (rule transaction_thrown)

lemma failPreparation_uncertain:
  assumes "db_inv db" "prep_of db (connectorId cfg) k = Some p" "holds_preparation tok p" "fst err = Some SUBMISSION_STATE_UNCERTAIN"
  shows "map_option exec_status (exec_of (snd (failPreparation cfg now k tok err False after db)) (connectorId cfg) k) =
     Some ExecUncertain"
proof (rule held_pending [OF assms(1-3)])
  fix e b
  assume "exec_of db (connectorId cfg) k = Some e" "exec_status e = ExecPending"
  then show ?thesis
    using assms cnt_axis [OF invD(1) [OF assms(1)]]
    by (simp add: failPreparation_def transaction_def terminal_failure_def conclude_execution_def Let_def split_beta
        preparer_def holds_preparation_def cnt_axis)
qed

lemma failPreparation_lost:
  assumes "keys_ok db" "\<And>p. prep_of db (connectorId cfg) k = Some p \<Longrightarrow> \<not> preparer tok p"
  shows "exec_of (snd (failPreparation cfg now k tok err False after db)) (connectorId cfg) k = exec_of db (connectorId cfg) k"
  using assms
  by (auto simp: failPreparation_def transaction_def terminal_failure_def Let_def cnt_axis split: option.splits)

lemma abandon_db:
  "w_db (snd (abandonSubmission cfg k tok accepted True err w)) =
     (let t = w_turns w (w_calls w); db = turn_others t (w_db w) in
      case turn_fault t of
        LostBefore _ \<Rightarrow> db
      | _ \<Rightarrow> snd (failPreparation cfg (turn_now t) k tok (submission_failure accepted err) False None db))"
  by (simp add: abandonSubmission_def andThen_def catch_def call_with_def ret_def throw_def Let_def split_beta
      split: fault.split sum.split)

text \<open>The cleanup on the claim the submission was made under, and on one that was already used up.\<close>

lemma abandoned_row:
  assumes "undisturbed (connectorId cfg) k (w_turns w)" "reachable (w_db w)" "prep_of (w_db w) (connectorId cfg) k = Some p"
    "holds_preparation tok p"
  shows "map_option exec_status (exec_of (w_db (snd (abandonSubmission cfg k tok True True err w))) (connectorId cfg) k) =
       Some ExecUncertain \<or>
     (\<exists>loss. turn_fault (w_turns w (w_calls w)) = LostBefore loss) \<and>
       exec_of (w_db (snd (abandonSubmission cfg k tok True True err w))) (connectorId cfg) k = exec_of (w_db w) (connectorId cfg) k"
proof -
  let ?t = "w_turns w (w_calls w)"
  have inv: "db_inv (turn_others ?t (w_db w))" by (intro reachable_invD undisturbed_reachable [OF assms(1,2)])
  note same = undisturbedD(3,4) [OF assms(1), of "w_calls w" "w_db w"]
  have "map_option exec_status (exec_of (snd (failPreparation cfg now k tok (submission_failure True err) False None
      (turn_others ?t (w_db w)))) (connectorId cfg) k) = Some ExecUncertain" for now
    by (rule failPreparation_uncertain [OF inv _ assms(4)]) (simp_all add: same assms(3) submission_failure_def)
  then show ?thesis using same(1) by (simp add: abandon_db Let_def del: map_option_eq_Some split: fault.split)
qed

lemma queued_row_kept:
  assumes "undisturbed (connectorId cfg) k (w_turns w)" "reachable (w_db w)" "prep_of (w_db w) (connectorId cfg) k = Some p"
    "prep_status p = PrepSubmitted"
  shows "exec_of (w_db (snd (abandonSubmission cfg k tok True True err w))) (connectorId cfg) k = exec_of (w_db w) (connectorId cfg) k"
proof -
  let ?t = "w_turns w (w_calls w)"
  have inv: "db_inv (turn_others ?t (w_db w))" by (intro reachable_invD undisturbed_reachable [OF assms(1,2)])
  note same = undisturbedD(3,4) [OF assms(1), of "w_calls w" "w_db w"]
  have "exec_of (snd (failPreparation cfg now k tok err' False None (turn_others ?t (w_db w)))) (connectorId cfg) k =
      exec_of (turn_others ?t (w_db w)) (connectorId cfg) k" for now err'
    by (rule failPreparation_lost [OF invD(1) [OF inv]]) (use same assms(3,4) in \<open>auto simp: preparer_def\<close>)
  then show ?thesis using same(1) by (simp add: abandon_db Let_def split: fault.split)
qed

lemma recorded_row:
  fixes w :: world
  assumes w: "undisturbed (connectorId cfg) k (w_turns w)" "reachable (w_db w)" "prep_of (w_db w) (connectorId cfg) k = Some p"
    "holds_preparation tok p"
    and w': "w' = snd (catch (call (\<lambda>now t. markQueued cfg now k tok context)) (abandonSubmission cfg k tok True True) w)"
  shows "map_option exec_status (exec_of (w_db w') (connectorId cfg) k) \<in> {Some ExecQueued, Some ExecUncertain} \<or>
     (\<exists>loss. turn_fault (w_turns w (Suc (w_calls w))) = LostBefore loss) \<and>
       exec_of (w_db w') (connectorId cfg) k = exec_of (w_db w) (connectorId cfg) k"
proof -
  let ?c = "connectorId cfg" and ?t = "w_turns w (w_calls w)"
  define d where "d = turn_others ?t (w_db w)"
  define q where "q = markQueued cfg (turn_now ?t) k tok context d"
  have d: "reachable d" "prep_of d ?c k = Some p" "exec_of d ?c k = exec_of (w_db w) ?c k"
    using undisturbed_reachable [OF w(1,2)] undisturbedD(3,4) [OF w(1)] w(3) by (simp_all add: d_def)
  have steps: "reachable (snd q)"
    unfolding q_def by (rule reachable_steps [OF d(1) r_into_rtranclp [of store_step, OF store_step.markQueued]])
  let ?w = "\<lambda>db. w\<lparr>w_db := db, w_calls := Suc (w_calls w)\<rparr>"
  define fine where "fine row \<longleftrightarrow> map_option exec_status row \<in> {Some ExecQueued, Some ExecUncertain} \<or>
      (\<exists>loss. turn_fault (w_turns w (Suc (w_calls w))) = LostBefore loss) \<and> row = exec_of (w_db w) ?c k" for row
  have unrecorded: "fine (exec_of (w_db (snd ((abandonSubmission cfg k tok True True err :: unit act) (?w d)))) ?c k)" for err
    using abandoned_row [of cfg k "?w d" p tok err] w(1,4) d unfolding fine_def by auto
  note run = catch_def call_with_def Let_def split_beta d_def [symmetric] q_def [symmetric]
  have "fine (exec_of (w_db w') ?c k)"
  proof (cases "fst q")
    case (Inl err)
    then have "snd q = d" unfolding q_def by (rule markQueued_error)
    then show ?thesis
      unfolding w' using unrecorded Inl by (simp add: run split: fault.split)
  next
    case (Inr u)
    then have ok: "fst (markQueued cfg (turn_now ?t) k tok context d) = Inr ()" by (simp add: q_def)
    note queued = markQueued_queues [OF reachable_invD [OF d(1)] d(2) ok, folded q_def]
    have "exec_of (w_db (snd ((abandonSubmission cfg k tok True True err :: unit act) (?w (snd q))))) ?c k = exec_of (snd q) ?c k" for err
      using queued_row_kept [of cfg k "?w (snd q)" _ tok err] w(1) steps queued(2) by auto
    moreover have "fine (exec_of (snd q) ?c k)" using queued(1) by (simp add: fine_def)
    ultimately show ?thesis
      unfolding w' using unrecorded Inr by (simp add: run split: fault.split)
  qed
  then show ?thesis by (simp add: fine_def)
qed

lemma saved_row:
  assumes "db_inv db" "savePreparedSubmission cfg now k tok context inp db = (Inr (), saved)"
  shows "\<exists>e. exec_of saved (connectorId cfg) k = Some e \<and> exec_status e = ExecPending \<and> exec_input e = Some inp"
proof -
  let ?c = "connectorId cfg" and ?qe = "\<lambda>e. exec_status e = ExecPending \<and> (exec_input e = None \<or> exec_input e = Some inp)"
  define db1 where "db1 = upd_cand ?c k (selectable db context inp) (selected_candidate now) db"
  have "savePrepared_tx cfg now k tok context inp db = Inr ((), saved)"
    using assms(2) by (cases "savePrepared_tx cfg now k tok context inp db") (auto simp: savePreparedSubmission_def transaction_def split: prod.splits)
  then have saved: "exec_of saved = exec_of (upd_exec ?c k ?qe (\<lambda>e. e\<lparr>exec_input := Some inp, exec_updated_at := now\<rparr>) db1)"
      "cnt_exec ?c k ?qe db1 = 1"
    unfolding savePrepared_tx_def Let_def db1_def by (auto split: sum.splits if_splits)
  then obtain e where "exec_of db ?c k = Some e" "?qe e"
    using cnt_axis [OF invD(1) [OF assms(1)]] by (auto simp: db1_def split: option.splits if_splits)
  then show ?thesis unfolding saved(1) by (simp add: db1_def)
qed

lemma fail_recovery:
  assumes "keys_ok db" "exec_of db (connectorId cfg) k = Some e" "owns_recovery tok e"
  shows "fst (failSubmissionRecovery cfg now k tok err db) = Inr True"
    "map_option exec_status (exec_of (snd (failSubmissionRecovery cfg now k tok err db)) (connectorId cfg) k) = Some ExecFailed"
  using assms by (simp_all add: failSubmissionRecovery_def transaction_def Let_def split_beta cnt_axis)

lemma failed_skips:
  assumes "reachable db" "map_option exec_status (exec_of db c k) = Some ExecFailed"
  shows "map_option pub_status (pub_of db c k) = Some PubSkipped"
  using invD(3) [OF reachable_invD [OF assms(1)], of c k] assms(2) by (auto elim!: run_okE simp: axes_ok_def)

subsection \<open>Replays are answered\<close>

text \<open>On live connections no recovery throws, so a pass reaches every run it listed.\<close>

definition answers :: "'a act \<Rightarrow> bool" where
  "answers m \<longleftrightarrow> (\<forall>w. connected (w_turns w) \<longrightarrow> (\<exists>a. fst (m w) = Inr a) \<and> w_turns (snd (m w)) = w_turns w)"

named_theorems answering

lemma answers_call [answering]:
  assumes "\<And>now tok db. \<exists>a. fst (op now tok db) = Inr a"
  shows "answers (call_with thrown op)"
  unfolding answers_def
proof (intro allI impI)
  fix w :: world
  assume "connected (w_turns w)"
  then show "(\<exists>a. fst (call_with thrown op w) = Inr a) \<and> w_turns (snd (call_with thrown op w)) = w_turns w"
    using assms [of "turn_now (w_turns w (w_calls w))" "turn_token (w_turns w (w_calls w))" "turn_others (w_turns w (w_calls w)) (w_db w)"]
    by (auto simp: call_with_def connected_def Let_def split_beta)
qed

lemma answers_ask [answering]: "answers (ask q)"
  unfolding ask_def by (rule answers_call) simp

lemma answers_ret [answering]: "answers (ret a)"
  by (simp add: answers_def ret_def)

lemma answers_andThen [answering]:
  assumes "answers m" "\<And>a. answers (f a)"
  shows "answers (andThen m f)"
  unfolding answers_def
proof (intro allI impI)
  fix w :: world
  assume "connected (w_turns w)"
  then obtain a w' where "m w = (Inr a, w')" "w_turns w' = w_turns w"
    using assms(1) by (cases "m w") (auto simp: answers_def)
  then show "(\<exists>b. fst (andThen m f w) = Inr b) \<and> w_turns (snd (andThen m f w)) = w_turns w"
    using assms(2) [of a] \<open>connected (w_turns w)\<close> by (auto simp: answers_def andThen_def)
qed

lemma answers_cases [answering]:
  "(b \<Longrightarrow> answers m) \<Longrightarrow> (\<not> b \<Longrightarrow> answers n) \<Longrightarrow> answers (if b then m else n)"
  "answers n \<Longrightarrow> (\<And>a. answers (g a)) \<Longrightarrow> answers (case x of None \<Rightarrow> n | Some a \<Rightarrow> g a)"
  by (simp_all split: option.split)

lemma answers_catch: "answers m \<Longrightarrow> answers (catch m h)"
  by (fastforce simp: answers_def catch_def split_beta)

lemma answers_submission [answering]:
  assumes "answers m" "\<And>err. answers (h err)"
  shows "answers (catch (andThen (await out) (\<lambda>_. m)) h)"
proof (cases out)
  case (Inl err)
  have "catch (andThen (await out) (\<lambda>_. m)) h = h err"
    by (rule ext) (simp add: catch_def andThen_def await_def Inl)
  with assms(2) show ?thesis by simp
next
  case (Inr a)
  have "catch (andThen (await out) (\<lambda>_. m)) h = catch m h"
    by (rule ext) (simp add: catch_def andThen_def await_def Inr)
  with answers_catch [OF assms(1)] show ?thesis by simp
qed

lemma recovery_answered:
  "\<exists>a. fst (claimSubmissionRecovery cfg now tok j db) = Inr a" "\<exists>a. fst (failSubmissionRecovery cfg now j tok err db) = Inr a"
  "\<exists>a. fst (completeSubmissionRecovery cfg now j tok db) = Inr a" "\<exists>a. fst (recordUnknownRecoveryOutcome cfg now j tok db) = Inr a"
  "\<exists>a. fst (disconnectExhaustedSubmissionRecovery cfg now j n db) = Inr a"
  by (auto simp: claimSubmissionRecovery_def failSubmissionRecovery_def completeSubmissionRecovery_def
      recordUnknownRecoveryOutcome_def disconnectExhaustedSubmissionRecovery_def transaction_def Let_def split_beta)

lemma answers_recovery [answering]: "answers (recoverSubmission cfg rt run)"
  unfolding recoverSubmission_def concludeExhaustedSubmissionRecovery_def recoverReviewRunSubmission_def Let_def
  by (intro answering recovery_answered)

lemma answers_recover_all [answering]: "answers (recover_all cfg rt n runs)"
  by (induction runs arbitrary: n) (simp_all add: answering)

lemma recover_all_append:
  "recover_all cfg rt n (xs @ ys) = andThen (recover_all cfg rt n xs) (\<lambda>_. recover_all cfg rt (n + length xs) ys)"
proof (induction xs arbitrary: n)
  case (Cons x xs)
  show ?case by (rule ext) (simp add: Cons andThen_def split_beta split: sum.split)
qed (rule ext, simp add: andThen_def ret_def)

subsection \<open>One replay\<close>

lemma claimable_later: "recovery_claimable cfg now e \<Longrightarrow> now \<le> later \<Longrightarrow> recovery_claimable cfg later e"
  by (auto simp: recovery_claimable_def lease_expired_def split: option.splits)

lemma call_connected:
  assumes "connected (w_turns w)"
  shows "call_with thrown op w =
     ((case fst (op (turn_now (w_turns w (w_calls w))) (turn_token (w_turns w (w_calls w)))
            (turn_others (w_turns w (w_calls w)) (w_db w))) of
         Inl err \<Rightarrow> Inl (thrown err) | Inr a \<Rightarrow> Inr a),
      w\<lparr>w_db := snd (op (turn_now (w_turns w (w_calls w))) (turn_token (w_turns w (w_calls w)))
            (turn_others (w_turns w (w_calls w)) (w_db w))), w_calls := Suc (w_calls w)\<rparr>)"
  using assms by (simp add: call_with_def connected_def Let_def split_beta)

text \<open>What a replay of unknown outcome makes of the row: one more attempt under a fresh claim, or, with the budget spent, a parked
  execution.\<close>

definition replayed :: "(nat \<Rightarrow> turn) \<Rightarrow> execution_row \<Rightarrow> execution_row \<Rightarrow> bool" where
  "replayed turns e e' \<longleftrightarrow>
     (if exec_attempt_count e < MAX_SUBMISSION_RECOVERY_ATTEMPTS
      then exec_status e' = ExecUncertain \<and> exec_input e' = exec_input e \<and>
        exec_attempt_count e' = Suc (exec_attempt_count e) \<and> (\<exists>i. exec_claimed_at e' = Some (turn_now (turns i)))
      else exec_status e' = ExecDisconnected \<and> exec_attempt_count e' = exec_attempt_count e)"

lemma replay_within_budget:
  fixes w :: world
  assumes turns: "undisturbed (connectorId cfg) k (w_turns w)" "connected (w_turns w)"
    and db: "reachable (w_db w)" "exec_of (w_db w) (connectorId cfg) k = Some e" "recovery_claimable cfg (turn_now (w_turns w (Suc (w_calls w)))) e"
    and budget: "exec_attempt_count e < MAX_SUBMISSION_RECOVERY_ATTEMPTS"
    and run: "rec_run_id run = k" "rec_execution_input run = Some input"
    and unknown: "submitExecutionRun rt (rec_workflow run) k input = Inl err" "is_uncertain err"
  shows "\<exists>e' w'. recoverSubmission cfg rt run w = (Inr (), w') \<and> exec_of (w_db w') (connectorId cfg) k = Some e' \<and>
     replayed (w_turns w) e e'"
proof -
  let ?t = "\<lambda>i. w_turns w (w_calls w + i)" and ?tok = "turn_token (w_turns w (Suc (w_calls w)))"
  let ?now = "\<lambda>i. turn_now (?t i)" and ?o = "\<lambda>i. turn_others (?t i)"
  define db1 where "db1 = ?o 1 (?o 0 (w_db w))"
  define db2 where "db2 = ?o 2 (snd (claimSubmissionRecovery cfg (?now 1) ?tok k db1))"
  have reach1: "reachable db1" unfolding db1_def by (intro undisturbed_reachable [OF turns(1)] db(1))
  have count: "submissionRecoveryAttemptCount cfg k (?o 0 (w_db w)) = Some (exec_attempt_count e)" and e1: "exec_of db1 (connectorId cfg) k = Some e"
    using db(2) undisturbedD(3) [OF turns(1)] by (simp_all add: submissionRecoveryAttemptCount_def db1_def)
  note claim = claim_recovery [OF invD(1) [OF reachable_invD [OF reach1]] e1, of "?now 1" ?tok]
  have "keys_ok db2"
    unfolding db2_def by (intro invD(1) reachable_invD undisturbed_reachable [OF turns(1)] reachable_step [OF reach1 store_step.claimSubmissionRecovery])
  moreover have "exec_of db2 (connectorId cfg) k =
      Some (e\<lparr>exec_claim_token := Some ?tok, exec_claimed_at := Some (?now 1), exec_updated_at := ?now 1\<rparr>)"
    using claim(2) db(3) undisturbedD(3) [OF turns(1)] by (simp add: db2_def)
  ultimately have rec: "fst (recordUnknownRecoveryOutcome cfg (?now 2) k ?tok db2) = Inr True"
    "exec_of (snd (recordUnknownRecoveryOutcome cfg (?now 2) k ?tok db2)) (connectorId cfg) k =
       Some (e\<lparr>exec_claim_token := Some ?tok, exec_claimed_at := Some (?now 1), exec_attempt_count := exec_attempt_count e + 1,
         exec_updated_at := ?now 2\<rparr>)"
    using record_unknown [of db2 cfg k _ ?tok "?now 2"] db(3) by (simp_all add: owns_recovery_def recovery_claimable_def)
  have "recoverSubmission cfg rt run w =
      (Inr (), w\<lparr>w_db := snd (recordUnknownRecoveryOutcome cfg (?now 2) k ?tok db2), w_calls := w_calls w + 3\<rparr>)"
    using turns(2) budget count db(3) claim(1) rec(1) run unknown
    by (simp add: recoverSubmission_def concludeExhaustedSubmissionRecovery_def recoverReviewRunSubmission_def andThen_def catch_def
        ret_def await_def ask_def call_connected classifySubmissionError_def db1_def db2_def numeral_3_eq_3 numeral_2_eq_2)
  then show ?thesis using rec(2) budget db(3) by (auto simp: replayed_def recovery_claimable_def)
qed

lemma replay_over_budget:
  fixes w :: world
  assumes turns: "undisturbed (connectorId cfg) k (w_turns w)" "connected (w_turns w)"
    and db: "reachable (w_db w)" "exec_of (w_db w) (connectorId cfg) k = Some e" "recovery_claimable cfg (turn_now (w_turns w (Suc (w_calls w)))) e"
    and spent: "MAX_SUBMISSION_RECOVERY_ATTEMPTS \<le> exec_attempt_count e" and run: "rec_run_id run = k"
  shows "\<exists>e' w'. recoverSubmission cfg rt run w = (Inr (), w') \<and> exec_of (w_db w') (connectorId cfg) k = Some e' \<and>
     replayed (w_turns w) e e'"
proof -
  let ?now = "turn_now (w_turns w (Suc (w_calls w)))"
  define db1 where "db1 = turn_others (w_turns w (Suc (w_calls w))) (turn_others (w_turns w (w_calls w)) (w_db w))"
  have "keys_ok db1" unfolding db1_def by (intro invD(1) reachable_invD undisturbed_reachable [OF turns(1)] db(1))
  moreover have count: "submissionRecoveryAttemptCount cfg k (turn_others (w_turns w (w_calls w)) (w_db w)) = Some (exec_attempt_count e)"
    and "exec_of db1 (connectorId cfg) k = Some e"
    using db(2) undisturbedD(3) [OF turns(1)] by (simp_all add: submissionRecoveryAttemptCount_def db1_def)
  ultimately have parked: "fst (disconnectExhaustedSubmissionRecovery cfg ?now k MAX_SUBMISSION_RECOVERY_ATTEMPTS db1) = Inr True"
    "exec_of (snd (disconnectExhaustedSubmissionRecovery cfg ?now k MAX_SUBMISSION_RECOVERY_ATTEMPTS db1)) (connectorId cfg) k =
       Some (e\<lparr>exec_status := ExecDisconnected, exec_claim_token := None, exec_claimed_at := None, exec_updated_at := ?now\<rparr>)"
    using disconnect_exhausted [OF _ _ db(3) spent] by blast+
  have "recoverSubmission cfg rt run w =
      (Inr (), w\<lparr>w_db := snd (disconnectExhaustedSubmissionRecovery cfg ?now k MAX_SUBMISSION_RECOVERY_ATTEMPTS db1),
        w_calls := w_calls w + 2\<rparr>)"
    using turns(2) spent count parked(1) run
    by (simp add: recoverSubmission_def concludeExhaustedSubmissionRecovery_def andThen_def
        ret_def ask_def call_connected db1_def numeral_2_eq_2)
  then show ?thesis using parked(2) spent by (auto simp: replayed_def)
qed

lemma replay_row:
  fixes w :: world
  assumes turns: "undisturbed (connectorId cfg) k (w_turns w)" "connected (w_turns w)" "mono (\<lambda>i. turn_now (w_turns w i))"
    and db: "reachable (w_db w)" "exec_of (w_db w) (connectorId cfg) k = Some e"
    and claimable: "recovery_claimable cfg now e" "now \<le> turn_now (w_turns w (w_calls w))"
    and run: "rec_run_id run = k" "rec_execution_input run = Some input"
    and unknown: "submitExecutionRun rt (rec_workflow run) k input = Inl err" "is_uncertain err"
  shows "\<exists>e' w'. recoverSubmission cfg rt run w = (Inr (), w') \<and> exec_of (w_db w') (connectorId cfg) k = Some e' \<and>
     replayed (w_turns w) e e'"
proof -
  have "now \<le> turn_now (w_turns w (Suc (w_calls w)))"
    using monoD [OF turns(3), of "w_calls w" "Suc (w_calls w)"] claimable(2) by simp
  note can = claimable_later [OF claimable(1) this]
  show ?thesis
    by (cases "exec_attempt_count e < MAX_SUBMISSION_RECOVERY_ATTEMPTS")
      (simp add: replay_within_budget [OF turns(1,2) db can _ run unknown], simp add: replay_over_budget [OF turns(1,2) db can _ run(1)])
qed

subsection \<open>One pass\<close>

lemma projected_row: "r \<in> set (proj_runs (projectRunRows rows)) \<Longrightarrow> \<exists>row \<in> set rows. rowToRecord row = Inr r"
  by (induction rows) (auto simp: Let_def split: sum.splits)

lemma queued_input:
  assumes "run \<in> set (proj_runs (queue_of Q cfg db))" "exec_of db (connectorId cfg) (rec_run_id run) = Some e"
  shows "rec_execution_input run = exec_input e"
proof -
  obtain row where row: "row \<in> set (run_select db)" "rr_connector_id (row_trunk row) = connectorId cfg" "rowToRecord row = Inr run"
    using projected_row assms(1) unfolding queue_of_def by fastforce
  then have "row_execution row = Some e"
    using join_row(1) [OF row(1)] record_columns(1) [OF row(3)] assms(2) by simp
  then show ?thesis using row(3) by (auto simp: rowToRecord_def Let_def split: option.splits sum.splits)
qed

lemma listed_once:
  assumes "reachable db" "exec_of db (connectorId cfg) k = Some e" "Q e"
  obtains xs run ys where "proj_runs (queue_of Q cfg db) = xs @ run # ys" "rec_run_id run = k" "rec_execution_input run = exec_input e"
    "k \<notin> rec_run_id ` set xs" "k \<notin> rec_run_id ` set ys"
proof -
  have "k \<in> set (map rec_run_id (proj_runs (queue_of Q cfg db)))" unfolding queue_exact(3) [OF assms(1)] using assms(2,3) by blast
  then obtain run where run: "run \<in> set (proj_runs (queue_of Q cfg db))" "rec_run_id run = k" by auto
  then obtain xs ys where split: "proj_runs (queue_of Q cfg db) = xs @ run # ys" by (auto dest: split_list)
  then have "k \<notin> rec_run_id ` set xs" "k \<notin> rec_run_id ` set ys"
    using queue_exact(2) [OF assms(1), of Q cfg] run(2) by auto
  with that split run queued_input [OF run(1)] assms(2) show thesis by simp
qed

lemma spared_row:
  assumes "spares c k m" "undisturbed c k (w_turns w)" "at_rest c k (w_db w)" "exec_of (w_db w) c k = Some e"
  shows "exec_of (w_db (snd (m w))) c k = Some e"
  using sparesD(1) [OF assms(1-3)] assms(4) by (simp add: same_run_def)

lemma recover_listed:
  fixes w :: world
  assumes turns: "undisturbed (connectorId cfg) k (w_turns w)" "connected (w_turns w)" "mono (\<lambda>i. turn_now (w_turns w i))"
    and db: "reachable (w_db w)" "exec_of (w_db w) (connectorId cfg) k = Some e"
    and claimable: "recovery_claimable cfg now e" "now \<le> turn_now (w_turns w (w_calls w))"
    and run: "rec_run_id run = k" "rec_execution_input run = Some input" "k \<notin> rec_run_id ` set xs" "k \<notin> rec_run_id ` set ys"
    and unknown: "\<And>n wf. \<exists>err. submitExecutionRun (rt n) wf k input = Inl err \<and> is_uncertain err"
    and rest: "\<And>a. spares (connectorId cfg) k (f a)"
  shows "\<exists>e'. exec_of (w_db (snd (andThen (recover_all cfg rt n (xs @ run # ys)) f w))) (connectorId cfg) k = Some e' \<and>
     replayed (w_turns w) e e'"
proof -
  let ?c = "connectorId cfg"
  have rest0: "at_rest ?c k (w_db w)" using db claimable(1) by (auto simp: at_rest_def recovery_claimable_def)
  note xs = spares_recover_all [OF run(3), of cfg rt n]
  obtain w1 where w1: "recover_all cfg rt n xs w = (Inr (), w1)" "w_turns w1 = w_turns w"
    using answers_recover_all [of cfg rt n xs] turns(2) by (cases "recover_all cfg rt n xs w") (auto simp: answers_def)
  have "exec_of (w_db w1) ?c k = Some e" "reachable (w_db w1)" "w_calls w \<le> w_calls w1"
    using spared_row [OF xs turns(1) rest0 db(2)] sparesD(2,4) [OF xs turns(1) rest0] w1 by simp_all
  moreover obtain err where "submitExecutionRun (rt (n + length xs)) (rec_workflow run) k input = Inl err" "is_uncertain err"
    using unknown by blast
  moreover have "now \<le> turn_now (w_turns w1 (w_calls w1))"
    using claimable(2) monoD [OF turns(3) calculation(3)] w1(2) by simp
  ultimately obtain e' w2 where w2: "recoverSubmission cfg (rt (n + length xs)) run w1 = (Inr (), w2)"
      "exec_of (w_db w2) ?c k = Some e'" "replayed (w_turns w) e e'"
    using replay_row [of cfg k w1 e now run input "rt (n + length xs)"] turns claimable(1) run(1,2) w1(2) by auto
  have step: "store_step\<^sup>*\<^sup>* (w_db w1) (w_db w2)" "w_turns w2 = w_turns w"
    using staysD(1,2) [OF stays_recoverSubmission undisturbed_fair, of ?c k w1 cfg "rt (n + length xs)" run] turns(1) w1(2) w2(1)
    by simp_all
  have "at_rest ?c k (w_db w2)"
    using reachable_steps [OF \<open>reachable (w_db w1)\<close> step(1)] w2(2,3) by (auto simp: at_rest_def replayed_def split: if_splits)
  moreover have "spares ?c k (andThen (recover_all cfg rt (Suc (n + length xs)) ys) f)"
    by (intro sparing spares_recover_all run rest)
  moreover have "andThen (recover_all cfg rt n (xs @ run # ys)) f w = andThen (recover_all cfg rt (Suc (n + length xs)) ys) f w2"
    using w1(1) w2(1) by (simp add: recover_all_append andThen_def)
  ultimately show ?thesis
    using spared_row [of ?c k _ w2 e'] step(2) turns(1) w2(2,3) by auto
qed

text \<open>A pass begins with the expiry of preparations and the list of recoveries; a run at rest is still there, and the observations at the end
  leave it alone.\<close>

lemma pass_opening:
  fixes w :: world
  assumes turns: "undisturbed (connectorId cfg) k (w_turns w)" "connected (w_turns w)"
    and db: "at_rest (connectorId cfg) k (w_db w)" "exec_of (w_db w) (connectorId cfg) k = Some e"
  shows "\<exists>w2 f. coordinateReviewRunsOnce pg_text cfg rt locked w =
      andThen (recover_all cfg rt 0 (proj_runs (listSubmissionRecoveries cfg (turn_now (w_turns w (Suc (w_calls w)))) (w_db w2)))) f w2 \<and>
    w_turns w2 = w_turns w \<and> w_calls w2 = Suc (Suc (w_calls w)) \<and> reachable (w_db w2) \<and>
    exec_of (w_db w2) (connectorId cfg) k = Some e \<and> (\<forall>a. spares (connectorId cfg) k (f a))"
proof -
  let ?t = "w_turns w (w_calls w)" and ?expire = "call (\<lambda>now tok. expireStale cfg now locked)"
  let ?f = "\<lambda>recoveries. \<lambda>_::unit. andThen (ask (\<lambda>now. listActiveRuns cfg)) (\<lambda>active.
      if proj_runs active = [] then ret []
      else andThen (await (getExecutionRunStatuses (rt (length (proj_runs recoveries))) (map rec_run_id (proj_runs active)))) (\<lambda>statuses.
        observe_all pg_text cfg rt statuses (Suc (length (proj_runs recoveries))) (proj_runs active)))"
  have expire: "spares (connectorId cfg) k ?expire" by (rule spares_call) (auto intro: expiry_spares store_step.expireStale)
  define w1 where "w1 = snd (?expire w)"
  note w1 = sparesD(2,3) [OF expire turns(1) db(1), folded w1_def] spared_row [OF expire turns(1) db, folded w1_def]
  have "db_inv (turn_others ?t (w_db w))"
    using db(1) by (intro reachable_invD undisturbed_reachable [OF turns(1)]) (simp add: at_rest_def)
  from expireStale_ok [OF this, of cfg "turn_now ?t" locked]
  obtain r where "fst (expireStale cfg (turn_now ?t) locked (turn_others ?t (w_db w))) = Inr r" by auto
  then have expired: "?expire w = (Inr r, w1)" "w_calls w1 = Suc (w_calls w)"
    using turns(2) by (simp_all add: call_connected w1_def)
  let ?now = "turn_now (w_turns w (Suc (w_calls w)))"
  define w2 where "w2 = w1\<lparr>w_db := turn_others (w_turns w (Suc (w_calls w))) (w_db w1), w_calls := Suc (Suc (w_calls w))\<rparr>"
  have "ask (\<lambda>now. listSubmissionRecoveries cfg now) w1 = (Inr (listSubmissionRecoveries cfg ?now (w_db w2)), w2)"
    using turns(2) w1(2) expired(2) by (simp add: ask_def call_connected w2_def)
  with expired(1) have "coordinateReviewRunsOnce pg_text cfg rt locked w =
      andThen (recover_all cfg rt 0 (proj_runs (listSubmissionRecoveries cfg ?now (w_db w2)))) (?f (listSubmissionRecoveries cfg ?now (w_db w2))) w2"
    unfolding coordinateReviewRunsOnce_def Let_def by (simp add: andThen_Inr)
  moreover have "w_turns w2 = w_turns w" "w_calls w2 = Suc (Suc (w_calls w))" "reachable (w_db w2)"
      "exec_of (w_db w2) (connectorId cfg) k = Some e"
    using undisturbed_reachable [OF turns(1) w1(1)] undisturbedD(3) [OF turns(1)] w1(2,3) by (simp_all add: w2_def)
  ultimately show ?thesis using spares_observations by (intro exI conjI allI)
qed

lemma pass_row:
  fixes w :: world
  assumes turns: "undisturbed (connectorId cfg) k (w_turns w)" "connected (w_turns w)" "mono (\<lambda>i. turn_now (w_turns w i))"
    and db: "reachable (w_db w)" "exec_of (w_db w) (connectorId cfg) k = Some e"
    and e: "exec_status e = ExecUncertain" "exec_input e = Some input"
    and unknown: "\<And>n wf. \<exists>err. submitExecutionRun (rt n) wf k input = Inl err \<and> is_uncertain err"
  shows "\<exists>e'. exec_of (w_db (snd (coordinateReviewRunsOnce pg_text cfg rt locked w))) (connectorId cfg) k = Some e' \<and>
     (e' = e \<and> \<not> recovery_claimable cfg (turn_now (w_turns w (w_calls w))) e \<or> replayed (w_turns w) e e')"
proof -
  let ?c = "connectorId cfg"
  define now where "now = turn_now (w_turns w (Suc (w_calls w)))"
  have rest: "at_rest ?c k (w_db w)" using db e(1) by (simp add: at_rest_def)
  obtain w2 f where pass: "coordinateReviewRunsOnce pg_text cfg rt locked w =
      andThen (recover_all cfg rt 0 (proj_runs (listSubmissionRecoveries cfg now (w_db w2)))) f w2"
    and w2: "w_turns w2 = w_turns w" "w_calls w2 = Suc (Suc (w_calls w))" "reachable (w_db w2)" "exec_of (w_db w2) ?c k = Some e"
    and f: "\<And>a. spares ?c k (f a)"
    using pass_opening [where pg_text = pg_text and rt = rt and locked = locked, OF turns(1,2) rest db(2), folded now_def] by blast
  show ?thesis
  proof (cases "recovery_claimable cfg now e")
    case True
    let ?Q = "\<lambda>e. exec_status e = ExecUncertain \<and> (exec_claim_token e = None \<or> lease_expired cfg now (exec_claimed_at e))"
    have "?Q e" using True by (simp add: recovery_claimable_def)
    obtain xs run ys where listed: "proj_runs (queue_of ?Q cfg (w_db w2)) = xs @ run # ys" "rec_run_id run = k"
        "rec_execution_input run = exec_input e" "k \<notin> rec_run_id ` set xs" "k \<notin> rec_run_id ` set ys"
      by (rule listed_once [where Q = ?Q, OF w2(3,4) \<open>?Q e\<close>])
    note input = listed(3) [unfolded e(2)]
    have "now \<le> turn_now (w_turns w2 (w_calls w2))" unfolding now_def w2 by (rule monoD [OF turns(3)]) simp
    from recover_listed [where w = w2 and rt = rt and n = 0 and f = f, OF _ _ _ _ _ True this listed(2) input listed(4,5) unknown f]
    have "\<exists>e'. exec_of (w_db (snd (andThen (recover_all cfg rt 0 (xs @ run # ys)) f w2))) ?c k = Some e' \<and> replayed (w_turns w2) e e'"
      using turns w2 by simp
    then show ?thesis unfolding pass listSubmissionRecoveries_queue listed(1) w2(1) by blast
  next
    case False
    then have "k \<notin> set (map rec_run_id (proj_runs (listSubmissionRecoveries cfg now (w_db w2))))"
      unfolding listSubmissionRecoveries_queue queue_exact(3) [OF w2(3)] using w2(4) by (simp add: recovery_claimable_def)
    then have "spares ?c k (andThen (recover_all cfg rt 0 (proj_runs (listSubmissionRecoveries cfg now (w_db w2)))) f)"
      by (intro sparing spares_recover_all f) simp
    from spared_row [OF this] have "exec_of (w_db (snd (coordinateReviewRunsOnce pg_text cfg rt locked w))) ?c k = Some e"
      unfolding pass using turns(1) w2 e(1) by (simp add: at_rest_def)
    moreover have "turn_now (w_turns w (w_calls w)) \<le> now" unfolding now_def by (rule monoD [OF turns(3)]) simp
    ultimately show ?thesis using claimable_later [of cfg _ e now] False by auto
  qed
qed

subsection \<open>Passes\<close>

text \<open>The database after the first \<open>n\<close> passes of the coordinator's loop: each pass has its own turns, network answers and locked rows,
  and what a pass throws goes to \<^verbatim>\<open>onError\<close>.\<close>

primrec coordination_passes ::
  "(json \<Rightarrow> string) \<Rightarrow> store_cfg \<Rightarrow> (nat \<Rightarrow> nat \<Rightarrow> runtime) \<Rightarrow> (nat \<Rightarrow> string \<Rightarrow> bool) \<Rightarrow> (nat \<Rightarrow> nat \<Rightarrow> turn) \<Rightarrow> nat \<Rightarrow> db \<Rightarrow> db"
where
  "coordination_passes pg_text cfg rt locked turns 0 db = db"
| "coordination_passes pg_text cfg rt locked turns (Suc n) db =
     w_db (snd (coordinateReviewRunsOnce pg_text cfg (rt n) (locked n)
       \<lparr>w_db = coordination_passes pg_text cfg rt locked turns n db, w_turns = turns n, w_calls = 0, w_lost = False\<rparr>))"

text \<open>The clock never goes back, within a pass or from one to the next, and passes go on.\<close>

definition passes_go_on :: "(nat \<Rightarrow> nat \<Rightarrow> turn) \<Rightarrow> bool" where
  "passes_go_on turns \<longleftrightarrow>
     (\<forall>n. mono (\<lambda>i. turn_now (turns n i))) \<and>
     (\<forall>n i j. turn_now (turns n i) \<le> turn_now (turns (Suc n) j)) \<and>
     (\<forall>t. \<exists>n. t \<le> turn_now (turns n 0))"

lemma passes_reach:
  assumes "\<And>n. undisturbed c k (turns n)" "reachable db"
  shows "reachable (coordination_passes pg_text cfg rt locked turns n db)"
proof (induction n)
  case (Suc n)
  let ?w = "\<lparr>w_db = coordination_passes pg_text cfg rt locked turns n db, w_turns = turns n, w_calls = 0, w_lost = False\<rparr>"
  have "fair ?w" by (rule undisturbed_fair [of c k]) (simp add: assms(1))
  from staysD(1) [OF stays_coordinate this] show ?case
    by (simp add: reachable_steps [OF Suc])
qed (simp add: assms(2))

lemma replay_comes:
  assumes turns: "\<And>n. undisturbed (connectorId cfg) k (turns n)" "\<And>n. connected (turns n)" "passes_go_on turns"
    and db: "reachable db"
    and unknown: "\<And>n i wf. \<exists>err. submitExecutionRun (rt n i) wf k input = Inl err \<and> is_uncertain err"
    and e: "exec_of (coordination_passes pg_text cfg rt locked turns m db) (connectorId cfg) k = Some e"
      "exec_status e = ExecUncertain" "exec_input e = Some input"
  shows "\<exists>n e'. m \<le> n \<and> exec_of (coordination_passes pg_text cfg rt locked turns (Suc n) db) (connectorId cfg) k = Some e' \<and>
     replayed (turns n) e e'"
proof (rule ccontr)
  let ?db = "\<lambda>n. coordination_passes pg_text cfg rt locked turns n db"
  let ?w = "\<lambda>n. \<lparr>w_db = ?db n, w_turns = turns n, w_calls = 0, w_lost = False\<rparr>"
  assume never: "\<not> ?thesis"
  have pass: "exec_of (?db (Suc n)) (connectorId cfg) k = Some e \<and> \<not> recovery_claimable cfg (turn_now (turns n 0)) e"
    if "m \<le> n" "exec_of (?db n) (connectorId cfg) k = Some e" for n
    using pass_row [of cfg k "?w n" e input "rt n" pg_text "locked n"] turns passes_reach [OF turns(1) db] that e(2,3) unknown never
    by (auto simp: passes_go_on_def)
  have row: "exec_of (?db (m + i)) (connectorId cfg) k = Some e" for i
    by (induction i) (use e(1) pass in auto)
  have "reachable (?db m)" by (rule passes_reach [OF turns(1) db])
  from invD(3) [OF reachable_invD [OF this], of "connectorId cfg" k] e(1)
  have "exec_check e" by (auto elim: run_okE)
  define t where "t = (case exec_claimed_at e of None \<Rightarrow> 0 | Some x \<Rightarrow> x + 1000 * int (claimTimeoutMs cfg))"
  have t: "recovery_claimable cfg now e" if "t \<le> now" for now
    using \<open>exec_check e\<close> e(2) that
    by (cases "exec_claimed_at e") (auto simp: recovery_claimable_def lease_expired_def exec_check_def t_def)
  obtain n where n: "t \<le> turn_now (turns n 0)" using turns(3) unfolding passes_go_on_def by metis
  have mono: "turn_now (turns n 0) \<le> turn_now (turns (n + i) 0)" for n i
    by (induction i) (use turns(3) in \<open>auto simp: passes_go_on_def intro: order_trans\<close>)
  have "turn_now (turns n 0) \<le> turn_now (turns (m + n) 0)" using mono [of n m] by (simp add: add.commute)
  with n t have "recovery_claimable cfg (turn_now (turns (m + n) 0)) e" by simp
  with pass [of "m + n"] row [of n] show False by simp
qed

lemma passes_park:
  assumes turns: "\<And>n. undisturbed (connectorId cfg) k (turns n)" "\<And>n. connected (turns n)" "passes_go_on turns"
    and db: "reachable db"
    and unknown: "\<And>n i wf. \<exists>err. submitExecutionRun (rt n i) wf k input = Inl err \<and> is_uncertain err"
  shows "exec_of (coordination_passes pg_text cfg rt locked turns m db) (connectorId cfg) k = Some e \<Longrightarrow>
    exec_status e = ExecUncertain \<Longrightarrow> exec_input e = Some input \<Longrightarrow>
    \<exists>n e'. exec_of (coordination_passes pg_text cfg rt locked turns n db) (connectorId cfg) k = Some e' \<and>
      exec_status e' = ExecDisconnected \<and> exec_attempt_count e' = max MAX_SUBMISSION_RECOVERY_ATTEMPTS (exec_attempt_count e)"
proof (induction "MAX_SUBMISSION_RECOVERY_ATTEMPTS - exec_attempt_count e" arbitrary: m e rule: less_induct)
  case less
  obtain n e' where n: "exec_of (coordination_passes pg_text cfg rt locked turns (Suc n) db) (connectorId cfg) k = Some e'"
      "replayed (turns n) e e'"
    using replay_comes [where pg_text = pg_text and locked = locked, OF turns db unknown less.prems] by blast
  show ?case
  proof (cases "exec_attempt_count e < MAX_SUBMISSION_RECOVERY_ATTEMPTS")
    case True
    with n(2) have "exec_status e' = ExecUncertain" "exec_input e' = Some input" "exec_attempt_count e' = Suc (exec_attempt_count e)"
      using less.prems(3) by (simp_all add: replayed_def)
    moreover have "max MAX_SUBMISSION_RECOVERY_ATTEMPTS (Suc (exec_attempt_count e)) = max MAX_SUBMISSION_RECOVERY_ATTEMPTS (exec_attempt_count e)"
      using True by simp
    ultimately show ?thesis using less.hyps [OF _ n(1)] True by auto
  next
    case False
    with n show ?thesis by (intro exI [of _ "Suc n"] exI [of _ e'] conjI) (simp_all add: replayed_def)
  qed
qed

subsection \<open>Properties\<close>

text \<open>C10. Once the Execution has accepted a prepared submission, the run is recorded as queued, or, if that cannot be recorded, as
  uncertain. Other processes may write to other runs but not to this one meanwhile. The connection may be lost at the recording call and at
  the cleanup after it, before or after their commits; where the cleanup is lost before it is done, the execution may also be left pending with
  the saved input, as it was submitted. In no case is the run concluded as one that was not submitted.\<close>

theorem accepted_submission_kept:
  fixes w :: world
  assumes "undisturbed (connectorId cfg) k (w_turns w)" "reachable (w_db w)"
    "turn_fault (w_turns w (w_calls w)) = Clean" "turn_fault (w_turns w (Suc (w_calls w))) = Clean"
    "db1 = turn_others (w_turns w (w_calls w)) (w_db w)" "fst (getRun cfg k db1) = Some run"
    "savePreparedSubmission cfg (turn_now (w_turns w (Suc (w_calls w)))) k tok context inp
       (turn_others (w_turns w (Suc (w_calls w))) db1) = (Inr (), saved)"
    "submit (rec_workflow run) k inp = Inr ()"
    "db' = w_db (snd (submitPreparedRun cfg k tok context inp submit w))"
  shows "map_option exec_status (exec_of db' (connectorId cfg) k) \<in> {Some ExecQueued, Some ExecUncertain} \<or>
     (\<exists>loss. turn_fault (w_turns w (w_calls w + 3)) = LostBefore loss) \<and>
       (\<exists>e. exec_of db' (connectorId cfg) k = Some e \<and> exec_status e = ExecPending \<and> exec_input e = Some inp)"
proof -
  let ?w1 = "w\<lparr>w_db := db1, w_calls := Suc (w_calls w)\<rparr>" and ?w2 = "w\<lparr>w_db := saved, w_calls := Suc (Suc (w_calls w))\<rparr>"
  let ?last = "catch (call (\<lambda>now t. markQueued cfg now k tok context)) (abandonSubmission cfg k tok True True)"
  let ?before = "turn_others (w_turns w (Suc (w_calls w))) db1"
  have before: "reachable ?before" unfolding assms(5) by (intro undisturbed_reachable [OF assms(1)] assms(2))
  have "reachable saved"
    using reachable_step [OF before store_step.savePreparedSubmission] assms(7) by (metis snd_conv)
  moreover obtain p where "prep_of saved (connectorId cfg) k = Some p" "holds_preparation tok p"
    using save_held [OF invD(1) [OF reachable_invD [OF before]] assms(7)] by auto
  ultimately have last: "map_option exec_status (exec_of (w_db (snd (?last ?w2))) (connectorId cfg) k) \<in> {Some ExecQueued, Some ExecUncertain} \<or>
     (\<exists>loss. turn_fault (w_turns w (Suc (Suc (Suc (w_calls w))))) = LostBefore loss) \<and>
       exec_of (w_db (snd (?last ?w2))) (connectorId cfg) k = exec_of saved (connectorId cfg) k"
    using recorded_row [of cfg k ?w2 p tok "snd (?last ?w2)" "context"] assms(1) by simp
  have "ask (\<lambda>now db. fst (getRun cfg k db)) w = (Inr (Some run), ?w1)"
    using assms(3,5,6) by (simp add: ask_def call_with_def Let_def)
  moreover have "call (\<lambda>now t. savePreparedSubmission cfg now k tok context inp) ?w1 = (Inr (), ?w2)"
    using assms(4,7) by (simp add: call_with_def Let_def)
  moreover have "await (submit (rec_workflow run) k inp) ?w2 = (Inr (), ?w2)" using assms(8) by (simp add: await_def)
  ultimately have "submitPreparedRun cfg k tok context inp submit w = andThen ?last (\<lambda>_. ret (rec_workflow run)) ?w2"
    by (simp add: submitPreparedRun_def andThen_Inr catch_Inr)
  then have "db' = w_db (snd (?last ?w2))" unfolding assms(9) by (simp add: andThen_def ret_def split_beta split: sum.split)
  with last saved_row [OF reachable_invD [OF before] assms(7)] show ?thesis
    by (auto simp add: numeral_3_eq_3 simp del: map_option_eq_Some)
qed


definition lost_at :: "nat \<Rightarrow> js_error \<Rightarrow> nat \<Rightarrow> fault" where
  "lost_at n err i = (if i = n then LostBefore err else Clean)"

theorem accepted_submission_kept_witness:
  "map_option exec_status (exec_of (w_db (snd (submitPreparedRun demo_cfg ''run-1'' 1 (JObj []) demo_bundle_input (\<lambda>w k i. Inr ())
     (demo_world 1 (lost_at 2 demo_loss) demo_present)))) ''github:1'' ''run-1'') \<in> {Some ExecQueued, Some ExecUncertain}"
proof -
  let ?w = "demo_world 1 (lost_at 2 demo_loss) demo_present"
  have "fst (getRun demo_cfg ''run-1'' demo_present) \<noteq> None" by code_simp
  then obtain run where run: "fst (getRun demo_cfg ''run-1'' demo_present) = Some run" by auto
  have save: "savePreparedSubmission demo_cfg 11 ''run-1'' 1 (JObj []) demo_bundle_input demo_present = (Inr (), demo_saved)"
    using demo_upload by (simp add: demo_saved_def prod_eq_iff)
  have "undisturbed ''github:1'' ''run-1'' (w_turns ?w)" by (simp add: undisturbed_def demo_world_def same_run_def)
  with run save show ?thesis
    using accepted_submission_kept [of demo_cfg "''run-1''" ?w demo_present run 1 "JObj []" demo_bundle_input demo_saved "\<lambda>w k i. Inr ()"]
    by (simp add: demo_connector demo_world_def lost_at_def)
qed

text \<open>C11. A submission whose outcome stays unknown does not loop. Let the coordinator's passes go on, with connections that are not lost and
  other processes that may do anything to other runs but leave this one alone. If every replay of the stored input ends with an unknown
  outcome, some pass parks the execution, after exactly the replays the budget of eight has left. Passes may be as close as they like: one
  that finds the last claim's lease running leaves the run alone.\<close>

theorem unknown_submission_parks:
  assumes "\<And>n. undisturbed (connectorId cfg) k (turns n)" "\<And>n. connected (turns n)" "passes_go_on turns" "reachable db"
    "exec_of db (connectorId cfg) k = Some e" "exec_status e = ExecUncertain" "exec_input e = Some input"
    "\<And>n i wf. \<exists>err. submitExecutionRun (rt n i) wf k input = Inl err \<and> is_uncertain err"
  shows "\<exists>n e'. exec_of (coordination_passes pg_text cfg rt locked turns n db) (connectorId cfg) k = Some e' \<and>
     exec_status e' = ExecDisconnected \<and> exec_attempt_count e' = max MAX_SUBMISSION_RECOVERY_ATTEMPTS (exec_attempt_count e)"
  by (rule passes_park [where m = 0, OF assms(1-4,8)]) (simp_all add: assms)

lemma demo_unavailable: "\<exists>err. submitExecutionRun (demo_runtime (demo_response 503 [])) w k inp = Inl err \<and> is_uncertain err"
  by (simp add: submitExecutionRun_def request_def attempt_once_def demo_runtime_def demo_response_def serviceUrl_def
      serviceHeaders_def integerEnv_def js_trim_def js_space_def digit_def digits_value_def MAX_SAFE_INTEGER_def
      isLoopback_def readBoundedResponseText_def readBoundedResponseBody_def MAX_EXECUTION_RESPONSE_BYTES_def
      decode_text_def utf8_text_def utf8_lossy.simps [of "[]"] response_ok_def isRetryableStatus_def)

text \<open>Passes a tenth of a lease apart, beside a process that marks another run as running.\<close>

definition demo_turns :: "nat \<Rightarrow> nat \<Rightarrow> turn" where
  "demo_turns n i =
     \<lparr>turn_others = (\<lambda>db. snd (markRunning demo_cfg 5 ''run-2'' db)), turn_now = 10 + 100 * int n, turn_token = 100 * n + i, turn_fault = Clean\<rparr>"

lemma demo_turns:
  "undisturbed ''github:1'' ''run-1'' (demo_turns n)" "connected (demo_turns n)" "passes_go_on demo_turns"
proof -
  have "wrote ''github:1'' ''run-2'' db (snd (markRunning demo_cfg 5 ''run-2'' db))" for db
    using coordinator_wrote(7) [of demo_cfg "''run-2''" db 5] by (simp add: demo_connector)
  then have "same_run ''github:1'' ''run-1'' db (snd (markRunning demo_cfg 5 ''run-2'' db))" for db by (simp add: wrote_def)
  then show "undisturbed ''github:1'' ''run-1'' (demo_turns n)"
    by (auto simp: undisturbed_def demo_turns_def intro: store_step.markRunning)
  show "connected (demo_turns n)" by (simp add: connected_def demo_turns_def)
  have "t \<le> turn_now (demo_turns (nat t) 0)" for t by (simp add: demo_turns_def)
  then have "\<exists>n. t \<le> turn_now (demo_turns n 0)" for t by blast
  then show "passes_go_on demo_turns" by (simp add: passes_go_on_def demo_turns_def monotone_on_def)
qed

theorem unknown_submission_parks_witness:
  "\<exists>n e. exec_of (coordination_passes (\<lambda>v. []) demo_cfg (\<lambda>n i. demo_runtime (demo_response 503 [])) (\<lambda>n k. False) demo_turns n demo_lost)
       ''github:1'' ''run-1'' = Some e \<and> exec_status e = ExecDisconnected \<and> exec_attempt_count e = 8"
proof -
  have "map_option (\<lambda>e. (exec_status e, exec_input e, exec_attempt_count e)) (exec_of demo_lost ''github:1'' ''run-1'') =
      Some (ExecUncertain, Some demo_input, 0)" by code_simp
  then obtain e where e: "exec_of demo_lost ''github:1'' ''run-1'' = Some e" "exec_status e = ExecUncertain"
      "exec_input e = Some demo_input" "exec_attempt_count e = 0" by auto
  show ?thesis
    using unknown_submission_parks [of demo_cfg "''run-1''" demo_turns demo_lost e demo_input "\<lambda>n i. demo_runtime (demo_response 503 [])"
        "\<lambda>v. []" "\<lambda>n k. False"] e demo_turns demo_unavailable
    by (simp add: demo_connector MAX_SUBMISSION_RECOVERY_ATTEMPTS_def)
qed

text \<open>C22. The catch block of a replay also covers the call that records its acceptance: when the connection is lost there, before the
  statement, with an error that is not an uncertain submission, a run the Execution has accepted is concluded as failed and its publication
  skipped. Other processes leave the run alone, the claim before and the failure after it are recorded.\<close>

theorem accepted_replay_failed:
  fixes w :: world
  assumes "undisturbed (connectorId cfg) k (w_turns w)" "reachable (w_db w)" "exec_of (w_db w) (connectorId cfg) k = Some e"
    "recovery_claimable cfg (turn_now (w_turns w (w_calls w))) e" "rec_run_id run = k" "rec_execution_input run = Some input"
    "submit (rec_workflow run) k input = Inr ()" "turn_fault (w_turns w (w_calls w)) = Clean"
    "turn_fault (w_turns w (w_calls w + 1)) = LostBefore err" "\<not> is_uncertain err" "turn_fault (w_turns w (w_calls w + 2)) = Clean"
    "r = recoverReviewRunSubmission cfg run submit classifySubmissionError w"
  shows "fst r = Inr (RecoveryFailed err) \<and> map_option exec_status (exec_of (w_db (snd r)) (connectorId cfg) k) = Some ExecFailed \<and>
     map_option pub_status (pub_of (w_db (snd r)) (connectorId cfg) k) = Some PubSkipped"
proof -
  let ?c = "connectorId cfg" and ?t = "\<lambda>i. w_turns w (w_calls w + i)" and ?tok = "turn_token (w_turns w (w_calls w))"
  let ?fail = "(Some (coalesce (error_code err) ''REVIEW_START_FAILED''), error_message err)"
  define db1 where "db1 = turn_others (?t 0) (w_db w)"
  define db2 where "db2 = snd (claimSubmissionRecovery cfg (turn_now (?t 0)) ?tok k db1)"
  define db3 where "db3 = turn_others (?t 2) (turn_others (?t 1) db2)"
  have reach1: "reachable db1" unfolding db1_def by (intro undisturbed_reachable [OF assms(1)] assms(2))
  have e1: "exec_of db1 ?c k = Some e" using assms(3) undisturbedD(3) [OF assms(1)] by (simp add: db1_def)
  have reach2: "reachable db2"
    unfolding db2_def by (rule reachable_step [OF reach1 store_step.claimSubmissionRecovery])
  have reach3: "reachable db3" unfolding db3_def by (intro undisturbed_reachable [OF assms(1)] reach2)
  note claim = claim_recovery [OF invD(1) [OF reachable_invD [OF reach1]] e1, of "turn_now (?t 0)" ?tok]
  have "exec_of db3 ?c k = Some (e\<lparr>exec_claim_token := Some ?tok, exec_claimed_at := Some (turn_now (?t 0)), exec_updated_at := turn_now (?t 0)\<rparr>)"
    using claim(2) assms(4) undisturbedD(3) [OF assms(1)] by (simp add: db3_def db2_def)
  note fail = fail_recovery [OF invD(1) [OF reachable_invD [OF reach3]] this, of ?tok "turn_now (?t 2)" ?fail]
  have owns: "owns_recovery ?tok (e\<lparr>exec_claim_token := Some ?tok, exec_claimed_at := Some (turn_now (?t 0)), exec_updated_at := turn_now (?t 0)\<rparr>)"
    using assms(4) by (simp add: owns_recovery_def recovery_claimable_def)
  have r: "fst r = Inr (RecoveryFailed err)" "w_db (snd r) = snd (failSubmissionRecovery cfg (turn_now (?t 2)) k ?tok ?fail db3)"
    using assms(4-11) claim(1) fail(1) [OF owns] unfolding assms(12)
    by (simp_all add: recoverReviewRunSubmission_def andThen_def catch_def ret_def await_def call_with_def Let_def split_beta
        classifySubmissionError_def db1_def db2_def db3_def numeral_2_eq_2)
  have "reachable (w_db (snd r))"
    unfolding r(2) by (rule reachable_step [OF reach3 store_step.failSubmissionRecovery])
  with r fail(2) [OF owns] failed_skips show ?thesis by simp
qed

theorem accepted_replay_failed_witness:
  "map_option exec_status (exec_of (w_db (snd (recoverReviewRunSubmission demo_cfg demo_record (\<lambda>w k i. Inr ())
     classifySubmissionError (demo_world 1 (lost_at 1 demo_loss) demo_lost)))) ''github:1'' ''run-1'') = Some ExecFailed"
proof -
  have "map_option (recovery_claimable demo_cfg 10) (exec_of demo_lost ''github:1'' ''run-1'') = Some True" by code_simp
  then obtain e where e: "exec_of demo_lost ''github:1'' ''run-1'' = Some e" "recovery_claimable demo_cfg 10 e" by auto
  have "undisturbed ''github:1'' ''run-1'' (w_turns (demo_world 1 (lost_at 1 demo_loss) demo_lost))"
    by (simp add: undisturbed_def demo_world_def same_run_def)
  with e show ?thesis
    using accepted_replay_failed [of demo_cfg "''run-1''" "demo_world 1 (lost_at 1 demo_loss) demo_lost" e demo_record demo_input
        "\<lambda>w k i. Inr ()" demo_loss]
    by (simp add: demo_connector demo_world_def lost_at_def demo_loss_def)
qed

end
