(* ===== verification/Connector.thy ===== *)
theory Connector
  imports Runtime
begin

text \<open>
  \<^verbatim>\<open>apps/github-integration/src\<close>: the connector that publishes a finished run on GitHub, as actions on the store behind the HTTP
  surface of Review Runs. \<open>http_error\<close> is what a store error has become once the error handler of
  \<^verbatim>\<open>http/server-surface.ts\<close> has answered and \<^verbatim>\<open>review-runs/client.ts\<close> has thrown; a call of the client is one turn of the
  schedule, or two where the store runs two transactions, and a lost turn is a request that timed out or was cut off. What is done on
  GitHub is the record \<open>github\<close>: Octokit and the rendering behind it are its fields, by step key. \<open>cn_beats\<close> says before
  which calls a renewal by the heartbeat timer failed; what the renewal wrote is among the writes of the others. Log lines are left out.
\<close>

subsection \<open>Errors on the wire\<close>

text \<open>The messages of \<^verbatim>\<open>DeterministicReviewRunError\<close>.\<close>

fun step_message :: "string \<Rightarrow> string \<Rightarrow> step_error_code \<Rightarrow> string" where
  "step_message runId stepKey SetDuplicate = ''Publication '' @ runId @ '' contains duplicate step keys.''"
| "step_message runId stepKey SetChanged = ''Publication step set changed for run '' @ runId @ ''.''"
| "step_message runId stepKey RetryExhausted = ''Publication step '' @ stepKey @
     '' has no attempts left; reconcile the remote effect before concluding it.''"
| "step_message runId stepKey NotClaimable = ''Publication step is not claimable: '' @ stepKey"

record error_reply =
  er_status :: nat
  er_error :: string
  er_code :: "string option"

text \<open>The error handler of the surface, on the errors the store throws: a code outside the contract's closed set, a SQLSTATE for
  one, is dropped, and a server fault does not show its message.\<close>

fun errorReply :: "string \<Rightarrow> string \<Rightarrow> rr_error \<Rightarrow> error_reply" where
  "errorReply runId stepKey (StepError c) =
     \<lparr>er_status = 409, er_error = step_message runId stepKey c, er_code = Some (step_code_text c)\<rparr>"
| "errorReply runId stepKey (StatusError status m) =
     \<lparr>er_status = status, er_error = (if 500 \<le> status then ''Internal error'' else m), er_code = None\<rparr>"
| "errorReply runId stepKey _ = \<lparr>er_status = 500, er_error = ''Internal error'', er_code = None\<rparr>"

definition errorBody :: "error_reply \<Rightarrow> json" where
  "errorBody r = JObj ((''error'', JStr (er_error r)) # (case er_code r of None \<Rightarrow> [] | Some c \<Rightarrow> [(''code'', JStr c)]))"

definition MAX_REVIEW_RUNS_RESPONSE_BYTES :: nat where
  "MAX_REVIEW_RUNS_RESPONSE_BYTES = 4 * 1024 * 1024"

definition parseHttpErrorBody :: "(string \<Rightarrow> string + json) \<Rightarrow> string \<Rightarrow> string option \<times> string option" where
  "parseHttpErrorBody parse_json text =
     (case parse_json text of
        Inl m \<Rightarrow> (None, None)
      | Inr parsed \<Rightarrow>
          if \<not> json_is_object parsed then (None, None)
          else (string_field (json_field parsed ''error''), string_field (json_field parsed ''code'')))"

text \<open>\<^verbatim>\<open>Object.assign(new Error(message), { code, status })\<close>.\<close>

definition status_error :: "nat \<Rightarrow> string option \<Rightarrow> string option \<Rightarrow> js_error" where
  "status_error status message code =
     RemoteError code (Some status) [] None
       (coalesce message (''Review Runs returned HTTP '' @ nat_string status @ ''.''))"

definition http_error :: "string \<Rightarrow> string \<Rightarrow> rr_error \<Rightarrow> js_error" where
  "http_error runId stepKey err =
     (let r = errorReply runId stepKey err in status_error (er_status r) (Some (er_error r)) (er_code r))"

text \<open>The client's \<^verbatim>\<open>request\<close>, from what \<^verbatim>\<open>fetch\<close> threw or answered. The value is the parsed body, \<open>None\<close> for an empty
  one. An \<^verbatim>\<open>AbortError\<close> is the timeout, wherever it struck.\<close>

definition clientRequest ::
  "(string \<Rightarrow> string + json) \<Rightarrow> string \<Rightarrow> bool \<Rightarrow> js_error + http_response \<Rightarrow> js_error + json option" where
  "clientRequest parse_json operation nullOn404 fetched =
     (let out =
        (case fetched of
           Inl err \<Rightarrow> Inl err
         | Inr response \<Rightarrow>
             if \<not> response_ok (resp_status response) \<and> nullOn404 \<and> resp_status response = 404 then Inr (Some JNull)
             else
              (case readBoundedResponseBody response MAX_REVIEW_RUNS_RESPONSE_BYTES of
                 Inl (ResponseTooLarge n) \<Rightarrow>
                   if response_ok (resp_status response)
                   then Inl (NamedError ''ReviewRunsResponseTooLargeError'' (Some ''REVIEW_RUNS_RESPONSE_TOO_LARGE'')
                          ''Review Runs returned a response larger than the protocol budget.'')
                   else Inl (status_error (resp_status response) None None)
               | Inl err \<Rightarrow> Inl err
               | Inr body \<Rightarrow>
                  (let text = decode_text body in
                   if \<not> response_ok (resp_status response)
                   then (case parseHttpErrorBody parse_json text of (message, code) \<Rightarrow>
                          Inl (status_error (resp_status response) message code))
                   else if text = [] then Inr None
                   else (case parse_json text of
                           Inl m \<Rightarrow> Inl (NamedError ''SyntaxError'' None m)
                         | Inr v \<Rightarrow> Inr (Some v)))))
      in case out of
           Inl (NamedError name c m) \<Rightarrow>
             if name = ''AbortError''
             then Inl (NamedError ''Error'' (Some ''REVIEW_RUNS_REQUEST_TIMEOUT'')
                    (''Review Runs '' @ operation @ '' request timed out.''))
             else out
         | _ \<Rightarrow> out)"

subsection \<open>Failure classification\<close>

text \<open>\<^verbatim>\<open>asErrorWithResponse\<close>: the status, the headers and the message of the response of a thrown value.\<close>

fun error_status :: "js_error \<Rightarrow> nat option" where
  "error_status (RemoteError c status headers rm m) = status"
| "error_status _ = None"

fun error_headers :: "js_error \<Rightarrow> (string \<times> string) list" where
  "error_headers (RemoteError c status headers rm m) = headers"
| "error_headers _ = []"

fun response_message :: "js_error \<Rightarrow> string option" where
  "response_message (RemoteError c status headers rm m) = rm"
| "response_message _ = None"

fun isPublicationClaimLostError :: "js_error \<Rightarrow> bool" where
  "isPublicationClaimLostError (ClaimLostError m) = True"
| "isPublicationClaimLostError _ = False"

fun isDeterministicExecutionPublishError :: "js_error \<Rightarrow> bool" where
  "isDeterministicExecutionPublishError (DeterministicPublishError c m) = True"
| "isDeterministicExecutionPublishError (NamedError name c m) =
     (name = ''DeterministicExecutionPublishError'' \<and> c \<noteq> None)"
| "isDeterministicExecutionPublishError _ = False"

text \<open>\<^verbatim>\<open>includes\<close>, on text in lower case. No other letter than the ASCII ones has a lower case form that completes one of the words
  looked for.\<close>

fun js_includes :: "string \<Rightarrow> string \<Rightarrow> bool" where
  "js_includes needle [] = (needle = [])"
| "js_includes needle (x # xs) = (take (length needle) (x # xs) = needle \<or> js_includes needle xs)"

definition isTransportFault :: "js_error \<Rightarrow> bool" where
  "isTransportFault err = (case error_status err of None \<Rightarrow> True | Some status \<Rightarrow> 500 \<le> status)"

text \<open>\<^verbatim>\<open>headers[a] ?? headers[b]\<close>.\<close>

definition either_header :: "(string \<times> string) list \<Rightarrow> string \<Rightarrow> string \<Rightarrow> string option" where
  "either_header headers a b = (case map_of headers a of None \<Rightarrow> map_of headers b | Some v \<Rightarrow> Some v)"

definition lower_messages :: "js_error \<Rightarrow> string" where
  "lower_messages err = map lower_char (error_message err @ '' '' @ coalesce (response_message err) [])"

definition isRateLimitOrAbuseLimit :: "js_error \<Rightarrow> bool" where
  "isRateLimitOrAbuseLimit err =
     (either_header (error_headers err) ''retry-after'' ''Retry-After'' \<noteq> None \<or>
      either_header (error_headers err) ''x-ratelimit-remaining'' ''X-RateLimit-Remaining'' = Some ''0'' \<or>
      js_includes ''rate limit'' (lower_messages err) \<or> js_includes ''abuse'' (lower_messages err))"

datatype failure_scope = StepScope | PublicationScope

record failure_classification =
  fc_retry :: bool
  fc_scope :: failure_scope
  fc_code :: "string option"
  fc_reason :: string

definition DETERMINISTIC_REVIEW_RUNS_PUBLICATION_CODES :: "string set" where
  "DETERMINISTIC_REVIEW_RUNS_PUBLICATION_CODES =
     {''PUBLICATION_STEP_SET_DUPLICATE'', ''PUBLICATION_STEP_SET_CHANGED'', ''PUBLICATION_STEP_NOT_CLAIMABLE''}"

definition classification :: "bool \<Rightarrow> failure_scope \<Rightarrow> string option \<Rightarrow> string \<Rightarrow> failure_classification" where
  "classification retry scope code reason = \<lparr>fc_retry = retry, fc_scope = scope, fc_code = code, fc_reason = reason\<rparr>"

definition classify_status :: "js_error \<Rightarrow> nat \<Rightarrow> failure_classification" where
  "classify_status err status =
     (if 500 \<le> status \<or> status = 408 \<or> status = 409 \<or> status = 429
      then classification True PublicationScope (error_code err) ''github-transient-response''
      else if status = 403 \<and> isRateLimitOrAbuseLimit err
      then classification True PublicationScope (error_code err) ''github-rate-limited''
      else if status = 401 \<or> status = 403
      then classification False PublicationScope (Some (coalesce (error_code err) ''GITHUB_AUTH_REJECTED''))
             ''github-auth-rejected''
      else if status = 404
      then classification False StepScope (Some (coalesce (error_code err) ''GITHUB_NOT_FOUND'')) ''github-not-found''
      else if status = 422
      then classification False StepScope (Some (coalesce (error_code err) ''GITHUB_VALIDATION_REJECTED''))
             ''github-validation-rejected''
      else if 400 \<le> status \<and> status < 500
      then classification False StepScope (Some (coalesce (error_code err) ''GITHUB_PUBLISH_REJECTED''))
             ''github-deterministic-response''
      else classification True PublicationScope (error_code err) ''github-unclassified-response'')"

definition classifyPublicationFailure :: "js_error \<Rightarrow> failure_classification" where
  "classifyPublicationFailure err =
     (if isDeterministicExecutionPublishError err
      then classification False StepScope (error_code err) ''deterministic-publish-result''
      else if error_code err = Some ''PUBLICATION_STEP_RETRY_EXHAUSTED''
      then (let retry = isTransportFault err in
            classification retry (if retry then PublicationScope else StepScope) (error_code err)
              ''publication-step-retry-exhausted'')
      else if (case error_code err of None \<Rightarrow> False | Some c \<Rightarrow> c \<in> DETERMINISTIC_REVIEW_RUNS_PUBLICATION_CODES)
      then classification False StepScope (error_code err) ''review-runs-deterministic-publication-fault''
      else case error_status err of
             None \<Rightarrow> classification True PublicationScope (error_code err) ''unknown-publish-error''
           | Some status \<Rightarrow> classify_status err status)"

subsection \<open>Calls of the client\<close>

record connector =
  cn_cfg :: store_cfg
  cn_beats :: "nat \<Rightarrow> bool"
  cn_locked :: "string \<Rightarrow> bool"

definition beat :: "connector \<Rightarrow> world \<Rightarrow> world" where
  "beat cn w = w\<lparr>w_lost := (w_lost w \<or> cn_beats cn (w_calls w))\<rparr>"

definition remote ::
  "connector \<Rightarrow> string \<Rightarrow> string \<Rightarrow> (store_cfg \<Rightarrow> instant \<Rightarrow> db \<Rightarrow> (rr_error + 'a) \<times> db) \<Rightarrow> 'a act" where
  "remote cn runId stepKey op w = call_with (http_error runId stepKey) (\<lambda>now tok. op (cn_cfg cn) now) (beat cn w)"

text \<open>\<^verbatim>\<open>listInternalPublicationSteps\<close>: the handler reads the run, then its steps.\<close>

definition listSteps :: "connector \<Rightarrow> string \<Rightarrow> publication_step_record list act" where
  "listSteps cn runId =
     andThen (remote cn runId [] (\<lambda>cfg now db. (Inr (fst (getRun cfg runId db)), db))) (\<lambda>found.
     case found of
       None \<Rightarrow> throw (status_error 404 (Some ''run_not_found'') None)
     | Some run \<Rightarrow> remote cn runId [] (\<lambda>cfg now db. (Inr (listPublicationSteps cfg (rec_run_id run) db), db)))"

text \<open>\<^verbatim>\<open>requirePublicationStepClaim\<close> runs its claim and its exhaustion check as two transactions.\<close>

definition requireStepClaim :: "connector \<Rightarrow> string \<Rightarrow> uuid \<Rightarrow> string \<Rightarrow> unit act" where
  "requireStepClaim cn runId token stepKey =
     andThen (remote cn runId stepKey (\<lambda>cfg now. claimPublicationStep cfg now runId token stepKey)) (\<lambda>claimed.
     if claimed then ret ()
     else andThen (remote cn runId stepKey (\<lambda>cfg now. transaction (exhaustion_tx cfg now runId token stepKey))) (\<lambda>exhausted.
          throw (http_error runId stepKey (StepError (if exhausted then RetryExhausted else NotClaimable)))))"

type_synonym remote_ref = "string option \<times> string option"

definition completeStep :: "connector \<Rightarrow> string \<Rightarrow> uuid \<Rightarrow> string \<Rightarrow> remote_ref \<Rightarrow> bool act" where
  "completeStep cn runId token stepKey r =
     remote cn runId stepKey (\<lambda>cfg now. completePublicationStep cfg now runId token stepKey (fst r) (snd r))"

definition failStep :: "connector \<Rightarrow> string \<Rightarrow> uuid \<Rightarrow> string \<Rightarrow> js_error \<Rightarrow> bool act" where
  "failStep cn runId token stepKey err =
     (let failure = classifyPublicationFailure err in
      remote cn runId stepKey (\<lambda>cfg now. failPublicationStep cfg now runId token stepKey
        (fc_code failure, error_message err) (Some (fc_retry failure))))"

subsection \<open>One publication step\<close>

definition isPublicationStepExhausted :: "js_error \<Rightarrow> bool" where
  "isPublicationStepExhausted err \<longleftrightarrow> error_code err = Some ''PUBLICATION_STEP_RETRY_EXHAUSTED''"

datatype settle_result = RecordedSucceeded remote_ref | RecordedTerminalFailed | NotOwned

definition settleExhaustedStep ::
  "connector \<Rightarrow> string \<Rightarrow> uuid \<Rightarrow> string \<Rightarrow> remote_ref option act \<Rightarrow> settle_result act" where
  "settleExhaustedStep cn runId token stepKey look =
     andThen look (\<lambda>found.
     andThen (remote cn runId stepKey (\<lambda>cfg now. settleExhaustedPublicationStep cfg now runId token stepKey
       (case found of None \<Rightarrow> Absent | Some r \<Rightarrow> Found (fst r) (snd r)))) (\<lambda>settled.
     ret (if \<not> settled then NotOwned
          else case found of None \<Rightarrow> RecordedTerminalFailed | Some r \<Rightarrow> RecordedSucceeded r)))"

definition claim_lost :: "string \<Rightarrow> js_error" where
  "claim_lost runId = ClaimLostError (''Publication claim is no longer provably owned for review run '' @ runId @ ''.'')"

record publication_step_run =
  run_remote :: remote_ref
  run_alreadySucceeded :: bool
  run_reconciled :: bool
  run_previousAttempts :: nat

definition recordedRemote :: "publication_step_record \<Rightarrow> remote_ref" where
  "recordedRemote s = (psr_remote_object_id s, psr_remote_object_url s)"

text \<open>The second half of \<open>runPublicationStep\<close>, under a claim: the effect and its record. The pair of an effect that answers
  \<^verbatim>\<open>null\<close> is \<^verbatim>\<open>{}\<close>.\<close>

definition performStep ::
  "connector \<Rightarrow> string \<Rightarrow> uuid \<Rightarrow> string \<Rightarrow> unit act \<Rightarrow> remote_ref option act \<Rightarrow> nat \<Rightarrow> publication_step_run act" where
  "performStep cn runId token stepKey assertClaim effect previousAttempts =
     catch
       (andThen assertClaim (\<lambda>_.
        andThen effect (\<lambda>result.
        let r = coalesce result (None, None) in
        andThen (completeStep cn runId token stepKey r) (\<lambda>completed.
        if \<not> completed then throw (claim_lost runId)
        else ret \<lparr>run_remote = r, run_alreadySucceeded = False, run_reconciled = False,
                  run_previousAttempts = previousAttempts\<rparr>))))
       (\<lambda>err. if isPublicationClaimLostError err then throw err
              else andThen (failStep cn runId token stepKey err) (\<lambda>_. throw err))"

text \<open>The claim of a step, or its reconciliation when no attempt is left: \<open>Some\<close> is what was found and recorded, \<open>None\<close> a
  claim. Both publishers of steps begin so.\<close>

definition claimOrReconcile :: "connector \<Rightarrow> string \<Rightarrow> uuid \<Rightarrow> string \<Rightarrow> remote_ref option act \<Rightarrow> remote_ref option act" where
  "claimOrReconcile cn runId token stepKey look =
     catch (andThen (requireStepClaim cn runId token stepKey) (\<lambda>_. ret None))
       (\<lambda>err.
         if \<not> isPublicationStepExhausted err then throw err
         else andThen (settleExhaustedStep cn runId token stepKey look) (\<lambda>settled.
              case settled of RecordedSucceeded r \<Rightarrow> ret (Some r) | _ \<Rightarrow> throw err))"

definition runPublicationStep ::
  "connector \<Rightarrow> string \<Rightarrow> uuid \<Rightarrow> string \<Rightarrow> unit act \<Rightarrow> remote_ref option act \<Rightarrow> remote_ref option act \<Rightarrow>
    publication_step_run act"
where
  "runPublicationStep cn runId token stepKey assertClaim look effect =
     andThen (listSteps cn runId) (\<lambda>steps.
     let step = List.find (\<lambda>s. psr_step_key s = stepKey) steps;
         previousAttempts = coalesce (map_option psr_attempt_count step) 0;
         claim = andThen (claimOrReconcile cn runId token stepKey look) (\<lambda>concluded.
           case concluded of
             Some r \<Rightarrow> ret \<lparr>run_remote = r, run_alreadySucceeded = True, run_reconciled = True,
                           run_previousAttempts = previousAttempts\<rparr>
           | None \<Rightarrow> performStep cn runId token stepKey assertClaim effect previousAttempts)
     in case step of
          None \<Rightarrow> claim
        | Some s \<Rightarrow>
            if psr_status s = StepSucceeded
            then ret \<lparr>run_remote = recordedRemote s, run_alreadySucceeded = True, run_reconciled = False,
                      run_previousAttempts = previousAttempts\<rparr>
            else claim)"

subsection \<open>The lease of a publication\<close>

text \<open>\<open>await_active\<close> waits for a renewal of the timer that is still running, and \<open>finishing\<close> is \<^verbatim>\<open>finally\<close>: what the second
  action throws replaces the outcome of the first.\<close>

definition await_active :: "connector \<Rightarrow> string \<Rightarrow> unit act" where
  "await_active cn runId w = (if cn_beats cn (w_calls w) then (Inl (claim_lost runId), beat cn w) else (Inr (), w))"

definition finishing :: "'a act \<Rightarrow> unit act \<Rightarrow> 'a act" where
  "finishing m f w = (case m w of (out, w1) \<Rightarrow> (case f w1 of (Inl err, w2) \<Rightarrow> (Inl err, w2) | (Inr u, w2) \<Rightarrow> (out, w2)))"

text \<open>A lost lease stays lost for this publisher, whatever a later renewal would say.\<close>

definition renewSerially :: "connector \<Rightarrow> string \<Rightarrow> uuid \<Rightarrow> unit act" where
  "renewSerially cn runId token w =
     (let w0 = beat cn w in
      if w_lost w0 then (Inl (claim_lost runId), w0)
      else case remote cn runId [] (\<lambda>cfg now. renewPublicationClaim cfg now runId token) w0 of
             (Inr True, w1) \<Rightarrow> (Inr (), w1)
           | (_, w1) \<Rightarrow> (Inl (claim_lost runId), w1\<lparr>w_lost := True\<rparr>))"

definition still_owned :: "bool act" where
  "still_owned w = (Inr (\<not> w_lost w), w)"

definition withPublicationHeartbeat :: "connector \<Rightarrow> string \<Rightarrow> uuid \<Rightarrow> unit act \<Rightarrow> bool act" where
  "withPublicationHeartbeat cn runId token operation w =
     (case renewSerially cn runId token (w\<lparr>w_lost := False\<rparr>) of
        (Inl err, w1) \<Rightarrow> (Inr False, w1)
      | (Inr u, w1) \<Rightarrow>
          andThen (remote cn runId [] (\<lambda>cfg now db. (Inr (publicationHeartbeatIntervalMs cfg), db))) (\<lambda>intervalMs.
          finishing
            (andThen operation (\<lambda>_.
             andThen (await_active cn runId) (\<lambda>_.
             catch (andThen (renewSerially cn runId token) (\<lambda>_. still_owned)) (\<lambda>_. ret False))))
            (await_active cn runId)) w1)"

subsection \<open>The publishers\<close>

text \<open>What the connector does on GitHub and computes from a result, by the key of the step: \<open>gh_find\<close> looks for the effect of a step,
  \<open>gh_effect\<close> performs it with the assertion of the claim it repeats before each write. Both see what the steps before published.
  \<open>gh_result\<close> is \<open>Inl\<close> with the reason where the stored result is not valid, \<open>gh_deliveries\<close> are the delivery ids of a
  repository result, \<open>gh_octokit\<close> gets the installation client.\<close>

record github =
  gh_context :: "workflow_name \<Rightarrow> json \<Rightarrow> js_error + json"
  gh_open_pr :: "json \<Rightarrow> bool"
  gh_workspace_ref :: "json \<Rightarrow> string"
  gh_result :: "workflow_name \<Rightarrow> json \<Rightarrow> string + unit"
  gh_patch_ready :: "json \<Rightarrow> js_error + bool"
  gh_deliveries :: "json \<Rightarrow> string list"
  gh_octokit :: "json \<Rightarrow> unit act"
  gh_find :: "string \<Rightarrow> (string \<times> remote_ref) list \<Rightarrow> remote_ref option act"
  gh_effect :: "string \<Rightarrow> (string \<times> remote_ref) list \<Rightarrow> unit act \<Rightarrow> remote_ref option act"

definition runStep ::
  "connector \<Rightarrow> github \<Rightarrow> string \<Rightarrow> uuid \<Rightarrow> unit act \<Rightarrow> (string \<times> remote_ref) list \<Rightarrow> string \<Rightarrow> publication_step_run act" where
  "runStep cn gh runId token assertClaim published stepKey =
     runPublicationStep cn runId token stepKey assertClaim (gh_find gh stepKey published) (gh_effect gh stepKey published assertClaim)"

fun invalid_result :: "workflow_name \<Rightarrow> string \<Rightarrow> js_error" where
  "invalid_result IssueReview m = DeterministicPublishError ''ISSUE_RESULT_INVALID'' (''Issue review result is invalid: '' @ m)"
| "invalid_result PullRequestReview m =
     DeterministicPublishError ''PULL_REQUEST_RESULT_INVALID'' (''Pull request review result is invalid: '' @ m)"
| "invalid_result RepositoryReview m =
     DeterministicPublishError ''REPOSITORY_RESULT_INVALID'' (''Repository review result is invalid: '' @ m)"

text \<open>The opening of the three handlers: the context, the result and the client.\<close>

definition openHandler :: "github \<Rightarrow> workflow_name \<Rightarrow> json \<Rightarrow> json \<Rightarrow> json act" where
  "openHandler gh workflow publishContext result =
     andThen (await (gh_context gh workflow publishContext)) (\<lambda>parsed.
     andThen (await (case gh_result gh workflow result of Inl m \<Rightarrow> Inl (invalid_result workflow m) | Inr u \<Rightarrow> Inr u)) (\<lambda>_.
     andThen (gh_octokit gh parsed) (\<lambda>_. ret parsed)))"

definition initSteps :: "connector \<Rightarrow> string \<Rightarrow> uuid \<Rightarrow> string list \<Rightarrow> unit act" where
  "initSteps cn runId token keys = remote cn runId [] (\<lambda>cfg now. initializePublicationSteps cfg now runId token keys)"

definition handleIssueReviewRun :: "connector \<Rightarrow> github \<Rightarrow> string \<Rightarrow> json \<Rightarrow> json \<Rightarrow> uuid \<Rightarrow> unit act \<Rightarrow> unit act" where
  "handleIssueReviewRun cn gh runId publishContext result token assertClaim =
     andThen (openHandler gh IssueReview publishContext result) (\<lambda>parsed.
     andThen (await (gh_patch_ready gh result)) (\<lambda>patchReady.
     let shouldOpenPr = (patchReady \<and> gh_open_pr gh parsed) in
     andThen (initSteps cn runId token ((if shouldOpenPr then [''issue:draft-pr''] else []) @ [''issue:summary-comment''])) (\<lambda>_.
     andThen
       (if shouldOpenPr
        then andThen (runStep cn gh runId token assertClaim [] ''issue:draft-pr'') (\<lambda>step.
             ret (if fst (run_remote step) = None then [] else [(''issue:draft-pr'', run_remote step)]))
        else ret [])
       (\<lambda>draft. andThen (runStep cn gh runId token assertClaim draft ''issue:summary-comment'') (\<lambda>_. ret ())))))"

definition publishPullRequestReviewResult :: "connector \<Rightarrow> github \<Rightarrow> string \<Rightarrow> uuid \<Rightarrow> unit act \<Rightarrow> unit act" where
  "publishPullRequestReviewResult cn gh runId token assertClaim =
     andThen (initSteps cn runId token [''pull-request:review'']) (\<lambda>_.
     andThen (runStep cn gh runId token assertClaim [] ''pull-request:review'') (\<lambda>_. ret ()))"

definition handlePullRequestReviewRun :: "connector \<Rightarrow> github \<Rightarrow> string \<Rightarrow> json \<Rightarrow> json \<Rightarrow> uuid \<Rightarrow> unit act \<Rightarrow> unit act" where
  "handlePullRequestReviewRun cn gh runId publishContext result token assertClaim =
     andThen (openHandler gh PullRequestReview publishContext result) (\<lambda>_.
       publishPullRequestReviewResult cn gh runId token assertClaim)"

definition delivery_key :: "string \<Rightarrow> string" where
  "delivery_key deliveryId = ''repository:delivery:'' @ deliveryId"

definition publishOrReconcileDeliveryDraftPr ::
  "connector \<Rightarrow> github \<Rightarrow> string \<Rightarrow> uuid \<Rightarrow> unit act \<Rightarrow> string \<Rightarrow> remote_ref act" where
  "publishOrReconcileDeliveryDraftPr cn gh runId token assertClaim stepKey =
     andThen (claimOrReconcile cn runId token stepKey (gh_find gh stepKey []))
       (\<lambda>concluded. case concluded of
          Some r \<Rightarrow> ret r
        | None \<Rightarrow>
            andThen assertClaim (\<lambda>_.
            andThen (gh_effect gh stepKey [] assertClaim) (\<lambda>created.
            let r = coalesce created (None, None) in
            andThen (completeStep cn runId token stepKey r) (\<lambda>completed.
            if \<not> completed then throw (claim_lost runId) else ret r))))"

text \<open>One delivery of the batch: what it published, if it did. Text that is empty counts as missing.\<close>

definition publishDelivery ::
  "connector \<Rightarrow> github \<Rightarrow> string \<Rightarrow> uuid \<Rightarrow> unit act \<Rightarrow> publication_step_record list \<Rightarrow> string \<Rightarrow>
    (string \<times> remote_ref) option act"
where
  "publishDelivery cn gh runId token assertClaim persistedSteps deliveryId =
     (let stepKey = delivery_key deliveryId in
      catch
        (let attempt = andThen (publishOrReconcileDeliveryDraftPr cn gh runId token assertClaim stepKey)
                         (\<lambda>r. ret (Some (stepKey, r)))
         in case List.find (\<lambda>s. psr_step_key s = stepKey) persistedSteps of
              None \<Rightarrow> attempt
            | Some persisted \<Rightarrow>
                if psr_status persisted = StepTerminalFailed then ret None
                else if psr_status persisted = StepSucceeded \<and> coalesce (psr_remote_object_id persisted) [] \<noteq> [] \<and>
                        coalesce (psr_remote_object_url persisted) [] \<noteq> []
                then ret (Some (stepKey, recordedRemote persisted))
                else attempt)
        (\<lambda>err.
          if isPublicationClaimLostError err then throw err
          else andThen (failStep cn runId token stepKey err) (\<lambda>_.
               if fc_scope (classifyPublicationFailure err) = PublicationScope
               then throw (NamedError ''Error'' None
                      (''Failed to publish repository delivery '' @ deliveryId @ '': '' @ error_message err))
               else ret None)))"

primrec publish_deliveries ::
  "connector \<Rightarrow> github \<Rightarrow> string \<Rightarrow> uuid \<Rightarrow> unit act \<Rightarrow> publication_step_record list \<Rightarrow> string list \<Rightarrow>
    (string \<times> remote_ref) list act"
where
  "publish_deliveries cn gh runId token assertClaim persistedSteps [] = ret []"
| "publish_deliveries cn gh runId token assertClaim persistedSteps (d # ds) =
     andThen (publishDelivery cn gh runId token assertClaim persistedSteps d) (\<lambda>entry.
     andThen (publish_deliveries cn gh runId token assertClaim persistedSteps ds) (\<lambda>entries.
     ret (case entry of None \<Rightarrow> entries | Some x \<Rightarrow> x # entries)))"

definition publishDeliveryDraftPrs ::
  "connector \<Rightarrow> github \<Rightarrow> string \<Rightarrow> uuid \<Rightarrow> unit act \<Rightarrow> string \<Rightarrow> string list \<Rightarrow> (string \<times> remote_ref) list act"
where
  "publishDeliveryDraftPrs cn gh runId token assertClaim workspaceRef deliveries =
     (if js_trim workspaceRef = []
      then throw (plain_error ''Repository publish context is missing workspace_ref before delivery branch creation.'')
      else andThen (listSteps cn runId) (\<lambda>persistedSteps.
           publish_deliveries cn gh runId token assertClaim persistedSteps deliveries))"

text \<open>\<^verbatim>\<open>Number.isSafeInteger(n) && n >= 1\<close> for \<^verbatim>\<open>n = Number(id)\<close>, on the decimal texts GitHub's numbers are stored as.\<close>

definition is_issue_number :: "string option \<Rightarrow> bool" where
  "is_issue_number rid =
     (case Option.bind rid (\<lambda>s. decimal_integer (js_trim s)) of None \<Rightarrow> False | Some n \<Rightarrow> 1 \<le> n \<and> n \<le> MAX_SAFE_INTEGER)"

definition claimOrReconcileSummaryIssue ::
  "connector \<Rightarrow> github \<Rightarrow> string \<Rightarrow> uuid \<Rightarrow> unit act \<Rightarrow> remote_ref act" where
  "claimOrReconcileSummaryIssue cn gh runId token assertClaim =
     andThen (runStep cn gh runId token assertClaim [] ''repository:summary-issue'') (\<lambda>step.
     if \<not> is_issue_number (fst (run_remote step))
     then throw (plain_error ''Repository summary issue step is succeeded without a recorded issue number.'')
     else ret (run_remote step))"

definition handleRepositoryReviewRun :: "connector \<Rightarrow> github \<Rightarrow> string \<Rightarrow> json \<Rightarrow> json \<Rightarrow> uuid \<Rightarrow> unit act \<Rightarrow> unit act" where
  "handleRepositoryReviewRun cn gh runId publishContext result token assertClaim =
     andThen (openHandler gh RepositoryReview publishContext result) (\<lambda>parsed.
     andThen (initSteps cn runId token
       (map delivery_key (gh_deliveries gh result) @ [''repository:summary-issue'', ''repository:summary-comment''])) (\<lambda>_.
     andThen (publishDeliveryDraftPrs cn gh runId token assertClaim (gh_workspace_ref gh parsed) (gh_deliveries gh result))
       (\<lambda>entries.
     andThen (listSteps cn runId) (\<lambda>steps.
     andThen
       (let summary = claimOrReconcileSummaryIssue cn gh runId token assertClaim in
        case List.find (\<lambda>s. psr_step_key s = ''repository:summary-issue'') steps of
          None \<Rightarrow> summary
        | Some s \<Rightarrow> if psr_status s = StepSucceeded \<and> coalesce (psr_remote_object_id s) [] \<noteq> []
                    then ret (recordedRemote s) else summary) (\<lambda>issue.
     andThen (runStep cn gh runId token assertClaim ((''repository:summary-issue'', issue) # entries)
       ''repository:summary-comment'') (\<lambda>_. ret ()))))))"

subsection \<open>One publication pass\<close>

definition publishWork :: "connector \<Rightarrow> github \<Rightarrow> publication_work \<Rightarrow> unit act \<Rightarrow> unit act" where
  "publishWork cn gh work assertOwned =
     (let run = pbw_record work;
          handler = (case rec_workflow run of
                       IssueReview \<Rightarrow> handleIssueReviewRun
                     | PullRequestReview \<Rightarrow> handlePullRequestReviewRun
                     | RepositoryReview \<Rightarrow> handleRepositoryReviewRun)
      in handler cn gh (rec_run_id run) (rec_publish_context run) (pbw_workflow_result work) (pbw_claim_token work) assertOwned)"

definition failWork :: "connector \<Rightarrow> publication_work \<Rightarrow> string option \<times> string \<Rightarrow> bool \<Rightarrow> bool act" where
  "failWork cn work failure retry =
     (let k = rec_run_id (pbw_record work) in
      remote cn k [] (\<lambda>cfg now. failPublication cfg now k (pbw_claim_token work) failure retry))"

text \<open>The client's \<^verbatim>\<open>claimNextPublication\<close>: the claim the service's wait ends with, and the check of its context. A context that
  does not parse fails the publication before the error is thrown.\<close>

definition claimNextWork :: "connector \<Rightarrow> github \<Rightarrow> publication_work option act" where
  "claimNextWork cn gh =
     andThen (\<lambda>w. call_with (http_error [] []) (\<lambda>now tok. claimNextOnce (cn_cfg cn) now (cn_locked cn) tok) (beat cn w)) (\<lambda>claimed.
     case claimed of
       None \<Rightarrow> ret None
     | Some work \<Rightarrow>
         catch
           (andThen (await (gh_context gh (rec_workflow (pbw_record work)) (rec_publish_context (pbw_record work)))) (\<lambda>parsed.
            ret (Some (work\<lparr>pbw_record := (pbw_record work)\<lparr>rec_publish_context := parsed\<rparr>\<rparr>))))
           (\<lambda>err. andThen (failWork cn work (Some (coalesce (error_code err) ''PUBLISH_CONTEXT_INVALID''), error_message err) False)
                    (\<lambda>_. throw err)))"

definition concludeWork :: "connector \<Rightarrow> publication_work \<Rightarrow> bool \<Rightarrow> unit act" where
  "concludeWork cn work ownsClaim =
     (let k = rec_run_id (pbw_record work) in
      if \<not> ownsClaim then ret ()
      else andThen (remote cn k [] (\<lambda>cfg now. completePublication cfg now k (pbw_claim_token work))) (\<lambda>completed.
           if completed then ret ()
           else andThen (failWork cn work (Some ''PUBLICATION_STEPS_INCOMPLETE'',
                  ''Publication completed without all required steps succeeding.'') False) (\<lambda>_. ret ())))"

definition abandonWork :: "connector \<Rightarrow> publication_work \<Rightarrow> js_error \<Rightarrow> unit act" where
  "abandonWork cn work err =
     (if isPublicationClaimLostError err then ret ()
      else (let c = classifyPublicationFailure err;
                code = (case error_code err of Some own \<Rightarrow> Some own | None \<Rightarrow> fc_code c)
            in andThen (failWork cn work (code, error_message err) (fc_retry c)) (\<lambda>_. ret ())))"

definition publishReviewRunsOnce :: "connector \<Rightarrow> github \<Rightarrow> unit act" where
  "publishReviewRunsOnce cn gh =
     andThen (claimNextWork cn gh) (\<lambda>next.
     case next of
       None \<Rightarrow> ret ()
     | Some work \<Rightarrow>
        (let k = rec_run_id (pbw_record work); token = pbw_claim_token work in
         catch
           (andThen (withPublicationHeartbeat cn k token (publishWork cn gh work (renewSerially cn k token)))
              (concludeWork cn work))
           (abandonWork cn work)))"

end
