(* ===== verification/Validation.thy ===== *)
theory Validation
  imports Connector
begin

text \<open>
  What the connector checks and derives before it lets text near a repository: the paths a published patch may touch
  (\<^verbatim>\<open>reviews/repo-path.ts\<close>, \<^verbatim>\<open>reviews/repositories/result.ts\<close>), the branch names it creates
  (\<^verbatim>\<open>reviews/shared/branch-name.ts\<close>, \<^verbatim>\<open>delivery-draft-pr.ts\<close>), the dispatch contract of a repository review and the commits it
  resolves to (\<^verbatim>\<open>triggers/repository-review.ts\<close>, \<^verbatim>\<open>github/repository-service.ts\<close>). A thrown \<^verbatim>\<open>Error\<close> is \<open>Inl\<close>; text is a list of code
  units below 256, and \<^verbatim>\<open>toLowerCase\<close> is taken on ASCII letters.
\<close>

definition orThrow :: "js_error + 'a \<Rightarrow> ('a \<Rightarrow> js_error + 'b) \<Rightarrow> js_error + 'b" where
  "orThrow m f = (case m of Inl err \<Rightarrow> Inl err | Inr a \<Rightarrow> f a)"

definition letter :: "char \<Rightarrow> bool" where
  "letter x \<longleftrightarrow> x \<in> set ''abcdefghijklmnopqrstuvwxyzABCDEFGHIJKLMNOPQRSTUVWXYZ''"

definition alnum :: "char \<Rightarrow> bool" where
  "alnum x \<longleftrightarrow> letter x \<or> digit x"

subsection \<open>Repository paths\<close>

definition SENSITIVE_EXACT_PATHS :: "string list" where
  "SENSITIVE_EXACT_PATHS = [''CODEOWNERS'', ''.github/CODEOWNERS'', ''docs/CODEOWNERS'']"

definition isSensitivePath :: "string \<Rightarrow> bool" where
  "isSensitivePath path \<longleftrightarrow>
     path \<in> set SENSITIVE_EXACT_PATHS \<or> path = ''.github/workflows'' \<or> starts_with ''.github/workflows/'' path"

definition drive_letter :: "string \<Rightarrow> bool" where
  "drive_letter s = (case s of x # y # _ \<Rightarrow> letter x \<and> y = CHR '':'' | _ \<Rightarrow> False)"

definition validateRepoRelativePathShape :: "string \<Rightarrow> js_error + string" where
  "validateRepoRelativePathShape value =
     (let parts = split_on (CHR ''/'') value in
      if value = [] \<or> js_trim value = [] \<or> value \<noteq> js_trim value \<or> starts_with ''/'' value \<or> drive_letter value \<or>
         CHR 0x5C \<in> set value \<or> list_ex (\<lambda>part. part = [] \<or> part = ''.'' \<or> part = ''..'') parts
      then Inl (plain_error (''Unsafe repository file path: '' @ value))
      else if hd parts = ''.git'' \<or> ''.git'' \<in> set parts
      then Inl (plain_error (''Unsafe repository file path targets .git: '' @ value))
      else Inr value)"

definition refuse_sensitive :: "string \<Rightarrow> js_error + string" where
  "refuse_sensitive normalized =
     (if isSensitivePath normalized
      then Inl (plain_error (''Sensitive repository file path requires explicit policy: '' @ normalized))
      else Inr normalized)"

definition validateRepoRelativePath :: "string \<Rightarrow> js_error + string" where
  "validateRepoRelativePath value =
     orThrow (validateRepoRelativePathShape (map (\<lambda>x. if x = CHR 0x5C then CHR ''/'' else x) (js_trim value))) refuse_sensitive"

definition validateContractPublishableRepoRelativePath :: "string \<Rightarrow> js_error + string" where
  "validateContractPublishableRepoRelativePath value = orThrow (validateRepoRelativePathShape value) refuse_sensitive"

primrec requirePublishableFileChanges :: "string list \<Rightarrow> string list \<Rightarrow> js_error + unit" where
  "requirePublishableFileChanges seen [] = Inr ()"
| "requirePublishableFileChanges seen (path # paths) =
     orThrow (validateContractPublishableRepoRelativePath path) (\<lambda>normalizedPath.
       if normalizedPath \<in> set seen
       then Inl (plain_error (''Delivery contains duplicate file change entries for '' @ normalizedPath @ ''.''))
       else requirePublishableFileChanges (normalizedPath # seen) paths)"

text \<open>\<^verbatim>\<open>parseRepositoryWorkflowResult\<close> after the schema: the deliveries by id and changed paths.\<close>

primrec parse_deliveries :: "string list \<Rightarrow> (string \<times> string list) list \<Rightarrow> js_error + unit" where
  "parse_deliveries seen [] = Inr ()"
| "parse_deliveries seen (d # ds) =
     (if fst d \<in> set seen then Inl (plain_error (''Repository result contains duplicate delivery_id: '' @ fst d @ ''.''))
      else orThrow (requirePublishableFileChanges [] (snd d)) (\<lambda>_. parse_deliveries (fst d # seen) ds))"

subsection \<open>Branch names\<close>

definition branch_char :: "char \<Rightarrow> bool" where
  "branch_char x \<longleftrightarrow> x \<in> set ''abcdefghijklmnopqrstuvwxyz0123456789_/-''"

text \<open>\<^verbatim>\<open>replace(/X+/g, c)\<close>: every maximal run of characters of a class becomes one \<open>c\<close>.\<close>

function squeeze :: "(char \<Rightarrow> bool) \<Rightarrow> char \<Rightarrow> string \<Rightarrow> string" where
  "squeeze X c [] = []"
| "squeeze X c (x # xs) = (if X x then c # squeeze X c (dropWhile X xs) else x # squeeze X c xs)"
  by pat_completeness auto
termination by (relation "measure (\<lambda>(X, c, xs). length xs)") (auto simp: less_Suc_eq_le length_dropWhile_le)

definition edge_char :: "char \<Rightarrow> bool" where
  "edge_char x \<longleftrightarrow> x = CHR ''-'' \<or> x = CHR ''/''"

definition strip_edges :: "string \<Rightarrow> string" where
  "strip_edges s = rev (dropWhile edge_char (rev (dropWhile edge_char s)))"

definition sanitizeBranchSegment :: "string \<Rightarrow> string" where
  "sanitizeBranchSegment value =
     strip_edges (squeeze (\<lambda>x. x = CHR ''/'') (CHR ''/'') (squeeze (\<lambda>x. x = CHR ''-'') (CHR ''-'')
       (squeeze (\<lambda>x. \<not> branch_char x) (CHR ''-'') (map lower_char value))))"

definition buildDraftBranchName :: "nat \<Rightarrow> string option \<Rightarrow> string" where
  "buildDraftBranchName issue_number run_id =
     ''sec-review-bot/issue-'' @ nat_string issue_number @ ''-'' @ sanitizeBranchSegment (coalesce run_id ''manual'')"

text \<open>\<open>sha256\<close> is the hexadecimal digest of a text.\<close>

definition stableBranchSegment :: "(string \<Rightarrow> string) \<Rightarrow> string \<Rightarrow> string" where
  "stableBranchSegment sha256 value =
     (let raw = (if js_trim value = [] then ''unknown'' else js_trim value);
          short = take 48 (map (\<lambda>x. if x = CHR ''/'' then CHR ''-'' else x) (sanitizeBranchSegment raw));
          readable = (if short = [] then ''unknown'' else short)
      in readable @ ''-'' @ take 12 (sha256 raw))"

definition buildRepositoryDeliveryBranchName :: "(string \<Rightarrow> string) \<Rightarrow> string \<Rightarrow> string \<Rightarrow> string" where
  "buildRepositoryDeliveryBranchName sha256 run_id delivery_id =
     ''sec-review-bot/repo-scan/'' @ stableBranchSegment sha256 run_id @ ''/'' @ stableBranchSegment sha256 delivery_id"

subsection \<open>Repository names\<close>

definition owner_login_ok :: "string \<Rightarrow> bool" where
  "owner_login_ok s \<longleftrightarrow>
     s \<noteq> [] \<and> length s \<le> 39 \<and> alnum (hd s) \<and> alnum (last s) \<and> list_all (\<lambda>x. alnum x \<or> x = CHR ''-'') s"

definition repo_name_ok :: "string \<Rightarrow> bool" where
  "repo_name_ok s \<longleftrightarrow> s \<noteq> [] \<and> length s \<le> 100 \<and> list_all (\<lambda>x. alnum x \<or> x \<in> set ''._-'') s"

definition splitRepoFullName :: "string \<Rightarrow> js_error + string \<times> string" where
  "splitRepoFullName repo_full_name =
     (let invalid = Inl (plain_error (''Invalid repository full name: '' @ repo_full_name)) in
      case split_on (CHR ''/'') (js_trim repo_full_name) of
        [owner, repo] \<Rightarrow>
          if \<not> owner_login_ok owner \<or> \<not> repo_name_ok repo then invalid
          else if \<not> list_ex alnum repo then invalid
          else Inr (owner, repo)
      | _ \<Rightarrow> invalid)"

definition repositoryFullName :: "json option \<Rightarrow> string option" where
  "repositoryFullName v =
     (case string_field v of
        None \<Rightarrow> None
      | Some s \<Rightarrow>
         (case split_on (CHR ''/'') (js_trim s) of
            [owner, repo] \<Rightarrow> if owner \<noteq> [] \<and> repo \<noteq> [] then Some (owner @ ''/'' @ repo) else None
          | _ \<Rightarrow> None))"

subsection \<open>The dispatch contract\<close>

definition trimmed :: "json option \<Rightarrow> string" where
  "trimmed v = (case string_field v of None \<Rightarrow> [] | Some s \<Rightarrow> js_trim s)"

definition requiredString :: "json option \<Rightarrow> string \<Rightarrow> js_error + string" where
  "requiredString v label = (if trimmed v = [] then Inl (plain_error (label @ '' is required.'')) else Inr (trimmed v))"

definition optionalString :: "json option \<Rightarrow> string option" where
  "optionalString v = (if trimmed v = [] then None else Some (trimmed v))"

datatype scan_mode = FullScan | IncrementalScan
datatype dispatch_event = Manual | Scheduled
datatype test_changes_policy = AllowTests | DenyTests

text \<open>A value that gets as far as an \<^verbatim>\<open>Unsupported\<close> message is a string.\<close>

definition unsupported :: "string \<Rightarrow> json option \<Rightarrow> js_error" where
  "unsupported what v = plain_error (''Unsupported repository '' @ what @ '': '' @ coalesce (string_field v) [])"

definition normalizeRepositoryEventType :: "json option \<Rightarrow> js_error + dispatch_event" where
  "normalizeRepositoryEventType v =
     (let raw = map lower_char (trimmed v) in
      if raw = [] \<or> raw = ''manual'' then Inr Manual
      else if raw = ''scheduled'' then Inr Scheduled
      else Inl (unsupported ''event_type'' v))"

definition normalizeScanMode :: "json option \<Rightarrow> dispatch_event \<Rightarrow> js_error + scan_mode" where
  "normalizeScanMode v event_type =
     (let raw = map lower_char (trimmed v) in
      if raw = [] then Inr (if event_type = Scheduled then IncrementalScan else FullScan)
      else if raw = ''full'' then Inr FullScan
      else if raw = ''incremental'' then Inr IncrementalScan
      else Inl (unsupported ''scan_mode'' v))"

definition normalizeTestChanges :: "json option \<Rightarrow> js_error + test_changes_policy option" where
  "normalizeTestChanges v =
     (let raw = trimmed v in
      if raw = [] then Inr None
      else if raw = ''allow'' then Inr (Some AllowTests)
      else if raw = ''deny'' then Inr (Some DenyTests)
      else Inl (unsupported ''test_changes'' v))"

definition hex_char :: "char \<Rightarrow> bool" where
  "hex_char x \<longleftrightarrow> x \<in> set ''0123456789abcdefABCDEF''"

definition ensureLikelyGitSha :: "string \<Rightarrow> string \<Rightarrow> js_error + string" where
  "ensureLikelyGitSha value label =
     (if 7 \<le> length value \<and> length value \<le> 40 \<and> list_all hex_char value then Inr value
      else Inl (plain_error (label @ '' must be a valid commit SHA (7-40 hex chars).'')))"

definition normalizeOptionalSha :: "json option \<Rightarrow> string \<Rightarrow> js_error + string option" where
  "normalizeOptionalSha v label =
     (case optionalString v of None \<Rightarrow> Inr None | Some raw \<Rightarrow> map_sum id Some (ensureLikelyGitSha raw label))"

record dispatch =
  dp_repo_full_name :: string
  dp_target_branch :: string
  dp_scan_mode :: scan_mode
  dp_event_type :: dispatch_event
  dp_test_changes :: "test_changes_policy option"
  dp_correlation_id :: string
  dp_base_sha :: "string option"
  dp_head_sha :: "string option"

definition validateRepositoryReviewDispatchContract :: "json \<Rightarrow> js_error + dispatch" where
  "validateRepositoryReviewDispatchContract payload =
     orThrow (requiredString (json_field payload ''repo_full_name'') ''repo_full_name'') (\<lambda>repo_full_name.
     orThrow (splitRepoFullName repo_full_name) (\<lambda>_.
     orThrow (requiredString (json_field payload ''target_branch'') ''target_branch'') (\<lambda>target_branch.
     orThrow (normalizeRepositoryEventType (json_field payload ''event_type'')) (\<lambda>event_type.
     orThrow (normalizeScanMode (json_field payload ''scan_mode'') event_type) (\<lambda>scan_mode.
     orThrow (normalizeTestChanges (json_field payload ''test_changes'')) (\<lambda>test_changes.
     orThrow (requiredString (json_field payload ''correlation_id'') ''correlation_id'') (\<lambda>correlation_id.
     if 128 < length correlation_id then Inl (plain_error ''correlation_id must not exceed 128 characters.'')
     else
     orThrow (normalizeOptionalSha (json_field payload ''head_sha'') ''head_sha'') (\<lambda>head_sha.
     orThrow (normalizeOptionalSha (json_field payload ''base_sha'') ''base_sha'') (\<lambda>base_sha.
     if scan_mode = IncrementalScan \<and> event_type = Manual \<and> base_sha = None
     then Inl (plain_error ''manual incremental scan requires base_sha.'')
     else if base_sha \<noteq> None \<and> head_sha \<noteq> None \<and> base_sha = head_sha
     then Inl (plain_error ''incremental scan requires base_sha != head_sha.'')
     else Inr \<lparr>dp_repo_full_name = repo_full_name, dp_target_branch = target_branch, dp_scan_mode = scan_mode,
            dp_event_type = event_type, dp_test_changes = test_changes, dp_correlation_id = correlation_id,
            dp_base_sha = base_sha, dp_head_sha = head_sha\<rparr>)))))))))"

subsection \<open>The commits of an incremental scan\<close>

text \<open>\<^verbatim>\<open>/^\*\/([0-9]+)$/\<close>: a step of a cron field, if it is a positive finite number.\<close>

definition cron_step :: "string \<Rightarrow> nat option" where
  "cron_step token =
     (if starts_with ''*/'' token \<and> drop 2 token \<noteq> [] \<and> list_all digit (drop 2 token)
      then (let n = digits_value (drop 2 token) in if 0 < n \<and> n < 2 ^ 1024 - 2 ^ 970 then Some (nat n) else None)
      else None)"

function words :: "string \<Rightarrow> string list" where
  "words [] = []"
| "words (x # xs) =
     (if js_space x then words xs
      else (x # takeWhile (\<lambda>y. \<not> js_space y) xs) # words (dropWhile (\<lambda>y. \<not> js_space y) xs))"
  by pat_completeness auto
termination by (relation "measure length") (auto simp: less_Suc_eq_le length_dropWhile_le)

definition inferRollbackDaysFromCron :: "string option \<Rightarrow> nat" where
  "inferRollbackDaysFromCron expr =
     (case words (coalesce expr []) of
        [minute, hour, day, month, dow] \<Rightarrow>
          if day \<noteq> ''*'' then coalesce (cron_step day) 31
          else if dow \<noteq> ''*'' then (case cron_step dow of None \<Rightarrow> 7 | Some n \<Rightarrow> 7 * n)
          else if month \<noteq> ''*'' then 31
          else (case cron_step hour of None \<Rightarrow> 1 | Some n \<Rightarrow> max 1 ((n + 23) div 24))
      | _ \<Rightarrow> 7)"

text \<open>\<open>getBranch\<close> and \<open>getCommit\<close> are GitHub's answers for a repository and a name, \<open>lastBefore head days\<close> the newest commit of
  \<open>head\<close>'s history that is older than so many days, as GitHub lists it.\<close>

definition getRepositoryRefSha ::
  "(string \<times> string \<Rightarrow> string \<Rightarrow> js_error + string) \<Rightarrow> (string \<times> string \<Rightarrow> string \<Rightarrow> js_error + string) \<Rightarrow>
    string \<times> string \<Rightarrow> string \<Rightarrow> js_error + string"
where
  "getRepositoryRefSha getBranch getCommit repo ref =
     (let normalizedRef = js_trim ref in
      if normalizedRef = [] then Inl (plain_error ''Repository ref is required.'')
      else case getBranch repo normalizedRef of Inr sha \<Rightarrow> Inr sha | Inl _ \<Rightarrow> getCommit repo normalizedRef)"

definition validation_error :: "string \<Rightarrow> js_error" where
  "validation_error m = NamedError ''RepositoryReviewDispatchValidationError'' None m"

definition resolveHeadSha :: "(string \<Rightarrow> js_error + string) \<Rightarrow> string \<Rightarrow> string option \<Rightarrow> js_error + string" where
  "resolveHeadSha refSha target_branch head_sha =
     orThrow (normalizeOptionalSha (map_option JStr head_sha) ''head_sha'') (\<lambda>explicitHeadSha.
       refSha (coalesce explicitHeadSha target_branch))"

definition resolveScheduledBaseSha ::
  "(string \<Rightarrow> nat \<Rightarrow> js_error + string option) \<Rightarrow> (nat \<Rightarrow> string) \<Rightarrow> string \<Rightarrow> json option \<Rightarrow> js_error + string"
where
  "resolveScheduledBaseSha lastBefore cutoff head_sha schedule =
     (let rollbackDays = inferRollbackDaysFromCron (optionalString schedule) in
      orThrow (lastBefore head_sha rollbackDays) (\<lambda>newest.
      let candidate = js_trim (coalesce newest []) in
      if candidate = [] \<or> candidate = head_sha
      then Inl (plain_error (''scheduled incremental scan requires a resolvable base_sha before '' @ cutoff rollbackDays @ ''.''))
      else Inr candidate))"

definition resolveManualBaseSha :: "(string \<Rightarrow> js_error + string) \<Rightarrow> string option \<Rightarrow> js_error + string" where
  "resolveManualBaseSha refSha base_sha =
     orThrow (normalizeOptionalSha (map_option JStr base_sha) ''base_sha'') (\<lambda>explicitBaseSha.
       case explicitBaseSha of
         None \<Rightarrow> Inl (plain_error ''manual incremental scan requires base_sha.'')
       | Some explicit \<Rightarrow> refSha explicit)"

definition resolveRepositoryReviewDispatch ::
  "(string \<times> string \<Rightarrow> string \<Rightarrow> js_error + string) \<Rightarrow> (string \<times> string \<Rightarrow> string \<Rightarrow> nat \<Rightarrow> js_error + string option) \<Rightarrow>
    (nat \<Rightarrow> string) \<Rightarrow> json \<Rightarrow> js_error + dispatch"
where
  "resolveRepositoryReviewDispatch refSha lastBefore cutoff payload =
     orThrow (validateRepositoryReviewDispatchContract payload) (\<lambda>validated.
     orThrow (splitRepoFullName (dp_repo_full_name validated)) (\<lambda>repo.
     if dp_scan_mode validated \<noteq> IncrementalScan then Inr (validated\<lparr>dp_base_sha := None\<rparr>)
     else
       orThrow (resolveHeadSha (refSha repo) (dp_target_branch validated) (dp_head_sha validated)) (\<lambda>head_sha.
       orThrow (if dp_event_type validated = Scheduled
                then resolveScheduledBaseSha (lastBefore repo) cutoff head_sha (json_field payload ''schedule'')
                else resolveManualBaseSha (refSha repo) (dp_base_sha validated)) (\<lambda>base_sha.
       if base_sha = head_sha then Inl (validation_error ''incremental scan requires base_sha != head_sha.'')
       else Inr (validated\<lparr>dp_base_sha := Some base_sha, dp_head_sha := Some head_sha\<rparr>)))))"

subsection \<open>Accepted paths stay in the tree\<close>

text \<open>What a path names below the root, component by component: \<open>None\<close> outside.\<close>

fun walk :: "string list \<Rightarrow> string list \<Rightarrow> string list option" where
  "walk dir [] = Some dir"
| "walk dir (part # parts) =
     (if part = [] \<or> part = ''.'' then walk dir parts
      else if part = ''..'' then (if dir = [] then None else walk (butlast dir) parts)
      else walk (dir @ [part]) parts)"

lemma walk_plain: "list_all (\<lambda>part. part \<noteq> [] \<and> part \<noteq> ''.'' \<and> part \<noteq> ''..'') parts \<Longrightarrow> walk dir parts = Some (dir @ parts)"
  by (induction parts arbitrary: dir) auto

lemma split_on_parts: "hd (split_on c s) @ concat (map (\<lambda>y. c # y) (tl (split_on c s))) = s"
proof (induction s)
  case (Cons y s)
  show ?case
  proof (cases "split_on c s")
    case (Cons w ws)
    with Cons.IH show ?thesis by simp
  qed simp
qed simp

lemma split_on_concat: "split_on c s = x # xs \<Longrightarrow> s = x @ concat (map (\<lambda>y. c # y) xs)"
  using split_on_parts [of c s] by simp

lemma orThrow_Inr: "orThrow m f = Inr b \<longleftrightarrow> (\<exists>a. m = Inr a \<and> f a = Inr b)"
  by (cases m) (simp_all add: orThrow_def)

definition inside :: "string \<Rightarrow> bool" where
  "inside p \<longleftrightarrow>
     walk [] (split_on (CHR ''/'') p) = Some (split_on (CHR ''/'') p) \<and> ''.git'' \<notin> set (split_on (CHR ''/'') p) \<and>
     take 2 (split_on (CHR ''/'') p) \<noteq> [''.github'', ''workflows''] \<and> last (split_on (CHR ''/'') p) \<noteq> [] \<and>
     CHR 0x5C \<notin> set p \<and> p \<notin> set SENSITIVE_EXACT_PATHS"

lemma workflow_path:
  assumes "split_on (CHR ''/'') p = ''.github'' # ''workflows'' # rest"
  shows "isSensitivePath p"
proof (cases rest)
  case Nil
  with split_on_concat [OF assms] show ?thesis by (simp add: isSensitivePath_def)
next
  case (Cons x xs)
  with split_on_concat [OF assms] show ?thesis by (simp add: isSensitivePath_def starts_with_def)
qed

lemma publishable_path:
  assumes "validateContractPublishableRepoRelativePath p = Inr q"
  shows "q = p" "inside p"
proof -
  from assms have q: "q = p" and plain: "list_all (\<lambda>part. part \<noteq> [] \<and> part \<noteq> ''.'' \<and> part \<noteq> ''..'') (split_on (CHR ''/'') p)"
    and git: "''.git'' \<notin> set (split_on (CHR ''/'') p)" "CHR 0x5C \<notin> set p" and ok: "\<not> isSensitivePath p"
    by (auto simp: validateContractPublishableRepoRelativePath_def orThrow_Inr validateRepoRelativePathShape_def refuse_sensitive_def
        Let_def list_all_iff list_ex_iff split: if_splits)
  show "q = p" by (rule q)
  have "take 2 (split_on (CHR ''/'') p) \<noteq> [''.github'', ''workflows'']"
  proof
    assume "take 2 (split_on (CHR ''/'') p) = [''.github'', ''workflows'']"
    then have "split_on (CHR ''/'') p = ''.github'' # ''workflows'' # drop 2 (split_on (CHR ''/'') p)"
      by (metis append_take_drop_id append_Cons append_Nil)
    with ok show False using workflow_path by blast
  qed
  moreover have "last (split_on (CHR ''/'') p) \<noteq> []"
    using plain last_in_set [OF split_on_nonempty, of "CHR ''/''" p] by (auto simp: list_all_iff)
  ultimately show "inside p" using walk_plain [OF plain, of "[]"] git ok by (simp add: inside_def isSensitivePath_def)
qed

lemma publishable_changes:
  "requirePublishableFileChanges seen paths = Inr () \<Longrightarrow> distinct paths \<and> set paths \<inter> set seen = {} \<and> list_all inside paths"
proof (induction paths arbitrary: seen)
  case (Cons p paths)
  from Cons.prems obtain q where q: "validateContractPublishableRepoRelativePath p = Inr q" "q \<notin> set seen"
    "requirePublishableFileChanges (q # seen) paths = Inr ()"
    by (auto simp: orThrow_Inr split: if_splits)
  with Cons.IH [OF q(3)] publishable_path [OF q(1)] show ?case by auto
qed simp

lemma parsed_deliveries:
  "parse_deliveries seen ds = Inr () \<Longrightarrow> distinct (map fst ds) \<and> set (map fst ds) \<inter> set seen = {} \<and>
     (\<forall>d \<in> set ds. distinct (snd d) \<and> list_all inside (snd d))"
proof (induction ds arbitrary: seen)
  case (Cons d ds)
  then have "requirePublishableFileChanges [] (snd d) = Inr ()" "parse_deliveries (fst d # seen) ds = Inr ()" "fst d \<notin> set seen"
    by (auto simp: orThrow_Inr split: if_splits)
  with Cons.IH [of "fst d # seen"] publishable_changes [of "[]" "snd d"] show ?case by auto
qed simp

text \<open>C18. The deliveries of an accepted repository result have distinct ids, and the files each one changes are distinct and inside the
  tree: a changed path names exactly the file its components spell, no component is \<^verbatim>\<open>.git\<close>, and it is neither a workflow of
  the repository nor one of its code owner files.\<close>

theorem published_paths_safe:
  assumes "parse_deliveries [] ds = Inr ()"
  shows "distinct (map fst ds) \<and> (\<forall>d \<in> set ds. distinct (snd d) \<and> list_all inside (snd d))"
  using parsed_deliveries [OF assms] by blast

theorem published_paths_safe_witness:
  "inside ''src/a.ts'' \<and> inside ''.github/dependabot.yml'' \<and> parse_deliveries [] [(''d1'', [''.github/workflows/ci.yml''])] \<noteq> Inr ()"
proof -
  have "parse_deliveries [] [(''d1'', [''src/a.ts'', ''.github/dependabot.yml''])] = Inr ()" by code_simp
  from published_paths_safe [OF this] have "inside ''src/a.ts'' \<and> inside ''.github/dependabot.yml''" by simp
  moreover have "parse_deliveries [] [(''d1'', [''.github/workflows/ci.yml''])] \<noteq> Inr ()" by code_simp
  ultimately show ?thesis by simp
qed

subsection \<open>Branch names are valid references\<close>

lemma squeeze_chars: "set (squeeze X c s) \<subseteq> insert c {x \<in> set s. \<not> X x}"
  by (induction X c s rule: squeeze.induct) (auto dest: set_dropWhileD)

lemma lower_char_lower [simp]: "lower_char (lower_char x) = lower_char x"
  by (auto simp: lower_char_def Let_def)

text \<open>No two adjacent \<open>c\<close>.\<close>

fun apart :: "char \<Rightarrow> string \<Rightarrow> bool" where
  "apart c (x # y # xs) = (\<not> (x = c \<and> y = c) \<and> apart c (y # xs))"
| "apart c _ = True"

lemma apart_Cons: "apart c (x # xs) \<longleftrightarrow> (xs \<noteq> [] \<longrightarrow> \<not> (x = c \<and> hd xs = c)) \<and> apart c xs"
  by (cases xs) auto

lemma squeeze_hd: "squeeze X c s \<noteq> [] \<Longrightarrow> hd (squeeze X c s) = (if X (hd s) then c else hd s)"
  by (cases s) auto

lemma squeeze_Nil [simp]: "squeeze X c s = [] \<longleftrightarrow> s = []"
  by (cases s) auto

lemma dropWhile_same: "dropWhile (\<lambda>x. x = c) s \<noteq> [] \<Longrightarrow> hd (dropWhile (\<lambda>x. x = c) s) \<noteq> c"
  by (induction s) auto

lemma apart_squeeze: "apart c (squeeze (\<lambda>x. x = c) c s)"
  by (induction "\<lambda>x. x = c" c s rule: squeeze.induct) (auto simp: apart_Cons squeeze_hd dropWhile_same)

lemma apart_squeeze_other: "apart d s \<Longrightarrow> c \<noteq> d \<Longrightarrow> apart d (squeeze (\<lambda>x. x = c) c s)"
proof (induction "\<lambda>x. x = c" c s rule: squeeze.induct)
  case (2 c x xs)
  have tail: "apart d (dropWhile (\<lambda>x. x = c) ys)" if "apart d ys" for ys
    using that by (induction ys) (auto simp: apart_Cons)
  show ?case
    using 2 tail [of xs] by (auto simp: apart_Cons squeeze_hd)
qed simp

lemma apart_dropWhile: "apart c s \<Longrightarrow> apart c (dropWhile P s)"
  by (induction s) (auto simp: apart_Cons)

lemma apart_append: "apart c (xs @ ys) \<longleftrightarrow> apart c xs \<and> apart c ys \<and> (xs \<noteq> [] \<and> ys \<noteq> [] \<longrightarrow> \<not> (last xs = c \<and> hd ys = c))"
  by (induction xs) (auto simp: apart_Cons)

lemma apart_rev [simp]: "apart c (rev s) \<longleftrightarrow> apart c s"
  by (induction s) (auto simp: apart_append apart_Cons last_rev)

lemma squeeze_apart: "apart c s \<Longrightarrow> squeeze (\<lambda>x. x = c) c s = s"
proof (induction s)
  case (Cons x xs)
  then show ?case by (cases xs) (auto simp: apart_Cons)
qed simp

lemma squeeze_none: "\<forall>x \<in> set s. \<not> X x \<Longrightarrow> squeeze X c s = s"
  by (induction s) auto

lemma dropWhile_hd_not: "s \<noteq> [] \<Longrightarrow> \<not> P (hd s) \<Longrightarrow> dropWhile P s = s"
  by (cases s) auto

lemma strip_edges_strip:
  assumes "s = [] \<or> \<not> edge_char (hd s) \<and> \<not> edge_char (last s)"
  shows "strip_edges s = s"
  using assms dropWhile_hd_not [of s edge_char] dropWhile_hd_not [of "rev s" edge_char]
  by (cases "s = []") (auto simp: strip_edges_def hd_rev)

definition ref_safe :: "string \<Rightarrow> bool" where
  "ref_safe s \<longleftrightarrow> list_all branch_char s \<and> apart (CHR ''-'') s \<and> apart (CHR ''/'') s \<and>
     (s \<noteq> [] \<longrightarrow> \<not> edge_char (hd s) \<and> \<not> edge_char (last s))"

lemma lower_branch_char: "branch_char x \<Longrightarrow> lower_char x = x"
  by (auto simp: branch_char_def lower_char_def)

lemma sanitize_safe: "ref_safe s \<Longrightarrow> sanitizeBranchSegment s = s"
  using strip_edges_strip [of s] unfolding sanitizeBranchSegment_def ref_safe_def
  by (auto simp: list_all_iff lower_branch_char map_idI squeeze_none squeeze_apart)

lemma last_dropWhile_eq: "dropWhile P xs \<noteq> [] \<Longrightarrow> last (dropWhile P xs) = last xs"
  by (induction xs) auto

lemma strip_edges_edges:
  assumes "strip_edges s \<noteq> []"
  shows "\<not> edge_char (hd (strip_edges s))" "\<not> edge_char (last (strip_edges s))"
proof -
  let ?t = "dropWhile edge_char s" and ?u = "dropWhile edge_char (rev (dropWhile edge_char s))"
  have u: "?u \<noteq> []" using assms by (simp add: strip_edges_def)
  then have t: "?t \<noteq> []" by (metis dropWhile.simps(1) rev.simps(1))
  show "\<not> edge_char (last (strip_edges s))" using hd_dropWhile [OF u] u by (simp add: strip_edges_def last_rev)
  show "\<not> edge_char (hd (strip_edges s))"
    using hd_dropWhile [OF t] u t by (simp add: strip_edges_def hd_rev last_dropWhile_eq last_rev)
qed

lemma strip_edges_chars: "set (strip_edges s) \<subseteq> set s"
  by (auto simp: strip_edges_def dest!: set_dropWhileD)

lemma sanitized: "ref_safe (sanitizeBranchSegment s)"
proof -
  let ?a = "squeeze (\<lambda>x. \<not> branch_char x) (CHR ''-'') (map lower_char s)"
  let ?b = "squeeze (\<lambda>x. x = CHR ''-'') (CHR ''-'') ?a"
  let ?c = "squeeze (\<lambda>x. x = CHR ''/'') (CHR ''/'') ?b"
  have ok: "branch_char (CHR ''-'')" "branch_char (CHR ''/'')" by (simp_all add: branch_char_def)
  then have "\<forall>x \<in> set ?a. branch_char x" using squeeze_chars [of "\<lambda>x. \<not> branch_char x" "CHR ''-''" "map lower_char s"] by auto
  then have "\<forall>x \<in> set ?b. branch_char x" using squeeze_chars [of "\<lambda>x. x = CHR ''-''" "CHR ''-''" ?a] ok by auto
  then have "\<forall>x \<in> set ?c. branch_char x" using squeeze_chars [of "\<lambda>x. x = CHR ''/''" "CHR ''/''" ?b] ok by auto
  then have "list_all branch_char (strip_edges ?c)" using strip_edges_chars [of ?c] by (auto simp: list_all_iff)
  moreover have "apart (CHR ''-'') ?c" by (rule apart_squeeze_other [OF apart_squeeze]) simp
  moreover have "apart (CHR ''/'') ?c" by (rule apart_squeeze)
  ultimately show ?thesis
    using strip_edges_edges [of ?c] unfolding ref_safe_def sanitizeBranchSegment_def
    by (auto simp: strip_edges_def apart_dropWhile)
qed

text \<open>Whatever text it is made from, a branch segment has only lower case letters, digits, \<^verbatim>\<open>_\<close>, \<^verbatim>\<open>/\<close> and \<^verbatim>\<open>-\<close>, no two adjacent
  slashes or dashes and none at either end, so that it is a valid part of a git reference, and sanitizing it again changes nothing.\<close>

theorem branch_segment_safe:
  "ref_safe (sanitizeBranchSegment s) \<and> sanitizeBranchSegment (sanitizeBranchSegment s) = sanitizeBranchSegment s"
  using sanitized [of s] sanitize_safe by blast

text \<open>Two deliveries whose ids differ only in surrounding space pass the result's check and have the same branch.\<close>

lemma js_trim_space: "js_trim (s @ '' '') = js_trim s"
proof -
  have space: "js_space (CHR '' '')" by (simp add: js_space_def)
  have "dropWhile js_space (s @ '' '') = (if \<forall>x \<in> set s. js_space x then [] else dropWhile js_space s @ '' '')"
    using space by (auto simp: dropWhile_append)
  moreover have "dropWhile js_space s = []" if "\<forall>x \<in> set s. js_space x" using that by simp
  ultimately show ?thesis using space by (cases "\<forall>x \<in> set s. js_space x") (auto simp: js_trim_def dest: set_dropWhileD)
qed

theorem spaced_deliveries_share_branch:
  "buildRepositoryDeliveryBranchName sha256 run_id ''d '' = buildRepositoryDeliveryBranchName sha256 run_id ''d'' \<and>
     parse_deliveries [] [(''d'', [''a.ts'']), (''d '', [''b.ts''])] = Inr ()"
proof -
  have "parse_deliveries [] [(''d'', [''a.ts'']), (''d '', [''b.ts''])] = Inr ()" by code_simp
  then show ?thesis
    using js_trim_space [of "''d''"] by (simp add: buildRepositoryDeliveryBranchName_def stableBranchSegment_def)
qed

subsection \<open>Dispatched scans\<close>

lemma rollback_days_positive: "1 \<le> inferRollbackDaysFromCron expr"
proof -
  have step: "cron_step t = Some n \<Longrightarrow> 1 \<le> n" for t n by (auto simp: cron_step_def Let_def split: if_splits)
  have "1 \<le> coalesce (cron_step t) 31" for t by (cases "cron_step t") (auto dest: step)
  moreover have "1 \<le> (case cron_step t of None \<Rightarrow> 7 | Some n \<Rightarrow> 7 * n)" for t by (cases "cron_step t") (auto dest: step)
  moreover have "1 \<le> (case cron_step t of None \<Rightarrow> 1 | Some n \<Rightarrow> max 1 ((n + 23) div 24))" for t by (cases "cron_step t") auto
  ultimately show ?thesis by (auto simp: inferRollbackDaysFromCron_def split: list.split)
qed

lemma requiredString_given: "requiredString v label = Inr t \<Longrightarrow> t \<noteq> []"
  by (auto simp: requiredString_def split: if_splits)

lemma guarded_Inr: "(if b then Inl err else m) = Inr a \<longleftrightarrow> \<not> b \<and> m = Inr a"
  by simp

lemma contract_bounds:
  assumes "validateRepositoryReviewDispatchContract payload = Inr v"
  shows "dp_target_branch v \<noteq> [] \<and> dp_correlation_id v \<noteq> [] \<and> length (dp_correlation_id v) \<le> 128"
  using assms unfolding validateRepositoryReviewDispatchContract_def orThrow_Inr guarded_Inr
  by (elim exE conjE) (drule requiredString_given, drule requiredString_given, drule requiredString_given, clarsimp)

text \<open>A dispatch that resolves names a repository and a correlation id within its bounds; a full scan has no base commit, and an
  incremental one has a head and a base commit that differ.\<close>

theorem dispatch_resolved:
  assumes "resolveRepositoryReviewDispatch refSha lastBefore cutoff payload = Inr d"
  shows "(\<exists>owner repo. splitRepoFullName (dp_repo_full_name d) = Inr (owner, repo) \<and> owner_login_ok owner \<and> repo_name_ok repo) \<and>
     dp_target_branch d \<noteq> [] \<and> dp_correlation_id d \<noteq> [] \<and> length (dp_correlation_id d) \<le> 128 \<and>
     (dp_scan_mode d = FullScan \<longrightarrow> dp_base_sha d = None) \<and>
     (dp_scan_mode d = IncrementalScan \<longrightarrow> (\<exists>base head. dp_base_sha d = Some base \<and> dp_head_sha d = Some head \<and> base \<noteq> head))"
proof -
  from assms obtain v repo where v: "validateRepositoryReviewDispatchContract payload = Inr v" "splitRepoFullName (dp_repo_full_name v) = Inr repo"
    unfolding resolveRepositoryReviewDispatch_def orThrow_Inr by blast
  have d: "d = v\<lparr>dp_base_sha := None\<rparr> \<and> dp_scan_mode v \<noteq> IncrementalScan \<or>
      dp_scan_mode v = IncrementalScan \<and> (\<exists>base head. base \<noteq> head \<and> d = v\<lparr>dp_base_sha := Some base, dp_head_sha := Some head\<rparr>)"
    using assms v
    by (cases "dp_scan_mode v = IncrementalScan")
      (auto simp: resolveRepositoryReviewDispatch_def orThrow_Inr simp del: split_paired_Ex split: if_splits)
  from contract_bounds [OF v(1)] have "dp_target_branch v \<noteq> []" "dp_correlation_id v \<noteq> []" "length (dp_correlation_id v) \<le> 128"
    by simp_all
  moreover have "owner_login_ok (fst repo)" "repo_name_ok (snd repo)"
    using v(2) by (auto simp: splitRepoFullName_def Let_def split: list.splits if_splits)
  moreover obtain owner name where "repo = (owner, name)" by (cases repo)
  ultimately have v: "\<exists>owner repo. splitRepoFullName (dp_repo_full_name v) = Inr (owner, repo) \<and> owner_login_ok owner \<and> repo_name_ok repo"
    "dp_target_branch v \<noteq> []" "dp_correlation_id v \<noteq> []" "length (dp_correlation_id v) \<le> 128"
    using v(2) by simp_all
  from d show ?thesis
  proof (elim disjE conjE exE)
    assume "d = v\<lparr>dp_base_sha := None\<rparr>" "dp_scan_mode v \<noteq> IncrementalScan"
    then show ?thesis using v by simp
  next
    fix base head
    assume "dp_scan_mode v = IncrementalScan" "base \<noteq> head" "d = v\<lparr>dp_base_sha := Some base, dp_head_sha := Some head\<rparr>"
    then show ?thesis using v by simp
  qed
qed

theorem dispatch_resolved_witness:
  "\<exists>d base head. resolveRepositoryReviewDispatch (\<lambda>repo ref. Inr (''sha-'' @ ref)) (\<lambda>repo head days. Inr (Some ''0ld'')) (\<lambda>days. [])
       (JObj [(''repo_full_name'', JStr ''acme/web''), (''target_branch'', JStr ''main''), (''event_type'', JStr ''scheduled''),
          (''correlation_id'', JStr ''c-1''), (''schedule'', JStr ''0 3 */2 * *'')]) = Inr d \<and>
     dp_base_sha d = Some base \<and> dp_head_sha d = Some head \<and> base \<noteq> head"
proof -
  let ?r = "resolveRepositoryReviewDispatch (\<lambda>repo ref. Inr (''sha-'' @ ref)) (\<lambda>repo head days. Inr (Some ''0ld'')) (\<lambda>days. [])
       (JObj [(''repo_full_name'', JStr ''acme/web''), (''target_branch'', JStr ''main''), (''event_type'', JStr ''scheduled''),
          (''correlation_id'', JStr ''c-1''), (''schedule'', JStr ''0 3 */2 * *'')])"
  have "case ?r of Inl err \<Rightarrow> False | Inr d \<Rightarrow> dp_scan_mode d = IncrementalScan" by code_simp
  then obtain d where "?r = Inr d" "dp_scan_mode d = IncrementalScan" by (auto split: sum.splits)
  with dispatch_resolved [OF this(1)] show ?thesis by blast
qed

end
