(* ===== verification/Preparing.thy ===== *)
theory Preparing
  imports Validation "HOL-Library.AList"
begin

text \<open>
  The connector's other two workers, as actions on the store through the HTTP surface like the publisher's: input preparation
  (\<^verbatim>\<open>triggers/preparation-command.ts\<close>, \<^verbatim>\<open>triggers/repository-review.ts\<close>, \<^verbatim>\<open>artifacts/input-bundle-publication.ts\<close>,
  \<^verbatim>\<open>review-runs/preparation-*.ts\<close>) and notice delivery (\<^verbatim>\<open>review-runs/run-notice-*.ts\<close>). An error class is the name of a
  \<open>NamedError\<close>. \<open>cn_beats\<close> says before which calls a renewal by the heartbeat timer lost the claim. What reads GitHub, builds or
  stores a bundle, or submits to the Execution is a field of the record \<open>workbench\<close>.
\<close>

subsection \<open>Preparation failures\<close>

fun is_named :: "string \<Rightarrow> js_error \<Rightarrow> bool" where
  "is_named name (NamedError n c m) = (n = name)"
| "is_named name _ = False"

record preparation_failure =
  pf_retry :: bool
  pf_retryAfterMs :: "int option"
  pf_code :: "string option"

text \<open>\<^verbatim>\<open>Number(value)\<close> on the two forms HTTP gives a \<^verbatim>\<open>Retry-After\<close> header, a decimal number of seconds and a date; empty text
  is zero. Fractions and exponents, which \<^verbatim>\<open>Number\<close> would read too, are not among them.\<close>

definition header_seconds :: "string \<Rightarrow> int option" where
  "header_seconds v = (if js_trim v = [] then Some 0 else decimal_integer (js_trim v))"

definition retryAfterMs :: "js_error \<Rightarrow> nat \<Rightarrow> int" where
  "retryAfterMs err attempt =
     (let backoff = min (10 * 60000) (5000 * 2 ^ min (attempt - 1) 7) in
      case Option.bind (either_header (error_headers err) ''retry-after'' ''Retry-After'') header_seconds of
        None \<Rightarrow> backoff
      | Some parsed \<Rightarrow> if 0 \<le> parsed then parsed * 1000 else backoff)"

definition isRateLimited :: "js_error \<Rightarrow> bool" where
  "isRateLimited err =
     (map_of (error_headers err) ''retry-after'' \<noteq> None \<or> map_of (error_headers err) ''x-ratelimit-remaining'' = Some ''0'' \<or>
      js_includes ''rate limit'' (lower_messages err))"

definition retryable_status :: "js_error \<Rightarrow> bool" where
  "retryable_status err =
     (case error_status err of
        None \<Rightarrow> True
      | Some status \<Rightarrow> 500 \<le> status \<or> status = 408 \<or> status = 409 \<or> status = 429 \<or> status = 403 \<and> isRateLimited err)"

definition classifyPreparationFailure :: "js_error \<Rightarrow> nat \<Rightarrow> bool \<Rightarrow> preparation_failure" where
  "classifyPreparationFailure err attempt deterministic =
     (let retry = (\<not> deterministic \<and> \<not> is_named ''InvalidPreparationInputError'' err \<and> retryable_status err) in
      \<lparr>pf_retry = retry, pf_retryAfterMs = (if retry then Some (retryAfterMs err attempt) else None), pf_code = error_code err\<rparr>)"

subsection \<open>The preparation lease\<close>

definition preparation_lost :: "string \<Rightarrow> js_error" where
  "preparation_lost runId = NamedError ''PreparationClaimLostError'' None (''Preparation claim was lost for review run '' @ runId @ ''.'')"

text \<open>A renewal that was refused loses the claim; one that failed is thrown and proves nothing.\<close>

definition renewPreparation :: "connector \<Rightarrow> string \<Rightarrow> uuid \<Rightarrow> unit act" where
  "renewPreparation cn runId token w =
     (case remote cn runId [] (\<lambda>cfg now. renewPreparationClaim cfg now runId token) w of
        (Inl err, w1) \<Rightarrow> (Inl err, w1)
      | (Inr renewed, w1) \<Rightarrow> (Inr (), w1\<lparr>w_lost := (w_lost w1 \<or> \<not> renewed)\<rparr>))"

definition assertPreparationOwned :: "connector \<Rightarrow> string \<Rightarrow> uuid \<Rightarrow> unit act" where
  "assertPreparationOwned cn runId token =
     andThen (renewPreparation cn runId token) (\<lambda>_.
     andThen still_owned (\<lambda>owned. if owned then ret () else throw (preparation_lost runId)))"

definition startPreparationClaimHeartbeat :: "connector \<Rightarrow> string \<Rightarrow> uuid \<Rightarrow> unit act" where
  "startPreparationClaimHeartbeat cn runId token w =
     andThen (remote cn runId [] (\<lambda>cfg now db. (Inr (preparationHeartbeatIntervalMs cfg), db)))
       (\<lambda>intervalMs. assertPreparationOwned cn runId token) (w\<lparr>w_lost := False\<rparr>)"

text \<open>\<^verbatim>\<open>stop\<close>: a renewal still running is waited for. The value is whether the claim is still owned, as far as is known.\<close>

definition stopHeartbeat :: "connector \<Rightarrow> bool act" where
  "stopHeartbeat cn w = (Inr (\<not> w_lost (beat cn w)), beat cn w)"

subsection \<open>Submitting a prepared input\<close>

record workbench =
  wb_parse_url :: "string \<Rightarrow> url_parts option"
  wb_submit :: "workflow_name \<Rightarrow> string \<Rightarrow> json \<Rightarrow> js_error + unit"
  wb_seen :: "db \<Rightarrow> db"
  wb_run_id :: string
  wb_context :: "workflow_name \<Rightarrow> json \<Rightarrow> js_error + json"
  wb_reference :: "json \<Rightarrow> string \<Rightarrow> js_error + bundle_reference"
  wb_fits :: "json \<Rightarrow> js_error + unit"
  wb_upload :: "json \<Rightarrow> string \<Rightarrow> unit act"
  wb_exists :: "json \<Rightarrow> bool act"
  wb_parse :: "workflow_name \<Rightarrow> json \<Rightarrow> js_error + json"
  wb_octokit :: "workflow_name \<Rightarrow> json \<Rightarrow> unit act"
  wb_resolve :: "json \<Rightarrow> unit act"
  wb_prepare :: "workflow_name \<Rightarrow> json \<Rightarrow> string \<Rightarrow> (json \<Rightarrow> unit act) \<Rightarrow> (json \<times> json) act"

text \<open>A request whose handler makes several store calls: it may be lost on the way in, with the handler never started or still
  to run among the others, and its answer may be lost on the way out.\<close>

definition wire :: "connector \<Rightarrow> unit act" where
  "wire cn = remote cn [] [] (\<lambda>cfg now db. (Inr (), db))"

definition outcome :: "'a act \<Rightarrow> (js_error + 'a) act" where
  "outcome m w = (Inr (fst (m w)), snd (m w))"

definition ERROR_RESPONSE_CODES_FROM_CONTRACT :: "string list" where
  "ERROR_RESPONSE_CODES_FROM_CONTRACT =
     [''INVALID_BODY'', ''INVALID_PATH_PARAMETER'', ''INVALID_QUERY'', ''PUBLICATION_STEP_NOT_CLAIMABLE'',
      ''PUBLICATION_STEP_RETRY_EXHAUSTED'', ''PUBLICATION_STEP_SET_CHANGED'', ''PUBLICATION_STEP_SET_DUPLICATE'']"

text \<open>The surface's answer to an error without a status of its own, as the client throws it.\<close>

definition service_fault :: "js_error \<Rightarrow> js_error" where
  "service_fault err =
     status_error 500 (Some ''Internal error'')
       (case error_code err of None \<Rightarrow> None | Some c \<Rightarrow> if c \<in> set ERROR_RESPONSE_CODES_FROM_CONTRACT then Some c else None)"

definition viaHttp :: "connector \<Rightarrow> 'a act \<Rightarrow> 'a act" where
  "viaHttp cn m =
     andThen (wire cn) (\<lambda>_.
     andThen (outcome m) (\<lambda>out.
     andThen (wire cn) (\<lambda>_.
     await (case out of Inl err \<Rightarrow> Inl (service_fault err) | Inr a \<Rightarrow> Inr a))))"

definition clientSubmitPreparedRun :: "connector \<Rightarrow> workbench \<Rightarrow> string \<Rightarrow> uuid \<Rightarrow> json \<Rightarrow> json \<Rightarrow> unit act" where
  "clientSubmitPreparedRun cn wb runId token publishContext input =
     andThen (remote cn runId [] (\<lambda>cfg now db. (Inr (fst (getRun cfg runId db)), db))) (\<lambda>found.
     case found of
       None \<Rightarrow> throw (plain_error (''Review Runs run does not exist: '' @ runId))
     | Some run \<Rightarrow>
         andThen (await (wb_context wb (rec_workflow run) publishContext)) (\<lambda>parsed.
         catch
           (andThen (viaHttp cn (submitPreparedRun (cn_cfg cn) runId token parsed input (wb_submit wb))) (\<lambda>_. ret ()))
           (\<lambda>err. throw (NamedError ''ReviewRunsSubmissionError'' (error_code err) (error_message err)))))"

definition settleInputBundleCandidate :: "connector \<Rightarrow> string \<Rightarrow> uuid \<Rightarrow> string \<Rightarrow> settlement \<Rightarrow> unit act" where
  "settleInputBundleCandidate cn runId token digest status =
     andThen (remote cn runId [] (\<lambda>cfg now. settleCandidate cfg now runId token digest status)) (\<lambda>_. ret ())"

text \<open>\<^verbatim>\<open>{ ...input, [key]: value }\<close>.\<close>

fun json_put :: "json \<Rightarrow> string \<Rightarrow> json \<Rightarrow> json" where
  "json_put (JObj kvs) key v = JObj (AList.update key v kvs)"
| "json_put _ key v = JObj [(key, v)]"

definition publishAndSubmitInputBundle :: "connector \<Rightarrow> workbench \<Rightarrow> string \<Rightarrow> uuid \<Rightarrow> json \<Rightarrow> json \<Rightarrow> unit act" where
  "publishAndSubmitInputBundle cn wb runId token publishContext input =
     (let local = coalesce (json_field input ''input_bundle'') JNull in
      if string_field (json_field local ''uri'') = None then throw (plain_error ''Prepared input is missing its input bundle.'')
      else
        andThen (await (wb_reference wb local runId)) (\<lambda>reference.
        let publishedInput = json_put input ''input_bundle'' (reference_json reference) in
        andThen (await (wb_fits wb publishedInput)) (\<lambda>_.
        andThen (remote cn runId [] (\<lambda>cfg now. reserve (wb_parse_url wb) cfg now runId token
          \<lparr>intent_reference = reference, intent_input = publishedInput, intent_publish_context = publishContext\<rparr>)) (\<lambda>_.
        andThen (wb_upload wb local runId) (\<lambda>_.
        andThen (settleInputBundleCandidate cn runId token (ref_digest reference) SettlePresent) (\<lambda>_.
        clientSubmitPreparedRun cn wb runId token publishContext publishedInput))))))"

primrec recover_candidates :: "connector \<Rightarrow> workbench \<Rightarrow> string \<Rightarrow> uuid \<Rightarrow> candidate_row list \<Rightarrow> bool act" where
  "recover_candidates cn wb runId token [] = ret False"
| "recover_candidates cn wb runId token (x # xs) =
     andThen (wb_exists wb (cand_reference x)) (\<lambda>exists.
     if \<not> exists
     then if cand_status x = CandSelected
          then throw (plain_error ''Selected input bundle is unavailable; cannot replace its input.'')
          else andThen (settleInputBundleCandidate cn runId token (cand_digest x) SettleAbandoned)
                 (\<lambda>_. recover_candidates cn wb runId token xs)
     else andThen (if cand_status x \<noteq> CandSelected
                   then settleInputBundleCandidate cn runId token (cand_digest x) SettlePresent else ret ()) (\<lambda>_.
          andThen (clientSubmitPreparedRun cn wb runId token (cand_publish_context x) (cand_input x)) (\<lambda>_. ret True)))"

definition recoverInputBundlePublication :: "connector \<Rightarrow> workbench \<Rightarrow> string \<Rightarrow> uuid \<Rightarrow> bool act" where
  "recoverInputBundlePublication cn wb runId token =
     andThen (remote cn runId [] (\<lambda>cfg now. listCandidates cfg now runId token))
       (recover_candidates cn wb runId token)"

subsection \<open>The preparation command\<close>

record preparation_admission =
  pa_workflow :: workflow_name
  pa_ingress_kind :: string
  pa_ingress_key :: string
  pa_input :: json

text \<open>\<^verbatim>\<open>admitReviewRun\<close>: the service draws the run id and the token; \<open>wb_seen\<close> is what its look-up by ingress identity saw.\<close>

definition admitReviewRun :: "connector \<Rightarrow> workbench \<Rightarrow> preparation_admission \<Rightarrow> admission_result act" where
  "admitReviewRun cn wb a w =
     call_with (http_error [] []) (\<lambda>now tok db.
       admit (cn_cfg cn) ''github'' now tok
         \<lparr>ca_run_id = wb_run_id wb, ca_workflow = pa_workflow a, ca_publish_context = JObj [], ca_execution_input = None,
          ca_ingress_kind = Some (pa_ingress_kind a), ca_ingress_key = Some (pa_ingress_key a),
          ca_preparation_input = Some (pa_input a), ca_preparation_input_version = Some ''v1''\<rparr>
         (pa_ingress_kind a) (pa_ingress_key a) (wb_seen wb db) db) (beat cn w)"

definition recordPreparationFailure ::
  "connector \<Rightarrow> string \<Rightarrow> uuid \<Rightarrow> string \<Rightarrow> string \<Rightarrow> preparation_failure \<Rightarrow> unit act" where
  "recordPreparationFailure cn runId token code message failure =
     andThen (remote cn runId [] (\<lambda>cfg now. failPreparation cfg now runId token (Some code, message)
       (pf_retry failure) (pf_retryAfterMs failure))) (\<lambda>_. ret ())"

text \<open>The owner of a claim records a failure, unless Review Runs answered the submission itself or the claim is another's.\<close>

definition recordOwnedFailure ::
  "connector \<Rightarrow> string \<Rightarrow> uuid \<Rightarrow> string \<Rightarrow> string \<Rightarrow> preparation_failure \<Rightarrow> js_error \<Rightarrow> unit act" where
  "recordOwnedFailure cn runId token code message failure err =
     andThen (stopHeartbeat cn) (\<lambda>ownsClaim.
     if ownsClaim \<and> \<not> is_named ''ReviewRunsSubmissionError'' err \<and> \<not> is_named ''PreparationClaimLostError'' err
     then recordPreparationFailure cn runId token code message failure else ret ())"

definition isSetupDeclarationError :: "js_error \<Rightarrow> bool" where
  "isSetupDeclarationError err = is_named ''SetupDeclarationError'' err"

definition start_code :: "js_error \<Rightarrow> string" where
  "start_code err = (if isSetupDeclarationError err then ''SETUP_DECLARATION_INVALID'' else ''REVIEW_START_FAILED'')"

text \<open>The context and the input of a prepared review, published and submitted under a renewed claim.\<close>

definition submitPrepared :: "connector \<Rightarrow> workbench \<Rightarrow> string \<Rightarrow> uuid \<Rightarrow> json \<times> json \<Rightarrow> unit act" where
  "submitPrepared cn wb runId token prepared =
     andThen (assertPreparationOwned cn runId token) (\<lambda>_.
     publishAndSubmitInputBundle cn wb runId token (fst prepared) (snd prepared))"

definition checkpoint :: "connector \<Rightarrow> string \<Rightarrow> uuid \<Rightarrow> json \<Rightarrow> unit act" where
  "checkpoint cn runId token input = remote cn runId [] (\<lambda>cfg now. checkpointInput cfg now runId token input)"

definition prepareUnderLease ::
  "connector \<Rightarrow> workbench \<Rightarrow> workflow_name \<Rightarrow> json \<Rightarrow> string \<Rightarrow> uuid \<Rightarrow> nat \<Rightarrow> string act" where
  "prepareUnderLease cn wb workflow input runId token attempt =
     andThen (startPreparationClaimHeartbeat cn runId token) (\<lambda>_.
     finishing
       (catch
         (andThen (recoverInputBundlePublication cn wb runId token) (\<lambda>recovered.
          if recovered then ret runId
          else andThen (wb_prepare wb workflow input runId (checkpoint cn runId token)) (\<lambda>prepared.
               andThen (submitPrepared cn wb runId token prepared) (\<lambda>_. ret runId))))
         (\<lambda>err. andThen (recordOwnedFailure cn runId token (start_code err) (error_message err)
            (classifyPreparationFailure err attempt (isSetupDeclarationError err)) err) (\<lambda>_. throw err)))
       (andThen (stopHeartbeat cn) (\<lambda>_. ret ())))"

text \<open>The run and the claim a command works on: the claimed one, or the one it admits; a replayed admission has none.\<close>

type_synonym claimed_preparation_ref = "string \<times> uuid \<times> nat"

definition admitted_claim ::
  "connector \<Rightarrow> workbench \<Rightarrow> preparation_admission \<Rightarrow> claimed_preparation_ref option \<Rightarrow> (string \<times> (uuid \<times> nat) option) act" where
  "admitted_claim cn wb a claimed =
     (case claimed of
        Some (runId, token, attempt) \<Rightarrow> ret (runId, Some (token, attempt))
      | None \<Rightarrow>
          andThen (admitReviewRun cn wb a) (\<lambda>admitted.
          let runId = rec_run_id (adm_record admitted) in
          if \<not> adm_created admitted then ret (runId, None)
          else case adm_preparation_token admitted of
                 None \<Rightarrow> throw (plain_error (''Newly admitted review run '' @ runId @ '' has no preparation claim.''))
               | Some token \<Rightarrow> ret (runId, Some (token, 1))))"

definition runPreparationCommand ::
  "connector \<Rightarrow> workbench \<Rightarrow> preparation_admission \<Rightarrow> claimed_preparation_ref option \<Rightarrow> string act" where
  "runPreparationCommand cn wb a claimed =
     andThen (admitted_claim cn wb a claimed) (\<lambda>(runId, claim).
     case claim of
       None \<Rightarrow> ret runId
     | Some (token, attempt) \<Rightarrow> prepareUnderLease cn wb (pa_workflow a) (pa_input a) runId token attempt)"

subsection \<open>Repository dispatch\<close>

text \<open>\<^verbatim>\<open>asErrorMessage(error) || fallback\<close>.\<close>

definition message_or :: "js_error \<Rightarrow> string \<Rightarrow> string" where
  "message_or err fallback = (if error_message err = [] then fallback else error_message err)"

text \<open>The first half resolves the dispatch, \<open>True\<close> when an earlier publication was recovered instead. Whatever fails in it is
  thrown as a rejected dispatch.\<close>

definition resolveUnderLease :: "connector \<Rightarrow> workbench \<Rightarrow> json \<Rightarrow> string \<Rightarrow> uuid \<Rightarrow> nat \<Rightarrow> bool act" where
  "resolveUnderLease cn wb payload runId token attempt =
     catch
       (andThen (recoverInputBundlePublication cn wb runId token) (\<lambda>recovered.
        if recovered then andThen (stopHeartbeat cn) (\<lambda>_. ret True)
        else andThen (wb_octokit wb RepositoryReview payload) (\<lambda>_.
             andThen (wb_resolve wb payload) (\<lambda>_. ret False))))
       (\<lambda>err.
         andThen (recordOwnedFailure cn runId token ''REVIEW_PREPARATION_FAILED''
           (message_or err ''Repository review preparation failed.'')
           (classifyPreparationFailure err attempt (is_named ''RepositoryReviewDispatchValidationError'' err)) err) (\<lambda>_.
         throw (validation_error (message_or err ''Repository review dispatch request is invalid.''))))"

definition dispatchRepositoryReview ::
  "connector \<Rightarrow> workbench \<Rightarrow> json \<Rightarrow> string \<Rightarrow> claimed_preparation_ref option \<Rightarrow> string act" where
  "dispatchRepositoryReview cn wb payload verified_repository claimed =
     andThen (await (case validateRepositoryReviewDispatchContract payload of
                       Inl err \<Rightarrow> Inl (validation_error (error_message err)) | Inr d \<Rightarrow> Inr d)) (\<lambda>validated.
     andThen (admitted_claim cn wb
       \<lparr>pa_workflow = RepositoryReview, pa_ingress_kind = ''github_actions_dispatch'',
        pa_ingress_key = verified_repository @ '':'' @ dp_correlation_id validated,
        pa_input = JObj [(''kind'', JStr ''github_repository_review''), (''payload'', payload),
                         (''verified_repository'', JStr verified_repository)]\<rparr> claimed) (\<lambda>(runId, claim).
     case claim of
       None \<Rightarrow> ret runId
     | Some (token, attempt) \<Rightarrow>
         andThen (startPreparationClaimHeartbeat cn runId token) (\<lambda>_.
         andThen (resolveUnderLease cn wb payload runId token attempt) (\<lambda>recovered.
         if recovered then ret runId
         else
           finishing
             (catch
               (andThen (wb_prepare wb RepositoryReview payload runId (checkpoint cn runId token)) (\<lambda>prepared.
                andThen (submitPrepared cn wb runId token prepared) (\<lambda>_. ret runId)))
               (\<lambda>err. andThen (recordOwnedFailure cn runId token (start_code err)
                  (message_or err ''Repository review could not be started.'')
                  (classifyPreparationFailure err attempt (isSetupDeclarationError err)) err) (\<lambda>_. throw err)))
             (andThen (stopHeartbeat cn) (\<lambda>_. ret ()))))))"

subsection \<open>One preparation pass\<close>

definition invalid_input :: "string \<Rightarrow> js_error" where
  "invalid_input m = NamedError ''InvalidPreparationInputError'' None m"

text \<open>\<open>wb_parse\<close> is the parser of the workflow's stored input.\<close>

definition executeClaimedPreparation :: "connector \<Rightarrow> workbench \<Rightarrow> (json option \<Rightarrow> string) \<Rightarrow> preparation_work \<Rightarrow> unit act" where
  "executeClaimedPreparation cn wb kind_text work =
     (let input = pw_input work; kind = json_field input ''kind''; workflow = pw_workflow work;
          claimed = Some (pw_run_id work, pw_claim_token work, pw_attempt_count work);
          command = (\<lambda>parsed. andThen (wb_octokit wb workflow parsed) (\<lambda>_.
            andThen (runPreparationCommand cn wb
              \<lparr>pa_workflow = workflow, pa_ingress_kind = ''github_webhook'', pa_ingress_key = ''recovered:'' @ pw_run_id work,
               pa_input = parsed\<rparr> claimed) (\<lambda>_. ret ())))
      in if pw_input_version work \<noteq> ''v1''
         then throw (invalid_input (''Unsupported preparation input version '' @ pw_input_version work @ ''.''))
         else if \<not> json_is_object input then throw (invalid_input ''Preparation input is missing object.'')
         else if kind = Some (JStr ''github_issue_review'') \<and> workflow = IssueReview \<or>
                 kind = Some (JStr ''github_pull_request_review'') \<and> workflow = PullRequestReview
         then andThen (await (wb_parse wb workflow input)) command
         else if kind = Some (JStr ''github_repository_review'') \<and> workflow = RepositoryReview
         then andThen (await (wb_parse wb workflow input)) (\<lambda>parsed.
              andThen (dispatchRepositoryReview cn wb (coalesce (json_field parsed ''payload'') JNull)
                (coalesce (string_field (json_field parsed ''verified_repository'')) []) claimed) (\<lambda>_. ret ()))
         else throw (invalid_input (''Preparation input kind '' @ kind_text kind @ '' does not match '' @ workflow_text workflow @ ''.'')))"

text \<open>The catch block of the pass: it records the failure, and ignores that it could not.\<close>

definition giveBackPreparation :: "connector \<Rightarrow> preparation_work \<Rightarrow> js_error \<Rightarrow> unit act" where
  "giveBackPreparation cn work err =
     catch
       (recordPreparationFailure cn (pw_run_id work) (pw_claim_token work) ''PREPARATION_RECOVERY_FAILED''
          (error_message err) (classifyPreparationFailure err (pw_attempt_count work) False))
       (\<lambda>_. ret ())"

definition prepareReviewRunsOnce :: "connector \<Rightarrow> workbench \<Rightarrow> (json option \<Rightarrow> string) \<Rightarrow> bool act" where
  "prepareReviewRunsOnce cn wb kind_text =
     andThen (\<lambda>w. call_with (http_error [] []) (\<lambda>now tok. claimNext (cn_cfg cn) now (cn_locked cn) tok) (beat cn w)) (\<lambda>claimed.
     case claimed of
       None \<Rightarrow> ret False
     | Some work \<Rightarrow> andThen (catch (executeClaimedPreparation cn wb kind_text work) (giveBackPreparation cn work)) (\<lambda>_. ret True))"

end
