(* ===== verification/Notifying.thy ===== *)
theory Notifying
  imports Preparing
begin

text \<open>
  \<^verbatim>\<open>review-runs/run-notice-coordinator.ts\<close>, \<^verbatim>\<open>run-notice-claim.ts\<close> and \<^verbatim>\<open>run-notice-reply.ts\<close>: the connector tells the requester of a
  run that failed or was parked, once per notice of the outbox.
\<close>

subsection \<open>Where a notice goes\<close>

definition notice_error :: "string \<Rightarrow> js_error" where
  "notice_error label = NamedError ''InvalidRunNoticeInputError'' None (''Run notice input is missing '' @ label @ ''.'')"

definition requireText :: "json option \<Rightarrow> string \<Rightarrow> js_error + string" where
  "requireText v label =
     (case string_field v of
        None \<Rightarrow> Inl (notice_error label)
      | Some s \<Rightarrow> if js_trim s = [] then Inl (notice_error label) else Inr s)"

definition record_field :: "json \<Rightarrow> string \<Rightarrow> json option" where
  "record_field input key = (case json_field input key of None \<Rightarrow> None | Some v \<Rightarrow> if json_is_object v then Some v else None)"

definition noticeRepository :: "json \<Rightarrow> js_error + string option" where
  "noticeRepository input =
     (case record_field input ''issue'' of
        Some issue \<Rightarrow> map_sum id Some (requireText (json_field issue ''repo_full_name'') ''issue.repo_full_name'')
      | None \<Rightarrow>
     (case record_field input ''pr'' of
        Some pr \<Rightarrow> map_sum id Some (requireText (json_field pr ''repo_full_name'') ''pr.repo_full_name'')
      | None \<Rightarrow>
     (case record_field input ''pr_reference'' of
        Some pr \<Rightarrow>
          orThrow (requireText (json_field pr ''owner_login'') ''pr_reference.owner_login'') (\<lambda>owner.
          orThrow (requireText (json_field pr ''repo_name'') ''pr_reference.repo_name'') (\<lambda>name.
          Inr (Some (owner @ ''/'' @ name))))
      | None \<Rightarrow> Inr (repositoryFullName (json_field input ''verified_repository'')))))"

fun number_field :: "json option \<Rightarrow> rat option" where
  "number_field (Some (JNum n)) = Some n"
| "number_field _ = None"

definition replyTarget :: "json \<Rightarrow> ((string \<times> string) \<times> rat) option" where
  "replyTarget input =
     (let source = (case record_field input ''issue'' of
                      Some v \<Rightarrow> Some v
                    | None \<Rightarrow> (case record_field input ''pr'' of
                                 Some v \<Rightarrow> Some v | None \<Rightarrow> record_field input ''pr_reference''))
      in case source of
           None \<Rightarrow> None
         | Some v \<Rightarrow>
            (case (string_field (json_field v ''owner_login''), string_field (json_field v ''repo_name'')) of
               (Some owner, Some repo) \<Rightarrow>
                 map_option (\<lambda>n. ((owner, repo), n))
                   (case number_field (json_field v ''issue_number'') of
                      Some n \<Rightarrow> Some n | None \<Rightarrow> number_field (json_field v ''pr_number''))
             | _ \<Rightarrow> None))"

definition repositoryScope :: "json \<Rightarrow> (string \<times> string) option" where
  "repositoryScope input =
     (if json_field input ''kind'' \<noteq> Some (JStr ''github_repository_review'') then None
      else case map_option (split_on (CHR ''/'')) (repositoryFullName (json_field input ''verified_repository'')) of
             Some (owner # repo # _) \<Rightarrow> if owner = [] \<or> repo = [] then None else Some (owner, repo)
           | _ \<Rightarrow> None)"

subsection \<open>The reply\<close>

text \<open>GitHub as the reply uses it: the installation client, the read of a repository, the summary issue's lookup or creation, and the
  comment unless its marker exists, whose value is the comment's URL.\<close>

record notice_hub =
  nh_octokit :: "string \<Rightarrow> unit act"
  nh_repository :: "string \<times> string \<Rightarrow> unit act"
  nh_summary_issue :: "string \<times> string \<Rightarrow> unit act \<Rightarrow> rat act"
  nh_comment :: "string \<times> string \<Rightarrow> rat \<Rightarrow> string \<Rightarrow> string \<Rightarrow> unit act \<Rightarrow> string act"

definition assertRepositoryIsInstalled :: "notice_hub \<Rightarrow> string \<times> string \<Rightarrow> unit act" where
  "assertRepositoryIsInstalled nh target =
     catch (nh_repository nh target)
       (\<lambda>err. throw (if error_status err \<in> {Some 404, Some 403}
          then RemoteError None (error_status err) [] None
            (''Run failure notice target '' @ fst target @ ''/'' @ snd target @ '' is not installed on this app.'')
          else err))"

fun STAGE_SENTENCE :: "axis \<Rightarrow> string" where
  "STAGE_SENTENCE AxisPreparation = ''Security review could not be started after automatic retries.''"
| "STAGE_SENTENCE AxisExecution = ''Security review started but could not be completed.''"
| "STAGE_SENTENCE AxisPublication = ''Security review completed but its result could not be delivered.''"

definition notice_marker :: "nat \<Rightarrow> string" where
  "notice_marker noticeId = ''<!-- sec-review-notice:'' @ nat_string noticeId @ '' -->''"

definition notice_body :: "notice_work \<Rightarrow> string" where
  "notice_body notice =
     notice_marker (nw_notice_id notice) @ [CHR 0x0A, CHR 0x0A] @
     (if nw_kind notice = NoticeAttention
      then ''The review outcome could not be confirmed. Automatic recovery has stopped and this requires operator follow-up; this is not a failure report.''
      else STAGE_SENTENCE (nw_axis notice)) @
     '' Reference: `'' @ nw_run_id notice @ ''`. '' @
     (case nw_reason_code notice of
        None \<Rightarrow> ''Review Runs recorded no failure code.'' | Some c \<Rightarrow> ''Reason: `'' @ c @ ''`.'')"

definition sendRunNoticeReply :: "notice_hub \<Rightarrow> notice_work \<Rightarrow> unit act \<Rightarrow> string option act" where
  "sendRunNoticeReply nh notice assertClaim =
     (let input = nw_input notice;
          post = (\<lambda>repo issue. andThen (nh_comment nh repo issue (notice_body notice) (notice_marker (nw_notice_id notice)) assertClaim)
            (\<lambda>url. ret (Some url)))
      in case replyTarget input of
           Some (repo, issue) \<Rightarrow> andThen (assertRepositoryIsInstalled nh repo) (\<lambda>_. post repo issue)
         | None \<Rightarrow>
            (case repositoryScope input of
               None \<Rightarrow> ret None
             | Some repo \<Rightarrow>
                 andThen (assertRepositoryIsInstalled nh repo) (\<lambda>_.
                 andThen (nh_summary_issue nh repo assertClaim) (\<lambda>issue. post repo issue))))"

subsection \<open>One notice\<close>

definition notice_lost :: "nat \<Rightarrow> js_error" where
  "notice_lost noticeId = NamedError ''RunNoticeClaimLostError'' None (''Run notice claim was lost for '' @ nat_string noticeId @ ''.'')"

definition renewNotice :: "connector \<Rightarrow> nat \<Rightarrow> uuid \<Rightarrow> unit act" where
  "renewNotice cn noticeId token w =
     (let w0 = beat cn w in
      if w_lost w0 then (Inl (notice_lost noticeId), w0)
      else case remote cn [] [] (\<lambda>cfg now. renewNoticeClaim cfg now noticeId token) w0 of
             (Inr True, w1) \<Rightarrow> (if w_lost w1 then Inl (notice_lost noticeId) else Inr (), w1)
           | (_, w1) \<Rightarrow> (Inl (notice_lost noticeId), w1\<lparr>w_lost := True\<rparr>))"

definition startRunNoticeClaimHeartbeat :: "connector \<Rightarrow> nat \<Rightarrow> uuid \<Rightarrow> unit act" where
  "startRunNoticeClaimHeartbeat cn noticeId token w =
     andThen (remote cn [] [] (\<lambda>cfg now db. (Inr (noticeHeartbeatIntervalMs cfg), db)))
       (\<lambda>intervalMs. renewNotice cn noticeId token) (w\<lparr>w_lost := False\<rparr>)"

definition completeRunNotice :: "connector \<Rightarrow> notice_work \<Rightarrow> string option \<Rightarrow> unit act" where
  "completeRunNotice cn notice commentUrl =
     andThen (remote cn [] [] (\<lambda>cfg now. completeNotice cfg now (nw_notice_id notice) (nw_claim_token notice) (commentUrl \<noteq> None) commentUrl))
       (\<lambda>_. ret ())"

definition deliverNotice :: "connector \<Rightarrow> notice_hub \<Rightarrow> notice_work \<Rightarrow> unit act" where
  "deliverNotice cn nh notice =
     andThen (await (if json_is_object (nw_input notice) then noticeRepository (nw_input notice) else Inl (notice_error ''object''))) (\<lambda>repo.
     andThen
       (case repo of
          None \<Rightarrow> ret None
        | Some name \<Rightarrow> andThen (nh_octokit nh name) (\<lambda>_.
            sendRunNoticeReply nh notice (renewNotice cn (nw_notice_id notice) (nw_claim_token notice)))) (\<lambda>delivered.
     andThen (stopHeartbeat cn) (\<lambda>owned.
     if \<not> owned then ret () else completeRunNotice cn notice delivered)))"

definition deliverRunNoticeOnce :: "connector \<Rightarrow> notice_hub \<Rightarrow> (nat \<Rightarrow> bool) \<Rightarrow> bool act" where
  "deliverRunNoticeOnce cn nh locked =
     andThen (\<lambda>w. call_with (http_error [] []) (\<lambda>now tok. claimNextNotice (cn_cfg cn) now locked tok) (beat cn w)) (\<lambda>claimed.
     case claimed of
       None \<Rightarrow> ret False
     | Some notice \<Rightarrow>
         andThen
           (catch
             (andThen (startRunNoticeClaimHeartbeat cn (nw_notice_id notice) (nw_claim_token notice)) (\<lambda>_.
              catch (deliverNotice cn nh notice) (\<lambda>err. andThen (stopHeartbeat cn) (\<lambda>_. throw err))))
             (\<lambda>err.
               if is_named ''RunNoticeClaimLostError'' err then ret ()
               else if \<not> pf_retry (classifyPreparationFailure err 1 (is_named ''InvalidRunNoticeInputError'' err))
               then completeRunNotice cn notice None
               else ret ()))
           (\<lambda>_. ret True))"

end
