(* ===== verification/Fencing.thy ===== *)
theory Fencing
  imports Scenario
begin

text \<open>
  Ownership by token. A lease has at most one holder, and every operation that carries a token is refused, and
  writes nothing, unless the token is the holder's: the contract \<open>fenced_lease\<close>, interpreted for the operations of the
  publication claim, the preparation claim, the recovery claim and the notice claim. Its consequence for the clients: a claimant
  that was overtaken can call as often as it likes without effect. The one exception is the claim of a publication step, which is refused
  but derives the status of the publication from its steps before it throws.
\<close>

locale fenced_lease =
  fixes ok :: "'s \<Rightarrow> bool" and holds :: "'t \<Rightarrow> 's \<Rightarrow> bool" and call :: "'t \<Rightarrow> 's \<Rightarrow> 'r \<times> 's" and refused :: "'r \<Rightarrow> bool"
  assumes one_holder: "ok s \<Longrightarrow> holds t s \<Longrightarrow> holds t' s \<Longrightarrow> t' = t"
    and refusal: "ok s \<Longrightarrow> \<not> holds t s \<Longrightarrow> refused (fst (call t s)) \<and> snd (call t s) = s"
begin

lemma overtaken: "ok s \<Longrightarrow> holds t s \<Longrightarrow> t' \<noteq> t \<Longrightarrow> refused (fst (call t' s)) \<and> snd (call t' s) = s"
  using one_holder refusal by blast

lemma overtaken_calls: "ok s \<Longrightarrow> holds t s \<Longrightarrow> t \<notin> set ts \<Longrightarrow> fold (\<lambda>t' s'. snd (call t' s')) ts s = s"
proof (induction ts)
  case (Cons t' ts)
  then show ?case using overtaken [of s t t'] by auto
qed simp

end

subsection \<open>Who holds what\<close>

definition holds_publication :: "string \<Rightarrow> string \<Rightarrow> uuid \<Rightarrow> db \<Rightarrow> bool" where
  "holds_publication c k t db = (case pub_of db c k of None \<Rightarrow> False | Some b \<Rightarrow> publisher t b)"

definition holds_preparation_claim :: "string \<Rightarrow> string \<Rightarrow> uuid \<Rightarrow> db \<Rightarrow> bool" where
  "holds_preparation_claim c k t db = (case prep_of db c k of None \<Rightarrow> False | Some p \<Rightarrow> preparer t p)"

definition holds_recovery :: "string \<Rightarrow> string \<Rightarrow> uuid \<Rightarrow> db \<Rightarrow> bool" where
  "holds_recovery c k t db = (case exec_of db c k of None \<Rightarrow> False | Some e \<Rightarrow> owns_recovery t e)"

lemmas holds_defs = holds_publication_def holds_preparation_claim_def holds_recovery_def

text \<open>What a refused call answers: \<^verbatim>\<open>false\<close>, or a thrown error.\<close>

fun told_no :: "rr_error + bool \<Rightarrow> bool" where
  "told_no (Inl e) = True"
| "told_no (Inr b) = (\<not> b)"

fun thrown :: "rr_error + 'a \<Rightarrow> bool" where
  "thrown (Inl e) = True"
| "thrown (Inr a) = False"

text \<open>A guard that only the holder's row passes counts no row for anyone else.\<close>

lemma not_holder:
  assumes "keys_ok db"
  shows "\<not> holds_publication c k t db \<Longrightarrow> (\<And>b. qb b \<Longrightarrow> publisher t b) \<Longrightarrow> cnt_pub c k qb db = 0"
    and "\<not> holds_preparation_claim c k t db \<Longrightarrow> (\<And>p. qp p \<Longrightarrow> preparer t p) \<Longrightarrow> cnt_prep c k qp db = 0"
    and "\<not> holds_recovery c k t db \<Longrightarrow> (\<And>e. qe e \<Longrightarrow> owns_recovery t e) \<Longrightarrow> cnt_exec c k qe db = 0"
proof -
  show "cnt_pub c k qb db = 0" if "\<not> holds_publication c k t db" "\<And>b. qb b \<Longrightarrow> publisher t b"
    using that by (cases "pub_of db c k") (auto simp: cnt_axis [OF assms] holds_publication_def)
  show "cnt_prep c k qp db = 0" if "\<not> holds_preparation_claim c k t db" "\<And>p. qp p \<Longrightarrow> preparer t p"
    using that by (cases "prep_of db c k") (auto simp: cnt_axis [OF assms] holds_preparation_claim_def)
  show "cnt_exec c k qe db = 0" if "\<not> holds_recovery c k t db" "\<And>e. qe e \<Longrightarrow> owns_recovery t e"
    using that by (cases "exec_of db c k") (auto simp: cnt_axis [OF assms] holds_recovery_def)
qed

lemma holder_unique:
  "holds_publication c k t db \<Longrightarrow> holds_publication c k t' db \<Longrightarrow> t' = t"
  "holds_preparation_claim c k t db \<Longrightarrow> holds_preparation_claim c k t' db \<Longrightarrow> t' = t"
  "holds_recovery c k t db \<Longrightarrow> holds_recovery c k t' db \<Longrightarrow> t' = t"
  by (simp_all add: holds_defs publisher_def preparer_def owns_recovery_def split: option.splits)

lemma not_owner: "keys_ok db \<Longrightarrow> \<not> holds_publication (connectorId cfg) k t db \<Longrightarrow> \<not> lockPublicationOwnership cfg k t db"
  unfolding lockPublicationOwnership_def by (subst not_holder(1)) simp_all

subsection \<open>The publication claim\<close>

interpretation fenced_complete: fenced_lease keys_ok "holds_publication (connectorId cfg) k"
  "\<lambda>t. completePublication cfg now k t" told_no
proof
  show "told_no (fst (completePublication cfg now k t db)) \<and> snd (completePublication cfg now k t db) = db"
    if "keys_ok db" "\<not> holds_publication (connectorId cfg) k t db" for t db
  proof -
    have "cnt_pub (connectorId cfg) k (\<lambda>b. publisher t b \<and> P) db = 0" for P
      by (rule not_holder(1) [OF that]) simp
    then show ?thesis by (simp add: completePublication_def transaction_def Let_def upd_none)
  qed
qed (rule holder_unique)

interpretation fenced_fail: fenced_lease keys_ok "holds_publication (connectorId cfg) k"
  "\<lambda>t. failPublication cfg now k t err retry" told_no
  by unfold_locales
    (use not_holder(1) in \<open>auto simp: failPublication_def transaction_def Let_def upd_none dest: holder_unique\<close>)

interpretation fenced_renew: fenced_lease keys_ok "holds_publication (connectorId cfg) k"
  "\<lambda>t. renewPublicationClaim cfg now k t" told_no
  by unfold_locales
    (use not_holder(1) in \<open>auto simp: renewPublicationClaim_def Let_def upd_none dest: holder_unique\<close>)

interpretation fenced_initialize: fenced_lease keys_ok "holds_publication (connectorId cfg) k"
  "\<lambda>t. initializePublicationSteps cfg now k t keys" thrown
  by unfold_locales
    (use not_holder(1) in \<open>auto simp: initializePublicationSteps_def transaction_def Let_def dest: holder_unique\<close>)

interpretation fenced_claim_step: fenced_lease keys_ok "holds_publication (connectorId cfg) k"
  "\<lambda>t. claimPublicationStep cfg now k t key" told_no
  by unfold_locales (auto simp: claimPublicationStep_def transaction_def not_owner dest: holder_unique)

interpretation fenced_complete_step: fenced_lease keys_ok "holds_publication (connectorId cfg) k"
  "\<lambda>t. completePublicationStep cfg now k t key rid url" told_no
  by unfold_locales (auto simp: completePublicationStep_def transaction_def not_owner dest: holder_unique)

interpretation fenced_fail_step: fenced_lease keys_ok "holds_publication (connectorId cfg) k"
  "\<lambda>t. failPublicationStep cfg now k t key err retryOpt" told_no
  by unfold_locales (auto simp: failPublicationStep_def transaction_def not_owner dest: holder_unique)

interpretation fenced_settle: fenced_lease keys_ok "holds_publication (connectorId cfg) k"
  "\<lambda>t. settleExhaustedPublicationStep cfg now k t key outcome" told_no
  by unfold_locales (auto simp: settleExhaustedPublicationStep_def transaction_def not_owner dest: holder_unique)

subsection \<open>The preparation claim\<close>

lemma live_preparer_holds: "live_preparer cfg now t p \<Longrightarrow> preparer t p"
  by (simp add: live_preparer_def preparer_def)

lemma not_claimant:
  assumes "keys_ok db" "\<not> holds_preparation_claim (connectorId cfg) k t db"
  shows "cnt_prep (connectorId cfg) k (preparer t) db = 0"
    and "cnt_prep (connectorId cfg) k (live_preparer cfg now t) db = 0"
    and "\<exists>err. requirePreparationClaim cfg now k t db = Inl err"
proof -
  show "cnt_prep (connectorId cfg) k (preparer t) db = 0" by (rule not_holder(2) [OF assms])
  show live: "cnt_prep (connectorId cfg) k (live_preparer cfg now t) db = 0"
    by (rule not_holder(2) [OF assms]) (rule live_preparer_holds)
  then show "\<exists>err. requirePreparationClaim cfg now k t db = Inl err" by (simp add: requirePreparationClaim_def)
qed

interpretation fenced_renew_preparation: fenced_lease keys_ok "holds_preparation_claim (connectorId cfg) k"
  "\<lambda>t. renewPreparationClaim cfg now k t" told_no
  by unfold_locales (auto simp: renewPreparationClaim_def Let_def not_claimant upd_none dest: holder_unique)

interpretation fenced_checkpoint: fenced_lease keys_ok "holds_preparation_claim (connectorId cfg) k"
  "\<lambda>t. checkpointInput cfg now k t inp" thrown
  by unfold_locales (auto simp: checkpointInput_def Let_def not_claimant upd_none dest: holder_unique)

interpretation fenced_reserve: fenced_lease keys_ok "holds_preparation_claim (connectorId cfg) k"
  "\<lambda>t. reserve parse_url cfg now k t intent" thrown
proof
  show "thrown (fst (reserve parse_url cfg now k t intent db)) \<and> snd (reserve parse_url cfg now k t intent db) = db"
    if "keys_ok db" "\<not> holds_preparation_claim (connectorId cfg) k t db" for t db
    using not_claimant(3) [OF that, of now]
    by (auto simp: reserve_def reserve_tx_def transaction_def split: sum.split)
qed (rule holder_unique)

interpretation fenced_settle_candidate: fenced_lease keys_ok "holds_preparation_claim (connectorId cfg) k"
  "\<lambda>t. settleCandidate cfg now k t d st" thrown
proof
  show "thrown (fst (settleCandidate cfg now k t d st db)) \<and> snd (settleCandidate cfg now k t d st db) = db"
    if "keys_ok db" "\<not> holds_preparation_claim (connectorId cfg) k t db" for t db
    using not_claimant(3) [OF that, of now] by (auto simp: settleCandidate_def transaction_def)
qed (rule holder_unique)

interpretation fenced_save: fenced_lease keys_ok "holds_preparation_claim (connectorId cfg) k"
  "\<lambda>t. savePreparedSubmission cfg now k t context inp" thrown
proof
  show "thrown (fst (savePreparedSubmission cfg now k t context inp db)) \<and>
      snd (savePreparedSubmission cfg now k t context inp db) = db"
    if "keys_ok db" "\<not> holds_preparation_claim (connectorId cfg) k t db" for t db
    using not_claimant(3) [OF that, of now] by (auto simp: savePreparedSubmission_def savePrepared_tx_def transaction_def)
qed (rule holder_unique)

interpretation fenced_queue: fenced_lease keys_ok "holds_preparation_claim (connectorId cfg) k"
  "\<lambda>t. markQueued cfg now k t context" thrown
proof
  show "thrown (fst (markQueued cfg now k t context db)) \<and> snd (markQueued cfg now k t context db) = db"
    if keys: "keys_ok db" and no: "\<not> holds_preparation_claim (connectorId cfg) k t db" for t db
  proof (cases "findWorkflow cfg k db")
    case (Some w)
    have held: "(case prep_of db (connectorId cfg) k of None \<Rightarrow> False | Some p \<Rightarrow> holds_preparation t p) = False"
      using no by (auto simp: holds_preparation_claim_def holds_preparation_def preparer_def split: option.splits)
    have "cnt_exec (connectorId cfg) k (\<lambda>_. False) X = 0" for X
      by (simp add: cnt_exec_def row_count_def)
    then show ?thesis using Some held by (simp add: markQueued_def transaction_def Let_def)
  qed (simp add: markQueued_def transaction_def)
qed (rule holder_unique)

interpretation fenced_fail_preparation: fenced_lease keys_ok "holds_preparation_claim (connectorId cfg) k"
  "\<lambda>t. failPreparation cfg now k t err retry after" told_no
proof
  show "told_no (fst (failPreparation cfg now k t err retry after db)) \<and>
      snd (failPreparation cfg now k t err retry after db) = db"
    if "keys_ok db" "\<not> holds_preparation_claim (connectorId cfg) k t db" for t db
  proof -
    have "cnt_prep (connectorId cfg) k (\<lambda>p. preparer t p \<and> prep_attempt_count p < MAX_PREPARATION_ATTEMPTS) db = 0"
      by (rule not_holder(2) [OF that]) simp
    then show ?thesis
      by (simp add: failPreparation_def schedule_retry_def terminal_failure_def transaction_def Let_def upd_none
          not_claimant [OF that] del: MAX_PREPARATION_ATTEMPTS_def)
  qed
qed (rule holder_unique)

subsection \<open>The recovery claim and the notice claim\<close>

interpretation fenced_complete_recovery: fenced_lease keys_ok "holds_recovery (connectorId cfg) k"
  "\<lambda>t. completeSubmissionRecovery cfg now k t" told_no
proof
  show "told_no (fst (completeSubmissionRecovery cfg now k t db)) \<and> snd (completeSubmissionRecovery cfg now k t db) = db"
    if "keys_ok db" "\<not> holds_recovery (connectorId cfg) k t db" for t db
  proof -
    have "cnt_exec (connectorId cfg) k (\<lambda>e. owns_recovery t e \<and> P) db = 0" for P
      by (rule not_holder(3) [OF that]) simp
    then show ?thesis by (simp add: completeSubmissionRecovery_def transaction_def Let_def upd_none)
  qed
qed (rule holder_unique)

interpretation fenced_fail_recovery: fenced_lease keys_ok "holds_recovery (connectorId cfg) k"
  "\<lambda>t. failSubmissionRecovery cfg now k t err" told_no
  by unfold_locales
    (use not_holder(3) in \<open>auto simp: failSubmissionRecovery_def transaction_def Let_def upd_none dest: holder_unique\<close>)

interpretation fenced_unknown_recovery: fenced_lease keys_ok "holds_recovery (connectorId cfg) k"
  "\<lambda>t. recordUnknownRecoveryOutcome cfg now k t" told_no
  by unfold_locales
    (use not_holder(3) in \<open>auto simp: recordUnknownRecoveryOutcome_def transaction_def Let_def upd_none dest: holder_unique\<close>)

definition holds_notice :: "store_cfg \<Rightarrow> nat \<Rightarrow> uuid \<Rightarrow> db \<Rightarrow> bool" where
  "holds_notice cfg nid t db = (\<exists>n \<in> set (run_notices db). owns_notice cfg nid t n)"

lemma notice_holder_unique:
  assumes "ids_ok db" "holds_notice cfg nid t db" "holds_notice cfg nid t' db"
  shows "t' = t"
proof -
  obtain n n' where "n \<in> set (run_notices db)" "n' \<in> set (run_notices db)" "owns_notice cfg nid t n" "owns_notice cfg nid t' n'"
    using assms(2,3) by (auto simp: holds_notice_def)
  moreover from this have "notice_id n = notice_id n'" by (simp add: owns_notice_def)
  ultimately have "n = n'" using assms(1) by (auto simp: ids_ok_def distinct_map dest: inj_onD)
  then show ?thesis using \<open>owns_notice cfg nid t n\<close> \<open>owns_notice cfg nid t' n'\<close> by (simp add: owns_notice_def)
qed

lemma not_notice_holder:
  assumes "\<not> holds_notice cfg nid t db"
  shows "cnt_notice (owns_notice cfg nid t) db = 0" "upd_notice (owns_notice cfg nid t) g db = db"
proof -
  show "cnt_notice (owns_notice cfg nid t) db = 0"
    using assms by (simp add: holds_notice_def cnt_notice_def filter_empty_conv)
  have "map (\<lambda>r. if owns_notice cfg nid t r then g r else r) (run_notices db) = run_notices db"
    using assms by (intro map_idI) (simp add: holds_notice_def)
  then show "upd_notice (owns_notice cfg nid t) g db = db" by (simp add: upd_notice_def)
qed

interpretation fenced_complete_notice: fenced_lease ids_ok "holds_notice cfg nid"
  "\<lambda>t. completeNotice cfg now nid t d url" told_no
  by unfold_locales
    (auto simp: completeNotice_def transaction_def not_notice_holder dest: notice_holder_unique)

interpretation fenced_renew_notice: fenced_lease ids_ok "holds_notice cfg nid"
  "\<lambda>t. renewNoticeClaim cfg now nid t" told_no
  by unfold_locales (auto simp: renewNoticeClaim_def not_notice_holder dest: notice_holder_unique)

subsection \<open>Taking a claim over\<close>

lemma claimed_holds:
  assumes "keys_ok db" "claimPublication cfg now t k db = (Inr (Some u), db')"
  shows "u = t \<and> keys_ok db' \<and> holds_publication (connectorId cfg) k t db'"
proof -
  let ?q = "\<lambda>b. publishable db (connectorId cfg) k \<and> publication_open cfg now b"
  obtain b where b: "pick_pub (connectorId cfg) k ?q db = Some b"
    using assms(2) by (auto simp: claimPublication_def transaction_def Let_def split: option.splits)
  then have "pub_of db (connectorId cfg) k = Some b" "?q b" by (simp_all add: pick_axis_Some [OF assms(1)])
  with assms b show ?thesis
    by (auto simp: claimPublication_def transaction_def Let_def appendClaimEvent_def holds_publication_def publisher_def)
qed

lemmas publication_fences =
  fenced_complete.overtaken fenced_fail.overtaken fenced_renew.overtaken fenced_initialize.overtaken
  fenced_complete_step.overtaken fenced_fail_step.overtaken fenced_settle.overtaken

lemmas preparation_fences =
  fenced_renew_preparation.overtaken fenced_checkpoint.overtaken fenced_reserve.overtaken
  fenced_settle_candidate.overtaken fenced_save.overtaken fenced_queue.overtaken fenced_fail_preparation.overtaken

lemmas recovery_fences =
  fenced_complete_recovery.overtaken fenced_fail_recovery.overtaken fenced_unknown_recovery.overtaken

text \<open>The claim of a step commits a second transaction before it throws: whoever asks, it brings the status of the publication in line
  with its steps.\<close>

lemma stale_step_claim:
  assumes "keys_ok db" "\<not> holds_publication (connectorId cfg) k t' db"
  shows "requirePublicationStepClaim cfg now k t' key db =
     (Inl (StepError NotClaimable), derivePublicationStatus now (connectorId cfg) k db)"
  using not_owner [OF assms]
  by (simp add: requirePublicationStepClaim_def claimPublicationStep_def exhaustion_tx_def needs_reconciliation_def transaction_def Let_def)

lemma derive_keeps_holder:
  assumes "keys_ok db" "holds_publication c k t db"
  shows "holds_publication c k t (derivePublicationStatus now c k db)"
proof -
  obtain b where "pub_of db c k = Some b" "publisher t b" using assms(2) by (auto simp: holds_publication_def split: option.splits)
  then show ?thesis
    by (simp add: holds_publication_def derive_pub_of [OF assms(1)] derived_row_def publisher_def derived_status_def)
qed

text \<open>C8. When a publisher takes a publication over, the publisher it took it from is fenced off: completing, failing, renewing,
  planning steps, completing, failing and settling a step are all refused and write nothing. Its claim of a step is refused too; that call
  derives the status of the publication from its steps before it throws, as it does for every caller, and leaves the steps and the new
  claim as they are.\<close>

theorem overtaken_publisher_fenced:
  assumes "keys_ok db" "claimPublication cfg now t k db = (Inr (Some u), db')" "t' \<noteq> t"
  shows "told_no (fst (completePublication cfg now' k t' db')) \<and> snd (completePublication cfg now' k t' db') = db' \<and>
     told_no (fst (failPublication cfg now' k t' err retry db')) \<and> snd (failPublication cfg now' k t' err retry db') = db' \<and>
     told_no (fst (renewPublicationClaim cfg now' k t' db')) \<and> snd (renewPublicationClaim cfg now' k t' db') = db' \<and>
     thrown (fst (initializePublicationSteps cfg now' k t' keys db')) \<and>
       snd (initializePublicationSteps cfg now' k t' keys db') = db' \<and>
     told_no (fst (completePublicationStep cfg now' k t' key rid url db')) \<and>
       snd (completePublicationStep cfg now' k t' key rid url db') = db' \<and>
     told_no (fst (failPublicationStep cfg now' k t' key err retryOpt db')) \<and>
       snd (failPublicationStep cfg now' k t' key err retryOpt db') = db' \<and>
     told_no (fst (settleExhaustedPublicationStep cfg now' k t' key outcome db')) \<and>
       snd (settleExhaustedPublicationStep cfg now' k t' key outcome db') = db' \<and>
     requirePublicationStepClaim cfg now' k t' key db' =
       (Inl (StepError NotClaimable), derivePublicationStatus now' (connectorId cfg) k db') \<and>
     steps_of (snd (requirePublicationStepClaim cfg now' k t' key db')) (connectorId cfg) k = steps_of db' (connectorId cfg) k \<and>
     holds_publication (connectorId cfg) k t (snd (requirePublicationStepClaim cfg now' k t' key db'))"
proof -
  from claimed_holds [OF assms(1,2)]
  have ok: "keys_ok db'" and t: "holds_publication (connectorId cfg) k t db'" by simp_all
  have "\<not> holds_publication (connectorId cfg) k t' db'" using holder_unique(1) [OF t] assms(3) by blast
  note claim = stale_step_claim [OF ok this]
  show ?thesis
    by (intro conjI) (use publication_fences [OF ok t assms(3)] claim derive_keeps_holder [OF ok t] in simp_all)
qed

theorem overtaken_publisher_fenced_witness:
  "snd (completePublicationStep demo_cfg 5001 ''run-1'' 2 ''comment'' (Some ''7'') None
     (snd (claimPublication demo_cfg 5000 4 ''run-1'' demo_uncertain))) =
   snd (claimPublication demo_cfg 5000 4 ''run-1'' demo_uncertain) \<and>
   fst (requirePublicationStepClaim demo_cfg 5001 ''run-1'' 2 ''comment''
     (snd (claimPublication demo_cfg 5000 4 ''run-1'' demo_uncertain))) = Inl (StepError NotClaimable)"
proof -
  have "fst (claimPublication demo_cfg 5000 4 ''run-1'' demo_uncertain) = Inr (Some 4)" by code_simp
  then have "claimPublication demo_cfg 5000 4 ''run-1'' demo_uncertain =
      (Inr (Some 4), snd (claimPublication demo_cfg 5000 4 ''run-1'' demo_uncertain))"
    by (metis prod.collapse)
  from overtaken_publisher_fenced [OF invD(1) [OF reachable_invD [OF demo_parked_reachable(2)]] this, of 2]
  show ?thesis by simp
qed

text \<open>While one preparer holds the claim of a run, every call with another token is refused and writes nothing:
  renewing, checkpointing, reserving and settling a bundle, saving the submission, queueing and failing.\<close>

theorem stale_preparer_fenced:
  assumes "keys_ok db" "prep_of db (connectorId cfg) k = Some p" "prep_status p = PrepPreparing"
    "prep_claim_token p = Some t" "t' \<noteq> t"
  shows "told_no (fst (renewPreparationClaim cfg now k t' db)) \<and> snd (renewPreparationClaim cfg now k t' db) = db \<and>
     thrown (fst (checkpointInput cfg now k t' inp db)) \<and> snd (checkpointInput cfg now k t' inp db) = db \<and>
     thrown (fst (reserve parse_url cfg now k t' intent db)) \<and> snd (reserve parse_url cfg now k t' intent db) = db \<and>
     thrown (fst (settleCandidate cfg now k t' d st db)) \<and> snd (settleCandidate cfg now k t' d st db) = db \<and>
     thrown (fst (savePreparedSubmission cfg now k t' context inp db)) \<and>
       snd (savePreparedSubmission cfg now k t' context inp db) = db \<and>
     thrown (fst (markQueued cfg now k t' context db)) \<and> snd (markQueued cfg now k t' context db) = db \<and>
     told_no (fst (failPreparation cfg now k t' err retry after db)) \<and>
       snd (failPreparation cfg now k t' err retry after db) = db"
proof -
  have t: "holds_preparation_claim (connectorId cfg) k t db"
    using assms(2-4) by (simp add: holds_preparation_claim_def preparer_def)
  show ?thesis using preparation_fences [OF assms(1) t assms(5)] by blast
qed

theorem stale_preparer_fenced_witness:
  "snd (markQueued demo_cfg 1 ''run-1'' 9 (JObj []) demo_admitted) = demo_admitted"
proof -
  have "map_option (\<lambda>p. (prep_status p, prep_claim_token p)) (prep_of demo_admitted (connectorId demo_cfg) ''run-1'') =
      Some (PrepPreparing, Some 1)"
    by code_simp
  then obtain p where p: "prep_of demo_admitted (connectorId demo_cfg) ''run-1'' = Some p" "prep_status p = PrepPreparing"
    "prep_claim_token p = Some 1"
    by auto
  have "(9::uuid) \<noteq> 1" by simp
  with stale_preparer_fenced [OF invD(1) [OF reachable_invD [OF demo_reachable(1)]] p] show ?thesis by blast
qed

text \<open>A replay whose recovery claim was taken over can neither accept, reject nor count its outcome.\<close>

theorem stale_recovery_fenced:
  assumes "keys_ok db" "exec_of db (connectorId cfg) k = Some e" "exec_status e = ExecUncertain"
    "exec_claim_token e = Some t" "t' \<noteq> t"
  shows "told_no (fst (completeSubmissionRecovery cfg now k t' db)) \<and> snd (completeSubmissionRecovery cfg now k t' db) = db \<and>
     told_no (fst (failSubmissionRecovery cfg now k t' err db)) \<and> snd (failSubmissionRecovery cfg now k t' err db) = db \<and>
     told_no (fst (recordUnknownRecoveryOutcome cfg now k t' db)) \<and>
       snd (recordUnknownRecoveryOutcome cfg now k t' db) = db"
proof -
  have t: "holds_recovery (connectorId cfg) k t db"
    using assms(2-4) by (simp add: holds_recovery_def owns_recovery_def)
  show ?thesis using recovery_fences [OF assms(1) t assms(5)] by blast
qed

theorem stale_recovery_fenced_witness:
  "snd (completeSubmissionRecovery demo_cfg 3 ''run-1'' 8 demo_replaying) = demo_replaying"
proof -
  have "map_option (\<lambda>e. (exec_status e, exec_claim_token e)) (exec_of demo_replaying (connectorId demo_cfg) ''run-1'') =
      Some (ExecUncertain, Some 3)"
    by code_simp
  then obtain e where e: "exec_of demo_replaying (connectorId demo_cfg) ''run-1'' = Some e" "exec_status e = ExecUncertain"
    "exec_claim_token e = Some 3"
    by auto
  have "(8::uuid) \<noteq> 3" by simp
  with stale_recovery_fenced [OF invD(1) [OF reachable_invD [OF demo_lost_reachable(2)]] e] show ?thesis by blast
qed

end
