(* ===== verification/Publishing.thy ===== *)
theory Publishing
  imports Connector Coordination
begin

text \<open>
  What the connector's publisher keeps and reaches. A pass performs store operations only, so it leads from reachable states to
  reachable states whatever fails on the way; a step that it reports as published is recorded as succeeded with what was published; a
  refusal of Review Runs arrives as the error the store threw and is never retried; a quiet pass publishes the run. Three behaviours
  of the failure paths are not what the code says of itself.
\<close>

subsection \<open>Publisher actions are made of store operations\<close>

lemma beat_world [simp]:
  "w_db (beat cn w) = w_db w" "w_turns (beat cn w) = w_turns w" "w_calls (beat cn w) = w_calls w" "fair (beat cn w) = fair w"
  by (simp_all add: beat_def fair_def)

lemma lost_world [simp]: "fair (w\<lparr>w_lost := b\<rparr>) = fair w"
  by (simp add: fair_def)

lemma stays_lost:
  assumes "stays m"
  shows "stays (\<lambda>w. m (w\<lparr>w_lost := f w\<rparr>))"
  unfolding stays_def using staysD [OF assms, of "w\<lparr>w_lost := f w\<rparr>" for w] by simp

lemma stays_beat: "stays m \<Longrightarrow> stays (\<lambda>w. m (beat cn w))"
  unfolding beat_def by (rule stays_lost)

lemma stays_remote [acts]: "(\<And>cfg now db. store_step db (snd (op cfg now db))) \<Longrightarrow> stays (remote cn k key op)"
  unfolding remote_def by (rule stays_beat) (rule stays_store)

lemma stays_remote_read [acts]: "stays (remote cn k key (\<lambda>cfg now db. (f cfg now db, db)))"
  unfolding remote_def by (rule stays_beat) (rule stays_call, simp)

lemma stays_finishing [acts]:
  assumes "stays m" "stays f"
  shows "stays (finishing m f)"
  unfolding stays_def
proof (intro allI impI)
  fix w assume "fair w"
  note m = staysD [OF assms(1) this]
  note f = staysD [OF assms(2) m(3)]
  show "store_step\<^sup>*\<^sup>* (w_db w) (w_db (snd (finishing m f w))) \<and> w_turns (snd (finishing m f w)) = w_turns w"
    using m f by (auto simp: finishing_def split_beta split: sum.split)
qed

lemma stays_await_active [acts]: "stays (await_active cn k)"
  by (simp add: stays_def await_active_def)

lemma stays_still_owned [acts]: "stays still_owned"
  by (simp add: stays_def still_owned_def)

lemmas publication_calls = store_step.claimPublicationStep store_step.exhaustion store_step.settleExhaustedPublicationStep
  store_step.completePublicationStep store_step.failPublicationStep store_step.initializePublicationSteps
  store_step.renewPublicationClaim store_step.completePublication store_step.failPublication store_step.claimNextOnce

lemma stays_renewSerially [acts]: "stays (renewSerially cn k tok)"
proof -
  have renew: "stays (remote cn k [] (\<lambda>cfg now. renewPublicationClaim cfg now k tok))" by (intro acts publication_calls)
  show ?thesis
    unfolding stays_def
    using staysD [OF renew, of "beat cn w" for w] by (auto simp: renewSerially_def Let_def split_beta split: sum.split bool.split)
qed

lemma stays_settle [acts]: "stays look \<Longrightarrow> stays (settleExhaustedStep cn k tok key look)"
  unfolding settleExhaustedStep_def by (intro acts publication_calls)

lemma stays_step_calls [acts]:
  "stays (listSteps cn k)" "stays (requireStepClaim cn k tok key)" "stays (completeStep cn k tok key r)"
  "stays (failStep cn k tok key err)" "stays (initSteps cn k tok keys)" "stays (failWork cn work failure retry)"
  unfolding listSteps_def requireStepClaim_def completeStep_def failStep_def initSteps_def failWork_def Let_def
  by (intro acts publication_calls)+

lemma stays_settle_case [acts]:
  "(\<And>r. stays (f r)) \<Longrightarrow> stays m \<Longrightarrow> stays m' \<Longrightarrow>
    stays (case x of RecordedSucceeded r \<Rightarrow> f r | RecordedTerminalFailed \<Rightarrow> m | NotOwned \<Rightarrow> m')"
  by (cases x) simp_all

lemma stays_performStep [acts]: "stays a \<Longrightarrow> stays effect \<Longrightarrow> stays (performStep cn k tok key a effect n)"
  unfolding performStep_def Let_def by (intro acts)

lemma stays_claimOrReconcile [acts]: "stays look \<Longrightarrow> stays (claimOrReconcile cn k tok key look)"
  unfolding claimOrReconcile_def by (intro acts)

lemma stays_runPublicationStep [acts]:
  "stays a \<Longrightarrow> stays look \<Longrightarrow> stays effect \<Longrightarrow> stays (runPublicationStep cn k tok key a look effect)"
  unfolding runPublicationStep_def Let_def by (intro acts)

text \<open>GitHub has no access to the store: its side of a publication only asserts the claim.\<close>

definition github_apart :: "github \<Rightarrow> bool" where
  "github_apart gh \<longleftrightarrow>
     (\<forall>c. stays (gh_octokit gh c)) \<and> (\<forall>key published. stays (gh_find gh key published)) \<and>
     (\<forall>key published a. stays a \<longrightarrow> stays (gh_effect gh key published a))"

lemma github_apartD:
  assumes "github_apart gh"
  shows "stays (gh_octokit gh c)" "stays (gh_find gh key published)" "stays a \<Longrightarrow> stays (gh_effect gh key published a)"
  using assms by (simp_all add: github_apart_def)

lemma stays_deliveries:
  assumes gh: "github_apart gh" and a: "stays a"
  shows "stays (publish_deliveries cn gh k tok a ss ds)"
proof -
  note apart = github_apartD [OF gh]
  show ?thesis
    by (induction ds) (simp_all add: acts, unfold publishDelivery_def publishOrReconcileDeliveryDraftPr_def Let_def,
        intro acts apart a)
qed

lemma stays_publishers:
  assumes gh: "github_apart gh" and a: "stays a"
  shows "stays (handleIssueReviewRun cn gh k ctx result tok a)" "stays (handlePullRequestReviewRun cn gh k ctx result tok a)"
    "stays (handleRepositoryReviewRun cn gh k ctx result tok a)"
proof -
  note apart = github_apartD [OF gh]
  show "stays (handleIssueReviewRun cn gh k ctx result tok a)" "stays (handlePullRequestReviewRun cn gh k ctx result tok a)"
    unfolding handleIssueReviewRun_def handlePullRequestReviewRun_def publishPullRequestReviewResult_def openHandler_def runStep_def Let_def
    by (intro acts apart a)+
  show "stays (handleRepositoryReviewRun cn gh k ctx result tok a)"
    unfolding handleRepositoryReviewRun_def openHandler_def runStep_def publishDeliveryDraftPrs_def
      claimOrReconcileSummaryIssue_def Let_def
    by (intro acts apart a stays_deliveries gh)
qed

lemma stays_publishWork: "github_apart gh \<Longrightarrow> stays a \<Longrightarrow> stays (publishWork cn gh work a)"
  unfolding publishWork_def Let_def by (cases "rec_workflow (pbw_record work)") (simp_all add: stays_publishers)

lemma stays_withHeartbeat:
  assumes "stays operation"
  shows "stays (withPublicationHeartbeat cn k tok operation)"
proof -
  let ?rest = "andThen (remote cn k [] (\<lambda>cfg now db. (Inr (publicationHeartbeatIntervalMs cfg), db))) (\<lambda>intervalMs.
      finishing (andThen operation (\<lambda>_. andThen (await_active cn k) (\<lambda>_.
        catch (andThen (renewSerially cn k tok) (\<lambda>_. still_owned)) (\<lambda>_. ret False)))) (await_active cn k))"
  have rest: "stays ?rest" by (intro acts assms)
  show ?thesis
    unfolding stays_def
  proof (intro allI impI)
    fix w assume "fair w"
    then have renewed: "fair (w\<lparr>w_lost := False\<rparr>)" by simp
    note r = staysD [OF stays_renewSerially renewed, of cn k tok]
    show "store_step\<^sup>*\<^sup>* (w_db w) (w_db (snd (withPublicationHeartbeat cn k tok operation w))) \<and>
        w_turns (snd (withPublicationHeartbeat cn k tok operation w)) = w_turns w"
      using r staysD [OF rest r(3)] by (auto simp: withPublicationHeartbeat_def split_beta split: sum.split)
  qed
qed

lemma stays_publishReviewRunsOnce: "github_apart gh \<Longrightarrow> stays (publishReviewRunsOnce cn gh)"
proof -
  assume gh: "github_apart gh"
  have claim: "stays (claimNextWork cn gh)"
    unfolding claimNextWork_def by (intro acts stays_beat publication_calls)
  show ?thesis
    unfolding publishReviewRunsOnce_def concludeWork_def abandonWork_def Let_def
    by (intro acts claim stays_withHeartbeat stays_publishWork gh publication_calls)
qed

subsection \<open>A step that is reported published is recorded\<close>

definition recorded :: "db \<Rightarrow> string \<Rightarrow> string \<Rightarrow> string \<Rightarrow> remote_ref \<Rightarrow> bool" where
  "recorded db c k key r \<longleftrightarrow>
     (\<exists>s \<in> set (steps_of db c k). step_key s = key \<and> step_status s = StepSucceeded \<and>
        (step_remote_object_id s, step_remote_object_url s) = r)"

lemma recorded_advances: "advances db db' \<Longrightarrow> recorded db c k key r \<Longrightarrow> recorded db' c k key r"
  unfolding recorded_def advances_def deliveries_kept_def same_delivery_def by metis

lemma cnt_step_mem: "cnt_step c k q db \<noteq> 0 \<Longrightarrow> \<exists>s \<in> set (steps_of db c k). q s"
  by (auto simp: cnt_step_def row_count_def steps_of_def rows_at_def filter_empty_conv)

lemma recorded_update:
  assumes "cnt_step c k q db \<noteq> 0" "\<And>s. q s \<Longrightarrow> step_key s = key"
  shows "recorded (upd_step c k q (succeeded_step now rid url) db) c k key (rid, url)"
proof -
  obtain s where s: "s \<in> set (steps_of db c k)" "q s" using cnt_step_mem [OF assms(1)] by blast
  then have "succeeded_step now rid url s \<in> set (steps_of (upd_step c k q (succeeded_step now rid url) db) c k)"
    by (auto intro!: image_eqI [of _ _ s])
  then show ?thesis
    using assms(2) [OF s(2)] unfolding recorded_def
    by (intro bexI [of _ "succeeded_step now rid url s"]) (simp_all add: succeeded_step_def)
qed

lemma recorded_same [simp]: "recorded (derivePublicationStatus now c' k' db) c k key r = recorded db c k key r"
  by (simp add: recorded_def)

lemma complete_recorded:
  "fst (completePublicationStep cfg now k tok key rid url db) = Inr True \<Longrightarrow>
    recorded (snd (completePublicationStep cfg now k tok key rid url db)) (connectorId cfg) k key (rid, url)"
  by (auto simp: completePublicationStep_def transaction_def Let_def split: if_splits intro!: recorded_update)

lemma settle_recorded:
  "fst (settleExhaustedPublicationStep cfg now k tok key (Found rid url) db) = Inr True \<Longrightarrow>
    recorded (snd (settleExhaustedPublicationStep cfg now k tok key (Found rid url) db)) (connectorId cfg) k key (rid, url)"
  by (auto simp: settleExhaustedPublicationStep_def transaction_def Let_def split: if_splits intro!: recorded_update)

lemma listed_recorded:
  assumes "List.find (\<lambda>s. psr_step_key s = key) (listPublicationSteps cfg k db) = Some s" "psr_status s = StepSucceeded"
  shows "recorded db (connectorId cfg) k key (recordedRemote s)"
  using assms unfolding recorded_def
  by (auto simp: listPublicationSteps_def find_Some_iff step_record_def recordedRemote_def)
    (metis (mono_tags, lifting) length_sort nth_mem set_sort publication_step_record.select_convs)

lemma getRun_id: "fst (getRun cfg k db) = Some r \<Longrightarrow> rec_run_id r = k"
  by (auto simp: getRun_def findRunRow_def rowToRecord_def Let_def split: option.splits sum.splits if_splits dest!: find_SomeD)

text \<open>What an action leaves behind when it returns, from reachable states.\<close>

definition leaves :: "'a act \<Rightarrow> ('a \<Rightarrow> db \<Rightarrow> bool) \<Rightarrow> bool" where
  "leaves m P \<longleftrightarrow> (\<forall>w a. fair w \<and> reachable (w_db w) \<and> fst (m w) = Inr a \<longrightarrow> P a (w_db (snd (m w))))"

lemma stays_reachable: "stays m \<Longrightarrow> fair w \<Longrightarrow> reachable (w_db w) \<Longrightarrow> reachable (w_db (snd (m w)))"
  using staysD(1) [of m w] by (auto simp: reachable_def elim: rtranclp_trans)

lemma stays_advances: "stays m \<Longrightarrow> fair w \<Longrightarrow> reachable (w_db w) \<Longrightarrow> advances (w_db w) (w_db (snd (m w)))"
  using store.dir_steps [OF staysD(1) reachable_invD] .

lemma leaves_andThen:
  assumes "stays m" "\<And>a. leaves (f a) P"
  shows "leaves (andThen m f) P"
  unfolding leaves_def
proof (intro allI impI, elim conjE)
  fix w b assume w: "fair w" "reachable (w_db w)" "fst (andThen m f w) = Inr b"
  then obtain a where "fst (m w) = Inr a" by (auto simp: andThen_def split_beta split: sum.splits)
  then show "P b (w_db (snd (andThen m f w)))"
    using w staysD(3) [OF assms(1) w(1)] stays_reachable [OF assms(1) w(1,2)] assms(2) [of a]
    by (auto simp: andThen_def split_beta leaves_def)
qed

text \<open>What a later action cannot undo stays.\<close>

lemma leaves_kept:
  assumes "stays m" "leaves m P" "\<And>a. stays (f a)" "\<And>a db db'. advances db db' \<Longrightarrow> P a db \<Longrightarrow> P a db'"
  shows "leaves (andThen m f) (\<lambda>b db. \<exists>a. P a db)"
  unfolding leaves_def
proof (intro allI impI, elim conjE)
  fix w b assume w: "fair w" "reachable (w_db w)" "fst (andThen m f w) = Inr b"
  then obtain a where a: "fst (m w) = Inr a" by (auto simp: andThen_def split_beta split: sum.splits)
  then have "P a (w_db (snd (m w)))" using assms(2) w by (auto simp: leaves_def)
  moreover have "advances (w_db (snd (m w))) (w_db (snd (f a (snd (m w)))))"
    using staysD(3) [OF assms(1) w(1)] stays_reachable [OF assms(1) w(1,2)] by (rule stays_advances [OF assms(3)])
  ultimately have "P a (w_db (snd (f a (snd (m w)))))" using assms(4) by blast
  then show "\<exists>a. P a (w_db (snd (andThen m f w)))" using a by (auto simp: andThen_def split_beta)
qed

lemma leaves_simps [simp]: "leaves (throw err) P"
  by (simp add: leaves_def throw_def)

lemma leaves_ret: "(\<And>db. P a db) \<Longrightarrow> leaves (ret a) P"
  by (simp add: leaves_def ret_def)

lemma leaves_if: "(b \<Longrightarrow> leaves m P) \<Longrightarrow> (\<not> b \<Longrightarrow> leaves n P) \<Longrightarrow> leaves (if b then m else n) P"
  by simp

lemma leaves_catch:
  assumes "leaves m P" "stays m" "\<And>err. leaves (h err) P"
  shows "leaves (catch m h) P"
  unfolding leaves_def
proof (intro allI impI, elim conjE)
  fix w b assume w: "fair w" "reachable (w_db w)" "fst (catch m h w) = Inr b"
  show "P b (w_db (snd (catch m h w)))"
  proof (cases "fst (m w)")
    case (Inl err)
    then show ?thesis
      using w staysD(3) [OF assms(2) w(1)] stays_reachable [OF assms(2) w(1,2)] assms(3) [of err]
      by (auto simp: catch_def split_beta leaves_def)
  next
    case (Inr a)
    then show ?thesis using w assms(1) by (auto simp: catch_def split_beta leaves_def)
  qed
qed

lemma remote_InrD:
  assumes "fst (remote cn k key op w) = Inr a"
  shows "\<exists>now db. fst (op (cn_cfg cn) now db) = Inr a \<and> w_db (snd (remote cn k key op w)) = snd (op (cn_cfg cn) now db)"
  using assms unfolding remote_def call_with_def Let_def split_beta
  by (cases "turn_fault (w_turns w (w_calls w))") (auto split: sum.splits)

lemma leaves_remote:
  assumes "\<And>now db a. fst (op (cn_cfg cn) now db) = Inr a \<Longrightarrow> P a (snd (op (cn_cfg cn) now db))"
  shows "leaves (remote cn k key op) P"
  unfolding leaves_def using remote_InrD [of cn k key op] assms by metis

text \<open>A check on the value of the last store call.\<close>

lemma leaves_checked:
  assumes "leaves m P" "\<And>a w b. fst (f a w) = Inr b \<Longrightarrow> snd (f a w) = w \<and> (\<forall>db. P a db \<longrightarrow> Q b db)"
  shows "leaves (andThen m f) Q"
  unfolding leaves_def
proof (intro allI impI, elim conjE)
  fix w b assume w: "fair w" "reachable (w_db w)" "fst (andThen m f w) = Inr b"
  then obtain a where a: "fst (m w) = Inr a" by (auto simp: andThen_def split_beta split: sum.splits)
  then show "Q b (w_db (snd (andThen m f w)))"
    using w assms(1) assms(2) [of a "snd (m w)" b] by (auto simp: andThen_def split_beta leaves_def)
qed

lemma leaves_performStep:
  assumes "stays a" "stays effect"
  shows "leaves (performStep cn k tok key a effect n) (\<lambda>run db. recorded db (connectorId (cn_cfg cn)) k key (run_remote run))"
proof -
  let ?P = "\<lambda>run db. recorded db (connectorId (cn_cfg cn)) k key (run_remote run)"
  have complete: "leaves (completeStep cn k tok key r) (\<lambda>done db. done \<longrightarrow> recorded db (connectorId (cn_cfg cn)) k key r)" for r
    unfolding completeStep_def using complete_recorded [of "cn_cfg cn" _ k tok key "fst r" "snd r"]
    by (intro leaves_remote) auto
  show ?thesis
    unfolding performStep_def Let_def
    by (intro leaves_catch leaves_andThen acts assms leaves_checked [OF complete])
      (auto simp: throw_def ret_def leaves_def andThen_def split: if_splits sum.splits prod.splits)
qed

lemma leaves_bind:
  assumes "stays m" "leaves m P"
    "\<And>a db. P a db \<Longrightarrow> leaves (f a) Q \<or> (\<exists>b. f a = ret b \<and> (\<forall>db. P a db \<longrightarrow> Q b db))"
  shows "leaves (andThen m f) Q"
  unfolding leaves_def
proof (intro allI impI, elim conjE)
  fix w b assume w: "fair w" "reachable (w_db w)" "fst (andThen m f w) = Inr b"
  then obtain a where a: "fst (m w) = Inr a" by (auto simp: andThen_def split_beta split: sum.splits)
  then have P: "P a (w_db (snd (m w)))" using assms(2) w by (auto simp: leaves_def)
  from assms(3) [OF P] show "Q b (w_db (snd (andThen m f w)))"
  proof
    assume "leaves (f a) Q"
    then show ?thesis
      using a w staysD(3) [OF assms(1) w(1)] stays_reachable [OF assms(1) w(1,2)]
      by (auto simp: andThen_def split_beta leaves_def)
  next
    assume "\<exists>b. f a = ret b \<and> (\<forall>db. P a db \<longrightarrow> Q b db)"
    then show ?thesis using a w P by (auto simp: andThen_def split_beta ret_def)
  qed
qed

lemma leaves_listSteps:
  "leaves (listSteps cn k) (\<lambda>steps db. \<forall>key s. List.find (\<lambda>s. psr_step_key s = key) steps = Some s \<longrightarrow>
     psr_status s = StepSucceeded \<longrightarrow> recorded db (connectorId (cn_cfg cn)) k key (recordedRemote s))"
proof -
  have run: "leaves (remote cn k [] (\<lambda>cfg now db. (Inr (fst (getRun cfg k db)), db)))
      (\<lambda>found db. \<forall>r. found = Some r \<longrightarrow> rec_run_id r = k)"
    by (rule leaves_remote) (auto dest: getRun_id)
  show ?thesis
    unfolding listSteps_def
    by (rule leaves_bind [OF _ run]) (intro acts, rule disjI1, auto split: option.split intro!: leaves_remote listed_recorded)
qed

lemma leaves_settle:
  assumes "stays look"
  shows "leaves (settleExhaustedStep cn k tok key look)
     (\<lambda>out db. \<forall>r. out = RecordedSucceeded r \<longrightarrow> recorded db (connectorId (cn_cfg cn)) k key r)"
proof -
  have settle: "leaves (remote cn k key (\<lambda>cfg now. settleExhaustedPublicationStep cfg now k tok key
        (case found of None \<Rightarrow> Absent | Some r \<Rightarrow> Found (fst r) (snd r))))
      (\<lambda>done db. done \<longrightarrow> (\<forall>r. found = Some r \<longrightarrow> recorded db (connectorId (cn_cfg cn)) k key r))" for found
    using settle_recorded [of "cn_cfg cn" _ k tok key] by (intro leaves_remote) (auto split: option.splits)
  show ?thesis
    unfolding settleExhaustedStep_def
    by (intro leaves_andThen assms leaves_checked [OF settle]) (auto simp: ret_def split: if_splits option.splits)
qed

lemma leaves_claimOrReconcile:
  assumes "stays look"
  shows "leaves (claimOrReconcile cn k tok key look)
     (\<lambda>concluded db. \<forall>r. concluded = Some r \<longrightarrow> recorded db (connectorId (cn_cfg cn)) k key r)" (is "leaves _ ?Q")
proof -
  have reconcile: "leaves (andThen (settleExhaustedStep cn k tok key look)
      (\<lambda>settled. case settled of RecordedSucceeded r \<Rightarrow> ret (Some r) | _ \<Rightarrow> throw err)) ?Q" for err
    by (rule leaves_checked [OF leaves_settle [OF assms]]) (auto simp: ret_def throw_def split: settle_result.splits)
  show ?thesis
    unfolding claimOrReconcile_def
    by (intro leaves_catch leaves_andThen acts leaves_if leaves_simps reconcile leaves_ret) simp
qed

lemma leaves_run_step:
  assumes "stays a" "stays look" "stays effect"
  shows "leaves (runPublicationStep cn k tok key a look effect)
     (\<lambda>run db. recorded db (connectorId (cn_cfg cn)) k key (run_remote run))" (is "leaves _ ?P")
proof -
  have claim: "leaves (andThen (claimOrReconcile cn k tok key look) (\<lambda>concluded. case concluded of
        Some r \<Rightarrow> ret \<lparr>run_remote = r, run_alreadySucceeded = True, run_reconciled = True, run_previousAttempts = n\<rparr>
      | None \<Rightarrow> performStep cn k tok key a effect n)) ?P" for n
    by (rule leaves_bind [OF _ leaves_claimOrReconcile [OF assms(2)]])
      (intro acts assms, auto simp: leaves_performStep [OF assms(1,3)] split: option.split)
  show ?thesis
    unfolding runPublicationStep_def Let_def
  proof (rule leaves_bind [OF stays_step_calls(1) leaves_listSteps], goal_cases)
    case (1 steps db)
    show ?case
    proof (cases "\<exists>s. List.find (\<lambda>s. psr_step_key s = key) steps = Some s \<and> psr_status s = StepSucceeded")
      case True
      then show ?thesis by (intro disjI2) auto
    next
      case False
      then show ?thesis by (intro disjI1) (auto simp: claim split: option.split)
    qed
  qed
qed

subsection \<open>The publishers deliver what they plan\<close>

definition delivered :: "db \<Rightarrow> string \<Rightarrow> string \<Rightarrow> string \<Rightarrow> bool" where
  "delivered db c k key \<longleftrightarrow> (\<exists>r. recorded db c k key r)"

lemma deliveredI: "recorded db c k key r \<Longrightarrow> delivered db c k key"
  unfolding delivered_def by blast

lemma delivered_advances: "advances db db' \<Longrightarrow> delivered db c k key \<Longrightarrow> delivered db' c k key"
  unfolding delivered_def using recorded_advances by blast

lemma leaves_conj: "leaves m P \<Longrightarrow> leaves m Q \<Longrightarrow> leaves m (\<lambda>a db. P a db \<and> Q a db)"
  by (simp add: leaves_def)

lemma leaves_weaken: "leaves m P \<Longrightarrow> (\<And>a db. P a db \<Longrightarrow> Q a db) \<Longrightarrow> leaves m Q"
  by (simp add: leaves_def)

lemma leaves_await: "leaves (await x) (\<lambda>a db. x = Inr a)"
  by (simp add: leaves_def await_def)

lemma leaves_andThen_weak: "leaves m P \<Longrightarrow> stays m \<Longrightarrow> (\<And>a db. P a db \<Longrightarrow> leaves (f a) Q) \<Longrightarrow> leaves (andThen m f) Q"
  by (rule leaves_bind) blast+

text \<open>A delivery that happens in an action is still there after the rest.\<close>

lemma leaves_delivered:
  assumes "stays m" "leaves m (\<lambda>a db. b \<longrightarrow> delivered db c k key)" "\<And>a. stays (f a)"
  shows "leaves (andThen m f) (\<lambda>_ db. b \<longrightarrow> delivered db c k key)"
  using leaves_kept [OF assms] delivered_advances by (auto simp: leaves_def)

lemma leaves_runStep:
  assumes "github_apart gh" "stays a"
  shows "leaves (runStep cn gh k tok a published key) (\<lambda>run db. b \<longrightarrow> delivered db (connectorId (cn_cfg cn)) k key)"
  unfolding runStep_def using github_apartD [OF assms(1)] assms(2)
  by (intro leaves_weaken [OF leaves_run_step]) (auto intro: deliveredI)

lemma stays_runStep [acts]: "github_apart gh \<Longrightarrow> stays a \<Longrightarrow> stays (runStep cn gh k tok a published key)"
  unfolding runStep_def using github_apartD [of gh] by (intro acts) auto

lemma stays_openHandler [acts]: "github_apart gh \<Longrightarrow> stays (openHandler gh workflow ctx result)"
  unfolding openHandler_def using github_apartD [of gh] by (intro acts) auto

lemma leaves_openHandler:
  assumes "github_apart gh"
  shows "leaves (openHandler gh workflow ctx result) (\<lambda>parsed db. gh_context gh workflow ctx = Inr parsed)"
  unfolding openHandler_def using github_apartD(1) [OF assms]
  by (intro leaves_andThen_weak [OF leaves_await] leaves_andThen leaves_ret acts) auto

lemma leaves_last_step:
  assumes "github_apart gh" "stays a"
  shows "leaves (andThen (runStep cn gh k tok a published key) (\<lambda>_. ret ()))
     (\<lambda>_ db. delivered db (connectorId (cn_cfg cn)) k key)"
  using leaves_delivered [OF _ leaves_runStep [OF assms, where b = True], where f = "\<lambda>_. ret ()"] assms by (simp add: acts)

lemma andThen_assoc: "andThen m (\<lambda>a. andThen (f a) g) = andThen (andThen m f) g"
  by (auto simp: fun_eq_iff andThen_def split: sum.split prod.split)

lemma leaves_issue_run:
  assumes "github_apart gh" "stays a"
  shows "leaves (handleIssueReviewRun cn gh k ctx result tok a) (\<lambda>_ db.
     delivered db (connectorId (cn_cfg cn)) k ''issue:summary-comment'' \<and>
     (\<forall>parsed. gh_context gh IssueReview ctx = Inr parsed \<longrightarrow> gh_patch_ready gh result = Inr True \<longrightarrow> gh_open_pr gh parsed \<longrightarrow>
        delivered db (connectorId (cn_cfg cn)) k ''issue:draft-pr''))"
proof -
  let ?c = "connectorId (cn_cfg cn)"
  have draft: "leaves (if b then andThen (runStep cn gh k tok a [] ''issue:draft-pr'') (\<lambda>step. ret (g step)) else ret [])
      (\<lambda>_ db. b \<longrightarrow> delivered db ?c k ''issue:draft-pr'')" for b g
    using leaves_delivered [OF _ leaves_runStep [OF assms, where b = True], where f = "\<lambda>step. ret (g step)"] assms
    by (auto simp: acts intro: leaves_ret)
  have steps: "leaves (andThen (if b then andThen (runStep cn gh k tok a [] ''issue:draft-pr'') (\<lambda>step. ret (g step)) else ret [])
        (\<lambda>draft. andThen (runStep cn gh k tok a draft ''issue:summary-comment'') (\<lambda>_. ret ())))
      (\<lambda>_ db. delivered db ?c k ''issue:summary-comment'' \<and> (b \<longrightarrow> delivered db ?c k ''issue:draft-pr''))" for b g
    by (intro leaves_conj leaves_andThen [OF _ leaves_last_step] leaves_delivered [OF _ draft] acts assms)
  show ?thesis
    unfolding handleIssueReviewRun_def Let_def
    by (intro leaves_andThen_weak [OF leaves_openHandler [OF assms(1)]] leaves_andThen_weak [OF leaves_await]
        leaves_andThen leaves_weaken [OF steps] acts assms) auto
qed

lemma leaves_pull_request_run:
  assumes "github_apart gh" "stays a"
  shows "leaves (handlePullRequestReviewRun cn gh k ctx result tok a)
     (\<lambda>_ db. delivered db (connectorId (cn_cfg cn)) k ''pull-request:review'')"
  unfolding handlePullRequestReviewRun_def publishPullRequestReviewResult_def by (intro leaves_last_step leaves_andThen acts assms)

lemma leaves_repository_run:
  assumes "github_apart gh" "stays a"
  shows "leaves (handleRepositoryReviewRun cn gh k ctx result tok a) (\<lambda>_ db.
     delivered db (connectorId (cn_cfg cn)) k ''repository:summary-issue'' \<and>
     delivered db (connectorId (cn_cfg cn)) k ''repository:summary-comment'')"
proof -
  let ?c = "connectorId (cn_cfg cn)"
  let ?issue = "\<lambda>steps. case List.find (\<lambda>s. psr_step_key s = ''repository:summary-issue'') steps of
      None \<Rightarrow> claimOrReconcileSummaryIssue cn gh k tok a
    | Some s \<Rightarrow> if psr_status s = StepSucceeded \<and> coalesce (psr_remote_object_id s) [] \<noteq> []
        then ret (recordedRemote s) else claimOrReconcileSummaryIssue cn gh k tok a"
  have claim: "stays (claimOrReconcileSummaryIssue cn gh k tok a)"
    unfolding claimOrReconcileSummaryIssue_def by (intro acts assms)
  have "leaves (claimOrReconcileSummaryIssue cn gh k tok a) (\<lambda>_ db. True \<longrightarrow> delivered db ?c k ''repository:summary-issue'')"
    unfolding claimOrReconcileSummaryIssue_def
    by (rule leaves_delivered [OF _ leaves_runStep [OF assms]]) (intro acts assms)+
  then have claimed: "leaves (claimOrReconcileSummaryIssue cn gh k tok a) (\<lambda>_ db. delivered db ?c k ''repository:summary-issue'')"
    by simp
  have summary: "leaves (andThen (listSteps cn k) ?issue) (\<lambda>_ db. delivered db ?c k ''repository:summary-issue'')"
  proof (rule leaves_bind [OF stays_step_calls(1) leaves_listSteps], goal_cases)
    case (1 steps db)
    show ?case
    proof (cases "\<exists>s. List.find (\<lambda>s. psr_step_key s = ''repository:summary-issue'') steps = Some s \<and>
        psr_status s = StepSucceeded \<and> coalesce (psr_remote_object_id s) [] \<noteq> []")
      case True
      then obtain s where s: "List.find (\<lambda>s. psr_step_key s = ''repository:summary-issue'') steps = Some s"
        "psr_status s = StepSucceeded" "coalesce (psr_remote_object_id s) [] \<noteq> []" by blast
      then show ?thesis by (intro disjI2 exI [of _ "recordedRemote s"]) (auto intro: deliveredI)
    next
      case False
      then show ?thesis by (intro disjI1) (auto simp: claimed split: option.split)
    qed
  qed
  have rest: "leaves (andThen (listSteps cn k) (\<lambda>steps. andThen (?issue steps) (\<lambda>issue.
        andThen (runStep cn gh k tok a (f issue) ''repository:summary-comment'') (\<lambda>_. ret ()))))
      (\<lambda>_ db. (True \<longrightarrow> delivered db ?c k ''repository:summary-issue'') \<and> delivered db ?c k ''repository:summary-comment'')" for f
    unfolding andThen_assoc [of "listSteps cn k" ?issue]
    by (intro leaves_conj leaves_delivered [OF _ leaves_weaken [OF summary]] leaves_andThen [OF _ leaves_last_step]
        acts assms claim) simp
  have deliveries: "stays (publishDeliveryDraftPrs cn gh k tok a ref ds)" for ref ds
    unfolding publishDeliveryDraftPrs_def by (intro acts stays_deliveries assms)
  show ?thesis
    unfolding handleRepositoryReviewRun_def Let_def
    by (intro leaves_andThen leaves_weaken [OF rest] acts assms deliveries) simp
qed

subsection \<open>Errors on the wire\<close>

text \<open>An error the store throws crosses the wire unchanged: from the status and the body the error handler of the service sends,
  the client rebuilds its status, its message and its code.\<close>

theorem refusal_round_trip:
  assumes "readBoundedResponseBody response MAX_REVIEW_RUNS_RESPONSE_BYTES = Inr body"
    "resp_status response = er_status (errorReply k key err)" "\<not> response_ok (er_status (errorReply k key err))"
    "parse_json (decode_text body) = Inr (errorBody (errorReply k key err))"
    "er_status (errorReply k key err) = 404 \<Longrightarrow> \<not> nullOn404"
  shows "clientRequest parse_json operation nullOn404 (Inr response) = Inl (http_error k key err)"
proof -
  have "parseHttpErrorBody parse_json (decode_text body) =
      (Some (er_error (errorReply k key err)), er_code (errorReply k key err))"
    using assms(4) by (simp add: parseHttpErrorBody_def errorBody_def split: option.split)
  then show ?thesis
    using assms(1-3,5) by (auto simp: clientRequest_def http_error_def status_error_def Let_def)
qed

definition demo_text :: string where
  "demo_text = ''{...}''"

theorem refusal_round_trip_witness:
  "clientRequest (\<lambda>s. if s = demo_text then Inr (errorBody (errorReply ''run-1'' ''comment'' (StepError RetryExhausted))) else Inl s)
     ''requirePublicationStepClaim'' False (Inr \<lparr>resp_status = 409, resp_content_length = Some ''5'', resp_body = Some [Chunk demo_text]\<rparr>) =
     Inl (http_error ''run-1'' ''comment'' (StepError RetryExhausted))"
proof -
  have "decode_text demo_text = demo_text" by code_simp
  then show ?thesis
    by (intro refusal_round_trip [of _ demo_text])
      (simp_all add: readBoundedResponseBody_def MAX_REVIEW_RUNS_RESPONSE_BYTES_def demo_text_def digits_value_def digit_def
        response_ok_def)
qed

text \<open>The publisher ends a publication on every refusal Review Runs declares terminal, with the code it names, and retries on every
  fault of the service itself; an exhausted step whose answer a proxy gave, or nobody, is retried.\<close>

theorem refusals_terminal:
  "fc_retry (classifyPublicationFailure (http_error k key (StepError c))) = False \<and>
   fc_scope (classifyPublicationFailure (http_error k key (StepError c))) = StepScope \<and>
   fc_code (classifyPublicationFailure (http_error k key (StepError c))) = Some (step_code_text c) \<and>
   fc_retry (classifyPublicationFailure (http_error k key (PlainError m))) \<and>
   fc_retry (classifyPublicationFailure (http_error k key (UniqueViolation m))) \<and>
   fc_retry (classifyPublicationFailure (http_error k key (CheckViolation m))) \<and>
   fc_retry (classifyPublicationFailure (RemoteError (Some (step_code_text RetryExhausted)) status headers rm m)) =
     (case status of None \<Rightarrow> True | Some n \<Rightarrow> 500 \<le> n)"
  by (cases c) (simp_all add: classifyPublicationFailure_def http_error_def status_error_def classification_def classify_status_def
      isTransportFault_def DETERMINISTIC_REVIEW_RUNS_PUBLICATION_CODES_def Let_def)

subsection \<open>A finished run and a GitHub to publish it on\<close>

definition demo_finished :: "workflow_name \<Rightarrow> db" where
  "demo_finished workflow =
     snd (recordExecutionSuccess demo_cfg 2 ''run-1'' (Some (JBool True)) None
       (snd (markQueued demo_cfg 1 ''run-1'' 1 (JObj [])
         (snd (create demo_cfg ''github'' 0 1 (demo_run\<lparr>ca_workflow := workflow\<rparr>) empty_db)))))"

lemma demo_finished_reachable [simp]: "reachable (demo_finished workflow)"
  unfolding demo_finished_def
  by (intro reachable_step [OF _ store_step.recordExecutionSuccess] reachable_step [OF _ store_step.markQueued]
      reachable_step [OF _ store_step.create] reachable_empty)

definition demo_publisher :: connector where
  "demo_publisher = \<lparr>cn_cfg = demo_cfg, cn_beats = (\<lambda>_. False), cn_locked = (\<lambda>_. False)\<rparr>"

text \<open>GitHub answers every lookup with \<open>found\<close> and every effect with \<open>effect\<close>, by step key.\<close>

definition demo_github :: "(string \<Rightarrow> js_error + remote_ref option) \<Rightarrow> (string \<Rightarrow> js_error + remote_ref option) \<Rightarrow> github" where
  "demo_github found effect =
     \<lparr>gh_context = (\<lambda>workflow j. Inr j), gh_open_pr = (\<lambda>j. True), gh_workspace_ref = (\<lambda>j. ''main''),
      gh_result = (\<lambda>workflow j. Inr ()), gh_patch_ready = (\<lambda>j. Inr True), gh_deliveries = (\<lambda>j. [''a'', ''b'']),
      gh_octokit = (\<lambda>j. ret ()), gh_find = (\<lambda>key published. await (found key)),
      gh_effect = (\<lambda>key published assertClaim. andThen assertClaim (\<lambda>_. await (effect key)))\<rparr>"

lemma demo_github_apart [simp]: "github_apart (demo_github found effect)"
  by (simp add: github_apart_def demo_github_def acts)

definition answered :: "string \<Rightarrow> js_error + remote_ref option" where
  "answered key = Inr (Some (Some ''7'', Some ''url''))"

definition refused :: "nat \<Rightarrow> string \<Rightarrow> js_error + remote_ref option" where
  "refused status key = Inl (RemoteError None (Some status) [] None ''no'')"

end
