(* ===== verification/Delivery.thy ===== *)
theory Delivery
  imports Publishing
begin

text \<open>
  Progress of the publisher, on quiet schedules: nobody else writes, no request is lost, the heartbeat does not fail. \<open>ok\<close> and
  \<open>fails\<close> are total correctness triples for such runs: the action returns, or throws the given error, and what it leaves holds.
\<close>

subsection \<open>Triples\<close>

definition calm :: "connector \<Rightarrow> world \<Rightarrow> bool" where
  "calm cn w \<longleftrightarrow> quiet w \<and> (\<forall>i. \<not> cn_beats cn i) \<and> \<not> w_lost w"

definition ok :: "connector \<Rightarrow> (db \<Rightarrow> bool) \<Rightarrow> 'a act \<Rightarrow> ('a \<Rightarrow> db \<Rightarrow> bool) \<Rightarrow> bool" where
  "ok cn P m Q \<longleftrightarrow> (\<forall>w. calm cn w \<and> P (w_db w) \<longrightarrow>
     (\<exists>a w'. m w = (Inr a, w') \<and> calm cn w' \<and> Q a (w_db w')))"

definition fails :: "connector \<Rightarrow> (db \<Rightarrow> bool) \<Rightarrow> 'a act \<Rightarrow> js_error \<Rightarrow> (db \<Rightarrow> bool) \<Rightarrow> bool" where
  "fails cn P m err Q \<longleftrightarrow> (\<forall>w. calm cn w \<and> P (w_db w) \<longrightarrow> (\<exists>w'. m w = (Inl err, w') \<and> calm cn w' \<and> Q (w_db w')))"

named_theorems triples

lemma ok_andThen [triples]: "ok cn P m Q \<Longrightarrow> (\<And>a. ok cn (Q a) (f a) R) \<Longrightarrow> ok cn P (andThen m f) R"
  unfolding ok_def andThen_def by fastforce

lemma ok_catch [triples]: "ok cn P m Q \<Longrightarrow> ok cn P (catch m h) Q"
  unfolding ok_def catch_def by fastforce

lemma okE:
  assumes "ok cn P m Q" "calm cn w" "P (w_db w)"
  obtains a w' where "m w = (Inr a, w')" "calm cn w'" "Q a (w_db w')"
  using assms unfolding ok_def by blast

lemma ok_caught: "fails cn P m err Q \<Longrightarrow> ok cn Q (h err) R \<Longrightarrow> ok cn P (catch m h) R"
  unfolding ok_def fails_def catch_def by fastforce

lemma fails_first: "fails cn P m err Q \<Longrightarrow> fails cn P (andThen m f) err Q"
  unfolding fails_def andThen_def by fastforce

lemma fails_second: "ok cn P m Q \<Longrightarrow> (\<And>a. fails cn (Q a) (f a) err R) \<Longrightarrow> fails cn P (andThen m f) err R"
  unfolding ok_def fails_def andThen_def by fastforce

lemma fails_caught: "fails cn P m err Q \<Longrightarrow> fails cn Q (h err) err' R \<Longrightarrow> fails cn P (catch m h) err' R"
  unfolding fails_def catch_def by fastforce

lemma ok_ret [triples]: "(\<And>db. P db \<Longrightarrow> Q a db) \<Longrightarrow> ok cn P (ret a) Q"
  by (auto simp: ok_def ret_def)

lemma fails_throw: "(\<And>db. P db \<Longrightarrow> Q db) \<Longrightarrow> fails cn P (throw err) err Q"
  by (auto simp: fails_def throw_def)

lemma ok_await [triples]: "(\<And>db. P db \<Longrightarrow> \<exists>a. out = Inr a \<and> Q a db) \<Longrightarrow> ok cn P (await out) Q"
  by (fastforce simp: ok_def await_def)

lemma ok_if [triples]: "(b \<Longrightarrow> ok cn P m Q) \<Longrightarrow> (\<not> b \<Longrightarrow> ok cn P n Q) \<Longrightarrow> ok cn P (if b then m else n) Q"
  by simp

lemma ok_weaken: "ok cn P m Q \<Longrightarrow> (\<And>db. P' db \<Longrightarrow> P db) \<Longrightarrow> (\<And>a db. Q a db \<Longrightarrow> Q' a db) \<Longrightarrow> ok cn P' m Q'"
  unfolding ok_def by fast

lemma ok_pre: "(\<And>db. P db \<Longrightarrow> ok cn (\<lambda>db'. db' = db) m Q) \<Longrightarrow> ok cn P m Q"
  unfolding ok_def by fast

lemma calm_world [simp]:
  "calm cn (w_db_update f w) = calm cn w" "calm cn (w_calls_update g w) = calm cn w"
  by (simp_all add: calm_def)

lemma calm_beat: "calm cn w \<Longrightarrow> beat cn w = w"
  by (cases w) (simp add: calm_def beat_def)

lemma remote_calm:
  assumes "calm cn w"
  shows "remote cn k key op w =
     ((case fst (op (cn_cfg cn) (clock w 0) (w_db w)) of Inl err \<Rightarrow> Inl (http_error k key err) | Inr a \<Rightarrow> Inr a),
      w\<lparr>w_db := snd (op (cn_cfg cn) (clock w 0) (w_db w)), w_calls := Suc (w_calls w)\<rparr>)"
  using assms by (simp add: remote_def calm_beat call_quiet calm_def)

lemma ok_remote:
  assumes "\<And>now db. P db \<Longrightarrow> \<exists>a. fst (op (cn_cfg cn) now db) = Inr a \<and> Q a (snd (op (cn_cfg cn) now db))"
  shows "ok cn P (remote cn k key op) Q"
  unfolding ok_def
proof (intro allI impI, elim conjE)
  fix w assume "calm cn w" "P (w_db w)"
  then show "\<exists>a w'. remote cn k key op w = (Inr a, w') \<and> calm cn w' \<and> Q a (w_db w')"
    using assms [of "w_db w" "clock w 0"] by (auto simp: remote_calm)
qed

subsection \<open>A publication under way\<close>

text \<open>A step that can still be published, or has been.\<close>

definition ready :: "uuid \<Rightarrow> step_row \<Rightarrow> bool" where
  "ready tok s \<longleftrightarrow> step_status s = StepSucceeded \<or> step_claimable tok (step_key s) s"

text \<open>The publisher \<open>tok\<close> owns the run, its steps have the keys \<open>K\<close>, those of \<open>D\<close> are delivered, those of \<open>X\<close> are running
  and all others are ready.\<close>

definition placed :: "uuid \<Rightarrow> string set \<Rightarrow> string set \<Rightarrow> step_row \<Rightarrow> bool" where
  "placed tok D X s \<longleftrightarrow>
     (if step_key s \<in> X then step_status s = StepRunning
      else if step_key s \<in> D then step_status s = StepSucceeded else ready tok s)"

definition held :: "connector \<Rightarrow> string \<Rightarrow> uuid \<Rightarrow> string set \<Rightarrow> string set \<Rightarrow> string set \<Rightarrow> db \<Rightarrow> bool" where
  "held cn k tok K D X db \<longleftrightarrow>
     reachable db \<and> (\<exists>b. pub_of db (connectorId (cn_cfg cn)) k = Some b \<and> publisher tok b) \<and>
     step_key ` set (steps_of db (connectorId (cn_cfg cn)) k) = K \<and>
     (\<forall>s \<in> set (steps_of db (connectorId (cn_cfg cn)) k). placed tok D X s)"

lemma held_reachable: "held cn k tok K D X db \<Longrightarrow> reachable db"
  by (simp add: held_def)

lemma held_keys: "held cn k tok K D X db \<Longrightarrow> keys_ok db"
  by (rule invD(1) [OF reachable_invD [OF held_reachable]])

lemma held_owner:
  assumes "held cn k tok K D X db"
  shows "cnt_pub (connectorId (cn_cfg cn)) k (publisher tok) db = 1" "lockPublicationOwnership (cn_cfg cn) k tok db"
  using assms cnt_axis(3) [OF held_keys [OF assms]] by (auto simp: held_def lockPublicationOwnership_def)

lemma getRun_found:
  assumes "reachable db" "pub_of db (connectorId cfg) k = Some b"
  shows "\<exists>r. fst (getRun cfg k db) = Some r \<and> rec_run_id r = k"
proof -
  obtain e where "exec_of db (connectorId cfg) k = Some e" using reachable_run [OF assms] by blast
  from join_complete [OF reachable_invD [OF assms(1)] this] obtain row where
    "row \<in> set (run_select db)" "rr_run_id (row_trunk row) = k" "rr_connector_id (row_trunk row) = connectorId cfg" .
  then obtain row where row: "findRunRow db (connectorId cfg) k = Some row"
    by (cases "findRunRow db (connectorId cfg) k") (auto simp: findRunRow_def find_None_iff)
  then have "row \<in> set (run_select db)" by (auto simp: findRunRow_def dest: find_SomeD)
  from join_row_read [OF assms(1) this] row have "\<exists>r. fst (getRun cfg k db) = Some r" by (auto simp: getRun_def)
  then show ?thesis using getRun_id by blast
qed

lemma steps_distinct: "keys_ok db \<Longrightarrow> distinct (map step_key (steps_of db c k))"
  unfolding keys_ok_def steps_of_def rows_at_def
  by (auto simp: distinct_map inj_on_def at_key_def)

lemma cnt_step_length: "cnt_step c k q db = length (filter q (steps_of db c k))"
  by (simp add: cnt_step_def row_count_def steps_of_def rows_at_def conj_commute)

lemma cnt_step_key:
  assumes "keys_ok db" "s \<in> set (steps_of db c k)" "q s" "\<And>s. q s \<Longrightarrow> step_key s = key"
  shows "cnt_step c k q db = 1"
proof -
  have "distinct (filter q (steps_of db c k))" using steps_distinct [OF assms(1), of c k] by (simp add: distinct_map)
  moreover have "set (filter q (steps_of db c k)) = {s}"
    using steps_distinct [OF assms(1), of c k] assms(2-4) by (auto simp: distinct_map inj_on_def)
  ultimately show ?thesis unfolding cnt_step_length using distinct_card by fastforce
qed


subsection \<open>The calls of a publication under way\<close>

lemma ok_renewal:
  assumes P: "\<And>db. P db \<Longrightarrow> reachable db \<and> (\<exists>b. pub_of db (connectorId (cn_cfg cn)) k = Some b \<and> publisher tok b)"
    and kept: "\<And>db db'. P db \<Longrightarrow> reachable db' \<Longrightarrow> steps_of db' = steps_of db \<Longrightarrow>
      (\<exists>b. pub_of db' (connectorId (cn_cfg cn)) k = Some b \<and> publisher tok b) \<Longrightarrow> P db'"
  shows "ok cn P (renewSerially cn k tok) (\<lambda>_. P)"
proof -
  have "ok cn P (remote cn k [] (\<lambda>cfg now. renewPublicationClaim cfg now k tok)) (\<lambda>done db. done \<and> P db)"
  proof (rule ok_remote)
    fix now db assume "P db"
    let ?op = "renewPublicationClaim (cn_cfg cn) now k tok db"
    from P [OF \<open>P db\<close>] obtain b where b: "reachable db" "pub_of db (connectorId (cn_cfg cn)) k = Some b" "publisher tok b" by blast
    have "P (snd ?op)"
      using reachable_step [OF b(1) store_step.renewPublicationClaim [of _ "cn_cfg cn" now k tok]] b(2,3)
      by (intro kept [OF \<open>P db\<close>]) (auto simp: renewPublicationClaim_def Let_def publisher_def fun_eq_iff)
    moreover have "fst ?op = Inr True"
      using b by (simp add: renewPublicationClaim_def Let_def cnt_axis [OF invD(1) [OF reachable_invD]])
    ultimately show "\<exists>a. fst ?op = Inr a \<and> a \<and> P (snd ?op)" by blast
  qed
  then show ?thesis
    unfolding ok_def renewSerially_def Let_def by (fastforce simp: calm_beat calm_def)
qed

lemma ok_renew [triples]: "ok cn (held cn k tok K D X) (renewSerially cn k tok) (\<lambda>_. held cn k tok K D X)"
  by (rule ok_renewal) (simp_all add: held_def)

lemma ok_listSteps:
  assumes P: "\<And>db. P db \<Longrightarrow> reachable db \<and> pub_of db (connectorId (cn_cfg cn)) k \<noteq> None"
  shows "ok cn P (listSteps cn k) (\<lambda>steps db. P db \<and> steps = listPublicationSteps (cn_cfg cn) k db)"
proof -
  let ?found = "\<lambda>found db. P db \<and> (\<exists>r. found = Some r \<and> rec_run_id r = k)"
  have "ok cn P (remote cn k [] (\<lambda>cfg now db. (Inr (fst (getRun cfg k db)), db))) ?found"
    by (rule ok_remote) (auto dest!: P getRun_found)
  moreover have "ok cn (?found found) (case found of None \<Rightarrow> throw (status_error 404 (Some ''run_not_found'') None)
      | Some run \<Rightarrow> remote cn k [] (\<lambda>cfg now db. (Inr (listPublicationSteps cfg (rec_run_id run) db), db)))
      (\<lambda>steps db. P db \<and> steps = listPublicationSteps (cn_cfg cn) k db)" for found
    by (cases found) (auto simp: ok_def [of _ "\<lambda>db. False"] intro!: ok_remote)
  ultimately show ?thesis unfolding listSteps_def by (rule ok_andThen)
qed

lemma ok_listSteps_held:
  "ok cn (held cn k tok K D X) (listSteps cn k) (\<lambda>steps db. held cn k tok K D X db \<and> steps = listPublicationSteps (cn_cfg cn) k db)"
  by (rule ok_listSteps) (auto simp: held_def)

text \<open>Writing one step of the held run.\<close>

lemma held_update:
  assumes h: "held cn k tok K D X db" and "reachable (upd_step (connectorId (cn_cfg cn)) k q f db)"
    and f: "keeps step_run_id step_connector_id f" "\<And>s. step_key (f s) = step_key s" "\<And>s. q s \<Longrightarrow> step_key s = key"
    and new: "\<And>s. s \<in> set (steps_of db (connectorId (cn_cfg cn)) k) \<Longrightarrow> step_key s = key \<Longrightarrow>
      placed tok D' X' (if q s then f s else s)"
    and sets: "\<And>x. x \<noteq> key \<Longrightarrow> (x \<in> X') = (x \<in> X) \<and> (x \<in> D') = (x \<in> D)"
  shows "held cn k tok K D' X' (upd_step (connectorId (cn_cfg cn)) k q f db)"
proof -
  let ?c = "connectorId (cn_cfg cn)"
  let ?u = "\<lambda>s. if q s then f s else s"
  have keys: "step_key (?u s) = step_key s" for s using f(2) by simp
  have steps: "steps_of (upd_step ?c k q f db) ?c k = map ?u (steps_of db ?c k)" using f(1) by simp
  have "step_key ` set (map ?u (steps_of db ?c k)) = step_key ` set (steps_of db ?c k)"
    unfolding set_map image_image keys ..
  moreover have "placed tok D' X' (?u s)" if s: "s \<in> set (steps_of db ?c k)" for s
  proof (cases "step_key s = key")
    case True
    then show ?thesis using new [OF s] by blast
  next
    case False
    then have "\<not> q s" using f(3) by blast
    then show ?thesis using h s sets [OF False] by (simp add: held_def placed_def)
  qed
  then have "\<forall>s \<in> set (map ?u (steps_of db ?c k)). placed tok D' X' s" unfolding set_map by blast
  ultimately show ?thesis
    using h assms(2) unfolding held_def steps by (simp del: set_map)
qed

lemma ok_requireStepClaim:
  "ok cn (\<lambda>db. held cn k tok K D {} db \<and> (\<exists>s \<in> set (steps_of db (connectorId (cn_cfg cn)) k). step_key s = key \<and> step_status s \<noteq> StepSucceeded))
     (requireStepClaim cn k tok key) (\<lambda>_. held cn k tok K D {key})"
proof -
  let ?c = "connectorId (cn_cfg cn)"
  let ?P = "\<lambda>db. held cn k tok K D {} db \<and> (\<exists>s \<in> set (steps_of db ?c k). step_key s = key \<and> step_status s \<noteq> StepSucceeded)"
  have "ok cn ?P (remote cn k key (\<lambda>cfg now. claimPublicationStep cfg now k tok key))
      (\<lambda>claimed db. claimed \<and> held cn k tok K D {key} db)"
  proof (rule ok_remote)
    fix now db assume P: "?P db"
    then have h: "held cn k tok K D {} db" by blast
    from P obtain s where s: "s \<in> set (steps_of db ?c k)" "step_key s = key" "step_status s \<noteq> StepSucceeded" by blast
    with h have claimable: "step_claimable tok key s" by (auto simp: held_def placed_def ready_def split: if_splits)
    have one: "cnt_step ?c k (step_claimable tok key) db = 1"
      by (rule cnt_step_key [where key = key, OF held_keys [OF h] s(1)]) (use claimable in \<open>auto simp: step_claimable_def\<close>)
    have eq: "claimPublicationStep (cn_cfg cn) now k tok key db =
        (Inr True, upd_step ?c k (step_claimable tok key) (claimed_step now tok) db)"
      using held_owner [OF h] one by (simp add: claimPublicationStep_def transaction_def Let_def)
    have only: "s' = s" if "s' \<in> set (steps_of db ?c k)" "step_key s' = key" for s'
      using that s(1,2) steps_distinct [OF held_keys [OF h], of ?c k] by (auto simp: distinct_map inj_on_def)
    have "held cn k tok K D {key} (upd_step ?c k (step_claimable tok key) (claimed_step now tok) db)"
    proof (rule held_update [OF h, where key = key])
      show "reachable (upd_step ?c k (step_claimable tok key) (claimed_step now tok) db)"
        using reachable_step [OF held_reachable [OF h] store_step.claimPublicationStep [of _ "cn_cfg cn" now k tok key]] eq by simp
    qed (use only claimable in \<open>auto simp: step_claimable_def placed_def\<close>)
    then show "\<exists>a. fst (claimPublicationStep (cn_cfg cn) now k tok key db) = Inr a \<and>
        a \<and> held cn k tok K D {key} (snd (claimPublicationStep (cn_cfg cn) now k tok key db))"
      unfolding eq by auto
  qed
  then show ?thesis
    unfolding requireStepClaim_def by (rule ok_andThen) (auto simp: ok_def ret_def)
qed

lemma ok_completeStep:
  assumes "key \<in> K"
  shows "ok cn (held cn k tok K D {key}) (completeStep cn k tok key r) (\<lambda>done db. done \<and> held cn k tok K (insert key D) {} db)"
  unfolding completeStep_def
proof (rule ok_remote)
  let ?c = "connectorId (cn_cfg cn)"
  let ?q = "\<lambda>s. step_key s = key \<and> step_status s = StepRunning"
  fix now db assume h: "held cn k tok K D {key} db"
  then obtain s where s: "s \<in> set (steps_of db ?c k)" "step_key s = key" using assms by (auto simp: held_def)
  with h have run: "step_status s = StepRunning" by (auto simp: held_def placed_def)
  have one: "cnt_step ?c k ?q db = 1" by (rule cnt_step_key [OF held_keys [OF h] s(1)]) (use s run in auto)
  have eq: "completePublicationStep (cn_cfg cn) now k tok key (fst r) (snd r) db =
      (Inr True, upd_step ?c k ?q (succeeded_step now (fst r) (snd r)) db)"
    using held_owner [OF h] one by (simp add: completePublicationStep_def transaction_def Let_def)
  have "held cn k tok K (insert key D) {} (upd_step ?c k ?q (succeeded_step now (fst r) (snd r)) db)"
  proof (rule held_update [OF h, where key = key])
    show "reachable (upd_step ?c k ?q (succeeded_step now (fst r) (snd r)) db)"
      using reachable_step [OF held_reachable [OF h] store_step.completePublicationStep [of _ "cn_cfg cn" now k tok key "fst r" "snd r"]] eq
      by simp
    show "placed tok (insert key D) {} (if ?q s' then succeeded_step now (fst r) (snd r) s' else s')"
      if "s' \<in> set (steps_of db ?c k)" "step_key s' = key" for s'
      using that h by (auto simp: held_def placed_def)
  qed auto
  then show "\<exists>a. fst (completePublicationStep (cn_cfg cn) now k tok key (fst r) (snd r) db) = Inr a \<and>
      a \<and> held cn k tok K (insert key D) {} (snd (completePublicationStep (cn_cfg cn) now k tok key (fst r) (snd r) db))"
    unfolding eq by auto
qed

subsection \<open>A step on a working GitHub\<close>

definition github_works :: "connector \<Rightarrow> github \<Rightarrow> string \<Rightarrow> uuid \<Rightarrow> bool" where
  "github_works cn gh k tok \<longleftrightarrow>
     (\<forall>parsed P. ok cn P (gh_octokit gh parsed) (\<lambda>_. P)) \<and>
     (\<forall>key published P. ok cn P (renewSerially cn k tok) (\<lambda>_. P) \<longrightarrow>
        ok cn P (gh_effect gh key published (renewSerially cn k tok)) (\<lambda>_. P))"

lemma ok_performStep:
  assumes "key \<in> K" "ok cn (held cn k tok K D {key}) effect (\<lambda>_. held cn k tok K D {key})"
  shows "ok cn (held cn k tok K D {key}) (performStep cn k tok key (renewSerially cn k tok) effect n)
     (\<lambda>_. held cn k tok K (insert key D) {})"
  unfolding performStep_def Let_def
proof (intro ok_catch ok_andThen [OF ok_renew] ok_andThen [OF assms(2)] ok_andThen [OF ok_completeStep [OF assms(1)]], goal_cases)
  case (1 _ _ completed)
  show ?case by (cases completed) (auto simp: ok_def ret_def)
qed

lemma step_record_simps [simp]: "psr_step_key (step_record s) = step_key s" "psr_status (step_record s) = step_status s"
  by (simp_all add: step_record_def)

lemma listed_step:
  assumes "key \<in> step_key ` set (steps_of db (connectorId cfg) k)"
  obtains s where "List.find (\<lambda>s. psr_step_key s = key) (listPublicationSteps cfg k db) = Some (step_record s)"
    "s \<in> set (steps_of db (connectorId cfg) k)" "step_key s = key"
proof (cases "List.find (\<lambda>s. psr_step_key s = key) (listPublicationSteps cfg k db)")
  case None
  then show thesis using assms by (auto simp: listPublicationSteps_def find_None_iff)
next
  case (Some r)
  then have "psr_step_key r = key \<and> r \<in> step_record ` set (steps_of db (connectorId cfg) k)"
    by (auto simp: listPublicationSteps_def dest!: find_SomeD)
  then obtain s where "r = step_record s" "s \<in> set (steps_of db (connectorId cfg) k)" "psr_step_key r = key" by blast
  then show thesis using that [of s] Some by simp
qed

lemma held_insert:
  assumes "held cn k tok K D {} db" "s \<in> set (steps_of db (connectorId (cn_cfg cn)) k)" "step_key s = key" "step_status s = StepSucceeded"
  shows "held cn k tok K (insert key D) {} db"
proof -
  have "s' = s" if "s' \<in> set (steps_of db (connectorId (cn_cfg cn)) k)" "step_key s' = key" for s'
    using that assms(2,3) steps_distinct [OF held_keys [OF assms(1)], of "connectorId (cn_cfg cn)" k]
    unfolding distinct_map inj_on_def by blast
  then have "placed tok (insert key D) {} s'" if "s' \<in> set (steps_of db (connectorId (cn_cfg cn)) k)" for s'
    using that assms(1,4) unfolding held_def placed_def by (cases "step_key s' = key") auto
  then show ?thesis using assms(1) unfolding held_def by blast
qed

lemma ok_runPublicationStep:
  assumes "key \<in> K" "ok cn (held cn k tok K D {key}) effect (\<lambda>_. held cn k tok K D {key})"
  shows "ok cn (held cn k tok K D {}) (runPublicationStep cn k tok key (renewSerially cn k tok) look effect)
     (\<lambda>_. held cn k tok K (insert key D) {})"
proof -
  let ?c = "connectorId (cn_cfg cn)"
  let ?P = "\<lambda>db. held cn k tok K D {} db \<and> (\<exists>s \<in> set (steps_of db ?c k). step_key s = key \<and> step_status s \<noteq> StepSucceeded)"
  have claim: "ok cn ?P (claimOrReconcile cn k tok key look) (\<lambda>concluded db. concluded = None \<and> held cn k tok K D {key} db)"
    unfolding claimOrReconcile_def
    by (rule ok_catch, rule ok_andThen [OF ok_requireStepClaim], rule ok_ret) simp
  have perform: "ok cn ?P (andThen (claimOrReconcile cn k tok key look) (\<lambda>concluded. case concluded of
        Some r \<Rightarrow> ret (g r) | None \<Rightarrow> performStep cn k tok key (renewSerially cn k tok) effect n))
      (\<lambda>_. held cn k tok K (insert key D) {})" for g n
    by (rule ok_andThen [OF claim]) (auto split: option.split simp: ok_def [of _ "\<lambda>db. False"] ok_performStep [OF assms])
  show ?thesis
    unfolding runPublicationStep_def Let_def
  proof (rule ok_andThen [OF ok_listSteps_held], rule ok_pre, elim conjE, goal_cases)
    case (1 steps db)
    note h = 1(1) and steps = 1(2)
    from h assms(1) have "key \<in> step_key ` set (steps_of db ?c k)" by (simp add: held_def)
    then obtain s where s: "List.find (\<lambda>s. psr_step_key s = key) steps = Some (step_record s)"
      "s \<in> set (steps_of db ?c k)" "step_key s = key"
      unfolding steps by (rule listed_step)
    show ?case
    proof (cases "step_status s = StepSucceeded")
      case True
      then show ?thesis using s(1) held_insert [OF h s(2,3)] by (auto intro!: ok_ret)
    next
      case False
      then have P: "?P db" using h s(2,3) by blast
      have "ok cn (\<lambda>db'. db' = db) (andThen (claimOrReconcile cn k tok key look) (\<lambda>concluded. case concluded of
          Some r \<Rightarrow> ret (g r) | None \<Rightarrow> performStep cn k tok key (renewSerially cn k tok) effect n))
        (\<lambda>_. held cn k tok K (insert key D) {})" for g n
        by (rule ok_weaken [OF perform]) (use P in blast)+
      then show ?thesis using False s(1) by simp
    qed
  qed
qed

lemma ok_runStep:
  assumes "key \<in> K" "github_works cn gh k tok"
  shows "ok cn (held cn k tok K D {}) (runStep cn gh k tok (renewSerially cn k tok) published key)
     (\<lambda>_. held cn k tok K (insert key D) {})"
  unfolding runStep_def using assms ok_renew
  by (intro ok_runPublicationStep) (auto simp: github_works_def)

subsection \<open>The pass\<close>

text \<open>A run just claimed: owned, with no steps yet or with the steps \<open>keys\<close> of an earlier attempt, all ready.\<close>

definition claimed_run :: "connector \<Rightarrow> string \<Rightarrow> uuid \<Rightarrow> string list \<Rightarrow> db \<Rightarrow> bool" where
  "claimed_run cn k tok keys db \<longleftrightarrow>
     distinct keys \<and>
     (held cn k tok {} {} {} db \<or> held cn k tok (set keys) {} {} db)"

lemma claimed_held: "claimed_run cn k tok keys db \<Longrightarrow> \<exists>K. held cn k tok K {} {} db"
  by (auto simp: claimed_run_def)

lemma ok_renew_claimed: "ok cn (claimed_run cn k tok keys) (renewSerially cn k tok) (\<lambda>_. claimed_run cn k tok keys)"
proof (rule ok_pre)
  fix db assume c: "claimed_run cn k tok keys db"
  then obtain K where "K = {} \<or> K = set keys" "held cn k tok K {} {} db" by (auto simp: claimed_run_def)
  then show "ok cn (\<lambda>db'. db' = db) (renewSerially cn k tok) (\<lambda>_. claimed_run cn k tok keys)"
    using c by (intro ok_weaken [OF ok_renew [of cn k tok K "{}" "{}"]]) (auto simp: claimed_run_def)
qed

lemma ready_new: "ready tok (new_step cfg now k key)"
  by (simp add: ready_def step_claimable_def new_step_def)

lemma ok_initSteps: "ok cn (claimed_run cn k tok keys) (initSteps cn k tok keys) (\<lambda>_. held cn k tok (set keys) {} {})"
  unfolding initSteps_def
proof (rule ok_remote)
  let ?c = "connectorId (cn_cfg cn)"
  fix now db assume c: "claimed_run cn k tok keys db"
  let ?op = "initializePublicationSteps (cn_cfg cn) now k tok keys db"
  from c obtain K where h: "held cn k tok K {} {} db" "K = {} \<or> K = set keys" by (auto simp: claimed_run_def)
  have dist: "distinct keys" using c by (simp add: claimed_run_def)
  have step: "reachable (snd ?op)" by (rule reachable_step [OF held_reachable [OF h(1)] store_step.initializePublicationSteps])
  show "\<exists>a. fst ?op = Inr a \<and> held cn k tok (set keys) {} {} (snd ?op)"
  proof (cases "steps_of db ?c k = []")
    case True
    let ?new = "db\<lparr>publication_steps := publication_steps db @ map (new_step (cn_cfg cn) now k) (sort keys)\<rparr>"
    have eq: "?op = (Inr (), ?new)"
      using True dist held_owner [OF h(1)] by (simp add: initializePublicationSteps_def transaction_def Let_def distinct_remdups_id)
    have steps: "steps_of ?new ?c k = map (new_step (cn_cfg cn) now k) (sort keys)"
      using True by (simp add: steps_of_def rows_at_def at_key_def new_step_def filter_empty_conv)
    show ?thesis
      using step h(1) unfolding eq held_def fst_conv snd_conv steps
      by (auto simp: placed_def ready_new pub_of_def image_iff)
  next
    case False
    then have K: "K = set keys" using h by (auto simp: held_def)
    have "distinct (map step_key (sort_key step_key (steps_of db ?c k)))"
      using steps_distinct [OF held_keys [OF h(1)], of ?c k] by (simp add: distinct_map)
    then have "sort (map step_key (sort_key step_key (steps_of db ?c k))) = sort keys"
      using h(1) K dist by (intro sorted_distinct_set_unique) (auto simp: held_def)
    moreover have "sort_key step_key (steps_of db ?c k) \<noteq> []"
      using False by (metis length_0_conv length_sort)
    ultimately have "?op = (Inr (), db)"
      using False dist held_owner [OF h(1)]
      by (simp add: initializePublicationSteps_def transaction_def Let_def distinct_remdups_id)
    then show ?thesis using h(1) K by simp
  qed
qed

definition published :: "connector \<Rightarrow> string \<Rightarrow> db \<Rightarrow> bool" where
  "published cn k db \<longleftrightarrow> map_option pub_status (pub_of db (connectorId (cn_cfg cn)) k) = Some PubPublished"

lemma ok_completePublication:
  assumes "K \<subseteq> D"
  shows "ok cn (held cn k tok K D {}) (remote cn k [] (\<lambda>cfg now. completePublication cfg now k tok)) (\<lambda>done db. done \<and> published cn k db)"
proof (rule ok_remote)
  let ?c = "connectorId (cn_cfg cn)"
  fix now db assume h: "held cn k tok K D {} db"
  then obtain b where b: "pub_of db ?c k = Some b" "publisher tok b" by (auto simp: held_def)
  have all: "\<forall>s \<in> set (steps_of db ?c k). step_status s = StepSucceeded"
    using h assms unfolding held_def placed_def by (metis empty_iff image_eqI subsetD)
  have "cnt_pub ?c k (\<lambda>b. publisher tok b \<and> (\<forall>s \<in> set (steps_of db ?c k). step_status s = StepSucceeded)) db = 1"
    using b all by (simp add: cnt_axis [OF held_keys [OF h]])
  then show "\<exists>a. fst (completePublication (cn_cfg cn) now k tok db) = Inr a \<and> a \<and>
      published cn k (snd (completePublication (cn_cfg cn) now k tok db))"
    using b all by (auto simp: completePublication_def transaction_def Let_def published_def)
qed

lemma ok_withHeartbeat:
  assumes "ok cn P (renewSerially cn k tok) (\<lambda>_. P)" "ok cn P operation (\<lambda>_. Q)" "ok cn Q (renewSerially cn k tok) (\<lambda>_. Q)"
  shows "ok cn P (withPublicationHeartbeat cn k tok operation) (\<lambda>owns db. owns \<and> Q db)"
proof -
  have flight: "ok cn R (await_active cn k) (\<lambda>_. R)" for R
    by (auto simp: ok_def await_active_def calm_def)
  have own: "ok cn Q still_owned (\<lambda>owns db. owns \<and> Q db)"
    by (auto simp: ok_def still_owned_def calm_def)
  have finish: "ok cn P m R \<Longrightarrow> ok cn P (finishing m (await_active cn k)) R" for P R and m :: "bool act"
    by (fastforce simp: ok_def finishing_def await_active_def calm_def)
  have read: "ok cn P (remote cn k [] (\<lambda>cfg now db. (Inr (publicationHeartbeatIntervalMs cfg), db))) (\<lambda>_. P)"
    by (rule ok_remote) auto
  have "ok cn P (andThen (remote cn k [] (\<lambda>cfg now db. (Inr (publicationHeartbeatIntervalMs cfg), db))) (\<lambda>intervalMs.
      finishing (andThen operation (\<lambda>_. andThen (await_active cn k) (\<lambda>_.
        catch (andThen (renewSerially cn k tok) (\<lambda>_. still_owned)) (\<lambda>_. ret False)))) (await_active cn k)))
      (\<lambda>owns db. owns \<and> Q db)" (is "ok _ _ ?rest _")
    by (rule ok_andThen [OF read], rule finish, rule ok_andThen [OF assms(2)], rule ok_andThen [OF flight],
        rule ok_catch, rule ok_andThen [OF assms(3)], rule own)
  note rest = this
  show ?thesis
    unfolding ok_def
  proof (intro allI impI, elim conjE)
    fix w assume w: "calm cn w" "P (w_db w)"
    then have "w\<lparr>w_lost := False\<rparr> = w" by (cases w) (simp add: calm_def)
    moreover obtain u w1 where w1: "renewSerially cn k tok w = (Inr u, w1)" "calm cn w1" "P (w_db w1)"
      by (rule okE [OF assms(1) w])
    moreover obtain a w2 where "?rest w1 = (Inr a, w2)" "calm cn w2" "a \<and> Q (w_db w2)"
      by (rule okE [OF rest w1(2,3)])
    ultimately show "\<exists>a w'. withPublicationHeartbeat cn k tok operation w = (Inr a, w') \<and> calm cn w' \<and> a \<and> Q (w_db w')"
      by (auto simp: withPublicationHeartbeat_def)
  qed
qed

lemma claimed_next:
  assumes "reachable db" "claimNextOnce cfg now locked tok db = (Inr (Some work), db')"
  shows "reachable db'" "pbw_claim_token work = tok"
    "\<exists>b. pub_of db' (connectorId cfg) (rec_run_id (pbw_record work)) = Some b \<and> publisher tok b"
    "steps_of db' = steps_of db"
proof -
  note keys = invD(1) [OF reachable_invD [OF assms(1)]]
  show "reachable db'" using reachable_step [OF assms(1) store_step.claimNextOnce [of _ cfg now locked tok]] assms(2) by simp
  obtain c0 where cand: "publication_candidate cfg now locked db = Some c0"
    using assms(2) by (auto simp: claimNextOnce_def transaction_def split: option.splits)
  let ?k = "pub_run_id c0"
  let ?q = "\<lambda>b. pub_status b = pub_status c0 \<and> publishable db (connectorId cfg) ?k \<and>
      (pub_status c0 = PubPending \<or> pub_status c0 \<in> {PubPublishing, PubUncertain} \<and> lease_expired cfg now (pub_claimed_at b))"
  let ?db2 = "appendClaimEvent cfg now ?k (pub_status c0) (upd_pub (connectorId cfg) ?k ?q (claimed_publication now tok) db)"
  have res: "cnt_pub (connectorId cfg) ?k ?q db = 1" "claimed_work cfg tok ?k ?db2 = Inr work" "db' = ?db2"
    using assms(2) cand
    by (auto simp: claimNextOnce_def transaction_def Let_def split: option.splits if_splits sum.splits)
  from res(2) show "pbw_claim_token work = tok"
    by (auto simp: claimed_work_def split: option.splits sum.splits if_splits)
  from res(2) have k: "rec_run_id (pbw_record work) = ?k"
    by (auto simp: claimed_work_def findRunRow_def rowToRecord_def Let_def split: option.splits sum.splits if_splits dest!: find_SomeD)
  from res(1) obtain b where "pub_of db (connectorId cfg) ?k = Some b" "?q b"
    by (auto simp: cnt_axis(3) [OF keys] split: option.splits if_splits)
  then show "\<exists>b. pub_of db' (connectorId cfg) (rec_run_id (pbw_record work)) = Some b \<and> publisher tok b"
    unfolding k res(3) by (auto simp: appendClaimEvent_def publisher_def)
  show "steps_of db' = steps_of db" unfolding res(3) by (simp add: appendClaimEvent_def fun_eq_iff)
qed

text \<open>The keys a result plans, and the two handlers on a working GitHub.\<close>

definition planned :: "github \<Rightarrow> publication_work \<Rightarrow> json \<Rightarrow> string list" where
  "planned gh work parsed =
     (if rec_workflow (pbw_record work) = PullRequestReview then [''pull-request:review'']
      else (if gh_patch_ready gh (pbw_workflow_result work) = Inr True \<and> gh_open_pr gh parsed then [''issue:draft-pr''] else []) @
        [''issue:summary-comment''])"

lemma andThen_known [simp]: "andThen (await (Inr a)) f = f a" "andThen (ret a) f = f a"
  by (simp_all add: fun_eq_iff andThen_def await_def ret_def)

lemma ok_openHandler:
  assumes "github_works cn gh k tok" "gh_context gh workflow ctx = Inr parsed" "gh_result gh workflow result = Inr ()"
  shows "ok cn P (openHandler gh workflow ctx result) (\<lambda>p db. p = parsed \<and> P db)"
proof -
  have octokit: "ok cn P (gh_octokit gh parsed) (\<lambda>_. P)" using assms(1) by (simp add: github_works_def)
  show ?thesis
    unfolding openHandler_def assms(2,3) by simp (rule ok_andThen [OF octokit], rule ok_ret, simp)
qed

lemma ok_known: "(b \<Longrightarrow> ok cn P m Q) \<Longrightarrow> ok cn (\<lambda>db. b \<and> P db) m Q"
  by (auto simp: ok_def)

lemma ok_pull_request_run:
  assumes "github_works cn gh k tok" "gh_context gh PullRequestReview ctx = Inr parsed" "gh_result gh PullRequestReview result = Inr ()"
  shows "ok cn (claimed_run cn k tok [''pull-request:review'']) (handlePullRequestReviewRun cn gh k ctx result tok (renewSerially cn k tok))
     (\<lambda>_. held cn k tok {''pull-request:review''} {''pull-request:review''} {})"
proof -
  have init: "ok cn (claimed_run cn k tok [''pull-request:review'']) (initSteps cn k tok [''pull-request:review''])
      (\<lambda>_. held cn k tok {''pull-request:review''} {} {})"
    using ok_initSteps [of cn k tok "[''pull-request:review'']"] by simp
  show ?thesis
    unfolding handlePullRequestReviewRun_def publishPullRequestReviewResult_def
    by (rule ok_andThen [OF ok_openHandler [OF assms]], rule ok_known, rule ok_andThen [OF init],
        rule ok_andThen [OF ok_runStep [OF _ assms(1)]], simp, rule ok_ret, simp)
qed

lemma ok_issue_run:
  assumes "github_works cn gh k tok" "gh_context gh IssueReview ctx = Inr parsed" "gh_result gh IssueReview result = Inr ()"
    "gh_patch_ready gh result = Inr patch" "keys = (if patch \<and> gh_open_pr gh parsed then [''issue:draft-pr''] else []) @ [''issue:summary-comment'']"
  shows "ok cn (claimed_run cn k tok keys) (handleIssueReviewRun cn gh k ctx result tok (renewSerially cn k tok))
     (\<lambda>_. held cn k tok (set keys) (set keys) {})"
proof -
  let ?pr = "patch \<and> gh_open_pr gh parsed"
  have draft: "ok cn (held cn k tok (set keys) {} {})
      (if ?pr then andThen (runStep cn gh k tok (renewSerially cn k tok) [] ''issue:draft-pr'') (\<lambda>step. ret (g step)) else ret [])
      (\<lambda>_. held cn k tok (set keys) (set keys - {''issue:summary-comment''}) {})" for g :: "publication_step_run \<Rightarrow> (string \<times> remote_ref) list"
  proof (cases ?pr)
    case True
    then have "set keys - {''issue:summary-comment''} = {''issue:draft-pr''}" "''issue:draft-pr'' \<in> set keys" using assms(5) by auto
    moreover have "ok cn (held cn k tok (set keys) {} {})
        (andThen (runStep cn gh k tok (renewSerially cn k tok) [] ''issue:draft-pr'') (\<lambda>step. ret (g step)))
        (\<lambda>_. held cn k tok (set keys) {''issue:draft-pr''} {})"
      by (rule ok_andThen [OF ok_runStep [OF calculation(2) assms(1)]], rule ok_ret)
    ultimately show ?thesis using True by simp
  next
    case False
    then show ?thesis using assms(5) by (auto intro: ok_ret)
  qed
  have comment: "ok cn (held cn k tok (set keys) (set keys - {''issue:summary-comment''}) {})
      (andThen (runStep cn gh k tok (renewSerially cn k tok) published ''issue:summary-comment'') (\<lambda>_. ret ()))
      (\<lambda>_. held cn k tok (set keys) (set keys) {})" for published
    using assms(5) by (intro ok_andThen [OF ok_runStep [OF _ assms(1)]] ok_ret) (auto simp: insert_absorb)
  show ?thesis
    unfolding handleIssueReviewRun_def Let_def
  proof (rule ok_andThen [OF ok_openHandler [OF assms(1-3)]], rule ok_known, goal_cases)
    case (1 p)
    show ?case
      unfolding 1 assms(4) andThen_known assms(5) [symmetric]
      by (rule ok_andThen [OF ok_initSteps], rule ok_andThen [OF draft comment])
  qed
qed

lemma ok_publishWork:
  assumes gh: "github_works cn gh k tok" "gh_context gh (rec_workflow (pbw_record work)) (rec_publish_context (pbw_record work)) = Inr parsed"
      "gh_result gh (rec_workflow (pbw_record work)) (pbw_workflow_result work) = Inr ()"
      "rec_workflow (pbw_record work) = IssueReview \<Longrightarrow> \<exists>patch. gh_patch_ready gh (pbw_workflow_result work) = Inr patch"
    and work: "rec_workflow (pbw_record work) \<noteq> RepositoryReview" "k = rec_run_id (pbw_record work)" "tok = pbw_claim_token work"
  shows "ok cn (claimed_run cn k tok (planned gh work parsed)) (publishWork cn gh work (renewSerially cn k tok))
     (\<lambda>_. held cn k tok (set (planned gh work parsed)) (set (planned gh work parsed)) {})"
proof (cases "rec_workflow (pbw_record work)")
  case PullRequestReview
  with gh ok_pull_request_run [OF gh(1)] show ?thesis using work(2,3) by (simp add: publishWork_def planned_def Let_def)
next
  case IssueReview
  then obtain patch where "gh_patch_ready gh (pbw_workflow_result work) = Inr patch" using gh(4) by blast
  with IssueReview ok_issue_run [OF gh(1) _ _ this] gh show ?thesis using work(2,3) by (simp add: publishWork_def planned_def Let_def)
qed (use work in simp)

definition parsed_work :: "json \<Rightarrow> publication_work \<Rightarrow> publication_work" where
  "parsed_work parsed work = work\<lparr>pbw_record := (pbw_record work)\<lparr>rec_publish_context := parsed\<rparr>\<rparr>"

lemma parsed_work_simps [simp]:
  "rec_run_id (pbw_record (parsed_work parsed work)) = rec_run_id (pbw_record work)"
  "rec_workflow (pbw_record (parsed_work parsed work)) = rec_workflow (pbw_record work)"
  "rec_publish_context (pbw_record (parsed_work parsed work)) = parsed"
  "pbw_workflow_result (parsed_work parsed work) = pbw_workflow_result work"
  "pbw_claim_token (parsed_work parsed work) = pbw_claim_token work"
  "planned gh (parsed_work parsed work) = planned gh work"
  by (simp_all add: parsed_work_def planned_def fun_eq_iff)

lemma claimNextWork_calm:
  assumes "calm cn w"
    "claimNextOnce (cn_cfg cn) (clock w 0) (cn_locked cn) (turn_token (w_turns w (w_calls w))) (w_db w) = (Inr (Some work), db')"
    "gh_context gh (rec_workflow (pbw_record work)) (rec_publish_context (pbw_record work)) = Inr parsed"
  shows "claimNextWork cn gh w = (Inr (Some (parsed_work parsed work)), w\<lparr>w_db := db', w_calls := Suc (w_calls w)\<rparr>)"
  using assms by (simp add: claimNextWork_def andThen_def catch_def ret_def await_def calm_beat call_quiet calm_def parsed_work_def)

lemma pass_claimed:
  assumes "claimNextWork cn gh w = (Inr (Some work), w1)" "k = rec_run_id (pbw_record work)" "tok = pbw_claim_token work"
  shows "publishReviewRunsOnce cn gh w =
     catch (andThen (withPublicationHeartbeat cn k tok (publishWork cn gh work (renewSerially cn k tok))) (concludeWork cn work))
       (abandonWork cn work) w1"
  unfolding publishReviewRunsOnce_def andThen_def [of "claimNextWork cn gh"] assms by (simp add: Let_def)

text \<open>C17. On a quiet schedule and a working GitHub, one pass publishes the run it claims: from a run that was never attempted, or one
  whose earlier attempts left every step ready, to a published one.\<close>

theorem pass_publishes:
  assumes work: "k = rec_run_id (pbw_record work)" "tok = pbw_claim_token work" "flow = rec_workflow (pbw_record work)"
    and calm: "calm cn w" and reach: "reachable (w_db w)"
    and claim: "claimNextOnce (cn_cfg cn) (clock w 0) (cn_locked cn) (turn_token (w_turns w (w_calls w))) (w_db w) = (Inr (Some work), db')"
    and gh: "github_works cn gh k tok" "gh_context gh flow (rec_publish_context (pbw_record work)) = Inr parsed"
      "gh_context gh flow parsed = Inr parsed" "gh_result gh flow (pbw_workflow_result work) = Inr ()"
      "flow = IssueReview \<longrightarrow> (\<exists>patch. gh_patch_ready gh (pbw_workflow_result work) = Inr patch)" "flow \<noteq> RepositoryReview"
    and steps: "steps_of (w_db w) (connectorId (cn_cfg cn)) k = [] \<or>
      step_key ` set (steps_of (w_db w) (connectorId (cn_cfg cn)) k) = set (planned gh work parsed) \<and>
      list_all (ready tok) (steps_of (w_db w) (connectorId (cn_cfg cn)) k)"
  shows "published cn k (w_db (snd (publishReviewRunsOnce cn gh w)))"
proof -
  let ?keys = "planned gh work parsed" and ?work = "parsed_work parsed work"
  note claimed = claimed_next [OF reach claim]
  have "claimed_run cn k tok ?keys db'"
    using claimed steps work by (auto simp: claimed_run_def held_def placed_def planned_def list_all_iff)
  note start = this
  have body: "ok cn (claimed_run cn k tok ?keys) (publishWork cn gh ?work (renewSerially cn k tok))
      (\<lambda>_. held cn k tok (set ?keys) (set ?keys) {})"
    using ok_publishWork [of cn gh k tok ?work parsed] gh work by simp
  have "ok cn (claimed_run cn k tok ?keys) (andThen (withPublicationHeartbeat cn k tok (publishWork cn gh ?work (renewSerially cn k tok)))
      (concludeWork cn ?work)) (\<lambda>_. published cn k)"
  proof (rule ok_andThen [OF ok_withHeartbeat [OF ok_renew_claimed body ok_renew]], rule ok_known)
    fix owns assume owns
    then show "ok cn (held cn k tok (set ?keys) (set ?keys) {}) (concludeWork cn ?work owns) (\<lambda>_. published cn k)"
      unfolding concludeWork_def Let_def
      by (simp add: work(1,2) [symmetric])
        (rule ok_andThen [OF ok_completePublication], simp, rule ok_known, simp, rule ok_ret, simp)
  qed
  from ok_catch [OF this, of "abandonWork cn ?work"] calm start
  obtain a w' where "catch (andThen (withPublicationHeartbeat cn k tok (publishWork cn gh ?work (renewSerially cn k tok)))
      (concludeWork cn ?work)) (abandonWork cn ?work) (w\<lparr>w_db := db', w_calls := Suc (w_calls w)\<rparr>) = (Inr a, w')" "published cn k (w_db w')"
    by (auto elim: okE [where w = "w\<lparr>w_db := db', w_calls := Suc (w_calls w)\<rparr>"])
  then show ?thesis
    using pass_claimed [OF claimNextWork_calm [OF calm claim gh(2) [unfolded work(3)]], of k tok] work by simp
qed

subsection \<open>The pass is safe\<close>

text \<open>A publisher that returns has delivered what it planned: the steps are recorded as succeeded in the store at that moment,
  whoever performed them and whatever else was committed meanwhile.\<close>

theorem publishers_deliver:
  assumes "fair w" "reachable (w_db w)" "github_apart gh" "stays a"
  shows "(fst (handlePullRequestReviewRun cn gh k ctx result tok a w) = Inr () \<longrightarrow>
      delivered (w_db (snd (handlePullRequestReviewRun cn gh k ctx result tok a w))) (connectorId (cn_cfg cn)) k ''pull-request:review'') \<and>
    (fst (handleIssueReviewRun cn gh k ctx result tok a w) = Inr () \<longrightarrow>
      delivered (w_db (snd (handleIssueReviewRun cn gh k ctx result tok a w))) (connectorId (cn_cfg cn)) k ''issue:summary-comment'' \<and>
      (\<forall>parsed. gh_context gh IssueReview ctx = Inr parsed \<longrightarrow> gh_patch_ready gh result = Inr True \<longrightarrow> gh_open_pr gh parsed \<longrightarrow>
        delivered (w_db (snd (handleIssueReviewRun cn gh k ctx result tok a w))) (connectorId (cn_cfg cn)) k ''issue:draft-pr'')) \<and>
    (fst (handleRepositoryReviewRun cn gh k ctx result tok a w) = Inr () \<longrightarrow>
      delivered (w_db (snd (handleRepositoryReviewRun cn gh k ctx result tok a w))) (connectorId (cn_cfg cn)) k ''repository:summary-issue'' \<and>
      delivered (w_db (snd (handleRepositoryReviewRun cn gh k ctx result tok a w))) (connectorId (cn_cfg cn)) k ''repository:summary-comment'')"
  using leaves_pull_request_run [OF assms(3,4), unfolded leaves_def, rule_format, OF conjI [OF assms(1) conjI [OF assms(2)]]]
    leaves_issue_run [OF assms(3,4), unfolded leaves_def, rule_format, OF conjI [OF assms(1) conjI [OF assms(2)]]]
    leaves_repository_run [OF assms(3,4), unfolded leaves_def, rule_format, OF conjI [OF assms(1) conjI [OF assms(2)]]]
  by auto

subsection \<open>Concrete passes\<close>

lemma demo_calm [simp]: "calm demo_publisher (demo_world pace (\<lambda>_. Clean) db)"
  by (simp add: calm_def demo_publisher_def) (simp add: demo_world_def)

lemma demo_works: "github_works demo_publisher (demo_github found answered) k tok"
  by (auto simp: github_works_def demo_github_def answered_def intro!: ok_ret ok_await elim!: ok_andThen)

lemma demo_github_simps [simp]:
  "gh_context (demo_github found effect) workflow ctx = Inr ctx" "gh_result (demo_github found effect) workflow result = Inr ()"
  "gh_patch_ready (demo_github found effect) result = Inr True" "gh_octokit (demo_github found effect) ctx = ret ()"
  by (simp_all add: demo_github_def)

lemma demo_turn [simp]: "turn_token (w_turns (demo_world pace faults db) i) = 100 + i" "w_calls (demo_world pace faults db) = 0"
  by (simp_all add: demo_world_def)

lemma demo_fails: "fails cn P (gh_find (demo_github (refused n) effect) key before) (RemoteError None (Some n) [] None ''no'') P"
  by (auto simp: fails_def demo_github_def refused_def await_def)

lemma demo_publisher_simps [simp]: "cn_cfg demo_publisher = demo_cfg" "cn_locked demo_publisher = (\<lambda>_. False)"
  by (simp_all add: demo_publisher_def)

lemma demo_claim:
  "case claimNextOnce demo_cfg 10 (\<lambda>_. False) 100 (demo_finished IssueReview) of
     (Inr (Some work), db') \<Rightarrow> rec_run_id (pbw_record work) = ''run-1'' \<and> pbw_claim_token work = 100 \<and>
       rec_workflow (pbw_record work) = IssueReview
   | _ \<Rightarrow> False"
  by code_simp

theorem pass_publishes_witness:
  "published demo_publisher ''run-1'' (w_db (snd (publishReviewRunsOnce demo_publisher (demo_github answered answered)
     (demo_world 1 (\<lambda>_. Clean) (demo_finished IssueReview)))))"
proof -
  obtain work db' where work: "claimNextOnce demo_cfg 10 (\<lambda>_. False) 100 (demo_finished IssueReview) = (Inr (Some work), db')"
    "rec_run_id (pbw_record work) = ''run-1''" "pbw_claim_token work = 100" "rec_workflow (pbw_record work) = IssueReview"
    using demo_claim by (auto split: prod.splits sum.splits option.splits)
  have none: "steps_of (demo_finished IssueReview) ''github:1'' ''run-1'' = []" by code_simp
  show ?thesis
    by (rule pass_publishes [where work = work and db' = db' and parsed = "rec_publish_context (pbw_record work)", OF refl refl refl, unfolded work(2)])
      (use work none in \<open>auto simp: demo_works demo_connector\<close>)
qed

definition demo_held :: "workflow_name \<Rightarrow> db" where
  "demo_held workflow = snd (claimPublication demo_cfg 3 2 ''run-1'' (demo_finished workflow))"

definition demo_deliveries :: db where
  "demo_deliveries = snd (initializePublicationSteps demo_cfg 4 ''run-1'' 2 (map delivery_key [''a'', ''b'']) (demo_held RepositoryReview))"

text \<open>A pull request review whose one step was attempted three times, handed back for another attempt.\<close>

definition demo_attempt :: "db \<Rightarrow> db" where
  "demo_attempt db =
     snd (failPublicationStep demo_cfg 6 ''run-1'' 2 ''pull-request:review'' (None, ''no'') (Some True)
       (snd (claimPublicationStep demo_cfg 5 ''run-1'' 2 ''pull-request:review'' db)))"

definition demo_spent :: db where
  "demo_spent =
     snd (failPublication demo_cfg 7 ''run-1'' 2 (None, ''no'') True (demo_attempt (demo_attempt (demo_attempt
       (snd (initializePublicationSteps demo_cfg 4 ''run-1'' 2 [''pull-request:review''] (demo_held PullRequestReview)))))))"

lemma demo_held_reachable [simp]: "reachable (demo_held workflow)" "reachable demo_deliveries" "reachable demo_spent"
  unfolding demo_spent_def demo_attempt_def demo_deliveries_def demo_held_def
  by (intro reachable_step [OF _ store_step.failPublication] reachable_step [OF _ store_step.failPublicationStep]
      reachable_step [OF _ store_step.claimPublicationStep] reachable_step [OF _ store_step.initializePublicationSteps]
      reachable_step [OF _ store_step.claimPublication] demo_finished_reachable)+

lemma holdsI:
  assumes "reachable db" "(case pub_of db (connectorId (cn_cfg cn)) k of None \<Rightarrow> False | Some b \<Rightarrow> publisher tok b) \<and>
     list_all (ready tok) (steps_of db (connectorId (cn_cfg cn)) k)"
  shows "held cn k tok (step_key ` set (steps_of db (connectorId (cn_cfg cn)) k)) {} {} db"
  using assms by (auto simp: held_def placed_def list_all_iff split: option.splits)

theorem publishers_deliver_witness:
  "delivered (w_db (snd (handlePullRequestReviewRun demo_publisher (demo_github answered answered) ''run-1'' JNull JNull 2
     (renewSerially demo_publisher ''run-1'' 2) (demo_world 1 (\<lambda>_. Clean) (demo_held PullRequestReview))))) ''github:1'' ''run-1'' ''pull-request:review''"
proof -
  let ?w = "demo_world 1 (\<lambda>_. Clean) (demo_held PullRequestReview)"
  let ?m = "handlePullRequestReviewRun demo_publisher (demo_github answered answered) ''run-1'' JNull JNull 2 (renewSerially demo_publisher ''run-1'' 2)"
  have "(case pub_of (demo_held PullRequestReview) ''github:1'' ''run-1'' of None \<Rightarrow> False | Some b \<Rightarrow> publisher 2 b) \<and>
      list_all (ready 2) (steps_of (demo_held PullRequestReview) ''github:1'' ''run-1'') \<and> steps_of (demo_held PullRequestReview) ''github:1'' ''run-1'' = []"
    by code_simp
  then have "claimed_run demo_publisher ''run-1'' 2 [''pull-request:review''] (demo_held PullRequestReview)"
    using holdsI [OF demo_held_reachable(1) [of PullRequestReview], where cn = demo_publisher and k = "''run-1''" and tok = 2] by (simp add: claimed_run_def demo_connector)
  then have "fst (?m ?w) = Inr ()"
    using ok_pull_request_run [where ctx = JNull and parsed = JNull and result = JNull, OF demo_works, of answered "''run-1''" 2]
    by (auto elim: okE [where w = ?w])
  with publishers_deliver [where w = ?w and gh = "demo_github answered answered" and a = "renewSerially demo_publisher ''run-1'' 2" and
      cn = demo_publisher and k = "''run-1''" and ctx = JNull and result = JNull and tok = 2]
  show ?thesis by (simp add: demo_connector acts)
qed

end
