(* ===== verification/Faults.thy ===== *)
theory Faults
  imports Delivery
begin

text \<open>
  Where a publication goes wrong on quiet schedules, because of what the connector and the store do with a failure: in a run with one
  step a lookup that fails is never counted, a refused delivery concludes the whole publication, and a parked publication that is handed back is
  out of every queue.
\<close>

subsection \<open>A step that cannot be looked up\<close>

text \<open>The publisher owns the run, whose one step \<open>key\<close> has spent its attempts, with \<open>n\<close> reconciliations recorded as failed.\<close>

definition spent :: "connector \<Rightarrow> string \<Rightarrow> uuid \<Rightarrow> string \<Rightarrow> nat \<Rightarrow> step_state set \<Rightarrow> db \<Rightarrow> bool" where
  "spent cn k tok key n S db \<longleftrightarrow>
     reachable db \<and> (\<exists>b. pub_of db (connectorId (cn_cfg cn)) k = Some b \<and> publisher tok b) \<and>
     map step_key (steps_of db (connectorId (cn_cfg cn)) k) = [key] \<and>
     (\<exists>s \<in> set (steps_of db (connectorId (cn_cfg cn)) k). step_key s = key \<and> step_status s \<in> S \<and>
        MAX_PUBLICATION_STEP_ATTEMPTS \<le> step_attempt_count s \<and> step_recovery_attempt_count s = n)"

abbreviation unsettled :: "step_state set" where
  "unsettled \<equiv> {StepFailed, StepRunning, StepUncertain}"

lemma spentE:
  assumes "spent cn k tok key n S db"
  obtains b s where "keys_ok db" "reachable db" "pub_of db (connectorId (cn_cfg cn)) k = Some b" "publisher tok b"
    "lockPublicationOwnership (cn_cfg cn) k tok db"
    "s \<in> set (steps_of db (connectorId (cn_cfg cn)) k)" "step_key s = key" "step_status s \<in> S"
    "MAX_PUBLICATION_STEP_ATTEMPTS \<le> step_attempt_count s" "step_recovery_attempt_count s = n"
    "\<And>s'. s' \<in> set (steps_of db (connectorId (cn_cfg cn)) k) \<Longrightarrow> step_key s' = key \<Longrightarrow> s' = s"
proof -
  let ?c = "connectorId (cn_cfg cn)"
  obtain b s where b: "reachable db" "pub_of db ?c k = Some b" "publisher tok b" and s: "s \<in> set (steps_of db ?c k)" "step_key s = key"
      "step_status s \<in> S" "MAX_PUBLICATION_STEP_ATTEMPTS \<le> step_attempt_count s" "step_recovery_attempt_count s = n"
    using assms unfolding spent_def by blast
  have keys: "keys_ok db" by (rule invD(1) [OF reachable_invD [OF b(1)]])
  have "lockPublicationOwnership (cn_cfg cn) k tok db" using b by (simp add: lockPublicationOwnership_def cnt_axis [OF keys])
  moreover have "s' = s" if "s' \<in> set (steps_of db ?c k)" "step_key s' = key" for s'
    using that s(1,2) steps_distinct [OF keys, of ?c k] unfolding distinct_map inj_on_def by blast
  ultimately show thesis using that keys b s by blast
qed

lemma spent_single:
  assumes "spent cn k tok key n S db"
  obtains b s where "keys_ok db" "pub_of db (connectorId (cn_cfg cn)) k = Some b" "publisher tok b"
    "steps_of db (connectorId (cn_cfg cn)) k = [s]" "step_key s = key" "step_status s \<in> S" "step_recovery_attempt_count s = n"
proof -
  obtain s0 where s0: "steps_of db (connectorId (cn_cfg cn)) k = [s0]" using assms by (auto simp: spent_def)
  from assms obtain b s where "keys_ok db" "pub_of db (connectorId (cn_cfg cn)) k = Some b" "publisher tok b"
    "s \<in> set (steps_of db (connectorId (cn_cfg cn)) k)" "step_key s = key" "step_status s \<in> S" "step_recovery_attempt_count s = n"
    by (rule spentE)
  with s0 show thesis by (intro that [of b s]) simp_all
qed

lemma steps_keys: "(\<And>s. step_key (f s) = step_key s) \<Longrightarrow> map step_key (map (\<lambda>s. if q s then f s else s) ss) = map step_key ss"
  by (induction ss) auto

lemma spent_claim:
  assumes "spent cn k tok key n unsettled db"
  shows "claimPublicationStep (cn_cfg cn) now k tok key db = (Inr False, db)"
proof -
  let ?c = "connectorId (cn_cfg cn)"
  from assms obtain s where s: "lockPublicationOwnership (cn_cfg cn) k tok db" "MAX_PUBLICATION_STEP_ATTEMPTS \<le> step_attempt_count s"
    "\<And>s'. s' \<in> set (steps_of db ?c k) \<Longrightarrow> step_key s' = key \<Longrightarrow> s' = s" by (rule spentE) blast
  then have "\<not> step_claimable tok key s'" if "s' \<in> set (steps_of db ?c k)" for s'
    using that by (auto simp: step_claimable_def)
  then have "cnt_step ?c k (step_claimable tok key) db = 0" using cnt_step_mem by blast
  then show ?thesis using s(1) by (simp add: claimPublicationStep_def transaction_def Let_def upd_none)
qed

lemma spent_exhaustion:
  assumes "spent cn k tok key n unsettled db"
  shows "fst (transaction (exhaustion_tx (cn_cfg cn) now k tok key) db) = Inr True"
    "spent cn k tok key n {StepUncertain} (snd (transaction (exhaustion_tx (cn_cfg cn) now k tok key) db))"
proof -
  let ?c = "connectorId (cn_cfg cn)"
  let ?q = "\<lambda>s. step_key s = key \<and> step_status s \<in> {StepFailed, StepRunning} \<and> MAX_PUBLICATION_STEP_ATTEMPTS \<le> step_attempt_count s"
  from assms obtain b s where s: "keys_ok db" "reachable db" "pub_of db ?c k = Some b" "publisher tok b"
    "lockPublicationOwnership (cn_cfg cn) k tok db" "s \<in> set (steps_of db ?c k)" "step_key s = key" "step_status s \<in> unsettled"
    "MAX_PUBLICATION_STEP_ATTEMPTS \<le> step_attempt_count s" "step_recovery_attempt_count s = n"
    and only: "\<And>s'. s' \<in> set (steps_of db ?c k) \<Longrightarrow> step_key s' = key \<Longrightarrow> s' = s" by (rule spentE) blast
  have "key \<in> step_key ` set (steps_of db ?c k)" using s(6,7) by blast
  then obtain s1 where s1: "List.find (\<lambda>s. psr_step_key s = key) (listPublicationSteps (cn_cfg cn) k db) = Some (step_record s1)"
    "s1 \<in> set (steps_of db ?c k)" "step_key s1 = key" by (rule listed_step)
  with only [OF s1(2,3)] s(5,8,9) have "needs_reconciliation (cn_cfg cn) k tok key db"
    by (simp add: needs_reconciliation_def isStepExhausted_def step_record_def)
  then have eq: "transaction (exhaustion_tx (cn_cfg cn) now k tok key) db =
      (Inr True, derivePublicationStatus now ?c k (upd_step ?c k ?q (uncertain_step now) db))"
    by (simp add: transaction_def exhaustion_tx_def Let_def)
  then show "fst (transaction (exhaustion_tx (cn_cfg cn) now k tok key) db) = Inr True" by simp
  let ?db' = "derivePublicationStatus now ?c k (upd_step ?c k ?q (uncertain_step now) db)"
  let ?s' = "if ?q s then uncertain_step now s else s"
  have "reachable ?db'" using reachable_step [OF s(2) store_step.exhaustion [of _ "cn_cfg cn" now k tok key]] eq by simp
  moreover have "?s' \<in> set (steps_of ?db' ?c k)"
    unfolding derive_lookup(3) using s(6) by (subst steps_of_upd_step) (auto simp: set_map simp del: if_image_distrib)
  moreover have "step_key ?s' = key \<and> step_status ?s' \<in> {StepUncertain} \<and> MAX_PUBLICATION_STEP_ATTEMPTS \<le> step_attempt_count ?s' \<and>
      step_recovery_attempt_count ?s' = n"
    using s(7-10) by (auto simp: uncertain_step_def)
  moreover have "\<exists>b. pub_of ?db' ?c k = Some b \<and> publisher tok b"
    using s(3,4) derived_status_active by (auto simp: derive_pub_of s(1) publisher_def)
  moreover have "map step_key (steps_of ?db' ?c k) = [key]"
    using assms steps_keys [of "uncertain_step now" ?q "steps_of db ?c k"] unfolding derive_lookup(3)
    by (subst steps_of_upd_step) (simp_all add: spent_def del: map_map)
  ultimately show "spent cn k tok key n {StepUncertain} (snd (transaction (exhaustion_tx (cn_cfg cn) now k tok key) db))"
    unfolding eq snd_conv spent_def by blast
qed

lemma fails_requireStepClaim:
  "fails cn (spent cn k tok key n unsettled) (requireStepClaim cn k tok key) (http_error k key (StepError RetryExhausted))
     (spent cn k tok key n {StepUncertain})"
proof -
  have claim: "ok cn (spent cn k tok key n unsettled) (remote cn k key (\<lambda>cfg now. claimPublicationStep cfg now k tok key))
      (\<lambda>claimed db. \<not> claimed \<and> spent cn k tok key n unsettled db)"
    by (rule ok_remote) (auto simp: spent_claim)
  have exhausted: "ok cn (spent cn k tok key n unsettled)
      (remote cn k key (\<lambda>cfg now. transaction (exhaustion_tx cfg now k tok key)))
      (\<lambda>exhausted db. exhausted \<and> spent cn k tok key n {StepUncertain} db)"
    by (rule ok_remote) (auto simp: spent_exhaustion)
  have throw: "fails cn (\<lambda>db. exhausted \<and> spent cn k tok key n {StepUncertain} db)
      (throw (http_error k key (StepError (if exhausted then RetryExhausted else NotClaimable))))
      (http_error k key (StepError RetryExhausted)) (spent cn k tok key n {StepUncertain})" for exhausted
    by (cases exhausted) (auto simp: fails_def throw_def)
  have rest: "fails cn (\<lambda>db. \<not> claimed \<and> spent cn k tok key n unsettled db)
      (if claimed then ret ()
       else andThen (remote cn k key (\<lambda>cfg now. transaction (exhaustion_tx cfg now k tok key)))
         (\<lambda>exhausted. throw (http_error k key (StepError (if exhausted then RetryExhausted else NotClaimable)))))
      (http_error k key (StepError RetryExhausted)) (spent cn k tok key n {StepUncertain})" for claimed
    using fails_second [OF exhausted throw] by (cases claimed) (auto simp: fails_def)
  show ?thesis unfolding requireStepClaim_def by (rule fails_second [OF claim rest])
qed

lemma fails_runPublicationStep:
  assumes "\<And>P. fails cn P look err P"
  shows "fails cn (spent cn k tok key n unsettled) (runPublicationStep cn k tok key a look effect) err
     (spent cn k tok key n {StepUncertain})"
proof -
  let ?c = "connectorId (cn_cfg cn)"
  have "isPublicationStepExhausted (http_error k key (StepError RetryExhausted))"
    by (simp add: isPublicationStepExhausted_def http_error_def status_error_def Let_def)
  then have claim: "fails cn (spent cn k tok key n unsettled) (claimOrReconcile cn k tok key look) err (spent cn k tok key n {StepUncertain})"
    unfolding claimOrReconcile_def settleExhaustedStep_def
    by (intro fails_caught [OF fails_first [OF fails_requireStepClaim]]) (simp, intro fails_first assms)
  have list: "ok cn (spent cn k tok key n unsettled) (listSteps cn k)
      (\<lambda>steps db. spent cn k tok key n unsettled db \<and> steps = listPublicationSteps (cn_cfg cn) k db)"
    by (rule ok_listSteps) (auto simp: spent_def)
  show ?thesis
    unfolding runPublicationStep_def Let_def
  proof (rule fails_second [OF list], goal_cases)
    case (1 steps)
    show ?case
    proof (cases "\<exists>s. List.find (\<lambda>s. psr_step_key s = key) steps = Some s \<and> psr_status s = StepSucceeded")
      case True
      have False if P: "spent cn k tok key n unsettled db" "steps = listPublicationSteps (cn_cfg cn) k db" for db
      proof -
        from P(1) obtain s where s: "s \<in> set (steps_of db ?c k)" "step_key s = key" "step_status s \<in> unsettled"
          "\<And>s'. s' \<in> set (steps_of db ?c k) \<Longrightarrow> step_key s' = key \<Longrightarrow> s' = s" by (rule spentE) blast
        have "key \<in> step_key ` set (steps_of db ?c k)" using s(1,2) by blast
        then obtain s1 where "List.find (\<lambda>s. psr_step_key s = key) steps = Some (step_record s1)"
          "s1 \<in> set (steps_of db ?c k)" "step_key s1 = key" unfolding P(2) by (rule listed_step)
        with s(3,4) True show False by auto
      qed
      then show ?thesis unfolding fails_def by blast
    next
      case False
      have "fails cn (\<lambda>db. spent cn k tok key n unsettled db \<and> steps = listPublicationSteps (cn_cfg cn) k db)
          (andThen (claimOrReconcile cn k tok key look) f) err (spent cn k tok key n {StepUncertain})" for f :: "_ \<Rightarrow> publication_step_run act"
        using fails_first [OF claim] unfolding fails_def by blast
      then show ?thesis using False by (auto split: option.split)
    qed
  qed
qed

text \<open>The runs with one step: a pull request review, and an issue review that opens no draft pull request.\<close>

definition single_step :: "github \<Rightarrow> workflow_name \<Rightarrow> json \<Rightarrow> json \<Rightarrow> string \<Rightarrow> bool" where
  "single_step gh workflow parsed result key \<longleftrightarrow>
     workflow = PullRequestReview \<and> key = ''pull-request:review'' \<or>
     workflow = IssueReview \<and> key = ''issue:summary-comment'' \<and>
       (\<exists>ready. gh_patch_ready gh result = Inr ready \<and> \<not> (ready \<and> gh_open_pr gh parsed))"

lemma ok_spent_steps:
  "ok cn (spent cn k tok key n unsettled) (initSteps cn k tok [key]) (\<lambda>_. spent cn k tok key n unsettled)"
  unfolding initSteps_def
proof (rule ok_remote)
  fix now db assume P: "spent cn k tok key n unsettled db"
  then obtain b s where s: "keys_ok db" "pub_of db (connectorId (cn_cfg cn)) k = Some b" "publisher tok b"
    "steps_of db (connectorId (cn_cfg cn)) k = [s]" "step_key s = key"
    by (rule spent_single) auto
  then have "initializePublicationSteps (cn_cfg cn) now k tok [key] db = (Inr (), db)"
    by (simp add: initializePublicationSteps_def transaction_def Let_def cnt_axis)
  with P show "\<exists>u. fst (initializePublicationSteps (cn_cfg cn) now k tok [key] db) = Inr u \<and>
      spent cn k tok key n unsettled (snd (initializePublicationSteps (cn_cfg cn) now k tok [key] db))" by simp
qed

lemma fails_one_step:
  assumes "\<And>P. fails cn P (gh_find gh key []) err P"
  shows "fails cn (spent cn k tok key n unsettled)
     (andThen (initSteps cn k tok [key]) (\<lambda>_. andThen (runStep cn gh k tok a [] key) (\<lambda>_. ret ()))) err (spent cn k tok key n {StepUncertain})"
  unfolding runStep_def
  by (rule fails_second [OF ok_spent_steps], rule fails_first, rule fails_runPublicationStep [OF assms])

lemma fails_single_step:
  assumes "single_step gh workflow parsed result key" "gh_context gh workflow ctx = Inr parsed" "gh_result gh workflow result = Inr ()"
    "\<And>c P. ok cn P (gh_octokit gh c) (\<lambda>_. P)" "\<And>P. fails cn P (gh_find gh key []) err P"
  shows "workflow = PullRequestReview \<Longrightarrow> fails cn (spent cn k tok key n unsettled) (handlePullRequestReviewRun cn gh k ctx result tok a) err
       (spent cn k tok key n {StepUncertain})"
    "workflow = IssueReview \<Longrightarrow> fails cn (spent cn k tok key n unsettled) (handleIssueReviewRun cn gh k ctx result tok a) err
       (spent cn k tok key n {StepUncertain})"
proof -
  let ?P = "spent cn k tok key n unsettled"
  have opened: "ok cn ?P (openHandler gh workflow ctx result) (\<lambda>r db. ?P db \<and> r = parsed)"
    unfolding openHandler_def assms(2,3) by simp (rule ok_andThen [OF assms(4)], simp add: ok_def ret_def)
  note single = fails_one_step [OF assms(5), of k tok n a]
  show "fails cn ?P (handlePullRequestReviewRun cn gh k ctx result tok a) err (spent cn k tok key n {StepUncertain})"
    if "workflow = PullRequestReview"
  proof -
    have "key = ''pull-request:review''" using assms(1) that by (auto simp: single_step_def)
    then show ?thesis
      using fails_second [OF opened, of "\<lambda>_. andThen (initSteps cn k tok [key]) (\<lambda>_. andThen (runStep cn gh k tok a [] key) (\<lambda>_. ret ()))"]
        single that
      by (simp add: handlePullRequestReviewRun_def publishPullRequestReviewResult_def fails_def)
  qed
  show "fails cn ?P (handleIssueReviewRun cn gh k ctx result tok a) err (spent cn k tok key n {StepUncertain})"
    if issue: "workflow = IssueReview"
  proof -
    obtain ready where ready: "key = ''issue:summary-comment''" "gh_patch_ready gh result = Inr ready" "\<not> (ready \<and> gh_open_pr gh parsed)"
      using assms(1) issue by (auto simp: single_step_def)
    have "fails cn (\<lambda>db. ?P db \<and> r = parsed)
        (andThen (await (gh_patch_ready gh result)) (\<lambda>patchReady.
          let shouldOpenPr = (patchReady \<and> gh_open_pr gh r) in
          andThen (initSteps cn k tok ((if shouldOpenPr then [''issue:draft-pr''] else []) @ [''issue:summary-comment''])) (\<lambda>_.
          andThen
            (if shouldOpenPr
             then andThen (runStep cn gh k tok a [] ''issue:draft-pr'') (\<lambda>step.
                  ret (if fst (run_remote step) = None then [] else [(''issue:draft-pr'', run_remote step)]))
             else ret [])
            (\<lambda>draft. andThen (runStep cn gh k tok a draft ''issue:summary-comment'') (\<lambda>_. ret ()))))) err
        (spent cn k tok key n {StepUncertain})" for r
      using single ready by (cases "r = parsed") (auto simp: fails_def)
    from fails_second [OF opened this] show ?thesis unfolding handleIssueReviewRun_def issue by simp
  qed
qed

lemma fails_withHeartbeat:
  assumes "ok cn P (renewSerially cn k tok) (\<lambda>_. P)" "fails cn P operation err Q"
  shows "fails cn P (withPublicationHeartbeat cn k tok operation) err Q"
proof -
  have finish: "fails cn P m err R \<Longrightarrow> fails cn P (finishing m (await_active cn k)) err R" for P R and m :: "bool act"
    by (fastforce simp: fails_def finishing_def await_active_def calm_def)
  have read: "ok cn P (remote cn k [] (\<lambda>cfg now db. (Inr (publicationHeartbeatIntervalMs cfg), db))) (\<lambda>_. P)"
    by (rule ok_remote) auto
  have "fails cn P (andThen (remote cn k [] (\<lambda>cfg now db. (Inr (publicationHeartbeatIntervalMs cfg), db))) (\<lambda>intervalMs.
      finishing (andThen operation (\<lambda>_. andThen (await_active cn k) (\<lambda>_.
        catch (andThen (renewSerially cn k tok) (\<lambda>_. still_owned)) (\<lambda>_. ret False)))) (await_active cn k))) err Q" (is "fails _ _ ?rest _ _")
    by (rule fails_second [OF read], rule finish, rule fails_first [OF assms(2)])
  note rest = this
  show ?thesis
    unfolding fails_def
  proof (intro allI impI, elim conjE)
    fix w assume w: "calm cn w" "P (w_db w)"
    then have "w\<lparr>w_lost := False\<rparr> = w" by (cases w) (simp add: calm_def)
    moreover obtain u w1 where w1: "renewSerially cn k tok w = (Inr u, w1)" "calm cn w1" "P (w_db w1)"
      by (rule okE [OF assms(1) w])
    moreover obtain w2 where "?rest w1 = (Inl err, w2)" "calm cn w2" "Q (w_db w2)"
      using rest w1(2,3) unfolding fails_def by meson
    ultimately show "\<exists>w'. withPublicationHeartbeat cn k tok operation w = (Inl err, w') \<and> calm cn w' \<and> Q (w_db w')"
      by (auto simp: withPublicationHeartbeat_def)
  qed
qed

text \<open>The pass hands the publication back: pending again, with the count it had.\<close>

definition handed_back :: "connector \<Rightarrow> string \<Rightarrow> nat \<Rightarrow> db \<Rightarrow> bool" where
  "handed_back cn k n db \<longleftrightarrow>
     map_option pub_status (pub_of db (connectorId (cn_cfg cn)) k) = Some PubPending \<and>
     (\<exists>s. steps_of db (connectorId (cn_cfg cn)) k = [s] \<and> step_status s = StepUncertain \<and> step_recovery_attempt_count s = n)"

lemma ok_abandon_retry:
  assumes "k = rec_run_id (pbw_record work)" "tok = pbw_claim_token work" "\<not> isPublicationClaimLostError err"
    "fc_retry (classifyPublicationFailure err)"
  shows "ok cn (spent cn k tok key n {StepUncertain}) (abandonWork cn work err) (\<lambda>_. handed_back cn k n)"
proof -
  have "ok cn (spent cn k tok key n {StepUncertain}) (failWork cn work failure True) (\<lambda>_. handed_back cn k n)" for failure
    unfolding failWork_def Let_def assms(1,2) [symmetric]
  proof (rule ok_remote)
    fix now db assume P: "spent cn k tok key n {StepUncertain} db"
    then obtain b s where "keys_ok db" "pub_of db (connectorId (cn_cfg cn)) k = Some b" "publisher tok b"
      "steps_of db (connectorId (cn_cfg cn)) k = [s]" "step_status s = StepUncertain" "step_recovery_attempt_count s = n"
      by (rule spent_single) auto
    then show "\<exists>a. fst (failPublication (cn_cfg cn) now k tok failure True db) = Inr a \<and>
        handed_back cn k n (snd (failPublication (cn_cfg cn) now k tok failure True db))"
      by (auto simp: failPublication_def transaction_def Let_def cnt_axis handed_back_def split_beta)
  qed
  then show ?thesis
    using assms(3,4) unfolding abandonWork_def Let_def by simp (rule ok_andThen, assumption, rule ok_ret)
qed

text \<open>C19. In a run with one publication step, a pull request review or an issue review without a draft pull request, a remote effect that
  cannot be looked up is retried without end: when the lookup of the exhausted step fails with an error that is classified as retryable, on a
  schedule without interference and lost requests, the pass ends with the publication pending again and the count of failed reconciliations as
  it was, so the budget of three that parks a step is never reached. (The deliveries of a repository run catch the error and count it.)\<close>

theorem failed_lookup_uncounted:
  assumes work: "k = rec_run_id (pbw_record work)" "tok = pbw_claim_token work" "rec_workflow (pbw_record work) = workflow"
      "single_step gh workflow parsed (pbw_workflow_result work) key"
    and calm: "calm cn w" and reach: "reachable (w_db w)"
    and claim: "claimNextOnce (cn_cfg cn) (clock w 0) (cn_locked cn) (turn_token (w_turns w (w_calls w))) (w_db w) = (Inr (Some work), db')"
    and gh: "gh_context gh workflow (rec_publish_context (pbw_record work)) = Inr parsed"
      "gh_context gh workflow parsed = Inr parsed" "gh_result gh workflow (pbw_workflow_result work) = Inr ()"
      "\<forall>c P. ok cn P (gh_octokit gh c) (\<lambda>_. P)" "\<forall>P. fails cn P (gh_find gh key []) err P"
    and err: "\<not> isPublicationClaimLostError err" "fc_retry (classifyPublicationFailure err)"
    and step: "steps_of (w_db w) (connectorId (cn_cfg cn)) k = [s]" "step_key s = key" "step_status s \<in> unsettled"
      "step_attempt_count s = MAX_PUBLICATION_STEP_ATTEMPTS"
  shows "handed_back cn k (step_recovery_attempt_count s) (w_db (snd (publishReviewRunsOnce cn gh w)))"
proof -
  let ?work = "parsed_work parsed work" and ?n = "step_recovery_attempt_count s"
  let ?P = "spent cn k tok key ?n unsettled"
  have start: "?P db'" using claimed_next [OF reach claim] work(1,2) step by (simp add: spent_def)
  have renew: "ok cn ?P (renewSerially cn k tok) (\<lambda>_. ?P)" by (rule ok_renewal) (auto simp: spent_def)
  have "workflow = PullRequestReview \<or> workflow = IssueReview" using work(4) by (auto simp: single_step_def)
  then have "fails cn ?P (publishWork cn gh ?work (renewSerially cn k tok)) err (spent cn k tok key ?n {StepUncertain})"
    using fails_single_step [OF work(4) gh(2,3), of cn err k tok ?n] work(1-3) gh(4,5)
    by (auto simp: publishWork_def Let_def)
  from fails_first [OF fails_withHeartbeat [OF renew this]]
  have "ok cn ?P (catch (andThen (withPublicationHeartbeat cn k tok (publishWork cn gh ?work (renewSerially cn k tok)))
      (concludeWork cn ?work)) (abandonWork cn ?work)) (\<lambda>_. handed_back cn k ?n)"
    by (rule ok_caught) (rule ok_abandon_retry, use work err in simp_all)
  with calm start show ?thesis
    using pass_claimed [OF claimNextWork_calm [OF calm claim, of gh parsed], of k tok] work(1-3) gh(1)
    by (auto elim: okE [where w = "w\<lparr>w_db := db', w_calls := Suc (w_calls w)\<rparr>"])
qed

subsection \<open>A delivery that GitHub refuses\<close>

definition ended :: "connector \<Rightarrow> string \<Rightarrow> db \<Rightarrow> bool" where
  "ended cn k db \<longleftrightarrow> reachable db \<and> map_option pub_status (pub_of db (connectorId (cn_cfg cn)) k) = Some PubFailed"

lemma fail_terminal:
  assumes h: "held cn k tok K D {key} db" and "key \<in> K"
  shows "fst (failPublicationStep (cn_cfg cn) now k tok key f (Some False) db) = Inr True \<and>
     map_option pub_status (pub_of (snd (failPublicationStep (cn_cfg cn) now k tok key f (Some False) db)) (connectorId (cn_cfg cn)) k) =
       Some PubFailed"
proof -
  let ?c = "connectorId (cn_cfg cn)"
  let ?q = "\<lambda>s. step_key s = key \<and> (step_status s = StepRunning \<or> step_status s = StepUncertain)"
  from h obtain b where b: "pub_of db ?c k = Some b" "publisher tok b" by (auto simp: held_def)
  from h assms(2) obtain s where s: "s \<in> set (steps_of db ?c k)" "step_key s = key" by (auto simp: held_def)
  with h have "step_status s = StepRunning" by (auto simp: held_def placed_def)
  with s have one: "cnt_step ?c k ?q db = 1" by (intro cnt_step_key [OF held_keys [OF h] s(1)]) auto
  let ?db1 = "upd_step ?c k ?q (failed_step now f (Some False)) db"
  let ?db2 = "derivePublicationStatus now ?c k ?db1"
  have keys: "keys_ok ?db2" using held_keys [OF h] by simp
  have "pub_of ?db2 ?c k = Some (derived_row now (steps_of ?db1 ?c k) b)"
    using b by (simp add: derive_pub_of held_keys [OF h])
  moreover have "publisher tok (derived_row now (steps_of ?db1 ?c k) b)"
    using b(2) derived_status_active by (auto simp: publisher_def)
  ultimately obtain b2 where b2: "pub_of ?db2 ?c k = Some b2" "publisher tok b2" by blast
  then have "pick_pub ?c k (publisher tok) ?db2 = Some b2" by (simp add: pick_axis [OF keys])
  with one b2 held_owner [OF h] show ?thesis
    by (simp add: failPublicationStep_def transaction_def Let_def split_beta)
qed

lemma ok_failStep_terminal:
  assumes "key \<in> K" "\<not> fc_retry (classifyPublicationFailure err)"
  shows "ok cn (held cn k tok K D {key}) (failStep cn k tok key err) (\<lambda>_. ended cn k)"
  unfolding failStep_def Let_def
proof (rule ok_remote)
  let ?f = "(fc_code (classifyPublicationFailure err), error_message err)"
  fix now db assume h: "held cn k tok K D {key} db"
  have "reachable (snd (failPublicationStep (cn_cfg cn) now k tok key ?f (Some False) db))"
    by (rule reachable_step [OF held_reachable [OF h] store_step.failPublicationStep])
  with fail_terminal [OF h assms(1), of now ?f] assms(2)
  show "\<exists>a. fst (failPublicationStep (cn_cfg cn) now k tok key ?f (Some (fc_retry (classifyPublicationFailure err))) db) = Inr a \<and>
      ended cn k (snd (failPublicationStep (cn_cfg cn) now k tok key ?f (Some (fc_retry (classifyPublicationFailure err))) db))"
    unfolding ended_def by auto
qed

lemma fails_ended_claim:
  assumes "ended cn k db"
  shows "fails cn (\<lambda>db'. db' = db) (requireStepClaim cn k tok key) (http_error k key (StepError NotClaimable)) (\<lambda>db'. db' = db)"
proof -
  let ?c = "connectorId (cn_cfg cn)"
  from assms obtain b where b: "pub_of db ?c k = Some b" "pub_status b = PubFailed" by (auto simp: ended_def)
  have keys: "keys_ok db" using assms by (auto simp: ended_def intro: invD(1) [OF reachable_invD])
  have lock: "\<not> lockPublicationOwnership (cn_cfg cn) k tok db"
    using b by (simp add: lockPublicationOwnership_def cnt_axis [OF keys] publisher_def pub_active_def)
  have claim: "ok cn (\<lambda>db'. db' = db) (remote cn k key (\<lambda>cfg now. claimPublicationStep cfg now k tok key))
      (\<lambda>claimed db'. \<not> claimed \<and> db' = db)"
    using lock by (intro ok_remote) (auto simp: claimPublicationStep_def transaction_def)
  have check: "ok cn (\<lambda>db'. db' = db) (remote cn k key (\<lambda>cfg now. transaction (exhaustion_tx cfg now k tok key)))
      (\<lambda>exhausted db'. \<not> exhausted \<and> db' = db)"
    using lock b by (intro ok_remote) (auto simp: transaction_def exhaustion_tx_def needs_reconciliation_def Let_def
        derivePublicationStatus_def pick_axis [OF keys] pub_active_def)
  have "fails cn (\<lambda>db'. \<not> exhausted \<and> db' = db)
      (throw (http_error k key (StepError (if exhausted then RetryExhausted else NotClaimable))) :: unit act)
      (http_error k key (StepError NotClaimable)) (\<lambda>db'. db' = db)" for exhausted
    by (cases exhausted) (auto simp: fails_def throw_def)
  from fails_second [OF check this]
  have "fails cn (\<lambda>db'. \<not> claimed \<and> db' = db)
      (if claimed then ret ()
       else andThen (remote cn k key (\<lambda>cfg now. transaction (exhaustion_tx cfg now k tok key)))
         (\<lambda>exhausted. throw (http_error k key (StepError (if exhausted then RetryExhausted else NotClaimable)))))
      (http_error k key (StepError NotClaimable)) (\<lambda>db'. db' = db)" for claimed
    by (cases claimed) (auto simp: fails_def)
  then show ?thesis unfolding requireStepClaim_def by (rule fails_second [OF claim])
qed

text \<open>When GitHub refuses one delivery of a repository review for good, the publisher goes on to the next one, but recording the
  refusal has concluded the whole publication as failed: no other step of the run can be claimed any more.\<close>

theorem refused_delivery_ends_publication:
  assumes "calm cn w" "held cn k tok K D {} (w_db w)" "delivery_key d \<in> K"
    and fresh: "s \<in> set (steps_of (w_db w) (connectorId (cn_cfg cn)) k)" "step_key s = delivery_key d" "step_status s \<noteq> StepSucceeded"
      "List.find (\<lambda>r. psr_step_key r = delivery_key d) persistedSteps = Some r" "psr_status r \<notin> {StepSucceeded, StepTerminalFailed}"
    and refused: "fails cn (held cn k tok K D {delivery_key d}) (gh_effect gh (delivery_key d) [] (renewSerially cn k tok)) err
      (held cn k tok K D {delivery_key d})" "\<not> isPublicationClaimLostError err"
      "classifyPublicationFailure err = classification False StepScope code reason"
  shows "\<exists>w'. publishDelivery cn gh k tok (renewSerially cn k tok) persistedSteps d w = (Inr None, w') \<and> ended cn k (w_db w') \<and>
     (\<forall>key. \<exists>w''. requireStepClaim cn k tok key w' = (Inl (http_error k key (StepError NotClaimable)), w'') \<and> w_db w'' = w_db w')"
proof -
  let ?key = "delivery_key d" and ?c = "connectorId (cn_cfg cn)"
  let ?P = "\<lambda>db. held cn k tok K D {} db \<and> (\<exists>s \<in> set (steps_of db ?c k). step_key s = ?key \<and> step_status s \<noteq> StepSucceeded)"
  have claim: "ok cn ?P (claimOrReconcile cn k tok ?key look) (\<lambda>concluded db. concluded = None \<and> held cn k tok K D {?key} db)" for look
    unfolding claimOrReconcile_def by (rule ok_catch, rule ok_andThen [OF ok_requireStepClaim], rule ok_ret) simp
  have perform: "fails cn (held cn k tok K D {?key}) (andThen (renewSerially cn k tok) (\<lambda>_.
      andThen (gh_effect gh ?key [] (renewSerially cn k tok)) f)) err (held cn k tok K D {?key})" for f :: "remote_ref option \<Rightarrow> remote_ref act"
    by (rule fails_second [OF ok_renew], rule fails_first, rule refused(1))
  have "fails cn ?P (publishOrReconcileDeliveryDraftPr cn gh k tok (renewSerially cn k tok) ?key) err (held cn k tok K D {?key})"
    unfolding publishOrReconcileDeliveryDraftPr_def
    by (rule fails_second [OF claim]) (auto split: option.split intro: perform simp: fails_def [of _ "\<lambda>db. False"])
  note attempt = fails_first [OF this]
  have "ok cn (held cn k tok K D {?key}) (andThen (failStep cn k tok ?key err) (\<lambda>_. ret None)) (\<lambda>entry db. entry = None \<and> ended cn k db)"
    by (rule ok_andThen [OF ok_failStep_terminal [OF assms(3)]]) (use refused(3) in \<open>auto simp: classification_def intro: ok_ret\<close>)
  then have "ok cn ?P (publishDelivery cn gh k tok (renewSerially cn k tok) persistedSteps d) (\<lambda>entry db. entry = None \<and> ended cn k db)"
    using fresh(4,5) refused(2,3) unfolding publishDelivery_def Let_def
    by (simp add: classification_def) (rule ok_caught [OF attempt], simp)
  then obtain w' where w': "publishDelivery cn gh k tok (renewSerially cn k tok) persistedSteps d w = (Inr None, w')"
      "calm cn w'" "ended cn k (w_db w')"
    using assms(1,2) fresh(1-3) by (auto elim!: okE [where w = w])
  moreover have "\<exists>w''. requireStepClaim cn k tok key w' = (Inl (http_error k key (StepError NotClaimable)), w'') \<and> w_db w'' = w_db w'" for key
    using fails_ended_claim [OF w'(3), of tok key] w'(2) unfolding fails_def by blast
  ultimately show ?thesis by blast
qed

subsection \<open>A parked publication that is handed back\<close>

definition stranded :: "string \<Rightarrow> string \<Rightarrow> db \<Rightarrow> bool" where
  "stranded c k db \<longleftrightarrow> reachable db \<and> map_option pub_status (pub_of db c k) = Some PubPending \<and>
     (\<exists>s \<in> set (steps_of db c k). step_status s = StepDisconnected)"

lemma strandedE:
  assumes "stranded c k db"
  obtains p e b where "reachable db" "prep_of db c k = Some p" "exec_of db c k = Some e" "pub_of db c k = Some b"
    "prep_status p \<noteq> PrepDisconnected" "exec_status e = ExecSucceeded" "pub_status b = PubPending"
proof -
  from assms obtain b where b: "reachable db" "pub_of db c k = Some b" "pub_status b = PubPending" by (auto simp: stranded_def)
  obtain p e where run: "prep_of db c k = Some p" "exec_of db c k = Some e" "axes_ok (prep_status p) (exec_status e) (pub_status b)"
    "steps_ok (exec_status e) (pub_status b) (steps_of db c k)"
    by (rule reachable_run [OF b(1,2)])
  have "exec_status e = ExecSucceeded" using run(4) assms by (auto simp: stranded_def steps_ok_def)
  moreover have "prep_status p \<noteq> PrepDisconnected" using run(3) by (auto simp: axes_ok_def)
  ultimately show thesis using b run(1,2) by (intro that)
qed

lemma stranded_unclaimable:
  assumes "stranded (connectorId cfg) k db"
  shows "claimPublication cfg now tok k db = (Inr None, db)" "publication_candidate cfg now locked db = Some w \<Longrightarrow> pub_run_id w \<noteq> k"
proof -
  have no: "\<not> publishable db (connectorId cfg) k" using assms by (auto simp: stranded_def publishable_def)
  have keys: "keys_ok db" using assms by (auto simp: stranded_def intro: invD(1) [OF reachable_invD])
  show "claimPublication cfg now tok k db = (Inr None, db)"
    using no by (simp add: claimPublication_def transaction_def Let_def upd_none cnt_axis [OF keys] pick_axis [OF keys] split: option.split)
  show "publication_candidate cfg now locked db = Some w \<Longrightarrow> pub_run_id w \<noteq> k"
    using no by (auto dest: publication_candidateD)
qed

lemma stranded_undecidable:
  assumes "stranded (connectorId cfg) k db" "\<not> blank reason"
  shows "resumeDisconnectedRun cfg now k db db = (Inl (StatusError 409 (''Review run '' @ k @ '' has no resumable disconnected axis.'')), db)"
    "giveUpDisconnectedRun cfg now k reason db db = (Inl (StatusError 409 (''Review run '' @ k @ '' has no disconnected axis to give up.'')), db)"
proof -
  let ?c = "connectorId cfg"
  obtain p e b where run: "reachable db" "prep_of db ?c k = Some p" "exec_of db ?c k = Some e" "pub_of db ?c k = Some b"
    "prep_status p \<noteq> PrepDisconnected" "exec_status e = ExecSucceeded" "pub_status b = PubPending"
    by (rule strandedE [OF assms(1)])
  obtain row r p' b' where r: "findRunRow db ?c k = Some row" "rowToRecord row = Inr r" "prep_of db ?c k = Some p'" "pub_of db ?c k = Some b'"
    "ps_status (rec_preparation r) = prep_status p'" "as_status (rec_execution r) = exec_status e" "as_status (rec_publication r) = pub_status b'"
    by (rule readable_record [OF run(1,3)])
  then show "resumeDisconnectedRun cfg now k db db = (Inl (StatusError 409 (''Review run '' @ k @ '' has no resumable disconnected axis.'')), db)"
    "giveUpDisconnectedRun cfg now k reason db db = (Inl (StatusError 409 (''Review run '' @ k @ '' has no disconnected axis to give up.'')), db)"
    using run assms(2) by (simp_all add: resumeDisconnectedRun_def giveUpDisconnectedRun_def findRunRecord_def)
qed

lemma stranded_unlisted:
  assumes "stranded (connectorId cfg) k db" "r \<in> set (listParkedRuns cfg db)"
  shows "parked_run_id r \<noteq> k"
proof
  assume k: "parked_run_id r = k"
  let ?c = "connectorId cfg"
  obtain p e b where run: "reachable db" "prep_of db ?c k = Some p" "exec_of db ?c k = Some e" "pub_of db ?c k = Some b"
    "prep_status p \<noteq> PrepDisconnected" "exec_status e = ExecSucceeded" "pub_status b = PubPending"
    by (rule strandedE [OF assms(1)])
  note mem = axis_of_mem [OF invD(1) [OF reachable_invD [OF run(1)]]]
  from assms(2) k run show False
    by (auto simp: listParkedRuns_def Let_def dest!: mem)
qed

text \<open>C20. A publisher that still owns a parked publication and hands it back for another attempt, as the repository publisher does
  when the last reconciliation of a delivery fails, takes the run out of the operator's queue and out of every claim: the publication is
  pending with a disconnected step, is never claimed again, is not listed as parked, and neither a resume nor a give-up is accepted.\<close>

theorem parked_publication_lost:
  assumes "reachable db" "pub_of db (connectorId cfg) k = Some b" "publisher tok b" "pub_status b = PubDisconnected" "\<not> blank reason"
  shows "\<exists>db'. failPublication cfg now k tok err True db = (Inr True, db') \<and>
     (\<forall>now' tok'. claimPublication cfg now' tok' k db' = (Inr None, db')) \<and>
     (\<forall>now' locked w. publication_candidate cfg now' locked db' = Some w \<longrightarrow> pub_run_id w \<noteq> k) \<and>
     (\<forall>r \<in> set (listParkedRuns cfg db'). parked_run_id r \<noteq> k) \<and>
     (\<forall>now'. resumeDisconnectedRun cfg now' k db' db' =
        (Inl (StatusError 409 (''Review run '' @ k @ '' has no resumable disconnected axis.'')), db')) \<and>
     (\<forall>now'. giveUpDisconnectedRun cfg now' k reason db' db' =
        (Inl (StatusError 409 (''Review run '' @ k @ '' has no disconnected axis to give up.'')), db'))"
proof -
  let ?db = "snd (failPublication cfg now k tok err True db)" and ?c = "connectorId cfg"
  note keys = invD(1) [OF reachable_invD [OF assms(1)]]
  have step: "\<exists>s \<in> set (steps_of db ?c k). step_status s = StepDisconnected"
    by (rule reachable_run [OF assms(1,2)]) (use assms(4) in \<open>simp add: steps_ok_def\<close>)
  have "reachable ?db" by (rule reachable_step [OF assms(1) store_step.failPublication])
  moreover have "fst (failPublication cfg now k tok err True db) = Inr True \<and> map_option pub_status (pub_of ?db ?c k) = Some PubPending \<and>
      steps_of ?db ?c k = steps_of db ?c k"
    using assms(2,3) keys by (auto simp: failPublication_def transaction_def Let_def cnt_axis split_beta)
  ultimately have fail: "failPublication cfg now k tok err True db = (Inr True, ?db)" and lost: "stranded ?c k ?db"
    using step by (auto simp: stranded_def prod_eq_iff)
  show ?thesis
    by (rule exI [of _ ?db], intro conjI allI impI ballI fail stranded_unclaimable [OF lost] stranded_undecidable [OF lost assms(5)]
        stranded_unlisted [OF lost])
qed

subsection \<open>Concrete faults\<close>

theorem failed_lookup_uncounted_witness:
  "handed_back demo_publisher ''run-1'' 0 (w_db (snd (publishReviewRunsOnce demo_publisher (demo_github (refused 502) (refused 502))
     (demo_world 1 (\<lambda>_. Clean) demo_spent))))"
proof -
  have "case claimNextOnce demo_cfg 10 (\<lambda>_. False) 100 demo_spent of
      (Inr (Some work), db') \<Rightarrow> rec_run_id (pbw_record work) = ''run-1'' \<and> pbw_claim_token work = 100 \<and>
        rec_workflow (pbw_record work) = PullRequestReview
    | _ \<Rightarrow> False" by code_simp
  then obtain work db' where work: "claimNextOnce demo_cfg 10 (\<lambda>_. False) 100 demo_spent = (Inr (Some work), db')"
    "rec_run_id (pbw_record work) = ''run-1''" "pbw_claim_token work = 100" "rec_workflow (pbw_record work) = PullRequestReview"
    by (auto split: prod.splits sum.splits option.splits)
  have "case steps_of demo_spent ''github:1'' ''run-1'' of [s] \<Rightarrow> step_key s = ''pull-request:review'' \<and> step_status s = StepFailed \<and>
      step_attempt_count s = 3 \<and> step_recovery_attempt_count s = 0 | _ \<Rightarrow> False" by code_simp
  then obtain s where s: "steps_of demo_spent ''github:1'' ''run-1'' = [s]" "step_key s = ''pull-request:review''" "step_status s = StepFailed"
    "step_attempt_count s = 3" "step_recovery_attempt_count s = 0" by (auto split: list.splits)
  have "handed_back demo_publisher ''run-1'' (step_recovery_attempt_count s) (w_db (snd (publishReviewRunsOnce demo_publisher
      (demo_github (refused 502) (refused 502)) (demo_world 1 (\<lambda>_. Clean) demo_spent))))"
    by (rule failed_lookup_uncounted [where work = work and db' = db' and parsed = "rec_publish_context (pbw_record work)" and
          workflow = PullRequestReview and key = "''pull-request:review''" and err = "RemoteError None (Some 502) [] None ''no''", OF _ refl])
      (use work s in \<open>auto simp: single_step_def demo_connector demo_fails ok_ret classifyPublicationFailure_def classification_def classify_status_def\<close>)
  then show ?thesis using s by simp
qed

theorem refused_delivery_ends_publication_witness:
  "ended demo_publisher ''run-1'' (w_db (snd (publishDelivery demo_publisher (demo_github answered (refused 422)) ''run-1'' 2
     (renewSerially demo_publisher ''run-1'' 2) (listPublicationSteps demo_cfg ''run-1'' demo_deliveries) ''a''
     (demo_world 1 (\<lambda>_. Clean) demo_deliveries))))"
proof -
  let ?K = "step_key ` set (steps_of demo_deliveries ''github:1'' ''run-1'')"
  have view: "(case pub_of demo_deliveries ''github:1'' ''run-1'' of None \<Rightarrow> False | Some b \<Rightarrow> publisher 2 b) \<and>
      list_all (ready 2) (steps_of demo_deliveries ''github:1'' ''run-1'')" by code_simp
  have "list_ex (\<lambda>s. step_key s = delivery_key ''a'' \<and> step_status s = StepPending) (steps_of demo_deliveries ''github:1'' ''run-1'')"
    by code_simp
  then obtain s where s: "s \<in> set (steps_of demo_deliveries ''github:1'' ''run-1'')" "step_key s = delivery_key ''a''" "step_status s = StepPending"
    by (auto simp: list_ex_iff)
  have "case List.find (\<lambda>r. psr_step_key r = delivery_key ''a'') (listPublicationSteps demo_cfg ''run-1'' demo_deliveries) of
      Some r \<Rightarrow> psr_status r = StepPending | None \<Rightarrow> False" by code_simp
  then obtain r where r: "List.find (\<lambda>r. psr_step_key r = delivery_key ''a'') (listPublicationSteps demo_cfg ''run-1'' demo_deliveries) = Some r"
    "psr_status r = StepPending" by (auto split: option.splits)
  have held: "held demo_publisher ''run-1'' 2 ?K {} {} demo_deliveries"
    using holdsI [OF demo_held_reachable(2), where cn = demo_publisher and k = "''run-1''" and tok = 2] view by (simp add: demo_connector)
  have fail: "fails demo_publisher (held demo_publisher ''run-1'' 2 ?K {} {delivery_key ''a''})
      (gh_effect (demo_github answered (refused 422)) (delivery_key ''a'') [] (renewSerially demo_publisher ''run-1'' 2))
      (RemoteError None (Some 422) [] None ''no'') (held demo_publisher ''run-1'' 2 ?K {} {delivery_key ''a''})"
    unfolding demo_github_def refused_def
    by simp (rule fails_second [OF ok_renew], simp add: fails_def await_def)
  have sorted: "classifyPublicationFailure (RemoteError None (Some 422) [] None ''no'') = classification False StepScope (Some ''GITHUB_VALIDATION_REJECTED'') ''github-validation-rejected''"
    by (simp add: classifyPublicationFailure_def classify_status_def)
  let ?w = "demo_world 1 (\<lambda>_. Clean) demo_deliveries"
  have there: "held demo_publisher ''run-1'' 2 ?K {} {} (w_db ?w)" "delivery_key ''a'' \<in> ?K"
      "s \<in> set (steps_of (w_db ?w) (connectorId (cn_cfg demo_publisher)) ''run-1'')"
    using held s(1) imageI [OF s(1), of step_key] s(2) by (simp_all add: demo_connector demo_world_def)
  have unsettled: "step_status s \<noteq> StepSucceeded" "psr_status r \<notin> {StepSucceeded, StepTerminalFailed}"
      "\<not> isPublicationClaimLostError (RemoteError None (Some 422) [] None ''no'')"
    using s(3) r(2) by simp_all
  from refused_delivery_ends_publication [OF demo_calm there s(2) unsettled(1) r(1) unsettled(2) fail unsettled(3) sorted]
  obtain w' where "publishDelivery demo_publisher (demo_github answered (refused 422)) ''run-1'' 2 (renewSerially demo_publisher ''run-1'' 2)
      (listPublicationSteps demo_cfg ''run-1'' demo_deliveries) ''a'' ?w = (Inr None, w')" "ended demo_publisher ''run-1'' (w_db w')"
    by blast
  then show ?thesis by simp
qed

theorem parked_publication_lost_witness:
  "\<exists>db'. failPublication demo_cfg 9 ''run-1'' 2 (None, ''down'') True demo_parked = (Inr True, db') \<and>
     claimPublication demo_cfg 10 3 ''run-1'' db' = (Inr None, db')"
proof -
  have "case pub_of demo_parked ''github:1'' ''run-1'' of None \<Rightarrow> False | Some b \<Rightarrow> publisher 2 b \<and> pub_status b = PubDisconnected"
    by code_simp
  then obtain b where "pub_of demo_parked (connectorId demo_cfg) ''run-1'' = Some b" "publisher 2 b" "pub_status b = PubDisconnected"
    by (auto simp: demo_connector split: option.splits)
  moreover have "\<not> blank ''stuck''" by code_simp
  ultimately show ?thesis using parked_publication_lost [OF demo_parked_reachable(3)] by blast
qed

end
