(* ===== verification/Workers.thy ===== *)
theory Workers
  imports Notifying Fencing Faults
begin

text \<open>
  The preparation worker and the notice worker of the connector beside its publisher: each is made of store operations, so that
  none of them can break the store under any interleaving, loss of a request or answer of GitHub. Then what a pass achieves: a claimed
  notice is settled where nothing is lost, and a submission whose answer is lost can fail a run that was submitted.
\<close>

subsection \<open>The workers are made of store operations\<close>

definition workbench_apart :: "workbench \<Rightarrow> bool" where
  "workbench_apart wb \<longleftrightarrow>
     (\<forall>local k. stays (wb_upload wb local k)) \<and> (\<forall>r. stays (wb_exists wb r)) \<and> (\<forall>flow v. stays (wb_octokit wb flow v)) \<and>
     (\<forall>v. stays (wb_resolve wb v)) \<and>
     (\<forall>flow v k save. (\<forall>x. stays (save x)) \<longrightarrow> stays (wb_prepare wb flow v k save))"

lemma workbench_apartD:
  assumes "workbench_apart wb"
  shows "stays (wb_upload wb local k)" "stays (wb_exists wb r)" "stays (wb_octokit wb flow v)" "stays (wb_resolve wb v)"
    "(\<And>x. stays (save x)) \<Longrightarrow> stays (wb_prepare wb flow v k save)"
  using assms by (simp_all add: workbench_apart_def)

definition hub_apart :: "notice_hub \<Rightarrow> bool" where
  "hub_apart nh \<longleftrightarrow>
     (\<forall>name. stays (nh_octokit nh name)) \<and> (\<forall>repo. stays (nh_repository nh repo)) \<and>
     (\<forall>repo a. stays a \<longrightarrow> stays (nh_summary_issue nh repo a)) \<and>
     (\<forall>repo issue body marker a. stays a \<longrightarrow> stays (nh_comment nh repo issue body marker a))"

lemma hub_apartD:
  assumes "hub_apart nh"
  shows "stays (nh_octokit nh name)" "stays (nh_repository nh repo)" "stays a \<Longrightarrow> stays (nh_summary_issue nh repo a)"
    "stays a \<Longrightarrow> stays (nh_comment nh repo issue body marker a)"
  using assms unfolding hub_apart_def by blast+

lemmas worker_calls = store_step.renewPreparationClaim store_step.settleCandidate store_step.reserve store_step.failPreparation
  store_step.checkpointInput store_step.admit store_step.claimNext store_step.claimNextNotice store_step.completeNotice
  store_step.renewNoticeClaim

lemma stays_stopHeartbeat [acts]: "stays (stopHeartbeat cn)"
  by (simp add: stays_def stopHeartbeat_def)

lemma stays_renewPreparation [acts]: "stays (renewPreparation cn k tok)"
proof -
  have renew: "stays (remote cn k [] (\<lambda>cfg now. renewPreparationClaim cfg now k tok))" by (intro acts worker_calls)
  show ?thesis
    unfolding stays_def
    using staysD [OF renew] by (auto simp: renewPreparation_def split_beta split: sum.split)
qed

lemma stays_renewNotice [acts]: "stays (renewNotice cn nid tok)"
proof -
  have renew: "stays (remote cn [] [] (\<lambda>cfg now. renewNoticeClaim cfg now nid tok))" by (intro acts worker_calls)
  show ?thesis
    unfolding stays_def
    using staysD [OF renew, of "beat cn w" for w] by (auto simp: renewNotice_def Let_def split_beta split: sum.split bool.split)
qed

lemma stays_outcome [acts]: "stays m \<Longrightarrow> stays (outcome m)"
  by (simp add: stays_def outcome_def)

lemma stays_leases [acts]:
  "stays (assertPreparationOwned cn k tok)" "stays (startPreparationClaimHeartbeat cn k tok)" "stays (startRunNoticeClaimHeartbeat cn nid tok)"
proof -
  show owned: "stays (assertPreparationOwned cn k tok)" unfolding assertPreparationOwned_def by (intro acts)
  show "stays (startPreparationClaimHeartbeat cn k tok)"
    unfolding startPreparationClaimHeartbeat_def by (rule stays_lost) (intro acts owned)
  show "stays (startRunNoticeClaimHeartbeat cn nid tok)"
    unfolding startRunNoticeClaimHeartbeat_def by (rule stays_lost) (intro acts)
qed

lemma stays_viaHttp [acts]: "stays m \<Longrightarrow> stays (viaHttp cn m)"
  unfolding viaHttp_def wire_def by (intro acts)

lemma stays_clientSubmit [acts]: "stays (clientSubmitPreparedRun cn wb k tok context inp)"
  unfolding clientSubmitPreparedRun_def by (intro acts stays_submitPreparedRun)

lemma stays_settleInput [acts]: "stays (settleInputBundleCandidate cn k tok digest status)"
  unfolding settleInputBundleCandidate_def by (intro acts worker_calls)

lemma stays_recoverInput:
  assumes "workbench_apart wb"
  shows "stays (recoverInputBundlePublication cn wb k tok)"
proof -
  have all: "stays (recover_candidates cn wb k tok xs)" for xs
    by (induction xs) (simp_all add: acts workbench_apartD [OF assms])
  have "snd (listCandidates cfg now k tok db) = db" for cfg now db
    by (auto simp: listCandidates_def transaction_def split: sum.splits)
  then have "stays (remote cn k [] (\<lambda>cfg now. listCandidates cfg now k tok))"
    unfolding remote_def by (intro stays_beat stays_call) simp
  then show ?thesis unfolding recoverInputBundlePublication_def by (rule stays_andThen) (rule all)
qed

lemma stays_publishInput:
  assumes "workbench_apart wb"
  shows "stays (publishAndSubmitInputBundle cn wb k tok context inp)"
  unfolding publishAndSubmitInputBundle_def Let_def by (intro acts worker_calls workbench_apartD [OF assms])

lemma stays_failures [acts]:
  "stays (recordPreparationFailure cn k tok code message failure)" "stays (recordOwnedFailure cn k tok code message failure err)"
proof -
  show fail: "stays (recordPreparationFailure cn k tok code message failure)"
    unfolding recordPreparationFailure_def by (intro acts worker_calls)
  show "stays (recordOwnedFailure cn k tok code message failure err)" unfolding recordOwnedFailure_def by (intro acts fail)
qed

lemma stays_admitted_claim [acts]: "stays (admitted_claim cn wb a claimed)"
proof -
  have "stays (admitReviewRun cn wb a)"
    unfolding admitReviewRun_def by (rule stays_beat) (intro acts worker_calls)
  then show ?thesis unfolding admitted_claim_def Let_def by (intro acts)
qed

lemma stays_commands:
  assumes "workbench_apart wb"
  shows "stays (runPreparationCommand cn wb a claimed)" "stays (dispatchRepositoryReview cn wb payload name claimed)"
proof -
  note parts = workbench_apartD [OF assms] stays_recoverInput [OF assms] stays_publishInput [OF assms]
  have save: "stays (checkpoint cn k tok x)" for k tok x unfolding checkpoint_def by (intro acts worker_calls)
  have submit: "stays (submitPrepared cn wb k tok prepared)" for k tok prepared
    unfolding submitPrepared_def by (intro acts parts)
  show "stays (runPreparationCommand cn wb a claimed)"
    unfolding runPreparationCommand_def prepareUnderLease_def by (intro acts parts save submit)
  show "stays (dispatchRepositoryReview cn wb payload name claimed)"
    unfolding dispatchRepositoryReview_def resolveUnderLease_def by (intro acts parts save submit)
qed

lemma stays_prepareReviewRunsOnce:
  assumes "workbench_apart wb"
  shows "stays (prepareReviewRunsOnce cn wb kind_text)"
proof -
  have claim: "stays (\<lambda>w. call_with (http_error [] []) (\<lambda>now tok. claimNext (cn_cfg cn) now (cn_locked cn) tok) (beat cn w))"
    by (rule stays_beat) (intro acts worker_calls)
  show ?thesis
    unfolding prepareReviewRunsOnce_def executeClaimedPreparation_def giveBackPreparation_def Let_def
    by (intro acts claim workbench_apartD [OF assms] stays_commands [OF assms])
qed

lemma stays_deliverRunNoticeOnce:
  assumes "hub_apart nh"
  shows "stays (deliverRunNoticeOnce cn nh locked)"
proof -
  have claim: "stays (\<lambda>w. call_with (http_error [] []) (\<lambda>now tok. claimNextNotice (cn_cfg cn) now locked tok) (beat cn w))"
    by (rule stays_beat) (intro acts worker_calls)
  have complete: "stays (completeRunNotice cn notice url)" for notice url
    unfolding completeRunNotice_def by (intro acts worker_calls)
  show ?thesis
    unfolding deliverRunNoticeOnce_def deliverNotice_def sendRunNoticeReply_def assertRepositoryIsInstalled_def Let_def
    by (intro acts claim complete hub_apartD [OF assms])
qed

subsection \<open>The three workers are safe\<close>

text \<open>A pass of the publisher, of the preparation worker and of the notice worker each leaves the store reachable and its
  conclusions standing, whatever other processes commit between its requests, whichever requests are lost on the way in or out, whatever
  the heartbeat timers do and whatever GitHub, the object store and the Execution answer.\<close>

lemma connector_safe:
  assumes "fair w" "reachable (w_db w)" "github_apart gh" "workbench_apart wb" "hub_apart nh"
  shows "reachable (w_db (snd (publishReviewRunsOnce cn gh w))) \<and> advances (w_db w) (w_db (snd (publishReviewRunsOnce cn gh w))) \<and>
     reachable (w_db (snd (prepareReviewRunsOnce cn wb txt w))) \<and> advances (w_db w) (w_db (snd (prepareReviewRunsOnce cn wb txt w))) \<and>
     reachable (w_db (snd (deliverRunNoticeOnce cn nh locked w))) \<and> advances (w_db w) (w_db (snd (deliverRunNoticeOnce cn nh locked w)))"
proof -
  note pass = stays_publishReviewRunsOnce [OF assms(3)] stays_prepareReviewRunsOnce [OF assms(4)] stays_deliverRunNoticeOnce [OF assms(5)]
  show ?thesis by (intro conjI stays_reachable [OF _ assms(1,2)] stays_advances [OF _ assms(1,2)] pass)
qed

subsection \<open>A submission whose answer was lost\<close>

lemma last_failure_skips:
  assumes inv: "db_inv db" and p: "prep_of db (connectorId cfg) k = Some p" "preparer tok p" "prep_attempt_count p = MAX_PREPARATION_ATTEMPTS"
    and known: "fst err \<noteq> Some SUBMISSION_STATE_UNCERTAIN"
  shows "\<exists>db'. failPreparation cfg now k tok err retry after db = (Inr False, db') \<and> db_inv db' \<and>
     map_option exec_status (exec_of db' (connectorId cfg) k) = Some ExecSkipped \<and>
     map_option pub_status (pub_of db' (connectorId cfg) k) = Some PubSkipped \<and>
     \<not> holds_preparation_claim (connectorId cfg) k tok db'"
proof -
  let ?c = "connectorId cfg" and ?db = "snd (projr (terminal_failure cfg now k tok err db))"
  obtain e b where eb: "exec_of db ?c k = Some e" "pub_of db ?c k = Some b" "exec_status e = ExecPending" "pub_status b = PubPending"
    "steps_of db ?c k = []"
    using preparer_axes [OF invD(3) [OF inv] p(1,2)] by blast
  note op = terminal_failure_def conclude_execution_def Let_def split_beta abandon_fst in_flight_def
    cnt_axis [OF invD(1) [OF inv]] pick_axis [OF invD(1) [OF inv]] p(1,2) eb known
  obtain db' where db': "terminal_failure cfg now k tok err db = Inr (False, db')" "db_inv db'"
    using terminal_failure_ok [OF inv] by blast
  have "\<not> (retry \<and> fst (schedule_retry cfg now k tok err after db) = 1)"
    using p by (simp add: schedule_retry_def Let_def cnt_axis [OF invD(1) [OF inv]])
  from failPreparation_terminal [OF inv this] have "failPreparation cfg now k tok err retry after db = (Inr False, db')"
    using db'(1) by (simp add: transaction_def)
  moreover have "db' = ?db" using db'(1) by simp
  moreover have "map_option exec_status (exec_of ?db ?c k) = Some ExecSkipped" by (simp add: op)
  moreover have "map_option pub_status (pub_of ?db ?c k) = Some PubSkipped" by (simp add: op)
  moreover have "\<not> holds_preparation_claim ?c k tok ?db" by (simp add: op holds_preparation_claim_def preparer_def)
  ultimately show ?thesis using db'(2) by blast
qed

text \<open>C21. A submission whose answer does not reach the connector fails the run on the last attempt, although the submission may be under
  way: the pass records a retryable failure of its own, with no attempt left the store skips the execution and the publication, and the
  service that is still submitting can no longer record that the Execution accepted the run.\<close>

theorem timed_out_submission_failed:
  assumes "calm cn w" "reachable (w_db w)" "prep_of (w_db w) (connectorId (cn_cfg cn)) (pw_run_id work) = Some p"
    "preparer (pw_claim_token work) p" "prep_attempt_count p = MAX_PREPARATION_ATTEMPTS"
    "err = NamedError ''ReviewRunsSubmissionError'' code m"
  shows "pf_retry (classifyPreparationFailure err n False) \<and>
     (\<exists>w'. giveBackPreparation cn work err w = (Inr (), w') \<and>
       map_option exec_status (exec_of (w_db w') (connectorId (cn_cfg cn)) (pw_run_id work)) = Some ExecSkipped \<and>
       map_option pub_status (pub_of (w_db w') (connectorId (cn_cfg cn)) (pw_run_id work)) = Some PubSkipped \<and>
       (\<forall>now context. thrown (fst (markQueued (cn_cfg cn) now (pw_run_id work) (pw_claim_token work) context (w_db w'))) \<and>
          snd (markQueued (cn_cfg cn) now (pw_run_id work) (pw_claim_token work) context (w_db w')) = w_db w'))"
proof -
  let ?f = "classifyPreparationFailure err (pw_attempt_count work) False"
  obtain db' where db': "failPreparation (cn_cfg cn) (clock w 0) (pw_run_id work) (pw_claim_token work)
      (Some ''PREPARATION_RECOVERY_FAILED'', error_message err) (pf_retry ?f) (pf_retryAfterMs ?f) (w_db w) = (Inr False, db')" "db_inv db'"
    "map_option exec_status (exec_of db' (connectorId (cn_cfg cn)) (pw_run_id work)) = Some ExecSkipped"
    "map_option pub_status (pub_of db' (connectorId (cn_cfg cn)) (pw_run_id work)) = Some PubSkipped"
    "\<not> holds_preparation_claim (connectorId (cn_cfg cn)) (pw_run_id work) (pw_claim_token work) db'"
    using last_failure_skips [OF reachable_invD [OF assms(2)] assms(3-5), where err = "(Some ''PREPARATION_RECOVERY_FAILED'', error_message err)"]
    unfolding SUBMISSION_STATE_UNCERTAIN_def by fastforce
  have "giveBackPreparation cn work err w = (Inr (), w\<lparr>w_db := db', w_calls := Suc (w_calls w)\<rparr>)"
    using db'(1) assms(1) by (simp add: giveBackPreparation_def recordPreparationFailure_def catch_def andThen_def remote_calm ret_def)
  moreover have "pf_retry (classifyPreparationFailure err n False)"
    by (simp add: assms(6) classifyPreparationFailure_def retryable_status_def)
  moreover note fenced_queue.refusal [OF invD(1) [OF db'(2)] db'(5)]
  ultimately show ?thesis using db'(3,4) by auto
qed

subsection \<open>A claimed notice is delivered\<close>

definition notice_ours :: "connector \<Rightarrow> notice_work \<Rightarrow> db \<Rightarrow> bool" where
  "notice_ours cn notice db \<longleftrightarrow> reachable db \<and> holds_notice (cn_cfg cn) (nw_notice_id notice) (nw_claim_token notice) db"

text \<open>The notice is settled: delivered with the comment, or failed where there is none.\<close>

definition notice_settled :: "notice_work \<Rightarrow> string option \<Rightarrow> db \<Rightarrow> bool" where
  "notice_settled notice url db \<longleftrightarrow>
     (\<exists>n \<in> set (run_notices db). notice_id n = nw_notice_id notice \<and>
        notice_status n = (if url = None then NoticeFailed else NoticeDelivered) \<and> notice_comment_url n = url)"

lemma holds_notice_cnt:
  assumes "ids_ok db" "holds_notice cfg nid t db"
  shows "cnt_notice (owns_notice cfg nid t) db = 1"
proof -
  obtain n where n: "n \<in> set (run_notices db)" "owns_notice cfg nid t n" using assms(2) by (auto simp: holds_notice_def)
  let ?P = "\<lambda>m. notice_connector_id m = connectorId cfg \<and> notice_status m = NoticeDelivering \<and> notice_claim_token m = Some t"
  have "owns_notice cfg nid t = (\<lambda>m. notice_id m = notice_id n \<and> ?P m)" using n(2) by (auto simp: owns_notice_def)
  moreover have "filter (\<lambda>m. notice_id m = notice_id n \<and> ?P m) (run_notices db) = [n]"
    by (rule filter_id_le1) (use n assms(1) in \<open>auto simp: ids_ok_def owns_notice_def\<close>)
  ultimately show ?thesis by (simp add: cnt_notice_def)
qed

lemma ours_cnt: "notice_ours cn notice db \<Longrightarrow> cnt_notice (owns_notice (cn_cfg cn) (nw_notice_id notice) (nw_claim_token notice)) db = 1"
  unfolding notice_ours_def using holds_notice_cnt [OF invD(2) [OF reachable_invD]] by blast

lemma notice_updated: "n \<in> set (run_notices db) \<Longrightarrow> q n \<Longrightarrow> f n \<in> set (run_notices (upd_notice q f db))"
  by (force simp: upd_notice_def)

lemma ok_renewNotice:
  "ok cn (notice_ours cn notice) (renewNotice cn (nw_notice_id notice) (nw_claim_token notice)) (\<lambda>_. notice_ours cn notice)"
proof -
  let ?id = "nw_notice_id notice" and ?tok = "nw_claim_token notice"
  have "ok cn (notice_ours cn notice) (remote cn [] [] (\<lambda>cfg now. renewNoticeClaim cfg now ?id ?tok)) (\<lambda>done db. done \<and> notice_ours cn notice db)"
  proof (rule ok_remote)
    fix now db assume ours: "notice_ours cn notice db"
    let ?op = "renewNoticeClaim (cn_cfg cn) now ?id ?tok db"
    from ours obtain n where n: "reachable db" "n \<in> set (run_notices db)" "owns_notice (cn_cfg cn) ?id ?tok n"
      by (auto simp: notice_ours_def holds_notice_def)
    have "reachable (snd ?op)" by (rule reachable_step [OF n(1) store_step.renewNoticeClaim])
    moreover have "holds_notice (cn_cfg cn) ?id ?tok (snd ?op)"
      unfolding holds_notice_def renewNoticeClaim_def snd_conv
      by (rule bexI [OF _ notice_updated [where q = "owns_notice (cn_cfg cn) ?id ?tok", OF n(2,3)]]) (use n(3) in \<open>simp add: owns_notice_def\<close>)
    moreover have "fst ?op = Inr True" by (simp add: renewNoticeClaim_def ours_cnt [OF ours])
    ultimately show "\<exists>a. fst ?op = Inr a \<and> a \<and> notice_ours cn notice (snd ?op)" unfolding notice_ours_def by blast
  qed
  then show ?thesis unfolding ok_def renewNotice_def Let_def by (fastforce simp: calm_beat calm_def)
qed

lemma ok_completeNotice: "ok cn (notice_ours cn notice) (completeRunNotice cn notice url) (\<lambda>_. notice_settled notice url)"
  unfolding completeRunNotice_def
proof (rule ok_andThen [where Q = "\<lambda>_. notice_settled notice url"], rule ok_remote)
  fix now db assume ours: "notice_ours cn notice db"
  let ?q = "owns_notice (cn_cfg cn) (nw_notice_id notice) (nw_claim_token notice)"
  let ?g = "\<lambda>n. n\<lparr>notice_status := (if url \<noteq> None then NoticeDelivered else NoticeFailed), notice_claim_token := None,
      notice_claimed_at := None, notice_comment_url := url, notice_updated_at := now\<rparr>"
  let ?op = "completeNotice (cn_cfg cn) now (nw_notice_id notice) (nw_claim_token notice) (url \<noteq> None) url db"
  from ours obtain n where n: "n \<in> set (run_notices db)" "?q n" by (auto simp: notice_ours_def holds_notice_def)
  have op: "?op = (Inr True, upd_notice ?q ?g db)" by (simp add: completeNotice_def transaction_def ours_cnt [OF ours])
  have "?g n \<in> set (run_notices (upd_notice ?q ?g db))" by (rule notice_updated [where q = ?q, OF n])
  then have "notice_settled notice url (upd_notice ?q ?g db)"
    unfolding notice_settled_def by (rule rev_bexI) (use n(2) in \<open>simp add: owns_notice_def\<close>)
  then show "\<exists>a. fst ?op = Inr a \<and> notice_settled notice url (snd ?op)" unfolding op by (intro exI [of _ True]) simp
qed (rule ok_ret)

text \<open>GitHub answers the notice's reply with the comment \<open>url\<close>, having let the claim be asserted.\<close>

definition hub_works :: "connector \<Rightarrow> notice_hub \<Rightarrow> notice_work \<Rightarrow> string \<Rightarrow> bool" where
  "hub_works cn nh notice url \<longleftrightarrow>
     (\<forall>name. ok cn (notice_ours cn notice) (nh_octokit nh name) (\<lambda>_. notice_ours cn notice)) \<and>
     (\<forall>repo. ok cn (notice_ours cn notice) (nh_repository nh repo) (\<lambda>_. notice_ours cn notice)) \<and>
     (\<forall>repo. ok cn (notice_ours cn notice) (nh_summary_issue nh repo (renewNotice cn (nw_notice_id notice) (nw_claim_token notice)))
        (\<lambda>_. notice_ours cn notice)) \<and>
     (\<forall>repo issue. ok cn (notice_ours cn notice)
        (nh_comment nh repo issue (notice_body notice) (notice_marker (nw_notice_id notice))
           (renewNotice cn (nw_notice_id notice) (nw_claim_token notice)))
        (\<lambda>u db. u = url \<and> notice_ours cn notice db))"

lemma ok_sendReply:
  assumes "hub_works cn nh notice url"
  shows "ok cn (notice_ours cn notice) (sendRunNoticeReply nh notice (renewNotice cn (nw_notice_id notice) (nw_claim_token notice)))
     (\<lambda>out db. out = (if replyTarget (nw_input notice) = None \<and> repositoryScope (nw_input notice) = None then None else Some url) \<and>
        notice_ours cn notice db)"
proof -
  let ?a = "renewNotice cn (nw_notice_id notice) (nw_claim_token notice)"
  have hub: "ok cn (notice_ours cn notice) (assertRepositoryIsInstalled nh repo) (\<lambda>_. notice_ours cn notice)"
    "ok cn (notice_ours cn notice) (nh_summary_issue nh repo ?a) (\<lambda>_. notice_ours cn notice)"
    "ok cn (notice_ours cn notice) (nh_comment nh repo issue (notice_body notice) (notice_marker (nw_notice_id notice)) ?a)
      (\<lambda>u db. u = url \<and> notice_ours cn notice db)" for repo issue
    using assms unfolding hub_works_def assertRepositoryIsInstalled_def by (blast intro: ok_catch)+
  have post: "ok cn (notice_ours cn notice)
      (andThen (nh_comment nh repo issue (notice_body notice) (notice_marker (nw_notice_id notice)) ?a) (\<lambda>u. ret (Some u)))
      (\<lambda>out db. out = Some url \<and> notice_ours cn notice db)" for repo issue
    by (rule ok_andThen [OF hub(3)], rule ok_ret) simp
  show ?thesis
    unfolding sendRunNoticeReply_def Let_def
    by (auto split: option.split intro!: ok_ret ok_andThen [OF hub(1)] ok_andThen [OF hub(2)] post)
qed

lemma ok_stopHeartbeat [triples]: "ok cn P (stopHeartbeat cn) (\<lambda>owned db. owned \<and> P db)"
  by (auto simp: ok_def stopHeartbeat_def calm_beat calm_def)

text \<open>The comment a notice ends with: none where its input names no repository or no place to reply.\<close>

definition reply_url :: "string \<Rightarrow> json \<Rightarrow> string option \<Rightarrow> string option" where
  "reply_url url inp repo = (if repo = None \<or> replyTarget inp = None \<and> repositoryScope inp = None then None else Some url)"

lemma ok_deliverNotice:
  assumes "hub_works cn nh notice url" "json_is_object (nw_input notice)" "noticeRepository (nw_input notice) = Inr repo"
  shows "ok cn (notice_ours cn notice) (deliverNotice cn nh notice) (\<lambda>_. notice_settled notice (reply_url url (nw_input notice) repo))"
proof -
  let ?out = "reply_url url (nw_input notice) repo" and ?a = "renewNotice cn (nw_notice_id notice) (nw_claim_token notice)"
  have reply: "ok cn (notice_ours cn notice) (nh_octokit nh name) (\<lambda>_. notice_ours cn notice)" for name
    using assms(1) unfolding hub_works_def by blast
  have "ok cn (notice_ours cn notice)
      (case repo of None \<Rightarrow> ret None | Some name \<Rightarrow> andThen (nh_octokit nh name) (\<lambda>_. sendRunNoticeReply nh notice ?a))
      (\<lambda>out db. out = ?out \<and> notice_ours cn notice db)"
  proof (cases repo)
    case None
    then show ?thesis by (auto simp: reply_url_def intro: ok_ret)
  next
    case (Some name)
    then have "reply_url url (nw_input notice) repo =
        (if replyTarget (nw_input notice) = None \<and> repositoryScope (nw_input notice) = None then None else Some url)"
      by (simp add: reply_url_def)
    then show ?thesis using ok_andThen [OF reply ok_sendReply [OF assms(1)]] Some by simp
  qed
  note reply = this
  have finish: "ok cn (\<lambda>db. out = ?out \<and> notice_ours cn notice db)
      (andThen (stopHeartbeat cn) (\<lambda>owned. if \<not> owned then ret () else completeRunNotice cn notice out))
      (\<lambda>_. notice_settled notice ?out)" for out
  proof (rule ok_known)
    assume "out = ?out"
    then show "ok cn (notice_ours cn notice)
        (andThen (stopHeartbeat cn) (\<lambda>owned. if \<not> owned then ret () else completeRunNotice cn notice out)) (\<lambda>_. notice_settled notice ?out)"
      by (auto intro!: ok_andThen [OF ok_stopHeartbeat] ok_known ok_completeNotice)
  qed
  have "ok cn (\<lambda>db. r = repo \<and> notice_ours cn notice db)
      (andThen (case r of None \<Rightarrow> ret None | Some name \<Rightarrow> andThen (nh_octokit nh name) (\<lambda>_. sendRunNoticeReply nh notice ?a))
        (\<lambda>delivered. andThen (stopHeartbeat cn) (\<lambda>owned. if \<not> owned then ret () else completeRunNotice cn notice delivered)))
      (\<lambda>_. notice_settled notice ?out)" for r
    by (rule ok_known) (use ok_andThen [OF reply finish] in simp)
  note body = this
  show ?thesis
    unfolding deliverNotice_def assms(3)
    by (rule ok_andThen [OF ok_await body]) (simp add: assms(2))
qed

lemma calm_unlost: "calm cn w \<Longrightarrow> w\<lparr>w_lost := False\<rparr> = w"
  by (cases w) (simp add: calm_def)

lemma claimed_notice:
  assumes "reachable db" "claimNextNotice (cn_cfg cn) now locked tok db = (Inr (Some notice), db')"
  shows "notice_ours cn notice db'"
proof -
  let ?cfg = "cn_cfg cn"
  obtain n where n: "notice_candidate ?cfg now locked db = Some n"
    using assms(2) by (auto simp: claimNextNotice_def transaction_def split: option.splits)
  let ?hit = "\<lambda>m. notice_id m = notice_id n \<and> notice_connector_id m = connectorId ?cfg \<and> notice_status m = notice_status n \<and>
    (notice_status n \<noteq> NoticeDelivering \<or> lease_expired ?cfg now (notice_claimed_at m))"
  let ?g = "\<lambda>m. m\<lparr>notice_status := NoticeDelivering, notice_claim_token := Some tok, notice_claimed_at := Some now, notice_updated_at := now\<rparr>"
  note cand = notice_candidateD [OF n]
  have db': "db' = upd_notice ?hit ?g db" "nw_notice_id notice = notice_id n" "nw_claim_token notice = tok"
    using assms(2) n by (auto simp: claimNextNotice_def transaction_def Let_def split: if_splits)
  have "?hit n" using cand(2) by (auto simp: notice_claimable_def)
  from notice_updated [where q = ?hit and f = ?g, OF cand(1) this] \<open>?hit n\<close> have "holds_notice ?cfg (notice_id n) tok db'"
    unfolding db' holds_notice_def by (intro bexI) (auto simp: owns_notice_def)
  moreover have "reachable db'"
    using reachable_step [OF assms(1) store_step.claimNextNotice [of db ?cfg now locked tok]] assms(2) by simp
  ultimately show ?thesis by (simp add: notice_ours_def db'(2,3))
qed

text \<open>C16. On a schedule without interference and lost requests, where GitHub answers every request, a pass of the notice worker settles the
  notice it claims, if the stored input is an object whose repository, where it has one, is well formed: a notice whose input names a
  repository and a place to reply is delivered with the URL of the comment, and one without is failed, with no comment.\<close>

theorem notice_settles:
  assumes "calm cn w" "reachable (w_db w)"
    and claim: "claimNextNotice (cn_cfg cn) (clock w 0) locked (turn_token (w_turns w (w_calls w))) (w_db w) = (Inr (Some notice), db')"
    and hub: "hub_works cn nh notice url" "json_is_object (nw_input notice)" "noticeRepository (nw_input notice) = Inr repo"
  shows "\<exists>w'. deliverRunNoticeOnce cn nh locked w = (Inr True, w') \<and>
     notice_settled notice (reply_url url (nw_input notice) repo) (w_db w')"
proof -
  let ?id = "nw_notice_id notice" and ?tok = "nw_claim_token notice"
  let ?w = "w\<lparr>w_db := db', w_calls := Suc (w_calls w)\<rparr>"
  have start: "ok cn (notice_ours cn notice) (startRunNoticeClaimHeartbeat cn ?id ?tok) (\<lambda>_. notice_ours cn notice)"
  proof -
    have "ok cn (notice_ours cn notice) (andThen (remote cn [] [] (\<lambda>cfg now db. (Inr (noticeHeartbeatIntervalMs cfg), db)))
        (\<lambda>intervalMs. renewNotice cn ?id ?tok)) (\<lambda>_. notice_ours cn notice)"
      by (rule ok_andThen [OF ok_remote ok_renewNotice]) simp
    then show ?thesis unfolding ok_def startRunNoticeClaimHeartbeat_def by (metis calm_unlost)
  qed
  have "ok cn (notice_ours cn notice) (andThen (startRunNoticeClaimHeartbeat cn ?id ?tok) (\<lambda>_.
      catch (deliverNotice cn nh notice) (\<lambda>err. andThen (stopHeartbeat cn) (\<lambda>_. throw err))))
      (\<lambda>_. notice_settled notice (reply_url url (nw_input notice) repo))"
    by (rule ok_andThen [OF start], rule ok_catch, rule ok_deliverNotice [OF hub])
  then obtain w' where w': "andThen (startRunNoticeClaimHeartbeat cn ?id ?tok) (\<lambda>_.
      catch (deliverNotice cn nh notice) (\<lambda>err. andThen (stopHeartbeat cn) (\<lambda>_. throw err))) ?w = (Inr (), w')"
    "notice_settled notice (reply_url url (nw_input notice) repo) (w_db w')"
    using claimed_notice [OF assms(2) claim] assms(1) by (auto elim!: okE [where w = ?w])
  have "call_with (http_error [] []) (\<lambda>now tok. claimNextNotice (cn_cfg cn) now locked tok) (beat cn w) = (Inr (Some notice), ?w)"
    using claim assms(1) by (simp add: calm_beat call_quiet calm_def)
  then have "deliverRunNoticeOnce cn nh locked w = (Inr True, w')"
    using w'(1) unfolding deliverRunNoticeOnce_def by (simp add: andThen_Inr) (simp add: andThen_def catch_def ret_def)
  then show ?thesis using w'(2) by blast
qed

subsection \<open>Concrete passes of the workers\<close>

definition demo_bench :: workbench where
  "demo_bench =
     \<lparr>wb_parse_url = demo_url, wb_submit = (\<lambda>flow k inp. Inr ()), wb_seen = id, wb_run_id = ''run-2'',
      wb_context = (\<lambda>flow v. Inr v), wb_reference = (\<lambda>v k. Inr demo_reference), wb_fits = (\<lambda>v. Inr ()),
      wb_upload = (\<lambda>v k. ret ()), wb_exists = (\<lambda>r. ret True), wb_parse = (\<lambda>flow v. Inr v), wb_octokit = (\<lambda>flow v. ret ()),
      wb_resolve = (\<lambda>v. ret ()),
      wb_prepare = (\<lambda>flow v k save. andThen (save v) (\<lambda>_. ret (JObj [], demo_bundle_input)))\<rparr>"

definition demo_hub :: notice_hub where
  "demo_hub =
     \<lparr>nh_octokit = (\<lambda>name. ret ()), nh_repository = (\<lambda>repo. ret ()), nh_summary_issue = (\<lambda>repo a. andThen a (\<lambda>_. ret 1)),
      nh_comment = (\<lambda>repo issue body marker a. andThen a (\<lambda>_. ret ''url''))\<rparr>"

text \<open>A run on its last preparation attempt.\<close>

definition demo_reattempt :: "nat \<Rightarrow> db \<Rightarrow> db" where
  "demo_reattempt i db =
     snd (claimNext demo_cfg 3 (\<lambda>_. False) (Suc i) (snd (failPreparation demo_cfg 2 ''run-1'' i (None, ''down'') True (Some 0) db)))"

definition demo_last_attempt :: db where
  "demo_last_attempt = fold demo_reattempt [1, 2, 3, 4, 5, 6, 7] demo_fresh"

lemma demo_last_attempt_reachable: "reachable demo_last_attempt"
proof -
  have step: "reachable db \<Longrightarrow> reachable (demo_reattempt i db)" for i db
    unfolding demo_reattempt_def by (intro reachable_step [OF _ store_step.claimNext] reachable_step [OF _ store_step.failPreparation])
  have "reachable demo_fresh" unfolding demo_fresh_def by (intro reachable_step [OF _ store_step.create] reachable_empty)
  then show ?thesis unfolding demo_last_attempt_def by (simp add: step)
qed

lemma demo_last_attempt: "case prep_of demo_last_attempt ''github:1'' ''run-1'' of
    Some p \<Rightarrow> preparer 8 p \<and> prep_attempt_count p = MAX_PREPARATION_ATTEMPTS | None \<Rightarrow> False"
  by code_simp

definition demo_work :: preparation_work where
  "demo_work = \<lparr>pw_run_id = ''run-1'', pw_workflow = IssueReview, pw_input_version = ''v1'', pw_input = JObj [], pw_claim_token = 8,
     pw_attempt_count = 8\<rparr>"

theorem timed_out_submission_failed_witness:
  "map_option exec_status (exec_of (w_db (snd (giveBackPreparation demo_publisher demo_work
     (NamedError ''ReviewRunsSubmissionError'' None ''timeout'') (demo_world 1 (\<lambda>_. Clean) demo_last_attempt)))) ''github:1'' ''run-1'') =
   Some ExecSkipped"
proof -
  obtain p where p: "prep_of demo_last_attempt ''github:1'' ''run-1'' = Some p" "preparer 8 p" "prep_attempt_count p = MAX_PREPARATION_ATTEMPTS"
    using demo_last_attempt by (auto split: option.splits)
  let ?w = "demo_world 1 (\<lambda>_. Clean) demo_last_attempt"
  have at: "connectorId (cn_cfg demo_publisher) = ''github:1''" "pw_run_id demo_work = ''run-1''" "pw_claim_token demo_work = 8"
    by (simp_all add: demo_publisher_def demo_cfg_def demo_work_def)
  have start: "reachable (w_db ?w)" "prep_of (w_db ?w) (connectorId (cn_cfg demo_publisher)) (pw_run_id demo_work) = Some p"
    "preparer (pw_claim_token demo_work) p"
    using p demo_last_attempt_reachable by (simp_all only: at demo_world)
  from timed_out_submission_failed [where code = None and m = "''timeout''", OF demo_calm start p(3) refl, unfolded at, THEN conjunct2]
  show ?thesis by (elim exE conjE) (simp only: snd_conv)
qed

text \<open>A run whose execution failed, admitted from an issue: its notice is to be delivered.\<close>

definition demo_issue_input :: json where
  "demo_issue_input = JObj [(''issue'', JObj [(''repo_full_name'', JStr ''o/r''), (''owner_login'', JStr ''o''), (''repo_name'', JStr ''r''),
     (''issue_number'', JNum 7)])]"

definition demo_broken :: db where
  "demo_broken = snd (failExecution demo_cfg 2 ''run-1'' (Some ''EXECUTION_FAILED'', ''boom'') None
     (snd (markQueued demo_cfg 1 ''run-1'' 1 (JObj [])
       (snd (create demo_cfg ''github'' 0 1 (demo_run\<lparr>ca_preparation_input := Some demo_issue_input\<rparr>) empty_db)))))"

lemma demo_broken_reachable: "reachable demo_broken"
  unfolding demo_broken_def
  by (intro reachable_step [OF _ store_step.failExecution] reachable_step [OF _ store_step.markQueued]
      reachable_step [OF _ store_step.create] reachable_empty)

lemma demo_notice: "case claimNextNotice demo_cfg 10 (\<lambda>_. False) 100 demo_broken of
    (Inr (Some notice), db') \<Rightarrow> nw_input notice = demo_issue_input | _ \<Rightarrow> False"
  by code_simp

lemma demo_hub_works: "hub_works demo_publisher demo_hub notice ''url''"
  unfolding hub_works_def demo_hub_def
  by (auto intro!: ok_ret ok_andThen [OF ok_renewNotice])

theorem notice_settles_witness:
  "list_ex (\<lambda>n. notice_status n = NoticeDelivered \<and> notice_comment_url n = Some ''url'')
     (run_notices (w_db (snd (deliverRunNoticeOnce demo_publisher demo_hub (\<lambda>_. False) (demo_world 1 (\<lambda>_. Clean) demo_broken)))))"
proof -
  obtain notice db' where notice: "claimNextNotice demo_cfg 10 (\<lambda>_. False) 100 demo_broken = (Inr (Some notice), db')"
    "nw_input notice = demo_issue_input"
    using demo_notice by (auto split: prod.splits sum.splits option.splits)
  let ?w = "demo_world 1 (\<lambda>_. Clean) demo_broken"
  have claim: "claimNextNotice (cn_cfg demo_publisher) (clock ?w 0) (\<lambda>_. False) (turn_token (w_turns ?w (w_calls ?w))) (w_db ?w) =
      (Inr (Some notice), db')"
    using notice(1) by (simp add: demo_publisher_def)
  have place: "json_is_object demo_issue_input \<and> noticeRepository demo_issue_input = Inr (Some ''o/r'') \<and>
      reply_url ''url'' demo_issue_input (Some ''o/r'') = Some ''url''" by code_simp
  then have "json_is_object (nw_input notice)" "noticeRepository (nw_input notice) = Inr (Some ''o/r'')"
      "reply_url ''url'' (nw_input notice) (Some ''o/r'') = Some ''url''" using notice(2) by simp_all
  moreover have "reachable (w_db ?w)" using demo_broken_reachable by simp
  ultimately obtain w' where "deliverRunNoticeOnce demo_publisher demo_hub (\<lambda>_. False) ?w = (Inr True, w')"
    "notice_settled notice (Some ''url'') (w_db w')"
    using notice_settles [OF demo_calm _ claim demo_hub_works] by metis
  then show ?thesis by (auto simp: notice_settled_def list_ex_iff)
qed

end
