(* ===== verification/StoredInputs.thy ===== *)
theory StoredInputs
  imports Preparing
begin

text \<open>
  What the connector reads from a webhook payload and what it stores of it: the contexts of \<^verbatim>\<open>github/issue-service.ts\<close> and
  \<^verbatim>\<open>github/pull-request-service.ts\<close>, the preparation inputs the triggers store and \<^verbatim>\<open>review-runs/preparation-input.ts\<close>, which parses them
  when a run is recovered. A payload is a JSON value, a missing field \<open>None\<close>. A field is looked up by its key, so the order in which
  \<^verbatim>\<open>jsonb\<close> keeps the keys does not matter.
\<close>

subsection \<open>Reading a payload\<close>

definition asRecord :: "json option \<Rightarrow> json" where
  "asRecord v = (case v of Some (JObj kvs) \<Rightarrow> JObj kvs | _ \<Rightarrow> JObj [])"

definition asString :: "json option \<Rightarrow> string" where
  "asString v = coalesce (string_field v) []"

definition asNumber :: "json option \<Rightarrow> rat" where
  "asNumber v = (case v of Some (JNum n) \<Rightarrow> n | _ \<Rightarrow> 0)"

definition asBoolean :: "json option \<Rightarrow> bool" where
  "asBoolean v = (v = Some (JBool True))"

text \<open>\<^verbatim>\<open>Boolean(value)\<close>.\<close>

definition js_truthy :: "json option \<Rightarrow> bool" where
  "js_truthy v = (v \<notin> {None, Some JNull, Some (JBool False), Some (JNum 0), Some (JStr [])})"

definition extraction_error :: "string \<Rightarrow> string \<Rightarrow> js_error" where
  "extraction_error what label =
     NamedError (what @ ''ContextExtractionError'') None
       ((if what = ''Issue'' then ''Issue'' else ''Pull request'') @ '' webhook payload is missing '' @ label @ ''.'')"

definition need_text :: "string \<Rightarrow> string \<Rightarrow> string \<Rightarrow> js_error + unit" where
  "need_text what value label = (if js_trim value = [] then Inl (extraction_error what label) else Inr ())"

definition need_positive :: "string \<Rightarrow> rat \<Rightarrow> string \<Rightarrow> js_error + unit" where
  "need_positive what value label = (if of_int \<lfloor>value\<rfloor> \<noteq> value \<or> value \<le> 0 then Inl (extraction_error what label) else Inr ())"

text \<open>The checks of a context, in order, and the context when all pass.\<close>

primrec checked :: "(js_error + unit) list \<Rightarrow> 'a \<Rightarrow> js_error + 'a" where
  "checked [] context = Inr context"
| "checked (c # cs) context = orThrow c (\<lambda>_. checked cs context)"

record issue_context =
  ic_action :: string
  ic_repo_name :: string
  ic_repo_full_name :: string
  ic_owner_login :: string
  ic_sender_login :: "string option"
  ic_default_branch :: string
  ic_issue_number :: rat
  ic_issue_title :: string
  ic_issue_body :: "string option"
  ic_issue_author :: "string option"
  ic_issue_state :: string
  ic_labels :: "string list"
  ic_html_url :: string
  ic_api_url :: string
  ic_comments_url :: string
  ic_is_pull_request :: bool

definition label_names :: "json option \<Rightarrow> string list" where
  "label_names v =
     (case v of
        Some (JArr labels) \<Rightarrow> filter (\<lambda>l. l \<noteq> []) (List.map_filter (\<lambda>label. string_field (json_field label ''name'')) labels)
      | _ \<Rightarrow> [])"

definition requireIssueContext :: "issue_context \<Rightarrow> js_error + issue_context" where
  "requireIssueContext c =
     checked
       [need_text ''Issue'' (ic_repo_name c) ''repository.name'',
        need_text ''Issue'' (ic_repo_full_name c) ''repository.full_name'',
        need_text ''Issue'' (ic_owner_login c) ''repository.owner.login'',
        need_text ''Issue'' (ic_default_branch c) ''repository.default_branch'',
        need_positive ''Issue'' (ic_issue_number c) ''issue.number'',
        need_text ''Issue'' (ic_issue_title c) ''issue.title'',
        need_text ''Issue'' (ic_issue_state c) ''issue.state''] c"

definition extractIssueContext :: "json \<Rightarrow> js_error + issue_context" where
  "extractIssueContext payload =
     (let rawPayload = asRecord (Some payload);
          repository = asRecord (json_field rawPayload ''repository'');
          repositoryOwner = asRecord (json_field repository ''owner'');
          sender = asRecord (json_field rawPayload ''sender'');
          issue = asRecord (json_field rawPayload ''issue'');
          issueUser = asRecord (json_field issue ''user'')
      in requireIssueContext
        \<lparr>ic_action = asString (json_field rawPayload ''action''),
         ic_repo_name = asString (json_field repository ''name''),
         ic_repo_full_name = asString (json_field repository ''full_name''),
         ic_owner_login = asString (json_field repositoryOwner ''login''),
         ic_sender_login = optionalString (json_field sender ''login''),
         ic_default_branch = asString (json_field repository ''default_branch''),
         ic_issue_number = asNumber (json_field issue ''number''),
         ic_issue_title = asString (json_field issue ''title''),
         ic_issue_body = optionalString (json_field issue ''body''),
         ic_issue_author = optionalString (json_field issueUser ''login''),
         ic_issue_state = asString (json_field issue ''state''),
         ic_labels = label_names (json_field issue ''labels''),
         ic_html_url = asString (json_field issue ''html_url''),
         ic_api_url = asString (json_field issue ''url''),
         ic_comments_url = asString (json_field issue ''comments_url''),
         ic_is_pull_request = js_truthy (json_field issue ''pull_request'')\<rparr>)"

record pull_request_context =
  pc_action :: string
  pc_previous_head_sha :: "string option"
  pc_repo_name :: string
  pc_repo_full_name :: string
  pc_owner_login :: string
  pc_sender_login :: "string option"
  pc_pr_number :: rat
  pc_pr_title :: string
  pc_pr_body :: "string option"
  pc_pr_author :: "string option"
  pc_is_draft :: bool
  pc_base_ref :: string
  pc_base_sha :: string
  pc_head_ref :: string
  pc_head_sha :: string
  pc_commits :: rat
  pc_changed_files :: rat
  pc_additions :: rat
  pc_deletions :: rat
  pc_html_url :: string
  pc_api_url :: string
  pc_commits_url :: string
  pc_review_comments_url :: string
  pc_comments_url :: string
  pc_issue_url :: string
  pc_head_repo_full_name :: "string option"
  pc_base_repo_full_name :: "string option"
  pc_from_fork :: bool

definition isForkPullRequest :: "string option \<Rightarrow> string option \<Rightarrow> bool" where
  "isForkPullRequest head_repo_full_name base_repo_full_name \<longleftrightarrow>
     head_repo_full_name = None \<or> base_repo_full_name = None \<or> head_repo_full_name \<noteq> base_repo_full_name"

definition requirePullRequestContext :: "pull_request_context \<Rightarrow> js_error + pull_request_context" where
  "requirePullRequestContext c =
     checked
       [need_text ''PullRequest'' (pc_repo_name c) ''repository.name'',
        need_text ''PullRequest'' (pc_repo_full_name c) ''repository.full_name'',
        need_text ''PullRequest'' (pc_owner_login c) ''repository.owner.login'',
        need_positive ''PullRequest'' (pc_pr_number c) ''pull_request.number'',
        need_text ''PullRequest'' (pc_pr_title c) ''pull_request.title'',
        need_text ''PullRequest'' (pc_base_ref c) ''pull_request.base.ref'',
        need_text ''PullRequest'' (pc_base_sha c) ''pull_request.base.sha'',
        need_text ''PullRequest'' (pc_head_ref c) ''pull_request.head.ref'',
        need_text ''PullRequest'' (pc_head_sha c) ''pull_request.head.sha''] c"

definition buildPullRequestContextFromRaw :: "json \<Rightarrow> js_error + pull_request_context" where
  "buildPullRequestContextFromRaw rawPayload =
     (let repository = asRecord (json_field rawPayload ''repository'');
          repositoryOwner = asRecord (json_field repository ''owner'');
          sender = asRecord (json_field rawPayload ''sender'');
          pullRequest = asRecord (json_field rawPayload ''pull_request'');
          pullRequestUser = asRecord (json_field pullRequest ''user'');
          pullRequestBase = asRecord (json_field pullRequest ''base'');
          pullRequestHead = asRecord (json_field pullRequest ''head'');
          head_repo_full_name = optionalString (json_field (asRecord (json_field pullRequestHead ''repo'')) ''full_name'');
          base_repo_full_name = optionalString (json_field (asRecord (json_field pullRequestBase ''repo'')) ''full_name'')
      in requirePullRequestContext
        \<lparr>pc_action = asString (json_field rawPayload ''action''),
         pc_previous_head_sha = optionalString (json_field rawPayload ''before''),
         pc_repo_name = asString (json_field repository ''name''),
         pc_repo_full_name = asString (json_field repository ''full_name''),
         pc_owner_login = asString (json_field repositoryOwner ''login''),
         pc_sender_login = optionalString (json_field sender ''login''),
         pc_pr_number = asNumber (json_field pullRequest ''number''),
         pc_pr_title = asString (json_field pullRequest ''title''),
         pc_pr_body = optionalString (json_field pullRequest ''body''),
         pc_pr_author = optionalString (json_field pullRequestUser ''login''),
         pc_is_draft = asBoolean (json_field pullRequest ''draft''),
         pc_base_ref = asString (json_field pullRequestBase ''ref''),
         pc_base_sha = asString (json_field pullRequestBase ''sha''),
         pc_head_ref = asString (json_field pullRequestHead ''ref''),
         pc_head_sha = asString (json_field pullRequestHead ''sha''),
         pc_commits = asNumber (json_field pullRequest ''commits''),
         pc_changed_files = asNumber (json_field pullRequest ''changed_files''),
         pc_additions = asNumber (json_field pullRequest ''additions''),
         pc_deletions = asNumber (json_field pullRequest ''deletions''),
         pc_html_url = asString (json_field pullRequest ''html_url''),
         pc_api_url = asString (json_field pullRequest ''url''),
         pc_commits_url = asString (json_field pullRequest ''commits_url''),
         pc_review_comments_url = asString (json_field pullRequest ''review_comments_url''),
         pc_comments_url = asString (json_field pullRequest ''comments_url''),
         pc_issue_url = asString (json_field pullRequest ''issue_url''),
         pc_head_repo_full_name = head_repo_full_name,
         pc_base_repo_full_name = base_repo_full_name,
         pc_from_fork = isForkPullRequest head_repo_full_name base_repo_full_name\<rparr>)"

definition extractPullRequestContext :: "json \<Rightarrow> js_error + pull_request_context" where
  "extractPullRequestContext payload = buildPullRequestContextFromRaw (asRecord (Some payload))"

text \<open>\<open>data\<close> is the body of GitHub's answer to \<^verbatim>\<open>pulls.get\<close>.\<close>

definition getPullRequestContext :: "json \<Rightarrow> string \<Rightarrow> string \<Rightarrow> js_error + pull_request_context" where
  "getPullRequestContext data owner_login repo_name =
     (let baseRepo = asRecord (json_field (asRecord (json_field data ''base'')) ''repo'');
          full_name = asString (json_field baseRepo ''full_name'');
          login = asString (json_field (asRecord (json_field baseRepo ''owner'')) ''login'')
      in buildPullRequestContextFromRaw
        (JObj [(''action'', JStr ''manual_review''), (''before'', JNull),
          (''repository'', JObj [(''name'', JStr repo_name),
             (''full_name'', JStr (if full_name = [] then owner_login @ ''/'' @ repo_name else full_name)),
             (''owner'', JObj [(''login'', JStr (if login = [] then owner_login else login))])]),
          (''sender'', JNull), (''pull_request'', data)]))"

subsection \<open>The preparation inputs\<close>

record trusted_default_branch =
  tb_default_branch :: string
  tb_head_sha :: string

datatype issue_event = IssueOpened | IssueManualReview
datatype pull_request_event = PrOpened | PrReadyForReview | PrSynchronize | PrManualReview
datatype review_objective = Audit | Repair

record pull_request_reference =
  ref_owner_login :: string
  ref_repo_name :: string
  ref_pr_number :: rat

record issue_preparation_input =
  ii_issue :: issue_context
  ii_branch :: trusted_default_branch
  ii_event :: issue_event
  ii_objective :: "review_objective option"
  ii_test_changes :: "test_changes_policy option"
  ii_open_pr :: "bool option"

record pull_request_preparation_input =
  pi_branch :: trusted_default_branch
  pi_event :: pull_request_event
  pi_test_changes :: "test_changes_policy option"
  pi_subject :: "pull_request_context + pull_request_reference"

definition issue_events :: "(string \<times> issue_event) list" where
  "issue_events = [(''opened'', IssueOpened), (''manual_review'', IssueManualReview)]"

definition pull_request_events :: "(string \<times> pull_request_event) list" where
  "pull_request_events = [(''opened'', PrOpened), (''ready_for_review'', PrReadyForReview), (''synchronize'', PrSynchronize),
     (''manual_review'', PrManualReview)]"

definition objectives :: "(string \<times> review_objective) list" where
  "objectives = [(''audit'', Audit), (''repair'', Repair)]"

definition test_policies :: "(string \<times> test_changes_policy) list" where
  "test_policies = [(''allow'', AllowTests), (''deny'', DenyTests)]"

text \<open>The text of a choice.\<close>

definition choice_text :: "(string \<times> 'a) list \<Rightarrow> 'a \<Rightarrow> json" where
  "choice_text choices x = (case find (\<lambda>c. snd c = x) choices of Some c \<Rightarrow> JStr (fst c) | None \<Rightarrow> JNull)"

definition or_null :: "('a \<Rightarrow> json) \<Rightarrow> 'a option \<Rightarrow> json" where
  "or_null f v = (case v of None \<Rightarrow> JNull | Some x \<Rightarrow> f x)"

text \<open>A field \<^verbatim>\<open>JSON.stringify\<close> leaves out when it is \<^verbatim>\<open>undefined\<close>.\<close>

definition or_omitted :: "string \<Rightarrow> string option \<Rightarrow> (string \<times> json) list" where
  "or_omitted k v = (case v of None \<Rightarrow> [] | Some s \<Rightarrow> [(k, JStr s)])"

definition issue_json :: "issue_context \<Rightarrow> json" where
  "issue_json c =
     JObj ([(''action'', JStr (ic_action c)), (''repo_name'', JStr (ic_repo_name c)),
       (''repo_full_name'', JStr (ic_repo_full_name c)), (''owner_login'', JStr (ic_owner_login c))] @
       or_omitted ''sender_login'' (ic_sender_login c) @
       [(''default_branch'', JStr (ic_default_branch c)), (''issue_number'', JNum (ic_issue_number c)),
        (''issue_title'', JStr (ic_issue_title c)), (''issue_body'', or_null JStr (ic_issue_body c))] @
       or_omitted ''issue_author'' (ic_issue_author c) @
       [(''issue_state'', JStr (ic_issue_state c)), (''labels'', JArr (map JStr (ic_labels c))),
        (''html_url'', JStr (ic_html_url c)), (''api_url'', JStr (ic_api_url c)), (''comments_url'', JStr (ic_comments_url c)),
        (''is_pull_request'', JBool (ic_is_pull_request c))])"

definition pull_request_json :: "pull_request_context \<Rightarrow> json" where
  "pull_request_json c =
     JObj [(''action'', JStr (pc_action c)), (''previous_head_sha'', or_null JStr (pc_previous_head_sha c)),
       (''repo_name'', JStr (pc_repo_name c)), (''repo_full_name'', JStr (pc_repo_full_name c)),
       (''owner_login'', JStr (pc_owner_login c)), (''sender_login'', or_null JStr (pc_sender_login c)),
       (''pr_number'', JNum (pc_pr_number c)), (''pr_title'', JStr (pc_pr_title c)),
       (''pr_body'', or_null JStr (pc_pr_body c)), (''pr_author'', or_null JStr (pc_pr_author c)),
       (''is_draft'', JBool (pc_is_draft c)), (''base_ref'', JStr (pc_base_ref c)), (''base_sha'', JStr (pc_base_sha c)),
       (''head_ref'', JStr (pc_head_ref c)), (''head_sha'', JStr (pc_head_sha c)), (''commits'', JNum (pc_commits c)),
       (''changed_files'', JNum (pc_changed_files c)), (''additions'', JNum (pc_additions c)),
       (''deletions'', JNum (pc_deletions c)), (''html_url'', JStr (pc_html_url c)), (''api_url'', JStr (pc_api_url c)),
       (''commits_url'', JStr (pc_commits_url c)), (''review_comments_url'', JStr (pc_review_comments_url c)),
       (''comments_url'', JStr (pc_comments_url c)), (''issue_url'', JStr (pc_issue_url c)),
       (''head_repo_full_name'', or_null JStr (pc_head_repo_full_name c)),
       (''base_repo_full_name'', or_null JStr (pc_base_repo_full_name c)), (''from_fork'', JBool (pc_from_fork c))]"

definition branch_json :: "trusted_default_branch \<Rightarrow> json" where
  "branch_json b = JObj [(''default_branch'', JStr (tb_default_branch b)), (''head_sha'', JStr (tb_head_sha b))]"

text \<open>What \<^verbatim>\<open>startIssueReviewCommand\<close> and \<^verbatim>\<open>startPullRequestReviewCommand\<close> store.\<close>

definition issue_input_json :: "issue_preparation_input \<Rightarrow> json" where
  "issue_input_json i =
     JObj [(''kind'', JStr ''github_issue_review''), (''issue'', issue_json (ii_issue i)),
       (''trusted_default_branch'', branch_json (ii_branch i)), (''event_type'', choice_text issue_events (ii_event i)),
       (''review_objective'', or_null (choice_text objectives) (ii_objective i)),
       (''test_changes'', or_null (choice_text test_policies) (ii_test_changes i)), (''open_pr'', or_null JBool (ii_open_pr i))]"

definition subject_field :: "pull_request_context + pull_request_reference \<Rightarrow> string \<times> json" where
  "subject_field s =
     (case s of
        Inl pr \<Rightarrow> (''pr'', pull_request_json pr)
      | Inr r \<Rightarrow> (''pr_reference'', JObj [(''owner_login'', JStr (ref_owner_login r)), (''repo_name'', JStr (ref_repo_name r)),
          (''pr_number'', JNum (ref_pr_number r))]))"

definition pull_request_input_json :: "pull_request_preparation_input \<Rightarrow> json" where
  "pull_request_input_json i =
     JObj [(''kind'', JStr ''github_pull_request_review''), (''trusted_default_branch'', branch_json (pi_branch i)),
       (''event_type'', choice_text pull_request_events (pi_event i)),
       (''test_changes'', or_null (choice_text test_policies) (pi_test_changes i)), subject_field (pi_subject i)]"

subsection \<open>Parsing them again\<close>

definition missing_input :: "string \<Rightarrow> js_error" where
  "missing_input label = invalid_input (''Preparation input is missing '' @ label @ ''.'')"

definition invalid_field :: "string \<Rightarrow> js_error" where
  "invalid_field label = invalid_input (''Preparation input has an invalid '' @ label @ ''.'')"

definition requireRecord :: "json option \<Rightarrow> string \<Rightarrow> js_error + json" where
  "requireRecord v label = (case v of Some (JObj kvs) \<Rightarrow> Inr (JObj kvs) | _ \<Rightarrow> Inl (missing_input label))"

definition requireString :: "json option \<Rightarrow> string \<Rightarrow> js_error + string" where
  "requireString v label = (case string_field v of Some s \<Rightarrow> Inr s | None \<Rightarrow> Inl (invalid_field label))"

definition requireInputText :: "json option \<Rightarrow> string \<Rightarrow> js_error + string" where
  "requireInputText v label =
     (case string_field v of None \<Rightarrow> Inl (missing_input label) | Some s \<Rightarrow> if js_trim s = [] then Inl (missing_input label) else Inr s)"

definition optionalLogin :: "json option \<Rightarrow> string \<Rightarrow> js_error + string option" where
  "optionalLogin v label = (if v = None then Inr None else map_sum id Some (requireInputText v label))"

definition requireChoice :: "json option \<Rightarrow> (string \<times> 'a) list \<Rightarrow> string \<Rightarrow> js_error + 'a" where
  "requireChoice v choices label =
     (case Option.bind (string_field v) (map_of choices) of Some x \<Rightarrow> Inr x | None \<Rightarrow> Inl (invalid_field label))"

text \<open>\<^verbatim>\<open>value === null ? null : parse(value)\<close>.\<close>

definition null_or :: "json option \<Rightarrow> (json option \<Rightarrow> js_error + 'a) \<Rightarrow> js_error + 'a option" where
  "null_or v f = (if v = Some JNull then Inr None else map_sum id Some (f v))"

definition requireTestChanges :: "json option \<Rightarrow> js_error + test_changes_policy option" where
  "requireTestChanges v = null_or v (\<lambda>v. requireChoice v test_policies ''test_changes'')"

definition requireStringField :: "json \<Rightarrow> string \<Rightarrow> string \<Rightarrow> js_error + string" where
  "requireStringField r field label = requireInputText (json_field r field) (label @ ''.'' @ field)"

definition requireNumberField :: "json \<Rightarrow> string \<Rightarrow> string \<Rightarrow> js_error + rat" where
  "requireNumberField r field label =
     (case json_field r field of
        Some (JNum n) \<Rightarrow> Inr n
      | _ \<Rightarrow> Inl (invalid_input (''Preparation input is missing '' @ label @ ''.'' @ field)))"

definition requireBooleanField :: "json \<Rightarrow> string \<Rightarrow> string \<Rightarrow> js_error + bool" where
  "requireBooleanField r field label =
     (case json_field r field of
        Some (JBool b) \<Rightarrow> Inr b
      | _ \<Rightarrow> Inl (invalid_input (''Preparation input is missing '' @ label @ ''.'' @ field)))"

definition optionalStringOrNull :: "json \<Rightarrow> string \<Rightarrow> string \<Rightarrow> js_error + string option" where
  "optionalStringOrNull r field label =
     (case json_field r field of
        Some JNull \<Rightarrow> Inr None
      | Some (JStr s) \<Rightarrow> Inr (Some s)
      | _ \<Rightarrow> Inl (invalid_input (''Preparation input has an invalid '' @ label @ ''.'' @ field)))"

definition requireTrustedDefaultBranch :: "json option \<Rightarrow> js_error + trusted_default_branch" where
  "requireTrustedDefaultBranch v =
     orThrow (requireRecord v ''trusted_default_branch'') (\<lambda>r.
     orThrow (requireStringField r ''default_branch'' ''trusted_default_branch'') (\<lambda>default_branch.
     orThrow (requireStringField r ''head_sha'' ''trusted_default_branch'') (\<lambda>head_sha.
       Inr \<lparr>tb_default_branch = default_branch, tb_head_sha = head_sha\<rparr>)))"

definition requireLabels :: "json option \<Rightarrow> js_error + string list" where
  "requireLabels v =
     (case v of
        Some (JArr items) \<Rightarrow>
          if list_all (\<lambda>i. string_field (Some i) \<noteq> None) items then Inr (List.map_filter (\<lambda>i. string_field (Some i)) items)
          else Inl (invalid_input ''Preparation input is missing issue.labels'')
      | _ \<Rightarrow> Inl (invalid_input ''Preparation input is missing issue.labels''))"

definition requirePersistedIssue :: "json option \<Rightarrow> js_error + issue_context" where
  "requirePersistedIssue v =
     orThrow (requireRecord v ''issue'') (\<lambda>r.
     orThrow (optionalLogin (json_field r ''sender_login'') ''issue.sender_login'') (\<lambda>sender_login.
     orThrow (optionalLogin (json_field r ''issue_author'') ''issue.issue_author'') (\<lambda>issue_author.
     orThrow (optionalStringOrNull r ''issue_body'' ''issue'') (\<lambda>issue_body.
     orThrow (requireLabels (json_field r ''labels'')) (\<lambda>labels.
     orThrow (requireString (json_field r ''action'') ''issue.action'') (\<lambda>action.
     orThrow (requireStringField r ''repo_name'' ''issue'') (\<lambda>repo_name.
     orThrow (requireStringField r ''repo_full_name'' ''issue'') (\<lambda>repo_full_name.
     orThrow (requireStringField r ''owner_login'' ''issue'') (\<lambda>owner_login.
     orThrow (requireStringField r ''default_branch'' ''issue'') (\<lambda>default_branch.
     orThrow (requireNumberField r ''issue_number'' ''issue'') (\<lambda>issue_number.
     orThrow (requireStringField r ''issue_title'' ''issue'') (\<lambda>issue_title.
     orThrow (requireStringField r ''issue_state'' ''issue'') (\<lambda>issue_state.
     orThrow (requireString (json_field r ''html_url'') ''issue.html_url'') (\<lambda>html_url.
     orThrow (requireString (json_field r ''api_url'') ''issue.api_url'') (\<lambda>api_url.
     orThrow (requireString (json_field r ''comments_url'') ''issue.comments_url'') (\<lambda>comments_url.
     orThrow (requireBooleanField r ''is_pull_request'' ''issue'') (\<lambda>is_pull_request.
       Inr \<lparr>ic_action = action, ic_repo_name = repo_name, ic_repo_full_name = repo_full_name, ic_owner_login = owner_login,
         ic_sender_login = sender_login, ic_default_branch = default_branch, ic_issue_number = issue_number,
         ic_issue_title = issue_title, ic_issue_body = issue_body, ic_issue_author = issue_author, ic_issue_state = issue_state,
         ic_labels = labels, ic_html_url = html_url, ic_api_url = api_url, ic_comments_url = comments_url,
         ic_is_pull_request = is_pull_request\<rparr>)))))))))))))))))"

definition requirePersistedPullRequest :: "json option \<Rightarrow> js_error + pull_request_context" where
  "requirePersistedPullRequest v =
     orThrow (requireRecord v ''pr'') (\<lambda>r.
     orThrow (requireString (json_field r ''action'') ''pr.action'') (\<lambda>action.
     orThrow (optionalStringOrNull r ''previous_head_sha'' ''pr'') (\<lambda>previous_head_sha.
     orThrow (requireStringField r ''repo_name'' ''pr'') (\<lambda>repo_name.
     orThrow (requireStringField r ''repo_full_name'' ''pr'') (\<lambda>repo_full_name.
     orThrow (requireStringField r ''owner_login'' ''pr'') (\<lambda>owner_login.
     orThrow (optionalStringOrNull r ''sender_login'' ''pr'') (\<lambda>sender_login.
     orThrow (requireNumberField r ''pr_number'' ''pr'') (\<lambda>pr_number.
     orThrow (requireStringField r ''pr_title'' ''pr'') (\<lambda>pr_title.
     orThrow (optionalStringOrNull r ''pr_body'' ''pr'') (\<lambda>pr_body.
     orThrow (optionalStringOrNull r ''pr_author'' ''pr'') (\<lambda>pr_author.
     orThrow (requireBooleanField r ''is_draft'' ''pr'') (\<lambda>is_draft.
     orThrow (requireStringField r ''base_ref'' ''pr'') (\<lambda>base_ref.
     orThrow (requireStringField r ''base_sha'' ''pr'') (\<lambda>base_sha.
     orThrow (requireStringField r ''head_ref'' ''pr'') (\<lambda>head_ref.
     orThrow (requireStringField r ''head_sha'' ''pr'') (\<lambda>head_sha.
     orThrow (requireNumberField r ''commits'' ''pr'') (\<lambda>commits.
     orThrow (requireNumberField r ''changed_files'' ''pr'') (\<lambda>changed_files.
     orThrow (requireNumberField r ''additions'' ''pr'') (\<lambda>additions.
     orThrow (requireNumberField r ''deletions'' ''pr'') (\<lambda>deletions.
     orThrow (requireString (json_field r ''html_url'') ''pr.html_url'') (\<lambda>html_url.
     orThrow (requireString (json_field r ''api_url'') ''pr.api_url'') (\<lambda>api_url.
     orThrow (requireString (json_field r ''commits_url'') ''pr.commits_url'') (\<lambda>commits_url.
     orThrow (requireString (json_field r ''review_comments_url'') ''pr.review_comments_url'') (\<lambda>review_comments_url.
     orThrow (requireString (json_field r ''comments_url'') ''pr.comments_url'') (\<lambda>comments_url.
     orThrow (requireString (json_field r ''issue_url'') ''pr.issue_url'') (\<lambda>issue_url.
     orThrow (optionalStringOrNull r ''head_repo_full_name'' ''pr'') (\<lambda>head_repo_full_name.
     orThrow (optionalStringOrNull r ''base_repo_full_name'' ''pr'') (\<lambda>base_repo_full_name.
     orThrow (requireBooleanField r ''from_fork'' ''pr'') (\<lambda>from_fork.
       Inr \<lparr>pc_action = action, pc_previous_head_sha = previous_head_sha, pc_repo_name = repo_name,
         pc_repo_full_name = repo_full_name, pc_owner_login = owner_login, pc_sender_login = sender_login,
         pc_pr_number = pr_number, pc_pr_title = pr_title, pc_pr_body = pr_body, pc_pr_author = pr_author,
         pc_is_draft = is_draft, pc_base_ref = base_ref, pc_base_sha = base_sha, pc_head_ref = head_ref,
         pc_head_sha = head_sha, pc_commits = commits, pc_changed_files = changed_files, pc_additions = additions,
         pc_deletions = deletions, pc_html_url = html_url, pc_api_url = api_url, pc_commits_url = commits_url,
         pc_review_comments_url = review_comments_url, pc_comments_url = comments_url, pc_issue_url = issue_url,
         pc_head_repo_full_name = head_repo_full_name, pc_base_repo_full_name = base_repo_full_name,
         pc_from_fork = from_fork\<rparr>)))))))))))))))))))))))))))))"

definition parseIssuePreparationInput :: "json \<Rightarrow> js_error + issue_preparation_input" where
  "parseIssuePreparationInput value =
     orThrow (requireRecord (Some value) ''object'') (\<lambda>input.
     orThrow (requireChoice (json_field input ''kind'') [(''github_issue_review'', ())] ''kind'') (\<lambda>kind.
     orThrow (requirePersistedIssue (json_field input ''issue'')) (\<lambda>issue.
     orThrow (requireTrustedDefaultBranch (json_field input ''trusted_default_branch'')) (\<lambda>branch.
     orThrow (requireChoice (json_field input ''event_type'') issue_events ''event_type'') (\<lambda>event.
     orThrow (null_or (json_field input ''review_objective'') (\<lambda>v. requireChoice v objectives ''review_objective'')) (\<lambda>objective.
     orThrow (requireTestChanges (json_field input ''test_changes'')) (\<lambda>test_changes.
     orThrow (null_or (json_field input ''open_pr'') (\<lambda>v. requireBooleanField input ''open_pr'' ''input'')) (\<lambda>open_pr.
       Inr \<lparr>ii_issue = issue, ii_branch = branch, ii_event = event, ii_objective = objective, ii_test_changes = test_changes,
         ii_open_pr = open_pr\<rparr>))))))))"

definition parse_reference :: "json option \<Rightarrow> js_error + pull_request_reference" where
  "parse_reference v =
     orThrow (requireRecord v ''pr_reference'') (\<lambda>reference.
     orThrow (requireNumberField reference ''pr_number'' ''pr_reference'') (\<lambda>pr_number.
     if of_int \<lfloor>pr_number\<rfloor> \<noteq> pr_number \<or> pr_number \<le> 0 then Inl (invalid_field ''pr_reference.pr_number'')
     else
       orThrow (requireStringField reference ''owner_login'' ''pr_reference'') (\<lambda>owner_login.
       orThrow (requireStringField reference ''repo_name'' ''pr_reference'') (\<lambda>repo_name.
         Inr \<lparr>ref_owner_login = owner_login, ref_repo_name = repo_name, ref_pr_number = pr_number\<rparr>))))"

definition parsePullRequestPreparationInput :: "json \<Rightarrow> js_error + pull_request_preparation_input" where
  "parsePullRequestPreparationInput value =
     orThrow (requireRecord (Some value) ''object'') (\<lambda>input.
     orThrow (requireChoice (json_field input ''kind'') [(''github_pull_request_review'', ())] ''kind'') (\<lambda>kind.
     orThrow (requireTrustedDefaultBranch (json_field input ''trusted_default_branch'')) (\<lambda>branch.
     orThrow (requireChoice (json_field input ''event_type'') pull_request_events ''event_type'') (\<lambda>event.
     orThrow (requireTestChanges (json_field input ''test_changes'')) (\<lambda>test_changes.
     orThrow (case json_field input ''pr'' of
                Some v \<Rightarrow> map_sum id Inl (requirePersistedPullRequest (Some v))
              | None \<Rightarrow> map_sum id Inr (parse_reference (json_field input ''pr_reference''))) (\<lambda>subject.
       Inr \<lparr>pi_branch = branch, pi_event = event, pi_test_changes = test_changes, pi_subject = subject\<rparr>))))))"

definition parseRepositoryPreparationInput :: "json \<Rightarrow> js_error + json \<times> string" where
  "parseRepositoryPreparationInput value =
     orThrow (requireRecord (Some value) ''object'') (\<lambda>input.
     orThrow (requireRecord (json_field input ''payload'') ''payload'') (\<lambda>payload.
     orThrow (requireInputText (json_field input ''verified_repository'') ''verified_repository'') (\<lambda>verified.
       Inr (payload, verified))))"

subsection \<open>What is stored can be read again\<close>

lemma orThrow_simps [simp]: "orThrow (Inr a) f = f a" "orThrow (Inl e) f = Inl e"
  by (simp_all add: orThrow_def)

definition nonblank :: "string \<Rightarrow> bool" where
  "nonblank s \<longleftrightarrow> js_trim s \<noteq> []"

definition issue_ok :: "issue_context \<Rightarrow> bool" where
  "issue_ok c \<longleftrightarrow>
     list_all nonblank [ic_repo_name c, ic_repo_full_name c, ic_owner_login c, ic_default_branch c, ic_issue_title c, ic_issue_state c] \<and>
     0 < ic_issue_number c \<and> of_int \<lfloor>ic_issue_number c\<rfloor> = ic_issue_number c \<and>
     pred_option nonblank (ic_sender_login c) \<and> pred_option nonblank (ic_issue_author c)"

definition pull_request_ok :: "pull_request_context \<Rightarrow> bool" where
  "pull_request_ok c \<longleftrightarrow>
     list_all nonblank [pc_repo_name c, pc_repo_full_name c, pc_owner_login c, pc_pr_title c, pc_base_ref c, pc_base_sha c,
       pc_head_ref c, pc_head_sha c] \<and>
     0 < pc_pr_number c \<and> of_int \<lfloor>pc_pr_number c\<rfloor> = pc_pr_number c \<and>
     pc_from_fork c = isForkPullRequest (pc_head_repo_full_name c) (pc_base_repo_full_name c)"

lemma js_trim_trim [simp]: "js_trim (js_trim s) = js_trim s"
proof -
  have inner: "dropWhile P (rev (dropWhile P (rev (dropWhile P xs)))) = rev (dropWhile P (rev (dropWhile P xs)))" for P and xs :: string
  proof (cases "dropWhile P xs")
    case (Cons y ys)
    then have "\<not> P y" by (metis dropWhile_eq_Cons_conv)
    then show ?thesis using Cons by (simp add: dropWhile_append)
  next
    case Nil
    show ?thesis unfolding Nil by simp
  qed
  show ?thesis unfolding js_trim_def inner by (simp add: dropWhile_idem)
qed

lemma optionalString_nonblank: "pred_option nonblank (optionalString v)"
  by (auto simp: optionalString_def trimmed_def nonblank_def split: option.split)

lemma checked_Inr: "checked cs c = Inr d \<longleftrightarrow> d = c \<and> list_all (\<lambda>r. r = Inr ()) cs"
  by (induction cs) (auto simp: orThrow_Inr)

lemma needs: "need_text what v label = Inr () \<longleftrightarrow> nonblank v"
  "need_positive what n label = Inr () \<longleftrightarrow> of_int \<lfloor>n\<rfloor> = n \<and> 0 < n"
  by (auto simp: need_text_def need_positive_def nonblank_def)

lemma extracted_issue_ok: "extractIssueContext payload = Inr c \<Longrightarrow> issue_ok c"
  unfolding extractIssueContext_def Let_def requireIssueContext_def checked_Inr
  by (elim conjE) (simp add: needs issue_ok_def optionalString_nonblank)

lemma built_pull_request_ok: "buildPullRequestContextFromRaw raw = Inr c \<Longrightarrow> pull_request_ok c"
  unfolding buildPullRequestContextFromRaw_def Let_def requirePullRequestContext_def checked_Inr
  by (elim conjE) (simp add: needs pull_request_ok_def)

lemma requireInputText_nonblank: "nonblank s \<Longrightarrow> requireInputText (Some (JStr s)) label = Inr s"
  by (simp add: requireInputText_def nonblank_def)

lemma labels_read: "requireLabels (Some (JArr (map JStr ls))) = Inr ls"
proof -
  have "List.map_filter (\<lambda>i. string_field (Some i)) (map JStr ls) = ls" by (induction ls) simp_all
  then show ?thesis by (simp add: requireLabels_def list_all_iff)
qed

lemma issue_fields:
  "json_field (issue_json c) ''action'' = Some (JStr (ic_action c))"
  "json_field (issue_json c) ''repo_name'' = Some (JStr (ic_repo_name c))"
  "json_field (issue_json c) ''repo_full_name'' = Some (JStr (ic_repo_full_name c))"
  "json_field (issue_json c) ''owner_login'' = Some (JStr (ic_owner_login c))"
  "json_field (issue_json c) ''sender_login'' = map_option JStr (ic_sender_login c)"
  "json_field (issue_json c) ''default_branch'' = Some (JStr (ic_default_branch c))"
  "json_field (issue_json c) ''issue_number'' = Some (JNum (ic_issue_number c))"
  "json_field (issue_json c) ''issue_title'' = Some (JStr (ic_issue_title c))"
  "json_field (issue_json c) ''issue_body'' = Some (or_null JStr (ic_issue_body c))"
  "json_field (issue_json c) ''issue_author'' = map_option JStr (ic_issue_author c)"
  "json_field (issue_json c) ''issue_state'' = Some (JStr (ic_issue_state c))"
  "json_field (issue_json c) ''labels'' = Some (JArr (map JStr (ic_labels c)))"
  "json_field (issue_json c) ''html_url'' = Some (JStr (ic_html_url c))"
  "json_field (issue_json c) ''api_url'' = Some (JStr (ic_api_url c))"
  "json_field (issue_json c) ''comments_url'' = Some (JStr (ic_comments_url c))"
  "json_field (issue_json c) ''is_pull_request'' = Some (JBool (ic_is_pull_request c))"
  by (simp_all add: issue_json_def or_omitted_def split: option.split)

lemma or_null_read: "optionalStringOrNull r field label = Inr v" if "json_field r field = Some (or_null JStr v)"
  using that by (simp add: optionalStringOrNull_def or_null_def split: option.split)

lemma login_read: "pred_option nonblank v \<Longrightarrow> optionalLogin (map_option JStr v) label = Inr v"
  by (cases v) (simp_all add: optionalLogin_def requireInputText_nonblank)

lemma issue_read:
  assumes "issue_ok c"
  shows "requirePersistedIssue (Some (issue_json c)) = Inr c"
proof -
  have "requireRecord (Some (issue_json c)) ''issue'' = Inr (issue_json c)" by (simp add: requireRecord_def issue_json_def)
  then show ?thesis
    using assms unfolding requirePersistedIssue_def
    by (simp add: issue_fields or_null_read login_read labels_read requireString_def requireStringField_def requireInputText_nonblank
        requireNumberField_def requireBooleanField_def issue_ok_def)
qed

lemma pull_request_fields:
  "json_field (pull_request_json c) ''action'' = Some (JStr (pc_action c))"
  "json_field (pull_request_json c) ''previous_head_sha'' = Some (or_null JStr (pc_previous_head_sha c))"
  "json_field (pull_request_json c) ''repo_name'' = Some (JStr (pc_repo_name c))"
  "json_field (pull_request_json c) ''repo_full_name'' = Some (JStr (pc_repo_full_name c))"
  "json_field (pull_request_json c) ''owner_login'' = Some (JStr (pc_owner_login c))"
  "json_field (pull_request_json c) ''sender_login'' = Some (or_null JStr (pc_sender_login c))"
  "json_field (pull_request_json c) ''pr_number'' = Some (JNum (pc_pr_number c))"
  "json_field (pull_request_json c) ''pr_title'' = Some (JStr (pc_pr_title c))"
  "json_field (pull_request_json c) ''pr_body'' = Some (or_null JStr (pc_pr_body c))"
  "json_field (pull_request_json c) ''pr_author'' = Some (or_null JStr (pc_pr_author c))"
  "json_field (pull_request_json c) ''is_draft'' = Some (JBool (pc_is_draft c))"
  "json_field (pull_request_json c) ''base_ref'' = Some (JStr (pc_base_ref c))"
  "json_field (pull_request_json c) ''base_sha'' = Some (JStr (pc_base_sha c))"
  "json_field (pull_request_json c) ''head_ref'' = Some (JStr (pc_head_ref c))"
  "json_field (pull_request_json c) ''head_sha'' = Some (JStr (pc_head_sha c))"
  "json_field (pull_request_json c) ''commits'' = Some (JNum (pc_commits c))"
  "json_field (pull_request_json c) ''changed_files'' = Some (JNum (pc_changed_files c))"
  "json_field (pull_request_json c) ''additions'' = Some (JNum (pc_additions c))"
  "json_field (pull_request_json c) ''deletions'' = Some (JNum (pc_deletions c))"
  "json_field (pull_request_json c) ''html_url'' = Some (JStr (pc_html_url c))"
  "json_field (pull_request_json c) ''api_url'' = Some (JStr (pc_api_url c))"
  "json_field (pull_request_json c) ''commits_url'' = Some (JStr (pc_commits_url c))"
  "json_field (pull_request_json c) ''review_comments_url'' = Some (JStr (pc_review_comments_url c))"
  "json_field (pull_request_json c) ''comments_url'' = Some (JStr (pc_comments_url c))"
  "json_field (pull_request_json c) ''issue_url'' = Some (JStr (pc_issue_url c))"
  "json_field (pull_request_json c) ''head_repo_full_name'' = Some (or_null JStr (pc_head_repo_full_name c))"
  "json_field (pull_request_json c) ''base_repo_full_name'' = Some (or_null JStr (pc_base_repo_full_name c))"
  "json_field (pull_request_json c) ''from_fork'' = Some (JBool (pc_from_fork c))"
  by (simp_all add: pull_request_json_def)

lemma pull_request_read:
  assumes "pull_request_ok c"
  shows "requirePersistedPullRequest (Some (pull_request_json c)) = Inr c"
proof -
  have "requireRecord (Some (pull_request_json c)) ''pr'' = Inr (pull_request_json c)"
    by (simp add: requireRecord_def pull_request_json_def)
  then show ?thesis
    using assms unfolding requirePersistedPullRequest_def
    by (simp add: pull_request_fields or_null_read requireString_def requireStringField_def requireInputText_nonblank
        requireNumberField_def requireBooleanField_def pull_request_ok_def)
qed

definition branch_ok :: "trusted_default_branch \<Rightarrow> bool" where
  "branch_ok b \<longleftrightarrow> nonblank (tb_default_branch b) \<and> nonblank (tb_head_sha b)"

lemma branch_read: "branch_ok b \<Longrightarrow> requireTrustedDefaultBranch (Some (branch_json b)) = Inr b"
  by (simp add: requireTrustedDefaultBranch_def branch_json_def requireRecord_def requireStringField_def requireInputText_nonblank branch_ok_def)

definition total_choices :: "(string \<times> 'a) list \<Rightarrow> bool" where
  "total_choices choices \<longleftrightarrow> distinct (map fst choices) \<and> (\<forall>x. x \<in> snd ` set choices)"

lemma total_choices_all [simp]:
  "total_choices issue_events" "total_choices pull_request_events" "total_choices objectives" "total_choices test_policies"
proof -
  show "total_choices issue_events" unfolding total_choices_def issue_events_def using issue_event.exhaust by auto
  show "total_choices pull_request_events" unfolding total_choices_def pull_request_events_def using pull_request_event.exhaust by auto
  show "total_choices objectives" unfolding total_choices_def objectives_def using review_objective.exhaust by auto
  show "total_choices test_policies" unfolding total_choices_def test_policies_def using test_changes_policy.exhaust by auto
qed

lemma choice_textE:
  assumes "total_choices choices"
  obtains k where "choice_text choices x = JStr k" "map_of choices k = Some x"
proof -
  obtain c where c: "find (\<lambda>c. snd c = x) choices = Some c"
    using assms by (cases "find (\<lambda>c. snd c = x) choices") (fastforce simp: find_None_iff total_choices_def image_iff)+
  then have "c \<in> set choices" "snd c = x" by (auto simp: find_Some_iff)
  then have "map_of choices (fst c) = Some x" using assms by (auto simp: total_choices_def)
  then show thesis using that c by (simp add: choice_text_def)
qed

lemma choice_read: "total_choices choices \<Longrightarrow> requireChoice (Some (choice_text choices x)) choices label = Inr x"
  by (erule choice_textE [of _ x]) (simp add: requireChoice_def)

lemma choice_text_not_null: "total_choices choices \<Longrightarrow> choice_text choices x \<noteq> JNull"
  by (erule choice_textE [of _ x]) simp

lemma null_or_read:
  assumes "\<And>x. f (Some (g x)) = Inr x" "\<And>x. g x \<noteq> JNull"
  shows "null_or (Some (or_null g v)) f = Inr v"
  by (cases v) (simp_all add: null_or_def or_null_def assms)

lemma test_changes_read: "requireTestChanges (Some (or_null (choice_text test_policies) v)) = Inr v"
  unfolding requireTestChanges_def by (rule null_or_read) (simp_all add: choice_read choice_text_not_null)

lemma issue_input_read:
  assumes "issue_ok (ii_issue i)" "branch_ok (ii_branch i)"
  shows "parseIssuePreparationInput (issue_input_json i) = Inr i"
proof -
  have fields: "json_field (issue_input_json i) ''kind'' = Some (JStr ''github_issue_review'')"
    "json_field (issue_input_json i) ''issue'' = Some (issue_json (ii_issue i))"
    "json_field (issue_input_json i) ''trusted_default_branch'' = Some (branch_json (ii_branch i))"
    "json_field (issue_input_json i) ''event_type'' = Some (choice_text issue_events (ii_event i))"
    "json_field (issue_input_json i) ''review_objective'' = Some (or_null (choice_text objectives) (ii_objective i))"
    "json_field (issue_input_json i) ''test_changes'' = Some (or_null (choice_text test_policies) (ii_test_changes i))"
    "json_field (issue_input_json i) ''open_pr'' = Some (or_null JBool (ii_open_pr i))"
    by (simp_all add: issue_input_json_def)
  have whole: "requireRecord (Some (issue_input_json i)) ''object'' = Inr (issue_input_json i)"
    by (simp add: requireRecord_def issue_input_json_def)
  have objective: "null_or (Some (or_null (choice_text objectives) (ii_objective i)))
      (\<lambda>v. requireChoice v objectives ''review_objective'') = Inr (ii_objective i)"
    by (rule null_or_read) (simp_all add: choice_read choice_text_not_null)
  have open_pr: "null_or (Some (or_null JBool (ii_open_pr i))) (\<lambda>v. requireBooleanField (issue_input_json i) ''open_pr'' ''input'') =
      Inr (ii_open_pr i)"
    by (cases "ii_open_pr i") (simp_all add: null_or_def requireBooleanField_def fields or_null_def)
  show ?thesis
    unfolding parseIssuePreparationInput_def whole orThrow_simps fields
    by (simp add: requireChoice_def [of "Some (JStr _)"] issue_read branch_read choice_read objective test_changes_read open_pr assms)
qed

definition subject_ok :: "pull_request_context + pull_request_reference \<Rightarrow> bool" where
  "subject_ok s =
     (case s of
        Inl pr \<Rightarrow> pull_request_ok pr
      | Inr r \<Rightarrow> nonblank (ref_owner_login r) \<and> nonblank (ref_repo_name r) \<and> 0 < ref_pr_number r \<and>
          of_int \<lfloor>ref_pr_number r\<rfloor> = ref_pr_number r)"

lemma reference_read:
  assumes "subject_ok (Inr r)"
  shows "parse_reference (Some (JObj [(''owner_login'', JStr (ref_owner_login r)), (''repo_name'', JStr (ref_repo_name r)),
    (''pr_number'', JNum (ref_pr_number r))])) = Inr r"
  using assms by (simp add: parse_reference_def requireRecord_def requireNumberField_def requireStringField_def
      requireInputText_nonblank subject_ok_def)

lemma pull_request_input_read:
  assumes "subject_ok (pi_subject i)" "branch_ok (pi_branch i)"
  shows "parsePullRequestPreparationInput (pull_request_input_json i) = Inr i"
proof -
  have fields: "json_field (pull_request_input_json i) ''kind'' = Some (JStr ''github_pull_request_review'')"
    "json_field (pull_request_input_json i) ''trusted_default_branch'' = Some (branch_json (pi_branch i))"
    "json_field (pull_request_input_json i) ''event_type'' = Some (choice_text pull_request_events (pi_event i))"
    "json_field (pull_request_input_json i) ''test_changes'' = Some (or_null (choice_text test_policies) (pi_test_changes i))"
    by (simp_all add: pull_request_input_json_def)
  have whole: "requireRecord (Some (pull_request_input_json i)) ''object'' = Inr (pull_request_input_json i)"
    by (simp add: requireRecord_def pull_request_input_json_def)
  have subject: "(case json_field (pull_request_input_json i) ''pr'' of
        Some v \<Rightarrow> map_sum id Inl (requirePersistedPullRequest (Some v))
      | None \<Rightarrow> map_sum id Inr (parse_reference (json_field (pull_request_input_json i) ''pr_reference''))) = Inr (pi_subject i)"
  proof (cases "pi_subject i")
    case (Inl pr)
    then have "json_field (pull_request_input_json i) ''pr'' = Some (pull_request_json pr)"
      by (simp add: pull_request_input_json_def subject_field_def)
    then show ?thesis using assms(1) Inl pull_request_read [of pr] by (simp add: subject_ok_def)
  next
    case (Inr r)
    then show ?thesis using assms(1) reference_read [of r] by (simp add: pull_request_input_json_def subject_field_def)
  qed
  show ?thesis
    unfolding parsePullRequestPreparationInput_def whole orThrow_simps fields subject
    by (simp add: requireChoice_def [of "Some (JStr _)"] branch_read choice_read test_changes_read assms)
qed

end
