(* ===== verification/Ingress.thy ===== *)
theory Ingress
  imports StoredInputs
begin

text \<open>
  The webhook ingress of the connector (\<^verbatim>\<open>ingress/github/webhooks\<close>): which events start a review. With it what the
  handlers decide on: the origin guard, the commands of a comment, the permission of a commenter and the trigger configuration of a
  repository (\<^verbatim>\<open>github/webhook-origin-guard.ts\<close>, \<^verbatim>\<open>comment-command-service.ts\<close>, \<^verbatim>\<open>manual-command-authorization.ts\<close>,
  \<^verbatim>\<open>default-branch-service.ts\<close>, \<^verbatim>\<open>repo-config-service.ts\<close>), and the window of changes a pull request review covers
  (\<^verbatim>\<open>reviews/pull-requests/review-window.ts\<close>). GitHub's answers are fields of a record, \<^verbatim>\<open>yaml.parse\<close> is an argument; what a handler only
  logs is left out.
\<close>

subsection \<open>The app and its own events\<close>

record app_metadata =
  app_slug :: "string option"
  app_bot_login :: "string option"

definition setGitHubAppMetadata :: "json option \<Rightarrow> app_metadata" where
  "setGitHubAppMetadata slug =
     \<lparr>app_slug = optionalString slug, app_bot_login = map_option (\<lambda>s. s @ ''[bot]'') (optionalString slug)\<rparr>"

definition normalizeLogin :: "json option \<Rightarrow> string option" where
  "normalizeLogin v = map_option (map lower_char) (optionalString v)"

definition currentAppBotLogin :: "app_metadata \<Rightarrow> string option" where
  "currentAppBotLogin app = normalizeLogin (map_option JStr (app_bot_login app))"

definition isSelfOriginatedWebhookEvent :: "app_metadata \<Rightarrow> json \<Rightarrow> bool" where
  "isSelfOriginatedWebhookEvent app payload =
     (let sender = asRecord (json_field (asRecord (Some payload)) ''sender'') in
      case normalizeLogin (json_field sender ''login'') of
        None \<Rightarrow> False
      | Some sender_login \<Rightarrow>
          if string_field (json_field sender ''type'') \<noteq> Some ''Bot'' then False
          else (case currentAppBotLogin app of None \<Rightarrow> True | Some expectedLogin \<Rightarrow> sender_login = expectedLogin))"

subsection \<open>Commands in comments\<close>

definition buildMentionCandidates :: "app_metadata \<Rightarrow> string list" where
  "buildMentionCandidates app =
     List.map_filter id [map_option (map lower_char) (optionalString (map_option JStr (app_slug app))), currentAppBotLogin app]"

text \<open>\<^verbatim>\<open>body.split(/\r?\n/)\<close>.\<close>

definition drop_return :: "string \<Rightarrow> string" where
  "drop_return l = (if l \<noteq> [] \<and> last l = CHR 0x0D then butlast l else l)"

definition split_lines :: "string \<Rightarrow> string list" where
  "split_lines body = (let ls = split_on (CHR 0x0A) body in map drop_return (butlast ls) @ [last ls])"

fun join_newlines :: "string list \<Rightarrow> string" where
  "join_newlines [] = []"
| "join_newlines [l] = l"
| "join_newlines (l # ls) = l @ CHR 0x0A # join_newlines ls"

definition stripMarkdownQuotedLines :: "string \<Rightarrow> string" where
  "stripMarkdownQuotedLines body =
     join_newlines (filter (\<lambda>line. \<not> starts_with ''>'' (dropWhile js_space line)) (split_lines body))"

fun parse_options :: "test_changes_policy \<Rightarrow> bool \<Rightarrow> string list \<Rightarrow> (test_changes_policy \<times> bool) option" where
  "parse_options test_changes open_pr [] = Some (test_changes, open_pr)"
| "parse_options test_changes open_pr (token # tokens) =
     (if token = ''--open-pr'' then parse_options test_changes True tokens
      else if token = ''--test-changes'' then
        (case tokens of
           [] \<Rightarrow> None
         | value # rest \<Rightarrow>
            (case map_of test_policies value of None \<Rightarrow> None | Some policy \<Rightarrow> parse_options policy open_pr rest))
      else None)"

definition parseOptions :: "string list \<Rightarrow> (test_changes_policy \<times> bool) option" where
  "parseOptions tokens = parse_options AllowTests False tokens"

text \<open>\<^verbatim>\<open>@candidate(?:[,:]|\s|$)\<close> at the start of a text: what follows the match.\<close>

definition mention_at :: "string \<Rightarrow> string \<Rightarrow> string option" where
  "mention_at candidate s =
     (if starts_with (CHR ''@'' # candidate) s
      then (case drop (Suc (length candidate)) s of
              [] \<Rightarrow> Some []
            | x # rest \<Rightarrow> if x = CHR '','' \<or> x = CHR '':'' \<or> js_space x then Some rest else None)
      else None)"

fun mention_after_space :: "string \<Rightarrow> string \<Rightarrow> string option" where
  "mention_after_space candidate [] = None"
| "mention_after_space candidate (x # xs) =
     (case (if js_space x then mention_at candidate xs else None) of
        Some rest \<Rightarrow> Some rest
      | None \<Rightarrow> mention_after_space candidate xs)"

definition find_mention :: "string \<Rightarrow> string \<Rightarrow> string option" where
  "find_mention candidate s =
     (case mention_at candidate s of Some rest \<Rightarrow> Some rest | None \<Rightarrow> mention_after_space candidate s)"

record comment_command =
  cc_mention :: string
  cc_test_changes :: test_changes_policy
  cc_open_pr :: bool

primrec command_for :: "string \<Rightarrow> string list \<Rightarrow> comment_command option" where
  "command_for normalizedBody [] = None"
| "command_for normalizedBody (candidate # candidates) =
     (case find_mention candidate normalizedBody of
        None \<Rightarrow> command_for normalizedBody candidates
      | Some rest \<Rightarrow>
         (case words rest of
            [] \<Rightarrow> command_for normalizedBody candidates
          | command # tokens \<Rightarrow>
              if command \<noteq> ''review'' then command_for normalizedBody candidates
              else map_option (\<lambda>(test_changes, open_pr).
                \<lparr>cc_mention = candidate, cc_test_changes = test_changes, cc_open_pr = open_pr\<rparr>) (parseOptions tokens)))"

definition extractCommentCommand :: "app_metadata \<Rightarrow> json option \<Rightarrow> comment_command option" where
  "extractCommentCommand app body =
     (case string_field body of
        None \<Rightarrow> None
      | Some s \<Rightarrow>
         (let normalizedBody = map lower_char (js_trim (stripMarkdownQuotedLines s)) in
          if js_trim s = [] \<or> normalizedBody = [] then None
          else command_for normalizedBody (buildMentionCandidates app)))"

subsection \<open>What GitHub is asked\<close>

record github_reads =
  gr_default_branch :: "string \<times> string \<Rightarrow> js_error + string option"
  gr_branch_sha :: "string \<times> string \<Rightarrow> string \<Rightarrow> js_error + string option"
  gr_content :: "string \<times> string \<Rightarrow> string \<Rightarrow> js_error + json"
  gr_permission :: "string \<times> string \<Rightarrow> string \<Rightarrow> js_error + json option"

datatype repository_permission = NoPermission | ReadPermission | TriagePermission | WritePermission | MaintainPermission
  | AdminPermission | UnknownPermission

fun PERMISSION_RANK :: "repository_permission \<Rightarrow> nat" where
  "PERMISSION_RANK UnknownPermission = 0"
| "PERMISSION_RANK NoPermission = 0"
| "PERMISSION_RANK ReadPermission = 1"
| "PERMISSION_RANK TriagePermission = 2"
| "PERMISSION_RANK WritePermission = 3"
| "PERMISSION_RANK MaintainPermission = 4"
| "PERMISSION_RANK AdminPermission = 5"

definition normalizeRepositoryPermission :: "json option \<Rightarrow> repository_permission" where
  "normalizeRepositoryPermission v =
     coalesce (Option.bind (string_field v) (map_of [(''none'', NoPermission), (''read'', ReadPermission),
       (''triage'', TriagePermission), (''write'', WritePermission), (''maintain'', MaintainPermission),
       (''admin'', AdminPermission)])) UnknownPermission"

datatype authorization_reason = Allowed | MissingSender | InsufficientPermission | PermissionLookupFailed

record authorization =
  au_allowed :: bool
  au_sender_login :: "string option"
  au_permission :: repository_permission
  au_reason :: authorization_reason

definition authorizeManualCommentCommand :: "github_reads \<Rightarrow> string \<times> string \<Rightarrow> json option \<Rightarrow> authorization" where
  "authorizeManualCommentCommand gh repo sender_login =
     (case optionalString sender_login of
        None \<Rightarrow> \<lparr>au_allowed = False, au_sender_login = None, au_permission = UnknownPermission, au_reason = MissingSender\<rparr>
      | Some normalizedSender \<Rightarrow>
         (case gr_permission gh repo normalizedSender of
            Inl _ \<Rightarrow> \<lparr>au_allowed = False, au_sender_login = Some normalizedSender, au_permission = UnknownPermission,
              au_reason = PermissionLookupFailed\<rparr>
          | Inr v \<Rightarrow>
             (let permission = normalizeRepositoryPermission v;
                  allowed = PERMISSION_RANK WritePermission \<le> PERMISSION_RANK permission
              in \<lparr>au_allowed = allowed, au_sender_login = Some normalizedSender, au_permission = permission,
                  au_reason = (if allowed then Allowed else InsufficientPermission)\<rparr>)))"

definition resolveTrustedDefaultBranch :: "github_reads \<Rightarrow> string \<times> string \<Rightarrow> js_error + trusted_default_branch" where
  "resolveTrustedDefaultBranch gh repo =
     orThrow (gr_default_branch gh repo) (\<lambda>name.
     let default_branch = js_trim (coalesce name []) in
     if default_branch = []
     then Inl (plain_error (''GitHub returned an empty default branch for '' @ fst repo @ ''/'' @ snd repo @ ''.''))
     else orThrow (gr_branch_sha gh repo default_branch) (\<lambda>sha.
     let head_sha = js_trim (coalesce sha []) in
     if head_sha = []
     then Inl (plain_error (''GitHub returned an empty head SHA for '' @ fst repo @ ''/'' @ snd repo @ ''@'' @ default_branch @ ''.''))
     else Inr \<lparr>tb_default_branch = default_branch, tb_head_sha = head_sha\<rparr>))"

subsection \<open>The trigger configuration\<close>

datatype trigger_mode = ManualOnly | Automatic

record trigger_config =
  tc_trigger_mode :: trigger_mode
  tc_paths_ignore :: "string list"
  tc_path :: "string option"
  tc_ref :: "string option"

definition CONFIG_PATH :: string where
  "CONFIG_PATH = ''.sec-review/config.yml''"

definition config_error :: "string \<Rightarrow> js_error" where
  "config_error m = NamedError ''RepositoryTriggerConfigError'' None m"

definition parseRepositoryConfig :: "(string \<Rightarrow> js_error + json) \<Rightarrow> string \<Rightarrow> js_error + json" where
  "parseRepositoryConfig parse_yaml content =
     (case parse_yaml content of
        Inl _ \<Rightarrow> Inl (config_error ''Failed to parse trigger config YAML.'')
      | Inr parsed \<Rightarrow>
         (case json_field parsed ''sec_review_bot'' of
            Some (JObj kvs) \<Rightarrow> Inr (JObj kvs)
          | _ \<Rightarrow> Inl (config_error ''Missing sec_review_bot section in trigger config.'')))"

definition decodeRepositoryFileContent :: "json \<Rightarrow> string option" where
  "decodeRepositoryFileContent data =
     (case string_field (json_field data ''content'') of
        None \<Rightarrow> None
      | Some content \<Rightarrow>
          if json_field data ''type'' \<noteq> Some (JStr ''file'') then None else Some (utf8_text (from_base64url content)))"

definition extractTriggerMode :: "(string \<Rightarrow> js_error + json) \<Rightarrow> string \<Rightarrow> js_error + trigger_mode" where
  "extractTriggerMode parse_yaml content =
     orThrow (parseRepositoryConfig parse_yaml content) (\<lambda>config.
     case string_field (json_field config ''trigger_mode'') of
       None \<Rightarrow> Inl (config_error ''Missing sec_review_bot.trigger_mode in trigger config.'')
     | Some value \<Rightarrow>
        (let normalized = map lower_char (js_trim value) in
         if normalized = ''automatic'' then Inr Automatic
         else if normalized = ''manual_only'' then Inr ManualOnly
         else Inl (config_error ''Invalid sec_review_bot.trigger_mode value.'')))"

primrec ignore_patterns :: "json list \<Rightarrow> js_error + string list" where
  "ignore_patterns [] = Inr []"
| "ignore_patterns (item # items) =
     (case string_field (Some item) of
        None \<Rightarrow> Inl (config_error ''Invalid sec_review_bot.paths_ignore item: expected string entries.'')
      | Some s \<Rightarrow>
          if js_trim s = [] then Inl (config_error ''Invalid sec_review_bot.paths_ignore item: empty pattern is not allowed.'')
          else map_sum id ((#) (js_trim s)) (ignore_patterns items))"

definition extractPathsIgnore :: "(string \<Rightarrow> js_error + json) \<Rightarrow> string \<Rightarrow> js_error + string list" where
  "extractPathsIgnore parse_yaml content =
     orThrow (parseRepositoryConfig parse_yaml content) (\<lambda>config.
     case json_field config ''paths_ignore'' of
       None \<Rightarrow> Inr []
     | Some JNull \<Rightarrow> Inr []
     | Some (JArr items) \<Rightarrow> ignore_patterns items
     | Some _ \<Rightarrow> Inl (config_error ''Invalid sec_review_bot.paths_ignore value: expected an array.''))"

definition isAutomaticTriggerModeEnabled :: "trigger_config \<Rightarrow> bool" where
  "isAutomaticTriggerModeEnabled config \<longleftrightarrow> tc_trigger_mode config \<noteq> ManualOnly"

definition readRepositoryTriggerConfig ::
  "(string \<Rightarrow> js_error + json) \<Rightarrow> github_reads \<Rightarrow> string \<times> string \<Rightarrow> string \<Rightarrow> js_error + trigger_config"
where
  "readRepositoryTriggerConfig parse_yaml gh repo ref =
     orThrow (gr_content gh repo ref) (\<lambda>data.
     case decodeRepositoryFileContent data of
       None \<Rightarrow> Inl (config_error ''Invalid trigger config file content.'')
     | Some content \<Rightarrow>
         orThrow (extractTriggerMode parse_yaml content) (\<lambda>mode.
         orThrow (extractPathsIgnore parse_yaml content) (\<lambda>paths_ignore.
           Inr \<lparr>tc_trigger_mode = mode, tc_paths_ignore = paths_ignore, tc_path = Some CONFIG_PATH, tc_ref = Some ref\<rparr>)))"

definition fetchRepositoryTriggerConfig ::
  "(string \<Rightarrow> js_error + json) \<Rightarrow> github_reads \<Rightarrow> string \<times> string \<Rightarrow> string \<Rightarrow> js_error + trigger_config"
where
  "fetchRepositoryTriggerConfig parse_yaml gh repo ref =
     (case readRepositoryTriggerConfig parse_yaml gh repo ref of
        Inr config \<Rightarrow> Inr config
      | Inl err \<Rightarrow>
          if error_status err \<noteq> Some 404 then Inl err
          else Inr \<lparr>tc_trigger_mode = ManualOnly, tc_paths_ignore = [], tc_path = None, tc_ref = Some ref\<rparr>)"

definition fetchTrustedRepositoryTriggerConfig ::
  "(string \<Rightarrow> js_error + json) \<Rightarrow> github_reads \<Rightarrow> string \<times> string \<Rightarrow> js_error + trigger_config \<times> trusted_default_branch"
where
  "fetchTrustedRepositoryTriggerConfig parse_yaml gh repo =
     orThrow (resolveTrustedDefaultBranch gh repo) (\<lambda>branch.
     orThrow (fetchRepositoryTriggerConfig parse_yaml gh repo (tb_default_branch branch)) (\<lambda>config. Inr (config, branch)))"

subsection \<open>The handlers\<close>

text \<open>What becomes of an event: it is skipped for a reason, the handler throws, it logs an error of its own work, or it hands a
  command to the background preparations.\<close>

datatype ingress_outcome = Skipped string | Threw js_error | Logged js_error | Starts preparation_admission

definition or_threw :: "js_error + 'a \<Rightarrow> ('a \<Rightarrow> ingress_outcome) \<Rightarrow> ingress_outcome" where
  "or_threw m f = (case m of Inl err \<Rightarrow> Threw err | Inr a \<Rightarrow> f a)"

definition startIssueReviewCommand :: "string \<Rightarrow> issue_preparation_input \<Rightarrow> ingress_outcome" where
  "startIssueReviewCommand delivery_id input =
     Starts \<lparr>pa_workflow = IssueReview, pa_ingress_kind = ''github_webhook'', pa_ingress_key = delivery_id,
       pa_input = issue_input_json input\<rparr>"

definition startPullRequestReviewCommand :: "string \<Rightarrow> pull_request_preparation_input \<Rightarrow> ingress_outcome" where
  "startPullRequestReviewCommand delivery_id input =
     Starts \<lparr>pa_workflow = PullRequestReview, pa_ingress_kind = ''github_webhook'', pa_ingress_key = delivery_id,
       pa_input = pull_request_input_json input\<rparr>"

definition handleIssueOpened ::
  "app_metadata \<Rightarrow> (string \<Rightarrow> js_error + json) \<Rightarrow> github_reads \<Rightarrow> string \<Rightarrow> json \<Rightarrow> ingress_outcome"
where
  "handleIssueOpened app parse_yaml gh delivery_id payload =
     (if isSelfOriginatedWebhookEvent app payload then Skipped ''self_originated_bot_event''
      else or_threw (extractIssueContext payload) (\<lambda>issue.
      if ic_is_pull_request issue then Skipped ''payload_is_pull_request''
      else or_threw (fetchTrustedRepositoryTriggerConfig parse_yaml gh (ic_owner_login issue, ic_repo_name issue)) (\<lambda>(config, branch).
      if \<not> isAutomaticTriggerModeEnabled config then Skipped ''trigger_mode_disabled''
      else startIssueReviewCommand delivery_id
        \<lparr>ii_issue = issue, ii_branch = branch, ii_event = IssueOpened, ii_objective = Some Audit, ii_test_changes = None,
         ii_open_pr = Some False\<rparr>)))"

definition resolveTrustedRepositoryIdentity :: "pull_request_context \<Rightarrow> js_error + string \<times> string" where
  "resolveTrustedRepositoryIdentity pr = splitRepoFullName (coalesce (pc_base_repo_full_name pr) (pc_repo_full_name pr))"

text \<open>The three automatic handlers of a pull request, which differ in the event and in whether they skip a draft.\<close>

definition handle_pull_request ::
  "pull_request_event \<Rightarrow> bool \<Rightarrow> app_metadata \<Rightarrow> (string \<Rightarrow> js_error + json) \<Rightarrow> github_reads \<Rightarrow> string \<Rightarrow> json \<Rightarrow> ingress_outcome"
where
  "handle_pull_request event skip_drafts app parse_yaml gh delivery_id payload =
     (if isSelfOriginatedWebhookEvent app payload then Skipped ''self_originated_bot_event''
      else or_threw (extractPullRequestContext payload) (\<lambda>pr.
      if pc_from_fork pr then Skipped ''fork_pr_requires_approval''
      else or_threw (resolveTrustedRepositoryIdentity pr) (\<lambda>repo.
      or_threw (fetchTrustedRepositoryTriggerConfig parse_yaml gh repo) (\<lambda>(config, branch).
      if \<not> isAutomaticTriggerModeEnabled config then Skipped ''trigger_mode_disabled''
      else if skip_drafts \<and> pc_is_draft pr then Skipped ''draft_pull_request''
      else startPullRequestReviewCommand delivery_id
        \<lparr>pi_branch = branch, pi_event = event, pi_test_changes = None, pi_subject = Inl pr\<rparr>))))"

definition handlePullRequestOpened ::
  "app_metadata \<Rightarrow> (string \<Rightarrow> js_error + json) \<Rightarrow> github_reads \<Rightarrow> string \<Rightarrow> json \<Rightarrow> ingress_outcome"
where
  "handlePullRequestOpened = handle_pull_request PrOpened True"

definition handlePullRequestSynchronize ::
  "app_metadata \<Rightarrow> (string \<Rightarrow> js_error + json) \<Rightarrow> github_reads \<Rightarrow> string \<Rightarrow> json \<Rightarrow> ingress_outcome"
where
  "handlePullRequestSynchronize = handle_pull_request PrSynchronize True"

definition handlePullRequestReadyForReview ::
  "app_metadata \<Rightarrow> (string \<Rightarrow> js_error + json) \<Rightarrow> github_reads \<Rightarrow> string \<Rightarrow> json \<Rightarrow> ingress_outcome"
where
  "handlePullRequestReadyForReview = handle_pull_request PrReadyForReview False"

definition handleIssueCommentCreated :: "app_metadata \<Rightarrow> github_reads \<Rightarrow> string \<Rightarrow> json \<Rightarrow> ingress_outcome" where
  "handleIssueCommentCreated app gh delivery_id payload =
     (if isSelfOriginatedWebhookEvent app payload then Skipped ''self_originated_bot_event''
      else case extractCommentCommand app (Option.bind (json_field payload ''comment'') (\<lambda>c. json_field c ''body'')) of
        None \<Rightarrow> Skipped ''comment_mention_not_recognized''
      | Some command \<Rightarrow>
          or_threw (extractIssueContext payload) (\<lambda>issue.
          let repo = (ic_owner_login issue, ic_repo_name issue) in
          if \<not> au_allowed (authorizeManualCommentCommand gh repo
               (Option.bind (json_field payload ''sender'') (\<lambda>s. json_field s ''login'')))
          then Skipped ''manual_command_sender_not_authorized''
          else case resolveTrustedDefaultBranch gh repo of
            Inl err \<Rightarrow> Logged err
          | Inr branch \<Rightarrow>
              if ic_is_pull_request issue
              then startPullRequestReviewCommand delivery_id
                \<lparr>pi_branch = branch, pi_event = PrManualReview, pi_test_changes = Some (cc_test_changes command),
                 pi_subject = Inr \<lparr>ref_owner_login = ic_owner_login issue, ref_repo_name = ic_repo_name issue,
                   ref_pr_number = ic_issue_number issue\<rparr>\<rparr>
              else startIssueReviewCommand delivery_id
                \<lparr>ii_issue = issue, ii_branch = branch, ii_event = IssueManualReview, ii_objective = Some Audit,
                 ii_test_changes = Some (cc_test_changes command), ii_open_pr = Some (cc_open_pr command)\<rparr>))"

subsection \<open>The window of a pull request review\<close>

datatype window_kind = FullWindow | PushWindow

datatype window_reason = PullRequestScope | SynchronizeScope | PreviousHeadMissing | PreviousHeadUnreachable
  | PreviousHeadNotAncestor | NoFilesChanged

record review_window =
  rw_kind :: window_kind
  rw_base_sha :: string
  rw_head_sha :: string
  rw_reason :: window_reason

definition fullReviewWindow :: "pull_request_context \<Rightarrow> review_window" where
  "fullReviewWindow pr =
     \<lparr>rw_kind = FullWindow, rw_base_sha = pc_base_sha pr, rw_head_sha = pc_head_sha pr, rw_reason = PullRequestScope\<rparr>"

definition pushReviewWindow :: "string \<Rightarrow> string \<Rightarrow> review_window" where
  "pushReviewWindow previous_head_sha head_sha =
     \<lparr>rw_kind = PushWindow, rw_base_sha = previous_head_sha, rw_head_sha = head_sha, rw_reason = SynchronizeScope\<rparr>"

text \<open>\<open>list_push\<close> gives the files of a comparison and whether its base is an ancestor of the head.\<close>

definition resolveReviewWindowFiles ::
  "pull_request_context \<Rightarrow> pull_request_event \<Rightarrow> (string \<Rightarrow> js_error + 'f list \<times> bool) \<Rightarrow> (js_error + 'f list) \<Rightarrow>
    js_error + review_window \<times> 'f list"
where
  "resolveReviewWindowFiles pr event_type list_push list_full =
     (let full = (\<lambda>reason. map_sum id (Pair ((fullReviewWindow pr)\<lparr>rw_reason := reason\<rparr>)) list_full) in
      if event_type \<noteq> PrSynchronize then full PullRequestScope
      else case pc_previous_head_sha pr of
        None \<Rightarrow> full PreviousHeadMissing
      | Some previous_head_sha \<Rightarrow>
          if previous_head_sha = [] then full PreviousHeadMissing
          else case list_push previous_head_sha of
            Inl err \<Rightarrow> if error_status err \<noteq> Some 404 then Inl err else full PreviousHeadUnreachable
          | Inr (files, previous_head_is_ancestor) \<Rightarrow>
              if \<not> previous_head_is_ancestor then full PreviousHeadNotAncestor
              else if files = [] then full NoFilesChanged
              else Inr (pushReviewWindow previous_head_sha (pc_head_sha pr), files))"

subsection \<open>Which events start a review\<close>

lemma or_threw_Starts: "or_threw m f = Starts a \<longleftrightarrow> (\<exists>x. m = Inr x \<and> f x = Starts a)"
  by (simp add: or_threw_def split: sum.split)

lemma resolved_branch_ok: "resolveTrustedDefaultBranch gh repo = Inr b \<Longrightarrow> branch_ok b"
  by (auto simp: resolveTrustedDefaultBranch_def orThrow_Inr Let_def branch_ok_def nonblank_def split: if_splits)

lemma fetched_branch_ok: "fetchTrustedRepositoryTriggerConfig parse_yaml gh repo = Inr (config, b) \<Longrightarrow> branch_ok b"
  by (auto simp: fetchTrustedRepositoryTriggerConfig_def orThrow_Inr dest: resolved_branch_ok)

text \<open>A configuration that enables automatic reviews was read from the repository's own default branch.\<close>

definition automatic_by_config :: "(string \<Rightarrow> js_error + json) \<Rightarrow> github_reads \<Rightarrow> string \<times> string \<Rightarrow> bool" where
  "automatic_by_config parse_yaml gh repo \<longleftrightarrow>
     (\<exists>branch data content. resolveTrustedDefaultBranch gh repo = Inr branch \<and> gr_content gh repo (tb_default_branch branch) = Inr data \<and>
        decodeRepositoryFileContent data = Some content \<and> extractTriggerMode parse_yaml content = Inr Automatic)"

lemma enabled_by_config:
  assumes "fetchTrustedRepositoryTriggerConfig parse_yaml gh repo = Inr (config, b)" "isAutomaticTriggerModeEnabled config"
  shows "automatic_by_config parse_yaml gh repo"
proof -
  have "fetchRepositoryTriggerConfig parse_yaml gh repo (tb_default_branch b) = Inr config" "resolveTrustedDefaultBranch gh repo = Inr b"
    using assms(1) by (auto simp: fetchTrustedRepositoryTriggerConfig_def orThrow_Inr)
  moreover from this have "readRepositoryTriggerConfig parse_yaml gh repo (tb_default_branch b) = Inr config"
    using assms(2) by (auto simp: fetchRepositoryTriggerConfig_def isAutomaticTriggerModeEnabled_def split: sum.splits if_splits)
  moreover obtain mode where "tc_trigger_mode config = mode" "mode = Automatic"
    using assms(2) by (cases "tc_trigger_mode config") (auto simp: isAutomaticTriggerModeEnabled_def)
  ultimately show ?thesis
    unfolding automatic_by_config_def readRepositoryTriggerConfig_def
    by (auto simp: orThrow_Inr split: option.splits)
qed

lemma pull_request_handlerE:
  assumes "handle_pull_request event skip_drafts app parse_yaml gh delivery_id payload = Starts a"
  obtains pr repo branch where "\<not> isSelfOriginatedWebhookEvent app payload" "extractPullRequestContext payload = Inr pr"
    "\<not> pc_from_fork pr" "resolveTrustedRepositoryIdentity pr = Inr repo" "automatic_by_config parse_yaml gh repo" "branch_ok branch"
    "skip_drafts \<longrightarrow> \<not> pc_is_draft pr" "pa_workflow a = PullRequestReview"
    "pa_input a = pull_request_input_json \<lparr>pi_branch = branch, pi_event = event, pi_test_changes = None, pi_subject = Inl pr\<rparr>"
proof -
  obtain pr repo config branch where run: "\<not> isSelfOriginatedWebhookEvent app payload" "extractPullRequestContext payload = Inr pr"
    "\<not> pc_from_fork pr" "resolveTrustedRepositoryIdentity pr = Inr repo"
    "fetchTrustedRepositoryTriggerConfig parse_yaml gh repo = Inr (config, branch)" "isAutomaticTriggerModeEnabled config"
    "skip_drafts \<longrightarrow> \<not> pc_is_draft pr"
    "startPullRequestReviewCommand delivery_id \<lparr>pi_branch = branch, pi_event = event, pi_test_changes = None, pi_subject = Inl pr\<rparr> = Starts a"
    using assms by (auto simp: handle_pull_request_def or_threw_Starts split: if_splits)
  from run(8) have "pa_workflow a = PullRequestReview"
    "pa_input a = pull_request_input_json \<lparr>pi_branch = branch, pi_event = event, pi_test_changes = None, pi_subject = Inl pr\<rparr>"
    by (auto simp: startPullRequestReviewCommand_def)
  then show thesis
    using that [OF run(1-4) enabled_by_config [OF run(5,6)] fetched_branch_ok [OF run(5)] run(7)] by blast
qed

lemma issue_handlerE:
  assumes "handleIssueOpened app parse_yaml gh delivery_id payload = Starts a"
  obtains issue branch where "\<not> isSelfOriginatedWebhookEvent app payload" "extractIssueContext payload = Inr issue"
    "\<not> ic_is_pull_request issue" "automatic_by_config parse_yaml gh (ic_owner_login issue, ic_repo_name issue)" "branch_ok branch"
    "pa_workflow a = IssueReview"
    "pa_input a = issue_input_json \<lparr>ii_issue = issue, ii_branch = branch, ii_event = IssueOpened, ii_objective = Some Audit,
       ii_test_changes = None, ii_open_pr = Some False\<rparr>"
proof -
  obtain issue config branch where run: "\<not> isSelfOriginatedWebhookEvent app payload" "extractIssueContext payload = Inr issue"
    "\<not> ic_is_pull_request issue"
    "fetchTrustedRepositoryTriggerConfig parse_yaml gh (ic_owner_login issue, ic_repo_name issue) = Inr (config, branch)"
    "isAutomaticTriggerModeEnabled config"
    "startIssueReviewCommand delivery_id \<lparr>ii_issue = issue, ii_branch = branch, ii_event = IssueOpened, ii_objective = Some Audit,
       ii_test_changes = None, ii_open_pr = Some False\<rparr> = Starts a"
    using assms by (auto simp: handleIssueOpened_def or_threw_Starts split: if_splits)
  from run(6) have "pa_workflow a = IssueReview" "pa_input a = issue_input_json \<lparr>ii_issue = issue, ii_branch = branch,
      ii_event = IssueOpened, ii_objective = Some Audit, ii_test_changes = None, ii_open_pr = Some False\<rparr>"
    by (auto simp: startIssueReviewCommand_def)
  then show thesis
    using that [OF run(1-3) enabled_by_config [OF run(4,5)] fetched_branch_ok [OF run(4)]] by blast
qed

lemma comment_handlerE:
  assumes "handleIssueCommentCreated app gh delivery_id payload = Starts a"
  obtains issue branch command where "\<not> isSelfOriginatedWebhookEvent app payload"
    "extractCommentCommand app (Option.bind (json_field payload ''comment'') (\<lambda>c. json_field c ''body'')) = Some command"
    "extractIssueContext payload = Inr issue"
    "au_allowed (authorizeManualCommentCommand gh (ic_owner_login issue, ic_repo_name issue)
       (Option.bind (json_field payload ''sender'') (\<lambda>s. json_field s ''login'')))"
    "branch_ok branch"
    "(if ic_is_pull_request issue
     then startPullRequestReviewCommand delivery_id
       \<lparr>pi_branch = branch, pi_event = PrManualReview, pi_test_changes = Some (cc_test_changes command),
        pi_subject = Inr \<lparr>ref_owner_login = ic_owner_login issue, ref_repo_name = ic_repo_name issue,
          ref_pr_number = ic_issue_number issue\<rparr>\<rparr>
     else startIssueReviewCommand delivery_id
       \<lparr>ii_issue = issue, ii_branch = branch, ii_event = IssueManualReview, ii_objective = Some Audit,
        ii_test_changes = Some (cc_test_changes command), ii_open_pr = Some (cc_open_pr command)\<rparr>) = Starts a"
proof -
  obtain command where command: "\<not> isSelfOriginatedWebhookEvent app payload"
    "extractCommentCommand app (Option.bind (json_field payload ''comment'') (\<lambda>c. json_field c ''body'')) = Some command"
    using assms by (auto simp: handleIssueCommentCreated_def split: if_splits option.splits)
  then obtain issue where issue: "extractIssueContext payload = Inr issue"
    using assms by (auto simp: handleIssueCommentCreated_def or_threw_Starts)
  have allowed: "au_allowed (authorizeManualCommentCommand gh (ic_owner_login issue, ic_repo_name issue)
      (Option.bind (json_field payload ''sender'') (\<lambda>s. json_field s ''login'')))"
    using assms by (auto simp: handleIssueCommentCreated_def command issue or_threw_Starts Let_def split: if_splits)
  obtain branch where branch: "resolveTrustedDefaultBranch gh (ic_owner_login issue, ic_repo_name issue) = Inr branch"
    using assms
    by (auto simp: handleIssueCommentCreated_def command issue allowed or_threw_Starts Let_def split: sum.splits)
  show thesis
    using assms that [OF command issue allowed resolved_branch_ok [OF branch]]
    by (simp add: handleIssueCommentCreated_def command issue allowed branch or_threw_def Let_def)
qed

lemma authorizedE:
  assumes "au_allowed (authorizeManualCommentCommand gh repo login)"
  obtains sender permission where "optionalString login = Some sender" "gr_permission gh repo sender = Inr (Some (JStr permission))"
    "permission \<in> {''write'', ''maintain'', ''admin''}"
proof -
  obtain sender v where found: "optionalString login = Some sender" "gr_permission gh repo sender = Inr v"
    "3 \<le> PERMISSION_RANK (normalizeRepositoryPermission v)"
    using assms by (auto simp: authorizeManualCommentCommand_def Let_def split: option.splits sum.splits)
  moreover have "\<exists>permission \<in> {''write'', ''maintain'', ''admin''}. v = Some (JStr permission)"
    using found(3) by (cases v rule: string_field.cases) (auto simp: normalizeRepositoryPermission_def split: if_splits)
  ultimately show thesis using that by blast
qed

text \<open>C27. A pull request event starts a review by itself only when it does not come from the app, the head and the base of the pull
  request are known to be the same repository, that repository's own configuration on its default branch enables automatic
  reviews, and, unless it was just marked ready, the pull request is not a draft.\<close>

theorem automatic_reviews_trusted:
  assumes "h \<in> {handlePullRequestOpened, handlePullRequestSynchronize, handlePullRequestReadyForReview}"
    "h app parse_yaml gh delivery_id payload = Starts a"
  shows "\<not> isSelfOriginatedWebhookEvent app payload \<and>
    (\<exists>pr name repo. extractPullRequestContext payload = Inr pr \<and>
       pc_head_repo_full_name pr = Some name \<and> pc_base_repo_full_name pr = Some name \<and>
       splitRepoFullName name = Inr repo \<and> automatic_by_config parse_yaml gh repo \<and>
       (h \<in> {handlePullRequestOpened, handlePullRequestSynchronize} \<longrightarrow> \<not> pc_is_draft pr))"
proof -
  obtain event skip_drafts where h: "h = handle_pull_request event skip_drafts"
    "h \<in> {handlePullRequestOpened, handlePullRequestSynchronize} \<longrightarrow> skip_drafts"
    using assms(1) unfolding handlePullRequestOpened_def handlePullRequestSynchronize_def handlePullRequestReadyForReview_def by blast
  from assms(2) obtain pr repo where run: "\<not> isSelfOriginatedWebhookEvent app payload" "extractPullRequestContext payload = Inr pr"
    "\<not> pc_from_fork pr" "resolveTrustedRepositoryIdentity pr = Inr repo" "automatic_by_config parse_yaml gh repo"
    "skip_drafts \<longrightarrow> \<not> pc_is_draft pr"
    unfolding h(1) by (rule pull_request_handlerE)
  have "pull_request_ok pr" using run(2) built_pull_request_ok by (simp add: extractPullRequestContext_def)
  then obtain name where "pc_head_repo_full_name pr = Some name" "pc_base_repo_full_name pr = Some name"
    using run(3) by (auto simp: pull_request_ok_def isForkPullRequest_def)
  then show ?thesis using run h(2) by (cases repo) (auto simp: resolveTrustedRepositoryIdentity_def)
qed

text \<open>C28. A comment starts a review only when someone else than the app wrote a review command in it and GitHub reports that
  the sender has write, maintain or admin permission on the repository of the comment.\<close>

theorem commands_authorized:
  assumes "handleIssueCommentCreated app gh delivery_id payload = Starts a"
  shows "\<not> isSelfOriginatedWebhookEvent app payload \<and>
    extractCommentCommand app (Option.bind (json_field payload ''comment'') (\<lambda>c. json_field c ''body'')) \<noteq> None \<and>
    (\<exists>issue sender permission. extractIssueContext payload = Inr issue \<and>
       optionalString (Option.bind (json_field payload ''sender'') (\<lambda>s. json_field s ''login'')) = Some sender \<and>
       gr_permission gh (ic_owner_login issue, ic_repo_name issue) sender = Inr (Some (JStr permission)) \<and>
       permission \<in> {''write'', ''maintain'', ''admin''})"
  using assms
proof (rule comment_handlerE)
  fix issue branch command
  assume run: "\<not> isSelfOriginatedWebhookEvent app payload"
    "extractCommentCommand app (Option.bind (json_field payload ''comment'') (\<lambda>c. json_field c ''body'')) = Some command"
    "extractIssueContext payload = Inr issue"
    "au_allowed (authorizeManualCommentCommand gh (ic_owner_login issue, ic_repo_name issue)
       (Option.bind (json_field payload ''sender'') (\<lambda>s. json_field s ''login'')))"
  show ?thesis
    by (rule authorizedE [OF run(4)]) (intro conjI exI, use run in simp_all)
qed

text \<open>C29. What a webhook starts can be recovered: the preparation input a handler stores is read back by the parser of its
  workflow as the very input the handler built, so an interrupted preparation is never refused for its stored form.\<close>

theorem started_input_recovers:
  assumes "Starts a \<in> {handleIssueOpened app parse_yaml gh delivery_id payload, handlePullRequestOpened app parse_yaml gh delivery_id payload,
    handlePullRequestSynchronize app parse_yaml gh delivery_id payload, handlePullRequestReadyForReview app parse_yaml gh delivery_id payload,
    handleIssueCommentCreated app gh delivery_id payload}"
  shows "pa_workflow a = IssueReview \<and> (\<exists>i. pa_input a = issue_input_json i \<and> parseIssuePreparationInput (pa_input a) = Inr i) \<or>
    pa_workflow a = PullRequestReview \<and>
      (\<exists>i. pa_input a = pull_request_input_json i \<and> parsePullRequestPreparationInput (pa_input a) = Inr i)"
proof -
  consider "handleIssueOpened app parse_yaml gh delivery_id payload = Starts a"
    | event skip_drafts where "handle_pull_request event skip_drafts app parse_yaml gh delivery_id payload = Starts a"
    | "handleIssueCommentCreated app gh delivery_id payload = Starts a"
    using assms unfolding handlePullRequestOpened_def handlePullRequestSynchronize_def handlePullRequestReadyForReview_def by auto
  then show ?thesis
  proof cases
    case 1
    then show ?thesis
      by (rule issue_handlerE) (auto intro!: issue_input_read exI dest: extracted_issue_ok)
  next
    case 2
    then show ?thesis
      by (rule pull_request_handlerE)
        (auto intro!: pull_request_input_read exI dest: built_pull_request_ok simp: extractPullRequestContext_def subject_ok_def)
  next
    case 3
    then show ?thesis
    proof (rule comment_handlerE)
      fix issue branch command
      assume ok: "extractIssueContext payload = Inr issue" "branch_ok branch"
        and starts: "(if ic_is_pull_request issue
          then startPullRequestReviewCommand delivery_id
            \<lparr>pi_branch = branch, pi_event = PrManualReview, pi_test_changes = Some (cc_test_changes command),
             pi_subject = Inr \<lparr>ref_owner_login = ic_owner_login issue, ref_repo_name = ic_repo_name issue,
               ref_pr_number = ic_issue_number issue\<rparr>\<rparr>
          else startIssueReviewCommand delivery_id
            \<lparr>ii_issue = issue, ii_branch = branch, ii_event = IssueManualReview, ii_objective = Some Audit,
             ii_test_changes = Some (cc_test_changes command), ii_open_pr = Some (cc_open_pr command)\<rparr>) = Starts a"
      have issue: "issue_ok issue" using ok(1) by (rule extracted_issue_ok)
      then have "subject_ok (Inr \<lparr>ref_owner_login = ic_owner_login issue, ref_repo_name = ic_repo_name issue,
          ref_pr_number = ic_issue_number issue\<rparr>)"
        by (simp add: issue_ok_def subject_ok_def)
      then show ?thesis
        using starts issue ok(2)
        by (auto simp: startPullRequestReviewCommand_def startIssueReviewCommand_def split: if_splits
            intro!: pull_request_input_read issue_input_read exI)
    qed
  qed
qed

text \<open>The files and the range of a review come from one decision: a push window has the files of the comparison with the
  previous head, which is an ancestor and differs in some file; every other review covers the whole pull request. Only an
  unreachable previous head (404) falls back; any other failure of the comparison is thrown.\<close>

theorem window_matches_files:
  assumes "resolveReviewWindowFiles pr event_type list_push list_full = Inr (w, files)"
  shows "rw_head_sha w = pc_head_sha pr \<and>
    (if rw_kind w = PushWindow
     then event_type = PrSynchronize \<and> pc_previous_head_sha pr = Some (rw_base_sha w) \<and>
       list_push (rw_base_sha w) = Inr (files, True) \<and> files \<noteq> []
     else rw_base_sha w = pc_base_sha pr \<and> list_full = Inr files \<and>
       (\<forall>previous err. event_type = PrSynchronize \<and> pc_previous_head_sha pr = Some previous \<and> previous \<noteq> [] \<and>
          list_push previous = Inl err \<longrightarrow> error_status err = Some 404))"
  using assms unfolding resolveReviewWindowFiles_def Let_def
  by (cases list_full)
    (auto simp: fullReviewWindow_def pushReviewWindow_def split: if_splits option.splits sum.splits prod.splits)

subsection \<open>Instances\<close>

definition demo_app :: app_metadata where
  "demo_app = setGitHubAppMetadata (Some (JStr ''sec-bot''))"

definition demo_yaml :: "string \<Rightarrow> js_error + json" where
  "demo_yaml content = Inr (JObj [(''sec_review_bot'', JObj [(''trigger_mode'', JStr '' Automatic'')])])"

definition demo_reads :: github_reads where
  "demo_reads = \<lparr>gr_default_branch = (\<lambda>_. Inr (Some ''main'')), gr_branch_sha = (\<lambda>_ _. Inr (Some ''c0ffee'')),
     gr_content = (\<lambda>_ _. Inr (JObj [(''type'', JStr ''file''), (''content'', JStr ''YQ'')])),
     gr_permission = (\<lambda>_ _. Inr (Some (JStr ''write'')))\<rparr>"

definition demo_repository :: json where
  "demo_repository = JObj [(''name'', JStr ''app''), (''full_name'', JStr ''acme/app''), (''default_branch'', JStr ''main''),
     (''owner'', JObj [(''login'', JStr ''acme'')])]"

definition demo_end :: "string \<Rightarrow> string \<Rightarrow> json" where
  "demo_end ref sha = JObj [(''ref'', JStr ref), (''sha'', JStr sha), (''repo'', JObj [(''full_name'', JStr ''acme/app'')])]"

definition demo_push :: json where
  "demo_push = JObj [(''action'', JStr ''synchronize''), (''before'', JStr ''h0''), (''repository'', demo_repository),
     (''sender'', JObj [(''login'', JStr ''dev''), (''type'', JStr ''User'')]),
     (''pull_request'', JObj [(''number'', JNum 7), (''title'', JStr ''Fix''), (''base'', demo_end ''main'' ''b0''),
        (''head'', demo_end ''fix'' ''h1'')])]"

definition demo_comment :: json where
  "demo_comment = JObj [(''action'', JStr ''created''), (''repository'', demo_repository),
     (''sender'', JObj [(''login'', JStr ''dev''), (''type'', JStr ''User'')]),
     (''issue'', JObj [(''number'', JNum 7), (''title'', JStr ''Leak''), (''state'', JStr ''open'')]),
     (''comment'', JObj [(''body'', JStr ''please @Sec-Bot: review --open-pr'')])]"

fun starts :: "ingress_outcome \<Rightarrow> preparation_admission option" where
  "starts (Starts a) = Some a"
| "starts _ = None"

lemma starts_Some: "starts r = Some a \<longleftrightarrow> r = Starts a"
  by (cases r) auto

lemma demo_push_starts: "starts (handlePullRequestSynchronize demo_app demo_yaml demo_reads ''d-1'' demo_push) \<noteq> None"
  by code_simp

lemma demo_comment_starts: "starts (handleIssueCommentCreated demo_app demo_reads ''d-2'' demo_comment) \<noteq> None"
  by code_simp

theorem automatic_reviews_trusted_witness:
  "\<exists>pr name. extractPullRequestContext demo_push = Inr pr \<and> pc_head_repo_full_name pr = Some name \<and> pc_base_repo_full_name pr = Some name"
proof -
  obtain a where "handlePullRequestSynchronize demo_app demo_yaml demo_reads ''d-1'' demo_push = Starts a"
    using demo_push_starts by (auto simp: starts_Some)
  then show ?thesis using automatic_reviews_trusted [of handlePullRequestSynchronize] by blast
qed

theorem commands_authorized_witness:
  "\<not> isSelfOriginatedWebhookEvent demo_app demo_comment"
proof -
  obtain a where "handleIssueCommentCreated demo_app demo_reads ''d-2'' demo_comment = Starts a"
    using demo_comment_starts by (auto simp: starts_Some)
  then show ?thesis using commands_authorized by blast
qed

theorem started_input_recovers_witness:
  "\<exists>a. handleIssueCommentCreated demo_app demo_reads ''d-2'' demo_comment = Starts a \<and> pa_workflow a = IssueReview \<and>
     (\<exists>i. parseIssuePreparationInput (pa_input a) = Inr i)"
proof -
  obtain a where a: "handleIssueCommentCreated demo_app demo_reads ''d-2'' demo_comment = Starts a"
    using demo_comment_starts by (auto simp: starts_Some)
  have "map_option pa_workflow (starts (handleIssueCommentCreated demo_app demo_reads ''d-2'' demo_comment)) = Some IssueReview"
    by code_simp
  then have workflow: "pa_workflow a = IssueReview" by (simp add: a)
  have "Starts a \<in> {handleIssueOpened demo_app demo_yaml demo_reads ''d-2'' demo_comment,
      handlePullRequestOpened demo_app demo_yaml demo_reads ''d-2'' demo_comment,
      handlePullRequestSynchronize demo_app demo_yaml demo_reads ''d-2'' demo_comment,
      handlePullRequestReadyForReview demo_app demo_yaml demo_reads ''d-2'' demo_comment,
      handleIssueCommentCreated demo_app demo_reads ''d-2'' demo_comment}"
    unfolding a by (intro insertI2 insertI1)
  from started_input_recovers [OF this] obtain i where "parseIssuePreparationInput (pa_input a) = Inr i"
    using workflow by (elim disjE conjE exE) simp_all
  then show ?thesis using a workflow by (intro exI conjI)
qed

theorem window_matches_files_witness:
  "\<exists>pr w. extractPullRequestContext demo_push = Inr pr \<and>
     resolveReviewWindowFiles pr PrSynchronize (\<lambda>_. Inr ([''a.py''], True)) (Inr [''a.py'', ''b.py'']) = Inr (w, [''a.py'']) \<and>
     pc_previous_head_sha pr = Some (rw_base_sha w)"
proof -
  have "map_sum (\<lambda>_. ()) pc_previous_head_sha (extractPullRequestContext demo_push) = Inr (Some ''h0'')" by code_simp
  then obtain pr where pr: "extractPullRequestContext demo_push = Inr pr" "pc_previous_head_sha pr = Some ''h0''"
    by (cases "extractPullRequestContext demo_push") auto
  have window: "resolveReviewWindowFiles pr PrSynchronize (\<lambda>_. Inr ([''a.py''], True)) (Inr [''a.py'', ''b.py'']) =
      Inr (pushReviewWindow ''h0'' (pc_head_sha pr), [''a.py''])"
    by (simp add: resolveReviewWindowFiles_def pr(2))
  have "pc_previous_head_sha pr = Some (rw_base_sha (pushReviewWindow ''h0'' (pc_head_sha pr)))"
    using window_matches_files [OF window] by (simp add: pushReviewWindow_def)
  then show ?thesis using pr(1) window by (intro exI conjI)
qed

end
