(* ===== verification/Suggestions.thy ===== *)
theory Suggestions
  imports ExecutionClient
begin

text \<open>
  The suggestion pipeline of a pull request review (\<^verbatim>\<open>reviews/pull-requests/suggestion-service.ts\<close> and
  \<^verbatim>\<open>suggestion-comments.ts\<close>): parsing the mitigation patch, cutting its hunks into blocks and promoting the blocks that meet a hunk of the
  pull request to inline suggestions. A string is the list of its UTF-8 bytes; a line number is an integer, which a \<^verbatim>\<open>Number\<close> is
  exactly below \<open>2 ^ 53\<close>. A thrown \<^verbatim>\<open>Error\<close> inside the parser is \<open>Inl\<close> of its text; what \<^verbatim>\<open>String\<close> gives for the error of the
  fatal UTF-8 decoder is an argument.
\<close>

subsection \<open>White space at the end of a text\<close>

definition two_byte_space :: "nat \<Rightarrow> nat \<Rightarrow> bool" where
  "two_byte_space y x \<longleftrightarrow> y = 194 \<and> x = 160"

definition three_byte_space :: "nat \<Rightarrow> nat \<Rightarrow> nat \<Rightarrow> bool" where
  "three_byte_space z y x \<longleftrightarrow>
     z = 225 \<and> y = 154 \<and> x = 128 \<or>
     z = 226 \<and> y = 128 \<and> (128 \<le> x \<and> x \<le> 138 \<or> x = 168 \<or> x = 169 \<or> x = 175) \<or>
     z = 226 \<and> y = 129 \<and> x = 159 \<or> z = 227 \<and> y = 128 \<and> x = 128 \<or> z = 239 \<and> y = 187 \<and> x = 191"

definition ascii_space :: "nat \<Rightarrow> bool" where
  "ascii_space x \<longleftrightarrow> 9 \<le> x \<and> x \<le> 13 \<or> x = 32"

text \<open>The bytes of a text from its end, without the white space there.\<close>

fun trim_rev :: "nat list \<Rightarrow> nat list" where
  "trim_rev [] = []"
| "trim_rev [x] = (if ascii_space x then [] else [x])"
| "trim_rev [x, y] = (if ascii_space x then trim_rev [y] else if two_byte_space y x then [] else [x, y])"
| "trim_rev (x # y # z # xs) =
     (if ascii_space x then trim_rev (y # z # xs)
      else if two_byte_space y x then trim_rev (z # xs)
      else if three_byte_space z y x then trim_rev xs
      else x # y # z # xs)"

definition trimEnd :: "string \<Rightarrow> string" where
  "trimEnd s = map char_of (rev (trim_rev (rev (map of_char s))))"

text \<open>\<^verbatim>\<open>s.trim() === ''\<close>.\<close>

definition all_space :: "string \<Rightarrow> bool" where
  "all_space s \<longleftrightarrow> trimEnd s = []"

text \<open>\<^verbatim>\<open>parts.join('\n')\<close>.\<close>

definition newline :: char where
  "newline = CHR 0x0A"

fun join_lines :: "string list \<Rightarrow> string" where
  "join_lines [] = []"
| "join_lines [l] = l"
| "join_lines (l # ls) = l @ newline # join_lines ls"

subsection \<open>Hunk headers\<close>

record hunk_header =
  old_start :: int
  old_count :: int
  new_start :: int
  new_count :: int

record workspace_hunk = hunk_header +
  hunk_lines :: "string list"

record workspace_patch_file =
  wp_path :: string
  wp_hunks :: "workspace_hunk list"
  wp_path_error :: "string option"

text \<open>\<^verbatim>\<open>(\d+)(?:,(\d+))?\<close> from the start of a text: both numbers and what follows. A shorter match leaves a digit or a comma in
  front of the literal that has to follow, so the longest is the only one.\<close>

definition read_number :: "string \<Rightarrow> (int \<times> string) option" where
  "read_number s =
     (case takeWhile digit s of [] \<Rightarrow> None | ds \<Rightarrow> Some (digits_value ds, dropWhile digit s))"

definition read_range :: "string \<Rightarrow> (int \<times> int \<times> string) option" where
  "read_range s =
     (case read_number s of
        None \<Rightarrow> None
      | Some (start, rest) \<Rightarrow>
         (case rest of
            x # further \<Rightarrow>
              if x = CHR '',''
              then (case read_number further of None \<Rightarrow> Some (start, 1, rest) | Some (count, after) \<Rightarrow> Some (start, count, after))
              else Some (start, 1, rest)
          | [] \<Rightarrow> Some (start, 1, rest)))"

definition strip_prefix :: "string \<Rightarrow> string \<Rightarrow> string option" where
  "strip_prefix p s = (if starts_with p s then Some (drop (length p) s) else None)"

definition parseHunkHeader :: "string \<Rightarrow> hunk_header option" where
  "parseHunkHeader headerLine =
     (case strip_prefix ''@@ -'' headerLine of
        None \<Rightarrow> None
      | Some s1 \<Rightarrow>
         (case read_range s1 of
            None \<Rightarrow> None
          | Some (os, oc, s2) \<Rightarrow>
             (case strip_prefix '' +'' s2 of
                None \<Rightarrow> None
              | Some s3 \<Rightarrow>
                 (case read_range s3 of
                    None \<Rightarrow> None
                  | Some (ns, nc, s4) \<Rightarrow>
                      if starts_with '' @@'' s4
                      then Some \<lparr>old_start = os, old_count = oc, new_start = ns, new_count = nc\<rparr>
                      else None))))"

subsection \<open>Paths of a patch\<close>

definition escapes :: "char \<Rightarrow> nat option" where
  "escapes x = map_of [(CHR ''a'', 7), (CHR ''b'', 8), (CHR ''t'', 9), (CHR ''n'', 10), (CHR ''v'', 11), (CHR ''f'', 12),
     (CHR ''r'', 13), (CHR 0x22, 34), (CHR 0x5C, 92)] x"

definition octal_byte :: "char \<Rightarrow> char \<Rightarrow> char \<Rightarrow> nat option" where
  "octal_byte a b c =
     (if a \<in> set ''0123'' \<and> b \<in> set ''01234567'' \<and> c \<in> set ''01234567''
      then Some ((of_char a - 48) * 64 + (of_char b - 48) * 8 + (of_char c - 48)) else None)"

definition cons_byte :: "nat \<Rightarrow> string + nat list \<Rightarrow> string + nat list" where
  "cons_byte b = map_sum id ((#) b)"

text \<open>The bytes between the quotes. A character that is not escaped stands for its own UTF-8 bytes.\<close>

fun unquote :: "string \<Rightarrow> string + nat list" where
  "unquote [] = Inr []"
| "unquote (x # xs) =
     (if x = CHR 0x5C then
        (case (case xs of a # b # c # rest \<Rightarrow> octal_byte a b c | _ \<Rightarrow> None) of
           Some n \<Rightarrow> cons_byte n (unquote (drop 3 xs))
         | None \<Rightarrow>
            (case xs of
               [] \<Rightarrow> Inl ''Error: Invalid escape in quoted Git path.''
             | e # rest \<Rightarrow>
                (case escapes e of
                   None \<Rightarrow> Inl ''Error: Invalid escape in quoted Git path.''
                 | Some n \<Rightarrow> cons_byte n (unquote rest))))
      else if x = CHR 0x22 then Inl ''Error: Unexpected quote in Git path.''
      else cons_byte (of_char x) (unquote xs))"

text \<open>\<^verbatim>\<open>new TextDecoder('utf-8', { fatal: true }).decode(bytes)\<close>: ill-formed bytes throw, a byte order mark at the start is
  dropped.\<close>

definition decode_fatal :: "string \<Rightarrow> nat list \<Rightarrow> string + string" where
  "decode_fatal malformed bs =
     (if utf8_lossy bs \<noteq> bs then Inl malformed
      else Inr (map char_of (if take 3 bs = [239, 187, 191] then drop 3 bs else bs)))"

definition decodeGitPatchPath :: "string \<Rightarrow> string \<Rightarrow> string + string" where
  "decodeGitPatchPath malformed value =
     (if \<not> starts_with [CHR 0x22] value then Inr (hd (split_on (CHR 0x09) value))
      else if last value \<noteq> CHR 0x22 then Inl ''Error: Unterminated quoted Git path.''
      else case unquote (butlast (tl value)) of Inl e \<Rightarrow> Inl e | Inr bs \<Rightarrow> decode_fatal malformed bs)"

definition destination_path :: "string \<Rightarrow> string \<Rightarrow> string + string" where
  "destination_path malformed value =
     (case decodeGitPatchPath malformed value of
        Inl e \<Rightarrow> Inl e
      | Inr path \<Rightarrow>
          if starts_with ''b/'' path then Inr (drop 2 path) else Inl ''Error: Patch destination is not a repository file.'')"

subsection \<open>The workspace patch\<close>

definition update_last :: "('a \<Rightarrow> 'a) \<Rightarrow> 'a list \<Rightarrow> 'a list" where
  "update_last f xs = (if xs = [] then [] else butlast xs @ [f (last xs)])"

text \<open>\<open>current_file\<close> is the newest entry of \<open>files\<close>, once there is one; \<open>current_hunk\<close>, when it is not null, the newest hunk of
  that entry.\<close>

record patch_parser =
  pp_files :: "workspace_patch_file list"
  pp_in_hunk :: bool

definition file_header :: "string \<Rightarrow> workspace_patch_file" where
  "file_header line =
     \<lparr>wp_path = line, wp_hunks = [], wp_path_error = Some ''Patch entry has no readable destination path.''\<rparr>"

definition name_file :: "string \<Rightarrow> string \<Rightarrow> workspace_patch_file \<Rightarrow> workspace_patch_file" where
  "name_file malformed value f =
     (case destination_path malformed value of
        Inl e \<Rightarrow> f\<lparr>wp_path_error := Some e\<rparr>
      | Inr path \<Rightarrow> f\<lparr>wp_path := path, wp_path_error := None\<rparr>)"

definition open_hunk :: "hunk_header \<Rightarrow> workspace_patch_file \<Rightarrow> workspace_patch_file" where
  "open_hunk h f =
     f\<lparr>wp_hunks := wp_hunks f @ [\<lparr>old_start = old_start h, old_count = old_count h, new_start = new_start h,
        new_count = new_count h, hunk_lines = []\<rparr>]\<rparr>"

definition push_line :: "string \<Rightarrow> workspace_patch_file \<Rightarrow> workspace_patch_file" where
  "push_line line f = f\<lparr>wp_hunks := update_last (\<lambda>h. h\<lparr>hunk_lines := hunk_lines h @ [line]\<rparr>) (wp_hunks f)\<rparr>"

definition marker :: "string \<Rightarrow> char option" where
  "marker line = (case line of [] \<Rightarrow> None | x # _ \<Rightarrow> Some x)"

definition marked :: "string \<Rightarrow> bool" where
  "marked line \<longleftrightarrow> marker line \<in> {Some (CHR '' ''), Some (CHR ''+''), Some (CHR ''-'')}"

definition patch_line :: "string \<Rightarrow> string \<Rightarrow> patch_parser \<Rightarrow> patch_parser" where
  "patch_line malformed line p =
     (if starts_with ''diff --git '' line \<or> starts_with ''diff -ruN '' line
      then \<lparr>pp_files = pp_files p @ [file_header line], pp_in_hunk = False\<rparr>
      else if pp_files p = [] then p
      else if \<not> pp_in_hunk p \<and> starts_with ''+++ '' line
      then p\<lparr>pp_files := update_last (name_file malformed (drop 4 line)) (pp_files p)\<rparr>
      else if starts_with ''@@ '' line then
        (case parseHunkHeader line of
           None \<Rightarrow> p\<lparr>pp_in_hunk := False\<rparr>
         | Some h \<Rightarrow> \<lparr>pp_files = update_last (open_hunk h) (pp_files p), pp_in_hunk = True\<rparr>)
      else if pp_in_hunk p \<and> marked line
      then p\<lparr>pp_files := update_last (push_line line) (pp_files p)\<rparr>
      else p)"

definition parseWorkspacePatch :: "string \<Rightarrow> string \<Rightarrow> workspace_patch_file list" where
  "parseWorkspacePatch malformed patch_content =
     pp_files (fold (patch_line malformed) (split_on newline patch_content) \<lparr>pp_files = [], pp_in_hunk = False\<rparr>)"

definition parsePatchHunks :: "string \<Rightarrow> hunk_header list" where
  "parsePatchHunks patch_content =
     (if all_space patch_content then []
      else List.map_filter parseHunkHeader (filter (starts_with ''@@ '') (split_on newline patch_content)))"

subsection \<open>Blocks\<close>

record suggestion_block =
  sb_start_line :: int
  sb_line :: int
  sb_replacement :: string

definition buildSuggestionBody :: "string \<Rightarrow> string" where
  "buildSuggestionBody repl = join_lines [''```suggestion'', repl, ''```'']"

definition toLineRange :: "int \<Rightarrow> int \<Rightarrow> (int \<times> int) option" where
  "toLineRange start count = (if start \<le> 0 \<or> count \<le> 0 then None else Some (start, start + count - 1))"

definition rangesOverlap :: "int \<times> int \<Rightarrow> int \<times> int \<Rightarrow> bool" where
  "rangesOverlap left right \<longleftrightarrow> fst left \<le> snd right \<and> fst right \<le> snd left"

definition findAnchoringHunkForBlock :: "suggestion_block \<Rightarrow> hunk_header list \<Rightarrow> hunk_header option" where
  "findAnchoringHunkForBlock block prHunks =
     (case toLineRange (sb_start_line block) (sb_line block - sb_start_line block + 1) of
        None \<Rightarrow> None
      | Some blockRange \<Rightarrow>
          find (\<lambda>prHunk. case toLineRange (new_start prHunk) (new_count prHunk) of
                  None \<Rightarrow> False
                | Some prRange \<Rightarrow> rangesOverlap blockRange prRange) prHunks)"

text \<open>\<open>old_line_at_index\<close>: every line with the number of the old line it stands at.\<close>

primrec numbered :: "int \<Rightarrow> string list \<Rightarrow> (int \<times> string) list" where
  "numbered oldLineCursor [] = []"
| "numbered oldLineCursor (line # ls) =
     (oldLineCursor, line) #
     numbered (if marker line = Some (CHR '' '') \<or> marker line = Some (CHR ''-'') then oldLineCursor + 1 else oldLineCursor) ls"

definition changed :: "int \<times> string \<Rightarrow> bool" where
  "changed l \<longleftrightarrow> marker (snd l) = Some (CHR ''+'') \<or> marker (snd l) = Some (CHR ''-'')"

definition context_line :: "int \<times> string \<Rightarrow> bool" where
  "context_line l \<longleftrightarrow> marker (snd l) = Some (CHR '' '')"

definition plus_lines :: "(int \<times> string) list \<Rightarrow> string list" where
  "plus_lines run = map (drop 1 \<circ> snd) (filter (\<lambda>l. marker (snd l) = Some (CHR ''+'')) run)"

definition minus_line_numbers :: "(int \<times> string) list \<Rightarrow> int list" where
  "minus_line_numbers run = map fst (filter (\<lambda>l. marker (snd l) = Some (CHR ''-'')) run)"

definition replace_lines :: "int list \<Rightarrow> string \<Rightarrow> suggestion_block option" where
  "replace_lines removed repl =
     (if 0 < hd removed \<and> hd removed \<le> last removed
      then Some \<lparr>sb_start_line = hd removed, sb_line = last removed, sb_replacement = repl\<rparr> else None)"

definition anchored_replacement :: "(int \<times> string) list \<Rightarrow> (int \<times> string) list \<Rightarrow> string \<Rightarrow> string option" where
  "anchored_replacement before after core =
     (case find context_line after of
        Some l \<Rightarrow> Some (core @ newline # drop 1 (snd l))
      | None \<Rightarrow> map_option (\<lambda>l. drop 1 (snd l) @ newline # core) (find context_line (rev before)))"

definition run_block ::
  "(int \<times> string) list \<Rightarrow> (int \<times> string) list \<Rightarrow> (int \<times> string) list \<Rightarrow> suggestion_block option"
where
  "run_block before run after =
     (let added = plus_lines run; removed = minus_line_numbers run; core = trimEnd (join_lines added); insertionLine = fst (hd run) in
      if added = [] \<and> removed \<noteq> [] then replace_lines removed []
      else if added = [] then None
      else if core = [] then None
      else if removed \<noteq> [] then replace_lines removed core
      else if insertionLine \<le> 0 then None
      else map_option (\<lambda>r. \<lparr>sb_start_line = insertionLine, sb_line = insertionLine, sb_replacement = r\<rparr>) (anchored_replacement before after core))"

definition option_list :: "'a option \<Rightarrow> 'a list" where
  "option_list v = (case v of None \<Rightarrow> [] | Some x \<Rightarrow> [x])"

function split_runs :: "(int \<times> string) list \<Rightarrow> (int \<times> string) list \<Rightarrow> suggestion_block list" where
  "split_runs before [] = []"
| "split_runs before (l # ls) =
     (if \<not> changed l then split_runs (before @ [l]) ls
      else let run = l # takeWhile changed ls; after = dropWhile changed ls
           in option_list (run_block before run after) @ split_runs (before @ run) after)"
  by pat_completeness auto
termination by (relation "measure (\<lambda>(before, ls). length ls)") (auto simp: less_Suc_eq_le length_dropWhile_le)

definition splitWorkspaceHunkIntoSuggestionBlocks :: "workspace_hunk \<Rightarrow> suggestion_block list" where
  "splitWorkspaceHunkIntoSuggestionBlocks h = split_runs [] (numbered (old_start h) (hunk_lines h))"

subsection \<open>The manifest\<close>

record pull_request_file =
  pf_filename :: string
  pf_patch :: "string option"

record suggestion_candidate =
  sc_path :: string
  sc_start_line :: int
  sc_line :: int
  sc_replacement :: string
  sc_body :: string

record unmapped_change =
  um_path :: string
  um_reason :: string
  um_hunk :: "(int \<times> int) option"

record suggestion_manifest =
  generated_at :: string
  candidates :: "suggestion_candidate list"
  unmapped_changes :: "unmapped_change list"
  skipped_reason :: "string option"

text \<open>The manifest under construction, with the skip reasons in the order they were added.\<close>

type_synonym building = "suggestion_manifest \<times> string list"

definition unmapped :: "string \<Rightarrow> string \<Rightarrow> (int \<times> int) option \<Rightarrow> string \<Rightarrow> building \<Rightarrow> building" where
  "unmapped path reason hunk skipReason b =
     ((fst b)\<lparr>unmapped_changes := unmapped_changes (fst b) @ [\<lparr>um_path = path, um_reason = reason, um_hunk = hunk\<rparr>]\<rparr>,
      snd b @ [skipReason])"

definition place_block :: "string \<Rightarrow> hunk_header list \<Rightarrow> workspace_hunk \<Rightarrow> suggestion_block \<Rightarrow> building \<Rightarrow> building" where
  "place_block path prHunks h block b =
     (case findAnchoringHunkForBlock block prHunks of
        None \<Rightarrow>
          unmapped path ''Workspace hunk has no overlapping PR hunk.'' (Some (new_start h, new_count h))
            (''File '' @ path @ '' has no overlapping PR hunk for a workspace hunk.'') b
      | Some anchoringHunk \<Rightarrow>
         (case toLineRange (new_start anchoringHunk) (new_count anchoringHunk) of
            None \<Rightarrow>
              unmapped path ''Workspace hunk has no right-side line range for inline suggestion anchoring.''
                (Some (new_start h, new_count h))
                (''File '' @ path @ '' has no right-side line range for inline suggestion anchoring.'') b
          | Some (from, to) \<Rightarrow>
             (let start_line = max (sb_start_line block) from; line = min (sb_line block) to in
              if line < start_line then b
              else ((fst b)\<lparr>candidates := candidates (fst b) @
                     [\<lparr>sc_path = path, sc_start_line = start_line, sc_line = line, sc_replacement = sb_replacement block,
                       sc_body = buildSuggestionBody (sb_replacement block)\<rparr>]\<rparr>, snd b))))"

definition place_hunk :: "string \<Rightarrow> hunk_header list \<Rightarrow> workspace_hunk \<Rightarrow> building \<Rightarrow> building" where
  "place_hunk path prHunks h b =
     (let blocks = splitWorkspaceHunkIntoSuggestionBlocks h in
      if blocks = []
      then unmapped path ''Workspace hunk produced an empty suggestion replacement.'' (Some (new_start h, new_count h))
             (''File '' @ path @ '' produced an empty suggestion replacement.'') b
      else fold (place_block path prHunks h) blocks b)"

definition pr_patch :: "pull_request_file list \<Rightarrow> string \<Rightarrow> string option" where
  "pr_patch files path =
     (case find (\<lambda>f. pf_filename f = path) files of
        None \<Rightarrow> None
      | Some f \<Rightarrow> (case pf_patch f of None \<Rightarrow> None | Some p \<Rightarrow> if all_space p then None else Some p))"

definition place_file :: "pull_request_file list \<Rightarrow> workspace_patch_file \<Rightarrow> building \<Rightarrow> building" where
  "place_file files f b =
     (let path = wp_path f in
      case wp_path_error f of
        Some reason \<Rightarrow> unmapped path reason None reason b
      | None \<Rightarrow>
         (case pr_patch files path of
            None \<Rightarrow>
              unmapped path ''File is not visible as a patchable PR diff file.'' None
                (''File '' @ path @ '' is not visible as a patchable PR diff file.'') b
          | Some p \<Rightarrow>
              if parsePatchHunks p = []
              then unmapped path ''File has no anchorable PR patch hunks.'' None
                     (''File '' @ path @ '' has no anchorable PR patch hunks.'') b
              else fold (place_hunk path (parsePatchHunks p)) (wp_hunks f) b))"

definition empty_manifest :: "string \<Rightarrow> suggestion_manifest" where
  "empty_manifest now = \<lparr>generated_at = now, candidates = [], unmapped_changes = [], skipped_reason = None\<rparr>"

definition buildSuggestionManifest ::
  "string \<Rightarrow> string \<Rightarrow> string \<Rightarrow> pull_request_file list \<Rightarrow> bool \<Rightarrow> suggestion_manifest"
where
  "buildSuggestionManifest malformed now patch_content files mitigation =
     (let patchFiles = parseWorkspacePatch malformed patch_content in
      if \<not> mitigation \<or> patchFiles = []
      then (empty_manifest now)\<lparr>skipped_reason := Some ''Workspace patch contains no suggestible file entries.''\<rparr>
      else
        let (manifest, skipReasons) = fold (place_file files) patchFiles (empty_manifest now, [])
        in if candidates manifest = []
           then manifest\<lparr>skipped_reason := Some (case skipReasons of [] \<Rightarrow> ''No eligible patch candidate.'' | r # _ \<Rightarrow> r)\<rparr>
           else manifest)"

definition generateSuggestionCandidatesFromReviewRecord ::
  "string \<Rightarrow> string \<Rightarrow> pull_request_file list \<Rightarrow> json option \<Rightarrow> js_error + suggestion_manifest"
where
  "generateSuggestionCandidatesFromReviewRecord malformed now files review_record =
     (let mitigation = Option.bind review_record (\<lambda>r. json_field r ''mitigation'');
          patch_content = coalesce (string_field (Option.bind mitigation (\<lambda>m. json_field m ''patch_diff''))) []
      in if all_space patch_content
         then Inl (plain_error ''Pull request suggestion generation requires review_record.mitigation.patch_diff.'')
         else Inr (buildSuggestionManifest malformed now patch_content files (mitigation \<noteq> None)))"

subsection \<open>The comments of a review\<close>

record review_comment =
  rc_path :: string
  rc_body :: string
  rc_line :: int
  rc_start_line :: "int option"

definition comment_of :: "suggestion_candidate \<Rightarrow> review_comment" where
  "comment_of c =
     \<lparr>rc_path = sc_path c, rc_body = sc_body c, rc_line = sc_line c,
      rc_start_line = (if sc_start_line c = sc_line c then None else Some (sc_start_line c))\<rparr>"

end
