(* ===== verification/SuggestionPatch.thy ===== *)
theory SuggestionPatch
  imports Suggestions
begin

text \<open>
  What accepting the suggestions of a review does to a file, against what the patch they were cut from does. A suggestion replaces the
  lines it is anchored to by the lines of its replacement (none, when that is empty); suggestions are accepted from the last
  to the first, so that none moves the lines of another. What is accepted is the replacement: that GitHub reads it back from the fenced body of
  the comment is not part of the model.
\<close>

subsection \<open>Files, hunks and suggestions\<close>

definition old_side :: "string list \<Rightarrow> string list" where
  "old_side ls = map (drop 1) (filter (\<lambda>l. marker l = Some (CHR '' '') \<or> marker l = Some (CHR ''-'')) ls)"

definition new_side :: "string list \<Rightarrow> string list" where
  "new_side ls = map (drop 1) (filter (\<lambda>l. marker l = Some (CHR '' '') \<or> marker l = Some (CHR ''+'')) ls)"

definition hunk_top :: "workspace_hunk \<Rightarrow> nat" where
  "hunk_top h = nat (old_start h) - 1"

definition hunk_end :: "workspace_hunk \<Rightarrow> nat" where
  "hunk_end h = hunk_top h + length (old_side (hunk_lines h))"

definition applies :: "workspace_hunk \<Rightarrow> string list \<Rightarrow> bool" where
  "applies h old \<longleftrightarrow>
     1 \<le> old_start h \<and> hunk_end h \<le> length old \<and>
     take (length (old_side (hunk_lines h))) (drop (hunk_top h) old) = old_side (hunk_lines h)"

definition patch_hunk :: "workspace_hunk \<Rightarrow> string list \<Rightarrow> string list" where
  "patch_hunk h old = take (hunk_top h) old @ new_side (hunk_lines h) @ drop (hunk_end h) old"

definition replace_range :: "int \<Rightarrow> int \<Rightarrow> string \<Rightarrow> string list \<Rightarrow> string list" where
  "replace_range start_line line repl old =
     take (nat start_line - 1) old @ (if repl = [] then [] else split_on newline repl) @ drop (nat line) old"

definition accept_block :: "suggestion_block \<Rightarrow> string list \<Rightarrow> string list" where
  "accept_block b = replace_range (sb_start_line b) (sb_line b) (sb_replacement b)"

definition accept_candidate :: "suggestion_candidate \<Rightarrow> string list \<Rightarrow> string list" where
  "accept_candidate c = replace_range (sc_start_line c) (sc_line c) (sc_replacement c)"

text \<open>A run of changed lines can be suggested when the text it adds does not end in white space, and when it removes nothing but is not at
  the end of its hunk.\<close>

definition clean_run :: "(int \<times> string) list \<Rightarrow> (int \<times> string) list \<Rightarrow> bool" where
  "clean_run run after \<longleftrightarrow>
     plus_lines run = [] \<or>
     last (plus_lines run) \<noteq> [] \<and> trimEnd (last (plus_lines run)) = last (plus_lines run) \<and>
     (minus_line_numbers run \<noteq> [] \<or> after \<noteq> [])"

function clean_runs :: "(int \<times> string) list \<Rightarrow> bool" where
  "clean_runs [] = True"
| "clean_runs (l # ls) =
     (if \<not> changed l then clean_runs ls
      else clean_run (l # takeWhile changed ls) (dropWhile changed ls) \<and> clean_runs (dropWhile changed ls))"
  by pat_completeness auto
termination by (relation "measure length") (auto simp: less_Suc_eq_le length_dropWhile_le)

definition promotable :: "workspace_hunk \<Rightarrow> bool" where
  "promotable h \<longleftrightarrow> list_all (\<lambda>l. marked l \<and> newline \<notin> set l) (hunk_lines h) \<and> clean_runs (numbered (old_start h) (hunk_lines h))"

subsection \<open>Text\<close>

lemma trim_rev_newline:
  assumes "trim_rev xs = xs" "xs \<noteq> []"
  shows "trim_rev (xs @ 10 # ys) = xs @ 10 # ys"
proof -
  consider x where "xs = [x]" | x y where "xs = [x, y]" | x y z zs where "xs = x # y # z # zs"
    using assms(2) by (metis list.exhaust)
  then show ?thesis
  proof cases
    case 1
    then show ?thesis using assms by (cases ys) (auto simp: two_byte_space_def three_byte_space_def split: if_splits)
  next
    case 2
    then show ?thesis using assms by (auto simp: three_byte_space_def split: if_splits)
  next
    case 3
    have "length (trim_rev ws) \<le> length ws" for ws by (induction ws rule: trim_rev.induct) auto
    then have "trim_rev (y # z # zs) \<noteq> xs" "trim_rev (z # zs) \<noteq> xs" "trim_rev zs \<noteq> xs"
      using 3 by (metis impossible_Cons length_Cons Suc_n_not_le_n le_SucI)+
    then show ?thesis using assms 3 by (auto split: if_splits)
  qed
qed

lemma trimEnd_fixed: "trimEnd s = s \<longleftrightarrow> trim_rev (rev (map of_char s)) = rev (map of_char s)"
proof
  assume eq: "trimEnd s = s"
  have sub: "set (trim_rev xs) \<subseteq> set xs" for xs by (induction xs rule: trim_rev.induct) auto
  have "map of_char (trimEnd s) = rev (trim_rev (rev (map of_char s)))"
    using sub [of "rev (map of_char s)"] unfolding trimEnd_def map_map
    by (intro map_idI) (auto simp: subset_iff)
  then show "trim_rev (rev (map of_char s)) = rev (map of_char s)" using eq by (metis rev_rev_ident)
next
  assume "trim_rev (rev (map of_char s)) = rev (map of_char s)"
  then show "trimEnd s = s" by (simp add: trimEnd_def o_def)
qed

lemma trimEnd_after_newline: "trimEnd b = b \<Longrightarrow> b \<noteq> [] \<Longrightarrow> trimEnd (a @ newline # b) = a @ newline # b"
  using trim_rev_newline [of "rev (map of_char b)" "rev (map of_char a)"]
  by (simp add: trimEnd_fixed newline_def)

lemma trimEnd_join:
  assumes "ls \<noteq> []" "last ls \<noteq> []" "trimEnd (last ls) = last ls"
  shows "trimEnd (join_lines ls) = join_lines ls \<and> join_lines ls \<noteq> []"
  using assms
proof (induction ls rule: join_lines.induct)
  case (3 l k ls)
  then have ih: "trimEnd (join_lines (k # ls)) = join_lines (k # ls)" "join_lines (k # ls) \<noteq> []" by auto
  then show ?case using trimEnd_after_newline by simp
qed simp_all

lemma split_join: "ls \<noteq> [] \<Longrightarrow> \<forall>l \<in> set ls. newline \<notin> set l \<Longrightarrow> split_on newline (join_lines ls) = ls"
  by (induction ls rule: join_lines.induct) (auto simp: split_on_none split_on_join)

lemma split_join_append:
  "ls \<noteq> [] \<Longrightarrow> \<forall>l \<in> set ls. newline \<notin> set l \<Longrightarrow> split_on newline (join_lines ls @ newline # s) = ls @ split_on newline s"
  by (induction ls rule: join_lines.induct) (auto simp: split_on_join)

subsection \<open>Numbered lines\<close>

lemma sides_simps [simp]:
  "old_side [] = []" "new_side [] = []"
  "old_side (l # ls) = (if marker l = Some (CHR '' '') \<or> marker l = Some (CHR ''-'') then [drop 1 l] else []) @ old_side ls"
  "new_side (l # ls) = (if marker l = Some (CHR '' '') \<or> marker l = Some (CHR ''+'') then [drop 1 l] else []) @ new_side ls"
  "old_side (xs @ ys) = old_side xs @ old_side ys" "new_side (xs @ ys) = new_side xs @ new_side ys"
  by (simp_all add: old_side_def new_side_def)

lemma numbered_snd [simp]: "map snd (numbered c ls) = ls"
  by (induction ls arbitrary: c) auto

lemma numbered_append: "numbered c (xs @ ys) = numbered c xs @ numbered (c + int (length (old_side xs))) ys"
  by (induction xs arbitrary: c) (auto simp: algebra_simps)

lemma numbered_split:
  assumes "numbered c ls = run @ after"
  shows "run = numbered c (map snd run)" "after = numbered (c + int (length (old_side (map snd run)))) (map snd after)"
proof -
  have "ls = map snd run @ map snd after" using assms by (metis map_append numbered_snd)
  then have "numbered c (map snd run) @ numbered (c + int (length (old_side (map snd run)))) (map snd after) = run @ after"
    using assms numbered_append by metis
  moreover have "length (numbered c (map snd run)) = length run" by (metis length_map numbered_snd)
  ultimately show "run = numbered c (map snd run)" "after = numbered (c + int (length (old_side (map snd run)))) (map snd after)"
    by simp_all
qed

lemma run_sides:
  assumes "\<forall>l \<in> set run. changed l"
  shows "plus_lines run = new_side (map snd run)"
  using assms by (induction run) (auto simp: plus_lines_def changed_def)

lemma run_numbers:
  assumes "\<forall>l \<in> set (numbered c ls). changed l"
  shows "minus_line_numbers (numbered c ls) = map (\<lambda>i. c + int i) [0..<length (old_side ls)]"
  using assms
proof (induction ls arbitrary: c)
  case (Cons l ls)
  have upt: "map (\<lambda>i. c + int i) [0..<Suc n] = c # map (\<lambda>i. c + 1 + int i) [0..<n]" for n
    by (simp add: upt_conv_Cons map_Suc_upt [symmetric] del: upt_Suc map_Suc_upt)
  show ?case
    using Cons.IH [of c] Cons.IH [of "c + 1"] Cons.prems upt [of "length (old_side ls)"]
    by (auto simp: minus_line_numbers_def changed_def simp del: upt_Suc)
qed (simp add: minus_line_numbers_def)

subsection \<open>Accepting the blocks of a hunk\<close>

lemma replace_range_at:
  assumes "start_line = int (length pre) + 1" "line = int (length pre + length mid)"
  shows "replace_range start_line line repl (pre @ mid @ post) = pre @ (if repl = [] then [] else split_on newline repl) @ post"
  using assms by (simp add: replace_range_def nat_add_distrib nat_int_add)

lemma first_context:
  assumes "list_all (\<lambda>l. marked (snd l)) (l # after)" "\<not> changed l"
  shows "context_line l"
  using assms by (auto simp: marked_def changed_def context_line_def)

lemma accept_run:
  assumes run: "run = numbered (int (length pre) + 1) (map snd run)" "\<forall>l \<in> set run. changed l" "run \<noteq> []"
    and after: "list_all (\<lambda>l. marked (snd l) \<and> newline \<notin> set (snd l)) (run @ after)" "after = [] \<or> \<not> changed (hd after)"
    and clean: "clean_run run after"
  shows "foldr accept_block (option_list (run_block before run after)) (pre @ old_side (map snd run) @ new_side (map snd after) @ post) =
     pre @ new_side (map snd run) @ new_side (map snd after) @ post"
proof -
  define c where "c = int (length pre) + 1"
  define k where "k = length (old_side (map snd run))"
  define added where "added = new_side (map snd run)"
  have plus: "plus_lines run = added" using run_sides [OF run(2)] by (simp add: added_def)
  have minus: "minus_line_numbers run = map (\<lambda>i. c + int i) [0..<k]"
    using run_numbers [of c "map snd run"] run(1,2) by (simp add: c_def k_def)
  have lines: "\<forall>l \<in> set added. newline \<notin> set l"
    using after(1) by (auto simp: added_def new_side_def list_all_iff dest: in_set_dropD)
  have ends: "0 < k \<Longrightarrow> hd (minus_line_numbers run) = c \<and> last (minus_line_numbers run) = c + int (k - 1)"
    by (simp add: minus hd_map last_map)
  have top: "fst (hd run) = c" using run(1,3) by (cases run) (auto simp: c_def split: prod.splits)
  have join: "added \<noteq> [] \<Longrightarrow> trimEnd (join_lines added) = join_lines added \<and> join_lines added \<noteq> []"
    using clean trimEnd_join by (auto simp: clean_run_def plus)
  show ?thesis
  proof (cases "k = 0")
    case False
    then have block: "run_block before run after =
        Some \<lparr>sb_start_line = c, sb_line = c + int (k - 1), sb_replacement = join_lines added\<rparr>"
      using join ends c_def by (cases "added = []") (simp_all add: run_block_def Let_def plus replace_lines_def minus)
    have "replace_range c (c + int (k - 1)) (join_lines added) (pre @ old_side (map snd run) @ new_side (map snd after) @ post) =
        pre @ (if join_lines added = [] then [] else split_on newline (join_lines added)) @ new_side (map snd after) @ post"
      using False by (intro replace_range_at) (simp_all add: c_def k_def [symmetric] of_nat_diff)
    moreover have "(if join_lines added = [] then [] else split_on newline (join_lines added)) = added"
      using join split_join [OF _ lines] by (cases "added = []") auto
    ultimately show ?thesis by (simp add: block option_list_def accept_block_def added_def)
  next
    case True
    then have "minus_line_numbers run = []" "old_side (map snd run) = []" by (simp_all add: minus k_def)
    moreover have "added \<noteq> []"
      using run(2,3) True by (cases run) (auto simp: k_def added_def changed_def split: if_splits)
    moreover obtain l rest where l: "after = l # rest"
      using clean calculation by (cases after) (auto simp: clean_run_def plus)
    moreover have ctx: "context_line l"
      using after first_context [of l rest] by (simp add: l list_all_iff)
    ultimately have block: "run_block before run after =
        Some \<lparr>sb_start_line = c, sb_line = c, sb_replacement = join_lines added @ newline # drop 1 (snd l)\<rparr>"
      using join c_def by (simp add: run_block_def Let_def plus top anchored_replacement_def)
    have side: "new_side (map snd after) = drop 1 (snd l) # new_side (map snd rest)"
      using ctx by (simp add: l context_line_def)
    have "newline \<notin> set (drop 1 (snd l))" using after(1) by (auto simp: l dest: in_set_dropD)
    then have "split_on newline (join_lines added @ newline # drop 1 (snd l)) = added @ [drop 1 (snd l)]"
      using split_join_append [OF \<open>added \<noteq> []\<close> lines] by (simp add: split_on_none)
    moreover have "replace_range c c (join_lines added @ newline # drop 1 (snd l)) (pre @ [drop 1 (snd l)] @ new_side (map snd rest) @ post) =
        pre @ (if join_lines added @ newline # drop 1 (snd l) = [] then [] else
          split_on newline (join_lines added @ newline # drop 1 (snd l))) @ new_side (map snd rest) @ post"
      by (intro replace_range_at) (auto simp: c_def)
    ultimately show ?thesis
      using True by (simp add: block option_list_def accept_block_def side k_def added_def [symmetric])
  qed
qed

lemma accept_runs:
  assumes "list_all (\<lambda>l. marked (snd l) \<and> newline \<notin> set (snd l)) ls" "clean_runs ls"
    "ls = numbered (int (length pre) + 1) (map snd ls)"
  shows "foldr accept_block (split_runs before ls) (pre @ old_side (map snd ls) @ post) = pre @ new_side (map snd ls) @ post"
  using assms
proof (induction before ls arbitrary: pre rule: split_runs.induct)
  case (2 before l ls)
  show ?case
  proof (cases "changed l")
    case False
    then have ctx: "marker (snd l) = Some (CHR '' '')"
      using 2(3) first_context [of l ls] by (simp add: list_all_iff context_line_def)
    have num: "ls = numbered (int (length (pre @ [drop 1 (snd l)])) + 1) (map snd ls)"
      using numbered_split(2) [of _ "snd l # map snd ls" "[l]" ls] 2(5) ctx by (simp add: algebra_simps)
    have "foldr accept_block (split_runs (before @ [l]) ls) ((pre @ [drop 1 (snd l)]) @ old_side (map snd ls) @ post) =
        (pre @ [drop 1 (snd l)]) @ new_side (map snd ls) @ post"
      using False 2(3,4) num by (intro 2(1)) simp_all
    then show ?thesis using False ctx by simp
  next
    case True
    define run where "run = l # takeWhile changed ls"
    define after where "after = dropWhile changed ls"
    have parts: "l # ls = run @ after" by (simp add: run_def after_def)
    have run: "\<forall>x \<in> set run. changed x" "run \<noteq> []" using True by (auto simp: run_def dest: set_takeWhileD)
    have num: "run = numbered (int (length pre) + 1) (map snd run)"
      "after = numbered (int (length (pre @ old_side (map snd run))) + 1) (map snd after)"
      using numbered_split [of "int (length pre) + 1" "map snd (l # ls)" run after] 2(5) by (simp_all add: parts algebra_simps)
    have clean: "clean_run run after" "clean_runs after" using 2(4) True by (simp_all add: run_def after_def)
    have marks: "list_all (\<lambda>l. marked (snd l) \<and> newline \<notin> set (snd l)) (run @ after)" using 2(3) parts by metis
    have stop: "after = [] \<or> \<not> changed (hd after)" using hd_dropWhile [of changed ls] by (auto simp: after_def)
    have "foldr accept_block (split_runs (before @ run) after)
          ((pre @ old_side (map snd run)) @ old_side (map snd after) @ post) =
        (pre @ old_side (map snd run)) @ new_side (map snd after) @ post"
      using True marks clean(2) num(2) by (intro 2(2) [OF _ run_def after_def]) simp_all
    then have "foldr accept_block (split_runs before (l # ls)) (pre @ old_side (map snd (run @ after)) @ post) =
        foldr accept_block (option_list (run_block before run after)) (pre @ old_side (map snd run) @ new_side (map snd after) @ post)"
      using True by (simp add: run_def [symmetric] after_def [symmetric] Let_def)
    also have "\<dots> = pre @ new_side (map snd (run @ after)) @ post"
      using accept_run [OF num(1) run marks stop clean(1)] by simp
    finally show ?thesis by (simp only: parts)
  qed
qed simp

lemma accept_hunk:
  assumes "promotable h" "applies h old"
  shows "foldr accept_block (splitWorkspaceHunkIntoSuggestionBlocks h) old = patch_hunk h old"
proof -
  have fit: "1 \<le> old_start h" "hunk_top h \<le> length old"
    "take (length (old_side (hunk_lines h))) (drop (hunk_top h) old) = old_side (hunk_lines h)"
    using assms(2) by (simp_all add: applies_def hunk_end_def)
  have old: "old = take (hunk_top h) old @ old_side (hunk_lines h) @ drop (hunk_end h) old"
    using fit(3) by (metis append_take_drop_id drop_drop hunk_end_def add.commute)
  have start: "old_start h = int (length (take (hunk_top h) old)) + 1" using fit(1,2) by (simp add: hunk_top_def)
  have lines: "list_all (\<lambda>l. marked (snd l) \<and> newline \<notin> set (snd l)) (numbered (old_start h) (hunk_lines h))"
    using assms(1) by (metis (mono_tags, lifting) list.pred_map list.pred_mono_strong numbered_snd o_def promotable_def)
  have "foldr accept_block (split_runs [] (numbered (old_start h) (hunk_lines h)))
      (take (hunk_top h) old @ old_side (hunk_lines h) @ drop (hunk_end h) old) =
    take (hunk_top h) old @ new_side (hunk_lines h) @ drop (hunk_end h) old"
    using accept_runs [OF lines, of "take (hunk_top h) old" "[]" "drop (hunk_end h) old"] assms(1) start
    by (simp add: promotable_def)
  then show ?thesis using old by (simp add: splitWorkspaceHunkIntoSuggestionBlocks_def patch_hunk_def)
qed

subsection \<open>All hunks of a file\<close>

fun in_order :: "workspace_hunk list \<Rightarrow> bool" where
  "in_order [] = True"
| "in_order (h # hs) \<longleftrightarrow> list_all (\<lambda>h'. hunk_end h \<le> hunk_top h') hs \<and> in_order hs"

lemma patch_above:
  assumes "n \<le> hunk_top h" "hunk_top h \<le> length old" "take (hunk_top h) later = take (hunk_top h) old"
  shows "take n (patch_hunk h later) = take n old"
proof -
  have "hunk_top h \<le> length later" using assms(2,3) by (metis length_take min.absorb2 min.cobounded1)
  then have "take n (patch_hunk h later) = take n (take (hunk_top h) later)" using assms(1) by (simp add: patch_hunk_def)
  also have "\<dots> = take n old" using assms(1,3) by (simp add: min_absorb1)
  finally show ?thesis .
qed

lemma patch_keeps_above:
  assumes "list_all (\<lambda>h. n \<le> hunk_top h \<and> applies h old) hs" "in_order hs"
  shows "take n (foldr patch_hunk hs old) = take n old"
  using assms
proof (induction hs arbitrary: n)
  case (Cons h hs)
  have "hunk_top h \<le> hunk_end h" "hunk_end h \<le> length old" using Cons.prems by (auto simp: applies_def hunk_end_def)
  moreover from this have "take (hunk_top h) (foldr patch_hunk hs old) = take (hunk_top h) old"
    using Cons.prems by (intro Cons.IH) (auto simp: list_all_iff intro: order_trans)
  ultimately show ?case using Cons.prems by (simp add: patch_above)
qed simp

lemma applies_prefix:
  assumes "applies h old" "take (hunk_end h) new = take (hunk_end h) old"
  shows "applies h new"
proof -
  have "hunk_end h \<le> length old" using assms(1) by (simp add: applies_def)
  then have "hunk_end h \<le> length new" using assms(2) by (metis length_take min.absorb2 min.cobounded1)
  moreover have "take (length (old_side (hunk_lines h))) (drop (hunk_top h) ls) = drop (hunk_top h) (take (hunk_end h) ls)" for ls
    by (simp add: hunk_end_def drop_take)
  ultimately show ?thesis using assms unfolding applies_def by metis
qed

lemma accept_hunks:
  assumes "list_all promotable hs" "list_all (\<lambda>h. applies h old) hs" "in_order hs"
  shows "foldr accept_block (concat (map splitWorkspaceHunkIntoSuggestionBlocks hs)) old = foldr patch_hunk hs old"
  using assms
proof (induction hs)
  case (Cons h hs)
  have "take (hunk_end h) (foldr patch_hunk hs old) = take (hunk_end h) old"
    using Cons.prems by (intro patch_keeps_above) (auto simp: list_all_iff)
  then have "applies h (foldr patch_hunk hs old)" using Cons.prems(2) by (auto intro: applies_prefix)
  then show ?case using Cons accept_hunk by simp
qed simp

subsection \<open>The candidates of a manifest\<close>

definition block_candidate :: "string \<Rightarrow> hunk_header list \<Rightarrow> suggestion_block \<Rightarrow> suggestion_candidate list" where
  "block_candidate path prHunks block =
     candidates (fst (place_block path prHunks undefined block (empty_manifest [], [])))"

definition file_candidates :: "pull_request_file list \<Rightarrow> workspace_patch_file \<Rightarrow> suggestion_candidate list" where
  "file_candidates files f =
     (case pr_patch files (wp_path f) of
        Some p \<Rightarrow>
          if wp_path_error f = None
          then concat (map (block_candidate (wp_path f) (parsePatchHunks p))
                 (concat (map splitWorkspaceHunkIntoSuggestionBlocks (wp_hunks f)))) else []
      | None \<Rightarrow> [])"

lemma unmapped_candidates [simp]: "candidates (fst (unmapped path reason hunk skip b)) = candidates (fst b)"
  by (simp add: unmapped_def)

lemma place_block_candidates:
  "candidates (fst (place_block path prHunks h block b)) = candidates (fst b) @ block_candidate path prHunks block"
  by (simp add: block_candidate_def place_block_def empty_manifest_def Let_def split: option.split prod.split)

lemma fold_keeps_skip:
  assumes "\<And>x b. skipped_reason (fst (step x b)) = skipped_reason (fst b)"
  shows "skipped_reason (fst (fold step xs b)) = skipped_reason (fst b)"
  by (induction xs arbitrary: b) (simp_all add: assms)

lemma place_keeps_skip:
  "skipped_reason (fst (place_block path prHunks h block b)) = skipped_reason (fst b)"
  "skipped_reason (fst (place_hunk path prHunks h b)) = skipped_reason (fst b)"
  "skipped_reason (fst (place_file files f b)) = skipped_reason (fst b)"
proof -
  have block: "skipped_reason (fst (place_block path prHunks h block b)) = skipped_reason (fst b)" for path prHunks h block b
    by (simp add: place_block_def unmapped_def Let_def split: option.split prod.split)
  have hunk: "skipped_reason (fst (place_hunk path prHunks h b)) = skipped_reason (fst b)" for path prHunks h b
    by (simp add: place_hunk_def unmapped_def Let_def fold_keeps_skip [OF block])
  show "skipped_reason (fst (place_block path prHunks h block b)) = skipped_reason (fst b)" by (rule block)
  show "skipped_reason (fst (place_hunk path prHunks h b)) = skipped_reason (fst b)" by (rule hunk)
  show "skipped_reason (fst (place_file files f b)) = skipped_reason (fst b)"
    by (simp add: place_file_def unmapped_def Let_def fold_keeps_skip [OF hunk] split: option.split)
qed

lemma fold_candidates:
  assumes "\<And>x b. candidates (fst (step x b)) = candidates (fst b) @ f x"
  shows "candidates (fst (fold step xs b)) = candidates (fst b) @ concat (map f xs)"
  by (induction xs arbitrary: b) (simp_all add: assms)

lemma place_hunk_candidates:
  "candidates (fst (place_hunk path prHunks h b)) =
     candidates (fst b) @ concat (map (block_candidate path prHunks) (splitWorkspaceHunkIntoSuggestionBlocks h))"
  by (simp add: place_hunk_def Let_def fold_candidates [OF place_block_candidates])

lemma no_hunks_no_candidate: "block_candidate path [] block = []"
  by (simp add: block_candidate_def place_block_def findAnchoringHunkForBlock_def empty_manifest_def split: option.split)

lemma concat_twice: "concat (concat xsss) = concat (map concat xsss)"
  by (induction xsss) simp_all

lemma place_file_candidates: "candidates (fst (place_file files f b)) = candidates (fst b) @ file_candidates files f"
proof -
  have "concat (map (block_candidate path []) blocks) = []" for path blocks by (induction blocks) (simp_all add: no_hunks_no_candidate)
  then show ?thesis
    by (auto simp: place_file_def file_candidates_def Let_def fold_candidates [OF place_hunk_candidates] map_concat concat_twice o_def
        split: option.split)
qed

lemma manifest_candidates:
  "candidates (buildSuggestionManifest malformed now patch_content files True) =
     concat (map (file_candidates files) (parseWorkspacePatch malformed patch_content))"
  using fold_candidates [where step = "place_file files", OF place_file_candidates,
      of "parseWorkspacePatch malformed patch_content" "(empty_manifest now, [])"]
  by (auto simp: buildSuggestionManifest_def Let_def empty_manifest_def split: prod.split)

lemma block_candidateE:
  assumes "c \<in> set (block_candidate path prHunks block)"
  obtains h where "h \<in> set prHunks" "1 \<le> new_start h" "sc_path c = path"
    "new_start h \<le> sc_start_line c" "sc_start_line c \<le> sc_line c" "sc_line c < new_start h + new_count h"
    "sc_body c = buildSuggestionBody (sc_replacement c)"
proof -
  obtain h from_line to_line where "findAnchoringHunkForBlock block prHunks = Some h"
    "toLineRange (new_start h) (new_count h) = Some (from_line, to_line)" and c:
    "max (sb_start_line block) from_line \<le> min (sb_line block) to_line"
    "c = \<lparr>sc_path = path, sc_start_line = max (sb_start_line block) from_line, sc_line = min (sb_line block) to_line,
       sc_replacement = sb_replacement block, sc_body = buildSuggestionBody (sb_replacement block)\<rparr>"
    using assms by (auto simp: block_candidate_def place_block_def empty_manifest_def unmapped_def Let_def not_less
        split: option.splits if_splits)
  moreover from this have "h \<in> set prHunks"
    by (auto simp: findAnchoringHunkForBlock_def find_Some_iff split: option.splits)
  ultimately show thesis using that [of h] by (auto simp: toLineRange_def split: if_splits)
qed

text \<open>A block lies inside the hunk it is anchored to.\<close>

definition within_anchor :: "hunk_header list \<Rightarrow> suggestion_block \<Rightarrow> bool" where
  "within_anchor prHunks b =
     (case findAnchoringHunkForBlock b prHunks of
        None \<Rightarrow> False
      | Some h \<Rightarrow> new_start h \<le> sb_start_line b \<and> sb_line b < new_start h + new_count h)"

lemma inside_candidate:
  assumes "within_anchor prHunks b"
  shows "map accept_candidate (block_candidate path prHunks b) = [accept_block b]"
    "c \<in> set (block_candidate path prHunks b) \<Longrightarrow> sc_path c = path"
proof -
  obtain h where h: "findAnchoringHunkForBlock b prHunks = Some h" "new_start h \<le> sb_start_line b" "sb_line b < new_start h + new_count h"
    using assms by (auto simp: within_anchor_def split: option.splits)
  then have "sb_start_line b \<le> sb_line b" "toLineRange (new_start h) (new_count h) = Some (new_start h, new_start h + new_count h - 1)"
    by (auto simp: findAnchoringHunkForBlock_def toLineRange_def find_Some_iff split: option.splits if_splits)
  then show "map accept_candidate (block_candidate path prHunks b) = [accept_block b]"
    using h by (simp add: block_candidate_def place_block_def empty_manifest_def Let_def accept_candidate_def accept_block_def)
qed (auto elim: block_candidateE)

lemma inside_candidates:
  "list_all (within_anchor prHunks) bs \<Longrightarrow> map accept_candidate (concat (map (block_candidate path prHunks) bs)) = map accept_block bs"
  by (induction bs) (simp_all add: inside_candidate)

text \<open>A block that reaches beyond its hunk: its lines outside the hunk are not replaced.\<close>

lemma clamped_block:
  assumes "findAnchoringHunkForBlock b prHunks = Some h" "\<not> within_anchor prHunks b" "nat (sb_line b) \<le> length old"
  shows "\<exists>before top inside bottom after repl.
     old = before @ top @ inside @ bottom @ after \<and> top @ bottom \<noteq> [] \<and> accept_block b old = before @ repl @ after \<and>
     foldr accept_candidate (block_candidate path prHunks b) old = before @ top @ repl @ bottom @ after"
proof -
  define s l a z where "s = nat (sb_start_line b)" and "l = nat (sb_line b)" and "a = nat (max (sb_start_line b) (new_start h))"
    and "z = nat (min (sb_line b) (new_start h + new_count h - 1))"
  have range: "toLineRange (new_start h) (new_count h) = Some (new_start h, new_start h + new_count h - 1)"
    "1 \<le> sb_start_line b" "sb_start_line b \<le> sb_line b" "1 \<le> new_start h" "new_start h \<le> sb_line b"
    "sb_start_line b \<le> new_start h + new_count h - 1" "0 < new_count h"
    using assms(1)
    by (auto simp: findAnchoringHunkForBlock_def toLineRange_def find_Some_iff rangesOverlap_def split: option.splits if_splits)
  have below_above: "\<not> min (sb_line b) (new_start h + new_count h - 1) < max (sb_start_line b) (new_start h)"
    using range by simp
  have order: "1 \<le> s" "s \<le> a" "a \<le> z" "z \<le> l" "l \<le> length old" "s < a \<or> z < l"
    using range assms(2,3) by (auto simp: s_def l_def a_def z_def within_anchor_def assms(1) max_def min_def)
  let ?repl = "if sb_replacement b = [] then [] else split_on newline (sb_replacement b)"
  define before top inside bottom after where "before = take (s - 1) old" and "top = take (a - s) (drop (s - 1) old)"
    and "inside = take (z - (a - 1)) (drop (a - 1) old)" and "bottom = take (l - z) (drop z old)" and "after = drop l old"
  note parts = before_def top_def inside_def bottom_def after_def
  have above: "take (a - 1) old = before @ top" using take_add [of "s - 1" "a - s" old] order by (simp add: parts)
  have below: "drop z old = bottom @ after" using append_take_drop_id [of "l - z" "drop z old"] order by (simp add: parts)
  have "old = take (a - 1) old @ inside @ drop z old"
    using append_take_drop_id [of "z - (a - 1)" "drop (a - 1) old"] append_take_drop_id [of "a - 1" old] order by (simp add: inside_def)
  then have "old = before @ top @ inside @ bottom @ after" unfolding above below by simp
  moreover have "top @ bottom \<noteq> []" using order by (auto simp: parts)
  moreover have "accept_block b old = before @ ?repl @ after"
    by (simp add: accept_block_def replace_range_def s_def l_def parts)
  moreover have "foldr accept_candidate (block_candidate path prHunks b) old = take (a - 1) old @ ?repl @ drop z old"
    using range(1) below_above
    by (simp add: block_candidate_def place_block_def empty_manifest_def Let_def assms(1) accept_candidate_def replace_range_def a_def z_def)
  then have "foldr accept_candidate (block_candidate path prHunks b) old = before @ top @ ?repl @ bottom @ after"
    unfolding above below by simp
  ultimately show ?thesis by (intro exI conjI)
qed

lemma filter_one_file:
  assumes "filter (\<lambda>f. wp_path f = path) fs = [f]"
  shows "filter (\<lambda>c. sc_path c = path) (concat (map (file_candidates files) fs)) = file_candidates files f"
proof -
  have own: "filter (\<lambda>c. sc_path c = path) (file_candidates files g) = (if wp_path g = path then file_candidates files g else [])" for g
    by (auto simp: file_candidates_def filter_id_conv filter_empty_conv elim!: block_candidateE split: option.splits)
  have "filter (\<lambda>c. sc_path c = path) (concat (map (file_candidates files) fs)) =
      concat (map (file_candidates files) (filter (\<lambda>f. wp_path f = path) fs))"
    by (induction fs) (simp_all add: own)
  then show ?thesis by (simp add: assms)
qed

subsection \<open>The lines the parser keeps\<close>

lemma split_on_separator: "w \<in> set (split_on c s) \<Longrightarrow> c \<notin> set w"
proof (induction s arbitrary: w)
  case (Cons x xs)
  then show ?case by (auto split: if_splits list.splits)
qed simp

definition patch_lines_ok :: "workspace_patch_file \<Rightarrow> bool" where
  "patch_lines_ok f = list_all (\<lambda>h. list_all (\<lambda>l. marked l \<and> newline \<notin> set l) (hunk_lines h)) (wp_hunks f)"

lemma update_last_all: "list_all P xs \<Longrightarrow> (\<And>x. P x \<Longrightarrow> P (f x)) \<Longrightarrow> list_all P (update_last f xs)"
  by (cases xs rule: rev_cases) (auto simp: update_last_def)

lemma patch_line_ok:
  assumes "list_all patch_lines_ok (pp_files p)" "newline \<notin> set line"
  shows "list_all patch_lines_ok (pp_files (patch_line malformed line p))"
proof -
  have name: "patch_lines_ok (name_file malformed v f)" if "patch_lines_ok f" for v f
    using that by (simp add: patch_lines_ok_def name_file_def split: sum.split)
  have hunk: "patch_lines_ok (open_hunk h f)" if "patch_lines_ok f" for h f
    using that by (simp add: patch_lines_ok_def open_hunk_def)
  have push: "patch_lines_ok (push_line line f)" if "patch_lines_ok f" "marked line" for f
    using that assms(2) by (auto simp: patch_lines_ok_def push_line_def intro!: update_last_all)
  have head: "patch_lines_ok (file_header line)" by (simp add: patch_lines_ok_def file_header_def)
  show ?thesis
    using assms(1) update_last_all [of patch_lines_ok] name hunk push head
    by (simp add: patch_line_def split: option.split)
qed

lemma parsed_lines_ok: "f \<in> set (parseWorkspacePatch malformed patch_content) \<Longrightarrow> patch_lines_ok f"
proof -
  have "list_all patch_lines_ok (pp_files (fold (patch_line malformed) ls p))"
    if "\<forall>l \<in> set ls. newline \<notin> set l" "list_all patch_lines_ok (pp_files p)" for ls p
    using that by (induction ls arbitrary: p) (simp_all add: patch_line_ok)
  then show "f \<in> set (parseWorkspacePatch malformed patch_content) \<Longrightarrow> patch_lines_ok f"
    using split_on_separator [of _ newline patch_content] unfolding parseWorkspacePatch_def list_all_iff
    by (metis empty_iff empty_set patch_parser.select_convs(1))
qed

subsection \<open>What a review suggests\<close>

text \<open>C23. When the blocks of a patched file lie inside the hunks of the pull request they are anchored to, the text added does not end in
  white space and no lines are appended at the end of a hunk, accepting every suggestion for the file gives exactly the file the
  mitigation patch gives.\<close>

theorem suggestions_give_patch:
  assumes "filter (\<lambda>f. wp_path f = path) (parseWorkspacePatch malformed patch_content) = [f]" "wp_path_error f = None"
    "pr_patch files path = Some p"
    "list_all (\<lambda>h. applies h old \<and> clean_runs (numbered (old_start h) (hunk_lines h))) (wp_hunks f)" "in_order (wp_hunks f)"
    "list_all (within_anchor (parsePatchHunks p)) (concat (map splitWorkspaceHunkIntoSuggestionBlocks (wp_hunks f)))"
  shows "foldr accept_candidate (filter (\<lambda>c. sc_path c = path)
      (candidates (buildSuggestionManifest malformed now patch_content files True))) old = foldr patch_hunk (wp_hunks f) old"
proof -
  have f: "f \<in> set (parseWorkspacePatch malformed patch_content)" "wp_path f = path"
    using assms(1) by (metis (mono_tags, lifting) filter_eq_ConsD in_set_conv_decomp)+
  have "list_all promotable (wp_hunks f)"
    using parsed_lines_ok [OF f(1)] assms(4) by (simp add: patch_lines_ok_def promotable_def list_all_iff)
  then have "foldr accept_block (concat (map splitWorkspaceHunkIntoSuggestionBlocks (wp_hunks f))) old = foldr patch_hunk (wp_hunks f) old"
    using assms(4,5) by (intro accept_hunks) (simp_all add: list_all_iff)
  moreover have "map accept_candidate (file_candidates files f) =
      map accept_block (concat (map splitWorkspaceHunkIntoSuggestionBlocks (wp_hunks f)))"
    using inside_candidates [OF assms(6)] assms(2,3) f(2) by (simp add: file_candidates_def)
  ultimately show ?thesis
    by (metis manifest_candidates filter_one_file [OF assms(1)] foldr_map id_comp)
qed

text \<open>C24. A suggestion is anchored to lines of the pull request's own diff: its file has a patch there, and its lines are a
  non-empty range inside the new side of one of the hunks. A manifest names a reason for being skipped exactly when it has no
  suggestion.\<close>

theorem suggestions_in_diff:
  assumes "m = buildSuggestionManifest malformed now patch_content files mitigation"
  shows "(\<forall>c \<in> set (candidates m). \<exists>p h. pr_patch files (sc_path c) = Some p \<and> h \<in> set (parsePatchHunks p) \<and>
      1 \<le> new_start h \<and> new_start h \<le> sc_start_line c \<and> sc_start_line c \<le> sc_line c \<and>
      sc_line c < new_start h + new_count h) \<and>
    (skipped_reason m = None \<longleftrightarrow> candidates m \<noteq> [])"
proof (intro conjI ballI)
  fix c
  assume c: "c \<in> set (candidates m)"
  then have "mitigation" using assms by (cases mitigation) (simp_all add: buildSuggestionManifest_def empty_manifest_def Let_def)
  then obtain f where "c \<in> set (file_candidates files f)" using c assms manifest_candidates by auto
  then obtain p block where "pr_patch files (wp_path f) = Some p" "c \<in> set (block_candidate (wp_path f) (parsePatchHunks p) block)"
    by (cases "pr_patch files (wp_path f)") (auto simp: file_candidates_def split: if_splits)
  then show "\<exists>p h. pr_patch files (sc_path c) = Some p \<and> h \<in> set (parsePatchHunks p) \<and> 1 \<le> new_start h \<and>
      new_start h \<le> sc_start_line c \<and> sc_start_line c \<le> sc_line c \<and> sc_line c < new_start h + new_count h"
    by (metis block_candidateE)
next
  show "skipped_reason m = None \<longleftrightarrow> candidates m \<noteq> []"
    using fold_keeps_skip [where step = "place_file files", OF place_keeps_skip(3),
        of "parseWorkspacePatch malformed patch_content" "(empty_manifest now, [])"]
    by (auto simp: assms buildSuggestionManifest_def empty_manifest_def Let_def split: prod.splits)
qed

subsection \<open>Quoted paths\<close>

text \<open>Git's C-style quoting of a path: control characters, quotes and backslashes by their escapes, bytes outside ASCII in
  octal.\<close>

definition octal_digit :: "nat \<Rightarrow> char" where
  "octal_digit n = ''01234567'' ! (n mod 8)"

definition quote_byte :: "char \<Rightarrow> string" where
  "quote_byte x =
     (let n = of_char x :: nat in
      case find (\<lambda>e. escapes e = Some n) [CHR ''a'', CHR ''b'', CHR ''t'', CHR ''n'', CHR ''v'', CHR ''f'', CHR ''r'', CHR 0x22, CHR 0x5C] of
        Some e \<Rightarrow> [CHR 0x5C, e]
      | None \<Rightarrow>
          if n < 32 \<or> 127 \<le> n then [CHR 0x5C, octal_digit (n div 64), octal_digit (n div 8), octal_digit n] else [x])"

definition quote_path :: "string \<Rightarrow> string" where
  "quote_path s = CHR 0x22 # concat (map quote_byte s) @ [CHR 0x22]"

lemma octal_digit_value:
  "octal_digit n \<in> set ''01234567'' \<and> of_char (octal_digit n) - 48 = n mod 8 \<and> (n mod 8 < 4 \<longrightarrow> octal_digit n \<in> set ''0123'')"
proof -
  have "n mod 8 \<in> {0, 1, 2, 3, 4, 5, 6, 7}" by (simp, presburger)
  then show ?thesis unfolding octal_digit_def by auto
qed

lemma octal_byte_digits: "n < 256 \<Longrightarrow> octal_byte (octal_digit (n div 64)) (octal_digit (n div 8)) (octal_digit n) = Some n"
proof -
  assume n: "n < 256"
  then have "n div 64 mod 8 = n div 64" "n div 64 < 4" by auto
  moreover have "n div 64 = n div 8 div 8" by (simp add: div_mult2_eq [symmetric])
  then have "n div 64 * 64 + n div 8 mod 8 * 8 + n mod 8 = n"
    using div_mult_mod_eq [of n 8] div_mult_mod_eq [of "n div 8" 8] by linarith
  ultimately show ?thesis
    using octal_digit_value [of "n div 64"] octal_digit_value [of "n div 8"] octal_digit_value [of n]
    unfolding octal_byte_def by (simp del: set_simps)
qed

lemma find_NoneD: "find P xs = None \<Longrightarrow> e \<in> set xs \<Longrightarrow> \<not> P e"
  by (auto simp: find_None_iff)

lemma quote_byte_cases:
  obtains "quote_byte x = [x]" "x \<noteq> CHR 0x5C" "x \<noteq> CHR 0x22"
    | e where "quote_byte x = [CHR 0x5C, e]" "escapes e = Some (of_char x)" "e \<notin> set ''0123''"
    | p q r where "quote_byte x = [CHR 0x5C, p, q, r]" "octal_byte p q r = Some (of_char x)"
proof -
  let ?es = "[CHR ''a'', CHR ''b'', CHR ''t'', CHR ''n'', CHR ''v'', CHR ''f'', CHR ''r'', CHR 0x22, CHR 0x5C]"
  let ?n = "of_char x :: nat"
  show thesis
  proof (cases "find (\<lambda>e. escapes e = Some ?n) ?es")
    case (Some e)
    then have "escapes e = Some ?n" "e \<in> set ?es" by (blast dest: find_SomeD)+
    moreover have "\<forall>e \<in> set ?es. e \<notin> set ''0123''" by code_simp
    ultimately show thesis using that(2) [of e] Some by (simp add: quote_byte_def Let_def del: set_simps find.simps)
  next
    case None
    have "escapes (CHR 0x5C) = Some 92" "escapes (CHR 0x22) = Some 34" by code_simp+
    then have "?n \<noteq> 92" "?n \<noteq> 34" using find_NoneD [OF None, of "CHR 0x5C"] find_NoneD [OF None, of "CHR 0x22"] by auto
    then have "x \<noteq> CHR 0x5C" "x \<noteq> CHR 0x22" by auto
    moreover have "?n < 256" by simp
    ultimately show thesis
      using that(1) that(3) [OF _ octal_byte_digits] None
      by (cases "?n < 32 \<or> 127 \<le> ?n") (simp_all add: quote_byte_def Let_def del: find.simps)
  qed
qed

lemma unquote_byte: "unquote (quote_byte x @ s) = cons_byte (of_char x) (unquote s)"
proof -
  have octal: "octal_byte e p q = None" if "e \<notin> set ''0123''" for e p q using that unfolding octal_byte_def by simp
  show ?thesis
  proof (cases x rule: quote_byte_cases)
    case (2 e)
    have "unquote (CHR 0x5C # e # s) = cons_byte (of_char x) (unquote s)"
      using 2(2) octal [OF 2(3)] by (simp split: list.split)
    then show ?thesis by (simp add: 2(1))
  qed simp_all
qed

lemma unquote_quoted: "unquote (concat (map quote_byte s)) = Inr (map of_char s)"
  by (induction s) (simp_all add: unquote_byte cons_byte_def)

text \<open>C26. A file name survives Git's quoting: the parser reads back every well-formed UTF-8 path that Git quotes in a patch
  header, whatever bytes it has.\<close>

theorem quoted_path_round_trip:
  assumes "utf8_lossy (map of_char path) = map of_char path"
  shows "destination_path malformed (quote_path (''b/'' @ path)) = Inr path"
proof -
  have quoted: "unquote (concat (map quote_byte (''b/'' @ path))) = Inr (98 # 47 # map of_char path)"
    unfolding unquote_quoted by simp
  have lossy: "utf8_lossy (98 # 47 # map of_char path) = 98 # 47 # map of_char path"
    using assms utf8_lossy.simps [of "98 # 47 # map of_char path"] utf8_lossy.simps [of "47 # map of_char path"] by simp
  have ascii_chars: "char_of (98 :: nat) = CHR ''b''" "char_of (47 :: nat) = CHR ''/''" by code_simp+
  have "decodeGitPatchPath malformed (quote_path (''b/'' @ path)) =
      (case unquote (concat (map quote_byte (''b/'' @ path))) of Inl e \<Rightarrow> Inl e | Inr bs \<Rightarrow> decode_fatal malformed bs)"
    by (simp add: decodeGitPatchPath_def quote_path_def starts_with_def butlast_append)
  also have "\<dots> = Inr (''b/'' @ path)"
    unfolding quoted using ascii_chars by (simp add: decode_fatal_def lossy o_def)
  finally show ?thesis by (simp add: destination_path_def starts_with_def)
qed

theorem quoted_path_round_trip_witness:
  "destination_path ''bad'' (quote_path (''b/'' @ [CHR 0xC3, CHR 0xA9, CHR '' '', CHR 0x22])) = Inr [CHR 0xC3, CHR 0xA9, CHR '' '', CHR 0x22]"
proof -
  have "utf8_lossy (map of_char [CHR 0xC3, CHR 0xA9, CHR '' '', CHR 0x22]) = map of_char [CHR 0xC3, CHR 0xA9, CHR '' '', CHR 0x22]"
    by code_simp
  then show ?thesis by (rule quoted_path_round_trip)
qed

subsection \<open>Instances\<close>

definition demo_file_header :: "string list" where
  "demo_file_header = [''diff --git a/app.py b/app.py'', ''index 1..2 100644'', ''--- a/app.py'', ''+++ b/app.py'']"

definition demo_fix :: string where
  "demo_fix = join_lines (demo_file_header @
     [''@@ -1,4 +1,5 @@'', '' a'', ''-b'', ''+B'', ''+C'', '' c'', '' d'', ''@@ -6,2 +7,3 @@'', '' f'', ''+new'', '' g''])"

definition demo_pr_files :: "pull_request_file list" where
  "demo_pr_files = [\<lparr>pf_filename = ''app.py'', pf_patch = Some (join_lines [''@@ -1,5 +1,7 @@ def main'', ''+a'', ''+b'', '' c''])\<rparr>]"

definition demo_lines :: "string list" where
  "demo_lines = [''a'', ''b'', ''c'', ''d'', ''e'', ''f'', ''g'']"

definition demo_patch_file :: workspace_patch_file where
  "demo_patch_file = hd (parseWorkspacePatch ''bad'' demo_fix)"

definition demo_candidates :: "suggestion_candidate list" where
  "demo_candidates = candidates (buildSuggestionManifest ''bad'' ''now'' demo_fix demo_pr_files True)"

theorem suggestions_give_patch_witness:
  "foldr accept_candidate (filter (\<lambda>c. sc_path c = ''app.py'') demo_candidates) demo_lines =
     [''a'', ''B'', ''C'', ''c'', ''d'', ''e'', ''f'', ''new'', ''g'']"
proof -
  have one: "filter (\<lambda>f. wp_path f = ''app.py'') (parseWorkspacePatch ''bad'' demo_fix) = [demo_patch_file]" by code_simp
  have none: "wp_path_error demo_patch_file = None" by code_simp
  have patch: "pr_patch demo_pr_files ''app.py'' = Some (the (pf_patch (hd demo_pr_files)))" by code_simp
  have fits: "list_all (\<lambda>h. applies h demo_lines \<and> clean_runs (numbered (old_start h) (hunk_lines h))) (wp_hunks demo_patch_file)"
    "in_order (wp_hunks demo_patch_file)" by code_simp+
  have ins: "list_all (within_anchor (parsePatchHunks (the (pf_patch (hd demo_pr_files)))))
      (concat (map splitWorkspaceHunkIntoSuggestionBlocks (wp_hunks demo_patch_file)))"
    by code_simp
  have "foldr patch_hunk (wp_hunks demo_patch_file) demo_lines = [''a'', ''B'', ''C'', ''c'', ''d'', ''e'', ''f'', ''new'', ''g'']"
    by code_simp
  then show ?thesis
    using suggestions_give_patch [OF one none patch fits ins, of "''now''"] unfolding demo_candidates_def by argo
qed

theorem suggestions_in_diff_witness:
  "\<exists>c p h. c \<in> set demo_candidates \<and> pr_patch demo_pr_files (sc_path c) = Some p \<and> h \<in> set (parsePatchHunks p) \<and>
     new_start h \<le> sc_start_line c \<and> sc_line c < new_start h + new_count h"
proof -
  have "demo_candidates \<noteq> []" by code_simp
  then have c: "hd demo_candidates \<in> set demo_candidates" by simp
  have "\<forall>c \<in> set demo_candidates. \<exists>p h. pr_patch demo_pr_files (sc_path c) = Some p \<and> h \<in> set (parsePatchHunks p) \<and>
      1 \<le> new_start h \<and> new_start h \<le> sc_start_line c \<and> sc_start_line c \<le> sc_line c \<and> sc_line c < new_start h + new_count h"
    using suggestions_in_diff [OF refl, of "''bad''" "''now''" demo_fix demo_pr_files True] unfolding demo_candidates_def
    by (rule conjunct1)
  from bspec [OF this c] show ?thesis using c by (elim exE conjE) (intro exI conjI)
qed

definition demo_narrow_pr :: "pull_request_file list" where
  "demo_narrow_pr = [\<lparr>pf_filename = ''app.py'', pf_patch = Some (join_lines [''@@ -2,1 +2,1 @@'', ''-x'', ''+b''])\<rparr>]"

definition demo_wide_fix :: string where
  "demo_wide_fix = join_lines (demo_file_header @
     [''@@ -1,4 +1,3 @@'', '' a'', ''-b'', ''-c'', ''+bc'', '' d''])"

definition demo_wide_hunk :: workspace_hunk where
  "demo_wide_hunk = hd (wp_hunks (hd (parseWorkspacePatch ''bad'' demo_wide_fix)))"

text \<open>C25. A fix of one block that reaches beyond the hunk of the pull request it is anchored to is suggested for the part inside, but with its
  whole replacement. Accepting that suggestion is not the fix: the lines of the block outside the hunk, which the fix replaces, stay in the
  file above and below the replacement. (The file is patched once, by one hunk that applies to it and yields one block, within the
  file, whose added text does not end in white space.)\<close>

theorem clamped_suggestion_keeps_line:
  assumes "filter (\<lambda>f. wp_path f = path) (parseWorkspacePatch malformed patch_content) = [f]" "wp_path_error f = None"
    "pr_patch files path = Some p" "wp_hunks f = [hk]" "applies hk old" "clean_runs (numbered (old_start hk) (hunk_lines hk))"
    "splitWorkspaceHunkIntoSuggestionBlocks hk = [b]" "nat (sb_line b) \<le> length old"
    "findAnchoringHunkForBlock b (parsePatchHunks p) = Some h" "\<not> within_anchor (parsePatchHunks p) b"
  shows "\<exists>before top inside bottom after repl.
     old = before @ top @ inside @ bottom @ after \<and> top @ bottom \<noteq> [] \<and>
     patch_hunk hk old = before @ repl @ after \<and>
     foldr accept_candidate (filter (\<lambda>c. sc_path c = path)
       (candidates (buildSuggestionManifest malformed now patch_content files True))) old = before @ top @ repl @ bottom @ after"
proof -
  have f: "f \<in> set (parseWorkspacePatch malformed patch_content)" "wp_path f = path"
    using assms(1) by (metis (mono_tags, lifting) filter_eq_ConsD in_set_conv_decomp)+
  have "promotable hk" using parsed_lines_ok [OF f(1)] assms(4,6) by (simp add: patch_lines_ok_def promotable_def)
  then have patched: "patch_hunk hk old = accept_block b old" using accept_hunk [of hk old] assms(5,7) by simp
  have "file_candidates files f = block_candidate path (parsePatchHunks p) b"
    using assms(2-4,7) f(2) by (simp add: file_candidates_def)
  then have suggested: "filter (\<lambda>c. sc_path c = path) (candidates (buildSuggestionManifest malformed now patch_content files True)) =
      block_candidate path (parsePatchHunks p) b"
    by (metis manifest_candidates filter_one_file [OF assms(1)])
  note clamped = clamped_block [OF assms(9,10,8), of path]
  then show ?thesis unfolding patched suggested .
qed

theorem clamped_suggestion_keeps_line_witness:
  "foldr accept_candidate (candidates (buildSuggestionManifest ''bad'' ''now'' demo_wide_fix demo_narrow_pr True))
     [''a'', ''b'', ''c'', ''d''] \<noteq> patch_hunk demo_wide_hunk [''a'', ''b'', ''c'', ''d'']"
proof -
  let ?old = "[''a'', ''b'', ''c'', ''d'']" and ?p = "the (pf_patch (hd demo_narrow_pr))"
  let ?f = "hd (parseWorkspacePatch ''bad'' demo_wide_fix)" and ?b = "hd (splitWorkspaceHunkIntoSuggestionBlocks demo_wide_hunk)"
  have parsed: "filter (\<lambda>f. wp_path f = ''app.py'') (parseWorkspacePatch ''bad'' demo_wide_fix) = [?f]" "wp_path_error ?f = None"
    "pr_patch demo_narrow_pr ''app.py'' = Some ?p" "wp_hunks ?f = [demo_wide_hunk]" "applies demo_wide_hunk ?old"
    "clean_runs (numbered (old_start demo_wide_hunk) (hunk_lines demo_wide_hunk))"
    "splitWorkspaceHunkIntoSuggestionBlocks demo_wide_hunk = [?b]" "nat (sb_line ?b) \<le> length ?old"
    "findAnchoringHunkForBlock ?b (parsePatchHunks ?p) = Some (hd (parsePatchHunks ?p))" "\<not> within_anchor (parsePatchHunks ?p) ?b"
    by code_simp+
  have "filter (\<lambda>c. sc_path c = ''app.py'') (candidates (buildSuggestionManifest ''bad'' ''now'' demo_wide_fix demo_narrow_pr True)) =
      candidates (buildSuggestionManifest ''bad'' ''now'' demo_wide_fix demo_narrow_pr True)" by code_simp
  then show ?thesis using clamped_suggestion_keeps_line [OF parsed, of "''now''"]
    by (elim exE conjE) (auto dest: arg_cong [of _ _ length])
qed

text \<open>Lines appended at the end of a hunk are anchored to the line after the context they repeat, and would take its place.\<close>

theorem appended_lines_misplaced:
  "splitWorkspaceHunkIntoSuggestionBlocks
     \<lparr>old_start = 4, old_count = 1, new_start = 4, new_count = 2, hunk_lines = ['' d'', ''+new'']\<rparr> =
     [\<lparr>sb_start_line = 5, sb_line = 5, sb_replacement = join_lines [''d'', ''new'']\<rparr>]"
  by code_simp

end
