(* ===== verification/Spec2Isabelle.thy ===== *)
theory Spec2Isabelle
  imports CatalogServer StatisticsHistory Recovery Workers Ingress SuggestionPatch
begin

text \<open>
  A verification of the two services of the security review bot that keep state: Review Runs
  (\<^verbatim>\<open>services/review-runs\<close>), which coordinates the runs, with its connector, and the memory catalog
  (\<^verbatim>\<open>services/memory-catalog\<close>), which keeps what the reviews remember.

  Review Runs. A connector (the GitHub integration) admits a run, prepares its input, the service submits it to the Execution API,
  observes it, and hands the result back to the connector to publish. All state is in PostgreSQL; the service, its replicas and the
  connector meet only there.

  A run has a trunk row and three axes, each a row with a status: preparation, execution, publication. Work
  on an axis is claimed with a token and a lease; a claimant that lost its lease must not write. Publication is a set of steps with
  retry and reconciliation budgets. Every transition appends an event to the audit log in the same transaction; a failure or a parked axis
  queues a notice for the requester. A second coordinator counts the model calls of finished executions into statistics.

  The memory catalog. A worker reserves the publication of an extraction or a revision, stores the object, confirms it, and registers
  it; a revision becomes the active one of its memory by a swap against the revision it was computed from. Selections and active
  revisions are history that is never rewritten.

  The theories, in the order of the program's layers:
    \<^item> Systems: the locales \<open>invariant_system\<close> and \<open>directed_system\<close> of a step relation with an invariant and with a
      direction. They are interpreted on the run store, the memory catalog and the statistics store.
    \<^item> Prelude, RunTables: instants, JSON, tables as lists of rows, the SQL statement patterns, rows as records, errors as a
      datatype, \<^verbatim>\<open>database/transaction.ts\<close>. A store operation is a function from the database to its result or thrown error
      and the committed database.
    \<^item> EventLog, RunNotices, RunRecord, CrossAxis: \<^verbatim>\<open>review-run-events.ts\<close>, \<^verbatim>\<open>run-notices.ts\<close>,
      \<^verbatim>\<open>run-record-projection.ts\<close> and \<^verbatim>\<open>shapes.ts\<close>, \<^verbatim>\<open>execution-skip.ts\<close> and \<^verbatim>\<open>publication-abandon.ts\<close>.
    \<^item> RunInvariant: the schema's constraints and the cross-axis conditions, as the invariant \<open>db_inv\<close>.
    \<^item> AdmissionStore, CandidateStore, PreparationStore, SubmissionStore, ExecutionStore, PublicationStore,
      PublicationClaimStore, OperatorDecisions, NoticeDelivery: one theory per store of \<^verbatim>\<open>persistence/\<close>, every operation with
      its guards, its event and its notice, and the lemma that it keeps \<open>db_inv\<close>.
    \<^item> StateMachines: \<^verbatim>\<open>state-machines.generated.ts\<close>, the contract's three state machines as data.
    \<^item> Progress: the relation \<open>advances\<close> (append-only log of legal edges, concluded rows and delivered steps kept), proved of every
      operation from the rules for its statements.
    \<^item> Lifecycle: the step relation \<open>store_step\<close> with one rule per operation, and its reachable states, an
      interpretation of both locales.
    \<^item> Scenario: concrete histories, the inputs of the instances of the theorems.
    \<^item> Fencing: a claimant whose lease was taken over can no longer write, call by call, for publishers, preparers and replays; the one
      call that writes before it is refused, the claim of a publication step, only derives the status of the publication.
    \<^item> Text, Paging, Queries, ReadModel: JavaScript text helpers; pages below a key; \<^verbatim>\<open>review-run-queries.ts\<close> (paging cursors, run lists, the coordinator's
      queues, the operator's list) and what the reads return on a reachable store.
    \<^item> ExecutionClient: \<^verbatim>\<open>execution-client.ts\<close> and \<^verbatim>\<open>bounded-response.ts\<close>: the request loop, the bounded body, the checks of an
      answer.
    \<^item> Runtime, Coordination, Recovery: \<^verbatim>\<open>runtime/\<close>: actions that call the store, one turn of a schedule per call. A turn says what the others
      committed since the last one and whether the connection is lost before or after the commit. The coordinator's pass, the
      prepared submission and the recovery of a lost one. That all of it is made of store operations, what one observation records, and,
      beside other processes that leave the run alone, what becomes of an accepted submission and that passes park one that stays unknown.
    \<^item> Connector, Publishing: the publication half of \<^verbatim>\<open>apps/github-integration\<close> as actions on the same store through the HTTP
      surface: errors on the wire, their classification, the step protocol, the lease, the three publishers and the pass. What they
      keep of the store on every schedule, and what a publisher that returns has recorded.
    \<^item> Delivery, Faults: total correctness triples of the publisher on quiet schedules: a pass publishes what it claims, and the
      three places where the handling of a failure loses or repeats work.
    \<^item> Validation: what the connector accepts before it acts: changed paths, deliveries and branch names of a result, repository names
      and the dispatch of a repository scan.
    \<^item> Preparing, Notifying, Workers: the connector's two other workers, as actions like the publisher's: input preparation with its
      lease, the reservation, upload and submission of an input bundle and its recovery, and the delivery of notices. That all three workers
      only perform store operations, that a claimed notice is settled, and what a submission without an answer leads to.
    \<^item> StoredInputs, Ingress: the contexts read from a webhook payload, the preparation inputs stored of them and the parsers of
      \<^verbatim>\<open>preparation-input.ts\<close>; the five webhook handlers with the origin guard, the comment commands, the permission of a
      commenter and the trigger configuration; the window of a pull request review. Which events start a review, and that what they
      store is recovered.
    \<^item> Suggestions, SuggestionPatch: \<^verbatim>\<open>suggestion-service.ts\<close>: from a mitigation patch to inline suggestions, that accepting them
      all gives the patched file, and where it does not.
    \<^item> Statistics, Aggregation: \<^verbatim>\<open>execution-statistics.ts\<close>: the page-by-page read of a run's model calls, their groups and
      totals, and that these are the direct counts, whatever the order of the calls.
    \<^item> StatisticsStore, StatisticsHistory: \<^verbatim>\<open>execution-statistics-store.ts\<close> and \<^verbatim>\<open>execution-statistics-coordinator.ts\<close>: claims,
      snapshots, failures and rate limits as a step relation on the statistics rows, its invariant, that a pass of the coordinator is a
      sequence of its steps, what each answer of Langfuse makes of a claimed run, and that two equal snapshots conclude it.
    \<^item> Catalog, CatalogInvariant, CatalogHistory: \<^verbatim>\<open>catalog-store.ts\<close>: reservation, confirmation, registration and creation with
      their replays, the invariant of the catalog, and what every history keeps.
    \<^item> CatalogQueries, CatalogReads, CatalogServer: \<^verbatim>\<open>catalog-queries.ts\<close> and \<^verbatim>\<open>server.ts\<close>: lists, lookups and cursors and what a
      reader that follows the pages sees; the routes with their roles, actors and answers.
    \<^item> This theory: the properties that span the stores.

  Conventions of the model. Tokens (\<^verbatim>\<open>crypto.randomUUID()\<close>) and clock readings are arguments; an operation reads the
  clock once. Rows locked by other transactions (\<^verbatim>\<open>SKIP LOCKED\<close>) are a predicate argument. \<^verbatim>\<open>ORDER BY\<close> is a stable sort. A read that
  is not in the transaction that acts on it takes its own, possibly older, database as an argument. A store operation itself does not
  fail in the database; a lost connection is a fault of the turn that calls it. The identity gaps a rolled-back insert leaves are not
  modelled. The polling loop of a publication claim and the retries of a request run on fuel: the number of polls that fit into
  the bounded wait and the number of attempts, proved to be enough. A read of many pages runs on fuel
  too: for Langfuse any number of pages, where \<open>None\<close> is a read that is given cursors beyond them (the code follows cursors as long as it
  gets them, and a read that ends is the same with more fuel), and for a reader of a catalog list the number of rows, which is
  enough because a page that is followed by another is not empty. The heartbeat timer of the connector is the predicate that
  says before which calls one of its renewals failed.

  Text is the list of its UTF-8 bytes in Text and Suggestions, and of code units below 256 in the theories of the connector. Line
  numbers are exact integers.

  Not modelled: request validation, authentication and the read and admin routes of the HTTP surface of Review Runs; database
  connection and migration; the connector's process start, signature checks and Actions entry point, the parser of a setup
  declaration, git workspaces and archives, Octokit calls and Markdown rendering; the user interface, which keeps no state of its own
  in a store; the Python agents and execution gateway; and the contract generators with what they generate.
\<close>

section \<open>Every history of the store\<close>

lemma parked_told:
  assumes "db_inv db" "pub_of db c k = Some b"
  shows "\<exists>e. exec_of db c k = Some e \<and> told_ok (exec_status e) (pub_status b) (notice_rows db c k)"
  using invD(3) [OF assms(1), of c k] assms(2) by (auto elim!: run_okE)

lemma reachable_axes:
  assumes "reachable db" "prep_of db c k = Some p" "exec_of db c k = Some e" "pub_of db c k = Some b"
  shows "axes_ok (prep_status p) (exec_status e) (pub_status b)" "prep_budget p" "prep_check p" "exec_check e"
    "pub_check b" "pub_owned b" "steps_ok (exec_status e) (pub_status b) (steps_of db c k)"
    "audit_ok db c k (prep_status p) (exec_status e) (pub_status b)"
    "told_ok (exec_status e) (pub_status b) (notice_rows db c k)" "cands_ok (exec_input e) (cands_of db c k)"
  using invD(3) [OF reachable_invD [OF assms(1)], of c k] assms(2-4) by (auto elim!: run_okE)

text \<open>C1. Every interleaving of the store's operations, from the empty schema, leads to a state that satisfies
  the keys, the CHECK constraints and the cross-axis, step, candidate, audit and notice conditions of \<open>db_inv\<close>.\<close>

theorem reachable_consistent: "reachable db \<Longrightarrow> db_inv db"
  by (rule reachable_invD)

theorem reachable_consistent_witness: "reachable demo_parked \<and> db_inv demo_parked"
  by (intro conjI demo_parked_reachable reachable_consistent)

text \<open>C2. Terminal states absorb: whatever happens after, a concluded preparation and a concluded publication
  stay as they are in every column, and a concluded execution keeps its status, result, input, failure and time.\<close>

theorem conclusions_final:
  assumes "reachable db" "store_step\<^sup>*\<^sup>* db db'"
  shows "(\<forall>p. prep_of db c k = Some p \<and> prep_final (prep_status p) \<longrightarrow> prep_of db' c k = Some p) \<and>
     (\<forall>e. exec_of db c k = Some e \<and> exec_final (exec_status e) \<longrightarrow>
        (\<exists>e'. exec_of db' c k = Some e' \<and> same_conclusion e e')) \<and>
     (\<forall>b. pub_of db c k = Some b \<and> pub_final (pub_status b) \<longrightarrow> pub_of db' c k = Some b)"
  using store.dir_steps [OF assms(2) reachable_invD [OF assms(1)]] keptD [of db db' c k]
  by (simp add: advances_def)

theorem conclusions_final_witness:
  "\<exists>p. prep_of demo_succeeded ''github:1'' ''run-1'' = Some p \<and> prep_status p = PrepSubmitted \<and>
     prep_of demo_claimed ''github:1'' ''run-1'' = Some p"
proof -
  have "map_option prep_status (prep_of demo_succeeded ''github:1'' ''run-1'') = Some PrepSubmitted" by code_simp
  then obtain p where "prep_of demo_succeeded ''github:1'' ''run-1'' = Some p" "prep_status p = PrepSubmitted" by auto
  then show ?thesis
    using conclusions_final [OF demo_reachable(3) demo_steps(3), of "''github:1''" "''run-1''"]
    by (simp add: prep_final_def)
qed

text \<open>C3. A published run is one whose execution succeeded, all of whose publication steps succeeded, and about
  which no failure notice exists.\<close>

theorem published_means_delivered:
  assumes "reachable db" "pub_of db c k = Some b" "pub_status b = PubPublished"
  shows "(\<exists>e. exec_of db c k = Some e \<and> exec_status e = ExecSucceeded) \<and>
     (\<forall>s \<in> set (steps_of db c k). step_status s = StepSucceeded) \<and>
     (\<forall>n \<in> set (notice_rows db c k). notice_kind n \<noteq> NoticeFailure)"
proof (rule reachable_run [OF assms(1,2)])
  fix p e
  assume run: "exec_of db c k = Some e" "axes_ok (prep_status p) (exec_status e) (pub_status b)"
    "steps_ok (exec_status e) (pub_status b) (steps_of db c k)"
    "told_ok (exec_status e) (pub_status b) (notice_rows db c k)"
  then have "exec_status e = ExecSucceeded" using assms(3) axes_publishing(1) by simp
  with run assms(3) show ?thesis
    by (auto simp: steps_ok_def told_ok_def run_failed_def is_failure_def filter_empty_conv)
qed

theorem published_means_delivered_witness:
  "list_all (\<lambda>s. step_status s = StepSucceeded) (steps_of demo_published ''github:1'' ''run-1'')"
proof -
  obtain b where "pub_of demo_published ''github:1'' ''run-1'' = Some b" "pub_status b = PubPublished"
    using demo_states(1) by auto
  then show ?thesis using published_means_delivered [OF demo_reachable(9)] by (simp add: list_all_iff)
qed

text \<open>C4. A publication step that succeeded stays succeeded and keeps the remote object it created, so no later
  publisher can run it again.\<close>

theorem delivered_steps_kept:
  assumes "reachable db" "store_step\<^sup>*\<^sup>* db db'" "s \<in> set (steps_of db c k)" "step_status s = StepSucceeded"
  shows "\<exists>s' \<in> set (steps_of db' c k). step_key s' = step_key s \<and> step_status s' = StepSucceeded \<and>
     step_remote_object_id s' = step_remote_object_id s \<and> step_remote_object_url s' = step_remote_object_url s"
  using store.dir_steps [OF assms(2) reachable_invD [OF assms(1)]] deliveredD [of db db' s c k] assms(3,4)
  by (auto simp: advances_def same_delivery_def)

theorem delivered_steps_kept_witness:
  "\<exists>s \<in> set (steps_of demo_published ''github:1'' ''run-1''). step_remote_object_id s = Some ''99''"
proof -
  have "\<exists>s \<in> set (steps_of demo_delivered ''github:1'' ''run-1'').
      step_status s = StepSucceeded \<and> step_remote_object_id s = Some ''99''"
    by code_simp
  then obtain s where "s \<in> set (steps_of demo_delivered ''github:1'' ''run-1'')" "step_status s = StepSucceeded"
    "step_remote_object_id s = Some ''99''"
    by blast
  then show ?thesis using delivered_steps_kept [OF demo_reachable(8) demo_steps(1)] by fastforce
qed

text \<open>C5. The audit log is append-only, and every event in it is an edge the contract's state machines declare,
  except two edges the code writes and the contract omits: publishing to disconnected, and uncertain to failed.\<close>

theorem audit_log_refines_contract:
  assumes "reachable db" "store_step\<^sup>*\<^sup>* db db'"
  shows "(\<exists>es. review_run_events db' = review_run_events db @ es) \<and>
     (\<forall>ev \<in> set (review_run_events db'). case event_from_status ev of
        None \<Rightarrow> event_to_status ev \<in> {PrepS PrepPreparing, ExecS ExecPending, PubS PubPending}
      | Some f \<Rightarrow> declared (event_axis ev) f (event_to_status ev) \<or>
          (f, event_to_status ev) \<in> {(PubS PubPublishing, PubS PubDisconnected), (PubS PubUncertain, PubS PubFailed)})"
proof -
  have "reachable db'" using assms unfolding reachable_def by (rule rtranclp_trans)
  then have "legal_event ev" if "ev \<in> set (review_run_events db')" for ev
    using reachable_log that by (auto simp: list_all_iff)
  moreover have "\<exists>es. review_run_events db' = review_run_events db @ es"
    using store.dir_steps [OF assms(2) reachable_invD [OF assms(1)]] by (auto simp: advances_def log_extends_def)
  ultimately show ?thesis by (fastforce simp: legal_event_def undeclared_def split: option.split)
qed

theorem audit_log_refines_contract_witness:
  "\<exists>es. review_run_events demo_claimed = review_run_events demo_succeeded @ es"
  using audit_log_refines_contract [OF demo_reachable(3) demo_steps(3)] by blast

text \<open>The snapshot and the log agree: the newest event of each axis ends in the status the axis row stores, and
  the preparation and execution histories have no gap, each event starting where the one before it ended.\<close>

theorem audit_matches_snapshot:
  assumes "reachable db" "prep_of db c k = Some p" "exec_of db c k = Some e" "pub_of db c k = Some b"
  shows "last_state db c k AxisPreparation = Some (PrepS (prep_status p)) \<and>
     last_state db c k AxisExecution = Some (ExecS (exec_status e)) \<and>
     last_state db c k AxisPublication = Some (PubS (pub_status b)) \<and>
     chained db c k AxisPreparation \<and> chained db c k AxisExecution"
  using reachable_axes(8) [OF assms] by (simp add: audit_ok_def)

theorem audit_matches_snapshot_witness:
  "chained demo_lost ''github:1'' ''run-1'' AxisExecution"
proof -
  have "prep_of demo_lost ''github:1'' ''run-1'' \<noteq> None \<and> exec_of demo_lost ''github:1'' ''run-1'' \<noteq> None \<and>
      pub_of demo_lost ''github:1'' ''run-1'' \<noteq> None"
    by code_simp
  then show ?thesis using audit_matches_snapshot [OF demo_lost_reachable(1)] by blast
qed

text \<open>C6. A run has exactly one failure notice when it failed and none otherwise, and a parked execution or
  publication has an attention notice that was not superseded.\<close>

theorem failure_told_once:
  assumes "reachable db" "prep_of db c k = Some p" "exec_of db c k = Some e" "pub_of db c k = Some b"
  shows "length (filter is_failure (notice_rows db c k)) =
       (if exec_status e = ExecSkipped \<or> exec_status e = ExecFailed \<or> pub_status b = PubFailed then 1 else 0) \<and>
     (exec_status e = ExecDisconnected \<longrightarrow> (\<exists>n \<in> set (notice_rows db c k). attention AxisExecution n)) \<and>
     (pub_status b = PubDisconnected \<longrightarrow> (\<exists>n \<in> set (notice_rows db c k). attention AxisPublication n))"
  using reachable_axes(9) [OF assms] by (auto simp: told_ok_def run_failed_def)

theorem failure_told_once_witness:
  "length (filter is_failure (notice_rows demo_failed ''github:1'' ''run-1'')) = 1"
proof -
  have "prep_of demo_failed ''github:1'' ''run-1'' \<noteq> None \<and> pub_of demo_failed ''github:1'' ''run-1'' \<noteq> None \<and>
      map_option exec_status (exec_of demo_failed ''github:1'' ''run-1'') = Some ExecFailed"
    by code_simp
  then obtain p e b where "prep_of demo_failed ''github:1'' ''run-1'' = Some p"
    "exec_of demo_failed ''github:1'' ''run-1'' = Some e" "pub_of demo_failed ''github:1'' ''run-1'' = Some b"
    "exec_status e = ExecFailed"
    by auto
  then show ?thesis using failure_told_once [OF demo_reachable(4), of "''github:1''" "''run-1''" p e b] by simp
qed

text \<open>The axes of a run agree: while preparation is open the execution has not started, a submitted preparation
  has a live or finished execution, publication waits until execution succeeds, and it is skipped exactly when execution was skipped
  or failed.\<close>

theorem axes_agree:
  assumes "reachable db" "prep_of db c k = Some p" "exec_of db c k = Some e" "pub_of db c k = Some b"
  shows "(prep_status p \<in> {PrepPending, PrepPreparing, PrepUncertain} \<longleftrightarrow> exec_status e = ExecPending) \<and>
     (prep_status p = PrepSubmitted \<longrightarrow> exec_status e \<in> {ExecQueued, ExecRunning, ExecSucceeded, ExecFailed}) \<and>
     (pub_status b \<in> {PubPublishing, PubUncertain, PubDisconnected, PubPublished, PubFailed} \<longrightarrow>
        exec_status e = ExecSucceeded) \<and>
     (pub_status b = PubSkipped \<longleftrightarrow> exec_status e \<in> {ExecSkipped, ExecFailed})"
  using reachable_axes(1) [OF assms] by (cases "pub_status b"; cases "exec_status e"; simp add: axes_ok_def)

theorem axes_agree_witness:
  "\<exists>b. pub_of demo_failed ''github:1'' ''run-1'' = Some b \<and> pub_status b = PubSkipped"
proof -
  have "prep_of demo_failed ''github:1'' ''run-1'' \<noteq> None \<and> pub_of demo_failed ''github:1'' ''run-1'' \<noteq> None \<and>
      map_option exec_status (exec_of demo_failed ''github:1'' ''run-1'') = Some ExecFailed"
    by code_simp
  then obtain p e b where "prep_of demo_failed ''github:1'' ''run-1'' = Some p"
    "exec_of demo_failed ''github:1'' ''run-1'' = Some e" "pub_of demo_failed ''github:1'' ''run-1'' = Some b"
    "exec_status e = ExecFailed"
    by auto
  then show ?thesis using axes_agree [OF demo_reachable(4), of "''github:1''" "''run-1''" p e b] by simp
qed

text \<open>C7. The retry budgets hold in every history: at most eight preparation attempts, and at most three
  attempts and three reconciliations of a publication step.\<close>

theorem budgets_bound:
  assumes "reachable db"
  shows "(\<forall>p. prep_of db c k = Some p \<longrightarrow> prep_attempt_count p \<le> 8) \<and>
     (\<forall>s \<in> set (steps_of db c k). step_attempt_count s \<le> 3 \<and> step_recovery_attempt_count s \<le> 3)"
  using invD(3) [OF reachable_invD [OF assms], of c k]
  by (cases rule: run_okE) (auto simp: prep_budget_def steps_ok_def step_ok_def)

theorem budgets_bound_witness:
  "list_all (\<lambda>s. step_recovery_attempt_count s \<le> 3) (steps_of demo_parked ''github:1'' ''run-1'')"
  using budgets_bound [OF demo_parked_reachable(3), of "''github:1''" "''run-1''"] by (simp add: list_all_iff)

text \<open>At most one input bundle of a run is selected, and it is the input the execution was given.\<close>

theorem one_selected_input:
  assumes "reachable db" "exec_of db c k = Some e"
  shows "length (filter (\<lambda>x. cand_status x = CandSelected) (cands_of db c k)) \<le> 1 \<and>
     (\<forall>x \<in> set (cands_of db c k). cand_status x = CandSelected \<longrightarrow> exec_input e = Some (cand_input x))"
  using invD(3) [OF reachable_invD [OF assms(1)], of c k] assms(2)
  by (cases rule: run_okE) (auto simp: cands_ok_def)

theorem one_selected_input_witness:
  "length (filter (\<lambda>x. cand_status x = CandSelected) (cands_of demo_saved ''github:1'' ''run-1'')) \<le> 1"
proof -
  have "exec_of demo_saved ''github:1'' ''run-1'' \<noteq> None" by code_simp
  then show ?thesis using one_selected_input [OF demo_upload_reachable(2)] by blast
qed

text \<open>A preparation never parks: no history has a disconnected preparation, so each of the three operator
  decisions about one answers 409 and writes nothing.\<close>

theorem preparation_never_parks:
  assumes "reachable db" "\<not> blank reason"
  shows "(\<forall>p. prep_of db c k = Some p \<longrightarrow> prep_status p \<noteq> PrepDisconnected) \<and>
     resumeDisconnectedPreparation cfg now k db = (Inl (not_disconnected k ''preparation.''), db) \<and>
     giveUpDisconnectedPreparation cfg now k reason db = (Inl (not_disconnected k ''preparation.''), db) \<and>
     abandonBlockedPreparation cfg now k reason db = (Inl (not_disconnected k ''preparation.''), db)"
proof -
  have "prep_status p \<noteq> PrepDisconnected" if "prep_of db c k = Some p" for p
    using invD(3) [OF reachable_invD [OF assms(1)], of c k] that by (auto elim!: run_okE simp: axes_ok_def)
  then show ?thesis using preparation_decisions_409 [OF reachable_invD [OF assms(1)]] assms(2) by simp
qed

theorem preparation_never_parks_witness:
  "abandonBlockedPreparation demo_cfg 9 ''run-1'' ''stuck'' demo_lost =
     (Inl (not_disconnected ''run-1'' ''preparation.''), demo_lost)"
proof -
  have "\<not> blank ''stuck''" by code_simp
  then show ?thesis using preparation_never_parks [OF demo_lost_reachable(1)] by blast
qed

end
